(* ===== verification/Prelude.thy ===== *)
theory Prelude
  imports Main "HOL-Library.AList"
begin

text \<open>
  Shared vocabulary of the development.

  \<^item> Results: TypeScript exceptions are values of a sum type, \<open>Inl\<close> the thrown error and
    \<open>Inr\<close> the returned value; \<open>res_bind\<close> sequences two throwing computations, \<open>map_res\<close> and
    \<open>fold_res\<close> are a throwing \<open>Array.map\<close> and a loop whose body may throw.
  \<^item> JavaScript's \<open>Map\<close> iterates in insertion order and \<open>set\<close> keeps the position of an existing
    key: that is an association list under \<open>AList.update\<close> and \<open>AList.delete\<close>, read by \<open>map_of\<close>.
    JavaScript's \<open>Set\<close> is a distinct list under \<open>set_add\<close>.
  \<^item> SQL: \<open>update_where\<close> is \<open>UPDATE .. SET .. WHERE\<close> on a table kept as the list of its rows and
    \<open>returning\<close> the rows it reports.
\<close>

named_theorems result_simps "case analysis of results of throwing computations"
named_theorems jsmap_simps "JavaScript Map and Set as lists"
named_theorems table_simps "SQL updates on tables kept as lists of rows"

section \<open>Computations that may throw\<close>

fun res_bind :: "'e + 'a \<Rightarrow> ('a \<Rightarrow> 'e + 'b) \<Rightarrow> 'e + 'b" where
  "res_bind (Inl e) f = Inl e"
| "res_bind (Inr x) f = f x"

lemma res_bind_cong [fundef_cong]:
  "m = m' \<Longrightarrow> (\<And>x. m' = Inr x \<Longrightarrow> f x = g x) \<Longrightarrow> res_bind m f = res_bind m' g"
  by (cases m') auto

lemma res_bind_Inr_iff [result_simps]:
  "res_bind m f = Inr y \<longleftrightarrow> (\<exists>x. m = Inr x \<and> f x = Inr y)"
  by (cases m) auto

lemma res_bind_Inl_iff [result_simps]:
  "res_bind m f = Inl e \<longleftrightarrow> m = Inl e \<or> (\<exists>x. m = Inr x \<and> f x = Inl e)"
  by (cases m) auto

lemma res_bind_assoc: "res_bind (res_bind m f) g = res_bind m (\<lambda>x. res_bind (f x) g)"
  by (cases m) auto

lemma res_bind_Inr_right [simp]: "res_bind m Inr = m"
  by (cases m) auto

fun map_res :: "('a \<Rightarrow> 'e + 'b) \<Rightarrow> 'a list \<Rightarrow> 'e + 'b list" where
  "map_res f [] = Inr []"
| "map_res f (x # xs) = res_bind (f x) (\<lambda>y. res_bind (map_res f xs) (\<lambda>ys. Inr (y # ys)))"

fun fold_res :: "('a \<Rightarrow> 's \<Rightarrow> 'e + 's) \<Rightarrow> 'a list \<Rightarrow> 's \<Rightarrow> 'e + 's" where
  "fold_res f [] s = Inr s"
| "fold_res f (x # xs) s = res_bind (f x s) (fold_res f xs)"

lemma fold_res_Nil_fun [simp]: "fold_res f [] = Inr"
  by (rule ext) simp

lemma map_res_Inr_length: "map_res f xs = Inr ys \<Longrightarrow> length ys = length xs"
  by (induction xs arbitrary: ys) (auto simp: result_simps)

lemma map_res_pure [simp]: "map_res (\<lambda>x. Inr (f x)) xs = Inr (map f xs)"
  by (induction xs) auto

lemma fold_res_append: "fold_res f (xs @ ys) s = res_bind (fold_res f xs s) (fold_res f ys)"
  by (induction xs arbitrary: s) (simp_all add: res_bind_assoc cong: res_bind_cong)

lemma fold_res_concat:
  "fold_res f (concat xss) s = fold_res (fold_res f) xss s"
  by (induction xss arbitrary: s) (auto simp: fold_res_append intro!: res_bind_cong)

lemma fold_res_map: "fold_res f (map g xs) s = fold_res (\<lambda>x. f (g x)) xs s"
  by (induction xs arbitrary: s) (auto intro!: res_bind_cong)

lemma fold_res_invariant:
  assumes "fold_res f xs s = Inr t" and "P s"
    and "\<And>x s t. x \<in> set xs \<Longrightarrow> P s \<Longrightarrow> f x s = Inr t \<Longrightarrow> P t"
  shows "P t"
  using assms by (induction xs arbitrary: s) (auto simp: result_simps)

text \<open>A loop that accumulates: each turn establishes its fact and later turns preserve it.\<close>

lemma fold_res_establish:
  assumes "fold_res f xs s = Inr t" and "I s"
    and step: "\<And>x s s'. x \<in> set xs \<Longrightarrow> I s \<Longrightarrow> f x s = Inr s' \<Longrightarrow> I s' \<and> R s s' \<and> P x s'"
    and refl: "\<And>s. R s s" and trans: "\<And>s s' s''. R s s' \<Longrightarrow> R s' s'' \<Longrightarrow> R s s''"
    and mono: "\<And>x s s'. P x s \<Longrightarrow> R s s' \<Longrightarrow> P x s'"
  shows "I t \<and> R s t \<and> (\<forall>x \<in> set xs. P x t)"
  using assms(1,2) step
proof (induction xs arbitrary: s)
  case Nil
  then show ?case by (simp add: refl)
next
  case (Cons x xs)
  then obtain s' where s': "f x s = Inr s'" "fold_res f xs s' = Inr t"
    by (auto simp: result_simps)
  have x: "I s' \<and> R s s' \<and> P x s'" by (rule Cons.prems(3) [OF _ Cons.prems(2) s'(1)]) simp
  have "I t \<and> R s' t \<and> (\<forall>x \<in> set xs. P x t)"
  proof (rule Cons.IH [OF s'(2)])
    show "I s'" using x by simp
    show "I u' \<and> R u u' \<and> P y u'" if "y \<in> set xs" "I u" "f y u = Inr u'" for y u u'
      by (rule Cons.prems(3) [OF _ that(2,3)]) (simp add: that(1))
  qed
  with x trans mono show ?case by (auto intro: trans mono)
qed

lemma fold_res_total [simp]: "fold_res (\<lambda>x s. Inr (f x s)) xs s = Inr (fold f xs s)"
  by (induction xs arbitrary: s) auto

text \<open>The last element that satisfies a predicate: what a \<open>Map\<close> holds after a loop that sets it.\<close>

definition last_where :: "('a \<Rightarrow> bool) \<Rightarrow> 'a list \<Rightarrow> 'a option" where
  "last_where P xs = (if filter P xs = [] then None else Some (last (filter P xs)))"

lemma last_where_Some: "last_where P xs = Some x \<Longrightarrow> x \<in> set xs \<and> P x"
  using last_in_set [of "filter P xs"] by (auto simp: last_where_def split: if_splits)

lemma last_where_None: "last_where P xs = None \<longleftrightarrow> (\<forall>x \<in> set xs. \<not> P x)"
  by (auto simp: last_where_def filter_empty_conv)

lemma last_where_snoc:
  "last_where P (xs @ [x]) = (if P x then Some x else last_where P xs)"
  by (simp add: last_where_def)

text \<open>A map whose body also threads a mutable state, and may throw.\<close>

fun map_state :: "('s \<Rightarrow> 'a \<Rightarrow> 'e + 'b \<times> 's) \<Rightarrow> 's \<Rightarrow> 'a list \<Rightarrow> 'e + 'b list \<times> 's" where
  "map_state f s [] = Inr ([], s)"
| "map_state f s (x # xs) =
     res_bind (f s x) (\<lambda>(y, s1). res_bind (map_state f s1 xs) (\<lambda>(ys, s2). Inr (y # ys, s2)))"

text \<open>Only the state of such a map: a loop over its elements.\<close>

lemma map_state_state:
  assumes "\<And>x s. x \<in> set xs \<Longrightarrow> res_bind (f s x) (\<lambda>(y, s'). Inr s') = g x s"
  shows "res_bind (map_state f s xs) (\<lambda>(ys, s'). Inr s') = fold_res g xs s"
  using assms
proof (induction xs arbitrary: s)
  case Nil
  then show ?case by simp
next
  case (Cons x xs)
  have "g x s = res_bind (f s x) (\<lambda>(y, s'). Inr s')"
    using Cons.prems by simp
  moreover have "res_bind (map_state f t xs) (\<lambda>(ys, s'). Inr s') = fold_res g xs t" for t
    using Cons by simp
  ultimately show ?case
    by (cases "f s x") (auto simp: res_bind_assoc split_def)
qed

text \<open>A map whose state is of no consequence.\<close>

lemma map_state_pure:
  assumes "\<And>x s. x \<in> set xs \<Longrightarrow> f s x = res_bind (g x) (\<lambda>y. Inr (y, s))"
  shows "map_state f s xs = res_bind (map_res g xs) (\<lambda>ys. Inr (ys, s))"
  using assms
proof (induction xs arbitrary: s)
  case Nil
  then show ?case by simp
next
  case (Cons x xs)
  then show ?case by (cases "g x") (simp_all add: res_bind_assoc)
qed

lemma map_state_cong [fundef_cong]:
  "xs = ys \<Longrightarrow> s = t \<Longrightarrow> (\<And>s x. x \<in> set ys \<Longrightarrow> f s x = g s x) \<Longrightarrow>
   map_state f s xs = map_state g t ys"
  by (induction ys arbitrary: xs s t) (auto intro!: res_bind_cong)

lemma map_res_cong [fundef_cong]:
  "xs = ys \<Longrightarrow> (\<And>x. x \<in> set ys \<Longrightarrow> f x = g x) \<Longrightarrow> map_res f xs = map_res g ys"
  by (induction ys arbitrary: xs) (auto intro!: res_bind_cong)

lemma fold_res_cong [fundef_cong]:
  "xs = ys \<Longrightarrow> s = t \<Longrightarrow> (\<And>x s. x \<in> set ys \<Longrightarrow> f x s = g x s) \<Longrightarrow>
   fold_res f xs s = fold_res g ys t"
  by (induction ys arbitrary: xs s t) (auto intro!: res_bind_cong)

section \<open>Computations on a state that may throw\<close>

text \<open>An \<open>async\<close> function on the database: the effects made before a throw stay, except inside
  \<open>eff_tx\<close>, which is \<open>db.transaction(async (tx) => ...)\<close> and rolls them back.\<close>

type_synonym ('s, 'e, 'a) eff = "'s \<Rightarrow> ('e + 'a) \<times> 's"

definition eff_return :: "'a \<Rightarrow> ('s, 'e, 'a) eff" where
  "eff_return x = (\<lambda>s. (Inr x, s))"

definition eff_throw :: "'e \<Rightarrow> ('s, 'e, 'a) eff" where
  "eff_throw e = (\<lambda>s. (Inl e, s))"

definition eff_lift :: "'e + 'a \<Rightarrow> ('s, 'e, 'a) eff" where
  "eff_lift r = (\<lambda>s. (r, s))"

definition eff_get :: "('s \<Rightarrow> 'a) \<Rightarrow> ('s, 'e, 'a) eff" where
  "eff_get f = (\<lambda>s. (Inr (f s), s))"

definition eff_modify :: "('s \<Rightarrow> 's) \<Rightarrow> ('s, 'e, unit) eff" where
  "eff_modify f = (\<lambda>s. (Inr (), f s))"

definition eff_bind :: "('s, 'e, 'a) eff \<Rightarrow> ('a \<Rightarrow> ('s, 'e, 'b) eff) \<Rightarrow> ('s, 'e, 'b) eff" where
  "eff_bind m f = (\<lambda>s. case m s of (Inl e, s') \<Rightarrow> (Inl e, s') | (Inr x, s') \<Rightarrow> f x s')"

definition eff_catch :: "('s, 'e, 'a) eff \<Rightarrow> ('e \<Rightarrow> ('s, 'e, 'a) eff) \<Rightarrow> ('s, 'e, 'a) eff" where
  "eff_catch m h = (\<lambda>s. case m s of (Inl e, s') \<Rightarrow> h e s' | (Inr x, s') \<Rightarrow> (Inr x, s'))"

definition eff_tx :: "('s, 'e, 'a) eff \<Rightarrow> ('s, 'e, 'a) eff" where
  "eff_tx m = (\<lambda>s. case m s of (Inl e, s') \<Rightarrow> (Inl e, s) | (Inr x, s') \<Rightarrow> (Inr x, s'))"

fun eff_for :: "('a \<Rightarrow> ('s, 'e, unit) eff) \<Rightarrow> 'a list \<Rightarrow> ('s, 'e, unit) eff" where
  "eff_for f [] = eff_return ()"
| "eff_for f (x # xs) = eff_bind (f x) (\<lambda>_. eff_for f xs)"

named_theorems eff_simps "evaluation of computations on a state"

lemma eff_run [eff_simps]:
  "eff_return x s = (Inr x, s)" "eff_throw e s = (Inl e, s)" "eff_lift r s = (r, s)"
  "eff_get g s = (Inr (g s), s)" "eff_modify h s = (Inr (), h s)"
  by (simp_all add: eff_return_def eff_throw_def eff_lift_def eff_get_def eff_modify_def)

lemma eff_bind_run [eff_simps]:
  "eff_bind m f s = (case m s of (Inl e, s') \<Rightarrow> (Inl e, s') | (Inr x, s') \<Rightarrow> f x s')"
  by (simp add: eff_bind_def)

lemma eff_catch_run [eff_simps]:
  "eff_catch m h s = (case m s of (Inl e, s') \<Rightarrow> h e s' | (Inr x, s') \<Rightarrow> (Inr x, s'))"
  by (simp add: eff_catch_def)

lemma eff_tx_run [eff_simps]:
  "eff_tx m s = (case m s of (Inl e, s') \<Rightarrow> (Inl e, s) | (Inr x, s') \<Rightarrow> (Inr x, s'))"
  by (simp add: eff_tx_def)

text \<open>How a sequence that returned got there.\<close>

lemma eff_bind_InrE:
  assumes "eff_bind m f s = (Inr y, t)"
  obtains x s1 where "m s = (Inr x, s1)" "f x s1 = (Inr y, t)"
  using assms by (auto simp: eff_bind_run split: prod.splits sum.splits)

lemma eff_tx_InrD: "eff_tx m s = (Inr x, t) \<Longrightarrow> m s = (Inr x, t)"
  by (auto simp: eff_tx_run split: prod.splits sum.splits)

lemma eff_tx_InlD: "eff_tx m s = (Inl e, t) \<Longrightarrow> t = s"
  by (auto simp: eff_tx_run split: prod.splits sum.splits)

text \<open>A property of the state that a computation keeps, whether it returns or throws.\<close>

definition eff_keeps :: "('s \<Rightarrow> bool) \<Rightarrow> ('s, 'e, 'a) eff \<Rightarrow> bool" where
  "eff_keeps I m \<longleftrightarrow> (\<forall>s. I s \<longrightarrow> I (snd (m s)))"

named_theorems eff_keeps_intros "invariants of computations on a state"

lemma eff_keepsI: "(\<And>s. I s \<Longrightarrow> I (snd (m s))) \<Longrightarrow> eff_keeps I m"
  by (simp add: eff_keeps_def)

lemma eff_keepsD: "eff_keeps I m \<Longrightarrow> I s \<Longrightarrow> m s = (r, s') \<Longrightarrow> I s'"
  unfolding eff_keeps_def by (metis snd_conv)

lemma eff_keeps_basic [eff_keeps_intros]:
  "eff_keeps I (eff_return x)" "eff_keeps I (eff_throw e)" "eff_keeps I (eff_lift r)"
  "eff_keeps I (eff_get g)"
  by (simp_all add: eff_keeps_def eff_run)

lemma eff_keeps_modify: "(\<And>s. I s \<Longrightarrow> I (h s)) \<Longrightarrow> eff_keeps I (eff_modify h)"
  by (simp add: eff_keeps_def eff_run)

lemma eff_keeps_bind [eff_keeps_intros]:
  "eff_keeps I m \<Longrightarrow> (\<And>x. eff_keeps I (f x)) \<Longrightarrow> eff_keeps I (eff_bind m f)"
  unfolding eff_keeps_def by (fastforce simp: eff_bind_run split: prod.splits sum.splits)

lemma eff_keeps_catch [eff_keeps_intros]:
  "eff_keeps I m \<Longrightarrow> (\<And>e. eff_keeps I (h e)) \<Longrightarrow> eff_keeps I (eff_catch m h)"
  unfolding eff_keeps_def by (fastforce simp: eff_catch_run split: prod.splits sum.splits)

lemma eff_keeps_tx [eff_keeps_intros]: "eff_keeps I m \<Longrightarrow> eff_keeps I (eff_tx m)"
  unfolding eff_keeps_def by (fastforce simp: eff_tx_run split: prod.splits sum.splits)

lemma eff_keeps_if [eff_keeps_intros]:
  "(b \<Longrightarrow> eff_keeps I m) \<Longrightarrow> (\<not> b \<Longrightarrow> eff_keeps I n) \<Longrightarrow> eff_keeps I (if b then m else n)"
  by simp

lemma eff_keeps_option [eff_keeps_intros]:
  "(x = None \<Longrightarrow> eff_keeps I m) \<Longrightarrow> (\<And>y. x = Some y \<Longrightarrow> eff_keeps I (f y)) \<Longrightarrow>
   eff_keeps I (case x of None \<Rightarrow> m | Some y \<Rightarrow> f y)"
  by (cases x) simp_all

lemma eff_keeps_sum [eff_keeps_intros]:
  "(\<And>y. x = Inl y \<Longrightarrow> eff_keeps I (f y)) \<Longrightarrow> (\<And>y. x = Inr y \<Longrightarrow> eff_keeps I (g y)) \<Longrightarrow>
   eff_keeps I (case x of Inl y \<Rightarrow> f y | Inr y \<Rightarrow> g y)"
  by (cases x) simp_all

lemma eff_keeps_for [eff_keeps_intros]:
  "(\<And>x. eff_keeps I (f x)) \<Longrightarrow> eff_keeps I (eff_for f xs)"
  by (induction xs) (auto intro: eff_keeps_intros)

text \<open>Inside a transaction, and after a throw, the state may be read from the outcome.\<close>

lemma eff_tx_throws: "fst (eff_tx m s) = Inl e \<Longrightarrow> snd (eff_tx m s) = s"
  by (auto simp: eff_tx_run split: prod.splits sum.splits)

section \<open>JavaScript sets and maps\<close>

definition set_add :: "'a \<Rightarrow> 'a list \<Rightarrow> 'a list" where
  "set_add x xs = (if x \<in> set xs then xs else xs @ [x])"

lemma set_set_add [simp, jsmap_simps]: "set (set_add x xs) = insert x (set xs)"
  by (auto simp: set_add_def)

lemma distinct_set_add [simp, jsmap_simps]: "distinct (set_add x xs) \<longleftrightarrow> distinct xs"
  by (auto simp: set_add_def)

definition set_of_list :: "'a list \<Rightarrow> 'a list" where
  "set_of_list xs = fold set_add xs []"

lemma set_fold_set_add [simp]: "set (fold set_add xs acc) = set acc \<union> set xs"
  by (induction xs arbitrary: acc) auto

lemma distinct_fold_set_add [simp]: "distinct (fold set_add xs acc) \<longleftrightarrow> distinct acc"
  by (induction xs arbitrary: acc) auto

lemma set_of_list_simps [simp, jsmap_simps]:
  "set (set_of_list xs) = set xs" "distinct (set_of_list xs)"
  by (simp_all add: set_of_list_def)

lemma map_of_update [simp, jsmap_simps]: "map_of (AList.update k v m) = (map_of m)(k \<mapsto> v)"
  by (simp add: AList.update_conv')

lemma keys_update [simp, jsmap_simps]:
  "fst ` set (AList.update k v m) = insert k (fst ` set m)"
  using arg_cong [OF AList.update_keys, of set k v m] by (auto split: if_splits)

lemma map_keys_update:
  "map fst (AList.update k v m) = (if k \<in> fst ` set m then map fst m else map fst m @ [k])"
  using AList.update_keys [of k v m] by simp

definition map_of_list :: "('a \<Rightarrow> 'k) \<Rightarrow> 'a list \<Rightarrow> ('k \<times> 'a) list" where
  "map_of_list key xs = fold (\<lambda>x. AList.update (key x) x) xs []"

lemma map_of_fold_update:
  "map_of (fold (\<lambda>x. AList.update (key x) (val x)) xs m) k =
     (case find (\<lambda>x. key x = k) (rev xs) of Some x \<Rightarrow> Some (val x) | None \<Rightarrow> map_of m k)"
proof (induction xs rule: rev_induct)
  case Nil
  then show ?case by simp
next
  case (snoc x xs)
  then show ?case by (auto split: option.splits)
qed

lemma distinct_keys_fold_update:
  "distinct (map fst m) \<Longrightarrow>
   distinct (map fst (fold (\<lambda>x. AList.update (key x) (val x)) xs m))"
  by (induction xs arbitrary: m) (simp_all add: AList.distinct_update)

lemma distinct_map_of_list: "distinct (map fst (map_of_list key xs))"
  unfolding map_of_list_def by (rule distinct_keys_fold_update) simp

lemma find_Some_in: "find P xs = Some x \<Longrightarrow> x \<in> set xs \<and> P x"
  by (induction xs) (auto split: if_splits)

lemma find_None_ball: "find P xs = None \<longleftrightarrow> (\<forall>x \<in> set xs. \<not> P x)"
  by (auto simp: find_None_iff)

lemma map_of_map_of_list_Some:
  "map_of (map_of_list key xs) k = Some x \<Longrightarrow> x \<in> set xs \<and> key x = k"
  by (auto simp: map_of_list_def map_of_fold_update [where val = "\<lambda>x. x", simplified]
      split: option.splits dest: find_Some_in)

lemma map_of_map_of_list_None:
  "map_of (map_of_list key xs) k = None \<longleftrightarrow> (\<forall>x \<in> set xs. key x \<noteq> k)"
  using find_None_ball [of "\<lambda>x. key x = k" "rev xs"]
  by (auto simp: map_of_list_def map_of_fold_update [where val = "\<lambda>x. x", simplified]
      split: option.splits)

section \<open>Tables\<close>

definition update_where :: "('r \<Rightarrow> bool) \<Rightarrow> ('r \<Rightarrow> 'r) \<Rightarrow> 'r list \<Rightarrow> 'r list" where
  "update_where p f rows = map (\<lambda>r. if p r then f r else r) rows"

definition returning :: "('r \<Rightarrow> bool) \<Rightarrow> ('r \<Rightarrow> 'r) \<Rightarrow> 'r list \<Rightarrow> 'r list" where
  "returning p f rows = map f (filter p rows)"

text \<open>The idiom \<open>const [row] = await ...returning()\<close> binds the first row or \<open>undefined\<close>.\<close>

definition first_row :: "'r list \<Rightarrow> 'r option" where
  "first_row rows = (case rows of [] \<Rightarrow> None | r # _ \<Rightarrow> Some r)"

text \<open>\<open>x ?? y\<close>.\<close>

definition or_else :: "'a option \<Rightarrow> 'a option \<Rightarrow> 'a option" where
  "or_else x y = (case x of None \<Rightarrow> y | Some z \<Rightarrow> Some z)"

lemma update_where_length [simp, table_simps]: "length (update_where p f rows) = length rows"
  by (simp add: update_where_def)

lemma update_where_in: "r \<in> set (update_where p f rows) \<Longrightarrow>
    (\<exists>r0 \<in> set rows. p r0 \<and> r = f r0) \<or> (r \<in> set rows \<and> \<not> p r)"
  by (auto simp: update_where_def)

lemma update_where_mem: "r \<in> set rows \<Longrightarrow> (if p r then f r else r) \<in> set (update_where p f rows)"
  by (auto simp: update_where_def)

lemma map_key_update_where [simp, table_simps]:
  "(\<And>r. key (f r) = key r) \<Longrightarrow> map key (update_where p f rows) = map key rows"
  by (auto simp: update_where_def)

lemma first_row_Some: "first_row rows = Some r \<Longrightarrow> r \<in> set rows"
  by (auto simp: first_row_def split: list.splits)

lemma first_row_returning_Some:
  "first_row (returning p f rows) = Some r \<Longrightarrow> \<exists>r0 \<in> set rows. p r0 \<and> r = f r0"
  by (drule first_row_Some) (auto simp: returning_def)

lemma first_row_returning_None:
  "first_row (returning p f rows) = None \<longleftrightarrow> (\<forall>r \<in> set rows. \<not> p r)"
  by (cases "filter p rows")
    (auto simp: first_row_def returning_def filter_empty_conv filter_eq_Cons_iff)

lemma update_where_none: "\<forall>r \<in> set rows. \<not> p r \<Longrightarrow> update_where p f rows = rows"
  by (auto simp: update_where_def intro: map_idI)

text \<open>A table with a primary key: at most one row per key, found by \<open>find\<close>.\<close>

lemma find_key_eq:
  "distinct (map key rows) \<Longrightarrow> r \<in> set rows \<Longrightarrow> find (\<lambda>x. key x = key r) rows = Some r"
  by (induction rows) auto

lemma find_update_where_same:
  assumes "\<And>r. key (f r) = key r"
  shows "find (\<lambda>r. key r = k) (update_where p f rows) =
    map_option (\<lambda>r. if p r then f r else r) (find (\<lambda>r. key r = k) rows)"
  using assms by (induction rows) (auto simp: update_where_def)

end
