(* ===== verification/Regex.thy ===== *)
theory Regex
  imports Prelude
begin

text \<open>
  Regular expressions as the sources write them, with a matcher by derivatives and its language.
  A character class lists its characters (\<open>RIn\<close>) or, for a negated class, the excluded ones
  (\<open>RNotIn\<close>). \<open>rx_matches r s\<close> is \<open>/^r$/.test(s)\<close>: JavaScript's \<open>$\<close> without the \<open>m\<close> flag only
  matches at the very end of the input.
\<close>

datatype rx = REps | RIn "char list" | RNotIn "char list" | RSeq rx rx | RAlt rx rx | RStar rx

definition RPlus :: "rx \<Rightarrow> rx" where
  "RPlus r = RSeq r (RStar r)"

definition ROpt :: "rx \<Rightarrow> rx" where
  "ROpt r = RAlt r REps"

fun RLit :: "string \<Rightarrow> rx" where
  "RLit [] = REps"
| "RLit (c # cs) = RSeq (RIn [c]) (RLit cs)"

definition lower_chars :: string where "lower_chars = ''abcdefghijklmnopqrstuvwxyz''"
definition upper_chars :: string where "upper_chars = ''ABCDEFGHIJKLMNOPQRSTUVWXYZ''"
definition digit_chars :: string where "digit_chars = ''0123456789''"

lemmas char_class_defs = lower_chars_def upper_chars_def digit_chars_def

section \<open>The matcher\<close>

fun nullable :: "rx \<Rightarrow> bool" where
  "nullable REps = True"
| "nullable (RIn cs) = False"
| "nullable (RNotIn cs) = False"
| "nullable (RSeq r s) = (nullable r \<and> nullable s)"
| "nullable (RAlt r s) = (nullable r \<or> nullable s)"
| "nullable (RStar r) = True"

fun rx_deriv :: "char \<Rightarrow> rx \<Rightarrow> rx" where
  "rx_deriv c REps = RIn []"
| "rx_deriv c (RIn cs) = (if c \<in> set cs then REps else RIn [])"
| "rx_deriv c (RNotIn cs) = (if c \<in> set cs then RIn [] else REps)"
| "rx_deriv c (RSeq r s) =
     (if nullable r then RAlt (RSeq (rx_deriv c r) s) (rx_deriv c s) else RSeq (rx_deriv c r) s)"
| "rx_deriv c (RAlt r s) = RAlt (rx_deriv c r) (rx_deriv c s)"
| "rx_deriv c (RStar r) = RSeq (rx_deriv c r) (RStar r)"

definition rx_matches :: "rx \<Rightarrow> string \<Rightarrow> bool" where
  "rx_matches r s = nullable (fold rx_deriv s r)"

section \<open>The language\<close>

inductive_set star :: "string set \<Rightarrow> string set" for A where
  star_Nil: "[] \<in> star A"
| star_app: "u \<in> A \<Longrightarrow> v \<in> star A \<Longrightarrow> u @ v \<in> star A"

fun lang :: "rx \<Rightarrow> string set" where
  "lang REps = {[]}"
| "lang (RIn cs) = {[c] | c. c \<in> set cs}"
| "lang (RNotIn cs) = {[c] | c. c \<notin> set cs}"
| "lang (RSeq r s) = {u @ v | u v. u \<in> lang r \<and> v \<in> lang s}"
| "lang (RAlt r s) = lang r \<union> lang s"
| "lang (RStar r) = star (lang r)"

lemma nullable_iff: "nullable r \<longleftrightarrow> [] \<in> lang r"
  by (induction r) (auto intro: star_Nil)

lemma star_Cons:
  "c # w \<in> star A \<longleftrightarrow> (\<exists>u v. w = u @ v \<and> c # u \<in> A \<and> v \<in> star A)"
proof
  assume "c # w \<in> star A"
  then show "\<exists>u v. w = u @ v \<and> c # u \<in> A \<and> v \<in> star A"
    by (induction "c # w" arbitrary: w) (auto simp: append_eq_Cons_conv)
next
  assume "\<exists>u v. w = u @ v \<and> c # u \<in> A \<and> v \<in> star A"
  then show "c # w \<in> star A" by (metis append_Cons star_app)
qed

lemma lang_deriv: "w \<in> lang (rx_deriv c r) \<longleftrightarrow> c # w \<in> lang r"
proof (induction r arbitrary: w)
  case (RSeq r s)
  have "c # w \<in> lang (RSeq r s) \<longleftrightarrow>
    (\<exists>u v. w = u @ v \<and> c # u \<in> lang r \<and> v \<in> lang s) \<or> ([] \<in> lang r \<and> c # w \<in> lang s)"
    by (auto simp: Cons_eq_append_conv)
  with RSeq show ?case by (auto simp: nullable_iff)
next
  case (RStar r)
  then show ?case by (auto simp: star_Cons)
qed auto

lemma rx_matches_iff: "rx_matches r s \<longleftrightarrow> s \<in> lang r"
proof (induction s arbitrary: r)
  case Nil
  then show ?case by (simp add: rx_matches_def nullable_iff)
next
  case (Cons c s)
  then show ?case by (simp add: rx_matches_def lang_deriv)
qed

section \<open>Languages of common shapes\<close>

lemma lang_class_star: "w \<in> star {[c] | c. c \<in> set cs} \<longleftrightarrow> set w \<subseteq> set cs"
proof
  assume "w \<in> star {[c] | c. c \<in> set cs}"
  then show "set w \<subseteq> set cs" by (induction) auto
next
  assume "set w \<subseteq> set cs"
  then show "w \<in> star {[c] | c. c \<in> set cs}"
  proof (induction w)
    case Nil
    show ?case by (rule star_Nil)
  next
    case (Cons c w)
    then have "[c] @ w \<in> star {[c] | c. c \<in> set cs}" by (intro star_app) auto
    then show ?case by simp
  qed
qed

lemma lang_class_plus: "w \<in> lang (RPlus (RIn cs)) \<longleftrightarrow> w \<noteq> [] \<and> set w \<subseteq> set cs"
proof -
  have "w \<in> lang (RPlus (RIn cs)) \<longleftrightarrow> (\<exists>c v. w = c # v \<and> c \<in> set cs \<and> set v \<subseteq> set cs)"
    by (simp add: RPlus_def lang_class_star) (metis append_Cons append_Nil)
  then show ?thesis by (cases w) auto
qed

lemma lang_RLit [simp]: "lang (RLit s) = {s}"
  by (induction s) auto

lemma lang_ROpt [simp]: "lang (ROpt r) = insert [] (lang r)"
  by (auto simp: ROpt_def)

lemma star_elems: "w \<in> star A \<Longrightarrow> (\<And>u. u \<in> A \<Longrightarrow> set u \<subseteq> C) \<Longrightarrow> set w \<subseteq> C"
  by (induction rule: star.induct) auto

lemma lang_SeqI: "u \<in> lang r \<Longrightarrow> v \<in> lang s \<Longrightarrow> u @ v \<in> lang (RSeq r s)"
  by auto

lemma star_concat: "\<forall>w \<in> set ws. w \<in> A \<Longrightarrow> concat ws \<in> star A"
  by (induction ws) (auto intro: star_Nil star_app)

lemma lang_StarI: "\<forall>w \<in> set ws. w \<in> lang r \<Longrightarrow> concat ws \<in> lang (RStar r)"
  by (simp add: star_concat)

lemma lang_PlusI: "ws \<noteq> [] \<Longrightarrow> \<forall>w \<in> set ws. w \<in> lang r \<Longrightarrow> concat ws \<in> lang (RPlus r)"
  by (cases ws) (use star_concat [of "tl ws" "lang r"] in \<open>auto simp: RPlus_def\<close>)

end
