(* ===== verification/JsValue.thy ===== *)
theory JsValue
  imports Complex_Main Regex
begin

text \<open>
  JavaScript values of type \<open>unknown\<close>, as far as the modelled sources look into them: JSON data
  (which is what the \<open>jsonb\<close> columns, request bodies and provider states hold), \<open>undefined\<close>, and
  the built-in prototype objects and their methods, which an unguarded property read
  \<open>value[key]\<close> reaches when \<open>key\<close> is not an own property.

  A number is the rational it denotes: JSON has no \<open>NaN\<close> and no infinities, and \<open>===\<close> does not
  distinguish \<open>-0\<close> from \<open>0\<close>. An object is the list of its own properties in the order
  \<open>Object.entries\<close> gives them. A string is a list of code units below 256.
\<close>

datatype builtin_proto = ObjectProto | ArrayProto

datatype jsval =
    JUndef
  | JNull
  | JBool bool
  | JNum rat
  | JStr string
  | JArr "jsval list"
  | JObj "(string \<times> jsval) list"
  | JFun string
  | JProto builtin_proto

type_synonym jsobj = "(string \<times> jsval) list"

lemma size_entry_less [termination_simp]:
  "(k, v) \<in> set es \<Longrightarrow> size v < Suc (size_list (size_prod (\<lambda>_. 0) size) es)"
  by (induction es) auto

lemma size_snd_less [termination_simp]:
  "e \<in> set es \<Longrightarrow> size (snd e) < Suc (size_list (size_prod (\<lambda>_. 0) size) es)"
  by (cases e) (simp add: size_entry_less)

lemma jsval_induct [case_names Undef Null Bool Num Str Arr Obj Fun Proto]:
  assumes "P JUndef" "P JNull" "\<And>b. P (JBool b)" "\<And>n. P (JNum n)" "\<And>s. P (JStr s)"
    and "\<And>xs. (\<And>x. x \<in> set xs \<Longrightarrow> P x) \<Longrightarrow> P (JArr xs)"
    and "\<And>es. (\<And>k v. (k, v) \<in> set es \<Longrightarrow> P v) \<Longrightarrow> P (JObj es)"
    and "\<And>f. P (JFun f)" "\<And>p. P (JProto p)"
  shows "P v"
  using assms by (induction v) (auto simp: snds.simps)

section \<open>Property reads\<close>

text \<open>The names every plain object inherits from \<open>Object.prototype\<close>, and the further ones an array
  inherits from \<open>Array.prototype\<close>.\<close>

definition object_members :: "string list" where
  "object_members = [''constructor'', ''hasOwnProperty'', ''isPrototypeOf'',
     ''propertyIsEnumerable'', ''toLocaleString'', ''toString'', ''valueOf'',
     ''__defineGetter__'', ''__defineSetter__'', ''__lookupGetter__'', ''__lookupSetter__'']"

definition array_members :: "string list" where
  "array_members = [''at'', ''concat'', ''copyWithin'', ''entries'', ''every'', ''fill'',
     ''filter'', ''find'', ''findIndex'', ''findLast'', ''findLastIndex'', ''flat'', ''flatMap'',
     ''forEach'', ''includes'', ''indexOf'', ''join'', ''keys'', ''lastIndexOf'', ''map'', ''pop'',
     ''push'', ''reduce'', ''reduceRight'', ''reverse'', ''shift'', ''slice'', ''some'', ''sort'',
     ''splice'', ''toReversed'', ''toSorted'', ''toSpliced'', ''unshift'', ''values'', ''with'']"

definition inherited_name :: "string \<Rightarrow> bool" where
  "inherited_name k \<longleftrightarrow> k = ''__proto__'' \<or> k \<in> set object_members"

definition is_digits :: "string \<Rightarrow> bool" where
  "is_digits s \<longleftrightarrow> s \<noteq> [] \<and> set s \<subseteq> set digit_chars"

definition nat_of_digits :: "string \<Rightarrow> nat" where
  "nat_of_digits s = foldl (\<lambda>n c. 10 * n + (of_char c - 48)) 0 s"

text \<open>The property keys an array reads as indices: canonical decimal numerals.\<close>

definition array_index :: "string \<Rightarrow> nat option" where
  "array_index s =
     (if is_digits s \<and> (s = ''0'' \<or> hd s \<noteq> CHR ''0'') then Some (nat_of_digits s) else None)"

text \<open>\<open>String(n)\<close> for a non-negative integer.\<close>

fun nat_str :: "nat \<Rightarrow> string" where
  "nat_str n = (if n < 10 then [char_of (48 + n)] else nat_str (n div 10) @ [char_of (48 + n mod 10)])"

declare nat_str.simps [simp del]

lemma nat_of_digits_snoc:
  "nat_of_digits (s @ [c]) = 10 * nat_of_digits s + (of_char c - 48)"
  by (simp add: nat_of_digits_def)

lemma nat_of_digits_nat_str [simp]: "nat_of_digits (nat_str n) = n"
proof (induction n rule: nat_str.induct)
  case (1 n)
  show ?case
  proof (cases "n < 10")
    case True
    then show ?thesis by (subst nat_str.simps) (simp add: nat_of_digits_def)
  next
    case False
    with 1 have IH: "nat_of_digits (nat_str (n div 10)) = n div 10" by simp
    from False show ?thesis
      by (subst nat_str.simps) (simp add: nat_of_digits_snoc IH)
  qed
qed

definition get_index :: "jsval list \<Rightarrow> nat \<Rightarrow> jsval" where
  "get_index xs n = (if n < length xs then xs ! n else JUndef)"

definition object_inherited :: "string \<Rightarrow> jsval" where
  "object_inherited k =
     (if k = ''__proto__'' then JProto ObjectProto
      else if k \<in> set object_members then JFun k else JUndef)"

definition array_inherited :: "string \<Rightarrow> jsval" where
  "array_inherited k =
     (if k = ''__proto__'' then JProto ArrayProto
      else if k \<in> set array_members \<or> k \<in> set object_members then JFun k else JUndef)"

text \<open>\<open>value[key]\<close> for a string key and a value of \<open>typeof\<close> "object".\<close>

fun get_prop :: "jsval \<Rightarrow> string \<Rightarrow> jsval" where
  "get_prop (JObj es) k = (case map_of es k of Some v \<Rightarrow> v | None \<Rightarrow> object_inherited k)"
| "get_prop (JArr xs) k =
     (if k = ''length'' then JNum (of_nat (length xs))
      else case array_index k of Some n \<Rightarrow> get_index xs n | None \<Rightarrow> array_inherited k)"
| "get_prop (JProto ObjectProto) k =
     (if k = ''__proto__'' then JNull
      else if k \<in> set object_members then JFun k else JUndef)"
| "get_prop (JProto ArrayProto) k =
     (if k = ''length'' then JNum 0 else if k = ''__proto__'' then JProto ObjectProto
      else if k \<in> set array_members \<or> k \<in> set object_members then JFun k else JUndef)"
| "get_prop _ k = JUndef"

fun is_object :: "jsval \<Rightarrow> bool" where \<comment> \<open>\<open>typeof v === "object" && v !== null\<close>\<close>
  "is_object (JArr xs) = True"
| "is_object (JObj es) = True"
| "is_object (JProto p) = True"
| "is_object _ = False"

fun is_array :: "jsval \<Rightarrow> bool" where \<comment> \<open>\<open>Array.isArray\<close>; \<open>Array.prototype\<close> is an array\<close>
  "is_array (JArr xs) = True"
| "is_array (JProto ArrayProto) = True"
| "is_array _ = False"

fun is_nullish :: "jsval \<Rightarrow> bool" where \<comment> \<open>\<open>v == null\<close>\<close>
  "is_nullish JUndef = True"
| "is_nullish JNull = True"
| "is_nullish _ = False"

section \<open>Property writes\<close>

text \<open>
  \<open>out[k] = v\<close> on a fresh plain object: a new key goes last, an existing one keeps its place. Writing
  \<open>__proto__\<close> runs the setter inherited from \<open>Object.prototype\<close>, which changes the prototype and
  creates no own property.
\<close>

definition put_prop :: "string \<Rightarrow> jsval \<Rightarrow> jsobj \<Rightarrow> jsobj" where
  "put_prop k v es = (if k = ''__proto__'' then es else AList.update k v es)"

section \<open>JSON values\<close>

fun is_json :: "jsval \<Rightarrow> bool" where
  "is_json (JArr xs) = (\<forall>x \<in> set xs. is_json x)"
| "is_json (JObj es) = (distinct (map fst es) \<and> (\<forall>e \<in> set es. is_json (snd e)))"
| "is_json JUndef = False"
| "is_json (JFun f) = False"
| "is_json (JProto p) = False"
| "is_json _ = True"

text \<open>No key of the value names a property of \<open>Object.prototype\<close>.\<close>

fun plain_keys :: "jsval \<Rightarrow> bool" where
  "plain_keys (JArr xs) = (\<forall>x \<in> set xs. plain_keys x)"
| "plain_keys (JObj es) = (\<forall>e \<in> set es. \<not> inherited_name (fst e) \<and> plain_keys (snd e))"
| "plain_keys _ = True"

lemma object_inherited_plain: "\<not> inherited_name k \<Longrightarrow> object_inherited k = JUndef"
  by (auto simp: inherited_name_def object_inherited_def)

lemma is_json_entry: "is_json (JObj es) \<Longrightarrow> (k, v) \<in> set es \<Longrightarrow> is_json v"
  by force

lemma is_json_map_of: "is_json (JObj es) \<Longrightarrow> map_of es k = Some v \<Longrightarrow> is_json v"
  by (auto dest: map_of_SomeD)

text \<open>How deep a value goes.\<close>

fun json_depth :: "jsval \<Rightarrow> nat" where
  "json_depth (JArr xs) = Suc (Max (insert 0 (set (map json_depth xs))))"
| "json_depth (JObj es) = Suc (Max (insert 0 (set (map (\<lambda>e. json_depth (snd e)) es))))"
| "json_depth _ = 0"

lemma json_depth_elem: "x \<in> set xs \<Longrightarrow> json_depth x < json_depth (JArr xs)"
  by (auto simp: less_Suc_eq_le intro: Max_ge)

end
