(* ===== verification/Schema.thy ===== *)
theory Schema
  imports JsValue
begin

text \<open>
  The rows of apps/api/src/lib/db/schema: one record per table with a field per column, one datatype
  per Postgres enum, and \<open>db\<close>, the database the services work on. A table is the list of its rows.
  Ids are strings, times are milliseconds. \<open>jsonb\<close> columns typed \<open>Record<string, unknown>\<close> are
  \<open>jsobj\<close>; a nullable column is an option. A row of \<open>change_set_items\<close> correlates its \<open>kind\<close> and
  \<open>changes\<close> columns (lib/db/schema/index.ts), so the two are one datatype \<open>item_changes\<close>, and
  \<open>item_kind\<close> reads the discriminator.

  \<open>db_notes\<close> is the log of \<open>pg_notify\<close> messages and \<open>db_runs\<close> of the workflow runs started or
  canceled: what the services do to the outside.
\<close>

section \<open>Enums (shared.ts)\<close>

datatype actor_type = UserActor | ApiKeyActor | SystemActor

datatype change_set_status = Draft | Applying | Applied | Discarded | ChangeSetCanceled

datatype item_kind = CreateKind | UpdateKind | DeleteKind | ImportKind

datatype item_source = SourceUser | SourceLlm | SourceCanvas | SourceImport

datatype dry_run_action =
    ActPending | ActNoop | ActCreate | ActUpdate | ActDelete | ActReplace | ActDeferred | ActError

datatype operation_kind = OpCreate | OpUpdate | OpDelete | OpImport | OpRead | OpLookup | OpScan

datatype resource_status = Creating | Importing | Updating | Deleting | Live | Missing

datatype operation_status =
    Pending | Running | AwaitingApproval | Canceling | Succeeded | Failed | Canceled

datatype scan_interval = ScanOff | ScanHourly | ScanDaily

text \<open>The statuses are finitely many, so statements about all of them evaluate.\<close>

lemma UNIV_operation_status:
  "UNIV = {Pending, Running, AwaitingApproval, Canceling, Succeeded, Failed, Canceled}"
  by (auto intro: operation_status.exhaust)

instantiation operation_status :: enum
begin

definition enum_operation_status :: "operation_status list" where
  "enum_operation_status = [Pending, Running, AwaitingApproval, Canceling, Succeeded, Failed, Canceled]"

definition enum_all_operation_status :: "(operation_status \<Rightarrow> bool) \<Rightarrow> bool" where
  "enum_all_operation_status P = list_all P enum_class.enum"

definition enum_ex_operation_status :: "(operation_status \<Rightarrow> bool) \<Rightarrow> bool" where
  "enum_ex_operation_status P = list_ex P enum_class.enum"

instance
  by standard
    (simp_all add: enum_operation_status_def enum_all_operation_status_def
      enum_ex_operation_status_def UNIV_operation_status)

end

section \<open>Columns\<close>

type_synonym position = "rat \<times> rat"

record create_changes =
  cc_slug :: string
  cc_type :: "string option"
  cc_integration_slug :: "string option"
  cc_display_name :: "string option"
  cc_inputs :: jsval          \<comment> \<open>\<open>JUndef\<close> when the placeholder resource has none\<close>
  cc_position :: "position option"

record import_changes =
  ic_slug :: string
  ic_type :: string
  ic_integration_slug :: "string option"
  ic_provider_id :: "string option"
  ic_identity :: "(string \<times> string) list option"
  ic_position :: "position option"

datatype delete_mode = ModeDelete | ModeForget

datatype item_changes =
    CreateResource create_changes
  | ImportResource import_changes
  | UpdateResource jsobj
  | DeleteResource delete_mode

record policy_result =
  po_required :: bool
  po_approvers :: "string list option"
  po_reason :: "string option"

record operation_approval =
  ap_requested_at :: int
  ap_policy_ids :: "string list"
  ap_policy_results :: "policy_result list"
  ap_hook :: "string option"                     \<comment> \<open>the hook's token\<close>
  ap_approved_by :: "(actor_type \<times> string) option"
  ap_approved_at :: "int option"
  ap_canceled_by :: "(actor_type \<times> string) option"
  ap_canceled_at :: "int option"

record operation_error =
  oe_message :: string
  oe_code :: string
  oe_details :: jsval

section \<open>Tables\<close>

record project =
  p_id :: string
  p_org_id :: string
  p_slug :: string
  p_approval_policy :: "string list"
  p_scan_interval :: scan_interval
  p_last_scan_claimed_at :: "int option"
  p_created_by :: "actor_type \<times> string"
  p_deleted_at :: "int option"

record integration =
  i_id :: string
  i_project_id :: string
  i_provider :: string
  i_slug :: string
  i_name :: "string option"
  i_is_default :: bool
  i_provider_source :: "string option"
  i_provider_version :: "string option"
  i_config :: jsobj
  i_credentials :: jsobj
  i_credential_mode :: string
  i_created_by :: "actor_type \<times> string"
  i_deleted_at :: "int option"

record resource =
  r_id :: string
  r_project_id :: string
  r_slug :: string
  r_type :: string
  r_inputs :: "jsobj option"
  r_identity :: "jsobj option"
  r_outputs :: "jsobj option"
  r_status :: resource_status
  r_provider :: "string option"
  r_integration_id :: "string option"
  r_depends_on :: "string list option"
  r_approval_policy :: "string list option"
  r_metadata :: jsobj
  r_created_by :: "actor_type \<times> string"
  r_created_at :: int
  r_updated_at :: int
  r_deleted_at :: "int option"

record resource_layout =
  l_id :: string
  l_resource_id :: string
  l_view_id :: "string option"
  l_position :: "position option"
  l_size :: "(rat \<times> rat) option"
  l_collapsed :: bool

record change_set =
  cs_id :: string
  cs_project_id :: string
  cs_status :: change_set_status
  cs_title :: "string option"
  cs_actor :: "actor_type \<times> string"
  cs_applied_at :: "int option"
  cs_created_at :: int
  cs_updated_at :: int

record change_set_item =
  ci_id :: string
  ci_change_set_id :: string
  ci_target_id :: "string option"
  ci_target_slug :: "string option"
  ci_integration_id :: "string option"
  ci_resource_type :: "string option"
  ci_changes :: item_changes
  ci_source :: item_source
  ci_depends_on :: "string list"
  ci_created_at :: int
  ci_updated_at :: int

record dry_run =
  dr_item_id :: string
  dr_action :: dry_run_action
  dr_prior :: "jsobj option"
  dr_planned :: "jsobj option"
  dr_private :: "string option"
  dr_replace :: "string list list option"
  dr_error :: "string option"
  dr_updated_at :: int

record operation =
  o_id :: string
  o_project_id :: string
  o_resource_id :: "string option"
  o_item_id :: "string option"
  o_retry_of :: "string option"
  o_run_id :: "string option"
  o_lock :: "string option"
  o_kind :: operation_kind
  o_status :: operation_status
  o_actor :: "actor_type \<times> string"
  o_request :: jsobj
  o_result :: "jsobj option"
  o_error :: "operation_error option"
  o_approval :: "operation_approval option"
  o_closed_at :: "int option"
  o_created_at :: int
  o_updated_at :: int

fun kind_of :: "item_changes \<Rightarrow> item_kind" where
  "kind_of (CreateResource c) = CreateKind"
| "kind_of (ImportResource c) = ImportKind"
| "kind_of (UpdateResource c) = UpdateKind"
| "kind_of (DeleteResource m) = DeleteKind"

definition is_create_or_import :: "change_set_item \<Rightarrow> bool" where
  "is_create_or_import item \<longleftrightarrow> kind_of (ci_changes item) \<in> {CreateKind, ImportKind}"

definition is_delete_item :: "change_set_item \<Rightarrow> bool" where
  "is_delete_item item \<longleftrightarrow> kind_of (ci_changes item) = DeleteKind"

section \<open>The database\<close>

datatype resource_event = ResourceCreated | ResourceUpdated | ResourceDeleted

datatype notification =
    NoteOperation operation
  | NoteResource resource_event string string string  \<comment> \<open>id, project, slug\<close>
  | NoteChangeSet change_set

datatype run_event =
    RunStarted string string int                      \<comment> \<open>a dry-run: item, project, token\<close>
  | RunCanceled string                                \<comment> \<open>run id\<close>
  | HookResumed string bool                           \<comment> \<open>hook token, approved?\<close>

record db =
  db_projects :: "project list"
  db_integrations :: "integration list"
  db_resources :: "resource list"
  db_layouts :: "resource_layout list"
  db_change_sets :: "change_set list"
  db_items :: "change_set_item list"
  db_dry_runs :: "dry_run list"
  db_operations :: "operation list"
  db_notes :: "notification list"
  db_runs :: "run_event list"

text \<open>A string JavaScript treats as true: \<open>undefined\<close>, \<open>null\<close> and the empty string are not.\<close>

fun truthy :: "string option \<Rightarrow> string option" where
  "truthy (Some (c # cs)) = Some (c # cs)"
| "truthy _ = None"

lemma truthy_Some_iff: "truthy s = Some t \<longleftrightarrow> s = Some t \<and> t \<noteq> []"
  by (cases s rule: truthy.cases) auto

lemma truthy_None_iff: "truthy s = None \<longleftrightarrow> s = None \<or> s = Some []"
  by (cases s rule: truthy.cases) auto

end
