(* ===== verification/Errors.thy ===== *)
theory Errors
  imports Main
begin

text \<open>
  The errors the modelled sources throw, one constructor per error class, with the fields its
  constructor takes. \<open>PlainError\<close> is \<open>new Error(message)\<close>. \<open>UniqueViolation\<close> is the database's
  error 23505 with the violated index, \<open>ForeignKeyViolation\<close> its error 23503 with the column and
  \<open>CheckViolation\<close> 23514 with the constraint: the code that catches the first tests for it with
  \<open>isUniqueViolation\<close>, the others pass through it uncaught.
\<close>

datatype ref_error_code =
    RefNotFound | RefTargetMissing | RefNotReady | RefPathMissing | RefCycle | RefTargetInUse
  | RefInvalid

record diagnostic =
  dg_severity :: string
  dg_summary :: "string option"
  dg_detail :: "string option"

datatype js_error =
    RefError (ref_code: ref_error_code) (ref_slug: string) (ref_detail: string)
  | NotFound string
  | Conflict string
  | InvalidInput string
  | ChangeSetDryRunNotSettled (pending_slugs: "string list")
  | ChangeSetDryRunDeferred (blocking_slugs: "string list")
  | PlainError string
  | IntegrationActiveResourcesConflict string
  | IntegrationConfigInvalid string string       \<comment> \<open>provider, issues\<close>
  | IntegrationCredentialsInvalid string string
  | IntegrationDuplicateSlug string string       \<comment> \<open>slug, project slug\<close>
  | IntegrationNoDefault string
  | IntegrationNotFound string
  | IntegrationProviderMismatch string string string  \<comment> \<open>slug, expected, actual\<close>
  | IntegrationSlugNotFound string
  | IntegrationUnknownProvider string
  | ProjectActiveResourcesConflict string
  | ProjectCreateFailed
  | ProjectDuplicateSlug string
  | ProjectNotFound string
  | ProjectUpdateFailed
  | ProviderInferTypeFailed string
  | ProviderUnknown string
  | ProviderVersionUnavailable string string string   \<comment> \<open>name, requested, available\<close>
  | ResourceDuplicateSlug string string
  | ResourceReservedSlug
  | ResourceNotFound string string
  | ResourceLookupNotFound string
  | ResourceImportMissingProviderId string string     \<comment> \<open>provider id, detail\<close>
  | ResourceUpdateParentWriteFailed
  | ImportNotFoundError (import_message: string) (import_provider_id: string)
  | BridgeDiagnosticError string "diagnostic list"
  | BridgeTransportError string nat                   \<comment> \<open>message, HTTP status\<close>
  | UniqueViolation string
  | ForeignKeyViolation string
  | CheckViolation string

fun code_str :: "ref_error_code \<Rightarrow> string" where
  "code_str RefNotFound = ''ref_not_found''"
| "code_str RefTargetMissing = ''ref_target_missing''"
| "code_str RefNotReady = ''ref_not_ready''"
| "code_str RefPathMissing = ''ref_path_missing''"
| "code_str RefCycle = ''ref_cycle''"
| "code_str RefTargetInUse = ''ref_target_in_use''"
| "code_str RefInvalid = ''ref_invalid''"

text \<open>\<open>statusOf\<close> in lib/refs/errors.ts: the HTTP status the boundary answers with.\<close>

fun status_of :: "ref_error_code \<Rightarrow> nat" where
  "status_of RefNotFound = 400"
| "status_of RefPathMissing = 400"
| "status_of RefCycle = 400"
| "status_of RefInvalid = 400"
| "status_of RefTargetMissing = 409"
| "status_of RefNotReady = 409"
| "status_of RefTargetInUse = 409"

text \<open>\<open>isUniqueViolation\<close> in lib/db/errors.ts.\<close>

fun is_unique_violation :: "js_error \<Rightarrow> bool" where
  "is_unique_violation (UniqueViolation c) = True"
| "is_unique_violation _ = False"

lemma is_unique_violation_iff: "is_unique_violation e \<longleftrightarrow> (\<exists>c. e = UniqueViolation c)"
  by (cases e) auto

text \<open>\<open>uniqueViolationConstraint\<close>: the violated index, when it is a unique violation.\<close>

fun unique_violation_constraint :: "js_error \<Rightarrow> string option" where
  "unique_violation_constraint (UniqueViolation c) = Some c"
| "unique_violation_constraint _ = None"

text \<open>\<open>try m catch (err) h err\<close>.\<close>

fun catch_err :: "js_error + 'a \<Rightarrow> (js_error \<Rightarrow> js_error + 'a) \<Rightarrow> js_error + 'a" where
  "catch_err (Inl e) h = h e"
| "catch_err (Inr x) h = Inr x"

lemma catch_err_Inr_iff:
  "catch_err m h = Inr x \<longleftrightarrow> m = Inr x \<or> (\<exists>e. m = Inl e \<and> h e = Inr x)"
  by (cases m) auto

end
