(* ===== verification/Refs.thy ===== *)
theory Refs
  imports JsValue Errors
begin

text \<open>
  Cross-resource references, apps/api/src/lib/refs/ast.ts: an object \<open>{"$ref": "<slug>.<path>"}\<close>
  anywhere inside a resource's inputs stands for the value at \<open>path\<close> of the outputs of the resource
  \<open>slug\<close>. \<open>map_refs\<close> is the one traversal (\<open>mapRefs\<close>, whose callback may throw and may update
  state), \<open>extract_refs\<close> collects the slugs and \<open>substitute_refs\<close> replaces the references.
  \<open>ref_strings\<close> is the specification both are proved against: the reference strings of a value
  in document order.
\<close>

section \<open>Reference strings\<close>

definition slug_chars :: string where
  "slug_chars = lower_chars @ digit_chars @ ''-''"

definition ident_chars :: string where
  "ident_chars = lower_chars @ upper_chars @ digit_chars @ ''_''"

definition REF_PATH_REGEX :: rx where
  "REF_PATH_REGEX =
     RSeq (RPlus (RIn slug_chars))
       (RPlus (RSeq (RLit ''.'') (RSeq (RPlus (RIn ident_chars))
         (RStar (RSeq (RLit ''['') (RSeq (RPlus (RIn digit_chars)) (RLit '']'')))))))"

record parsed_ref =
  pr_slug :: string
  pr_path :: string

datatype ref_target =
    TargetOk (target_state: jsobj)
  | TargetNotReady
  | TargetMissing

fun is_ref_node :: "jsval \<Rightarrow> bool" where
  "is_ref_node (JObj es) = (case map_of es ''$ref'' of Some (JStr r) \<Rightarrow> True | _ \<Rightarrow> False)"
| "is_ref_node _ = False"

definition parse_ref :: "string \<Rightarrow> js_error + parsed_ref" where
  "parse_ref ref =
     (if \<not> rx_matches REF_PATH_REGEX ref
      then Inl (RefError RefInvalid []
             (''invalid $ref \"'' @ ref @ ''\" - expected \"<slug>.<dot.path>\"''))
      else Inr \<lparr> pr_slug = takeWhile (\<lambda>c. c \<noteq> CHR ''.'') ref,
                 pr_path = tl (dropWhile (\<lambda>c. c \<noteq> CHR ''.'') ref) \<rparr>)"

section \<open>Paths\<close>

datatype path_key = KStr string | KIdx nat

text \<open>\<open>path.split(".")\<close>.\<close>

fun split_on :: "char \<Rightarrow> string \<Rightarrow> string list" where
  "split_on c [] = [[]]"
| "split_on c (x # xs) =
     (if x = c then [] # split_on c xs
      else case split_on c xs of [] \<Rightarrow> [[x]] | y # ys \<Rightarrow> (x # y) # ys)"

text \<open>\<open>s.matchAll(/\[(\d+)\]/g)\<close>, the captured numbers.\<close>

function match_indices :: "string \<Rightarrow> nat list" where
  "match_indices [] = []"
| "match_indices (c # cs) =
     (let ds = takeWhile (\<lambda>d. d \<in> set digit_chars) cs;
          rest = dropWhile (\<lambda>d. d \<in> set digit_chars) cs
      in if c = CHR ''['' \<and> ds \<noteq> [] \<and> rest \<noteq> [] \<and> hd rest = CHR '']''
         then nat_of_digits ds # match_indices (tl rest)
         else match_indices cs)"
  by pat_completeness auto
termination
  by (relation "measure length")
    (auto simp: less_Suc_eq_le intro: le_trans [OF diff_le_self length_dropWhile_le])

definition segment_keys :: "string \<Rightarrow> path_key list" where
  "segment_keys seg =
     (if CHR ''['' \<notin> set seg then [KStr seg]
      else KStr (takeWhile (\<lambda>c. c \<noteq> CHR ''['') seg)
           # map KIdx (match_indices (dropWhile (\<lambda>c. c \<noteq> CHR ''['') seg)))"

definition path_segments :: "string \<Rightarrow> path_key list" where
  "path_segments path = concat (map segment_keys (split_on CHR ''.'' path))"

fun index_value :: "jsval \<Rightarrow> nat \<Rightarrow> jsval" where \<comment> \<open>\<open>cur[key]\<close> for an array \<open>cur\<close>\<close>
  "index_value (JArr xs) n = get_index xs n"
| "index_value _ n = JUndef"

fun get_at_keys :: "jsval \<Rightarrow> path_key list \<Rightarrow> jsval" where
  "get_at_keys cur [] = cur"
| "get_at_keys cur (key # keys) =
     (if is_nullish cur then JUndef
      else case key of
        KIdx n \<Rightarrow> if \<not> is_array cur then JUndef else get_at_keys (index_value cur n) keys
      | KStr k \<Rightarrow> if \<not> is_object cur then JUndef else get_at_keys (get_prop cur k) keys)"

definition get_at :: "jsval \<Rightarrow> string \<Rightarrow> jsval" where
  "get_at obj path = get_at_keys obj (path_segments path)"

section \<open>The traversal\<close>

fun map_refs :: "('s \<Rightarrow> parsed_ref \<Rightarrow> js_error + jsval \<times> 's) \<Rightarrow> 's \<Rightarrow> jsval \<Rightarrow> js_error + jsval \<times> 's" where
  "map_refs tr s (JArr xs) =
     res_bind (map_state (map_refs tr) s xs) (\<lambda>(ys, s'). Inr (JArr ys, s'))"
| "map_refs tr s (JObj es) =
     (case map_of es ''$ref'' of
        Some (JStr r) \<Rightarrow> res_bind (parse_ref r) (tr s)
      | _ \<Rightarrow> res_bind
          (map_state (\<lambda>s (k, v). res_bind (map_refs tr s v) (\<lambda>(w, s'). Inr ((k, w), s'))) s es)
          (\<lambda>(ws, s'). Inr (JObj (fold (\<lambda>(k, w). put_prop k w) ws []), s')))"
| "map_refs tr s (JProto ObjectProto) = Inr (JObj [], s)"
| "map_refs tr s (JProto ArrayProto) = Inr (JArr [], s)"
| "map_refs tr s v = Inr (v, s)"

definition extract_refs :: "jsval \<Rightarrow> js_error + string list" where
  "extract_refs v =
     res_bind (map_refs (\<lambda>slugs r. Inr (JUndef, set_add (pr_slug r) slugs)) [] v)
       (\<lambda>(_, slugs). Inr slugs)"

definition resolve_ref :: "(string \<times> ref_target) list \<Rightarrow> parsed_ref \<Rightarrow> js_error + jsval" where
  "resolve_ref targets ref =
     (let slug = pr_slug ref in
      case map_of targets slug of
        None \<Rightarrow> Inl (RefError RefNotFound slug
          (''resource \"'' @ slug @ ''\" does not exist in this project''))
      | Some TargetMissing \<Rightarrow> Inl (RefError RefTargetMissing slug
          (''resource \"'' @ slug @ ''\" no longer exists in the cloud - refresh or re-create it before referencing''))
      | Some TargetNotReady \<Rightarrow> Inl (RefError RefNotReady slug
          (''resource \"'' @ slug @ ''\" not live yet - cannot resolve $ref''))
      | Some (TargetOk state) \<Rightarrow>
          (let resolved = get_at (JObj state) (pr_path ref) in
           if resolved = JUndef
           then Inl (RefError RefPathMissing slug
             (''\"'' @ pr_path ref @ ''\" not found on resource \"'' @ slug @ ''\" outputs''))
           else Inr resolved))"

definition substitute_refs :: "jsval \<Rightarrow> (string \<times> ref_target) list \<Rightarrow> js_error + jsval" where
  "substitute_refs v targets =
     res_bind (map_refs (\<lambda>_ ref. res_bind (resolve_ref targets ref) (\<lambda>w. Inr (w, ()))) () v)
       (\<lambda>(w, _). Inr w)"

section \<open>The references of a value, in document order\<close>

fun ref_strings :: "jsval \<Rightarrow> string list" where
  "ref_strings (JArr xs) = concat (map ref_strings xs)"
| "ref_strings (JObj es) =
     (case map_of es ''$ref'' of
        Some (JStr r) \<Rightarrow> [r]
      | _ \<Rightarrow> concat (map (\<lambda>(k, v). ref_strings v) es))"
| "ref_strings _ = []"

definition visit_ref ::
  "('s \<Rightarrow> parsed_ref \<Rightarrow> js_error + jsval \<times> 's) \<Rightarrow> string \<Rightarrow> 's \<Rightarrow> js_error + 's" where
  "visit_ref tr r s = res_bind (parse_ref r) (\<lambda>p. res_bind (tr s p) (\<lambda>(w, s'). Inr s'))"

lemma map_refs_node:
  "map_of es ''$ref'' = Some (JStr r) \<Longrightarrow> map_refs tr s (JObj es) = res_bind (parse_ref r) (tr s)"
  by simp

lemma map_refs_no_node:
  "\<not> is_ref_node (JObj es) \<Longrightarrow> map_refs tr s (JObj es) =
     res_bind
       (map_state (\<lambda>s (k, v). res_bind (map_refs tr s v) (\<lambda>(w, s'). Inr ((k, w), s'))) s es)
       (\<lambda>(ws, s'). Inr (JObj (fold (\<lambda>(k, w). put_prop k w) ws []), s'))"
  by (auto split: option.splits jsval.splits)

lemma ref_strings_no_node:
  "\<not> is_ref_node (JObj es) \<Longrightarrow> ref_strings (JObj es) = concat (map (\<lambda>(k, v). ref_strings v) es)"
  by (auto split: option.splits jsval.splits)

text \<open>The traversal calls its callback on exactly the references of the value, in document order,
  and stops at the first one that does not parse or whose callback throws.\<close>

lemma map_refs_visits:
  "res_bind (map_refs tr s v) (\<lambda>(w, s'). Inr s') = fold_res (visit_ref tr) (ref_strings v) s"
proof (induction v arbitrary: s rule: jsval_induct)
  case (Arr xs)
  have "res_bind (map_refs tr s (JArr xs)) (\<lambda>(w, s'). Inr s') =
      res_bind (map_state (map_refs tr) s xs) (\<lambda>(ys, s'). Inr s')"
    by (simp add: res_bind_assoc split_def)
  also have "\<dots> = fold_res (\<lambda>x. fold_res (visit_ref tr) (ref_strings x)) xs s"
    by (rule map_state_state) (rule Arr)
  finally show ?case by (simp add: fold_res_concat fold_res_map)
next
  case (Obj es)
  show ?case
  proof (cases "is_ref_node (JObj es)")
    case True
    then obtain r where "map_of es ''$ref'' = Some (JStr r)"
      by (auto split: option.splits jsval.splits)
    then show ?thesis
      by (simp add: visit_ref_def res_bind_assoc split_def)
  next
    case False
    let ?f = "\<lambda>s (k, v). res_bind (map_refs tr s v) (\<lambda>(w, s'). Inr ((k, w), s'))"
    have "res_bind (map_refs tr s (JObj es)) (\<lambda>(w, s'). Inr s') =
        res_bind (map_state ?f s es) (\<lambda>(ws, s'). Inr s')"
      unfolding map_refs_no_node [OF False] by (simp add: res_bind_assoc split_def)
    also have "\<dots> = fold_res (\<lambda>(k, v). fold_res (visit_ref tr) (ref_strings v)) es s"
    proof (rule map_state_state)
      fix e s assume "e \<in> set es"
      with Obj show "res_bind (?f s e) (\<lambda>(y, s'). Inr s') =
          (case e of (k, v) \<Rightarrow> fold_res (visit_ref tr) (ref_strings v)) s"
        by (cases e) (simp add: res_bind_assoc split_def)
    qed
    finally show ?thesis
      by (simp only: ref_strings_no_node [OF False] fold_res_concat fold_res_map split_def)
  qed
next
  case (Proto p)
  then show ?case by (cases p) simp_all
qed simp_all

section \<open>Collecting the references\<close>

lemma fold_visit_slugs:
  "fold_res (visit_ref (\<lambda>slugs r. Inr (JUndef, set_add (pr_slug r) slugs))) rs acc =
   res_bind (map_res parse_ref rs) (\<lambda>ps. Inr (fold set_add (map pr_slug ps) acc))"
proof (induction rs arbitrary: acc)
  case Nil
  then show ?case by simp
next
  case (Cons r rs)
  then show ?case by (cases "parse_ref r") (simp_all add: visit_ref_def res_bind_assoc)
qed

lemma extract_refs_map:
  "extract_refs v =
     res_bind (map_res parse_ref (ref_strings v)) (\<lambda>ps. Inr (set_of_list (map pr_slug ps)))"
  using map_refs_visits [of "\<lambda>slugs r. Inr (JUndef, set_add (pr_slug r) slugs)" "[]" v]
  unfolding extract_refs_def fold_visit_slugs set_of_list_def .

text \<open>C1: \<open>extractRefs\<close> answers with the slugs of the value's references, each once and in the order
  of the document, and throws exactly when one of them does not parse, with the error of the first
  such reference.\<close>

theorem extract_refs_spec:
  "extract_refs v =
     res_bind (map_res parse_ref (ref_strings v)) (\<lambda>ps. Inr (set_of_list (map pr_slug ps)))"
  by (rule extract_refs_map)

lemma parse_ref_slug_nonempty: "parse_ref r = Inr p \<Longrightarrow> pr_slug p \<noteq> []"
proof -
  assume p: "parse_ref r = Inr p"
  then have "r \<in> lang REF_PATH_REGEX"
    by (auto simp: parse_ref_def rx_matches_iff split: if_splits)
  then obtain u v where "r = u @ v" "u \<noteq> []" "set u \<subseteq> set slug_chars"
    unfolding REF_PATH_REGEX_def lang.simps(4) [of "RPlus (RIn slug_chars)"] by (auto simp: lang_class_plus)
  moreover have "CHR ''.'' \<notin> set slug_chars" by (simp add: slug_chars_def char_class_defs)
  ultimately have "r \<noteq> [] \<and> hd r \<noteq> CHR ''.''" by (cases u) auto
  then have "takeWhile (\<lambda>c. c \<noteq> CHR ''.'') r \<noteq> []" by (cases r) auto
  with p show ?thesis by (auto simp: parse_ref_def split: if_splits)
qed

lemma extract_refs_nonempty: "extract_refs v = Inr slugs \<Longrightarrow> [] \<notin> set slugs"
proof -
  have "map_res parse_ref rs = Inr ps \<Longrightarrow> [] \<notin> pr_slug ` set ps" for rs ps
    by (induction rs arbitrary: ps) (auto simp: result_simps, metis parse_ref_slug_nonempty)
  then show "extract_refs v = Inr slugs \<Longrightarrow> [] \<notin> set slugs"
    by (auto simp: extract_refs_map result_simps)
qed

section \<open>Substituting the references\<close>

lemma fold_visit_resolve:
  "fold_res (visit_ref (\<lambda>_ ref. res_bind (resolve_ref ts ref) (\<lambda>w. Inr (w, ())))) rs u =
   res_bind (map_res (\<lambda>r. res_bind (parse_ref r) (resolve_ref ts)) rs) (\<lambda>_. Inr ())"
proof (induction rs)
  case Nil
  then show ?case by simp
next
  case (Cons r rs)
  then show ?case
    by (cases "parse_ref r"; cases "resolve_ref ts (projr (parse_ref r))")
      (simp_all add: visit_ref_def res_bind_assoc)
qed

text \<open>C1: \<open>substituteRefs\<close> resolves the value's references in the order of the document and fails
  exactly when one of them fails, with the error of the first that does: a malformed reference
  (\<open>ref_invalid\<close>), an unknown slug, a target that is missing or not ready, or a path the target's
  outputs do not have.\<close>

theorem substitute_refs_outcome:
  "res_bind (substitute_refs v targets) (\<lambda>_. Inr ()) =
   res_bind (map_res (\<lambda>r. res_bind (parse_ref r) (resolve_ref targets)) (ref_strings v))
     (\<lambda>_. Inr ())"
  using map_refs_visits [of "\<lambda>_ ref. res_bind (resolve_ref targets ref) (\<lambda>w. Inr (w, ()))" "()" v]
  by (simp add: substitute_refs_def fold_visit_resolve res_bind_assoc split_def)

text \<open>The value with each reference replaced by the value \<open>\<rho>\<close> gives it, and every other leaf kept.\<close>

fun fill_refs :: "(string \<Rightarrow> jsval) \<Rightarrow> jsval \<Rightarrow> jsval" where
  "fill_refs \<rho> (JArr xs) = JArr (map (fill_refs \<rho>) xs)"
| "fill_refs \<rho> (JObj es) =
     (case map_of es ''$ref'' of
        Some (JStr r) \<Rightarrow> \<rho> r
      | _ \<Rightarrow> JObj (map (\<lambda>(k, v). (k, fill_refs \<rho> v)) es))"
| "fill_refs \<rho> v = v"

lemma fill_refs_no_node:
  "\<not> is_ref_node (JObj es) \<Longrightarrow>
   fill_refs \<rho> (JObj es) = JObj (map (\<lambda>(k, v). (k, fill_refs \<rho> v)) es)"
  by (auto split: option.splits jsval.splits)

fun own_proto_free :: "jsval \<Rightarrow> bool" where
  "own_proto_free (JArr xs) = (\<forall>x \<in> set xs. own_proto_free x)"
| "own_proto_free (JObj es) = (\<forall>e \<in> set es. fst e \<noteq> ''__proto__'' \<and> own_proto_free (snd e))"
| "own_proto_free _ = True"

lemma put_props_append:
  assumes "distinct (map fst (acc @ es))" "\<forall>e \<in> set es. fst e \<noteq> ''__proto__''"
  shows "fold (\<lambda>(k, w). put_prop k w) es acc = acc @ es"
  using assms
proof (induction es arbitrary: acc)
  case Nil
  then show ?case by simp
next
  case (Cons e es)
  obtain k w where e: "e = (k, w)" by (cases e)
  have "AList.update k w acc = acc @ [(k, w)]"
    using Cons.prems(1) by (induction acc) (auto simp: e)
  with Cons e show ?case by (simp add: put_prop_def)
qed

lemma map_refs_fill:
  assumes "is_json v" "own_proto_free v"
    and "\<And>r p s. r \<in> set (ref_strings v) \<Longrightarrow> res_bind (parse_ref r) (tr s) = Inr (\<rho> r, s)"
  shows "map_refs tr s v = Inr (fill_refs \<rho> v, s)"
  using assms
proof (induction v arbitrary: s rule: jsval_induct)
  case (Arr xs)
  have "map_refs tr t x = Inr (fill_refs \<rho> x, t)" if "x \<in> set xs" for x t
    using Arr.prems(1,2) that by (intro Arr.IH [OF that] Arr.prems(3)) auto
  then have "map_state (map_refs tr) s xs = Inr (map (fill_refs \<rho>) xs, s)"
    by (subst map_state_pure [where g = "\<lambda>x. Inr (fill_refs \<rho> x)"]) simp_all
  then show ?case by simp
next
  case (Obj es)
  show ?case
  proof (cases "is_ref_node (JObj es)")
    case True
    then obtain r where "map_of es ''$ref'' = Some (JStr r)"
      by (auto split: option.splits jsval.splits)
    with Obj.prems(3) show ?thesis by simp
  next
    case False
    let ?g = "\<lambda>(k, v). (k, fill_refs \<rho> v)"
    have "(\<lambda>s (k, v). res_bind (map_refs tr s v) (\<lambda>(w, s'). Inr ((k, w), s'))) t e =
        res_bind (Inr (?g e)) (\<lambda>y. Inr (y, t))" if e: "e \<in> set es" for e t
    proof -
      obtain k w where kw: "e = (k, w)" by (cases e)
      have sub: "r \<in> set (ref_strings w) \<Longrightarrow> r \<in> set (ref_strings (JObj es))" for r
        unfolding ref_strings_no_node [OF False] using e kw by force
      have "map_refs tr t w = Inr (fill_refs \<rho> w, t)"
        using Obj.prems(1,2) e kw
        by (intro Obj.IH [OF e [unfolded kw]] Obj.prems(3) sub) (force, force)
      then show ?thesis by (simp add: kw)
    qed
    then have "map_state (\<lambda>s (k, v). res_bind (map_refs tr s v) (\<lambda>(w, s'). Inr ((k, w), s'))) s es
        = Inr (map ?g es, s)"
      by (subst map_state_pure [where g = "\<lambda>e. Inr (?g e)"]) auto
    moreover have "fold (\<lambda>(k, w). put_prop k w) (map ?g es) [] = map ?g es"
      using Obj.prems by (subst put_props_append) (auto simp: split_def comp_def)
    ultimately show ?thesis
      unfolding map_refs_no_node [OF False] fill_refs_no_node [OF False] by simp
  qed
qed simp_all

text \<open>C1: when every reference of a JSON value resolves, \<open>substituteRefs\<close> returns the value with
  each reference replaced by what it resolves to and nothing else changed. Own keys named
  \<open>__proto__\<close> are excluded: \<open>out[k] = ...\<close> does not copy them.\<close>

theorem substitute_refs_result:
  assumes "is_json v" "own_proto_free v"
    and "\<And>r. r \<in> set (ref_strings v) \<Longrightarrow> res_bind (parse_ref r) (resolve_ref targets) = Inr (\<rho> r)"
  shows "substitute_refs v targets = Inr (fill_refs \<rho> v)"
proof -
  have "map_refs (\<lambda>_ ref. res_bind (resolve_ref targets ref) (\<lambda>w. Inr (w, ()))) () v =
      Inr (fill_refs \<rho> v, ())"
    by (rule map_refs_fill [OF assms(1,2)]) (simp add: assms(3) flip: res_bind_assoc)
  then show ?thesis by (simp add: substitute_refs_def)
qed

lemma substitute_refs_result_witness:
  "substitute_refs (JObj [(''n'', JNum 1), (''v'', JArr [JObj [(''$ref'', JStr ''a.b'')]])])
     [(''a'', TargetOk [(''b'', JStr ''x'')])] =
   Inr (JObj [(''n'', JNum 1), (''v'', JArr [JStr ''x''])])"
  using substitute_refs_result
    [of "JObj [(''n'', JNum 1), (''v'', JArr [JObj [(''$ref'', JStr ''a.b'')]])]"
        "[(''a'', TargetOk [(''b'', JStr ''x'')])]" "\<lambda>_. JStr ''x''"]
  by (simp add: parse_ref_def REF_PATH_REGEX_def rx_matches_def RPlus_def slug_chars_def
      ident_chars_def char_class_defs resolve_ref_def Let_def get_at_def path_segments_def
      segment_keys_def)

section \<open>Parsing and reading a reference\<close>

text \<open>A path in structured form: property names, each with the array indices that follow it.\<close>

definition print_segment :: "string \<times> nat list \<Rightarrow> string" where
  "print_segment seg =
     fst seg @ concat (map (\<lambda>n. CHR ''['' # nat_str n @ [CHR '']'']) (snd seg))"

fun print_path :: "(string \<times> nat list) list \<Rightarrow> string" where
  "print_path [] = []"
| "print_path [seg] = print_segment seg"
| "print_path (seg # segs) = print_segment seg @ CHR ''.'' # print_path segs"

definition is_slug :: "string \<Rightarrow> bool" where
  "is_slug s \<longleftrightarrow> s \<noteq> [] \<and> set s \<subseteq> set slug_chars"

definition is_ident :: "string \<Rightarrow> bool" where
  "is_ident s \<longleftrightarrow> s \<noteq> [] \<and> set s \<subseteq> set ident_chars"

definition segment_rx :: rx where
  "segment_rx = RSeq (RPlus (RIn ident_chars))
     (RStar (RSeq (RLit ''['') (RSeq (RPlus (RIn digit_chars)) (RLit '']''))))"

lemma digit_char: "(m :: nat) < 10 \<Longrightarrow> char_of (48 + m) \<in> set digit_chars"
proof -
  assume "m < 10"
  moreover have "list_all (\<lambda>m. char_of (48 + m :: nat) \<in> set digit_chars) [0..<10]"
    by code_simp
  ultimately show ?thesis by (simp add: list_all_iff)
qed

lemma is_digits_nat_str: "is_digits (nat_str n)"
proof (induction n rule: nat_str.induct)
  case (1 n)
  show ?case
  proof (cases "n < 10")
    case True
    then show ?thesis by (subst nat_str.simps) (simp add: is_digits_def digit_char)
  next
    case False
    with 1 have "is_digits (nat_str (n div 10))" by simp
    with False show ?thesis
      by (subst nat_str.simps) (simp add: is_digits_def digit_char)
  qed
qed

lemma nat_str_0: "nat_str 0 = ''0''"
  by code_simp

definition index_rx :: rx where
  "index_rx = RSeq (RLit ''['') (RSeq (RPlus (RIn digit_chars)) (RLit '']''))"

lemma print_index_lang: "CHR ''['' # nat_str n @ [CHR '']''] \<in> lang index_rx"
proof -
  have "''['' @ (nat_str n @ '']'') \<in> lang index_rx"
    unfolding index_rx_def using is_digits_nat_str [of n]
    by (intro lang_SeqI) (simp_all add: lang_class_plus is_digits_def)
  then show ?thesis by simp
qed

lemma print_segment_lang:
  "is_ident (fst seg) \<Longrightarrow> print_segment seg \<in> lang (RSeq (RPlus (RIn ident_chars)) (RStar index_rx))"
  unfolding print_segment_def
  by (intro lang_SeqI lang_StarI) (auto simp: lang_class_plus is_ident_def print_index_lang)

lemma print_path_concat:
  "segs \<noteq> [] \<Longrightarrow> CHR ''.'' # print_path segs = concat (map (\<lambda>seg. CHR ''.'' # print_segment seg) segs)"
  by (induction segs rule: print_path.induct) auto

lemma ref_string_lang:
  assumes "is_slug slug" "segs \<noteq> []" "\<forall>seg \<in> set segs. is_ident (fst seg)"
  shows "slug @ CHR ''.'' # print_path segs \<in> lang REF_PATH_REGEX"
proof -
  have "''.'' @ print_segment seg \<in>
      lang (RSeq (RLit ''.'') (RSeq (RPlus (RIn ident_chars)) (RStar index_rx)))"
    if "is_ident (fst seg)" for seg
    using that by (intro lang_SeqI print_segment_lang) simp_all
  with assms show ?thesis
    unfolding print_path_concat [OF assms(2)] REF_PATH_REGEX_def index_rx_def [symmetric]
    by (intro lang_SeqI lang_PlusI) (auto simp: lang_class_plus is_slug_def simp del: lang.simps)
qed

lemma match_indices_print:
  "match_indices (concat (map (\<lambda>n. CHR ''['' # nat_str n @ [CHR '']'']) ns)) = ns"
proof (induction ns)
  case Nil
  then show ?case by simp
next
  case (Cons n ns)
  have d: "nat_str n \<noteq> []" "\<forall>c \<in> set (nat_str n). c \<in> set digit_chars"
    using is_digits_nat_str [of n] by (auto simp: is_digits_def)
  have "CHR '']'' \<notin> set digit_chars" by (simp add: digit_chars_def)
  with d have tw: "takeWhile (\<lambda>d. d \<in> set digit_chars) (nat_str n @ CHR '']'' # xs) = nat_str n"
      "dropWhile (\<lambda>d. d \<in> set digit_chars) (nat_str n @ CHR '']'' # xs) = CHR '']'' # xs" for xs
    by (simp_all add: takeWhile_append2 dropWhile_append2)
  show ?case using d(1) Cons by (simp add: tw Let_def)
qed

lemma split_on_no: "c \<notin> set xs \<Longrightarrow> split_on c xs = [xs]"
  by (induction xs) auto

lemma split_on_app: "c \<notin> set xs \<Longrightarrow> split_on c (xs @ c # ys) = xs # split_on c ys"
  by (induction xs) auto

lemma ident_no_punct: "is_ident s \<Longrightarrow> CHR ''.'' \<notin> set s \<and> CHR ''['' \<notin> set s"
  by (auto simp: is_ident_def ident_chars_def char_class_defs)

lemma print_segment_no_dot: "is_ident (fst seg) \<Longrightarrow> CHR ''.'' \<notin> set (print_segment seg)"
proof -
  have "CHR ''.'' \<notin> set (nat_str n)" for n
    using is_digits_nat_str [of n] by (auto simp: is_digits_def digit_chars_def)
  then show "is_ident (fst seg) \<Longrightarrow> ?thesis"
    by (auto simp: print_segment_def dest: ident_no_punct)
qed

lemma split_print_path:
  "segs \<noteq> [] \<Longrightarrow> \<forall>seg \<in> set segs. is_ident (fst seg) \<Longrightarrow>
   split_on CHR ''.'' (print_path segs) = map print_segment segs"
  by (induction segs rule: print_path.induct)
    (simp_all add: split_on_no split_on_app print_segment_no_dot)

lemma segment_keys_print:
  assumes "is_ident (fst seg)"
  shows "segment_keys (print_segment seg) = KStr (fst seg) # map KIdx (snd seg)"
proof (cases "snd seg")
  case Nil
  with assms show ?thesis by (simp add: segment_keys_def print_segment_def ident_no_punct)
next
  case (Cons n ns)
  have nb: "\<forall>c \<in> set (fst seg). c \<noteq> CHR ''[''" using ident_no_punct [OF assms] by metis
  let ?t = "concat (map (\<lambda>n. CHR ''['' # nat_str n @ [CHR '']'']) (snd seg))"
  obtain u where u: "?t = CHR ''['' # u" using Cons by simp
  have "takeWhile (\<lambda>c. c \<noteq> CHR ''['') (fst seg @ ?t) = fst seg"
       "dropWhile (\<lambda>c. c \<noteq> CHR ''['') (fst seg @ ?t) = ?t"
    using nb unfolding u by (simp_all add: takeWhile_append2 dropWhile_append2)
  moreover have "CHR ''['' \<in> set ?t" unfolding u by simp
  ultimately show ?thesis
    unfolding segment_keys_def print_segment_def by (simp add: match_indices_print)
qed

text \<open>A reference written from a slug and a path in structured form is accepted by
  \<open>parseRef\<close>, which splits it into that slug and that path, and \<open>pathSegments\<close> reads the path
  back as the property names and array indices it was written from.\<close>

theorem parse_ref_roundtrip:
  assumes "is_slug slug" "segs \<noteq> []" "\<forall>seg \<in> set segs. is_ident (fst seg)"
  shows "parse_ref (slug @ CHR ''.'' # print_path segs) =
      Inr \<lparr> pr_slug = slug, pr_path = print_path segs \<rparr> \<and>
    path_segments (print_path segs) =
      concat (map (\<lambda>(ident, idxs). KStr ident # map KIdx idxs) segs)"
proof
  have "\<forall>c \<in> set slug. c \<noteq> CHR ''.''"
    using assms(1) by (auto simp: is_slug_def slug_chars_def char_class_defs)
  then show "parse_ref (slug @ CHR ''.'' # print_path segs) =
      Inr \<lparr> pr_slug = slug, pr_path = print_path segs \<rparr>"
    using ref_string_lang [OF assms]
    by (simp add: parse_ref_def rx_matches_iff takeWhile_append2 dropWhile_append2)
  have "map segment_keys (map print_segment segs) = map (\<lambda>(ident, idxs). KStr ident # map KIdx idxs) segs"
    using assms(3) by (auto simp: segment_keys_print)
  then show "path_segments (print_path segs) =
      concat (map (\<lambda>(ident, idxs). KStr ident # map KIdx idxs) segs)"
    unfolding path_segments_def split_print_path [OF assms(2,3)] by (rule arg_cong)
qed

lemma parse_ref_roundtrip_witness:
  "parse_ref ''cert-1.opts[0].name'' = Inr \<lparr> pr_slug = ''cert-1'', pr_path = ''opts[0].name'' \<rparr> \<and>
   path_segments ''opts[0].name'' = [KStr ''opts'', KIdx 0, KStr ''name'']"
  using parse_ref_roundtrip [of "''cert-1''" "[(''opts'', [0]), (''name'', [])]"]
  by (simp add: is_slug_def is_ident_def slug_chars_def ident_chars_def char_class_defs
      print_segment_def nat_str_0)

text \<open>A reference whose path names a property every plain object inherits resolves, to the
  built-in method, on a target whose outputs have no such property; the intended answer is
  \<open>ref_path_missing\<close>.\<close>

theorem resolve_ref_inherited:
  assumes "map_of targets slug = Some (TargetOk state)" "map_of state ''constructor'' = None"
  shows "resolve_ref targets \<lparr> pr_slug = slug, pr_path = ''constructor'' \<rparr> =
    Inr (JFun ''constructor'')"
  using assms
  by (simp add: resolve_ref_def get_at_def path_segments_def segment_keys_def object_inherited_def
      object_members_def)

lemma resolve_ref_inherited_witness:
  "resolve_ref [(''vpc'', TargetOk [(''id'', JStr ''v'')])] \<lparr> pr_slug = ''vpc'', pr_path = ''constructor'' \<rparr> =
     Inr (JFun ''constructor'')"
  using resolve_ref_inherited [of "[(''vpc'', TargetOk [(''id'', JStr ''v'')])]" "''vpc''"] by simp

end
