(* ===== verification/Plan.thy ===== *)
theory Plan
  imports Schema Refs
begin

text \<open>
  The apply planner, apps/api/src/changesets/plan.ts: from the staged items of a changeset and the
  live resources of its project, \<open>plan_changeset_apply\<close> computes which items depend on which, which
  are blocked and why, and an order to apply the rest in; \<open>get_change_set_apply_graph\<close> groups that
  order into levels whose items run in parallel. The loops of \<open>planChangesetApply\<close> are one
  definition each: staging, references, deletes, propagation of blocks, the topological sort and the
  reporting of cycles. The function throws when a reference of an item does not parse.
\<close>

section \<open>Types\<close>

datatype block_reason = MissingTarget | DeleteBlocked | CycleReason | BlockedDependency

record apply_blocker =
  b_item_id :: string
  b_reason :: block_reason
  b_slug :: "string option"
  b_blocked_by_item :: "string option"
  b_blocked_by_slug :: "string option"
  b_message :: string

record live_resource =
  lr_id :: string
  lr_slug :: string
  lr_depends_on :: "string list option"
  lr_deleted_at :: "int option"

type_synonym deps = "(string \<times> string list) list"   \<comment> \<open>\<open>Map<string, Set<string>>\<close>\<close>

record staged =
  st_targets :: "(string \<times> change_set_item) list"
  st_mutations :: "(string \<times> change_set_item list) list"
  st_deletes :: "(string \<times> change_set_item) list"

record apply_plan =
  pl_ordered :: "change_set_item list"
  pl_blockers :: "apply_blocker list"
  pl_deps :: deps

section \<open>Slugs and references of an item\<close>

definition change_set_item_slug :: "change_set_item \<Rightarrow> string option" where
  "change_set_item_slug item =
     (case ci_changes item of
        CreateResource c \<Rightarrow> Some (cc_slug c)
      | ImportResource c \<Rightarrow> Some (ic_slug c)
      | _ \<Rightarrow> ci_target_slug item)"

definition ref_sources :: "change_set_item \<Rightarrow> jsval list" where
  "ref_sources item =
     (case ci_changes item of
        CreateResource c \<Rightarrow> [cc_inputs c]
      | UpdateResource inputs \<Rightarrow> [JObj inputs]
      | _ \<Rightarrow> [])"

section \<open>Staging\<close>

definition ordered_by_creation :: "change_set_item list \<Rightarrow> change_set_item list" where
  "ordered_by_creation items = sort_key ci_created_at items"

definition live_by_slug :: "live_resource list \<Rightarrow> (string \<times> live_resource) list" where
  "live_by_slug live = map_of_list lr_slug (filter (\<lambda>r. lr_deleted_at r = None) live)"

definition mutations_of :: "staged \<Rightarrow> string \<Rightarrow> change_set_item list" where
  "mutations_of st slug = (case map_of (st_mutations st) slug of None \<Rightarrow> [] | Some ms \<Rightarrow> ms)"

definition stage_item :: "change_set_item \<Rightarrow> staged \<Rightarrow> staged" where
  "stage_item item st =
     (case truthy (change_set_item_slug item) of
        None \<Rightarrow> st
      | Some slug \<Rightarrow>
          (let st1 = (if is_create_or_import item
                      then st\<lparr> st_targets := AList.update slug item (st_targets st) \<rparr> else st)
           in if is_delete_item item
              then st1\<lparr> st_deletes := AList.update slug item (st_deletes st1) \<rparr>
              else st1\<lparr> st_mutations :=
                AList.update slug (mutations_of st1 slug @ [item]) (st_mutations st1) \<rparr>))"

definition stage_items :: "change_set_item list \<Rightarrow> staged" where
  "stage_items items =
     fold stage_item items \<lparr> st_targets = [], st_mutations = [], st_deletes = [] \<rparr>"

section \<open>Dependencies\<close>

definition deps_of :: "deps \<Rightarrow> string \<Rightarrow> string list" where
  "deps_of deps k = (case map_of deps k of None \<Rightarrow> [] | Some ds \<Rightarrow> ds)"

definition add_dependency :: "string \<Rightarrow> string \<Rightarrow> deps \<Rightarrow> deps" where
  "add_dependency k d deps =
     (case map_of deps k of None \<Rightarrow> deps | Some ds \<Rightarrow> AList.update k (set_add d ds) deps)"

definition depend_on :: "change_set_item \<Rightarrow> change_set_item \<Rightarrow> deps \<Rightarrow> deps" where
  "depend_on item other deps =
     (if ci_id item \<noteq> ci_id other then add_dependency (ci_id item) (ci_id other) deps else deps)"

type_synonym plan_state = "apply_blocker list \<times> deps"

definition plan_ref ::
  "staged \<Rightarrow> (string \<times> live_resource) list \<Rightarrow> change_set_item \<Rightarrow> string \<Rightarrow> plan_state \<Rightarrow> plan_state" where
  "plan_ref st live item target = (\<lambda>(blockers, deps).
     if Some target = change_set_item_slug item
     then (blockers @ [\<lparr> b_item_id = ci_id item, b_reason = CycleReason, b_slug = Some target,
             b_blocked_by_item = None, b_blocked_by_slug = None,
             b_message = ''resource '' @ target @ '' cannot reference itself'' \<rparr>], deps)
     else case map_of (st_deletes st) target of
       Some d \<Rightarrow> (blockers @ [\<lparr> b_item_id = ci_id item, b_reason = DeleteBlocked,
             b_slug = Some target, b_blocked_by_item = Some (ci_id d), b_blocked_by_slug = None,
             b_message = ''referenced resource '' @ target @ '' is staged for delete'' \<rparr>], deps)
     | None \<Rightarrow> case map_of (st_targets st) target of
       Some t \<Rightarrow> (blockers, depend_on item t deps)
     | None \<Rightarrow> case map_of (st_mutations st) target of
       Some ms \<Rightarrow> (blockers, fold (depend_on item) ms deps)
     | None \<Rightarrow> if map_of live target = None
       then (blockers @ [\<lparr> b_item_id = ci_id item, b_reason = MissingTarget,
             b_slug = Some target, b_blocked_by_item = None, b_blocked_by_slug = None,
             b_message = ''referenced resource '' @ target @ '' is missing'' \<rparr>], deps)
       else (blockers, deps))"

definition plan_item_refs ::
  "staged \<Rightarrow> (string \<times> live_resource) list \<Rightarrow> change_set_item \<Rightarrow> plan_state \<Rightarrow> js_error + plan_state" where
  "plan_item_refs st live item =
     fold_res (\<lambda>source acc.
         if source = JUndef then Inr acc
         else res_bind (extract_refs source) (\<lambda>slugs. Inr (fold (plan_ref st live item) slugs acc)))
       (ref_sources item)"

text \<open>\<open>refSources(item).some(source => extractRefs(source).includes(slug))\<close>, \<open>undefined\<close> sources
  skipped.\<close>

fun some_source_refers :: "string \<Rightarrow> jsval list \<Rightarrow> js_error + bool" where
  "some_source_refers slug [] = Inr False"
| "some_source_refers slug (source # sources) =
     (if source = JUndef then some_source_refers slug sources
      else res_bind (extract_refs source) (\<lambda>slugs.
        if slug \<in> set slugs then Inr True else some_source_refers slug sources))"

definition final_mutation :: "staged \<Rightarrow> string \<Rightarrow> change_set_item option" where
  "final_mutation st slug =
     (let ms = filter (\<lambda>m. list_ex (\<lambda>s. s \<noteq> JUndef) (ref_sources m)) (mutations_of st slug)
      in if ms = [] then None else Some (last ms))"

definition delete_blocker :: "string \<Rightarrow> change_set_item \<Rightarrow> live_resource \<Rightarrow> apply_blocker" where
  "delete_blocker slug item r =
     \<lparr> b_item_id = ci_id item, b_reason = DeleteBlocked, b_slug = Some slug,
       b_blocked_by_item = None, b_blocked_by_slug = Some (lr_slug r),
       b_message = ''cannot delete '' @ slug @ '' because '' @ lr_slug r @ '' references it'' \<rparr>"

definition lr_depends :: "string \<Rightarrow> live_resource \<Rightarrow> bool" where
  "lr_depends slug r = (case lr_depends_on r of None \<Rightarrow> False | Some ds \<Rightarrow> slug \<in> set ds)"

definition plan_delete_dependent ::
  "staged \<Rightarrow> string \<Rightarrow> change_set_item \<Rightarrow> live_resource \<Rightarrow> plan_state \<Rightarrow> js_error + plan_state" where
  "plan_delete_dependent st slug item r = (\<lambda>(blockers, deps).
     if \<not> lr_depends slug r then Inr (blockers, deps)
     else case map_of (st_deletes st) (lr_slug r) of
       Some d \<Rightarrow> Inr (blockers, depend_on item d deps)
     | None \<Rightarrow> case final_mutation st (lr_slug r) of
       None \<Rightarrow> Inr (blockers @ [delete_blocker slug item r], deps)
     | Some m \<Rightarrow> res_bind (some_source_refers slug (ref_sources m)) (\<lambda>remains.
         if \<not> remains then Inr (blockers, depend_on item m deps)
         else Inr (blockers @ [delete_blocker slug item r], deps)))"

definition plan_deletes ::
  "staged \<Rightarrow> (string \<times> live_resource) list \<Rightarrow> plan_state \<Rightarrow> js_error + plan_state" where
  "plan_deletes st live =
     fold_res (\<lambda>(slug, item). fold_res (plan_delete_dependent st slug item) (map snd live))
       (st_deletes st)"

section \<open>Propagation of blocks\<close>

definition block_step ::
  "deps \<Rightarrow> change_set_item \<Rightarrow> string list \<times> apply_blocker list \<times> bool \<Rightarrow>
   string list \<times> apply_blocker list \<times> bool" where
  "block_step deps item = (\<lambda>(blocked, blockers, changed).
     if ci_id item \<in> set blocked then (blocked, blockers, changed)
     else case truthy (find (\<lambda>d. d \<in> set blocked) (deps_of deps (ci_id item))) of
       None \<Rightarrow> (blocked, blockers, changed)
     | Some d \<Rightarrow>
         (set_add (ci_id item) blocked,
          blockers @ [\<lparr> b_item_id = ci_id item, b_reason = BlockedDependency, b_slug = None,
            b_blocked_by_item = Some d, b_blocked_by_slug = None,
            b_message = ''changeset item depends on a blocked prerequisite'' \<rparr>], True))"

lemma block_step_set:
  "block_step deps item (blocked, blockers, changed) = (blocked', blockers', changed') \<Longrightarrow>
   set blocked \<subseteq> set blocked' \<and> set blocked' \<subseteq> insert (ci_id item) (set blocked) \<and>
   (changed' \<longrightarrow> changed \<or> set blocked' = insert (ci_id item) (set blocked) \<and> ci_id item \<notin> set blocked)"
  by (auto simp: block_step_def split: if_splits option.splits)

lemma block_pass_set:
  "fold (block_step deps) items (blocked, blockers, changed) = (blocked', blockers', changed') \<Longrightarrow>
   set blocked \<subseteq> set blocked' \<and> set blocked' \<subseteq> set blocked \<union> ci_id ` set items \<and>
   (changed' \<longrightarrow> changed \<or> (\<exists>k \<in> ci_id ` set items. k \<in> set blocked' \<and> k \<notin> set blocked))"
proof (induction items arbitrary: blocked blockers changed)
  case Nil
  then show ?case by simp
next
  case (Cons item items)
  obtain b bs c where s: "block_step deps item (blocked, blockers, changed) = (b, bs, c)"
    by (cases "block_step deps item (blocked, blockers, changed)") auto
  with Cons.prems have "fold (block_step deps) items (b, bs, c) = (blocked', blockers', changed')"
    by simp
  from Cons.IH [OF this] block_step_set [OF s] show ?case by auto
qed

lemma block_pass_decreases:
  assumes "fold (block_step deps) items (blocked, blockers, False) = (blocked', blockers', True)"
  shows "card (ci_id ` set items - set blocked') < card (ci_id ` set items - set blocked)"
  by (rule psubset_card_mono) (use block_pass_set [OF assms] in auto)

function block_loop ::
  "deps \<Rightarrow> change_set_item list \<Rightarrow> string list \<times> apply_blocker list \<Rightarrow>
   string list \<times> apply_blocker list" where
  "block_loop deps items (blocked, blockers) =
     (case fold (block_step deps) items (blocked, blockers, False) of
        (blocked', blockers', changed) \<Rightarrow>
          if changed then block_loop deps items (blocked', blockers') else (blocked', blockers'))"
  by pat_completeness auto
termination
  by (relation "measure (\<lambda>(deps, items, blocked, blockers). card (ci_id ` set items - set blocked))")
    (auto dest: block_pass_decreases [OF sym])

declare block_loop.simps [simp del]

section \<open>The topological sort\<close>

definition kahn_visit ::
  "string list \<Rightarrow> change_set_item \<Rightarrow> change_set_item \<Rightarrow> deps \<times> change_set_item list \<Rightarrow>
   deps \<times> change_set_item list" where
  "kahn_visit blocked item candidate = (\<lambda>(remaining, pushed).
     case map_of remaining (ci_id candidate) of
       None \<Rightarrow> (remaining, pushed)
     | Some ds \<Rightarrow>
         if ci_id item \<notin> set ds then (remaining, pushed)
         else (let ds' = removeAll (ci_id item) ds;
                   remaining' = AList.update (ci_id candidate) ds' remaining
               in if ds' \<noteq> [] then (remaining', pushed)
                  else if ci_id candidate \<notin> set blocked then (remaining', pushed @ [candidate])
                  else (remaining', pushed)))"

definition remaining_size :: "deps \<Rightarrow> nat" where
  "remaining_size deps = sum_list (map (\<lambda>e. length (snd e)) deps)"

lemma remaining_size_update:
  "map_of deps k = Some ds \<Longrightarrow>
   remaining_size (AList.update k ds' deps) + length ds = remaining_size deps + length ds'"
  by (induction deps) (auto simp: remaining_size_def)

lemma kahn_visit_size:
  "kahn_visit blocked item c (rem, pushed) = (rem', pushed') \<Longrightarrow>
   remaining_size rem' + length pushed' \<le> remaining_size rem + length pushed"
proof -
  assume v: "kahn_visit blocked item c (rem, pushed) = (rem', pushed')"
  show ?thesis
  proof (cases "map_of rem (ci_id c)")
    case None
    with v show ?thesis by (simp add: kahn_visit_def)
  next
    case (Some ds)
    have "ci_id item \<in> set ds \<Longrightarrow> length (removeAll (ci_id item) ds) < length ds"
      by (rule length_removeAll_less)
    with v Some remaining_size_update [OF Some, of "removeAll (ci_id item) ds"] show ?thesis
      by (auto simp: kahn_visit_def Let_def split: if_splits simp flip: length_greater_0_conv)
  qed
qed

lemma kahn_pass_size:
  "fold (kahn_visit blocked item) cs (rem, pushed) = (rem', pushed') \<Longrightarrow>
   remaining_size rem' + length pushed' \<le> remaining_size rem + length pushed"
proof (induction cs arbitrary: rem pushed)
  case Nil
  then show ?case by simp
next
  case (Cons c cs)
  obtain r p where s: "kahn_visit blocked item c (rem, pushed) = (r, p)"
    by (cases "kahn_visit blocked item c (rem, pushed)") auto
  from Cons.IH [of r p] Cons.prems s kahn_visit_size [OF s] show ?case by simp
qed

text \<open>The queue is the part of \<open>ready\<close> from \<open>index\<close> on.\<close>

function kahn_loop ::
  "change_set_item list \<Rightarrow> string list \<Rightarrow> deps \<Rightarrow> change_set_item list \<Rightarrow> change_set_item list \<Rightarrow>
   change_set_item list" where
  "kahn_loop items blocked remaining [] ordered = ordered"
| "kahn_loop items blocked remaining (item # queue) ordered =
     (case fold (kahn_visit blocked item) items (remaining, []) of
        (remaining', pushed) \<Rightarrow>
          kahn_loop items blocked remaining' (queue @ pushed) (ordered @ [item]))"
  by pat_completeness auto
termination
  by (relation "measure (\<lambda>(items, blocked, rem, queue, ordered). remaining_size rem + length queue)")
    (auto dest: kahn_pass_size [OF sym])

section \<open>The plan\<close>

definition cycle_blocker :: "change_set_item \<Rightarrow> apply_blocker" where
  "cycle_blocker item =
     \<lparr> b_item_id = ci_id item, b_reason = CycleReason, b_slug = change_set_item_slug item,
       b_blocked_by_item = None, b_blocked_by_slug = None,
       b_message = ''changeset dependency cycle detected'' \<rparr>"

definition empty_deps :: "change_set_item list \<Rightarrow> deps" where
  "empty_deps items = fold (\<lambda>item. AList.update (ci_id item) []) items []"

definition plan_direct ::
  "change_set_item list \<Rightarrow> live_resource list \<Rightarrow> js_error + plan_state" where
  "plan_direct ordered live_resources =
     (let live = live_by_slug live_resources; st = stage_items ordered
      in res_bind (fold_res (plan_item_refs st live) ordered ([], empty_deps ordered))
           (plan_deletes st live))"

definition order_items :: "change_set_item list \<Rightarrow> string list \<Rightarrow> deps \<Rightarrow> change_set_item list" where
  "order_items ordered blocked deps =
     kahn_loop ordered blocked deps
       (filter (\<lambda>item. ci_id item \<notin> set blocked \<and> deps_of deps (ci_id item) = []) ordered) []"

definition plan_changeset_apply ::
  "change_set_item list \<Rightarrow> live_resource list \<Rightarrow> js_error + apply_plan" where
  "plan_changeset_apply items live_resources =
     (let ordered = ordered_by_creation items in
      res_bind (plan_direct ordered live_resources) (\<lambda>(direct, deps).
        case block_loop deps ordered (set_of_list (map b_item_id direct), direct) of
          (blocked, blockers) \<Rightarrow>
            (let result = order_items ordered blocked deps;
                 left = filter (\<lambda>item. ci_id item \<notin> set blocked \<and>
                   ci_id item \<notin> ci_id ` set result) ordered
             in Inr \<lparr> pl_ordered = result, pl_blockers = blockers @ map cycle_blocker left,
                      pl_deps = deps \<rparr>)))"

section \<open>Levels\<close>

definition depth_of :: "(string \<times> nat) list \<Rightarrow> string \<Rightarrow> nat" where
  "depth_of depths k = (case map_of depths k of None \<Rightarrow> 0 | Some d \<Rightarrow> d)"

definition item_depth :: "string list \<Rightarrow> deps \<Rightarrow> (string \<times> nat) list \<Rightarrow> change_set_item \<Rightarrow> nat" where
  "item_depth included deps depths item =
     fold (\<lambda>d depth. if d \<notin> set included then depth else max depth (depth_of depths d + 1))
       (deps_of deps (ci_id item)) 0"

definition depths_by_id :: "apply_plan \<Rightarrow> (string \<times> nat) list" where
  "depths_by_id plan =
     fold (\<lambda>item depths.
         AList.update (ci_id item)
           (item_depth (map ci_id (pl_ordered plan)) (pl_deps plan) depths item) depths)
       (pl_ordered plan) []"

text \<open>\<open>levels[depth] ??= []; levels[depth].push(item)\<close>: writing past the end of a JavaScript array
  leaves holes, which read as \<open>undefined\<close> (here \<open>None\<close>).\<close>

definition push_level ::
  "nat \<Rightarrow> change_set_item \<Rightarrow> change_set_item list option list \<Rightarrow> change_set_item list option list" where
  "push_level d item levels =
     (let ext = levels @ replicate (Suc d - length levels) None
      in ext[d := Some ((case ext ! d of None \<Rightarrow> [] | Some l \<Rightarrow> l) @ [item])])"

definition get_change_set_apply_graph ::
  "apply_plan \<Rightarrow> js_error + change_set_item list option list" where
  "get_change_set_apply_graph plan =
     (if pl_blockers plan \<noteq> []
      then Inl (PlainError ''invariant: getChangeSetApplyGraph called on a changeset with blockers'')
      else Inr (fold (\<lambda>item. push_level (depth_of (depths_by_id plan) (ci_id item)) item)
                  (pl_ordered plan) []))"

end
