(* ===== verification/PlanOrder.thy ===== *)
theory PlanOrder
  imports Plan "HOL-Library.Multiset"
begin

text \<open>
  Correctness of the topological sort and of the block propagation of the apply planner: what
  \<open>kahn_loop\<close> and \<open>block_loop\<close> compute for any dependency map, and the consequences for
  \<open>plan_changeset_apply\<close>: its order is a topological one, it is complete, and every item left out
  has a blocker.
\<close>

definition wf_items :: "change_set_item list \<Rightarrow> bool" where
  "wf_items items \<longleftrightarrow> distinct (map ci_id items) \<and> [] \<notin> ci_id ` set items"

text \<open>Every item of the list comes after its dependencies; \<open>seen\<close> are the ids already placed.\<close>

fun deps_first :: "deps \<Rightarrow> string list \<Rightarrow> change_set_item list \<Rightarrow> bool" where
  "deps_first deps seen [] = True"
| "deps_first deps seen (item # items) =
     (set (deps_of deps (ci_id item)) \<subseteq> set seen \<and> deps_first deps (seen @ [ci_id item]) items)"

lemma deps_first_append:
  "deps_first deps seen (xs @ ys) \<longleftrightarrow>
   deps_first deps seen xs \<and> deps_first deps (seen @ map ci_id xs) ys"
  by (induction xs arbitrary: seen) auto

lemma deps_first_split:
  "deps_first deps [] (us @ x # vs) \<Longrightarrow> set (deps_of deps (ci_id x)) \<subseteq> ci_id ` set us"
  by (simp add: deps_first_append)

lemma ordered_by_creation_simps [simp]:
  "set (ordered_by_creation items) = set items"
  "length (ordered_by_creation items) = length items"
  "wf_items (ordered_by_creation items) \<longleftrightarrow> wf_items items"
proof -
  have m: "mset (map ci_id (ordered_by_creation items)) = mset (map ci_id items)"
    unfolding ordered_by_creation_def mset_map mset_sort ..
  from mset_eq_imp_distinct_iff [OF m]
  show "wf_items (ordered_by_creation items) \<longleftrightarrow> wf_items items"
    by (simp add: wf_items_def ordered_by_creation_def)
qed (simp_all add: ordered_by_creation_def)

section \<open>The topological sort\<close>

definition newly_ready :: "string list \<Rightarrow> change_set_item \<Rightarrow> deps \<Rightarrow> change_set_item \<Rightarrow> bool" where
  "newly_ready blocked item rem c \<longleftrightarrow>
     (case map_of rem (ci_id c) of
        None \<Rightarrow> False
      | Some ds \<Rightarrow> ci_id item \<in> set ds \<and> set ds \<subseteq> {ci_id item} \<and> ci_id c \<notin> set blocked)"

lemma removeAll_Nil_iff: "removeAll x xs = [] \<longleftrightarrow> set xs \<subseteq> {x}"
  by (induction xs) auto

lemma kahn_visit_simp:
  "kahn_visit blocked item c (rem, pushed) =
     (case map_of rem (ci_id c) of
        None \<Rightarrow> (rem, pushed)
      | Some ds \<Rightarrow>
          (if ci_id item \<in> set ds then AList.update (ci_id c) (removeAll (ci_id item) ds) rem else rem,
           if newly_ready blocked item rem c then pushed @ [c] else pushed))"
  by (auto simp: kahn_visit_def newly_ready_def Let_def removeAll_Nil_iff split: option.splits)

lemma kahn_pass:
  assumes "distinct (map ci_id cs)"
    and "fold (kahn_visit blocked item) cs (rem, pushed) = (rem', pushed')"
  shows "map_of rem' k = (if k \<in> ci_id ` set cs
           then map_option (removeAll (ci_id item)) (map_of rem k) else map_of rem k)"
    and "pushed' = pushed @ filter (newly_ready blocked item rem) cs"
proof -
  have "map_of rem' k = (if k \<in> ci_id ` set cs
           then map_option (removeAll (ci_id item)) (map_of rem k) else map_of rem k) \<and>
        pushed' = pushed @ filter (newly_ready blocked item rem) cs"
    using assms
  proof (induction cs arbitrary: rem pushed)
    case Nil
    then show ?case by simp
  next
    case (Cons c cs)
    obtain r p where s: "kahn_visit blocked item c (rem, pushed) = (r, p)"
      by (cases "kahn_visit blocked item c (rem, pushed)") auto
    have p: "p = pushed @ filter (newly_ready blocked item rem) [c]"
      and r: "map_of r = (map_of rem)(ci_id c := map_option (removeAll (ci_id item)) (map_of rem (ci_id c)))"
      using s by (auto simp: kahn_visit_simp newly_ready_def split: option.splits if_splits
          intro!: ext)
    have "filter (newly_ready blocked item r) cs = filter (newly_ready blocked item rem) cs"
    proof (rule filter_cong [OF refl])
      fix x assume "x \<in> set cs"
      then have "ci_id x \<in> ci_id ` set cs" by simp
      with Cons.prems(1) have "ci_id x \<noteq> ci_id c" by auto
      then show "newly_ready blocked item r x = newly_ready blocked item rem x"
        by (simp add: newly_ready_def r)
    qed
    with Cons.IH [of r p] Cons.prems s show ?case by (auto simp: p r)
  qed
  then show "map_of rem' k = (if k \<in> ci_id ` set cs
           then map_option (removeAll (ci_id item)) (map_of rem k) else map_of rem k)"
    and "pushed' = pushed @ filter (newly_ready blocked item rem) cs" by auto
qed

definition kahn_inv ::
  "change_set_item list \<Rightarrow> string list \<Rightarrow> deps \<Rightarrow> deps \<Rightarrow> change_set_item list \<Rightarrow> change_set_item list \<Rightarrow> bool" where
  "kahn_inv items blocked deps rem queue acc \<longleftrightarrow>
     (\<forall>item \<in> set items. \<exists>ds. map_of rem (ci_id item) = Some ds \<and>
        set ds = set (deps_of deps (ci_id item)) - ci_id ` set acc) \<and>
     distinct (acc @ queue) \<and>
     (\<forall>item. item \<in> set (acc @ queue) \<longleftrightarrow> item \<in> set items \<and> ci_id item \<notin> set blocked \<and>
        set (deps_of deps (ci_id item)) \<subseteq> ci_id ` set acc) \<and>
     deps_first deps [] acc"

lemma newly_ready_inv:
  assumes "kahn_inv items blocked deps rem (x # queue) acc" "c \<in> set items"
  shows "newly_ready blocked x rem c \<longleftrightarrow> ci_id c \<notin> set blocked \<and>
    ci_id x \<in> set (deps_of deps (ci_id c)) - ci_id ` set acc \<and>
    set (deps_of deps (ci_id c)) \<subseteq> insert (ci_id x) (ci_id ` set acc)"
  using assms by (force simp: kahn_inv_def newly_ready_def)

lemma kahn_inv_step:
  assumes d: "distinct (map ci_id items)"
    and inv: "kahn_inv items blocked deps rem (x # queue) acc"
    and f: "fold (kahn_visit blocked x) items (rem, []) = (rem', pushed)"
  shows "kahn_inv items blocked deps rem' (queue @ pushed) (acc @ [x])"
proof -
  note pass = kahn_pass [OF d f]
  have mem: "item \<in> set acc \<or> item = x \<or> item \<in> set queue \<longleftrightarrow> item \<in> set items \<and>
      ci_id item \<notin> set blocked \<and> set (deps_of deps (ci_id item)) \<subseteq> ci_id ` set acc" for item
    using inv by (auto simp: kahn_inv_def)
  have pushed: "c \<in> set pushed \<longleftrightarrow> c \<in> set items \<and> ci_id c \<notin> set blocked \<and>
      ci_id x \<in> set (deps_of deps (ci_id c)) - ci_id ` set acc \<and>
      set (deps_of deps (ci_id c)) \<subseteq> insert (ci_id x) (ci_id ` set acc)" for c
    using newly_ready_inv [OF inv] pass(2) by auto
  have "distinct pushed" using d pass(2) by (simp add: distinct_map)
  moreover have "c \<notin> set pushed" if "c \<in> set acc \<or> c = x \<or> c \<in> set queue" for c
    using that mem [of c] pushed [of c] by auto
  moreover have "distinct (acc @ x # queue)" using inv by (simp add: kahn_inv_def)
  ultimately have dist: "distinct ((acc @ [x]) @ queue @ pushed)" by auto
  have rem: "\<exists>ds. map_of rem' (ci_id item) = Some ds \<and>
      set ds = set (deps_of deps (ci_id item)) - ci_id ` set (acc @ [x])" if "item \<in> set items" for item
    using inv that pass(1) [of "ci_id item"] by (force simp: kahn_inv_def)
  have mem': "item \<in> set ((acc @ [x]) @ queue @ pushed) \<longleftrightarrow> item \<in> set items \<and>
      ci_id item \<notin> set blocked \<and> set (deps_of deps (ci_id item)) \<subseteq> ci_id ` set (acc @ [x])" for item
    using mem [of item] pushed [of item] by auto
  have "set (deps_of deps (ci_id x)) \<subseteq> ci_id ` set acc" using mem [of x] by blast
  then have "deps_first deps [] (acc @ [x])"
    using inv by (simp add: kahn_inv_def deps_first_append)
  with dist rem mem' show ?thesis unfolding kahn_inv_def by blast
qed

lemma kahn_loop_inv:
  assumes "distinct (map ci_id items)" "kahn_inv items blocked deps rem queue acc"
  shows "\<exists>rem'. kahn_inv items blocked deps rem' [] (kahn_loop items blocked rem queue acc)"
  using assms
proof (induction items blocked rem queue acc rule: kahn_loop.induct)
  case (1 items blocked rem acc)
  then show ?case by auto
next
  case (2 items blocked rem x queue acc)
  obtain rem' pushed where f: "fold (kahn_visit blocked x) items (rem, []) = (rem', pushed)"
    by (cases "fold (kahn_visit blocked x) items (rem, [])") auto
  from 2(1) [OF f [symmetric] 2(2) kahn_inv_step [OF 2(2,3) f]] f show ?case by simp
qed

lemma order_items_spec:
  assumes "distinct (map ci_id items)" "\<forall>item \<in> set items. map_of deps (ci_id item) \<noteq> None"
  shows "distinct (order_items items blocked deps)"
    and "item \<in> set (order_items items blocked deps) \<longleftrightarrow> item \<in> set items \<and>
      ci_id item \<notin> set blocked \<and>
      set (deps_of deps (ci_id item)) \<subseteq> ci_id ` set (order_items items blocked deps)"
    and "deps_first deps [] (order_items items blocked deps)"
proof -
  have "kahn_inv items blocked deps deps
      (filter (\<lambda>item. ci_id item \<notin> set blocked \<and> deps_of deps (ci_id item) = []) items) []"
    unfolding kahn_inv_def
    using assms by (simp add: deps_of_def distinct_map) fastforce
  from kahn_loop_inv [OF assms(1) this] obtain rem where
    "kahn_inv items blocked deps rem [] (order_items items blocked deps)"
    unfolding order_items_def by blast
  then show "distinct (order_items items blocked deps)"
    and "item \<in> set (order_items items blocked deps) \<longleftrightarrow> item \<in> set items \<and>
      ci_id item \<notin> set blocked \<and>
      set (deps_of deps (ci_id item)) \<subseteq> ci_id ` set (order_items items blocked deps)"
    and "deps_first deps [] (order_items items blocked deps)"
    unfolding kahn_inv_def append_Nil2 by blast+
qed

text \<open>If the dependencies are well-founded, the sort places every unblocked item, provided that
  dependencies of unblocked items are unblocked items.\<close>

definition dep_edges :: "change_set_item list \<Rightarrow> deps \<Rightarrow> (string \<times> string) set" where
  "dep_edges items deps = (\<Union>item \<in> set items. (\<lambda>d. (ci_id item, d)) ` set (deps_of deps (ci_id item)))"

lemma dep_edges_iff:
  "(k, d) \<in> dep_edges items deps \<longleftrightarrow> k \<in> ci_id ` set items \<and> d \<in> set (deps_of deps k)"
  by (auto simp: dep_edges_def)

lemma finite_dep_edges [simp]: "finite (dep_edges items deps)"
  by (simp add: dep_edges_def)

lemma order_items_complete:
  assumes d: "distinct (map ci_id items)" "\<forall>item \<in> set items. map_of deps (ci_id item) \<noteq> None"
    and wf: "wf ((dep_edges items deps)\<inverse>)"
    and closed: "\<And>item d. item \<in> set items \<Longrightarrow> ci_id item \<notin> set blocked \<Longrightarrow>
      d \<in> set (deps_of deps (ci_id item)) \<Longrightarrow> d \<in> ci_id ` set items \<and> d \<notin> set blocked"
    and item: "item \<in> set items" "ci_id item \<notin> set blocked"
  shows "item \<in> set (order_items items blocked deps)"
proof -
  have "\<forall>item \<in> set items. ci_id item = k \<longrightarrow> k \<notin> set blocked \<longrightarrow>
      item \<in> set (order_items items blocked deps)" for k
    using wf
  proof (induction k rule: wf_induct_rule)
    case (less k)
    show ?case
    proof (intro ballI impI)
      fix item assume i: "item \<in> set items" "ci_id item = k" "k \<notin> set blocked"
      have "set (deps_of deps k) \<subseteq> ci_id ` set (order_items items blocked deps)"
      proof
        fix d assume dd: "d \<in> set (deps_of deps k)"
        with closed i obtain j where j: "j \<in> set items" "d = ci_id j" "d \<notin> set blocked" by blast
        have "(d, k) \<in> (dep_edges items deps)\<inverse>" using i dd by (auto simp: dep_edges_iff)
        from less.IH [OF this] j show "d \<in> ci_id ` set (order_items items blocked deps)" by blast
      qed
      with i show "item \<in> set (order_items items blocked deps)"
        by (subst order_items_spec(2) [OF d]) simp
    qed
  qed
  with item show ?thesis by blast
qed

text \<open>Conversely, the position in the order is such a rank.\<close>

fun position_of :: "string \<Rightarrow> change_set_item list \<Rightarrow> nat" where
  "position_of k [] = 0"
| "position_of k (x # xs) = (if ci_id x = k then 0 else Suc (position_of k xs))"

lemma position_of_append:
  "position_of k (us @ vs) =
     (if k \<in> ci_id ` set us then position_of k us else length us + position_of k vs)"
  by (induction us) auto

lemma position_of_less: "k \<in> ci_id ` set us \<Longrightarrow> position_of k us < length us"
  by (induction us) auto

lemma deps_first_position:
  assumes "deps_first deps [] items" "distinct (map ci_id items)" "item \<in> set items"
    "d \<in> set (deps_of deps (ci_id item))"
  shows "d \<in> ci_id ` set items \<and> position_of d items < position_of (ci_id item) items"
proof -
  obtain us vs where s: "items = us @ item # vs" using assms(3) by (auto dest: split_list)
  have d: "d \<in> ci_id ` set us" using deps_first_split assms(1,4) s by blast
  have "ci_id item \<notin> ci_id ` set us" using assms(2) s by auto
  with d position_of_less [OF d] show ?thesis by (auto simp: s position_of_append)
qed

lemma deps_first_wf:
  assumes "deps_first deps [] items" "distinct (map ci_id items)"
  shows "wf ((dep_edges items deps)\<inverse>)"
  by (rule wf_subset [OF wf_measure [of "\<lambda>k. position_of k items"]])
    (use deps_first_position [OF assms] in \<open>auto simp: dep_edges_def\<close>)

section \<open>Propagation of blocks\<close>

text \<open>The ids from which a blocked one is reached along the dependencies.\<close>

definition reaches_blocked :: "change_set_item list \<Rightarrow> deps \<Rightarrow> string set \<Rightarrow> string set" where
  "reaches_blocked items deps blocked = {k. \<exists>b \<in> blocked. (k, b) \<in> (dep_edges items deps)\<^sup>*}"

definition block_inv ::
  "change_set_item list \<Rightarrow> deps \<Rightarrow> string list \<Rightarrow> apply_blocker list \<Rightarrow>
   string list \<times> apply_blocker list \<Rightarrow> bool" where
  "block_inv items deps blocked0 blockers0 = (\<lambda>(blocked, blockers).
     set blocked0 \<subseteq> set blocked \<and> set blocked \<subseteq> reaches_blocked items deps (set blocked0) \<and>
     (\<exists>extra. blockers = blockers0 @ extra \<and> (\<forall>b \<in> set extra. b_reason b = BlockedDependency) \<and>
        set blocked = set blocked0 \<union> b_item_id ` set extra))"

lemma block_step_inv:
  assumes "block_step deps item (blocked, blockers, changed) = (blocked', blockers', changed')"
    and "item \<in> set items" and inv: "block_inv items deps blocked0 blockers0 (blocked, blockers)"
  shows "block_inv items deps blocked0 blockers0 (blocked', blockers')"
proof (cases "ci_id item \<in> set blocked \<or>
    truthy (find (\<lambda>d. d \<in> set blocked) (deps_of deps (ci_id item))) = None")
  case True
  with assms show ?thesis by (auto simp: block_step_def split: if_splits)
next
  case False
  then obtain d where nb: "ci_id item \<notin> set blocked"
    and t: "truthy (find (\<lambda>d. d \<in> set blocked) (deps_of deps (ci_id item))) = Some d" by auto
  then have d: "d \<in> set (deps_of deps (ci_id item))" "d \<in> set blocked"
    by (auto simp: truthy_Some_iff dest: find_Some_in)
  have e: "(ci_id item, d) \<in> dep_edges items deps"
    using d(1) assms(2) by (auto simp: dep_edges_iff)
  obtain b where "b \<in> set blocked0" "(d, b) \<in> (dep_edges items deps)\<^sup>*"
    using d(2) inv by (auto simp: block_inv_def reaches_blocked_def)
  with e have r: "ci_id item \<in> reaches_blocked items deps (set blocked0)"
    unfolding reaches_blocked_def by (auto intro: converse_rtrancl_into_rtrancl)
  from inv obtain extra where extra: "blockers = blockers0 @ extra"
    "\<forall>b \<in> set extra. b_reason b = BlockedDependency"
    "set blocked = set blocked0 \<union> b_item_id ` set extra" by (auto simp: block_inv_def)
  have "blocked' = set_add (ci_id item) blocked"
    and "\<exists>b. blockers' = blockers @ [b] \<and> b_reason b = BlockedDependency \<and> b_item_id b = ci_id item"
    using assms(1) nb t by (auto simp: block_step_def)
  then show ?thesis using inv r extra unfolding block_inv_def by force
qed

lemma block_pass_inv:
  assumes "fold (block_step deps) todo (blocked, blockers, changed) = (blocked', blockers', changed')"
    and "set todo \<subseteq> set items" "block_inv items deps blocked0 blockers0 (blocked, blockers)"
  shows "block_inv items deps blocked0 blockers0 (blocked', blockers')"
  using assms
proof (induction todo arbitrary: blocked blockers changed)
  case Nil
  then show ?case by simp
next
  case (Cons item todo)
  obtain b bs c where s: "block_step deps item (blocked, blockers, changed) = (b, bs, c)"
    by (cases "block_step deps item (blocked, blockers, changed)") auto
  with Cons.prems have "block_inv items deps blocked0 blockers0 (b, bs)"
    by (intro block_step_inv [OF s]) auto
  with Cons s show ?case by simp
qed

lemma block_pass_changed:
  "fold (block_step deps) todo (blocked, blockers, True) = (blocked', blockers', changed') \<Longrightarrow> changed'"
proof (induction todo arbitrary: blocked blockers)
  case (Cons item todo)
  obtain b bs c where s: "block_step deps item (blocked, blockers, True) = (b, bs, c)"
    by (cases "block_step deps item (blocked, blockers, True)") auto
  then have c by (auto simp: block_step_def split: if_splits option.splits)
  with Cons s show ?case by simp
qed simp

lemma block_pass_unchanged:
  assumes "fold (block_step deps) todo (blocked, blockers, False) = (blocked', blockers', False)"
  shows "blocked' = blocked \<and> blockers' = blockers \<and> (\<forall>item \<in> set todo. ci_id item \<in> set blocked \<or>
     truthy (find (\<lambda>d. d \<in> set blocked) (deps_of deps (ci_id item))) = None)"
  using assms
proof (induction todo arbitrary: blocked blockers)
  case (Cons item todo)
  obtain b bs c where s: "block_step deps item (blocked, blockers, False) = (b, bs, c)"
    by (cases "block_step deps item (blocked, blockers, False)") auto
  with Cons.prems block_pass_changed have "\<not> c" by fastforce
  with s have "b = blocked" "bs = blockers" "ci_id item \<in> set blocked \<or>
     truthy (find (\<lambda>d. d \<in> set blocked) (deps_of deps (ci_id item))) = None"
    by (auto simp: block_step_def split: if_splits option.splits)
  with Cons s \<open>\<not> c\<close> show ?case by simp
qed simp

lemma block_loop_inv:
  assumes "block_inv items deps blocked0 blockers0 (blocked, blockers)"
    and "block_loop deps items (blocked, blockers) = (blocked', blockers')"
  shows "block_inv items deps blocked0 blockers0 (blocked', blockers') \<and>
    (\<forall>item \<in> set items. ci_id item \<in> set blocked' \<or>
       truthy (find (\<lambda>d. d \<in> set blocked') (deps_of deps (ci_id item))) = None)"
  using assms
proof (induction deps items "(blocked, blockers)" arbitrary: blocked blockers rule: block_loop.induct)
  case (1 deps items blocked blockers)
  obtain b bs c where f: "fold (block_step deps) items (blocked, blockers, False) = (b, bs, c)"
    by (cases "fold (block_step deps) items (blocked, blockers, False)") auto
  have inv: "block_inv items deps blocked0 blockers0 (b, bs)"
    by (rule block_pass_inv [OF f subset_refl 1(2)])
  show ?case
  proof (cases c)
    case True
    with 1(1) [OF f [symmetric] refl] inv 1(3) f show ?thesis by (simp add: block_loop.simps)
  next
    case False
    with f have "blocked' = b" "blockers' = bs" using 1(3) by (auto simp: block_loop.simps)
    with inv block_pass_unchanged f False show ?thesis by fastforce
  qed
qed

text \<open>An item ends blocked exactly when it depends, directly or through others, on an item with a
  blocker of its own.\<close>

lemma block_loop_spec:
  assumes "block_loop deps items (blocked, blockers) = (blocked', blockers')"
    and "\<And>k. k \<in> ci_id ` set items \<Longrightarrow> [] \<notin> set (deps_of deps k)"
  shows "set blocked' = reaches_blocked items deps (set blocked)"
    and "\<exists>extra. blockers' = blockers @ extra \<and> (\<forall>b \<in> set extra. b_reason b = BlockedDependency) \<and>
           set blocked' = set blocked \<union> b_item_id ` set extra"
proof -
  have "block_inv items deps blocked blockers (blocked, blockers)"
    by (auto simp: block_inv_def reaches_blocked_def)
  from block_loop_inv [OF this assms(1)]
  have inv: "block_inv items deps blocked blockers (blocked', blockers')"
    and closed: "\<forall>item \<in> set items. ci_id item \<in> set blocked' \<or>
       truthy (find (\<lambda>d. d \<in> set blocked') (deps_of deps (ci_id item))) = None" by auto
  have step: "k \<in> set blocked'" if e: "(k, d) \<in> dep_edges items deps" and d: "d \<in> set blocked'" for k d
  proof (rule ccontr)
    assume k: "k \<notin> set blocked'"
    from e have kd: "k \<in> ci_id ` set items" "d \<in> set (deps_of deps k)" by (auto simp: dep_edges_iff)
    with closed k have "truthy (find (\<lambda>d. d \<in> set blocked') (deps_of deps k)) = None" by auto
    then have "find (\<lambda>d. d \<in> set blocked') (deps_of deps k) \<in> {None, Some []}"
      by (cases "find (\<lambda>d. d \<in> set blocked') (deps_of deps k)" rule: truthy.cases) auto
    with kd d assms(2) show False by (auto simp: find_None_ball dest: find_Some_in)
  qed
  have "k \<in> set blocked'" if "(k, b) \<in> (dep_edges items deps)\<^sup>*" "b \<in> set blocked'" for k b
    using that by (induction rule: converse_rtrancl_induct) (auto intro: step)
  with inv show "set blocked' = reaches_blocked items deps (set blocked)"
    by (auto simp: block_inv_def reaches_blocked_def)
  from inv show "\<exists>extra. blockers' = blockers @ extra \<and>
      (\<forall>b \<in> set extra. b_reason b = BlockedDependency) \<and>
      set blocked' = set blocked \<union> b_item_id ` set extra" by (simp add: block_inv_def)
qed

end
