(* ===== verification/PlanSafety.thy ===== *)
theory PlanSafety
  imports PlanOrder
begin

text \<open>
  What the apply planner guarantees about a changeset: the items it stages per slug, the
  dependencies and blockers its direct phase produces, and from them the safety of its order.
\<close>

section \<open>The staged items of a slug\<close>

definition slug_is :: "string \<Rightarrow> change_set_item \<Rightarrow> bool" where
  "slug_is s item \<longleftrightarrow> change_set_item_slug item = Some s"

lemma kind_exclusive: "is_create_or_import item \<Longrightarrow> \<not> is_delete_item item"
  by (auto simp: is_create_or_import_def is_delete_item_def)

lemma stage_items_snoc: "stage_items (items @ [item]) = stage_item item (stage_items items)"
  by (simp add: stage_items_def)

lemma st_deletes_stage:
  "map_of (st_deletes (stage_items items)) s =
     (if s = [] then None else last_where (\<lambda>i. is_delete_item i \<and> slug_is s i) items)"
proof (induction items rule: rev_induct)
  case Nil
  then show ?case by (simp add: stage_items_def last_where_def)
next
  case (snoc item items)
  then show ?case
    by (auto simp: stage_items_snoc stage_item_def last_where_snoc slug_is_def truthy_Some_iff truthy_None_iff Let_def
        dest: kind_exclusive split: option.splits)
qed

lemma st_targets_stage:
  "map_of (st_targets (stage_items items)) s =
     (if s = [] then None else last_where (\<lambda>i. is_create_or_import i \<and> slug_is s i) items)"
proof (induction items rule: rev_induct)
  case Nil
  then show ?case by (simp add: stage_items_def last_where_def)
next
  case (snoc item items)
  then show ?case
    by (auto simp: stage_items_snoc stage_item_def last_where_snoc slug_is_def truthy_Some_iff truthy_None_iff Let_def
        dest: kind_exclusive split: option.splits)
qed

lemma st_mutations_stage:
  "map_of (st_mutations (stage_items items)) s =
     (let ms = filter (\<lambda>i. \<not> is_delete_item i \<and> slug_is s i) items
      in if s = [] \<or> ms = [] then None else Some ms)"
proof (induction items rule: rev_induct)
  case Nil
  then show ?case by (simp add: stage_items_def)
next
  case (snoc item items)
  then show ?case
    by (auto simp: stage_items_snoc stage_item_def slug_is_def truthy_Some_iff truthy_None_iff Let_def mutations_of_def
        dest: kind_exclusive split: option.splits if_splits)
qed

lemma mutations_of_stage:
  "mutations_of (stage_items items) s =
     (if s = [] then [] else filter (\<lambda>i. \<not> is_delete_item i \<and> slug_is s i) items)"
  by (simp add: mutations_of_def st_mutations_stage Let_def)

section \<open>The dependency map\<close>

definition deps_wf :: "change_set_item list \<Rightarrow> deps \<Rightarrow> bool" where
  "deps_wf items deps \<longleftrightarrow>
     dom (map_of deps) = ci_id ` set items \<and>
     (\<forall>k. set (deps_of deps k) \<subseteq> ci_id ` set items)"

definition deps_le :: "deps \<Rightarrow> deps \<Rightarrow> bool" where
  "deps_le deps deps' \<longleftrightarrow> (\<forall>k. set (deps_of deps k) \<subseteq> set (deps_of deps' k))"

definition depends :: "deps \<Rightarrow> change_set_item \<Rightarrow> change_set_item \<Rightarrow> bool" where
  "depends deps item other \<longleftrightarrow>
     ci_id item = ci_id other \<or> ci_id other \<in> set (deps_of deps (ci_id item))"

lemma deps_le_refl [simp]: "deps_le deps deps"
  by (simp add: deps_le_def)

lemma deps_le_trans: "deps_le a b \<Longrightarrow> deps_le b c \<Longrightarrow> deps_le a c"
  by (fastforce simp: deps_le_def)

lemma depends_mono: "depends deps item other \<Longrightarrow> deps_le deps deps' \<Longrightarrow> depends deps' item other"
  by (auto simp: depends_def deps_le_def)

lemma map_of_empty_deps: "map_of (empty_deps items) k = (if k \<in> ci_id ` set items then Some [] else None)"
proof -
  have "map_of (fold (\<lambda>item. AList.update (ci_id item) []) items m) k =
      (if k \<in> ci_id ` set items then Some [] else map_of m k)" for m :: deps
    by (induction items arbitrary: m) auto
  then show ?thesis by (simp add: empty_deps_def)
qed

lemma deps_wf_empty: "deps_wf items (empty_deps items)"
  by (auto simp: deps_wf_def deps_of_def map_of_empty_deps split: if_splits)

lemma deps_of_add_dependency:
  "deps_of (add_dependency k d deps) k' =
     (if k' = k \<and> map_of deps k \<noteq> None then set_add d (deps_of deps k) else deps_of deps k')"
  by (auto simp: add_dependency_def deps_of_def split: option.splits)

lemma dom_add_dependency [simp]: "dom (map_of (add_dependency k d deps)) = dom (map_of deps)"
  by (auto simp: add_dependency_def split: option.splits)

lemma depend_on_props:
  assumes "deps_wf items deps" "item \<in> set items" "other \<in> set items"
  shows "deps_wf items (depend_on item other deps)"
    and "deps_le deps (depend_on item other deps)"
    and "depends (depend_on item other deps) item other"
proof -
  have "ci_id item \<in> dom (map_of deps)" using assms by (simp add: deps_wf_def)
  then obtain ds where "map_of deps (ci_id item) = Some ds" by auto
  with assms show "deps_wf items (depend_on item other deps)"
    and "deps_le deps (depend_on item other deps)"
    and "depends (depend_on item other deps) item other"
    by (auto simp: depend_on_def deps_wf_def deps_le_def depends_def deps_of_add_dependency)
qed

lemma depend_on_all_props:
  assumes "deps_wf items deps" "item \<in> set items" "set others \<subseteq> set items"
  shows "deps_wf items (fold (depend_on item) others deps) \<and>
    deps_le deps (fold (depend_on item) others deps) \<and>
    (\<forall>o1 \<in> set others. depends (fold (depend_on item) others deps) item o1)"
proof -
  have "fold_res (\<lambda>x s. Inr (depend_on item x s)) others deps =
      (Inr (fold (depend_on item) others deps) :: unit + deps)" by simp
  then show ?thesis
    by (rule fold_res_establish [where I = "deps_wf items" and R = deps_le])
      (use assms depend_on_props in \<open>auto intro: deps_le_trans depends_mono\<close>)
qed

section \<open>The direct phase\<close>

definition refers :: "change_set_item \<Rightarrow> string \<Rightarrow> bool" where
  "refers item s \<longleftrightarrow> list_ex (\<lambda>src. src \<noteq> JUndef \<and>
     (case extract_refs src of Inl e \<Rightarrow> False | Inr slugs \<Rightarrow> s \<in> set slugs)) (ref_sources item)"

definition staged_in :: "change_set_item list \<Rightarrow> staged \<Rightarrow> bool" where
  "staged_in items st \<longleftrightarrow>
     (\<forall>s i. map_of (st_targets st) s = Some i \<longrightarrow> i \<in> set items) \<and>
     (\<forall>s i. map_of (st_deletes st) s = Some i \<longrightarrow> i \<in> set items) \<and>
     (\<forall>s ms. map_of (st_mutations st) s = Some ms \<longrightarrow> set ms \<subseteq> set items)"

lemma staged_in_stage: "staged_in items (stage_items items)"
  by (auto simp: staged_in_def st_deletes_stage st_targets_stage st_mutations_stage Let_def
      dest: last_where_Some split: if_splits)

text \<open>What makes a reference of an item acceptable, and what the planner has then recorded.\<close>

definition ref_static :: "staged \<Rightarrow> (string \<times> live_resource) list \<Rightarrow> change_set_item \<Rightarrow> string \<Rightarrow> bool" where
  "ref_static st live item s \<longleftrightarrow> \<not> slug_is s item \<and> map_of (st_deletes st) s = None \<and>
     (map_of (st_targets st) s \<noteq> None \<or> map_of (st_mutations st) s \<noteq> None \<or> map_of live s \<noteq> None)"

definition ref_done :: "staged \<Rightarrow> deps \<Rightarrow> change_set_item \<Rightarrow> string \<Rightarrow> bool" where
  "ref_done st deps item s \<longleftrightarrow>
     (case map_of (st_targets st) s of
        Some t \<Rightarrow> depends deps item t
      | None \<Rightarrow> (case map_of (st_mutations st) s of
          Some ms \<Rightarrow> \<forall>m \<in> set ms. depends deps item m
        | None \<Rightarrow> True))"

definition plan_ok :: "change_set_item list \<Rightarrow> plan_state \<Rightarrow> bool" where
  "plan_ok items = (\<lambda>(blockers, deps). deps_wf items deps \<and>
     b_item_id ` set blockers \<subseteq> ci_id ` set items)"

definition plan_le :: "plan_state \<Rightarrow> plan_state \<Rightarrow> bool" where
  "plan_le s t \<longleftrightarrow> (fst t = [] \<longrightarrow> fst s = []) \<and> deps_le (snd s) (snd t)"

lemma plan_le_refl [simp]: "plan_le s s"
  by (simp add: plan_le_def)

lemma plan_le_trans: "plan_le a b \<Longrightarrow> plan_le b c \<Longrightarrow> plan_le a c"
  by (auto simp: plan_le_def intro: deps_le_trans)

definition ref_outcome ::
  "staged \<Rightarrow> (string \<times> live_resource) list \<Rightarrow> change_set_item \<Rightarrow> string \<Rightarrow> plan_state \<Rightarrow> bool" where
  "ref_outcome st live item s t \<longleftrightarrow>
     (fst t = [] \<longrightarrow> ref_static st live item s \<and> ref_done st (snd t) item s)"

lemma ref_outcome_mono: "ref_outcome st live item s t \<Longrightarrow> plan_le t t' \<Longrightarrow> ref_outcome st live item s t'"
  by (auto simp: ref_outcome_def plan_le_def ref_done_def intro: depends_mono split: option.splits)

lemma plan_ref_step:
  assumes "staged_in items st" "item \<in> set items" "plan_ok items acc"
  shows "plan_ok items (plan_ref st live item s acc) \<and> plan_le acc (plan_ref st live item s acc) \<and>
    ref_outcome st live item s (plan_ref st live item s acc)"
proof -
  obtain bs deps where acc: "acc = (bs, deps)" by (cases acc)
  have wf: "deps_wf items deps" using assms(3) by (simp add: acc plan_ok_def)
  show ?thesis
  proof (cases "ref_static st live item s")
    case False
    then show ?thesis using assms
      by (auto simp: acc plan_ref_def plan_ok_def plan_le_def ref_outcome_def ref_static_def slug_is_def
          split: option.splits)
  next
    case True
    then have ns: "Some s \<noteq> change_set_item_slug item" "map_of (st_deletes st) s = None"
      by (auto simp: ref_static_def slug_is_def)
    show ?thesis
    proof (cases "map_of (st_targets st) s")
      case (Some t)
      then have "t \<in> set items" using assms(1) by (auto simp: staged_in_def)
      from depend_on_props [OF wf assms(2) this] Some ns True assms(3) show ?thesis
        by (simp add: acc plan_ref_def plan_ok_def plan_le_def ref_outcome_def ref_done_def)
    next
      case None
      show ?thesis
      proof (cases "map_of (st_mutations st) s")
        case (Some ms)
        then have "set ms \<subseteq> set items" using assms(1) by (auto simp: staged_in_def)
        from depend_on_all_props [OF wf assms(2) this] Some ns True None assms(3) show ?thesis
          by (simp add: acc plan_ref_def plan_ok_def plan_le_def ref_outcome_def ref_done_def)
      next
        case none: None
        with None ns True assms(3) show ?thesis
          by (auto simp: acc plan_ref_def plan_ok_def plan_le_def ref_outcome_def ref_done_def
              ref_static_def)
      qed
    qed
  qed
qed

lemma plan_ref_static: "ref_static st live item s \<Longrightarrow> fst (plan_ref st live item s acc) = fst acc"
  by (cases acc) (auto simp: plan_ref_def ref_static_def slug_is_def split: option.splits)

lemma plan_refs_fold:
  assumes "staged_in items st" "item \<in> set items" "plan_ok items acc"
  shows "plan_ok items (fold (plan_ref st live item) slugs acc) \<and>
    plan_le acc (fold (plan_ref st live item) slugs acc) \<and>
    (\<forall>s \<in> set slugs. ref_outcome st live item s (fold (plan_ref st live item) slugs acc))"
proof -
  have "fold_res (\<lambda>s acc. Inr (plan_ref st live item s acc)) slugs acc =
      (Inr (fold (plan_ref st live item) slugs acc) :: unit + plan_state)" by simp
  then show ?thesis
  proof (rule fold_res_establish [where I = "plan_ok items" and R = plan_le])
    fix x s s'
    assume ok: "plan_ok items s" and "Inr (plan_ref st live item x s) = (Inr s' :: unit + plan_state)"
    then show "plan_ok items s' \<and> plan_le s s' \<and> ref_outcome st live item x s'"
      using plan_ref_step [OF assms(1,2) ok, of live x] by simp
  qed (use assms(3) in \<open>auto intro: plan_le_trans ref_outcome_mono\<close>)
qed

lemma plan_item_refs_step:
  assumes "staged_in items st" "item \<in> set items" "plan_ok items acc"
    and "plan_item_refs st live item acc = Inr acc'"
  shows "plan_ok items acc' \<and> plan_le acc acc' \<and>
    (\<forall>s. refers item s \<longrightarrow> ref_outcome st live item s acc')"
proof -
  let ?P = "\<lambda>src t. \<forall>s. src \<noteq> JUndef \<longrightarrow>
    (case extract_refs src of Inl e \<Rightarrow> False | Inr slugs \<Rightarrow> s \<in> set slugs) \<longrightarrow> ref_outcome st live item s t"
  have "plan_ok items acc' \<and> plan_le acc acc' \<and> (\<forall>src \<in> set (ref_sources item). ?P src acc')"
  proof (rule fold_res_establish [OF assms(4) [unfolded plan_item_refs_def], where I = "plan_ok items"])
    fix src s s'
    assume "plan_ok items s"
      and "(if src = JUndef then Inr s
        else res_bind (extract_refs src) (\<lambda>slugs. Inr (fold (plan_ref st live item) slugs s))) = Inr s'"
    then show "plan_ok items s' \<and> plan_le s s' \<and> ?P src s'"
      using plan_refs_fold [OF assms(1,2)] by (fastforce simp: result_simps split: if_splits)
  qed (use assms(3) in \<open>auto intro: plan_le_trans ref_outcome_mono\<close>)
  then show ?thesis by (auto simp: refers_def list_ex_iff)
qed

lemma plan_item_refs_static:
  assumes "plan_item_refs st live item acc = Inr acc'"
    and "\<And>s. refers item s \<Longrightarrow> ref_static st live item s"
  shows "fst acc' = fst acc"
proof (rule fold_res_invariant [OF assms(1) [unfolded plan_item_refs_def], where P = "\<lambda>t. fst t = fst acc"])
  fix src s t assume "src \<in> set (ref_sources item)" and "fst s = fst acc"
    and f: "(if src = JUndef then Inr s
        else res_bind (extract_refs src) (\<lambda>slugs. Inr (fold (plan_ref st live item) slugs s))) = Inr t"
  have "refers item r" if "src \<noteq> JUndef" "extract_refs src = Inr slugs" "r \<in> set slugs" for slugs r
    unfolding refers_def list_ex_iff
    by (rule bexI [OF _ \<open>src \<in> set (ref_sources item)\<close>]) (simp add: that)
  then have "\<forall>slugs. src \<noteq> JUndef \<and> extract_refs src = Inr slugs \<longrightarrow>
      (\<forall>s \<in> set slugs. ref_static st live item s)"
    using assms(2) by blast
  moreover have fold: "\<forall>s \<in> set slugs. ref_static st live item s \<Longrightarrow>
      fst (fold (plan_ref st live item) slugs u) = fst u" for slugs u
    by (induction slugs arbitrary: u) (auto simp: plan_ref_static)
  ultimately show "fst t = fst acc"
    using f \<open>fst s = fst acc\<close> by (cases "extract_refs src") (auto simp: fold [of _ s] split: if_splits)
qed simp

text \<open>The same for a live resource that depends on a slug staged for delete.\<close>

definition delete_static :: "staged \<Rightarrow> string \<Rightarrow> live_resource \<Rightarrow> bool" where
  "delete_static st slug r \<longleftrightarrow> lr_depends slug r \<longrightarrow> map_of (st_deletes st) (lr_slug r) \<noteq> None \<or>
     (\<exists>m. final_mutation st (lr_slug r) = Some m \<and> \<not> refers m slug)"

definition delete_done ::
  "staged \<Rightarrow> deps \<Rightarrow> string \<Rightarrow> change_set_item \<Rightarrow> live_resource \<Rightarrow> bool" where
  "delete_done st deps slug item r \<longleftrightarrow> lr_depends slug r \<longrightarrow>
     (case map_of (st_deletes st) (lr_slug r) of
        Some d \<Rightarrow> depends deps item d
      | None \<Rightarrow> (case final_mutation st (lr_slug r) of
          Some m \<Rightarrow> depends deps item m
        | None \<Rightarrow> True))"

definition delete_outcome ::
  "staged \<Rightarrow> string \<Rightarrow> change_set_item \<Rightarrow> live_resource \<Rightarrow> plan_state \<Rightarrow> bool" where
  "delete_outcome st slug item r t \<longleftrightarrow>
     (fst t = [] \<longrightarrow> delete_static st slug r \<and> delete_done st (snd t) slug item r)"

lemma delete_outcome_mono:
  "delete_outcome st slug item r t \<Longrightarrow> plan_le t t' \<Longrightarrow> delete_outcome st slug item r t'"
  by (auto simp: delete_outcome_def plan_le_def delete_done_def intro: depends_mono
      split: option.splits)

lemma some_source_refers_Inr:
  "some_source_refers slug srcs = Inr b \<Longrightarrow> b \<longleftrightarrow> list_ex (\<lambda>src. src \<noteq> JUndef \<and>
     (case extract_refs src of Inl e \<Rightarrow> False | Inr slugs \<Rightarrow> slug \<in> set slugs)) srcs"
  by (induction srcs) (auto simp: result_simps split: if_splits)

lemma some_source_refers_item: "some_source_refers slug (ref_sources m) = Inr b \<Longrightarrow> b \<longleftrightarrow> refers m slug"
  unfolding refers_def by (rule some_source_refers_Inr)

lemma final_mutation_in:
  "staged_in items st \<Longrightarrow> final_mutation st slug = Some m \<Longrightarrow> m \<in> set items"
  using last_in_set [of "filter (\<lambda>m. list_ex (\<lambda>s. s \<noteq> JUndef) (ref_sources m)) (mutations_of st slug)"]
  by (fastforce simp: final_mutation_def mutations_of_def staged_in_def Let_def
      split: if_splits option.splits)

lemma delete_blocker_item [simp]: "b_item_id (delete_blocker slug item r) = ci_id item"
  by (simp add: delete_blocker_def)

lemma plan_delete_step:
  assumes st: "staged_in items st" and item: "item \<in> set items" and ok: "plan_ok items acc"
    and f: "plan_delete_dependent st slug item r acc = Inr acc'"
  shows "plan_ok items acc' \<and> plan_le acc acc' \<and> delete_outcome st slug item r acc'"
proof -
  obtain bs deps where acc: "acc = (bs, deps)" by (cases acc)
  have wf: "deps_wf items deps" and bs: "b_item_id ` set bs \<subseteq> ci_id ` set items"
    using ok by (simp_all add: acc plan_ok_def)
  show ?thesis
  proof (cases "lr_depends slug r \<and> map_of (st_deletes st) (lr_slug r) = None")
    case False
    show ?thesis
    proof (cases "lr_depends slug r")
      case True
      with False obtain d where d: "map_of (st_deletes st) (lr_slug r) = Some d" by auto
      then have "d \<in> set items" using st by (auto simp: staged_in_def)
      from depend_on_props [OF wf item this] d True f bs show ?thesis
        by (auto simp: acc plan_delete_dependent_def plan_ok_def plan_le_def delete_outcome_def
            delete_static_def delete_done_def)
    qed (use f ok in \<open>auto simp: acc plan_delete_dependent_def delete_outcome_def delete_static_def
        delete_done_def\<close>)
  next
    case True
    show ?thesis
    proof (cases "final_mutation st (lr_slug r)")
      case None
      with True f wf bs item show ?thesis
        by (auto simp: acc plan_delete_dependent_def plan_ok_def plan_le_def delete_outcome_def
            image_subset_iff)
    next
      case (Some m)
      from depend_on_props [OF wf item final_mutation_in [OF st Some]] True Some f wf bs item
      show ?thesis
        by (auto simp: acc plan_delete_dependent_def plan_ok_def plan_le_def delete_outcome_def
            delete_static_def delete_done_def image_subset_iff result_simps
            dest: some_source_refers_item split: if_splits)
    qed
  qed
qed

lemma plan_delete_static:
  "plan_delete_dependent st slug item r acc = Inr acc' \<Longrightarrow> delete_static st slug r \<Longrightarrow> fst acc' = fst acc"
  by (cases acc) (auto simp: plan_delete_dependent_def delete_static_def result_simps
      dest: some_source_refers_item split: if_splits option.splits)

section \<open>The whole direct phase\<close>

lemma plan_direct_spec:
  assumes "plan_direct items live = Inr (bs, deps)"
  shows "plan_ok items (bs, deps)"
    and "bs = [] \<Longrightarrow> item \<in> set items \<Longrightarrow> refers item s \<Longrightarrow>
      ref_static (stage_items items) (live_by_slug live) item s \<and>
      ref_done (stage_items items) deps item s"
    and "bs = [] \<Longrightarrow> (slug, item) \<in> set (st_deletes (stage_items items)) \<Longrightarrow>
      r \<in> snd ` set (live_by_slug live) \<Longrightarrow>
      delete_static (stage_items items) slug r \<and> delete_done (stage_items items) deps slug item r"
proof -
  let ?st = "stage_items items" and ?live = "live_by_slug live"
  obtain acc where refs: "fold_res (plan_item_refs ?st ?live) items ([], empty_deps items) = Inr acc"
    and dels: "plan_deletes ?st ?live acc = Inr (bs, deps)"
    using assms by (auto simp: plan_direct_def Let_def result_simps)
  have init: "plan_ok items ([], empty_deps items)" by (simp add: plan_ok_def deps_wf_empty)
  have a: "plan_ok items acc \<and> plan_le ([], empty_deps items) acc \<and>
      (\<forall>item \<in> set items. \<forall>s. refers item s \<longrightarrow> ref_outcome ?st ?live item s acc)"
    by (rule fold_res_establish [OF refs, where I = "plan_ok items", OF init])
      ((rule plan_item_refs_step [OF staged_in_stage]; assumption),
       auto intro: plan_le_trans ref_outcome_mono)
  have del_in: "item \<in> set items" if "(slug, item) \<in> set (st_deletes ?st)" for slug item
  proof -
    have "distinct (map fst (st_deletes (fold stage_item xs st)))"
      if "distinct (map fst (st_deletes st))" for xs st
      using that by (induction xs arbitrary: st)
        (auto simp: stage_item_def Let_def AList.distinct_update split: option.splits)
    then have "distinct (map fst (st_deletes ?st))" by (simp add: stage_items_def)
    with that staged_in_stage [of items] show ?thesis by (auto simp: staged_in_def)
  qed
  have inner: "plan_ok items t \<and> plan_le s t \<and> (\<forall>r \<in> set rs. delete_outcome ?st slug item r t)"
    if "fold_res (plan_delete_dependent ?st slug item) rs s = Inr t" "item \<in> set items" "plan_ok items s"
    for rs s t slug item
    by (rule fold_res_establish [OF that(1), where I = "plan_ok items", OF that(3)])
      ((rule plan_delete_step [OF staged_in_stage that(2)]; assumption),
       auto intro: plan_le_trans delete_outcome_mono)
  have b: "plan_ok items (bs, deps) \<and> plan_le acc (bs, deps) \<and>
      (\<forall>e \<in> set (st_deletes ?st). \<forall>r \<in> set (map snd ?live).
        delete_outcome ?st (fst e) (snd e) r (bs, deps))"
  proof (rule fold_res_establish [OF dels [unfolded plan_deletes_def], where I = "plan_ok items",
      OF conjunct1 [OF a]])
    fix e s s' assume e: "e \<in> set (st_deletes ?st)" and s: "plan_ok items s"
      and f: "(case e of (slug, item) \<Rightarrow>
        fold_res (plan_delete_dependent ?st slug item) (map snd ?live)) s = Inr s'"
    obtain slug item where [simp]: "e = (slug, item)" by (cases e)
    show "plan_ok items s' \<and> plan_le s s' \<and>
        (\<forall>r \<in> set (map snd ?live). delete_outcome ?st (fst e) (snd e) r s')"
      using inner [of slug item "map snd ?live" s s'] f s del_in e by simp
  qed (auto intro: plan_le_trans delete_outcome_mono)
  show "plan_ok items (bs, deps)" using b by blast
  show "ref_static ?st ?live item s \<and> ref_done ?st deps item s"
    if "bs = []" "item \<in> set items" "refers item s"
  proof -
    have "ref_outcome ?st ?live item s (bs, deps)"
      using a b that by (blast intro: ref_outcome_mono)
    with that show ?thesis by (simp add: ref_outcome_def)
  qed
  show "delete_static ?st slug r \<and> delete_done ?st deps slug item r"
    if "bs = []" "(slug, item) \<in> set (st_deletes ?st)" "r \<in> snd ` set ?live"
    using b that by (fastforce simp: delete_outcome_def)
qed

lemma plan_direct_static:
  assumes "plan_direct items live = Inr (bs, deps)"
    and "\<And>item s. item \<in> set items \<Longrightarrow> refers item s \<Longrightarrow>
      ref_static (stage_items items) (live_by_slug live) item s"
    and "\<And>slug item r. (slug, item) \<in> set (st_deletes (stage_items items)) \<Longrightarrow>
      r \<in> snd ` set (live_by_slug live) \<Longrightarrow> delete_static (stage_items items) slug r"
  shows "bs = []"
proof -
  let ?st = "stage_items items" and ?live = "live_by_slug live"
  obtain acc where refs: "fold_res (plan_item_refs ?st ?live) items ([], empty_deps items) = Inr acc"
    and dels: "plan_deletes ?st ?live acc = Inr (bs, deps)"
    using assms(1) by (auto simp: plan_direct_def Let_def result_simps)
  have "fst acc = []"
    by (rule fold_res_invariant [OF refs, where P = "\<lambda>t. fst t = []"]) (use plan_item_refs_static assms(2) in \<open>fastforce+\<close>)
  have "fst (bs, deps) = []"
  proof (rule fold_res_invariant [OF dels [unfolded plan_deletes_def], where P = "\<lambda>t. fst t = []"])
    show "fst acc = []" by fact
    fix e s t assume e: "e \<in> set (st_deletes ?st)" and "fst s = []"
      and f: "(case e of (slug, item) \<Rightarrow>
        fold_res (plan_delete_dependent ?st slug item) (map snd ?live)) s = Inr t"
    obtain slug item where [simp]: "e = (slug, item)" by (cases e)
    have g: "fold_res (plan_delete_dependent ?st slug item) (map snd ?live) s = Inr t"
      using f by simp
    show "fst t = []"
      by (rule fold_res_invariant [OF g, where P = "\<lambda>t. fst t = []"], rule \<open>fst s = []\<close>)
        (use plan_delete_static assms(3) e in \<open>fastforce+\<close>)
  qed
  then show ?thesis by simp
qed

section \<open>The plan\<close>

lemma plan_parts:
  assumes "plan_changeset_apply items live = Inr p" "wf_items items"
  obtains direct blocked extra where
    "plan_direct (ordered_by_creation items) live = Inr (direct, pl_deps p)"
    "set blocked = reaches_blocked (ordered_by_creation items) (pl_deps p) (b_item_id ` set direct)"
    "set blocked = b_item_id ` set (direct @ extra)"
    "pl_ordered p = order_items (ordered_by_creation items) blocked (pl_deps p)"
    "pl_blockers p = direct @ extra @ map cycle_blocker (filter (\<lambda>item. ci_id item \<notin> set blocked \<and>
       ci_id item \<notin> ci_id ` set (pl_ordered p)) (ordered_by_creation items))"
proof -
  let ?o = "ordered_by_creation items"
  obtain direct deps where d: "plan_direct ?o live = Inr (direct, deps)"
    using assms(1) by (auto simp: plan_changeset_apply_def Let_def result_simps)
  obtain blocked blockers where
    l: "block_loop deps ?o (set_of_list (map b_item_id direct), direct) = (blocked, blockers)"
    by (cases "block_loop deps ?o (set_of_list (map b_item_id direct), direct)") auto
  have "deps_wf ?o deps" using plan_direct_spec(1) [OF d] by (simp add: plan_ok_def)
  moreover have "[] \<notin> ci_id ` set ?o" using assms(2) by (simp add: wf_items_def)
  ultimately have ne: "[] \<notin> set (deps_of deps k)" for k by (auto simp: deps_wf_def)
  from block_loop_spec [OF l] ne obtain extra where
    e: "blockers = direct @ extra" "set blocked = b_item_id ` set (direct @ extra)"
    by (auto simp: image_Un)
  have r: "set blocked = reaches_blocked ?o deps (b_item_id ` set direct)"
    using block_loop_spec(1) [OF l] ne by simp
  have p: "p = \<lparr> pl_ordered = order_items ?o blocked deps,
      pl_blockers = blockers @ map cycle_blocker (filter (\<lambda>item. ci_id item \<notin> set blocked \<and>
        ci_id item \<notin> ci_id ` set (order_items ?o blocked deps)) ?o), pl_deps = deps \<rparr>"
    using assms(1) by (simp add: plan_changeset_apply_def d l Let_def)
  show thesis
    by (rule that [of direct blocked extra]) (simp_all add: p d r [symmetric] e)
qed

lemma wf_items_distinct: "wf_items items \<Longrightarrow> distinct (map ci_id items)"
  by (simp add: wf_items_def)

lemma wf_items_inj: "wf_items items \<Longrightarrow> a \<in> set items \<Longrightarrow> b \<in> set items \<Longrightarrow> ci_id a = ci_id b \<Longrightarrow> a = b"
  by (auto simp: wf_items_def distinct_map inj_on_def)

lemma plan_deps_wf:
  assumes "plan_changeset_apply items live = Inr p" "wf_items items"
  shows "deps_wf items (pl_deps p)"
proof -
  obtain direct blocked extra where d: "plan_direct (ordered_by_creation items) live = Inr (direct, pl_deps p)"
    using plan_parts [OF assms] by metis
  from plan_direct_spec(1) [OF d] show ?thesis by (simp add: plan_ok_def deps_wf_def)
qed

lemma plan_order:
  assumes "plan_changeset_apply items live = Inr p" "wf_items items"
  shows "distinct (map ci_id (pl_ordered p)) \<and> set (pl_ordered p) \<subseteq> set items \<and>
    deps_first (pl_deps p) [] (pl_ordered p)"
proof -
  let ?o = "ordered_by_creation items"
  obtain direct blocked extra where o: "pl_ordered p = order_items ?o blocked (pl_deps p)"
    using plan_parts [OF assms] by metis
  have d: "distinct (map ci_id ?o)" using assms(2) wf_items_distinct by force
  have n: "\<forall>item \<in> set ?o. map_of (pl_deps p) (ci_id item) \<noteq> None"
    using plan_deps_wf [OF assms] unfolding deps_wf_def dom_def by auto
  have sub: "set (pl_ordered p) \<subseteq> set items"
    unfolding o using order_items_spec(2) [OF d n, of _ blocked] by auto
  moreover have "inj_on ci_id (set items)"
    using wf_items_inj [OF assms(2)] by (auto intro: inj_onI)
  ultimately show ?thesis
    using order_items_spec(1,3) [OF d n] o by (auto simp: distinct_map intro: inj_on_subset)
qed

lemma plan_items:
  assumes p: "plan_changeset_apply items live = Inr p" and wf: "wf_items items"
    and item: "item \<in> set items"
  shows "item \<in> set (pl_ordered p) \<longleftrightarrow> ci_id item \<notin> b_item_id ` set (pl_blockers p)"
proof -
  let ?o = "ordered_by_creation items"
  obtain direct blocked extra where
    o: "pl_ordered p = order_items ?o blocked (pl_deps p)" and
    b: "set blocked = b_item_id ` set (direct @ extra)" and
    bl: "pl_blockers p = direct @ extra @ map cycle_blocker (filter (\<lambda>item. ci_id item \<notin> set blocked \<and>
       ci_id item \<notin> ci_id ` set (pl_ordered p)) ?o)"
    by (rule plan_parts [OF p wf]) (rule that)
  have d: "distinct (map ci_id ?o)" using wf wf_items_distinct by force
  have n: "\<forall>item \<in> set ?o. map_of (pl_deps p) (ci_id item) \<noteq> None"
    using plan_deps_wf [OF p wf] unfolding deps_wf_def dom_def by auto
  have unblocked: "item \<in> set (pl_ordered p) \<Longrightarrow> ci_id item \<notin> set blocked"
    unfolding o using order_items_spec(2) [OF d n, of item blocked] by blast
  have same: "ci_id item \<in> ci_id ` set (pl_ordered p) \<longleftrightarrow> item \<in> set (pl_ordered p)"
  proof
    assume "ci_id item \<in> ci_id ` set (pl_ordered p)"
    then obtain i where i: "i \<in> set (pl_ordered p)" "ci_id i = ci_id item" by auto
    moreover have "i \<in> set items" using plan_order [OF p wf] i(1) by blast
    ultimately show "item \<in> set (pl_ordered p)" using wf_items_inj [OF wf item] by metis
  qed simp
  have "b_item_id ` set (pl_blockers p) = set blocked \<union> ci_id ` {i \<in> set items.
      ci_id i \<notin> set blocked \<and> ci_id i \<notin> ci_id ` set (pl_ordered p)}"
    unfolding bl b by (simp only: set_append set_map image_Un image_image set_filter Un_assoc
        ordered_by_creation_simps cycle_blocker_def apply_blocker.simps)
  moreover have "ci_id item \<in> ci_id ` {i \<in> set items. ci_id i \<notin> set blocked \<and>
      ci_id i \<notin> ci_id ` set (pl_ordered p)} \<longleftrightarrow>
      ci_id item \<notin> set blocked \<and> item \<notin> set (pl_ordered p)"
  proof -
    have "k \<in> ci_id ` {i \<in> set items. Q (ci_id i)} \<longleftrightarrow> k \<in> ci_id ` set items \<and> Q k" for k Q
      by auto
    from this [of "ci_id item" "\<lambda>k. k \<notin> set blocked \<and> k \<notin> ci_id ` set (pl_ordered p)"]
    show ?thesis using item same by simp
  qed
  ultimately show ?thesis using unblocked by blast
qed

lemma plan_no_blockers_all:
  assumes "plan_changeset_apply items live = Inr p" "wf_items items" "pl_blockers p = []"
  shows "set (pl_ordered p) = set items"
  using plan_order [OF assms(1,2)] plan_items [OF assms(1,2)] assms(3) by auto

lemma plan_direct_blockers:
  assumes "plan_changeset_apply items live = Inr p" "wf_items items" "pl_blockers p = []"
  shows "plan_direct (ordered_by_creation items) live = Inr ([], pl_deps p)"
proof (rule plan_parts [OF assms(1,2)])
  fix direct blocked extra
  assume "plan_direct (ordered_by_creation items) live = Inr (direct, pl_deps p)"
    and "pl_blockers p = direct @ extra @ map cycle_blocker (filter (\<lambda>item. ci_id item \<notin> set blocked \<and>
       ci_id item \<notin> ci_id ` set (pl_ordered p)) (ordered_by_creation items))"
  with assms(3) show ?thesis by simp
qed

lemma plan_precedes:
  assumes "plan_changeset_apply items live = Inr p" "wf_items items" "pl_blockers p = []"
    and "pl_ordered p = us @ item # vs" "other \<in> set items" "depends (pl_deps p) item other"
  shows "other = item \<or> other \<in> set us"
proof (cases "ci_id item = ci_id other")
  case True
  have "item \<in> set items" using plan_no_blockers_all [OF assms(1-3)] assms(4) by auto
  with True assms(2,5) show ?thesis using wf_items_inj by metis
next
  case False
  with assms(6) have "ci_id other \<in> set (deps_of (pl_deps p) (ci_id item))" by (simp add: depends_def)
  moreover have "deps_first (pl_deps p) [] (us @ item # vs)"
    using plan_order [OF assms(1,2)] assms(4) by simp
  ultimately have "ci_id other \<in> ci_id ` set us"
    using deps_first_split by blast
  then obtain o2 where o2: "o2 \<in> set us" "ci_id o2 = ci_id other" by auto
  have "o2 \<in> set items" using plan_no_blockers_all [OF assms(1-3)] assms(4) o2(1) by auto
  with o2 assms(2,5) show ?thesis using wf_items_inj by metis
qed

section \<open>Correctness of the plan\<close>

text \<open>The slugs an item's inputs refer to.\<close>

definition source_refs :: "jsval \<Rightarrow> string list" where
  "source_refs src =
     (if src = JUndef then [] else case extract_refs src of Inl e \<Rightarrow> [] | Inr slugs \<Rightarrow> slugs)"

definition item_refs :: "change_set_item \<Rightarrow> string list" where
  "item_refs item = concat (map source_refs (ref_sources item))"

lemma refers_iff: "refers item s \<longleftrightarrow> s \<in> set (item_refs item)"
proof -
  have "src \<noteq> JUndef \<and> (case extract_refs src of Inl e \<Rightarrow> False | Inr slugs \<Rightarrow> s \<in> set slugs) \<longleftrightarrow>
      s \<in> set (source_refs src)" for src
    by (cases "extract_refs src") (simp_all add: source_refs_def)
  then show ?thesis by (simp add: refers_def item_refs_def list_ex_iff)
qed

lemma item_refs_nonempty: "s \<in> set (item_refs item) \<Longrightarrow> s \<noteq> []"
proof -
  have "s \<in> set (source_refs src) \<Longrightarrow> s \<noteq> []" for src
    by (cases "extract_refs src")
      (use extract_refs_nonempty [of src] in \<open>auto simp: source_refs_def split: if_splits\<close>)
  then show "s \<in> set (item_refs item) \<Longrightarrow> s \<noteq> []" by (auto simp: item_refs_def)
qed

definition live_now :: "live_resource list \<Rightarrow> live_resource list" where
  "live_now live = filter (\<lambda>r. lr_deleted_at r = None) live"

text \<open>At most one live resource per slug, as the index \<open>resources_project_slug_unique\<close> has it.\<close>

definition wf_live :: "live_resource list \<Rightarrow> bool" where
  "wf_live live \<longleftrightarrow> distinct (map lr_slug (live_now live)) \<and> [] \<notin> lr_slug ` set (live_now live)"

lemma wf_live_slug: "wf_live live \<Longrightarrow> r \<in> set (live_now live) \<Longrightarrow> lr_slug r \<noteq> []"
  unfolding wf_live_def by (metis imageI)

lemma live_by_slug_None:
  "map_of (live_by_slug live) s = None \<longleftrightarrow> (\<forall>r \<in> set (live_now live). lr_slug r \<noteq> s)"
  by (simp add: live_by_slug_def live_now_def map_of_map_of_list_None)

lemma live_by_slug_values:
  assumes "wf_live live" shows "snd ` set (live_by_slug live) = set (live_now live)"
proof -
  have d: "distinct (map fst (live_by_slug live))" by (simp add: live_by_slug_def distinct_map_of_list)
  have eq: "map_of (live_by_slug live) (lr_slug r) = Some r" if r: "r \<in> set (live_now live)" for r
  proof (cases "map_of (live_by_slug live) (lr_slug r)")
    case None
    with r show ?thesis by (auto simp: live_by_slug_None)
  next
    case (Some r')
    then have "r' \<in> set (live_now live) \<and> lr_slug r' = lr_slug r"
      using map_of_map_of_list_Some by (fastforce simp: live_by_slug_def live_now_def)
    with r assms Some show ?thesis by (auto simp: wf_live_def distinct_map inj_on_def)
  qed
  show ?thesis
  proof
    show "snd ` set (live_by_slug live) \<subseteq> set (live_now live)"
    proof
      fix r assume "r \<in> snd ` set (live_by_slug live)"
      then obtain k where "map_of (live_by_slug live) k = Some r" using d by force
      then show "r \<in> set (live_now live)"
        unfolding live_by_slug_def live_now_def using map_of_map_of_list_Some by fastforce
    qed
    show "set (live_now live) \<subseteq> snd ` set (live_by_slug live)"
      using eq by (force dest: map_of_SomeD)
  qed
qed

text \<open>The last staged change of a slug that carries inputs.\<close>

definition final_change :: "change_set_item list \<Rightarrow> string \<Rightarrow> change_set_item option" where
  "final_change items s = last_where (\<lambda>i. \<not> is_delete_item i \<and> slug_is s i \<and>
     list_ex (\<lambda>src. src \<noteq> JUndef) (ref_sources i)) (ordered_by_creation items)"

lemma final_mutation_stage:
  "s \<noteq> [] \<Longrightarrow> final_mutation (stage_items (ordered_by_creation items)) s = final_change items s"
  by (simp add: final_mutation_def mutations_of_stage final_change_def last_where_def Let_def
      conj_ac cong: conj_cong)

text \<open>What the references of a changeset must satisfy: none to the item's own slug, none to a slug
  staged for delete, and every other one to a slug that is staged or live.\<close>

definition refs_consistent :: "change_set_item list \<Rightarrow> live_resource list \<Rightarrow> bool" where
  "refs_consistent items live \<longleftrightarrow>
     (\<forall>item \<in> set items. \<forall>s \<in> set (item_refs item).
        \<not> slug_is s item \<and> (\<forall>d \<in> set items. is_delete_item d \<longrightarrow> \<not> slug_is s d) \<and>
        ((\<exists>i \<in> set items. \<not> is_delete_item i \<and> slug_is s i) \<or>
         (\<exists>r \<in> set (live_now live). lr_slug r = s)))"

text \<open>What its deletes must satisfy: a live resource that depends on a deleted slug is deleted too,
  or changed so that it no longer refers to it.\<close>

definition deletes_consistent :: "change_set_item list \<Rightarrow> live_resource list \<Rightarrow> bool" where
  "deletes_consistent items live \<longleftrightarrow>
     (\<forall>d \<in> set items. is_delete_item d \<longrightarrow>
        (case truthy (change_set_item_slug d) of None \<Rightarrow> True
         | Some s \<Rightarrow> \<forall>r \<in> set (live_now live). lr_depends s r \<longrightarrow>
             (\<exists>d' \<in> set items. is_delete_item d' \<and> slug_is (lr_slug r) d') \<or>
             (case final_change items (lr_slug r) of None \<Rightarrow> False
              | Some m \<Rightarrow> s \<notin> set (item_refs m))))"

lemma ref_static_iff:
  assumes "s \<noteq> []"
  shows "ref_static (stage_items (ordered_by_creation items)) (live_by_slug live) item s \<longleftrightarrow>
    \<not> slug_is s item \<and> (\<forall>d \<in> set items. is_delete_item d \<longrightarrow> \<not> slug_is s d) \<and>
    ((\<exists>i \<in> set items. \<not> is_delete_item i \<and> slug_is s i) \<or> (\<exists>r \<in> set (live_now live). lr_slug r = s))"
proof -
  let ?st = "stage_items (ordered_by_creation items)"
  have m: "map_of (st_mutations ?st) s = None \<longleftrightarrow> (\<forall>i \<in> set items. \<not> is_delete_item i \<longrightarrow> \<not> slug_is s i)"
    using assms by (auto simp: st_mutations_stage Let_def filter_empty_conv)
  have t: "map_of (st_mutations ?st) s \<noteq> None" if "map_of (st_targets ?st) s \<noteq> None"
  proof -
    from that assms obtain i where "last_where (\<lambda>i. is_create_or_import i \<and> slug_is s i)
        (ordered_by_creation items) = Some i" by (auto simp: st_targets_stage)
    then have "i \<in> set items" "is_create_or_import i" "slug_is s i"
      using last_where_Some by fastforce+
    then show ?thesis unfolding m using kind_exclusive by blast
  qed
  have d: "map_of (st_deletes ?st) s = None \<longleftrightarrow> (\<forall>d \<in> set items. is_delete_item d \<longrightarrow> \<not> slug_is s d)"
    using assms by (auto simp: st_deletes_stage last_where_None)
  have l: "map_of (live_by_slug live) s \<noteq> None \<longleftrightarrow> (\<exists>r \<in> set (live_now live). lr_slug r = s)"
    by (simp add: live_by_slug_None)
  have tm: "map_of (st_targets ?st) s \<noteq> None \<or> map_of (st_mutations ?st) s \<noteq> None \<longleftrightarrow>
      (\<exists>i \<in> set items. \<not> is_delete_item i \<and> slug_is s i)"
    using t m by metis
  show ?thesis unfolding ref_static_def d l disj_assoc [symmetric] tm ..
qed

lemma delete_static_iff:
  assumes "lr_slug r \<noteq> []"
  shows "delete_static (stage_items (ordered_by_creation items)) s r \<longleftrightarrow>
    (lr_depends s r \<longrightarrow> (\<exists>d' \<in> set items. is_delete_item d' \<and> slug_is (lr_slug r) d') \<or>
       (case final_change items (lr_slug r) of None \<Rightarrow> False | Some m \<Rightarrow> s \<notin> set (item_refs m)))"
proof -
  have "map_of (st_deletes (stage_items (ordered_by_creation items))) (lr_slug r) = None \<longleftrightarrow>
      (\<forall>d \<in> set items. is_delete_item d \<longrightarrow> \<not> slug_is (lr_slug r) d)"
    using assms by (auto simp: st_deletes_stage last_where_None)
  then show ?thesis
    unfolding delete_static_def final_mutation_stage [OF assms] refers_iff by (auto split: option.splits)
qed

lemma st_deletes_keys:
  "(\<exists>item. (s, item) \<in> set (st_deletes (stage_items (ordered_by_creation items)))) \<longleftrightarrow>
   (\<exists>d \<in> set items. is_delete_item d \<and> truthy (change_set_item_slug d) = Some s)"
proof -
  have "(\<exists>item. (s, item) \<in> set (st_deletes (stage_items (ordered_by_creation items)))) \<longleftrightarrow>
      map_of (st_deletes (stage_items (ordered_by_creation items))) s \<noteq> None"
    by (force simp: map_of_eq_None_iff)
  also have "\<dots> \<longleftrightarrow> (\<exists>d \<in> set items. is_delete_item d \<and> truthy (change_set_item_slug d) = Some s)"
    using last_where_None [of "\<lambda>i. is_delete_item i \<and> slug_is s i" "ordered_by_creation items"]
    by (auto simp: st_deletes_stage truthy_Some_iff slug_is_def)
  finally show ?thesis .
qed

text \<open>A small changeset for the witnesses: a server that refers to a network staged with it, and a
  delete of an old network whose only dependent is the server being updated away from it.\<close>

definition sample_item :: "string \<Rightarrow> int \<Rightarrow> string option \<Rightarrow> item_changes \<Rightarrow> change_set_item" where
  "sample_item k t target changes =
     \<lparr> ci_id = k, ci_change_set_id = ''c'', ci_target_id = None, ci_target_slug = target,
       ci_integration_id = None, ci_resource_type = None, ci_changes = changes,
       ci_source = SourceUser, ci_depends_on = [], ci_created_at = t, ci_updated_at = t \<rparr>"

definition sample_create :: "string \<Rightarrow> int \<Rightarrow> string \<Rightarrow> jsval \<Rightarrow> change_set_item" where
  "sample_create k t slug inputs = sample_item k t (Some slug)
     (CreateResource \<lparr> cc_slug = slug, cc_type = Some ''t'', cc_integration_slug = None,
        cc_display_name = None, cc_inputs = inputs, cc_position = None \<rparr>)"

definition sample_ref :: "string \<Rightarrow> jsval" where
  "sample_ref r = JObj [(''$ref'', JStr r)]"

definition sample_items :: "change_set_item list" where
  "sample_items =
     [sample_item ''d'' 1 (Some ''old'') (DeleteResource ModeDelete),
      sample_item ''u'' 2 (Some ''srv'') (UpdateResource [(''n'', sample_ref ''net.id'')]),
      sample_create ''n'' 3 ''net'' (JObj [])]"

definition sample_live :: "live_resource list" where
  "sample_live =
     [\<lparr> lr_id = ''1'', lr_slug = ''old'', lr_depends_on = None, lr_deleted_at = None \<rparr>,
      \<lparr> lr_id = ''2'', lr_slug = ''srv'', lr_depends_on = Some [''old''], lr_deleted_at = None \<rparr>]"

definition sample_plan :: apply_plan where
  "sample_plan = projr (plan_changeset_apply sample_items sample_live)"

lemma sample_plan: "plan_changeset_apply sample_items sample_live = Inr sample_plan"
  by code_simp

lemma sample_plan_ordered: "map ci_id (pl_ordered sample_plan) = [''n'', ''u'', ''d'']"
  by code_simp

lemma sample_plan_blockers: "pl_blockers sample_plan = []"
  by code_simp

lemma sample_wf: "wf_items sample_items"
  by code_simp

lemma sample_wf_live: "wf_live sample_live"
  by code_simp

lemmas sample_facts = sample_plan sample_wf sample_plan_blockers

lemma refs_consistent_static:
  "refs_consistent items live \<longleftrightarrow> (\<forall>item \<in> set (ordered_by_creation items). \<forall>s. refers item s \<longrightarrow>
     ref_static (stage_items (ordered_by_creation items)) (live_by_slug live) item s)"
proof -
  have "(\<forall>s \<in> set (item_refs item). P s) \<longleftrightarrow> (\<forall>s. refers item s \<longrightarrow> P s)" for item P
    by (auto simp: refers_iff)
  moreover have "ref_static (stage_items (ordered_by_creation items)) (live_by_slug live) item s \<longleftrightarrow>
      \<not> slug_is s item \<and> (\<forall>d \<in> set items. is_delete_item d \<longrightarrow> \<not> slug_is s d) \<and>
      ((\<exists>i \<in> set items. \<not> is_delete_item i \<and> slug_is s i) \<or>
       (\<exists>r \<in> set (live_now live). lr_slug r = s))" if "refers item s" for item s
    using that item_refs_nonempty by (intro ref_static_iff) (simp add: refers_iff)
  ultimately show ?thesis by (simp add: refs_consistent_def)
qed

lemma deletes_consistent_static:
  assumes "wf_live live"
  shows "deletes_consistent items live \<longleftrightarrow>
    (\<forall>s. (\<exists>item. (s, item) \<in> set (st_deletes (stage_items (ordered_by_creation items)))) \<longrightarrow>
      (\<forall>r \<in> snd ` set (live_by_slug live).
        delete_static (stage_items (ordered_by_creation items)) s r))"
proof -
  have "deletes_consistent items live \<longleftrightarrow> (\<forall>d \<in> set items. is_delete_item d \<longrightarrow>
      (case truthy (change_set_item_slug d) of None \<Rightarrow> True
       | Some s \<Rightarrow> \<forall>r \<in> set (live_now live).
           delete_static (stage_items (ordered_by_creation items)) s r))"
    unfolding deletes_consistent_def
    by (simp add: delete_static_iff wf_live_slug [OF assms] cong: ball_cong option.case_cong)
  also have "\<dots> \<longleftrightarrow> (\<forall>s. (\<exists>d \<in> set items. is_delete_item d \<and> truthy (change_set_item_slug d) = Some s) \<longrightarrow>
      (\<forall>r \<in> set (live_now live). delete_static (stage_items (ordered_by_creation items)) s r))"
    (is "?L \<longleftrightarrow> ?R")
  proof
    assume ?L then show ?R by fastforce
  next
    assume ?R then show ?L by (auto split: option.split)
  qed
  finally show ?thesis unfolding st_deletes_keys live_by_slug_values [OF assms] .
qed

section \<open>Properties\<close>

text \<open>C2: the order the planner returns is a topological one: it lists items of the changeset, none
  twice, and each after all the items it depends on.\<close>

theorem plan_topological:
  assumes "plan_changeset_apply items live = Inr p" "wf_items items"
  shows "distinct (map ci_id (pl_ordered p)) \<and> set (pl_ordered p) \<subseteq> set items \<and>
    deps_first (pl_deps p) [] (pl_ordered p)"
  by (rule plan_order [OF assms])

lemma plan_topological_witness:
  "distinct (map ci_id (pl_ordered sample_plan)) \<and> deps_first (pl_deps sample_plan) [] (pl_ordered sample_plan)"
  using plan_topological [OF sample_plan sample_wf] by blast

text \<open>Every item of the changeset is either in the order or has a blocker that names it, never
  both; in particular a plan without blockers orders all of them.\<close>

theorem plan_complete:
  assumes "plan_changeset_apply items live = Inr p" "wf_items items"
  shows "(\<forall>item \<in> set items.
      item \<in> set (pl_ordered p) \<longleftrightarrow> ci_id item \<notin> b_item_id ` set (pl_blockers p)) \<and>
    (pl_blockers p = [] \<longrightarrow> mset (pl_ordered p) = mset items)"
proof (intro conjI ballI impI)
  show "item \<in> set (pl_ordered p) \<longleftrightarrow> ci_id item \<notin> b_item_id ` set (pl_blockers p)"
    if "item \<in> set items" for item by (rule plan_items [OF assms that])
  assume "pl_blockers p = []"
  from plan_no_blockers_all [OF assms this] plan_order [OF assms] wf_items_distinct [OF assms(2)]
  show "mset (pl_ordered p) = mset items" by (simp add: distinct_map set_eq_iff_mset_eq_distinct)
qed

lemma plan_complete_witness: "mset (pl_ordered sample_plan) = mset sample_items"
  using plan_complete [OF sample_plan sample_wf] sample_plan_blockers by blast

lemma plan_consistent_accepts:
  assumes "plan_changeset_apply items live = Inr p" "wf_items items" "wf_live live"
    and ok: "refs_consistent items live \<and> deletes_consistent items live \<and> acyclic (dep_edges items (pl_deps p))"
  shows "pl_blockers p = []"
proof -
  let ?o = "ordered_by_creation items"
  have edges: "dep_edges ?o deps = dep_edges items deps" for deps by (simp add: dep_edges_def)
  note refs = refs_consistent_static [of items live]
  note dels = deletes_consistent_static [OF assms(3), of items]
  show ?thesis
  proof (rule plan_parts [OF assms(1,2)])
    fix direct blocked extra
    assume d: "plan_direct ?o live = Inr (direct, pl_deps p)"
      and r: "set blocked = reaches_blocked ?o (pl_deps p) (b_item_id ` set direct)"
      and b: "set blocked = b_item_id ` set (direct @ extra)"
      and o: "pl_ordered p = order_items ?o blocked (pl_deps p)"
      and bl: "pl_blockers p = direct @ extra @ map cycle_blocker (filter (\<lambda>item.
        ci_id item \<notin> set blocked \<and> ci_id item \<notin> ci_id ` set (pl_ordered p)) ?o)"
    have "direct = []"
      by (rule plan_direct_static [OF d]) (use ok refs dels in blast)+
    with r b have e: "blocked = []" "extra = []" by (auto simp: reaches_blocked_def)
    have wf: "wf ((dep_edges ?o (pl_deps p))\<inverse>)"
      unfolding edges using ok by (intro finite_acyclic_wf_converse) simp_all
    have n: "\<forall>item \<in> set ?o. map_of (pl_deps p) (ci_id item) \<noteq> None"
      using plan_deps_wf [OF assms(1,2)] unfolding deps_wf_def dom_def by auto
    have dist: "distinct (map ci_id ?o)" using assms(2) wf_items_distinct by force
    have "item \<in> set (pl_ordered p)" if "item \<in> set ?o" for item
      unfolding o e(1) using plan_deps_wf [OF assms(1,2)]
      by (intro order_items_complete [OF dist n wf _ that]) (auto simp: deps_wf_def)
    then show "pl_blockers p = []" unfolding bl \<open>direct = []\<close> e(2) by (auto simp: filter_empty_conv)
  qed
qed

text \<open>C3: the planner reports a blocker exactly when something is wrong: a plan has none if and only
  if every reference is to a staged or live slug that is neither the item's own nor staged for
  delete, every live dependent of a deleted slug is itself deleted or changed away from it, and the
  dependencies have no cycle. So valid changesets are never rejected and invalid ones never pass.\<close>

theorem plan_accepts_iff:
  assumes "plan_changeset_apply items live = Inr p" "wf_items items" "wf_live live"
  shows "pl_blockers p = [] \<longleftrightarrow>
    refs_consistent items live \<and> deletes_consistent items live \<and> acyclic (dep_edges items (pl_deps p))"
proof -
  note refs = refs_consistent_static [of items live]
  note dels = deletes_consistent_static [OF assms(3), of items]
  show ?thesis
  proof
    assume nb: "pl_blockers p = []"
    note d = plan_direct_blockers [OF assms(1,2) nb]
    have "wf ((dep_edges (pl_ordered p) (pl_deps p))\<inverse>)"
      using plan_order [OF assms(1,2)] by (simp add: deps_first_wf)
    moreover have "dep_edges (pl_ordered p) (pl_deps p) = dep_edges items (pl_deps p)"
      using plan_no_blockers_all [OF assms(1,2) nb] by (simp add: dep_edges_def)
    ultimately have "acyclic (dep_edges items (pl_deps p))"
      using wf_acyclic [of "(dep_edges items (pl_deps p))\<inverse>"] by simp
    then show "refs_consistent items live \<and> deletes_consistent items live \<and>
        acyclic (dep_edges items (pl_deps p))"
      unfolding refs dels using plan_direct_spec(2,3) [OF d] by blast
  next
    assume "refs_consistent items live \<and> deletes_consistent items live \<and>
        acyclic (dep_edges items (pl_deps p))"
    then show "pl_blockers p = []" by (rule plan_consistent_accepts [OF assms])
  qed
qed

lemma plan_accepts_iff_witness: "refs_consistent sample_items sample_live \<and>
    deletes_consistent sample_items sample_live"
  using plan_accepts_iff [OF sample_plan sample_wf sample_wf_live] sample_plan_blockers by blast

text \<open>In a plan without blockers, an item that refers to a slug runs after whatever makes that
  slug available: after a staged create or import of it or, if there is none, after every staged
  change of it; and a slug nobody changes is live.\<close>

theorem plan_references_ready:
  assumes p: "plan_changeset_apply items live = Inr p" "wf_items items" "pl_blockers p = []"
    and o: "pl_ordered p = us @ item # vs" and s: "s \<in> set (item_refs item)"
  shows "(\<exists>t \<in> set us. is_create_or_import t \<and> slug_is s t) \<or>
    (\<forall>m \<in> set items. \<not> is_delete_item m \<and> slug_is s m \<longrightarrow> m \<in> set us) \<and>
    ((\<exists>m \<in> set us. slug_is s m) \<or> (\<exists>r \<in> set (live_now live). lr_slug r = s))"
proof -
  let ?st = "stage_items (ordered_by_creation items)"
  have item: "item \<in> set items" using plan_no_blockers_all [OF p] o by auto
  have ne: "s \<noteq> []" using s by (rule item_refs_nonempty)
  from plan_direct_spec(2) [OF plan_direct_blockers [OF p] refl] item s
  have st: "ref_static ?st (live_by_slug live) item s" and dn: "ref_done ?st (pl_deps p) item s"
    by (simp_all add: refers_iff)
  have own: "\<not> slug_is s item" using st by (simp add: ref_static_def)
  have prec: "m \<in> set us" if "m \<in> set items" "slug_is s m" "depends (pl_deps p) item m" for m
    using plan_precedes [OF p o that(1,3)] that(2) own by auto
  show ?thesis
  proof (cases "map_of (st_targets ?st) s")
    case (Some t)
    then have "last_where (\<lambda>i. is_create_or_import i \<and> slug_is s i) (ordered_by_creation items) = Some t"
      using ne by (simp add: st_targets_stage)
    from last_where_Some [OF this] have t: "t \<in> set items" "is_create_or_import t" "slug_is s t" by auto
    moreover have "depends (pl_deps p) item t" using dn Some by (simp add: ref_done_def)
    ultimately show ?thesis using prec by blast
  next
    case None
    show ?thesis
    proof (cases "map_of (st_mutations ?st) s")
      case (Some ms)
      then have ms: "set ms = {i \<in> set items. \<not> is_delete_item i \<and> slug_is s i}" "ms \<noteq> []"
        by (auto simp: st_mutations_stage Let_def split: if_splits)
      have "m \<in> set us" if "m \<in> set ms" for m
        using that dn None Some prec [of m] by (simp add: ref_done_def ms(1))
      moreover obtain m where "m \<in> set ms" using ms(2) by (cases ms) auto
      ultimately show ?thesis using ms(1) by blast
    next
      case none: None
      with st None have "\<exists>r \<in> set (live_now live). lr_slug r = s"
        by (simp add: ref_static_def live_by_slug_None)
      moreover have "\<not> slug_is s m" if "m \<in> set items" "\<not> is_delete_item m" for m
        using none that ne by (auto simp: st_mutations_stage Let_def filter_empty_conv split: if_splits)
      ultimately show ?thesis by blast
    qed
  qed
qed

lemma plan_references_ready_witness:
  "\<exists>us item vs. pl_ordered sample_plan = us @ item # vs \<and> set (item_refs item) = {''net''} \<and>
     (\<exists>t \<in> set us. slug_is ''net'' t)"
proof -
  let ?o = "pl_ordered sample_plan"
  have o: "?o = [?o ! 0] @ ?o ! 1 # [?o ! 2]" by code_simp
  have r: "set (item_refs (?o ! 1)) = {''net''}" by code_simp
  have "\<not> (\<exists>r \<in> set (live_now sample_live). lr_slug r = ''net'')" by code_simp
  with plan_references_ready [OF sample_facts o, of "''net''"] r
  have "\<exists>t \<in> set [?o ! 0]. slug_is ''net'' t" by blast
  with o r show ?thesis by blast
qed

text \<open>C4: in a plan without blockers, the delete of a slug runs after every live resource that
  depends on it has been dealt with: the dependent is deleted earlier, or the last staged change of
  its inputs runs earlier and no longer refers to the slug. Deletes of one slug are taken to be
  unique, as the validation requires.\<close>

theorem plan_deletes_safe:
  assumes p: "plan_changeset_apply items live = Inr p" "wf_items items" "pl_blockers p = []"
    and live: "wf_live live" and o: "pl_ordered p = us @ d # vs"
    and d: "is_delete_item d" "slug_is s d" "s \<noteq> []"
    and unique: "\<forall>d' \<in> set items. is_delete_item d' \<and> slug_is s d' \<longrightarrow> d' = d"
    and r: "r \<in> set (live_now live)" "lr_depends s r" "lr_slug r \<noteq> s"
  shows "(\<exists>d' \<in> set us. is_delete_item d' \<and> slug_is (lr_slug r) d') \<or>
    (\<exists>m \<in> set us. slug_is (lr_slug r) m \<and> final_change items (lr_slug r) = Some m \<and>
       s \<notin> set (item_refs m))"
proof -
  let ?st = "stage_items (ordered_by_creation items)" and ?t = "lr_slug r"
  have ds: "d \<in> set items" using plan_no_blockers_all [OF p] o by auto
  have ne: "?t \<noteq> []" by (rule wf_live_slug [OF live r(1)])
  have "map_of (st_deletes ?st) s = Some d"
  proof (cases "last_where (\<lambda>i. is_delete_item i \<and> slug_is s i) (ordered_by_creation items)")
    case None
    with d ds show ?thesis by (auto simp: last_where_None)
  next
    case (Some d')
    with last_where_Some [OF Some] unique d(3) show ?thesis by (simp add: st_deletes_stage)
  qed
  then have "(s, d) \<in> set (st_deletes ?st)" by (rule map_of_SomeD)
  from plan_direct_spec(3) [OF plan_direct_blockers [OF p] refl this] r(1) live_by_slug_values [OF live]
  have st: "delete_static ?st s r" and dn: "delete_done ?st (pl_deps p) s d r" by auto
  have prec: "m \<in> set us" if "m \<in> set items" "slug_is ?t m" "depends (pl_deps p) d m" for m
    using plan_precedes [OF p o that(1,3)] that(2) d(2) r(3) by (auto simp: slug_is_def)
  show ?thesis
  proof (cases "map_of (st_deletes ?st) ?t")
    case (Some d')
    then have "last_where (\<lambda>i. is_delete_item i \<and> slug_is ?t i) (ordered_by_creation items) = Some d'"
      using ne by (simp add: st_deletes_stage)
    from last_where_Some [OF this] have "d' \<in> set items" "is_delete_item d'" "slug_is ?t d'" by auto
    moreover have "depends (pl_deps p) d d'" using dn r(2) Some by (simp add: delete_done_def)
    ultimately show ?thesis using prec by blast
  next
    case None
    with st r(2) obtain m where m: "final_mutation ?st ?t = Some m" "s \<notin> set (item_refs m)"
      by (auto simp: delete_static_def refers_iff)
    then have f: "final_change items ?t = Some m" by (simp add: final_mutation_stage [OF ne])
    then have "m \<in> set items \<and> slug_is ?t m"
      unfolding final_change_def by (auto dest: last_where_Some)
    moreover have "depends (pl_deps p) d m" using dn r(2) None m(1) by (simp add: delete_done_def)
    ultimately show ?thesis using prec m(2) f by blast
  qed
qed

lemma plan_deletes_safe_witness:
  "\<exists>us d vs. pl_ordered sample_plan = us @ d # vs \<and> slug_is ''old'' d \<and>
     (\<exists>m \<in> set us. slug_is ''srv'' m)"
proof -
  let ?o = "pl_ordered sample_plan" and ?r = "sample_live ! 1"
  have o: "?o = [?o ! 0, ?o ! 1] @ ?o ! 2 # []" by code_simp
  have d: "is_delete_item (?o ! 2)" "slug_is ''old'' (?o ! 2)" by code_simp+
  have u: "\<forall>d' \<in> set sample_items. is_delete_item d' \<and> slug_is ''old'' d' \<longrightarrow> d' = ?o ! 2" by code_simp
  have r: "?r \<in> set (live_now sample_live)" "lr_depends ''old'' ?r" "lr_slug ?r \<noteq> ''old''" by code_simp+
  have "lr_slug ?r = ''srv''" by code_simp
  with plan_deletes_safe [OF sample_facts sample_wf_live o d _ u r]
  have "\<exists>m \<in> set [?o ! 0, ?o ! 1]. slug_is ''srv'' m" by auto
  with o d(2) show ?thesis by blast
qed

end
