(* ===== verification/Levels.thy ===== *)
theory Levels
  imports PlanSafety
begin

text \<open>
  The level graph of an apply, \<open>getChangeSetApplyGraph\<close> in apps/api/src/changesets/plan.ts. The
  interface it relies on is the locale \<open>topo_planner\<close>: a planner whose order lists no key twice and
  puts every item after its dependencies; \<open>levelled_planner\<close> adds a depth one above the deepest
  dependency. The planner and the depths of the model are their interpretations.
\<close>

section \<open>Planners with a topological order\<close>

locale topo_planner =
  fixes ok_in :: "'i \<Rightarrow> bool"
    and plan :: "'i \<Rightarrow> 'e + 'p"
    and order :: "'p \<Rightarrow> 'n list"
    and key :: "'n \<Rightarrow> string"
    and deps :: "'p \<Rightarrow> string \<Rightarrow> string set"
  assumes distinct_order: "ok_in i \<Longrightarrow> plan i = Inr p \<Longrightarrow> distinct (map key (order p))"
    and deps_before: "ok_in i \<Longrightarrow> plan i = Inr p \<Longrightarrow> order p = us @ n # vs \<Longrightarrow> deps p (key n) \<subseteq> key ` set us"
begin

lemma deps_in_order:
  assumes "ok_in i" "plan i = Inr p" "n \<in> set (order p)" "d \<in> deps p (key n)"
  shows "d \<in> key ` set (order p)"
proof -
  obtain us vs where "order p = us @ n # vs" using assms(3) by (auto dest: split_list)
  with deps_before [OF assms(1,2) this] assms(4) show ?thesis by auto
qed

lemma no_self_dependency:
  assumes "ok_in i" "plan i = Inr p" "n \<in> set (order p)"
  shows "key n \<notin> deps p (key n)"
proof -
  obtain us vs where s: "order p = us @ n # vs" using assms(3) by (auto dest: split_list)
  with distinct_order [OF assms(1,2)] have "key n \<notin> key ` set us" by auto
  with deps_before [OF assms(1,2) s] show ?thesis by auto
qed

lemma first_has_no_deps:
  "ok_in i \<Longrightarrow> plan i = Inr p \<Longrightarrow> order p = n # vs \<Longrightarrow> deps p (key n) = {}"
  using deps_before [of i p "[]" n vs] by simp

end

locale levelled_planner = topo_planner ok_in plan order key deps
  for ok_in :: "'i \<Rightarrow> bool" and plan :: "'i \<Rightarrow> 'e + 'p" and order :: "'p \<Rightarrow> 'n list"
    and key :: "'n \<Rightarrow> string" and deps :: "'p \<Rightarrow> string \<Rightarrow> string set" +
  fixes depth :: "'p \<Rightarrow> string \<Rightarrow> nat"
  assumes finite_deps: "finite (deps p k)"
    and depth_eq: "ok_in i \<Longrightarrow> plan i = Inr p \<Longrightarrow> n \<in> set (order p) \<Longrightarrow>
      depth p (key n) = Max (insert 0 ((\<lambda>d. depth p d + 1) ` deps p (key n)))"
begin

lemma dependency_lower:
  assumes "ok_in i" "plan i = Inr p" "n \<in> set (order p)" "d \<in> deps p (key n)"
  shows "depth p d < depth p (key n)"
proof -
  have "depth p d + 1 \<le> Max (insert 0 ((\<lambda>d. depth p d + 1) ` deps p (key n)))"
    using finite_deps assms(4) by (intro Max_ge) auto
  with depth_eq [OF assms(1-3)] show ?thesis by simp
qed

lemma one_below:
  assumes "ok_in i" "plan i = Inr p" "n \<in> set (order p)" "depth p (key n) = Suc k"
  shows "\<exists>m \<in> set (order p). depth p (key m) = k"
proof -
  have "Max (insert 0 ((\<lambda>d. depth p d + 1) ` deps p (key n))) \<in>
      insert 0 ((\<lambda>d. depth p d + 1) ` deps p (key n))"
    using finite_deps by (intro Max_in) auto
  with depth_eq [OF assms(1-3)] assms(4) obtain d where "d \<in> deps p (key n)" "depth p d = k" by auto
  with deps_in_order [OF assms(1-3)] show ?thesis by auto
qed

lemma levels_dense:
  assumes "ok_in i" "plan i = Inr p" "n \<in> set (order p)" "k \<le> depth p (key n)"
  shows "\<exists>m \<in> set (order p). depth p (key m) = k"
  using assms(3,4)
proof (induction "depth p (key n)" arbitrary: n)
  case 0
  then show ?case by auto
next
  case (Suc j)
  show ?case
  proof (cases "k = Suc j")
    case True
    with Suc show ?thesis by auto
  next
    case False
    from one_below [OF assms(1,2) Suc.prems(1) Suc.hyps(2) [symmetric]] obtain m where
      "m \<in> set (order p)" "depth p (key m) = j" by blast
    with Suc.hyps(1) [of m] Suc.prems Suc.hyps(2) False show ?thesis by auto
  qed
qed

end

section \<open>The depths of a plan\<close>

lemma item_depth_Max:
  "item_depth inc deps depths item =
     Max (insert 0 ((\<lambda>d. depth_of depths d + 1) ` (set (deps_of deps (ci_id item)) \<inter> set inc)))"
proof -
  have "fold (\<lambda>d m. if d \<notin> set inc then m else max m (depth_of depths d + 1)) ds a =
      Max (insert a ((\<lambda>d. depth_of depths d + 1) ` (set ds \<inter> set inc)))" for ds a
  proof (induction ds arbitrary: a)
    case Nil
    then show ?case by simp
  next
    case (Cons d ds)
    show ?case
    proof (cases "d \<in> set inc")
      case True
      let ?S = "(\<lambda>d. depth_of depths d + 1) ` (set ds \<inter> set inc)"
      have "insert a ((\<lambda>d. depth_of depths d + 1) ` (set (d # ds) \<inter> set inc)) =
          insert a (insert (depth_of depths d + 1) ?S)" using True by auto
      moreover have "Max (insert (max a b) S) = Max (insert a (insert b S))" if "finite S" for b and S :: "nat set"
        using that by (cases "S = {}") (simp_all add: max.assoc)
      ultimately show ?thesis using Cons True by simp
    next
      case False
      then show ?thesis using Cons by simp
    qed
  qed
  then show ?thesis by (simp add: item_depth_def)
qed

definition depths_upto :: "apply_plan \<Rightarrow> change_set_item list \<Rightarrow> (string \<times> nat) list" where
  "depths_upto p us = fold (\<lambda>item depths. AList.update (ci_id item)
     (item_depth (map ci_id (pl_ordered p)) (pl_deps p) depths item) depths) us []"

lemma depth_of_upto_stable:
  assumes "distinct (map ci_id (us @ vs))" "k \<in> ci_id ` set us"
  shows "depth_of (depths_upto p (us @ vs)) k = depth_of (depths_upto p us) k"
  using assms
proof (induction vs rule: rev_induct)
  case Nil
  then show ?case by simp
next
  case (snoc v vs)
  have "ci_id v \<noteq> k" using snoc.prems by force
  then have "depth_of (depths_upto p (us @ vs @ [v])) k = depth_of (depths_upto p (us @ vs)) k"
    by (simp add: depths_upto_def depth_of_def)
  with snoc show ?case by simp
qed

lemma depth_equation:
  assumes d: "distinct (map ci_id (pl_ordered p))" and f: "deps_first (pl_deps p) [] (pl_ordered p)"
    and i: "item \<in> set (pl_ordered p)"
  shows "depth_of (depths_by_id p) (ci_id item) =
    Max (insert 0 ((\<lambda>d. depth_of (depths_by_id p) d + 1) ` set (deps_of (pl_deps p) (ci_id item))))"
proof -
  obtain us vs where s: "pl_ordered p = us @ item # vs" using i by (auto dest: split_list)
  have b: "depths_by_id p = depths_upto p (us @ item # vs)"
    unfolding depths_by_id_def depths_upto_def s by simp
  have before: "set (deps_of (pl_deps p) (ci_id item)) \<subseteq> ci_id ` set us"
    using f s deps_first_split by metis
  have "depth_of (depths_by_id p) (ci_id item) = depth_of (depths_upto p (us @ [item])) (ci_id item)"
    unfolding b using depth_of_upto_stable [of "us @ [item]" vs] d s by simp
  also have "\<dots> = item_depth (map ci_id (pl_ordered p)) (pl_deps p) (depths_upto p us) item"
    by (simp add: depths_upto_def depth_of_def)
  also have "\<dots> = Max (insert 0 ((\<lambda>d. depth_of (depths_upto p us) d + 1) `
      set (deps_of (pl_deps p) (ci_id item))))"
  proof -
    have "set (deps_of (pl_deps p) (ci_id item)) \<inter> set (map ci_id (pl_ordered p)) =
        set (deps_of (pl_deps p) (ci_id item))" using before s by auto
    then show ?thesis by (simp only: item_depth_Max)
  qed
  also have "(\<lambda>d. depth_of (depths_upto p us) d + 1) ` set (deps_of (pl_deps p) (ci_id item)) =
      (\<lambda>d. depth_of (depths_by_id p) d + 1) ` set (deps_of (pl_deps p) (ci_id item))"
  proof (rule image_cong [OF refl])
    fix x assume "x \<in> set (deps_of (pl_deps p) (ci_id item))"
    with before have "x \<in> ci_id ` set us" by blast
    then show "depth_of (depths_upto p us) x + 1 = depth_of (depths_by_id p) x + 1"
      unfolding b using depth_of_upto_stable [of us "item # vs" x p] d s by simp
  qed
  finally show ?thesis .
qed

interpretation apply_planner: levelled_planner
  "\<lambda>(items, live). wf_items items" "\<lambda>(items, live). plan_changeset_apply items live"
  pl_ordered ci_id "\<lambda>p k. set (deps_of (pl_deps p) k)" "\<lambda>p k. depth_of (depths_by_id p) k"
proof (unfold_locales, goal_cases)
  case (1 i p)
  then show ?case using plan_order by (auto split: prod.splits)
next
  case (2 i p us n vs)
  then obtain items live where "plan_changeset_apply items live = Inr p" "wf_items items"
    by (auto split: prod.splits)
  from plan_order [OF this] 2(3) have "deps_first (pl_deps p) [] (us @ n # vs)" by simp
  then show ?case by (rule deps_first_split)
next
  case (3 p k)
  then show ?case by simp
next
  case (4 i p n)
  then show ?case using plan_order depth_equation by (auto split: prod.splits)
qed

section \<open>The levels\<close>

definition level_at :: "('a \<Rightarrow> nat) \<Rightarrow> 'a list \<Rightarrow> nat \<Rightarrow> 'a list option" where
  "level_at f items k = (let l = filter (\<lambda>i. f i = k) items in if l = [] then None else Some l)"

definition height :: "('a \<Rightarrow> nat) \<Rightarrow> 'a list \<Rightarrow> nat" where
  "height f items = fold (\<lambda>i h. max h (Suc (f i))) items 0"

lemma height_snoc [simp]: "height f (items @ [i]) = max (height f items) (Suc (f i))"
  by (simp add: height_def)

lemma height_greater: "i \<in> set items \<Longrightarrow> f i < height f items"
  by (induction items rule: rev_induct) (auto simp: less_max_iff_disj)

lemma height_reached: "k < height f items \<Longrightarrow> \<exists>i \<in> set items. k \<le> f i"
  by (induction items rule: rev_induct) (auto simp: height_def less_max_iff_disj)

lemma levels_fold:
  "fold (\<lambda>item. push_level (f item) item) items [] = map (level_at f items) [0..<height f items]"
proof (induction items rule: rev_induct)
  case Nil
  then show ?case by (simp add: height_def)
next
  case (snoc i items)
  let ?h = "height f items"
  let ?ext = "map (level_at f items) [0..<?h] @ replicate (Suc (f i) - ?h) None"
  have e: "?ext ! k = level_at f items k" if "k < max ?h (Suc (f i))" for k
  proof (cases "k < ?h")
    case False
    then have "filter (\<lambda>j. f j = k) items = []" using height_greater by (fastforce simp: filter_empty_conv)
    with False that show ?thesis by (simp add: nth_append level_at_def)
  qed (simp add: nth_append)
  have "push_level (f i) i (map (level_at f items) [0..<?h]) =
      map (level_at f (items @ [i])) [0..<max ?h (Suc (f i))]"
  proof (rule nth_equalityI)
    show "length (push_level (f i) i (map (level_at f items) [0..<?h])) =
        length (map (level_at f (items @ [i])) [0..<max ?h (Suc (f i))])"
      by (simp add: push_level_def Let_def)
    fix k assume "k < length (push_level (f i) i (map (level_at f items) [0..<?h]))"
    then have k: "k < max ?h (Suc (f i))" by (auto simp: push_level_def Let_def)
    show "push_level (f i) i (map (level_at f items) [0..<?h]) ! k =
        map (level_at f (items @ [i])) [0..<max ?h (Suc (f i))] ! k"
    proof (cases "k = f i")
      case True
      with k e [of "f i"] show ?thesis
        by (auto simp: push_level_def Let_def level_at_def split: option.splits)
    next
      case False
      with k e [of k] show ?thesis by (simp add: push_level_def Let_def level_at_def)
    qed
  qed
  with snoc show ?case by simp
qed

lemma mset_levels:
  "mset (concat (map (\<lambda>k. filter (\<lambda>i. f i = k) items) [0..<h])) = mset (filter (\<lambda>i. f i < h) items)"
proof (induction h)
  case 0
  then show ?case by simp
next
  case (Suc h)
  have "mset (filter (\<lambda>i. f i < h) xs) + mset (filter (\<lambda>i. f i = h) xs) =
      mset (filter (\<lambda>i. f i < Suc h) xs)" for xs
    by (induction xs) auto
  with Suc show ?case by simp
qed

text \<open>C5: the apply graph of a plan without blockers is a list of non-empty levels that together
  hold every item of the changeset once (the array has no holes), and every item is in a later level
  than all the items it depends on, so the items of one level can run in parallel.\<close>

theorem apply_graph_levels:
  assumes p: "plan_changeset_apply items live = Inr p" "wf_items items"
    and g: "get_change_set_apply_graph p = Inr levels"
  shows "None \<notin> set levels \<and> [] \<notin> set (map the levels) \<and>
    mset (concat (map the levels)) = mset items \<and>
    (\<forall>k < length levels. \<forall>item \<in> set (the (levels ! k)). \<forall>other \<in> set items.
       ci_id other \<in> set (deps_of (pl_deps p) (ci_id item)) \<longrightarrow>
       (\<exists>j < k. other \<in> set (the (levels ! j))))"
proof -
  let ?f = "\<lambda>item. depth_of (depths_by_id p) (ci_id item)" and ?o = "pl_ordered p"
  let ?h = "height ?f ?o"
  have nb: "pl_blockers p = []" and l: "levels = map (level_at ?f ?o) [0..<?h]"
    using g by (auto simp: get_change_set_apply_graph_def levels_fold split: if_splits)
  have all: "set ?o = set items" by (rule plan_no_blockers_all [OF p nb])
  have perm: "mset ?o = mset items"
    using plan_order [OF p] wf_items_distinct [OF p(2)] all
    by (simp add: distinct_map set_eq_iff_mset_eq_distinct)
  have inp: "(case (items, live) of (items, live) \<Rightarrow> wf_items items)"
    "(case (items, live) of (items, live) \<Rightarrow> plan_changeset_apply items live) = Inr p"
    using p by simp_all
  have dense: "filter (\<lambda>i. ?f i = k) ?o \<noteq> []" if k: "k < ?h" for k
  proof -
    obtain i where "i \<in> set ?o" "k \<le> ?f i" using height_reached [OF k] by blast
    from apply_planner.levels_dense [OF inp this] show ?thesis by (auto simp: filter_empty_conv)
  qed
  have at: "levels ! k = Some (filter (\<lambda>i. ?f i = k) ?o)" if "k < ?h" for k
    using that dense [OF that] by (simp add: l level_at_def)
  have the: "map the levels = map (\<lambda>k. filter (\<lambda>i. ?f i = k) ?o) [0..<?h]"
    using at by (intro nth_equalityI) (simp_all add: l)
  have "None \<notin> set levels" using dense by (auto simp: l level_at_def Let_def split: if_splits)
  moreover have "[] \<notin> set (map the levels)" unfolding the using dense by force
  moreover have "mset (concat (map the levels)) = mset items"
    unfolding the mset_levels using height_greater [of _ ?o ?f] perm
    by (metis (no_types, lifting) filter_True)
  moreover have "\<exists>j < k. other \<in> set (the (levels ! j))"
    if k: "k < length levels" and item: "item \<in> set (the (levels ! k))" and other: "other \<in> set items"
      and d: "ci_id other \<in> set (deps_of (pl_deps p) (ci_id item))" for k item other
  proof -
    have kh: "k < ?h" using k by (simp add: l)
    with item at have i: "item \<in> set ?o" "?f item = k" by auto
    from apply_planner.dependency_lower [OF inp i(1)] d i(2) have "?f other < k" by simp
    moreover have "other \<in> set (the (levels ! ?f other))"
      using at [of "?f other"] kh \<open>?f other < k\<close> other all by simp
    ultimately show ?thesis by blast
  qed
  ultimately show ?thesis by blast
qed

lemma apply_graph_levels_witness:
  "get_change_set_apply_graph sample_plan = Inr (map (\<lambda>i. Some [i]) (pl_ordered sample_plan)) \<and>
   mset (pl_ordered sample_plan) = mset sample_items"
proof
  show g: "get_change_set_apply_graph sample_plan = Inr (map (\<lambda>i. Some [i]) (pl_ordered sample_plan))"
    by code_simp
  have "concat (map the (map (\<lambda>i. Some [i]) xs)) = xs" for xs :: "change_set_item list"
    by (induction xs) auto
  with apply_graph_levels [OF sample_plan sample_wf g]
  show "mset (pl_ordered sample_plan) = mset sample_items" by metis
qed

end
