(* ===== verification/Operations.thy ===== *)
theory Operations
  imports Schema Errors "HOL-Library.List_Lexorder" "HOL-Library.Char_ord"
begin

text \<open>
  The operations service, apps/api/src/operations/operations.ts: every write of an operation row, and
  of the lifecycle columns of the resource it owns, goes through one of these functions. Each is a
  computation on the database that may throw. The clock (\<open>now\<close>) and the ids of new rows are
  arguments; the constraints of the tables (lib/db/schema) are checked by the inserts. A \<open>pg_notify\<close>
  is an entry of \<open>db_notes\<close>, the resumption of an approval hook and the cancelation of a workflow
  run are entries of \<open>db_runs\<close>; neither is taken to fail.

  \<open>UPDATE ... WHERE id = $1 AND status IN (...) RETURNING *\<close> is \<open>update_operation\<close>: it changes the
  rows that satisfy the condition and answers the first of them.
\<close>

type_synonym 'a svc = "(db, js_error, 'a) eff"

datatype channel = Browser | Bearer

record actor =
  ac_type :: actor_type
  ac_id :: string
  ac_org :: string
  ac_channel :: "channel option"

section \<open>Status constants\<close>

definition OPEN_OPERATION_STATUSES :: "operation_status list" where
  "OPEN_OPERATION_STATUSES = [Pending, Running, AwaitingApproval, Canceling]"

definition is_open :: "operation \<Rightarrow> bool" where
  "is_open op \<longleftrightarrow> o_status op \<in> set OPEN_OPERATION_STATUSES"

fun operation_status_str :: "operation_status \<Rightarrow> string" where
  "operation_status_str Pending = ''pending''"
| "operation_status_str Running = ''running''"
| "operation_status_str AwaitingApproval = ''awaiting_approval''"
| "operation_status_str Canceling = ''canceling''"
| "operation_status_str Succeeded = ''succeeded''"
| "operation_status_str Failed = ''failed''"
| "operation_status_str Canceled = ''canceled''"

definition operation_is :: "operation \<Rightarrow> js_error" where
  "operation_is op = Conflict (''operation is '' @ operation_status_str (o_status op))"

section \<open>Notifications\<close>

definition pg_notify :: "notification \<Rightarrow> unit svc" where
  "pg_notify n = eff_modify (\<lambda>s. s\<lparr> db_notes := db_notes s @ [n] \<rparr>)"

definition notify_operation :: "operation \<Rightarrow> unit svc" where
  "notify_operation op = pg_notify (NoteOperation op)"

definition notify_resource :: "resource \<Rightarrow> resource_event \<Rightarrow> unit svc" where
  "notify_resource r event = pg_notify (NoteResource event (r_id r) (r_project_id r) (r_slug r))"

definition notify_resource_updated :: "resource \<Rightarrow> unit svc" where
  "notify_resource_updated r = notify_resource r ResourceUpdated"

definition log_run :: "run_event \<Rightarrow> unit svc" where
  "log_run e = eff_modify (\<lambda>s. s\<lparr> db_runs := db_runs s @ [e] \<rparr>)"

section \<open>Reads\<close>

definition find_operation :: "string \<Rightarrow> operation option svc" where
  "find_operation k = eff_get (\<lambda>s. find (\<lambda>o1. o_id o1 = k) (db_operations s))"

definition get_operation :: "actor \<Rightarrow> string \<Rightarrow> (operation \<times> resource option) svc" where
  "get_operation actor k = (\<lambda>s.
     case find (\<lambda>o1. o_id o1 = k) (db_operations s) of
       None \<Rightarrow> (Inl (NotFound (''operation not found: '' @ k)), s)
     | Some op \<Rightarrow>
         (case find (\<lambda>p. p_id p = o_project_id op) (db_projects s) of
            None \<Rightarrow> (Inl (NotFound (''operation not found: '' @ k)), s)
          | Some p \<Rightarrow>
              if p_org_id p \<noteq> ac_org actor then (Inl (NotFound (''operation not found: '' @ k)), s)
              else (Inr (op, case o_resource_id op of None \<Rightarrow> None
                     | Some r \<Rightarrow> find (\<lambda>x. r_id x = r) (db_resources s)), s)))"

record list_operations_query =
  q_kind :: "operation_kind option"
  q_status :: "operation_status option"
  q_open :: bool
  q_resource_id :: "string option"
  q_resource_slug :: "string option"
  q_cursor_created_at :: "int option"
  q_cursor_id :: "string option"
  q_limit :: "nat option"
  q_include_system :: bool

definition matches_query :: "db \<Rightarrow> string \<Rightarrow> list_operations_query \<Rightarrow> operation \<Rightarrow> bool" where
  "matches_query s project_id q op \<longleftrightarrow>
     o_project_id op = project_id \<and>
     (case q_kind q of None \<Rightarrow> True | Some k \<Rightarrow> o_kind op = k) \<and>
     (if q_open q then is_open op
      else case q_status q of None \<Rightarrow> True | Some st \<Rightarrow> o_status op = st) \<and>
     (case truthy (q_resource_id q) of None \<Rightarrow> True | Some r \<Rightarrow> o_resource_id op = Some r) \<and>
     (case q_cursor_created_at q of
        None \<Rightarrow> True
      | Some t \<Rightarrow>
          (case truthy (q_cursor_id q) of
             None \<Rightarrow> o_created_at op < t
           | Some k \<Rightarrow> o_created_at op < t \<or> (o_created_at op = t \<and> o_id op < k))) \<and>
     (case truthy (q_resource_slug q) of
        None \<Rightarrow> True
      | Some slug \<Rightarrow>
          (\<exists>r \<in> set (db_resources s). r_project_id r = project_id \<and> r_slug r = slug \<and>
             o_resource_id op = Some (r_id r))) \<and>
     (q_include_system q \<or> fst (o_actor op) \<noteq> SystemActor)"

definition list_operations :: "string \<Rightarrow> list_operations_query \<Rightarrow> operation list svc" where
  "list_operations project_id q = eff_get (\<lambda>s.
     take (case q_limit q of None \<Rightarrow> 50 | Some n \<Rightarrow> n)
       (sort_key (\<lambda>op. - o_created_at op) (filter (matches_query s project_id q) (db_operations s))))"

section \<open>Constraints of the tables\<close>

definition open_locks :: "operation list \<Rightarrow> (string \<times> string) list" where
  "open_locks ops = map (\<lambda>o1. (o_project_id o1, the (o_lock o1)))
     (filter (\<lambda>o1. o_lock o1 \<noteq> None \<and> is_open o1) ops)"

definition live_slugs :: "resource list \<Rightarrow> (string \<times> string) list" where
  "live_slugs rs = map (\<lambda>r. (r_project_id r, r_slug r)) (filter (\<lambda>r. r_deleted_at r = None) rs)"

definition provider_backed_check :: "resource \<Rightarrow> bool" where
  "provider_backed_check r \<longleftrightarrow> (r_provider r = None) = (r_integration_id r = None)"

definition references_row :: "('r \<Rightarrow> string) \<Rightarrow> 'r list \<Rightarrow> string option \<Rightarrow> bool" where
  "references_row key rows k \<longleftrightarrow> (case k of None \<Rightarrow> True | Some x \<Rightarrow> x \<in> key ` set rows)"

definition insert_operation :: "operation \<Rightarrow> operation svc" where
  "insert_operation op = (\<lambda>s.
     if o_lock op \<noteq> None \<and> is_open op \<and>
        (o_project_id op, the (o_lock op)) \<in> set (open_locks (db_operations s))
     then (Inl (UniqueViolation ''operations_open_lock_unique''), s)
     else if \<not> (references_row p_id (db_projects s) (Some (o_project_id op)) \<and>
                references_row r_id (db_resources s) (o_resource_id op) \<and>
                references_row ci_id (db_items s) (o_item_id op) \<and>
                references_row o_id (db_operations s) (o_retry_of op))
     then (Inl (ForeignKeyViolation ''operations''), s)
     else (Inr op, s\<lparr> db_operations := db_operations s @ [op] \<rparr>))"

definition insert_resource :: "resource \<Rightarrow> resource svc" where
  "insert_resource r = (\<lambda>s.
     if \<not> provider_backed_check r then (Inl (CheckViolation ''resources_provider_backed_check''), s)
     else if r_deleted_at r = None \<and> (r_project_id r, r_slug r) \<in> set (live_slugs (db_resources s))
     then (Inl (UniqueViolation ''resources_project_slug_unique''), s)
     else if \<not> (references_row p_id (db_projects s) (Some (r_project_id r)) \<and>
                references_row i_id (db_integrations s) (r_integration_id r))
     then (Inl (ForeignKeyViolation ''resources''), s)
     else (Inr r, s\<lparr> db_resources := db_resources s @ [r] \<rparr>))"

definition insert_layout :: "resource_layout \<Rightarrow> unit svc" where
  "insert_layout l = (\<lambda>s.
     if \<exists>l' \<in> set (db_layouts s). l_resource_id l' = l_resource_id l \<and> l_view_id l' = l_view_id l
     then (Inl (UniqueViolation (if l_view_id l = None then ''resource_layouts_resource_null_view_unique''
       else ''resource_layouts_resource_view_unique'')), s)
     else if \<not> references_row r_id (db_resources s) (Some (l_resource_id l))
     then (Inl (ForeignKeyViolation ''resource_layouts''), s)
     else (Inr (), s\<lparr> db_layouts := db_layouts s @ [l] \<rparr>))"

section \<open>Creation\<close>

record create_operation_params =
  cp_project_id :: string
  cp_resource_id :: "string option"
  cp_item_id :: "string option"
  cp_retry_of :: "string option"
  cp_run_id :: "string option"
  cp_lock :: "string option"
  cp_kind :: operation_kind
  cp_approval :: "operation_approval option"
  cp_actor :: "actor_type \<times> string"
  cp_request :: jsobj

definition new_operation :: "string \<Rightarrow> int \<Rightarrow> create_operation_params \<Rightarrow> operation" where
  "new_operation k now p =
     \<lparr> o_id = k, o_project_id = cp_project_id p, o_resource_id = cp_resource_id p,
       o_item_id = cp_item_id p, o_retry_of = cp_retry_of p, o_run_id = cp_run_id p,
       o_lock = cp_lock p, o_kind = cp_kind p, o_status = Pending, o_actor = cp_actor p,
       o_request = cp_request p, o_result = None, o_error = None, o_approval = cp_approval p,
       o_closed_at = None, o_created_at = now, o_updated_at = now \<rparr>"

definition create_operation :: "string \<Rightarrow> int \<Rightarrow> create_operation_params \<Rightarrow> operation svc" where
  "create_operation k now p =
     eff_catch
       (eff_bind (insert_operation (new_operation k now p)) (\<lambda>inserted.
        eff_bind (notify_operation inserted) (\<lambda>_. eff_return inserted)))
       (\<lambda>err. if is_unique_violation err
              then eff_throw (Conflict ''operation lock is already in flight'')
              else eff_throw err)"

record new_resource =
  nr_slug :: string
  nr_type :: string
  nr_status :: resource_status
  nr_inputs :: "jsobj option"
  nr_provider :: "string option"
  nr_integration_id :: "string option"
  nr_depends_on :: "string list option"
  nr_metadata :: jsobj
  nr_position :: "position option"

record create_resource_params =
  rp_actor :: "actor_type \<times> string"
  rp_project_id :: string
  rp_item_id :: "string option"
  rp_retry_of :: "string option"
  rp_kind :: operation_kind
  rp_request :: jsobj
  rp_approval :: "operation_approval option"
  rp_resource :: new_resource

definition resource_lock :: "string \<Rightarrow> string" where
  "resource_lock k = ''resource:'' @ k"

definition new_resource_row :: "string \<Rightarrow> int \<Rightarrow> create_resource_params \<Rightarrow> resource" where
  "new_resource_row k now p =
     \<lparr> r_id = k, r_project_id = rp_project_id p, r_slug = nr_slug (rp_resource p),
       r_type = nr_type (rp_resource p), r_inputs = nr_inputs (rp_resource p), r_identity = None,
       r_outputs = None, r_status = nr_status (rp_resource p),
       r_provider = nr_provider (rp_resource p),
       r_integration_id = nr_integration_id (rp_resource p),
       r_depends_on = nr_depends_on (rp_resource p), r_approval_policy = None,
       r_metadata = nr_metadata (rp_resource p), r_created_by = rp_actor p, r_created_at = now,
       r_updated_at = now, r_deleted_at = None \<rparr>"

definition new_resource_operation :: "string \<Rightarrow> string \<Rightarrow> int \<Rightarrow> create_resource_params \<Rightarrow> operation" where
  "new_resource_operation op_id resource_id now p =
     new_operation op_id now
       \<lparr> cp_project_id = rp_project_id p, cp_resource_id = Some resource_id,
         cp_item_id = rp_item_id p, cp_retry_of = rp_retry_of p, cp_run_id = None,
         cp_lock = Some (resource_lock resource_id), cp_kind = rp_kind p,
         cp_approval = rp_approval p, cp_actor = rp_actor p, cp_request = rp_request p \<rparr>"

definition create_resource_with_operation ::
  "string \<Rightarrow> string \<Rightarrow> string \<Rightarrow> int \<Rightarrow> create_resource_params \<Rightarrow> (resource \<times> operation) svc" where
  "create_resource_with_operation resource_id op_id layout_id now p =
     eff_catch
       (eff_bind
          (eff_tx
             (eff_bind (insert_resource (new_resource_row resource_id now p)) (\<lambda>resource.
              eff_bind (case nr_position (rp_resource p) of
                  None \<Rightarrow> eff_return ()
                | Some pos \<Rightarrow> insert_layout \<lparr> l_id = layout_id, l_resource_id = r_id resource,
                    l_view_id = None, l_position = Some pos, l_size = None, l_collapsed = False \<rparr>) (\<lambda>_.
              eff_bind (insert_operation (new_resource_operation op_id (r_id resource) now p)) (\<lambda>op.
              eff_return (resource, op))))))
          (\<lambda>(resource, op).
             eff_bind (notify_operation op) (\<lambda>_.
             eff_bind (notify_resource resource ResourceCreated) (\<lambda>_.
             eff_return (resource, op)))))
       (\<lambda>err. if is_unique_violation err
              then eff_throw (Conflict (''resource slug already taken: '' @ nr_slug (rp_resource p)))
              else eff_throw err)"

section \<open>Updates of one operation row\<close>

definition update_operation ::
  "string \<Rightarrow> operation_status list option \<Rightarrow> int \<Rightarrow> (operation \<Rightarrow> operation) \<Rightarrow> operation option svc" where
  "update_operation k statuses now f = (\<lambda>s.
     let p = (\<lambda>o1. o_id o1 = k \<and> (case statuses of None \<Rightarrow> True | Some sts \<Rightarrow> o_status o1 \<in> set sts));
         g = (\<lambda>o1. (f o1)\<lparr> o_updated_at := now \<rparr>)
     in (Inr (first_row (returning p g (db_operations s))),
         s\<lparr> db_operations := update_where p g (db_operations s) \<rparr>))"

text \<open>\<open>{ ...row, request: operation.request }\<close>.\<close>

definition with_request :: "operation \<Rightarrow> operation \<Rightarrow> operation" where
  "with_request op row = row\<lparr> o_request := o_request op \<rparr>"

definition operation_not_found :: "operation \<Rightarrow> js_error" where
  "operation_not_found op = NotFound (''operation not found: '' @ o_id op)"

definition attach_operation_workflow_run :: "int \<Rightarrow> operation \<Rightarrow> string \<Rightarrow> operation svc" where
  "attach_operation_workflow_run now op run_id =
     eff_bind (update_operation (o_id op) None now
         (\<lambda>o1. o1\<lparr> o_run_id := (case o_run_id o1 of None \<Rightarrow> Some run_id | Some r \<Rightarrow> Some r) \<rparr>))
       (\<lambda>row. case row of
          None \<Rightarrow> eff_throw (operation_not_found op)
        | Some o1 \<Rightarrow> eff_bind (notify_operation o1) (\<lambda>_. eff_return (with_request op o1)))"

datatype resource_patch =
    PatchStatus resource_status
  | PatchApplied resource_status "jsobj option" "jsobj option"               \<comment> \<open>identity, outputs\<close>
  | PatchRead resource_status "jsobj option" "jsobj option"                  \<comment> \<open>inputs, outputs\<close>
  | PatchImported resource_status "jsobj option" "jsobj option" "jsobj option"
      \<comment> \<open>inputs, identity, outputs\<close>
  | PatchDeleted int

fun patch_row :: "resource_patch \<Rightarrow> resource \<Rightarrow> resource" where
  "patch_row (PatchStatus st) r = r\<lparr> r_status := st \<rparr>"
| "patch_row (PatchApplied st ident outs) r =
     r\<lparr> r_status := st, r_identity := ident, r_outputs := outs \<rparr>"
| "patch_row (PatchRead st inps outs) r = r\<lparr> r_status := st, r_inputs := inps, r_outputs := outs \<rparr>"
| "patch_row (PatchImported st inps ident outs) r =
     r\<lparr> r_status := st, r_inputs := inps, r_identity := ident, r_outputs := outs \<rparr>"
| "patch_row (PatchDeleted t) r = r\<lparr> r_deleted_at := Some t \<rparr>"

definition apply_resource_patch :: "int \<Rightarrow> string \<Rightarrow> resource_patch \<Rightarrow> resource svc" where
  "apply_resource_patch now k patch = (\<lambda>s.
     let p = (\<lambda>r. r_id r = k); g = (\<lambda>r. (patch_row patch r)\<lparr> r_updated_at := now \<rparr>)
     in case first_row (returning p g (db_resources s)) of
          None \<Rightarrow> (Inl (NotFound (''resource not found: '' @ k)), s)
        | Some r \<Rightarrow> (Inr r, s\<lparr> db_resources := update_where p g (db_resources s) \<rparr>))"

fun patch_tombstones :: "resource_patch \<Rightarrow> bool" where
  "patch_tombstones (PatchDeleted t) = True"
| "patch_tombstones _ = False"

text \<open>\<open>resourcePatch && operation.resourceId ? await applyResourcePatch(...) : null\<close>.\<close>

definition patch_owned :: "int \<Rightarrow> operation \<Rightarrow> resource_patch option \<Rightarrow> resource option svc" where
  "patch_owned now op patch =
     (case (patch, truthy (o_resource_id op)) of
        (Some p, Some k) \<Rightarrow> eff_bind (apply_resource_patch now k p) (\<lambda>r. eff_return (Some r))
      | _ \<Rightarrow> eff_return None)"

definition notify_patched :: "resource option \<Rightarrow> resource_patch option \<Rightarrow> unit svc" where
  "notify_patched patched patch =
     (case (patched, patch) of
        (Some r, Some p) \<Rightarrow>
          notify_resource r (if patch_tombstones p then ResourceDeleted else ResourceUpdated)
      | _ \<Rightarrow> eff_return ())"

text \<open>The transaction the transitions share: the row, then the resource it owns.\<close>

definition transition ::
  "int \<Rightarrow> operation \<Rightarrow> operation_status list option \<Rightarrow> (operation \<Rightarrow> operation) \<Rightarrow>
   resource_patch option \<Rightarrow> (operation \<times> resource option) option svc" where
  "transition now op statuses f patch =
     eff_tx (eff_bind (update_operation (o_id op) statuses now f) (\<lambda>row.
       case row of
         None \<Rightarrow> eff_return None
       | Some o1 \<Rightarrow> eff_bind (patch_owned now op patch) (\<lambda>patched. eff_return (Some (o1, patched)))))"

definition announce ::
  "operation \<Rightarrow> operation \<Rightarrow> resource option \<Rightarrow> resource_patch option \<Rightarrow> operation svc" where
  "announce op row patched patch =
     eff_bind (notify_operation row) (\<lambda>_.
     eff_bind (notify_patched patched patch) (\<lambda>_. eff_return (with_request op row)))"

text \<open>What a guarded transition answers when no row matched: the row if it is already there,
  a conflict otherwise.\<close>

definition settled_or_conflict :: "operation \<Rightarrow> (operation \<Rightarrow> bool) \<Rightarrow> operation svc" where
  "settled_or_conflict op settled =
     eff_bind (find_operation (o_id op)) (\<lambda>current.
       case current of
         None \<Rightarrow> eff_throw (operation_not_found op)
       | Some c \<Rightarrow> if settled c then eff_return (with_request op c)
                  else eff_throw (operation_is c))"

definition mark_operation_running :: "int \<Rightarrow> operation \<Rightarrow> resource_patch option \<Rightarrow> operation svc" where
  "mark_operation_running now op patch =
     eff_bind (transition now op (Some [Pending, AwaitingApproval])
         (\<lambda>o1. o1\<lparr> o_status := Running \<rparr>) patch)
       (\<lambda>result. case result of
          Some (row, patched) \<Rightarrow> announce op row patched patch
        | None \<Rightarrow> settled_or_conflict op (\<lambda>c. o_status c = Running))"

definition mark_operation_awaiting_approval ::
  "int \<Rightarrow> operation \<Rightarrow> operation_approval \<Rightarrow> operation svc" where
  "mark_operation_awaiting_approval now op approval =
     eff_bind (update_operation (o_id op) (Some [Pending]) now
         (\<lambda>o1. o1\<lparr> o_status := AwaitingApproval, o_approval := Some approval \<rparr>))
       (\<lambda>row. case row of
          Some o1 \<Rightarrow> eff_bind (notify_operation o1) (\<lambda>_. eff_return (with_request op o1))
        | None \<Rightarrow> settled_or_conflict op (\<lambda>c. o_status c = AwaitingApproval \<and>
            (case o_approval c of None \<Rightarrow> None | Some a \<Rightarrow> ap_hook a) = ap_hook approval))"

definition mark_operation_succeeded ::
  "int \<Rightarrow> operation \<Rightarrow> jsobj \<Rightarrow> resource_patch option \<Rightarrow> operation svc" where
  "mark_operation_succeeded now op result patch =
     eff_bind (transition now op None
         (\<lambda>o1. o1\<lparr> o_status := Succeeded, o_result := Some result, o_closed_at := Some now \<rparr>) patch)
       (\<lambda>closed. case closed of
          None \<Rightarrow> eff_throw (operation_not_found op)
        | Some (row, patched) \<Rightarrow> announce op row patched patch)"

definition mark_operation_failed ::
  "int \<Rightarrow> operation \<Rightarrow> operation_error \<Rightarrow> resource_patch option \<Rightarrow> operation svc" where
  "mark_operation_failed now op err patch =
     eff_bind (transition now op None
         (\<lambda>o1. o1\<lparr> o_status := Failed, o_error := Some err, o_closed_at := Some now \<rparr>) patch)
       (\<lambda>closed. case closed of
          None \<Rightarrow> eff_throw (operation_not_found op)
        | Some (row, patched) \<Rightarrow> announce op row patched patch)"

definition mark_operation_canceling :: "int \<Rightarrow> operation \<Rightarrow> operation svc" where
  "mark_operation_canceling now op =
     eff_bind (update_operation (o_id op) (Some [Running]) now (\<lambda>o1. o1\<lparr> o_status := Canceling \<rparr>))
       (\<lambda>row. case row of
          Some o1 \<Rightarrow> eff_bind (notify_operation o1) (\<lambda>_. eff_return (with_request op o1))
        | None \<Rightarrow> settled_or_conflict op (\<lambda>c. o_status c = Canceling))"

definition mark_operation_canceled :: "int \<Rightarrow> operation \<Rightarrow> resource_patch option \<Rightarrow> operation svc" where
  "mark_operation_canceled now op patch =
     eff_bind (transition now op (Some [Pending, Running, AwaitingApproval, Canceling])
         (\<lambda>o1. o1\<lparr> o_status := Canceled, o_closed_at := Some now \<rparr>) patch)
       (\<lambda>result. case result of
          Some (row, patched) \<Rightarrow> announce op row patched patch
        | None \<Rightarrow> settled_or_conflict op (\<lambda>c. o_status c = Canceled))"

section \<open>User actions\<close>

definition approval_token :: "operation \<Rightarrow> string option" where
  "approval_token op = (case o_approval op of None \<Rightarrow> None | Some a \<Rightarrow> ap_hook a)"

text \<open>\<open>{ ...(operation.approval as OperationApproval), ... }\<close>: an operation that awaits approval has
  one, since \<open>markOperationAwaitingApproval\<close> sets both; spreading \<open>null\<close> would add nothing, which
  \<open>empty_approval\<close> stands for.\<close>

definition empty_approval :: operation_approval where
  "empty_approval =
     \<lparr> ap_requested_at = 0, ap_policy_ids = [], ap_policy_results = [], ap_hook = None,
       ap_approved_by = None, ap_approved_at = None, ap_canceled_by = None, ap_canceled_at = None \<rparr>"

definition approval_of :: "operation \<Rightarrow> operation_approval" where
  "approval_of op = (case o_approval op of None \<Rightarrow> empty_approval | Some a \<Rightarrow> a)"

definition approve_operation :: "int \<Rightarrow> operation \<Rightarrow> actor \<Rightarrow> operation svc" where
  "approve_operation now op actor =
     (if ac_type actor \<noteq> UserActor \<or> ac_channel actor \<noteq> Some Browser
      then eff_throw (InvalidInput ''approval requires a browser user'')
      else if o_status op \<noteq> AwaitingApproval
      then eff_throw (operation_is op)
      else case truthy (approval_token op) of
        None \<Rightarrow> eff_throw (Conflict ''operation approval hook is missing'')
      | Some token \<Rightarrow>
          eff_bind (update_operation (o_id op) (Some [AwaitingApproval]) now
              (\<lambda>o1. o1\<lparr> o_approval := Some ((approval_of op)
                 \<lparr> ap_approved_by := Some (ac_type actor, ac_id actor), ap_approved_at := Some now \<rparr>) \<rparr>))
            (\<lambda>updated. case updated of
               None \<Rightarrow> eff_throw (Conflict ''operation is no longer awaiting approval'')
             | Some o1 \<Rightarrow>
                 eff_bind (notify_operation o1) (\<lambda>_.
                 eff_bind (log_run (HookResumed token True)) (\<lambda>_. eff_return o1))))"

definition cancel_stub_resource_patch :: "int \<Rightarrow> operation \<Rightarrow> resource_patch option" where
  "cancel_stub_resource_patch now op =
     (if o_kind op \<noteq> OpCreate \<and> o_kind op \<noteq> OpImport then None
      else if truthy (o_resource_id op) = None then None
      else Some (PatchDeleted now))"

definition cancel_operation :: "int \<Rightarrow> operation \<Rightarrow> actor \<Rightarrow> operation svc" where
  "cancel_operation now op actor =
     (case o_status op of
        AwaitingApproval \<Rightarrow>
          (let patch = cancel_stub_resource_patch now op;
               approval = (approval_of op)
                 \<lparr> ap_canceled_by := Some (ac_type actor, ac_id actor), ap_canceled_at := Some now \<rparr>
           in eff_bind (transition now op (Some [AwaitingApproval])
                  (\<lambda>o1. o1\<lparr> o_status := Canceled, o_closed_at := Some now, o_approval := Some approval \<rparr>)
                  patch)
                (\<lambda>result. case result of
                   None \<Rightarrow> eff_throw (Conflict ''operation is no longer awaiting approval'')
                 | Some (row, patched) \<Rightarrow>
                     eff_bind (notify_operation row) (\<lambda>_.
                     eff_bind (notify_patched patched patch) (\<lambda>_.
                     eff_bind (case truthy (approval_token op) of
                         None \<Rightarrow> eff_return ()
                       | Some token \<Rightarrow> log_run (HookResumed token False)) (\<lambda>_.
                     eff_return row)))))
      | Pending \<Rightarrow>
          eff_bind (mark_operation_canceled now op (cancel_stub_resource_patch now op)) (\<lambda>canceled.
          eff_bind (case truthy (o_run_id op) of
              None \<Rightarrow> eff_return ()
            | Some run \<Rightarrow> log_run (RunCanceled run)) (\<lambda>_.
          eff_return canceled))
      | Running \<Rightarrow> mark_operation_canceling now op
      | Canceling \<Rightarrow> eff_return op
      | _ \<Rightarrow> eff_throw (operation_is op))"

definition retry_operation :: "string \<Rightarrow> int \<Rightarrow> operation \<Rightarrow> actor \<Rightarrow> operation svc" where
  "retry_operation k now op actor =
     create_operation k now
       \<lparr> cp_project_id = o_project_id op, cp_resource_id = o_resource_id op,
         cp_item_id = o_item_id op, cp_retry_of = Some (o_id op), cp_run_id = None,
         cp_lock = o_lock op, cp_kind = o_kind op, cp_approval = None,
         cp_actor = (ac_type actor, ac_id actor), cp_request = o_request op \<rparr>"

end
