(* ===== verification/Integrations.thy ===== *)
theory Integrations
  imports Operations
begin

text \<open>
  The integrations service, apps/api/src/integrations/integrations.ts, with the resolution of a
  provider reference in apps/api/src/provider-runtime/refs.ts: an integration is a project's
  credentials and configuration for one provider; one integration of a project and provider may be
  its default. The catalog of installed providers and the registry of provider definitions are
  arguments; of a definition's schemas (zod) the code uses whether they accept a value and the text
  of the issues otherwise, which is what the fields of \<open>provider_definition\<close> give.
\<close>

section \<open>Provider references (provider-runtime/refs.ts)\<close>

record catalog_entry =
  ce_name :: string
  ce_source :: string
  ce_versions :: "string list"

record provider_ref =
  pf_name :: string
  pf_source :: string
  pf_version :: string

definition find_provider_by_name :: "catalog_entry list \<Rightarrow> string \<Rightarrow> catalog_entry option" where
  "find_provider_by_name catalog name = find (\<lambda>e. ce_name e = name) catalog"

definition find_provider_by_source :: "catalog_entry list \<Rightarrow> string \<Rightarrow> catalog_entry option" where
  "find_provider_by_source catalog source = find (\<lambda>e. ce_source e = source) catalog"

text \<open>\<open>entry.versions[0]\<close>; the parser of the catalog refuses an entry without versions, for which
  the text here is empty.\<close>

definition first_version :: "catalog_entry \<Rightarrow> string" where
  "first_version e = (case ce_versions e of [] \<Rightarrow> [] | v # _ \<Rightarrow> v)"

definition require_terraform_entry :: "catalog_entry list \<Rightarrow> provider_ref \<Rightarrow> js_error + catalog_entry" where
  "require_terraform_entry catalog ref =
     (case (case find_provider_by_source catalog (pf_source ref) of
              Some e \<Rightarrow> Some e | None \<Rightarrow> find_provider_by_name catalog (pf_name ref)) of
        None \<Rightarrow> Inl (ProviderUnknown (pf_name ref))
      | Some e \<Rightarrow>
          if ce_source e \<noteq> pf_source ref then Inl (ProviderUnknown (pf_name ref))
          else if pf_version ref \<notin> set (ce_versions e)
          then Inl (ProviderVersionUnavailable (pf_name ref) (pf_version ref)
                 (if ce_versions e = [] then ''none'' else first_version e))
          else Inr e)"

definition checked_ref :: "catalog_entry list \<Rightarrow> provider_ref \<Rightarrow> js_error + provider_ref" where
  "checked_ref catalog ref = res_bind (require_terraform_entry catalog ref) (\<lambda>_. Inr ref)"

record create_integration_body =
  ib_provider :: string
  ib_provider_source :: "string option"
  ib_provider_version :: "string option"
  ib_slug :: string
  ib_name :: "string option"
  ib_default :: "bool option"
  ib_credentials :: "jsobj option"
  ib_config :: jsobj

definition provider_ref_from_create_body ::
  "catalog_entry list \<Rightarrow> create_integration_body \<Rightarrow> js_error + provider_ref" where
  "provider_ref_from_create_body catalog body =
     (case (case truthy (ib_provider_source body) of
              Some source \<Rightarrow> find_provider_by_source catalog source
            | None \<Rightarrow> find_provider_by_name catalog (ib_provider body)) of
        None \<Rightarrow> Inl (ProviderUnknown (ib_provider body))
      | Some e \<Rightarrow> checked_ref catalog
          \<lparr> pf_name = ce_name e,
            pf_source = (case ib_provider_source body of None \<Rightarrow> ce_source e | Some source \<Rightarrow> source),
            pf_version = (case ib_provider_version body of None \<Rightarrow> first_version e | Some v \<Rightarrow> v) \<rparr>)"

definition provider_ref_from_integration ::
  "catalog_entry list \<Rightarrow> integration \<Rightarrow> js_error + provider_ref" where
  "provider_ref_from_integration catalog row =
     (let source = (case i_provider_source row of
            Some source \<Rightarrow> source
          | None \<Rightarrow> (case find_provider_by_name catalog (i_provider row) of
              Some e \<Rightarrow> ce_source e | None \<Rightarrow> i_provider row))
      in checked_ref catalog
        \<lparr> pf_name = i_provider row, pf_source = source,
          pf_version = (case i_provider_version row of
              Some v \<Rightarrow> v
            | None \<Rightarrow> (case find_provider_by_source catalog source of
                Some e \<Rightarrow> first_version e | None \<Rightarrow> [])) \<rparr>)"

section \<open>Provider definitions\<close>

record provider_definition =
  pd_name :: string
  pd_credentials_issues :: "(jsobj \<Rightarrow> string option) option"
  pd_config_issues :: "(jsobj \<Rightarrow> string option) option"
  pd_summarize :: "(jsobj \<Rightarrow> string) option"
  pd_discriminator :: "string option"
  pd_external_id_field :: "string option"

type_synonym registry = "string \<Rightarrow> string option \<Rightarrow> provider_definition option"

definition require_provider_definition :: "registry \<Rightarrow> string \<Rightarrow> js_error + provider_definition" where
  "require_provider_definition registry name =
     (case registry name None of None \<Rightarrow> Inl (IntegrationUnknownProvider name) | Some d \<Rightarrow> Inr d)"

text \<open>One schema of a definition against one field of the body: neither needs to be there.\<close>

definition ingest_issues :: "(jsobj \<Rightarrow> string option) option \<Rightarrow> jsobj option \<Rightarrow> string option" where
  "ingest_issues schema value =
     (case (schema, value) of (Some f, Some v) \<Rightarrow> f v | _ \<Rightarrow> None)"

definition validate_at_ingest ::
  "provider_definition \<Rightarrow> jsobj option \<Rightarrow> jsobj option \<Rightarrow> js_error + unit" where
  "validate_at_ingest d credentials config =
     (case ingest_issues (pd_credentials_issues d) credentials of
        Some issues \<Rightarrow> Inl (IntegrationCredentialsInvalid (pd_name d) issues)
      | None \<Rightarrow>
          (case ingest_issues (pd_config_issues d) config of
             Some issues \<Rightarrow> Inl (IntegrationConfigInvalid (pd_name d) issues)
           | None \<Rightarrow> Inr ()))"

definition summarize_mode :: "provider_definition \<Rightarrow> jsobj \<Rightarrow> string" where
  "summarize_mode d credentials = (case pd_summarize d of None \<Rightarrow> [] | Some f \<Rightarrow> f credentials)"

section \<open>The view\<close>

record integration_view =
  iv_id :: string
  iv_project_id :: string
  iv_provider :: string
  iv_slug :: string
  iv_name :: "string option"
  iv_is_default :: bool
  iv_provider_source :: "string option"
  iv_provider_version :: "string option"
  iv_config :: jsobj
  iv_created_by :: "actor_type \<times> string"
  iv_deleted_at :: "int option"
  iv_discriminator :: "string option"
  iv_credentials_mode :: "string option"
  iv_external_id :: "string option"

definition onboarding_external_id :: "provider_definition option \<Rightarrow> jsobj \<Rightarrow> string option" where
  "onboarding_external_id d credentials =
     (case d of None \<Rightarrow> None
      | Some d \<Rightarrow>
          (case pd_external_id_field d of None \<Rightarrow> None
           | Some field \<Rightarrow>
               (case get_prop (JObj credentials) field of JStr s \<Rightarrow> Some s | _ \<Rightarrow> None)))"

definition get_integration_view :: "registry \<Rightarrow> integration \<Rightarrow> integration_view" where
  "get_integration_view registry row =
     (let d = registry (i_provider row) (i_provider_source row) in
      \<lparr> iv_id = i_id row, iv_project_id = i_project_id row, iv_provider = i_provider row,
        iv_slug = i_slug row, iv_name = i_name row, iv_is_default = i_is_default row,
        iv_provider_source = i_provider_source row, iv_provider_version = i_provider_version row,
        iv_config = i_config row, iv_created_by = i_created_by row, iv_deleted_at = i_deleted_at row,
        iv_discriminator = (case d of None \<Rightarrow> None | Some d \<Rightarrow> pd_discriminator d),
        iv_credentials_mode = truthy (Some (i_credential_mode row)),
        iv_external_id = onboarding_external_id d (i_credentials row) \<rparr>)"

section \<open>Constraints\<close>

definition live_integration :: "integration \<Rightarrow> bool" where
  "live_integration i \<longleftrightarrow> i_deleted_at i = None"

definition integration_slugs :: "integration list \<Rightarrow> (string \<times> string) list" where
  "integration_slugs rows =
     map (\<lambda>i. (i_project_id i, i_slug i)) (filter live_integration rows)"

definition integration_defaults :: "integration list \<Rightarrow> (string \<times> string) list" where
  "integration_defaults rows =
     map (\<lambda>i. (i_project_id i, i_provider i)) (filter (\<lambda>i. i_is_default i \<and> live_integration i) rows)"

definition insert_integration :: "integration \<Rightarrow> integration svc" where
  "insert_integration row = (\<lambda>s.
     if live_integration row \<and>
        (i_project_id row, i_slug row) \<in> set (integration_slugs (db_integrations s))
     then (Inl (UniqueViolation ''integrations_project_slug_unique''), s)
     else if i_is_default row \<and> live_integration row \<and>
        (i_project_id row, i_provider row) \<in> set (integration_defaults (db_integrations s))
     then (Inl (UniqueViolation ''integrations_project_provider_default_unique''), s)
     else if \<not> references_row p_id (db_projects s) (Some (i_project_id row))
     then (Inl (ForeignKeyViolation ''integrations''), s)
     else (Inr row, s\<lparr> db_integrations := db_integrations s @ [row] \<rparr>))"

text \<open>\<open>UPDATE integrations SET .. WHERE .. RETURNING *\<close>, refused when the rows it leaves violate one
  of the unique indexes.\<close>

definition update_integrations ::
  "(integration \<Rightarrow> bool) \<Rightarrow> (integration \<Rightarrow> integration) \<Rightarrow> integration list svc" where
  "update_integrations p f = (\<lambda>s.
     let rows = update_where p f (db_integrations s) in
     if \<not> distinct (integration_slugs rows)
     then (Inl (UniqueViolation ''integrations_project_slug_unique''), s)
     else if \<not> distinct (integration_defaults rows)
     then (Inl (UniqueViolation ''integrations_project_provider_default_unique''), s)
     else (Inr (returning p f (db_integrations s)), s\<lparr> db_integrations := rows \<rparr>))"

section \<open>Reads\<close>

definition get_integrations_by_project :: "project \<Rightarrow> integration list svc" where
  "get_integrations_by_project project = eff_get (\<lambda>s.
     sort_key i_provider (sort_key i_slug
       (filter (\<lambda>i. i_project_id i = p_id project \<and> live_integration i) (db_integrations s))))"

definition get_integration_by_id :: "string \<Rightarrow> string \<Rightarrow> integration svc" where
  "get_integration_by_id project_id k = (\<lambda>s.
     case find (\<lambda>i. i_id i = k \<and> i_project_id i = project_id \<and> live_integration i) (db_integrations s) of
       None \<Rightarrow> (Inl (IntegrationNotFound k), s)
     | Some row \<Rightarrow> (Inr row, s))"

definition get_integration_by_slug :: "string \<Rightarrow> string \<Rightarrow> integration svc" where
  "get_integration_by_slug project_id slug = (\<lambda>s.
     case find (\<lambda>i. i_project_id i = project_id \<and> i_slug i = slug \<and> live_integration i)
            (db_integrations s) of
       None \<Rightarrow> (Inl (IntegrationSlugNotFound slug), s)
     | Some row \<Rightarrow> (Inr row, s))"

definition get_default_integration_by_provider :: "string \<Rightarrow> string \<Rightarrow> integration svc" where
  "get_default_integration_by_provider project_id provider = (\<lambda>s.
     case find (\<lambda>i. i_project_id i = project_id \<and> i_provider i = provider \<and> i_is_default i \<and>
            live_integration i) (db_integrations s) of
       None \<Rightarrow> (Inl (IntegrationNoDefault provider), s)
     | Some row \<Rightarrow> (Inr row, s))"

text \<open>The provider of a resource type is the prefix before its first underscore.\<close>

definition provider_of_type :: "string \<Rightarrow> string option" where
  "provider_of_type ty =
     (if CHR ''_'' \<in> set ty then Some (takeWhile (\<lambda>c. c \<noteq> CHR ''_'') ty) else None)"

definition get_integration_by_resource_type ::
  "string \<Rightarrow> string \<Rightarrow> string option \<Rightarrow> integration svc" where
  "get_integration_by_resource_type project_id ty slug =
     (case provider_of_type ty of
        None \<Rightarrow> eff_throw (ProviderInferTypeFailed ty)
      | Some provider \<Rightarrow>
          (case truthy slug of
             None \<Rightarrow> get_default_integration_by_provider project_id provider
           | Some slug \<Rightarrow>
               eff_bind (get_integration_by_slug project_id slug) (\<lambda>row.
                 if i_provider row \<noteq> provider
                 then eff_throw (IntegrationProviderMismatch slug provider (i_provider row))
                 else eff_return row)))"

definition get_integrations_by_ids ::
  "string \<Rightarrow> string list \<Rightarrow> (string \<times> integration) list svc" where
  "get_integrations_by_ids project_id ids =
     (if ids = [] then eff_return []
      else eff_get (\<lambda>s. map_of_list i_id
        (filter (\<lambda>i. i_project_id i = project_id \<and> i_id i \<in> set ids \<and> live_integration i)
          (db_integrations s))))"

section \<open>Writes\<close>

definition demote_current_default :: "string \<Rightarrow> string \<Rightarrow> unit svc" where
  "demote_current_default project_id provider =
     eff_bind (update_integrations
         (\<lambda>i. i_project_id i = project_id \<and> i_provider i = provider \<and> i_is_default i \<and> live_integration i)
         (\<lambda>i. i\<lparr> i_is_default := False \<rparr>)) (\<lambda>_. eff_return ())"

definition integration_row ::
  "string \<Rightarrow> actor \<Rightarrow> project \<Rightarrow> create_integration_body \<Rightarrow> provider_ref \<Rightarrow> bool \<Rightarrow> jsobj \<Rightarrow> string \<Rightarrow>
   integration" where
  "integration_row k actor project body ref is_default credentials mode =
     \<lparr> i_id = k, i_project_id = p_id project, i_provider = pf_name ref, i_slug = ib_slug body,
       i_name = Some (case ib_name body of None \<Rightarrow> ib_slug body | Some n \<Rightarrow> n),
       i_is_default = is_default, i_provider_source = Some (pf_source ref),
       i_provider_version = Some (pf_version ref), i_config = ib_config body,
       i_credentials = credentials, i_credential_mode = mode,
       i_created_by = (ac_type actor, ac_id actor), i_deleted_at = None \<rparr>"

definition insert_with_default ::
  "string \<Rightarrow> actor \<Rightarrow> project \<Rightarrow> create_integration_body \<Rightarrow> provider_ref \<Rightarrow> jsobj \<Rightarrow> string \<Rightarrow> integration svc" where
  "insert_with_default k actor project body ref credentials mode =
     eff_bind (eff_get (\<lambda>s. \<forall>i \<in> set (db_integrations s).
         \<not> (i_project_id i = p_id project \<and> i_provider i = pf_name ref \<and> live_integration i)))
       (\<lambda>first. let is_default = (ib_default body = Some True \<or> first) in
          eff_bind (if is_default \<and> \<not> first
                    then demote_current_default (p_id project) (pf_name ref) else eff_return ()) (\<lambda>_.
          insert_integration (integration_row k actor project body ref is_default credentials mode)))"

definition create_integration ::
  "catalog_entry list \<Rightarrow> registry \<Rightarrow> string \<Rightarrow> actor \<Rightarrow> project \<Rightarrow> create_integration_body \<Rightarrow> integration svc" where
  "create_integration catalog registry k actor project body =
     eff_bind (eff_lift (provider_ref_from_create_body catalog body)) (\<lambda>ref.
     eff_bind (eff_lift (require_provider_definition registry (pf_name ref))) (\<lambda>d.
     let credentials = (case ib_credentials body of None \<Rightarrow> [] | Some c \<Rightarrow> c) in
     eff_bind (eff_lift (validate_at_ingest d (Some credentials) (Some (ib_config body)))) (\<lambda>_.
     eff_catch
       (eff_tx (insert_with_default k actor project body ref credentials (summarize_mode d credentials)))
       (\<lambda>err. if unique_violation_constraint err = Some ''integrations_project_slug_unique''
              then eff_throw (IntegrationDuplicateSlug (ib_slug body) (p_slug project))
              else eff_throw err))))"

definition delete_integration :: "int \<Rightarrow> project \<Rightarrow> string \<Rightarrow> bool \<Rightarrow> bool svc" where
  "delete_integration now project slug force =
     eff_bind (eff_catch
         (eff_bind (get_integration_by_slug (p_id project) slug) (\<lambda>row. eff_return (Some row)))
         (\<lambda>err. if force \<and> (\<exists>k. err = IntegrationSlugNotFound k) then eff_return None
                else eff_throw err))
       (\<lambda>found. case found of
          None \<Rightarrow> eff_return False
        | Some row \<Rightarrow>
            eff_bind (eff_get (\<lambda>s. \<exists>r \<in> set (db_resources s).
                r_integration_id r = Some (i_id row) \<and> r_deleted_at r = None)) (\<lambda>active.
            if active then eff_throw (IntegrationActiveResourcesConflict slug)
            else eff_bind (update_integrations (\<lambda>i. i_id i = i_id row \<and> live_integration i)
                   (\<lambda>i. i\<lparr> i_deleted_at := Some now \<rparr>)) (\<lambda>rows.
                 if rows \<noteq> [] then eff_return True
                 else if force then eff_return False
                 else eff_throw (NotFound (''integration not found: '' @ slug)))))"

record update_integration_body =
  ub_name :: "string option"
  ub_default :: "bool option"
  ub_credentials :: "jsobj option"
  ub_config :: "jsobj option"

definition integration_patch ::
  "provider_definition \<Rightarrow> update_integration_body \<Rightarrow> bool \<Rightarrow> integration \<Rightarrow> integration" where
  "integration_patch d body promoting row =
     (let row1 = (case ub_name body of None \<Rightarrow> row | Some n \<Rightarrow> row\<lparr> i_name := Some n \<rparr>);
          row2 = (case ub_credentials body of None \<Rightarrow> row1
            | Some c \<Rightarrow> row1\<lparr> i_credentials := c, i_credential_mode := summarize_mode d c \<rparr>);
          row3 = (case ub_config body of None \<Rightarrow> row2 | Some c \<Rightarrow> row2\<lparr> i_config := c \<rparr>)
      in if promoting then row3\<lparr> i_is_default := True \<rparr> else row3)"

definition write_integration ::
  "provider_definition \<Rightarrow> project \<Rightarrow> update_integration_body \<Rightarrow> integration \<Rightarrow> bool \<Rightarrow> integration svc" where
  "write_integration d project body row promoting =
     eff_bind (if promoting then demote_current_default (p_id project) (i_provider row)
               else eff_return ()) (\<lambda>_.
     eff_bind (update_integrations (\<lambda>i. i_id i = i_id row \<and> i_project_id i = p_id project)
         (integration_patch d body promoting)) (\<lambda>rows.
     case first_row rows of
       None \<Rightarrow> eff_throw (IntegrationNotFound (i_id row))
     | Some updated \<Rightarrow> eff_return updated))"

definition update_integration ::
  "registry \<Rightarrow> project \<Rightarrow> string \<Rightarrow> update_integration_body \<Rightarrow> integration svc" where
  "update_integration registry project slug body =
     eff_tx (eff_bind (get_integration_by_slug (p_id project) slug) (\<lambda>row.
       eff_bind (eff_lift (require_provider_definition registry (i_provider row))) (\<lambda>d.
       eff_bind (eff_lift (validate_at_ingest d (ub_credentials body) (ub_config body))) (\<lambda>_.
       let promoting = (ub_default body = Some True \<and> \<not> i_is_default row) in
       if ub_name body = None \<and> ub_credentials body = None \<and> ub_config body = None \<and> \<not> promoting
       then eff_return row
       else write_integration d project body row promoting))))"

text \<open>The two checks of credentials against the provider, whose probe is an argument. A field of the
  body that is there replaces the stored one for the test only.\<close>

definition check_integration_credentials ::
  "catalog_entry list \<Rightarrow> registry \<Rightarrow> (provider_ref \<Rightarrow> jsobj \<Rightarrow> jsobj \<Rightarrow> 'r svc) \<Rightarrow>
   create_integration_body \<Rightarrow> 'r svc" where
  "check_integration_credentials catalog registry probe body =
     eff_bind (eff_lift (provider_ref_from_create_body catalog body)) (\<lambda>ref.
     eff_bind (eff_lift (require_provider_definition registry (pf_name ref))) (\<lambda>d.
     eff_bind (eff_lift (validate_at_ingest d (ib_credentials body) (Some (ib_config body)))) (\<lambda>_.
     probe ref (case ib_credentials body of None \<Rightarrow> [] | Some c \<Rightarrow> c) (ib_config body))))"

definition check_integration ::
  "catalog_entry list \<Rightarrow> registry \<Rightarrow> (provider_ref \<Rightarrow> jsobj \<Rightarrow> jsobj \<Rightarrow> 'r svc) \<Rightarrow>
   project \<Rightarrow> string \<Rightarrow> update_integration_body \<Rightarrow> 'r svc" where
  "check_integration catalog registry probe project slug body =
     eff_bind (get_integration_by_slug (p_id project) slug) (\<lambda>row.
     eff_bind (eff_lift (provider_ref_from_integration catalog row)) (\<lambda>ref.
     eff_bind (eff_lift (require_provider_definition registry (i_provider row))) (\<lambda>d.
     eff_bind (eff_lift (validate_at_ingest d (ub_credentials body) (ub_config body))) (\<lambda>_.
     probe ref (case ub_credentials body of None \<Rightarrow> i_credentials row | Some c \<Rightarrow> c)
       (case ub_config body of None \<Rightarrow> i_config row | Some c \<Rightarrow> c)))))"

section \<open>The invariant of the table\<close>

definition integrations_ok :: "db \<Rightarrow> bool" where
  "integrations_ok s \<longleftrightarrow> distinct (map i_id (db_integrations s)) \<and>
     distinct (integration_slugs (db_integrations s)) \<and>
     distinct (integration_defaults (db_integrations s))"

lemma update_integrations_keeps:
  assumes "\<And>i. i_id (f i) = i_id i"
  shows "eff_keeps integrations_ok (update_integrations p f)"
  using assms
  by (auto intro!: eff_keepsI simp: update_integrations_def integrations_ok_def Let_def)

lemma insert_integration_keeps:
  assumes "integrations_ok s" "i_id row \<notin> i_id ` set (db_integrations s)"
  shows "integrations_ok (snd (insert_integration row s))"
  using assms
  by (auto simp: insert_integration_def integrations_ok_def integration_slugs_def integration_defaults_def)

lemma reads_keep [eff_keeps_intros]:
  "eff_keeps I (get_integration_by_slug a b)" "eff_keeps I (get_integration_by_id a b)"
  by (auto intro!: eff_keepsI simp: get_integration_by_slug_def get_integration_by_id_def
      split: option.splits)

lemma demote_keeps [eff_keeps_intros]: "eff_keeps integrations_ok (demote_current_default a b)"
  unfolding demote_current_default_def by (intro eff_keeps_intros update_integrations_keeps) simp

lemma demote_ids:
  "map i_id (db_integrations (snd (demote_current_default a b s))) = map i_id (db_integrations s)"
  by (simp add: demote_current_default_def update_integrations_def eff_simps Let_def)

lemma integration_patch_id [simp]:
  "i_id (integration_patch d body pr i) = i_id i" "i_project_id (integration_patch d body pr i) = i_project_id i"
  "i_provider (integration_patch d body pr i) = i_provider i"
  "i_deleted_at (integration_patch d body pr i) = i_deleted_at i"
  "i_is_default (integration_patch d body pr i) \<longleftrightarrow> pr \<or> i_is_default i"
  by (auto simp: integration_patch_def Let_def split: option.splits)

lemma insert_with_default_keeps:
  assumes "integrations_ok s" "k \<notin> i_id ` set (db_integrations s)"
  shows "integrations_ok (snd (insert_with_default k actor project body ref c m s))"
proof -
  have ins: "integrations_ok (snd (insert_integration (integration_row k actor project body ref d c m) t))"
    if "integrations_ok t" "map i_id (db_integrations t) = map i_id (db_integrations s)" for t d
    using that assms(2) by (intro insert_integration_keeps) (auto simp: integration_row_def simp flip: set_map)
  have dem: "integrations_ok (snd (demote_current_default a b s))" for a b
    using demote_keeps assms(1) by (simp add: eff_keeps_def)
  show ?thesis
    using assms(1) ins dem demote_ids [of "p_id project" "pf_name ref" s]
    by (auto simp: insert_with_default_def eff_simps Let_def split: prod.splits sum.splits)
      (metis snd_conv)+
qed

lemma create_integration_keeps:
  assumes "integrations_ok s" "k \<notin> i_id ` set (db_integrations s)"
  shows "integrations_ok (snd (create_integration catalog registry k actor project body s))"
proof -
  have "integrations_ok (snd (eff_tx (insert_with_default k actor project body ref c m) s))" for ref c m
    using assms(1) insert_with_default_keeps [OF assms, of actor project body ref c m]
    by (auto simp: eff_tx_run split: prod.splits sum.splits)
  then show ?thesis
    using assms(1)
    by (auto simp: create_integration_def eff_bind_run eff_run eff_catch_run Let_def split: sum.splits prod.splits)
      (metis snd_conv)+
qed

lemma delete_integration_keeps: "eff_keeps integrations_ok (delete_integration now project slug force)"
  unfolding delete_integration_def by (intro eff_keeps_intros update_integrations_keeps) simp_all

lemma update_integration_keeps: "eff_keeps integrations_ok (update_integration registry project slug body)"
  unfolding update_integration_def write_integration_def Let_def
  by (intro eff_keeps_intros update_integrations_keeps) simp_all

inductive integration_step :: "db \<Rightarrow> db \<Rightarrow> bool" where
  create: "k \<notin> i_id ` set (db_integrations s) \<Longrightarrow>
    integration_step s (snd (create_integration catalog registry k actor project body s))"
| delete: "integration_step s (snd (delete_integration now project slug force s))"
| update: "integration_step s (snd (update_integration registry project slug change s))"

lemma integration_step_ok: "integration_step s s' \<Longrightarrow> integrations_ok s \<Longrightarrow> integrations_ok s'"
  by (induction rule: integration_step.induct)
    (auto intro: create_integration_keeps delete_integration_keeps [unfolded eff_keeps_def, rule_format]
      update_integration_keeps [unfolded eff_keeps_def, rule_format])

text \<open>Whatever integrations are created, updated and deleted, ids stay unique, a slug names at most
  one live integration of its project, and a project has at most one live default per provider.\<close>

theorem integrations_unique:
  assumes "integration_step\<^sup>*\<^sup>* s s'" "integrations_ok s"
  shows "distinct (map i_id (db_integrations s')) \<and>
    distinct (integration_slugs (db_integrations s')) \<and>
    distinct (integration_defaults (db_integrations s'))"
proof -
  have "integrations_ok s'"
    using assms by (induction rule: rtranclp_induct) (auto intro: integration_step_ok)
  then show ?thesis by (simp add: integrations_ok_def)
qed

section \<open>The default of a provider\<close>

definition has_default :: "string \<Rightarrow> string \<Rightarrow> db \<Rightarrow> bool" where
  "has_default project_id provider s \<longleftrightarrow> (\<exists>i \<in> set (db_integrations s).
     i_project_id i = project_id \<and> i_provider i = provider \<and> i_is_default i \<and> live_integration i)"

lemma has_default_eq:
  "has_default a b s \<longleftrightarrow> (a, b) \<in> set (integration_defaults (db_integrations s))"
  by (force simp: has_default_def integration_defaults_def)

lemma demote_run:
  "demote_current_default a b s = (r, s') \<Longrightarrow>
   (r = Inr () \<and> db_integrations s' = update_where
      (\<lambda>i. i_project_id i = a \<and> i_provider i = b \<and> i_is_default i \<and> live_integration i)
      (\<lambda>i. i\<lparr> i_is_default := False \<rparr>) (db_integrations s)) \<or> s' = s"
  by (auto simp: demote_current_default_def update_integrations_def eff_simps Let_def split: if_splits)

lemma demote_mem:
  assumes "demote_current_default a b s = (r, s')" "i \<in> set (db_integrations s)"
    and "\<not> (i_project_id i = a \<and> i_provider i = b \<and> i_is_default i \<and> live_integration i)"
  shows "i \<in> set (db_integrations s')"
  using demote_run [OF assms(1)]
proof (elim disjE conjE)
  assume e: "db_integrations s' = update_where
      (\<lambda>i. i_project_id i = a \<and> i_provider i = b \<and> i_is_default i \<and> live_integration i)
      (\<lambda>i. i\<lparr> i_is_default := False \<rparr>) (db_integrations s)"
  show ?thesis
    unfolding e using update_where_mem [OF assms(2), of
      "\<lambda>i. i_project_id i = a \<and> i_provider i = b \<and> i_is_default i \<and> live_integration i"
      "\<lambda>i. i\<lparr> i_is_default := False \<rparr>"] assms(3) by (simp only: if_False)
qed (simp add: assms(2))

lemma demote_other:
  assumes "demote_current_default a b s = (r, s')" "has_default c d s" "(c, d) \<noteq> (a, b)"
  shows "has_default c d s'"
proof -
  from assms(2) obtain i where i: "i \<in> set (db_integrations s)" "i_project_id i = c" "i_provider i = d"
    "i_is_default i" "live_integration i" by (auto simp: has_default_def)
  then have "\<not> (i_project_id i = a \<and> i_provider i = b \<and> i_is_default i \<and> live_integration i)"
    using assms(3) by auto
  with i(1) have "i \<in> set (db_integrations s')" by (intro demote_mem [OF assms(1)])
  with i show ?thesis unfolding has_default_def by blast
qed

lemma insert_integration_run:
  "insert_integration row s = (Inr row', s') \<Longrightarrow> db_integrations s' = db_integrations s @ [row]"
  by (auto simp: insert_integration_def split: if_splits)

lemma insert_integration_default:
  assumes "insert_integration row s = (Inr row', s')"
  shows "has_default c d s' \<longleftrightarrow> has_default c d s \<or>
    (c = i_project_id row \<and> d = i_provider row \<and> i_is_default row \<and> live_integration row)"
  unfolding has_default_def insert_integration_run [OF assms] by auto

lemma insert_with_default_default:
  assumes "insert_with_default k actor project body ref c m s = (Inr row, s')" "has_default a b s"
  shows "has_default a b s'"
proof -
  let ?first = "\<forall>i \<in> set (db_integrations s).
    \<not> (i_project_id i = p_id project \<and> i_provider i = pf_name ref \<and> live_integration i)"
  let ?d = "ib_default body = Some True \<or> ?first"
  let ?row = "integration_row k actor project body ref ?d c m"
  obtain s1 where d: "(if ?d \<and> \<not> ?first then demote_current_default (p_id project) (pf_name ref)
      else eff_return ()) s = (Inr (), s1)" and ins: "insert_integration ?row s1 = (Inr row, s')"
    using assms(1) unfolding insert_with_default_def Let_def by (elim eff_bind_InrE) (auto simp: eff_run)
  show ?thesis
  proof (cases "?d \<and> \<not> ?first \<and> (a, b) = (p_id project, pf_name ref)")
    case True
    then show ?thesis
      using insert_integration_default [OF ins, of a b] by (auto simp: integration_row_def live_integration_def)
  next
    case False
    then have "has_default a b s1"
      using d assms(2) demote_other [of _ _ s "Inr ()" s1 a b] by (auto simp: eff_run split: if_splits)
    then show ?thesis using insert_integration_default [OF ins, of a b] by blast
  qed
qed

lemma create_integration_default:
  assumes "has_default a b s"
  shows "has_default a b (snd (create_integration catalog registry k actor project body s))"
proof -
  have "has_default a b (snd (eff_tx (insert_with_default k actor project body ref c m) s))" for ref c m
    using assms insert_with_default_default [of k actor project body ref c m s _ _ a b]
    by (cases "insert_with_default k actor project body ref c m s")
      (auto simp: eff_tx_run split: sum.splits)
  then show ?thesis
    using assms
    by (auto simp: create_integration_def eff_bind_run eff_run eff_catch_run Let_def split: sum.splits prod.splits)
      (metis snd_conv)+
qed

lemma update_integrations_run:
  "update_integrations p f s = (Inr rows, s') \<Longrightarrow>
   db_integrations s' = update_where p f (db_integrations s) \<and> rows = returning p f (db_integrations s)"
  by (auto simp: update_integrations_def Let_def split: if_splits)

lemma patched_default:
  assumes "update_integrations p (integration_patch d body pr) s = (Inr rows, s')" "has_default a b s"
  shows "has_default a b s'"
proof -
  from assms(2) obtain i where i: "i \<in> set (db_integrations s)" "i_project_id i = a" "i_provider i = b"
    "i_is_default i" "live_integration i" by (auto simp: has_default_def)
  let ?i = "if p i then integration_patch d body pr i else i"
  have "?i \<in> set (db_integrations s')"
    using update_where_mem [OF i(1), of p "integration_patch d body pr"] update_integrations_run [OF assms(1)]
    by simp
  moreover have "i_project_id ?i = a \<and> i_provider ?i = b \<and> i_is_default ?i \<and> live_integration ?i"
    using i by (simp add: live_integration_def)
  ultimately show ?thesis unfolding has_default_def by blast
qed

lemma promoted_default:
  assumes "update_integrations (\<lambda>i. i_id i = k \<and> i_project_id i = a) (integration_patch d body True) s =
      (Inr rows, s')"
    and "i \<in> set (db_integrations s)" "i_id i = k" "i_project_id i = a" "i_provider i = b" "live_integration i"
  shows "has_default a b s'"
proof -
  let ?i = "integration_patch d body True i"
  have "?i \<in> set (db_integrations s')"
    using update_where_mem [OF assms(2), of "\<lambda>i. i_id i = k \<and> i_project_id i = a" "integration_patch d body True"]
      update_integrations_run [OF assms(1)] assms(3,4) by simp
  moreover have "i_project_id ?i = a \<and> i_provider ?i = b \<and> i_is_default ?i \<and> live_integration ?i"
    using assms(3-) by (simp add: live_integration_def)
  ultimately show ?thesis unfolding has_default_def by blast
qed

lemma eff_bind_lift: "eff_bind (eff_lift r) f s = (case r of Inl e \<Rightarrow> (Inl e, s) | Inr x \<Rightarrow> f x s)"
  by (auto simp: eff_bind_run eff_run split: sum.splits)

lemma write_integration_default:
  assumes "write_integration d project body row pr s = (Inr updated, s')" "has_default a b s"
    and row: "row \<in> set (db_integrations s)" "i_project_id row = p_id project" "live_integration row"
    and pr: "pr \<Longrightarrow> \<not> i_is_default row"
  shows "has_default a b s'"
proof -
  from assms(1) [unfolded write_integration_def] obtain u s1 where
    dem0: "(if pr then demote_current_default (p_id project) (i_provider row) else eff_return ()) s = (Inr u, s1)"
    and rest: "eff_bind (update_integrations (\<lambda>i. i_id i = i_id row \<and> i_project_id i = p_id project)
         (integration_patch d body pr)) (\<lambda>rows.
       case first_row rows of None \<Rightarrow> eff_throw (IntegrationNotFound (i_id row))
       | Some updated \<Rightarrow> eff_return updated) s1 = (Inr updated, s')"
    by (rule eff_bind_InrE)
  from rest obtain rows s2 where
    upd: "update_integrations (\<lambda>i. i_id i = i_id row \<and> i_project_id i = p_id project)
      (integration_patch d body pr) s1 = (Inr rows, s2)"
    and s': "(case first_row rows of None \<Rightarrow> eff_throw (IntegrationNotFound (i_id row))
      | Some updated \<Rightarrow> eff_return updated) s2 = (Inr updated, s')"
    by (rule eff_bind_InrE)
  have dem: "(if pr then demote_current_default (p_id project) (i_provider row) else eff_return ()) s = (Inr (), s1)"
    using dem0 by (cases u) simp
  have s2: "s' = s2" using s' by (cases "first_row rows") (simp_all add: eff_run)
  show ?thesis
  proof (cases "pr \<and> (a, b) = (p_id project, i_provider row)")
    case True
    have "row \<in> set (db_integrations s1)"
      using dem True pr by (intro demote_mem [OF _ row(1), of "p_id project" "i_provider row" "Inr ()"]) simp_all
    from promoted_default [OF upd [unfolded eqTrueI [OF conjunct1 [OF True]]] this refl row(2) refl row(3)] True
    show ?thesis unfolding s2 by simp
  next
    case False
    have "has_default a b s1"
    proof (cases pr)
      case True
      with False have "(a, b) \<noteq> (p_id project, i_provider row)" by simp
      with True dem show ?thesis by (simp only: if_True) (rule demote_other [OF _ assms(2)])
    next
      case False
      with dem assms(2) show ?thesis by (simp add: eff_run)
    qed
    then show ?thesis unfolding s2 by (rule patched_default [OF upd])
  qed
qed

lemma update_integration_default:
  assumes "has_default a b s"
  shows "has_default a b (snd (update_integration registry project slug body s))"
proof (cases "update_integration registry project slug body s")
  case (Pair r s')
  show ?thesis
  proof (cases r)
    case (Inl e)
    with Pair assms show ?thesis by (auto simp: update_integration_def dest: eff_tx_InlD)
  next
    case (Inr updated)
    from Pair [unfolded Inr update_integration_def Let_def, THEN eff_tx_InrD] obtain row s0 where
      row: "get_integration_by_slug (p_id project) slug s = (Inr row, s0)"
      and step: "eff_bind (eff_lift (require_provider_definition registry (i_provider row))) (\<lambda>d.
       eff_bind (eff_lift (validate_at_ingest d (ub_credentials body) (ub_config body))) (\<lambda>_.
       if ub_name body = None \<and> ub_credentials body = None \<and> ub_config body = None \<and>
          \<not> (ub_default body = Some True \<and> \<not> i_is_default row)
       then eff_return row
       else write_integration d project body row (ub_default body = Some True \<and> \<not> i_is_default row)))
       s0 = (Inr updated, s')"
      by (rule eff_bind_InrE)
    from row have s0: "s0 = s" and inrow: "row \<in> set (db_integrations s)" "i_project_id row = p_id project"
        "live_integration row"
      by (auto simp: get_integration_by_slug_def dest!: find_Some_in split: option.splits)
    from step show ?thesis
      unfolding eff_bind_lift s0 Pair snd_conv
      using write_integration_default [OF _ assms inrow] assms
      by (auto simp: eff_run split: sum.splits if_splits)
  qed
qed

text \<open>Creating or updating an integration never leaves a provider without a default it had:
  promoting one demotes the other in the same transaction, which is rolled back when it fails.\<close>

theorem default_kept:
  assumes "has_default project_id provider s"
  shows "has_default project_id provider
      (snd (create_integration catalog registry k actor project body s)) \<and>
    has_default project_id provider (snd (update_integration registry project slug change s))"
  by (rule conjI [OF create_integration_default [OF assms] update_integration_default [OF assms]])

section \<open>Moving the default\<close>

definition default_of :: "string \<Rightarrow> string \<Rightarrow> integration \<Rightarrow> bool" where
  "default_of project_id provider i \<longleftrightarrow>
     i_project_id i = project_id \<and> i_provider i = provider \<and> i_is_default i \<and> live_integration i"

definition without_default :: "string \<Rightarrow> string \<Rightarrow> integration list \<Rightarrow> integration list" where
  "without_default project_id provider rows =
     map (\<lambda>i. if default_of project_id provider i then i\<lparr> i_is_default := False \<rparr> else i) rows"



lemma without_default_ids: "map i_id (without_default a b rows) = map i_id rows"
  by (simp add: without_default_def)




lemma same_integration:
  assumes "integrations_ok s" "i \<in> set (db_integrations s)" "j \<in> set (db_integrations s)" "i_id i = i_id j"
  shows "i = j"
  using assms unfolding integrations_ok_def distinct_map by (blast dest: inj_onD)

lemma other_default:
  assumes "integrations_ok s" "i \<in> set (db_integrations s)" "j \<in> set (db_integrations s)" "default_of a b i" "default_of a b j"
  shows "i = j"
proof -
  have "inj_on (\<lambda>i. (i_project_id i, i_provider i)) (set (filter (\<lambda>i. i_is_default i \<and> live_integration i) (db_integrations s)))"
    using assms(1) by (simp add: integrations_ok_def integration_defaults_def distinct_map)
  then show ?thesis by (rule inj_onD) (use assms in \<open>auto simp: default_of_def\<close>)
qed


lemma patch_slug [simp]: "i_slug (integration_patch d body pr i) = i_slug i"
  by (auto simp: integration_patch_def Let_def split: option.splits)









section \<open>Resolution and the view\<close>

text \<open>The integration a resource type resolves to is a live integration of the project for the
  provider that prefixes the type: the one with the given slug or, without one, the default. In a
  table that keeps its invariant there is no other. Resolving writes nothing.\<close>

theorem resolve_integration:
  assumes "get_integration_by_resource_type project_id ty slug s = (Inr row, s')" "integrations_ok s"
  shows "s' = s \<and> row \<in> set (db_integrations s) \<and> live_integration row \<and> i_project_id row = project_id \<and>
    provider_of_type ty = Some (i_provider row) \<and>
    (case truthy slug of Some k \<Rightarrow> i_slug row = k | None \<Rightarrow> i_is_default row) \<and>
    (\<forall>other \<in> set (db_integrations s). live_integration other \<and> i_project_id other = project_id \<and>
       i_provider other = i_provider row \<and>
       (case truthy slug of Some k \<Rightarrow> i_slug other = k | None \<Rightarrow> i_is_default other) \<longrightarrow> other = row)"
proof -
  have same: "i = j" if "distinct (map f (filter P xs))" "i \<in> set xs" "j \<in> set xs" "P i" "P j" "f i = f j"
    for f :: "integration \<Rightarrow> string \<times> string" and P xs i j
    using that unfolding distinct_map by (intro inj_onD [of f "set (filter P xs)"]) simp_all
  have slugs: "distinct (map (\<lambda>i. (i_project_id i, i_slug i)) (filter live_integration (db_integrations s)))"
    and defaults: "distinct (map (\<lambda>i. (i_project_id i, i_provider i))
      (filter (\<lambda>i. i_is_default i \<and> live_integration i) (db_integrations s)))"
    using assms(2) by (simp_all add: integrations_ok_def integration_slugs_def integration_defaults_def)
  obtain provider where p: "provider_of_type ty = Some provider"
    using assms(1) by (cases "provider_of_type ty")
      (simp_all add: get_integration_by_resource_type_def eff_run)
  show ?thesis
  proof (cases "truthy slug")
    case None
    with assms(1) p have "get_default_integration_by_provider project_id provider s = (Inr row, s')"
      by (simp add: get_integration_by_resource_type_def)
    then have r: "s' = s" "row \<in> set (db_integrations s)" "i_project_id row = project_id"
      "i_provider row = provider" "i_is_default row" "live_integration row"
      by (auto simp: get_default_integration_by_provider_def dest!: find_Some_in split: option.splits)
    have uniq: "\<forall>other \<in> set (db_integrations s). live_integration other \<and> i_project_id other = project_id \<and>
       i_provider other = i_provider row \<and> i_is_default other \<longrightarrow> other = row"
      by (intro ballI impI, rule same [OF defaults]) (use r in simp_all)
    show ?thesis unfolding None option.case by (intro conjI uniq) (simp_all add: p r)
  next
    case (Some k)
    with assms(1) p have "get_integration_by_slug project_id k s = (Inr row, s')" and "i_provider row = provider"
      by (auto simp: get_integration_by_resource_type_def eff_simps split: prod.splits sum.splits if_splits)
    then have r: "s' = s" "row \<in> set (db_integrations s)" "i_project_id row = project_id"
      "i_provider row = provider" "i_slug row = k" "live_integration row"
      by (auto simp: get_integration_by_slug_def dest!: find_Some_in split: option.splits)
    have uniq: "\<forall>other \<in> set (db_integrations s). live_integration other \<and> i_project_id other = project_id \<and>
       i_provider other = i_provider row \<and> i_slug other = k \<longrightarrow> other = row"
      by (intro ballI impI, rule same [OF slugs]) (use r in simp_all)
    show ?thesis unfolding Some option.case by (intro conjI uniq) (simp_all add: p r)
  qed
qed

text \<open>The view of an integration shows nothing of its credentials except the onboarding id its
  provider declares: two rows that agree on everything else and on that id have the same view.\<close>

theorem view_hides_credentials:
  assumes "onboarding_external_id (registry (i_provider row) (i_provider_source row)) (i_credentials row) =
    onboarding_external_id (registry (i_provider row) (i_provider_source row)) other"
  shows "get_integration_view registry (row\<lparr> i_credentials := other \<rparr>) = get_integration_view registry row"
  using assms by (simp add: get_integration_view_def Let_def)

section \<open>A small table\<close>

definition aws_catalog :: "catalog_entry list" where
  "aws_catalog = [\<lparr> ce_name = ''aws'', ce_source = ''hashicorp/aws'', ce_versions = [''6.44.0''] \<rparr>]"

definition aws_registry :: registry where
  "aws_registry name source = (if name = ''aws''
     then Some \<lparr> pd_name = ''aws'',
       pd_credentials_issues = Some (\<lambda>c. if map_of c ''source'' = None then Some ''source: Required'' else None),
       pd_config_issues = None, pd_summarize = Some (\<lambda>c. ''static''), pd_discriminator = Some ''source'',
       pd_external_id_field = Some ''external_id'' \<rparr>
     else None)"

definition sample_project :: project where
  "sample_project = \<lparr> p_id = ''p'', p_org_id = ''o'', p_slug = ''p'', p_approval_policy = [],
     p_scan_interval = ScanOff, p_last_scan_claimed_at = None, p_created_by = (SystemActor, ''o''),
     p_deleted_at = None \<rparr>"

definition sample_actor :: actor where
  "sample_actor = \<lparr> ac_type = UserActor, ac_id = ''u'', ac_org = ''o'', ac_channel = Some Browser \<rparr>"

definition integration_body :: "string \<Rightarrow> bool option \<Rightarrow> create_integration_body" where
  "integration_body slug d = \<lparr> ib_provider = ''aws'', ib_provider_source = None, ib_provider_version = None,
     ib_slug = slug, ib_name = None, ib_default = d,
     ib_credentials = Some [(''source'', JStr ''static''), (''secret_key'', JStr ''k''), (''external_id'', JStr ''e'')],
     ib_config = [] \<rparr>"

definition project_db :: db where
  "project_db = \<lparr> db_projects = [sample_project], db_integrations = [], db_resources = [], db_layouts = [],
     db_change_sets = [], db_items = [], db_dry_runs = [], db_operations = [], db_notes = [], db_runs = [] \<rparr>"

definition with_integration :: db where
  "with_integration = snd (create_integration aws_catalog aws_registry ''i1'' sample_actor sample_project
     (integration_body ''prod'' None) project_db)"

definition with_two :: db where
  "with_two = snd (create_integration aws_catalog aws_registry ''i2'' sample_actor sample_project
     (integration_body ''west'' (Some True)) with_integration)"

lemma integrations_unique_witness:
  "distinct (integration_defaults (db_integrations with_two)) \<and> length (db_integrations with_two) = 2"
proof -
  have 1: "integration_step project_db with_integration"
    unfolding with_integration_def by (rule integration_step.create) (simp add: project_db_def)
  have 2: "integration_step with_integration with_two"
    unfolding with_two_def by (rule integration_step.create) code_simp
  have "integrations_ok project_db" by code_simp
  from integrations_unique [OF _ this] 1 2 have "distinct (integration_defaults (db_integrations with_two))"
    by (meson rtranclp.rtrancl_into_rtrancl rtranclp.rtrancl_refl)
  moreover have "length (db_integrations with_two) = 2" by code_simp
  ultimately show ?thesis ..
qed

lemma default_kept_witness:
  "has_default ''p'' ''aws'' with_two"
proof -
  have "has_default ''p'' ''aws'' with_integration" by code_simp
  from default_kept [OF this] show ?thesis unfolding with_two_def by blast
qed

lemma resolve_integration_witness:
  "i_slug (projr (fst (get_integration_by_resource_type ''p'' ''aws_vpc'' None with_two))) = ''west'' \<and>
   i_is_default (projr (fst (get_integration_by_resource_type ''p'' ''aws_vpc'' None with_two)))"
proof -
  have ok: "integrations_ok with_two" by code_simp
  have run: "get_integration_by_resource_type ''p'' ''aws_vpc'' None with_two =
      (Inr (hd (tl (db_integrations with_two))), with_two)" by code_simp
  from resolve_integration [OF run ok] have "i_is_default (hd (tl (db_integrations with_two)))" by simp
  moreover have "i_slug (hd (tl (db_integrations with_two))) = ''west''" by code_simp
  ultimately show ?thesis by (simp add: run)
qed

lemma view_hides_credentials_witness:
  "get_integration_view aws_registry ((hd (db_integrations with_two))
     \<lparr> i_credentials := [(''source'', JStr ''static''), (''external_id'', JStr ''e'')] \<rparr>) =
   get_integration_view aws_registry (hd (db_integrations with_two))"
  by (rule view_hides_credentials) code_simp



end
