(* ===== verification/FieldTree.thy ===== *)
theory FieldTree
  imports Prelude JsValue
begin

text \<open>
  The field tree of a resource type, packages/provider/src/field-tree.ts: \<open>build_field_tree\<close> turns the
  schema a provider sends (packages/bridge-client/src/wire-lazy.ts) into the tree of addressable
  fields the rest of the system works on, and \<open>build_resource_reference_fields\<close> lists the handles a
  reference may point at. The type of an attribute stays the untyped value of the wire, a string or
  an array \<open>[kind, ...]\<close>.
\<close>

section \<open>The wire schema\<close>

datatype nesting_mode = NestSingle | NestList | NestSet | NestMap | NestGroup

record schema_attribute =
  sa_type :: jsval
  sa_description :: "string option"
  sa_required :: bool
  sa_optional :: bool
  sa_computed :: bool
  sa_sensitive :: bool
  sa_deprecation :: "string option"

datatype schema_block =
    SchemaBlock (sb_attributes: "(string \<times> schema_attribute) list") (sb_nested: "(string \<times> schema_nested) list")
      (sb_description: "string option") (sb_deprecated: bool) (sb_deprecation: "string option")
and schema_nested =
    SchemaNested (sn_mode: nesting_mode) (sn_block: schema_block) (sn_min: "int option") (sn_max: "int option")

section \<open>The tree\<close>

record field_name =
  fn_terraform :: string
  fn_path :: string

record attribute_facts =
  af_type :: jsval
  af_required :: bool
  af_optional :: bool
  af_computed :: bool
  af_sensitive :: bool
  af_description :: "string option"
  af_deprecation :: "string option"

record block_facts =
  bf_mode :: nesting_mode
  bf_min :: int
  bf_max :: "int option"
  bf_deprecated :: bool
  bf_description :: "string option"
  bf_deprecation :: "string option"

datatype field =
    AttributeField field_name attribute_facts "field list"
  | BlockField field_name block_facts "field list"

fun field_name_of :: "field \<Rightarrow> field_name" where
  "field_name_of (AttributeField n a cs) = n"
| "field_name_of (BlockField n b cs) = n"

fun field_children :: "field \<Rightarrow> field list" where
  "field_children (AttributeField n a cs) = cs"
| "field_children (BlockField n b cs) = cs"

record resource_type_schema =
  ts_version :: int
  ts_description :: "string option"
  ts_deprecation :: "string option"
  ts_deprecated :: bool
  ts_fields :: "field list"

lemma size_child [termination_simp]: "f \<in> set cs \<Longrightarrow> size f < Suc (size_list size cs)"
  by (induction cs) auto

section \<open>Building the tree\<close>

definition append_path :: "string \<Rightarrow> string \<Rightarrow> string" where
  "append_path prefix name = (if prefix = [] then name else prefix @ ''.'' @ name)"

text \<open>\<open>String.prototype.trim\<close>: the white space and line terminators below code unit 256.\<close>

definition js_space :: "char \<Rightarrow> bool" where
  "js_space c \<longleftrightarrow> of_char c \<in> ({9, 10, 11, 12, 13, 32, 160} :: nat set)"

definition js_trim :: "string \<Rightarrow> string" where
  "js_trim s = rev (dropWhile js_space (rev (dropWhile js_space s)))"

definition non_empty :: "string option \<Rightarrow> string option" where
  "non_empty v = (case v of None \<Rightarrow> None | Some s \<Rightarrow> if js_trim s = [] then None else Some (js_trim s))"

fun normalized_tf_type :: "jsval \<Rightarrow> jsval" where
  "normalized_tf_type (JStr s) = JStr s"
| "normalized_tf_type (JArr xs) = JArr xs"
| "normalized_tf_type _ = JStr ''unknown''"

fun object_shape :: "jsval \<Rightarrow> jsobj option" where
  "object_shape (JArr (JStr kind # shape # rest)) =
     (if kind = ''object'' then (case shape of JObj es \<Rightarrow> Some es | _ \<Rightarrow> None)
      else if kind \<in> {''list'', ''set'', ''map''} then object_shape shape
      else None)"
| "object_shape _ = None"

lemma object_shape_size:
  "object_shape ty = Some es \<Longrightarrow> size_list (size_prod (\<lambda>_. 0) size) es < size ty"
  by (induction ty rule: object_shape.induct) (auto split: if_splits jsval.splits)

lemma object_shape_entry [termination_simp]:
  "(name, ty) \<in> set es \<Longrightarrow> object_shape ty = Some es' \<Longrightarrow>
   size_list (size_prod (\<lambda>_. 0) size) es' < size_list (size_prod (\<lambda>_. 0) size) es"
  using object_shape_size [of ty es'] size_entry_less [of name ty es] by simp

function build_object_type_children :: "jsobj \<Rightarrow> string \<Rightarrow> bool \<Rightarrow> bool \<Rightarrow> field list" where
  "build_object_type_children es prefix computed sensitive =
     map (\<lambda>(name, ty).
         AttributeField \<lparr> fn_terraform = name, fn_path = append_path prefix name \<rparr>
           \<lparr> af_type = normalized_tf_type ty, af_required = False, af_optional = True,
             af_computed = computed, af_sensitive = sensitive, af_description = None,
             af_deprecation = None \<rparr>
           (case object_shape ty of None \<Rightarrow> []
            | Some es' \<Rightarrow> build_object_type_children es' (append_path prefix name) computed sensitive)) es"
  by pat_completeness auto
termination
  by (relation "measure (\<lambda>(es, prefix, c, s). size_list (size_prod (\<lambda>_. 0) size) es)")
    (auto simp: object_shape_entry)

declare build_object_type_children.simps [simp del]

definition build_attribute_node :: "string \<Rightarrow> schema_attribute \<Rightarrow> string \<Rightarrow> field" where
  "build_attribute_node name attr prefix =
     (let path = append_path prefix name; ty = normalized_tf_type (sa_type attr)
      in AttributeField \<lparr> fn_terraform = name, fn_path = path \<rparr>
           \<lparr> af_type = ty, af_required = sa_required attr, af_optional = sa_optional attr,
             af_computed = sa_computed attr, af_sensitive = sa_sensitive attr,
             af_description = non_empty (sa_description attr),
             af_deprecation = non_empty (sa_deprecation attr) \<rparr>
           (case object_shape ty of None \<Rightarrow> []
            | Some es \<Rightarrow> build_object_type_children es path (sa_computed attr) (sa_sensitive attr)))"

fun build_block_fields :: "schema_block \<Rightarrow> string \<Rightarrow> field list"
  and build_nested_block_node :: "string \<Rightarrow> schema_nested \<Rightarrow> string \<Rightarrow> field" where
  "build_block_fields (SchemaBlock attributes nested d dep msg) prefix =
     map (\<lambda>(name, attr). build_attribute_node name attr prefix) attributes @
     map (\<lambda>(name, n). build_nested_block_node name n prefix) nested"
| "build_nested_block_node name (SchemaNested mode block mn mx) prefix =
     BlockField \<lparr> fn_terraform = name, fn_path = append_path prefix name \<rparr>
       \<lparr> bf_mode = mode, bf_min = (case mn of None \<Rightarrow> 0 | Some n \<Rightarrow> n), bf_max = mx,
         bf_deprecated = (sb_deprecated block \<or> non_empty (sb_deprecation block) \<noteq> None),
         bf_description = non_empty (sb_description block),
         bf_deprecation = non_empty (sb_deprecation block) \<rparr>
       (build_block_fields block (append_path prefix name))"

definition build_field_tree :: "int \<Rightarrow> schema_block option \<Rightarrow> resource_type_schema" where
  "build_field_tree version block =
     (let msg = (case block of None \<Rightarrow> None | Some b \<Rightarrow> non_empty (sb_deprecation b))
      in \<lparr> ts_version = version,
           ts_description = (case block of None \<Rightarrow> None | Some b \<Rightarrow> non_empty (sb_description b)),
           ts_deprecation = msg,
           ts_deprecated = ((case block of None \<Rightarrow> False | Some b \<Rightarrow> sb_deprecated b) \<or> msg \<noteq> None),
           ts_fields = (case block of None \<Rightarrow> [] | Some b \<Rightarrow> build_block_fields b []) \<rparr>)"

section \<open>Reading the tree\<close>

definition nesting_mode_cty :: "nesting_mode \<Rightarrow> jsval" where
  "nesting_mode_cty mode =
     (let inner = JArr [JStr ''object'', JObj []] in
      case mode of NestList \<Rightarrow> JArr [JStr ''list'', inner] | NestSet \<Rightarrow> JArr [JStr ''set'', inner]
      | NestMap \<Rightarrow> JArr [JStr ''map'', inner] | _ \<Rightarrow> inner)"

fun field_cty_type :: "field \<Rightarrow> jsval" where
  "field_cty_type (AttributeField n a cs) = af_type a"
| "field_cty_type (BlockField n b cs) = nesting_mode_cty (bf_mode b)"

record field_facts =
  ff_required :: bool
  ff_optional :: bool
  ff_computed :: bool
  ff_sensitive :: bool
  ff_deprecated :: bool

fun field_facts_of :: "field \<Rightarrow> field_facts" where
  "field_facts_of (BlockField n b cs) =
     \<lparr> ff_required = bf_min b > 0, ff_optional = bf_min b = 0, ff_computed = False,
       ff_sensitive = False, ff_deprecated = bf_deprecated b \<rparr>"
| "field_facts_of (AttributeField n a cs) =
     \<lparr> ff_required = af_required a, ff_optional = af_optional a, ff_computed = af_computed a,
       ff_sensitive = af_sensitive a, ff_deprecated = (case af_deprecation a of None \<Rightarrow> False | Some m \<Rightarrow> m \<noteq> []) \<rparr>"

fun is_object_type :: "jsval \<Rightarrow> bool" where
  "is_object_type (JArr (JStr kind # rest)) \<longleftrightarrow> kind = ''object''"
| "is_object_type _ \<longleftrightarrow> False"

fun reference_field_paths :: "field \<Rightarrow> string list" where
  "reference_field_paths (BlockField n b cs) =
     (if bf_mode b \<in> {NestSingle, NestGroup} \<or> (bf_mode b \<in> {NestList, NestSet} \<and> bf_max b = Some 1)
      then concat (map reference_field_paths cs) else [fn_path n])"
| "reference_field_paths (AttributeField n a cs) =
     (if af_sensitive a then []
      else if is_object_type (af_type a) then concat (map reference_field_paths cs)
      else [fn_path n])"

definition build_resource_reference_fields :: "field list \<Rightarrow> string list" where
  "build_resource_reference_fields tree = set_of_list (concat (map reference_field_paths tree))"

fun flatten_field :: "field \<Rightarrow> field list" where
  "flatten_field (AttributeField n a cs) = AttributeField n a cs # concat (map flatten_field cs)"
| "flatten_field (BlockField n b cs) = BlockField n b cs # concat (map flatten_field cs)"

definition flatten_resource_field_tree :: "field list \<Rightarrow> field list" where
  "flatten_resource_field_tree tree = concat (map flatten_field tree)"

section \<open>Paths and sensitivity\<close>

text \<open>In a well-formed tree the path of a field is the walk of names from the root, and everything
  below a sensitive attribute is sensitive.\<close>

fun field_sensitive :: "field \<Rightarrow> bool" where
  "field_sensitive (AttributeField n a cs) = af_sensitive a"
| "field_sensitive (BlockField n b cs) = False"

definition field_path :: "field \<Rightarrow> string" where
  "field_path f = fn_path (field_name_of f)"

fun well_pathed :: "string \<Rightarrow> field \<Rightarrow> bool" where
  "well_pathed prefix (AttributeField n a cs) \<longleftrightarrow>
     fn_path n = append_path prefix (fn_terraform n) \<and>
     (\<forall>c \<in> set cs. well_pathed (fn_path n) c \<and> (af_sensitive a \<longrightarrow> field_sensitive c))"
| "well_pathed prefix (BlockField n b cs) \<longleftrightarrow>
     fn_path n = append_path prefix (fn_terraform n) \<and> (\<forall>c \<in> set cs. well_pathed (fn_path n) c)"

lemma object_children_well_pathed:
  "f \<in> set (build_object_type_children es prefix c sens) \<Longrightarrow>
   well_pathed prefix f \<and> (sens \<longrightarrow> field_sensitive f)"
proof (induction es prefix c sens arbitrary: f rule: build_object_type_children.induct)
  case (1 es prefix c sens)
  from "1.prems" obtain name ty where e: "(name, ty) \<in> set es" and f: "f =
      AttributeField \<lparr> fn_terraform = name, fn_path = append_path prefix name \<rparr>
        \<lparr> af_type = normalized_tf_type ty, af_required = False, af_optional = True,
          af_computed = c, af_sensitive = sens, af_description = None, af_deprecation = None \<rparr>
        (case object_shape ty of None \<Rightarrow> []
         | Some es' \<Rightarrow> build_object_type_children es' (append_path prefix name) c sens)"
    by (subst (asm) build_object_type_children.simps) auto
  show ?case
  proof (cases "object_shape ty")
    case None
    then show ?thesis by (simp add: f)
  next
    case (Some es')
    with "1.IH" [OF e refl Some] show ?thesis by (simp add: f)
  qed
qed

lemma attribute_node_well_pathed: "well_pathed prefix (build_attribute_node name attr prefix)"
  using object_children_well_pathed
  by (auto simp: build_attribute_node_def Let_def split: option.splits)

lemma block_fields_well_pathed:
  "\<forall>f \<in> set (build_block_fields block prefix). well_pathed prefix f"
  "well_pathed prefix (build_nested_block_node name nested prefix)"
  by (induction block prefix and name nested prefix rule: build_block_fields_build_nested_block_node.induct)
    (auto simp: attribute_node_well_pathed)

lemma flatten_self: "f \<in> set (flatten_field f)"
  by (cases f) simp_all

lemma reference_paths_children:
  assumes "\<And>c path. c \<in> set cs \<Longrightarrow> path \<in> set (reference_field_paths c) \<Longrightarrow>
      \<exists>g \<in> set (flatten_field c). field_path g = path \<and> \<not> field_sensitive g"
    and "path \<in> set (concat (map reference_field_paths cs))"
  shows "\<exists>g \<in> set (concat (map flatten_field cs)). field_path g = path \<and> \<not> field_sensitive g"
proof -
  from assms(2) obtain c where c: "c \<in> set cs" "path \<in> set (reference_field_paths c)" by auto
  from assms(1) [OF this] obtain g where "g \<in> set (flatten_field c)" "field_path g = path" "\<not> field_sensitive g"
    by blast
  with c(1) show ?thesis by (intro bexI [of _ g]) auto
qed

lemma reference_paths_visible:
  "path \<in> set (reference_field_paths f) \<Longrightarrow>
   \<exists>g \<in> set (flatten_field f). field_path g = path \<and> \<not> field_sensitive g"
proof (induction f arbitrary: path)
  case (AttributeField n a cs)
  show ?case
  proof (cases "is_object_type (af_type a)")
    case True
    with AttributeField.prems have "path \<in> set (concat (map reference_field_paths cs))"
      by (simp split: if_splits)
    with reference_paths_children [OF AttributeField.IH] show ?thesis by fastforce
  next
    case False
    with AttributeField.prems show ?thesis by (auto simp: field_path_def split: if_splits)
  qed
next
  case (BlockField n b cs)
  show ?case
  proof (cases "bf_mode b \<in> {NestSingle, NestGroup} \<or> (bf_mode b \<in> {NestList, NestSet} \<and> bf_max b = Some 1)")
    case True
    with BlockField.prems have "path \<in> set (concat (map reference_field_paths cs))"
      by (simp only: reference_field_paths.simps if_True)
    with reference_paths_children [OF BlockField.IH] show ?thesis by fastforce
  next
    case False
    with BlockField.prems have "path = fn_path n" by (simp only: reference_field_paths.simps if_False) simp
    then show ?thesis by (simp add: field_path_def)
  qed
qed

lemma flatten_well_pathed:
  "well_pathed prefix f \<Longrightarrow> g \<in> set (flatten_field f) \<Longrightarrow> \<exists>q. well_pathed q g"
proof (induction f arbitrary: prefix)
  case (AttributeField n a cs)
  then show ?case by (cases "g = AttributeField n a cs") (blast, fastforce)
next
  case (BlockField n b cs)
  then show ?case by (cases "g = BlockField n b cs") (blast, fastforce)
qed

text \<open>A sensitive attribute of a well-formed tree offers no handle, and neither does anything below it.\<close>

lemma sensitive_no_handles: "well_pathed prefix f \<Longrightarrow> field_sensitive f \<Longrightarrow> g \<in> set (flatten_field f) \<Longrightarrow>
    reference_field_paths g = []"
proof (induction f arbitrary: prefix)
  case (AttributeField n a cs)
  show ?case
  proof (cases "g = AttributeField n a cs")
    case True
    with AttributeField.prems(2) show ?thesis by simp
  next
    case False
    with AttributeField.prems(3) obtain c where c: "c \<in> set cs" "g \<in> set (flatten_field c)" by auto
    then have "well_pathed (fn_path n) c" "field_sensitive c"
      using AttributeField.prems(1,2) unfolding well_pathed.simps field_sensitive.simps by blast+
    then show ?thesis by (rule AttributeField.IH [OF c(1) _ _ c(2)])
  qed
next
  case (BlockField n b cs)
  then show ?case by simp
qed

text \<open>In the tree built from a provider's schema every field's path is the dotted walk of names
  to it; every handle offered to references is the path of a field of the tree that is not
  sensitive, and no field at or under a sensitive one offers any; handles are listed once.\<close>

theorem reference_handles_visible:
  "let tree = ts_fields (build_field_tree version block);
       handles = build_resource_reference_fields tree
   in (\<forall>f \<in> set tree. well_pathed [] f) \<and> distinct handles \<and>
      (\<forall>path \<in> set handles. \<exists>f \<in> set (flatten_resource_field_tree tree).
         field_path f = path \<and> \<not> field_sensitive f) \<and>
      (\<forall>f \<in> set (flatten_resource_field_tree tree). field_sensitive f \<longrightarrow>
         (\<forall>g \<in> set (flatten_field f). reference_field_paths g = []))"
proof -
  let ?tree = "ts_fields (build_field_tree version block)"
  have wp: "well_pathed [] f" if "f \<in> set ?tree" for f
    using that block_fields_well_pathed(1) by (auto simp: build_field_tree_def Let_def split: option.splits)
  have vis: "\<exists>f \<in> set (flatten_resource_field_tree ?tree). field_path f = path \<and> \<not> field_sensitive f"
    if "path \<in> set (build_resource_reference_fields ?tree)" for path
    using that reference_paths_children [of ?tree path] reference_paths_visible
    by (simp add: build_resource_reference_fields_def flatten_resource_field_tree_def)
  have sens: "reference_field_paths g = []"
    if "f \<in> set (flatten_resource_field_tree ?tree)" "field_sensitive f" "g \<in> set (flatten_field f)" for f g
  proof -
    from that(1) obtain r where "r \<in> set ?tree" "f \<in> set (flatten_field r)"
      by (auto simp: flatten_resource_field_tree_def)
    then obtain q where "well_pathed q f" using wp flatten_well_pathed by blast
    then show ?thesis by (rule sensitive_no_handles [OF _ that(2,3)])
  qed
  have "distinct (build_resource_reference_fields ?tree)" by (simp add: build_resource_reference_fields_def)
  with wp vis sens show ?thesis unfolding Let_def by blast
qed

definition sample_schema :: schema_block where
  "sample_schema = SchemaBlock
     [(''id'', \<lparr> sa_type = JStr ''string'', sa_description = None, sa_required = False, sa_optional = False,
         sa_computed = True, sa_sensitive = False, sa_deprecation = None \<rparr>),
      (''login'', \<lparr> sa_type = JArr [JStr ''object'', JObj [(''password'', JStr ''string'')]],
         sa_description = None, sa_required = True, sa_optional = False, sa_computed = False,
         sa_sensitive = True, sa_deprecation = None \<rparr>)]
     [(''root'', SchemaNested NestList (SchemaBlock
         [(''size'', \<lparr> sa_type = JStr ''number'', sa_description = None, sa_required = False,
             sa_optional = True, sa_computed = False, sa_sensitive = False, sa_deprecation = None \<rparr>)]
         [] None False None) None (Some 1))] None False None"

lemma reference_handles_visible_witness:
  "\<exists>f \<in> set (flatten_resource_field_tree (ts_fields (build_field_tree 1 (Some sample_schema)))).
     field_path f = ''root.size'' \<and> \<not> field_sensitive f"
proof -
  have "set (build_resource_reference_fields (ts_fields (build_field_tree 1 (Some sample_schema)))) =
      {''id'', ''root.size''}" by code_simp
  with reference_handles_visible [of 1 "Some sample_schema"] show ?thesis unfolding Let_def by blast
qed

end
