(* ===== verification/ResourceState.thy ===== *)
theory ResourceState
  imports FieldTree Operations
begin

text \<open>
  Deep equality of JSON values that takes absent, null and empty values for the same
  (apps/api/src/lib/json.ts), and what a read of the cloud does to a resource row
  (apps/api/src/resources/state.ts): the declared inputs are refreshed from the state the provider
  read, along the schema's fields when there is a schema and along the shape of the stored inputs
  otherwise, and a patch results unless nothing changed.
\<close>

section \<open>JSON equality (lib/json.ts)\<close>

definition is_plain_object :: "jsval \<Rightarrow> bool" where
  "is_plain_object v \<longleftrightarrow> is_object v \<and> \<not> is_array v"

fun json_empty :: "jsval \<Rightarrow> bool" where \<comment> \<open>\<open>isEmpty\<close>; a prototype object has no own enumerable key\<close>
  "json_empty JUndef = True"
| "json_empty JNull = True"
| "json_empty (JArr xs) = (xs = [])"
| "json_empty (JObj es) = (es = [])"
| "json_empty (JProto p) = True"
| "json_empty _ = False"

lemma json_depth_get_prop: "json_depth (get_prop (JObj es) k) < json_depth (JObj es)"
proof (cases "map_of es k")
  case None
  then show ?thesis by (simp add: object_inherited_def)
next
  case (Some v)
  then have "(k, v) \<in> set es" by (rule map_of_SomeD)
  then have "json_depth v \<in> set (map (\<lambda>e. json_depth (snd e)) es)" by force
  with Some show ?thesis by (auto simp: less_Suc_eq_le intro: Max_ge)
qed

lemma json_depth_zip:
  "(x, y) \<in> set (zip xs ys) \<Longrightarrow> json_depth x < json_depth (JArr xs)"
  "(x, y) \<in> set (zip xs ys) \<Longrightarrow> json_depth y < json_depth (JArr ys)"
  by (auto intro: json_depth_elem dest: set_zip_leftD set_zip_rightD simp del: json_depth.simps)

function json_value_equal :: "jsval \<Rightarrow> jsval \<Rightarrow> bool" where
  "json_value_equal a b \<longleftrightarrow>
     (if a = b then True
      else if json_empty a \<and> json_empty b then True
      else if json_empty a \<or> json_empty b then False
      else case (a, b) of
        (JArr xs, JArr ys) \<Rightarrow> length xs = length ys \<and> (\<forall>(x, y) \<in> set (zip xs ys). json_value_equal x y)
      | (JObj es, JObj fs) \<Rightarrow> (\<forall>k \<in> set (map fst es @ map fst fs).
          json_value_equal (get_prop (JObj es) k) (get_prop (JObj fs) k))
      | _ \<Rightarrow> False)"
  by pat_completeness auto
termination
  by (relation "measure (\<lambda>(a, b). json_depth a + json_depth b)")
    (auto simp del: json_depth.simps get_prop.simps intro: json_depth_zip
      intro!: add_less_mono json_depth_get_prop)

declare json_value_equal.simps [simp del]

section \<open>What the equality means\<close>

text \<open>A reference: values are equal when they have the same normal form, in which every empty value is
  one and the empty fields of an object are dropped.\<close>

datatype njson = NEmpty | NPrim jsval | NArr "njson list" | NObj "string \<Rightarrow> njson option"

lemma map_of_size [termination_simp]:
  "map_of es k = Some v \<Longrightarrow> size v < Suc (size_list (\<lambda>x. Suc (size (snd x))) es)"
  by (induction es) (auto split: if_splits)

fun json_norm :: "jsval \<Rightarrow> njson" where
  "json_norm JUndef = NEmpty"
| "json_norm JNull = NEmpty"
| "json_norm (JArr xs) = (if xs = [] then NEmpty else NArr (map json_norm xs))"
| "json_norm (JObj es) = (if es = [] then NEmpty else NObj (\<lambda>k.
     case map_of es k of None \<Rightarrow> None
     | Some v \<Rightarrow> if json_norm v = NEmpty then None else Some (json_norm v)))"
| "json_norm (JProto p) = NEmpty"
| "json_norm v = NPrim v"

lemma json_norm_empty: "json_norm v = NEmpty \<longleftrightarrow> json_empty v"
  by (cases v) auto

definition norm_field :: "jsobj \<Rightarrow> string \<Rightarrow> njson" where
  "norm_field es k = (case map_of es k of None \<Rightarrow> NEmpty | Some v \<Rightarrow> json_norm v)"

lemma json_norm_obj:
  assumes "es \<noteq> []" "fs \<noteq> []"
  shows "json_norm (JObj es) = json_norm (JObj fs) \<longleftrightarrow> (\<forall>k. norm_field es k = norm_field fs k)"
proof -
  have n: "json_norm (JObj gs) = NObj (\<lambda>k. if norm_field gs k = NEmpty then None else Some (norm_field gs k))"
    if "gs \<noteq> []" for gs
    using that by (auto simp: norm_field_def fun_eq_iff split: option.splits)
  have same: "(if a = NEmpty then None else Some a) = (if b = NEmpty then None else Some b) \<longleftrightarrow> a = b" for a b
    by auto
  show ?thesis unfolding n [OF assms(1)] n [OF assms(2)] njson.inject fun_eq_iff same ..
qed

lemma norm_field_get_prop:
  assumes "plain_keys (JObj fs)" "k \<in> set (map fst es @ map fst fs)" "plain_keys (JObj es)"
  shows "norm_field es k = json_norm (get_prop (JObj es) k)"
proof (cases "map_of es k")
  case None
  have "\<not> inherited_name k" using assms by auto
  with None show ?thesis by (simp add: norm_field_def object_inherited_plain)
qed (simp add: norm_field_def)

lemma json_norm_prim:
  assumes "\<not> json_empty a" "\<not> is_object a" "a \<noteq> b"
  shows "json_norm a \<noteq> json_norm b"
  using assms by (cases a; cases b) (auto split: if_splits)

lemma map_eq_zip:
  "map f xs = map f ys \<longleftrightarrow> length xs = length ys \<and> (\<forall>(x, y) \<in> set (zip xs ys). f x = f y)"
proof -
  have "map f xs = map f ys \<longleftrightarrow> list_all2 (\<lambda>x y. f x = f y) xs ys"
    by (simp add: list.rel_eq [symmetric] list.rel_map)
  then show ?thesis by (simp add: list_all2_iff)
qed

lemma get_prop_plain:
  assumes "is_json (JObj es)" "plain_keys (JObj es)" "\<not> inherited_name k"
  shows "is_json (get_prop (JObj es) k) \<or> get_prop (JObj es) k = JUndef" "plain_keys (get_prop (JObj es) k)"
  using assms by (auto simp: object_inherited_plain split: option.splits dest!: map_of_SomeD)

lemma json_value_equal_norm:
  "is_json a \<or> a = JUndef \<Longrightarrow> is_json b \<or> b = JUndef \<Longrightarrow> plain_keys a \<Longrightarrow> plain_keys b \<Longrightarrow>
   json_value_equal a b \<longleftrightarrow> json_norm a = json_norm b"
proof (induction a b rule: json_value_equal.induct)
  case (1 a b)
  show ?case
  proof (cases "a = b \<or> json_empty a \<or> json_empty b")
    case True
    then show ?thesis
      by (subst json_value_equal.simps) (metis json_norm_empty)
  next
    case False
    then have ne: "a \<noteq> b" "\<not> (json_empty a \<and> json_empty b)" "\<not> (json_empty a \<or> json_empty b)" by auto
    consider (arr) xs ys where "a = JArr xs" "b = JArr ys" | (obj) es fs where "a = JObj es" "b = JObj fs"
      | (other) "\<nexists>xs ys. a = JArr xs \<and> b = JArr ys" "\<nexists>es fs. a = JObj es \<and> b = JObj fs" by blast
    then show ?thesis
    proof cases
      case arr
      then have xy: "xs \<noteq> []" "ys \<noteq> []" using ne by auto
      have "json_value_equal x y \<longleftrightarrow> json_norm x = json_norm y" if "(x, y) \<in> set (zip xs ys)" for x y
        using "1.IH"(1) [OF ne _ arr that refl] "1.prems" arr set_zip_leftD [OF that] set_zip_rightD [OF that]
        by auto
      then have "(\<forall>(x, y) \<in> set (zip xs ys). json_value_equal x y) \<longleftrightarrow>
          (\<forall>(x, y) \<in> set (zip xs ys). json_norm x = json_norm y)" by blast
      then show ?thesis
        using ne xy by (subst json_value_equal.simps) (simp add: arr map_eq_zip)
    next
      case obj
      then have ef: "es \<noteq> []" "fs \<noteq> []" using ne by auto
      have j: "is_json (JObj es)" "is_json (JObj fs)" "plain_keys (JObj es)" "plain_keys (JObj fs)"
        using "1.prems" obj by auto
      let ?ks = "set (map fst es @ map fst fs)"
      have eq: "json_value_equal (get_prop (JObj es) k) (get_prop (JObj fs) k) \<longleftrightarrow>
          norm_field es k = norm_field fs k" if "k \<in> ?ks" for k
      proof -
        have "\<not> inherited_name k" using j that by auto
        then have "json_value_equal (get_prop (JObj es) k) (get_prop (JObj fs) k) \<longleftrightarrow>
            json_norm (get_prop (JObj es) k) = json_norm (get_prop (JObj fs) k)"
          by (intro "1.IH"(2) [OF ne _ obj that] get_prop_plain j) (simp add: obj)
        moreover have "k \<in> set (map fst fs @ map fst es)" using that by auto
        ultimately show ?thesis
          using norm_field_get_prop [OF j(4) that j(3)] norm_field_get_prop [OF j(3) _ j(4)] by simp
      qed
      have none: "norm_field es k = norm_field fs k" if "k \<notin> ?ks" for k
      proof -
        have "map_of es k = None" "map_of fs k = None" using that by (simp_all add: map_of_eq_None_iff)
        then show ?thesis by (simp add: norm_field_def)
      qed
      have "json_value_equal a b \<longleftrightarrow> (\<forall>k \<in> ?ks. json_value_equal (get_prop (JObj es) k) (get_prop (JObj fs) k))"
        using ne unfolding obj by (subst json_value_equal.simps) (simp del: get_prop.simps)
      also have "\<dots> \<longleftrightarrow> (\<forall>k. norm_field es k = norm_field fs k)" using eq none by blast
      also have "\<dots> \<longleftrightarrow> json_norm a = json_norm b" unfolding obj json_norm_obj [OF ef] ..
      finally show ?thesis .
    next
      case other
      have "json_norm a \<noteq> json_norm b" using ne other by (cases a; cases b) auto
      moreover have "\<not> json_value_equal a b"
        using ne other by (subst json_value_equal.simps) (cases a; cases b; simp)
      ultimately show ?thesis by simp
    qed
  qed
qed

text \<open>C9: the equality of JSON values whose keys do not name inherited properties is equality of
  normal forms; so it is an equivalence, blind to the order of fields and to empty ones.\<close>

theorem json_equality_normal_form:
  assumes "is_json a" "is_json b" "is_json c" "plain_keys a" "plain_keys b" "plain_keys c"
  shows "(json_value_equal a b \<longleftrightarrow> json_norm a = json_norm b) \<and> json_value_equal a a \<and>
    (json_value_equal a b \<longrightarrow> json_value_equal b a) \<and>
    (json_value_equal a b \<and> json_value_equal b c \<longrightarrow> json_value_equal a c)"
  using assms by (simp add: json_value_equal_norm)

lemma json_equality_normal_form_witness:
  "json_value_equal (JObj [(''a'', JNull), (''b'', JArr [JNum 1])]) (JObj [(''b'', JArr [JNum 1]), (''c'', JObj [])])"
proof -
  let ?a = "JObj [(''a'', JNull), (''b'', JArr [JNum 1])]" and ?b = "JObj [(''b'', JArr [JNum 1]), (''c'', JObj [])]"
  have "is_json ?a" "is_json ?b" "is_json JNull" "plain_keys ?a" "plain_keys ?b" "plain_keys JNull" by code_simp+
  from json_equality_normal_form [OF this] show ?thesis by (auto simp: fun_eq_iff)
qed

section \<open>Inputs from a state (resources/state.ts)\<close>

fun field_is_settable :: "field \<Rightarrow> bool" where
  "field_is_settable (BlockField n b cs) = True"
| "field_is_settable (AttributeField n a cs) = (af_required a \<or> af_optional a)"

definition get_collection_kind :: "attribute_facts \<Rightarrow> jsval" where
  "get_collection_kind a = (case af_type a of JArr xs \<Rightarrow> get_index xs 0 | _ \<Rightarrow> JNull)"

fun object_entries :: "jsval \<Rightarrow> jsobj" where \<comment> \<open>\<open>Object.entries\<close>\<close>
  "object_entries (JObj es) = es"
| "object_entries _ = []"

text \<open>The loop of \<open>getInputsBySchemaFields\<close> over the given reading of one field.\<close>

definition inputs_by :: "(field \<Rightarrow> jsval \<Rightarrow> jsval) \<Rightarrow> field list \<Rightarrow> jsval \<Rightarrow> jsval" where
  "inputs_by read tree state =
     (if \<not> is_plain_object state then JObj []
      else JObj (fold (\<lambda>f inputs.
        let name = fn_terraform (field_name_of f); v = read f (get_prop state name)
        in if v \<noteq> JUndef then put_prop name v inputs else inputs) tree []))"

lemma inputs_by_cong [fundef_cong]:
  assumes "tree = tree'" "state = state'" "\<And>f v. f \<in> set tree' \<Longrightarrow> read f v = read' f v"
  shows "inputs_by read tree state = inputs_by read' tree' state'"
  using assms unfolding inputs_by_def by (auto intro!: fold_cong simp: Let_def)

definition map_array :: "(jsval \<Rightarrow> jsval) \<Rightarrow> jsval \<Rightarrow> jsval" where
  "map_array g v = (case v of JArr xs \<Rightarrow> JArr (map g xs) | _ \<Rightarrow> JArr [])"

definition map_entries :: "(jsval \<Rightarrow> jsval) \<Rightarrow> jsval \<Rightarrow> jsval" where
  "map_entries g v = JObj (map (\<lambda>(k, x). (k, g x)) (object_entries v))"

lemma map_array_cong [fundef_cong]:
  "v = w \<Longrightarrow> (\<And>x. g x = h x) \<Longrightarrow> map_array g v = map_array h w"
  by (metis ext)

lemma map_entries_cong [fundef_cong]:
  "v = w \<Longrightarrow> (\<And>x. g x = h x) \<Longrightarrow> map_entries g v = map_entries h w"
  by (metis ext)

fun get_input_value_by_schema_field :: "field \<Rightarrow> jsval \<Rightarrow> jsval" where
  "get_input_value_by_schema_field (BlockField n b cs) v =
     (if v = JUndef then JUndef
      else if bf_mode b \<in> {NestList, NestSet}
      then (if is_array v then map_array (inputs_by get_input_value_by_schema_field cs) v else JUndef)
      else if bf_mode b = NestMap
      then (if is_plain_object v then map_entries (inputs_by get_input_value_by_schema_field cs) v else JUndef)
      else if is_plain_object v then inputs_by get_input_value_by_schema_field cs v else JUndef)"
| "get_input_value_by_schema_field (AttributeField n a cs) v =
     (if v = JUndef \<or> \<not> field_is_settable (AttributeField n a cs) then JUndef
      else if cs = [] then v
      else if get_collection_kind a \<in> {JStr ''list'', JStr ''set''}
      then (if is_array v then map_array (inputs_by get_input_value_by_schema_field cs) v else v)
      else if get_collection_kind a = JStr ''map''
      then (if is_plain_object v then map_entries (inputs_by get_input_value_by_schema_field cs) v else v)
      else if is_array v then map_array (inputs_by get_input_value_by_schema_field cs) v
      else if is_plain_object v then inputs_by get_input_value_by_schema_field cs v else v)"

definition get_inputs_by_schema_fields :: "field list \<Rightarrow> jsval \<Rightarrow> jsobj" where
  "get_inputs_by_schema_fields tree state =
     object_entries (inputs_by get_input_value_by_schema_field tree state)"

definition declared_step :: "jsobj \<Rightarrow> jsobj \<Rightarrow> field \<Rightarrow> jsobj \<Rightarrow> jsobj" where
  "declared_step inputs read f acc =
     (let name = fn_terraform (field_name_of f) in
      case map_of inputs name of
        None \<Rightarrow> acc
      | Some old \<Rightarrow>
          (let v = get_input_value_by_schema_field f (get_prop (JObj read) name) in
           if v \<noteq> JUndef then put_prop name v acc
           else if field_is_settable f then put_prop name old acc else acc))"

definition get_declared_inputs_from_read_state :: "field list \<Rightarrow> jsobj \<Rightarrow> jsobj \<Rightarrow> jsobj" where
  "get_declared_inputs_from_read_state tree inputs read = fold (declared_step inputs read) tree []"

text \<open>\<open>getReadStateForInputShape\<close>: the first element of an array is the template of all of them.\<close>

fun get_read_state_for_input_shape :: "jsval \<Rightarrow> jsval \<Rightarrow> jsval" where
  "get_read_state_for_input_shape (JArr xs) read =
     (if read = JUndef then JArr xs
      else case read of
        JArr rs \<Rightarrow> (case xs of [] \<Rightarrow> JArr xs
          | template # _ \<Rightarrow> if template = JUndef then JArr xs
              else JArr (map (get_read_state_for_input_shape template) rs))
      | _ \<Rightarrow> JArr xs)"
| "get_read_state_for_input_shape (JObj es) read =
     (if read = JUndef then JObj es
      else if \<not> is_plain_object read then JObj es
      else JObj (map (\<lambda>(k, v). (k, get_read_state_for_input_shape v
        (case map_of (object_entries read) k of None \<Rightarrow> JUndef | Some r \<Rightarrow> r))) es))"
| "get_read_state_for_input_shape v read = (if read = JUndef then v else read)"

definition get_resource_state_patch_after_read ::
  "resource \<Rightarrow> jsobj option \<Rightarrow> resource_type_schema option \<Rightarrow> resource_patch option" where
  "get_resource_state_patch_after_read r read schema =
     (case read of
        None \<Rightarrow> if r_status r = Missing then None else Some (PatchStatus Missing)
      | Some state \<Rightarrow>
          (let inputs = (case r_inputs r of
               Some inputs \<Rightarrow>
                 (case schema of
                    Some sch \<Rightarrow> get_declared_inputs_from_read_state (ts_fields sch) inputs state
                  | None \<Rightarrow> object_entries (get_read_state_for_input_shape (JObj inputs) (JObj state)))
             | None \<Rightarrow>
                 (case schema of
                    Some sch \<Rightarrow> get_inputs_by_schema_fields (ts_fields sch) (JObj state)
                  | None \<Rightarrow> object_entries (get_read_state_for_input_shape (JObj []) (JObj state))))
           in if r_status r = Live \<and>
                 json_value_equal (JObj inputs) (case r_inputs r of None \<Rightarrow> JNull | Some i \<Rightarrow> JObj i) \<and>
                 json_value_equal (JObj state) (case r_outputs r of None \<Rightarrow> JNull | Some o1 \<Rightarrow> JObj o1)
              then None
              else Some (PatchRead Live (Some inputs) (Some state))))"

section \<open>Collecting the fields of a tree\<close>

definition tf_name :: "field \<Rightarrow> string" where
  "tf_name f = fn_terraform (field_name_of f)"

definition collect :: "(field \<Rightarrow> jsval option) \<Rightarrow> field list \<Rightarrow> jsobj \<Rightarrow> jsobj" where
  "collect w tree acc =
     fold (\<lambda>f acc. case w f of None \<Rightarrow> acc | Some v \<Rightarrow> put_prop (tf_name f) v acc) tree acc"

lemma update_fresh: "k \<notin> fst ` set m \<Longrightarrow> AList.update k v m = m @ [(k, v)]"
  by (induction m) auto

lemma collect_list:
  assumes "distinct (map tf_name tree)" "\<forall>f \<in> set tree. tf_name f \<notin> fst ` set acc"
  shows "collect w tree acc = acc @ concat (map (\<lambda>f. case w f of None \<Rightarrow> []
    | Some v \<Rightarrow> if tf_name f = ''__proto__'' then [] else [(tf_name f, v)]) tree)"
  using assms
proof (induction tree arbitrary: acc)
  case Nil
  then show ?case by (simp add: collect_def)
next
  case (Cons f tree)
  let ?acc = "case w f of None \<Rightarrow> acc | Some v \<Rightarrow> put_prop (tf_name f) v acc"
  have new: "?acc = acc @ (case w f of None \<Rightarrow> []
      | Some v \<Rightarrow> if tf_name f = ''__proto__'' then [] else [(tf_name f, v)])"
    using Cons.prems(2) by (auto simp: put_prop_def update_fresh split: option.splits)
  have "collect w (f # tree) acc = collect w tree ?acc" by (simp add: collect_def)
  also have "\<dots> = ?acc @ concat (map (\<lambda>f. case w f of None \<Rightarrow> []
    | Some v \<Rightarrow> if tf_name f = ''__proto__'' then [] else [(tf_name f, v)]) tree)"
  proof (rule Cons.IH)
    show "distinct (map tf_name tree)" using Cons.prems(1) by simp
    show "\<forall>g \<in> set tree. tf_name g \<notin> fst ` set ?acc"
    proof
      fix g assume "g \<in> set tree"
      moreover have "tf_name f \<notin> tf_name ` set tree" using Cons.prems(1) by simp
      ultimately have "tf_name g \<noteq> tf_name f" by (metis imageI)
      moreover have "tf_name g \<notin> fst ` set acc" using Cons.prems(2) \<open>g \<in> set tree\<close> by simp
      ultimately show "tf_name g \<notin> fst ` set ?acc" unfolding new by (auto split: option.splits if_splits)
    qed
  qed
  finally show ?case unfolding new by simp
qed

lemma collect_map_of:
  assumes "distinct (map tf_name tree)" "f \<in> set tree" "tf_name f \<noteq> ''__proto__''"
  shows "map_of (collect w tree []) (tf_name f) = w f"
proof -
  have "map_of (concat (map (\<lambda>f. case w f of None \<Rightarrow> []
    | Some v \<Rightarrow> if tf_name f = ''__proto__'' then [] else [(tf_name f, v)]) tree)) (tf_name f) = w f"
    using assms
  proof (induction tree)
    case Nil
    then show ?case by simp
  next
    case (Cons g tree)
    show ?case
    proof (cases "f = g")
      case True
      have "map_of (concat (map (\<lambda>f. case w f of None \<Rightarrow> []
          | Some v \<Rightarrow> if tf_name f = ''__proto__'' then [] else [(tf_name f, v)]) tree)) (tf_name f) = None"
        using Cons.prems(1) True by (auto simp: map_of_eq_None_iff image_iff split: option.splits if_splits)
      with True Cons.prems show ?thesis by (auto split: option.splits)
    next
      case False
      then have "f \<in> set tree" "tf_name g \<notin> tf_name ` set tree" using Cons.prems(1,2) by simp_all
      then have "tf_name f \<noteq> tf_name g" by (metis imageI)
      with False Cons show ?thesis by (auto simp: map_add_def split: option.splits)
    qed
  qed
  then show ?thesis using collect_list [OF assms(1), of "[]"] by simp
qed

lemma collect_eq:
  assumes "\<And>f. f \<in> set tree \<Longrightarrow> tf_name f \<noteq> ''__proto__'' \<Longrightarrow> w f = w' f"
  shows "collect w tree acc = collect w' tree acc"
  using assms unfolding collect_def
proof (induction tree arbitrary: acc)
  case (Cons f tree)
  have "(case w f of None \<Rightarrow> acc | Some v \<Rightarrow> put_prop (tf_name f) v acc) =
      (case w' f of None \<Rightarrow> acc | Some v \<Rightarrow> put_prop (tf_name f) v acc)"
    using Cons.prems [of f] by (cases "tf_name f = ''__proto__''") (auto simp: put_prop_def split: option.splits)
  with Cons show ?case by simp
qed simp

text \<open>The value of a field in the inputs, from a read, and from the declared inputs and a read.\<close>

definition read_field :: "jsobj \<Rightarrow> field \<Rightarrow> jsval option" where
  "read_field state f =
     (let v = get_input_value_by_schema_field f (get_prop (JObj state) (tf_name f))
      in if v = JUndef then None else Some v)"

definition declared_field :: "jsobj \<Rightarrow> jsobj \<Rightarrow> field \<Rightarrow> jsval option" where
  "declared_field inputs state f =
     (case map_of inputs (tf_name f) of
        None \<Rightarrow> None
      | Some old \<Rightarrow> (case read_field state f of Some v \<Rightarrow> Some v
          | None \<Rightarrow> if field_is_settable f then Some old else None))"

lemma inputs_collect: "get_inputs_by_schema_fields tree (JObj state) = collect (read_field state) tree []"
  unfolding get_inputs_by_schema_fields_def inputs_by_def collect_def
  by (auto simp: is_plain_object_def Let_def read_field_def tf_name_def fun_eq_iff intro!: fold_cong
      simp del: get_prop.simps)

lemma declared_collect:
  "get_declared_inputs_from_read_state tree inputs state = collect (declared_field inputs state) tree []"
  unfolding get_declared_inputs_from_read_state_def collect_def
  by (rule fold_cong)
    (auto simp: declared_step_def declared_field_def read_field_def tf_name_def Let_def fun_eq_iff split: option.splits)

text \<open>Refreshing inputs that came from the same read changes nothing.\<close>

lemma declared_again:
  assumes "distinct (map tf_name tree)"
  shows "get_declared_inputs_from_read_state tree (get_declared_inputs_from_read_state tree inputs state) state =
    get_declared_inputs_from_read_state tree inputs state"
  unfolding declared_collect
proof (rule collect_eq)
  fix f assume f: "f \<in> set tree" "tf_name f \<noteq> ''__proto__''"
  show "declared_field (collect (declared_field inputs state) tree []) state f = declared_field inputs state f"
    using collect_map_of [OF assms f, of "declared_field inputs state"]
    by (auto simp: declared_field_def split: option.splits)
qed

lemma declared_after_seed:
  assumes "distinct (map tf_name tree)"
  shows "get_declared_inputs_from_read_state tree (get_inputs_by_schema_fields tree (JObj state)) state =
    get_inputs_by_schema_fields tree (JObj state)"
  unfolding declared_collect inputs_collect
proof (rule collect_eq)
  fix f assume f: "f \<in> set tree" "tf_name f \<noteq> ''__proto__''"
  show "declared_field (collect (read_field state) tree []) state f = read_field state f"
    using collect_map_of [OF assms f, of "read_field state"]
    by (auto simp: declared_field_def split: option.splits)
qed

section \<open>What a read does\<close>

lemma json_value_equal_refl [simp]: "json_value_equal a a"
  by (subst json_value_equal.simps) simp

lemma json_value_equal_field:
  assumes "json_value_equal (JObj es) (JObj fs)" "map_of es k = Some v" "map_of fs k = Some w"
  shows "json_value_equal v w"
proof (cases "es = fs")
  case True
  with assms(2,3) show ?thesis by simp
next
  case False
  have k: "k \<in> set (map fst es @ map fst fs)" using map_of_SomeD [OF assms(2)] by force
  have "es \<noteq> []" "fs \<noteq> []" using assms(2,3) by auto
  with False assms(1) have "\<forall>k \<in> set (map fst es @ map fst fs).
      json_value_equal (get_prop (JObj es) k) (get_prop (JObj fs) k)"
    by (subst (asm) json_value_equal.simps) (simp del: get_prop.simps)
  from bspec [OF this k] assms(2,3) show ?thesis by simp
qed

text \<open>C10: a read settles: when the provider's state and schema do not change, the read after one
  that patched the row changes nothing. (The names of a schema's fields are distinct.)\<close>

theorem read_settles:
  assumes "get_resource_state_patch_after_read r read (Some sch) = Some patch"
    and "distinct (map tf_name (ts_fields sch))"
  shows "get_resource_state_patch_after_read (patch_row patch r) read (Some sch) = None"
proof (cases read)
  case None
  with assms(1) show ?thesis
    by (auto simp: get_resource_state_patch_after_read_def split: if_splits)
next
  case (Some state)
  let ?inputs = "case r_inputs r of
      Some inputs \<Rightarrow> get_declared_inputs_from_read_state (ts_fields sch) inputs state
    | None \<Rightarrow> get_inputs_by_schema_fields (ts_fields sch) (JObj state)"
  have patch: "patch = PatchRead Live (Some ?inputs) (Some state)"
    using assms(1) Some by (auto simp: get_resource_state_patch_after_read_def Let_def split: if_splits option.splits)
  have "get_declared_inputs_from_read_state (ts_fields sch) ?inputs state = ?inputs"
    using declared_again [OF assms(2)] declared_after_seed [OF assms(2)] by (cases "r_inputs r") simp_all
  then show ?thesis
    unfolding patch by (simp add: get_resource_state_patch_after_read_def Let_def Some)
qed

definition string_field :: "string \<Rightarrow> field" where
  "string_field name = AttributeField \<lparr> fn_terraform = name, fn_path = name \<rparr>
     \<lparr> af_type = JStr ''string'', af_required = True, af_optional = False, af_computed = False,
       af_sensitive = False, af_description = None, af_deprecation = None \<rparr> []"

definition vpc_schema :: resource_type_schema where
  "vpc_schema = \<lparr> ts_version = 1, ts_description = None, ts_deprecation = None, ts_deprecated = False,
     ts_fields = [string_field ''cidr'', string_field ''vpc''] \<rparr>"

definition sample_resource :: "jsobj option \<Rightarrow> jsobj option \<Rightarrow> resource" where
  "sample_resource inputs outputs = \<lparr> r_id = ''r'', r_project_id = ''p'', r_slug = ''net'', r_type = ''aws_subnet'',
     r_inputs = inputs, r_identity = outputs, r_outputs = outputs, r_status = Live, r_provider = Some ''aws'',
     r_integration_id = Some ''i1'', r_depends_on = None, r_approval_policy = None, r_metadata = [],
     r_created_by = (UserActor, ''u''), r_created_at = 1, r_updated_at = 1, r_deleted_at = None \<rparr>"

lemma read_settles_witness:
  "\<exists>patch. get_resource_state_patch_after_read (sample_resource (Some [(''cidr'', JStr ''a'')]) None)
      (Some [(''cidr'', JStr ''b''), (''id'', JStr ''x'')]) (Some vpc_schema) = Some patch \<and>
    get_resource_state_patch_after_read (patch_row patch (sample_resource (Some [(''cidr'', JStr ''a'')]) None))
      (Some [(''cidr'', JStr ''b''), (''id'', JStr ''x'')]) (Some vpc_schema) = None"
proof -
  have d: "distinct (map tf_name (ts_fields vpc_schema))" by code_simp
  have p: "get_resource_state_patch_after_read (sample_resource (Some [(''cidr'', JStr ''a'')]) None)
      (Some [(''cidr'', JStr ''b''), (''id'', JStr ''x'')]) (Some vpc_schema) =
    Some (PatchRead Live (Some [(''cidr'', JStr ''b'')]) (Some [(''cidr'', JStr ''b''), (''id'', JStr ''x'')]))"
    by code_simp
  from read_settles [OF p d] p show ?thesis by blast
qed

text \<open>Without a schema (a scan whose provider has none for the type) a read need not settle: the
  first element of an array is the template of the others, so refreshing inputs whose first element
  came back with an empty list empties that list in every other element at the next read, although
  the cloud did not change.\<close>

theorem read_without_schema_unsettled:
  "\<exists>r state patch. get_resource_state_patch_after_read r (Some state) None = Some patch \<and>
     get_resource_state_patch_after_read (patch_row patch r) (Some state) None \<noteq> None"
proof -
  let ?rule = "\<lambda>ps. JObj [(''ports'', JArr (map JNum ps))]"
  let ?r = "sample_resource (Some [(''rules'', JArr [?rule [80], ?rule [80]])]) None"
  let ?state = "[(''rules'', JArr [?rule [], ?rule [443]])]"
  have "get_resource_state_patch_after_read ?r (Some ?state) None =
      Some (PatchRead Live (Some [(''rules'', JArr [?rule [], ?rule [443]])]) (Some ?state))"
    by code_simp
  moreover have "get_resource_state_patch_after_read
      (patch_row (PatchRead Live (Some [(''rules'', JArr [?rule [], ?rule [443]])]) (Some ?state)) ?r)
      (Some ?state) None \<noteq> None"
    by code_simp
  ultimately show ?thesis by blast
qed

text \<open>A read replaces a reference in the stored inputs by the literal the cloud has: after it
  the field no longer refers to the other resource, though nothing changed in the cloud.\<close>

theorem read_replaces_reference:
  assumes f: "f \<in> set (ts_fields sch)" "f = AttributeField n a []" "field_is_settable f"
      "fn_terraform n \<noteq> ''__proto__''"
    and d: "distinct (map tf_name (ts_fields sch))"
    and i: "r_inputs r = Some inputs" "map_of inputs (fn_terraform n) = Some (JObj [(''$ref'', JStr ref)])"
    and s: "map_of state (fn_terraform n) = Some (JStr literal)"
  shows "\<exists>inputs'. get_resource_state_patch_after_read r (Some state) (Some sch) =
      Some (PatchRead Live (Some inputs') (Some state)) \<and> map_of inputs' (fn_terraform n) = Some (JStr literal)"
proof -
  let ?inputs = "get_declared_inputs_from_read_state (ts_fields sch) inputs state"
  have name: "tf_name f = fn_terraform n" by (simp add: tf_name_def f(2))
  have "declared_field inputs state f = Some (JStr literal)"
    using f(3) i(2) s name unfolding f(2) by (auto simp: declared_field_def read_field_def Let_def tf_name_def)
  then have new: "map_of ?inputs (fn_terraform n) = Some (JStr literal)"
    unfolding declared_collect using collect_map_of [OF d f(1), of "declared_field inputs state"] f(4) name by simp
  have "\<not> json_value_equal (JStr literal) (JObj [(''$ref'', JStr ref)])"
    by (subst json_value_equal.simps) simp
  then have "\<not> json_value_equal (JObj ?inputs) (JObj inputs)"
    using json_value_equal_field [OF _ new i(2)] by blast
  then show ?thesis
    using new i(1) by (auto simp: get_resource_state_patch_after_read_def Let_def)
qed

lemma read_replaces_reference_witness:
  "\<exists>inputs'. get_resource_state_patch_after_read
      (sample_resource (Some [(''vpc'', JObj [(''$ref'', JStr ''net.id'')])]) (Some [(''vpc'', JStr ''vpc-1'')]))
      (Some [(''vpc'', JStr ''vpc-1'')]) (Some vpc_schema) =
      Some (PatchRead Live (Some inputs') (Some [(''vpc'', JStr ''vpc-1'')])) \<and>
    map_of inputs' ''vpc'' = Some (JStr ''vpc-1'')"
  using read_replaces_reference [of "string_field ''vpc''" vpc_schema _ _
      "sample_resource (Some [(''vpc'', JObj [(''$ref'', JStr ''net.id'')])]) (Some [(''vpc'', JStr ''vpc-1'')])"
      "[(''vpc'', JObj [(''$ref'', JStr ''net.id'')])]" "''net.id''" "[(''vpc'', JStr ''vpc-1'')]" "''vpc-1''"]
  by (simp add: string_field_def vpc_schema_def tf_name_def sample_resource_def)

end
