(* ===== verification/References.thy ===== *)
theory References
  imports Refs Operations
begin

text \<open>
  apps/api/src/resources/references.ts: the references a resource's inputs make, for the canvas
  (\<open>getResourceReferences\<close>, which skips malformed ones), and the substitution of references by the
  outputs the database holds (\<open>getReferenceTargetsBySlug\<close> feeds \<open>substituteRefs\<close> of Refs).
  \<open>resourceState\<close> and \<open>resourceSelector\<close> are zod's \<open>z.record(z.string(), z.unknown())\<close>: they accept an
  object and answer with its properties, and throw on anything else.
\<close>

section \<open>The references of a value\<close>

record resource_reference =
  rr_source_path :: string
  rr_target_slug :: string
  rr_target_path :: string

definition index_path :: "string \<Rightarrow> nat \<Rightarrow> string" where
  "index_path path i = path @ ''['' @ nat_str i @ '']''"

definition key_path :: "string \<Rightarrow> string \<Rightarrow> string" where
  "key_path path key = (if path = [] then key else path @ ''.'' @ key)"

definition parsed_reference :: "string \<Rightarrow> string \<Rightarrow> resource_reference list" where
  "parsed_reference path ref =
     (case parse_ref ref of
        Inl e \<Rightarrow> []
      | Inr p \<Rightarrow> [\<lparr> rr_source_path = path, rr_target_slug = pr_slug p, rr_target_path = pr_path p \<rparr>])"

lemma size_enumerate_less [termination_simp]:
  "(i, x) \<in> set (enumerate n xs) \<Longrightarrow> size x < Suc (size_list size xs)"
proof (induction xs arbitrary: n)
  case (Cons y xs)
  then show ?case using Cons.IH [of "Suc n"] by (cases "(i, x) \<in> set (enumerate (Suc n) xs)") auto
qed simp

fun get_resource_references :: "jsval \<Rightarrow> string \<Rightarrow> resource_reference list" where
  "get_resource_references (JArr xs) path =
     concat (map (\<lambda>(i, x). get_resource_references x (index_path path i)) (enumerate 0 xs))"
| "get_resource_references (JObj es) path =
     (case map_of es ''$ref'' of
        Some (JStr r) \<Rightarrow> parsed_reference path r
      | _ \<Rightarrow> concat (map (\<lambda>(k, v). get_resource_references v (key_path path k)) es))"
| "get_resource_references v path = []"

section \<open>Resolution against the database\<close>

definition resource_target :: "resource \<Rightarrow> ref_target" where
  "resource_target r =
     (if r_status r = Missing then TargetMissing
      else case r_outputs r of None \<Rightarrow> TargetNotReady | Some state \<Rightarrow> TargetOk state)"

definition get_reference_targets_by_slug ::
  "string \<Rightarrow> string list \<Rightarrow> (string \<times> ref_target) list svc" where
  "get_reference_targets_by_slug project_id slugs = eff_get (\<lambda>s.
     if slugs = [] then []
     else fold (\<lambda>r. AList.update (r_slug r) (resource_target r))
       (filter (\<lambda>r. r_project_id r = project_id \<and> r_slug r \<in> set slugs \<and> r_deleted_at r = None)
         (db_resources s)) [])"

definition get_value_with_resource_refs :: "jsval \<Rightarrow> string \<Rightarrow> jsval svc" where
  "get_value_with_resource_refs v project_id =
     eff_bind (eff_lift (extract_refs v)) (\<lambda>slugs.
       if slugs = [] then eff_return v
       else eff_bind (get_reference_targets_by_slug project_id slugs)
              (\<lambda>targets. eff_lift (substitute_refs v targets)))"

fun parse_record :: "jsval \<Rightarrow> js_error + jsobj" where
  "parse_record (JObj es) = Inr es"
| "parse_record v = Inl (PlainError ''Invalid input: expected record'')"

definition get_selector_with_resource_refs :: "jsval \<Rightarrow> string \<Rightarrow> jsobj svc" where
  "get_selector_with_resource_refs selector project_id =
     (if is_nullish selector then eff_return []
      else eff_bind (eff_lift (extract_refs selector)) (\<lambda>slugs.
        eff_bind
          (if slugs = [] then eff_return selector
           else eff_bind (get_reference_targets_by_slug project_id slugs)
                  (\<lambda>targets. eff_lift (substitute_refs selector targets)))
          (\<lambda>resolved. eff_lift (parse_record resolved))))"

section \<open>The listed references are the well-formed ones\<close>

definition well_formed_refs :: "string list \<Rightarrow> (string \<times> string) list" where
  "well_formed_refs rs =
     concat (map (\<lambda>r. case parse_ref r of Inl e \<Rightarrow> [] | Inr p \<Rightarrow> [(pr_slug p, pr_path p)]) rs)"

definition reference_target :: "resource_reference \<Rightarrow> string \<times> string" where
  "reference_target r = (rr_target_slug r, rr_target_path r)"

lemma well_formed_refs_simps [simp]:
  "well_formed_refs [] = []"
  "well_formed_refs (r # rs) =
     (case parse_ref r of Inl e \<Rightarrow> [] | Inr p \<Rightarrow> [(pr_slug p, pr_path p)]) @ well_formed_refs rs"
  "well_formed_refs (rs @ rs') = well_formed_refs rs @ well_formed_refs rs'"
  by (simp_all add: well_formed_refs_def)

lemma well_formed_refs_concat:
  "well_formed_refs (concat rss) = concat (map well_formed_refs rss)"
  by (induction rss) simp_all

lemma parsed_reference_target:
  "map reference_target (parsed_reference path r) = well_formed_refs [r]"
  by (simp add: parsed_reference_def reference_target_def split: sum.split)

lemma map_enumerate_snd: "map (\<lambda>(i, x). f x) (enumerate n xs) = map f xs"
  by (induction xs arbitrary: n) simp_all

lemma references_listed:
  "map reference_target (get_resource_references v path) = well_formed_refs (ref_strings v)"
proof (induction v arbitrary: path rule: jsval_induct)
  case (Arr xs)
  have "map reference_target (get_resource_references (JArr xs) path) =
      concat (map (\<lambda>(i, x). map reference_target (get_resource_references x (index_path path i)))
        (enumerate 0 xs))"
    by (simp add: map_concat comp_def split_def)
  also have "\<dots> = concat (map (\<lambda>(i, x). well_formed_refs (ref_strings x)) (enumerate 0 xs))"
    using Arr by (intro arg_cong [where f = concat] map_cong)
      (auto simp: in_set_enumerate_eq)
  finally show ?case
    by (simp add: map_enumerate_snd well_formed_refs_concat comp_def)
next
  case (Obj es)
  show ?case
  proof (cases "is_ref_node (JObj es)")
    case True
    then obtain r where "map_of es ''$ref'' = Some (JStr r)"
      by (auto split: option.splits jsval.splits)
    then show ?thesis by (simp add: parsed_reference_target)
  next
    case False
    then have "get_resource_references (JObj es) path =
        concat (map (\<lambda>(k, v). get_resource_references v (key_path path k)) es)"
      by (auto split: option.splits jsval.splits)
    moreover have "map (map reference_target)
        (map (\<lambda>(k, v). get_resource_references v (key_path path k)) es) =
        map (\<lambda>(k, v). well_formed_refs (ref_strings v)) es"
      using Obj by auto
    ultimately show ?thesis
      by (simp only: ref_strings_no_node [OF False] map_concat well_formed_refs_concat map_map)
        (simp add: comp_def split_def)
  qed
qed simp_all

lemma well_formed_when_parsed:
  "map_res parse_ref rs = Inr ps \<Longrightarrow> well_formed_refs rs = map (\<lambda>p. (pr_slug p, pr_path p)) ps"
  by (induction rs arbitrary: ps) (auto simp: result_simps)

text \<open>C28: \<open>getResourceReferences\<close> lists the targets of the well-formed references of a value, in the
  order of the document, wherever they are nested; and when \<open>extractRefs\<close> accepts the value, the
  slugs it answers (a resource's \<open>dependsOn\<close>) are exactly the slugs of the listed references.\<close>

theorem resource_references_agree:
  "map reference_target (get_resource_references v path) = well_formed_refs (ref_strings v) \<and>
   (case extract_refs v of
      Inl e \<Rightarrow> True
    | Inr slugs \<Rightarrow> slugs = set_of_list (map rr_target_slug (get_resource_references v path)))"
proof (cases "extract_refs v")
  case (Inl e)
  then show ?thesis by (simp add: references_listed)
next
  case (Inr slugs)
  then obtain ps where ps: "map_res parse_ref (ref_strings v) = Inr ps"
      "slugs = set_of_list (map pr_slug ps)"
    by (auto simp: extract_refs_map result_simps)
  have "map rr_target_slug (get_resource_references v path) =
      map fst (map reference_target (get_resource_references v path))"
    by (simp add: reference_target_def comp_def)
  also have "\<dots> = map pr_slug ps"
    by (simp only: references_listed well_formed_when_parsed [OF ps(1)]) (simp add: comp_def)
  finally show ?thesis using Inr ps(2) by (simp add: references_listed)
qed

end
