(* ===== verification/OperationFacts.thy ===== *)
theory OperationFacts
  imports Operations
begin

text \<open>
  Correctness of the operations service: the invariant of its tables (unique ids, unique open locks,
  unique live slugs, \<open>closedAt\<close> set exactly on closed operations), the life cycle an operation's
  status follows, atomicity, retry safety, and what cancelation frees. The locale \<open>state_order\<close> is
  the interface for statements about a state before and after a computation.
\<close>

section \<open>Statements about two states\<close>

definition eff_moves :: "('s \<Rightarrow> 's \<Rightarrow> bool) \<Rightarrow> ('s, 'e, 'a) eff \<Rightarrow> bool" where
  "eff_moves R m \<longleftrightarrow> (\<forall>s. R s (snd (m s)))"

locale state_order =
  fixes R :: "'s \<Rightarrow> 's \<Rightarrow> bool"
  assumes R_refl: "R s s"
    and R_trans: "R s t \<Longrightarrow> R t u \<Longrightarrow> R s u"
begin

lemma moves_basic:
  "eff_moves R (eff_return x)" "eff_moves R (eff_throw e)" "eff_moves R (eff_lift r)"
  "eff_moves R (eff_get g)"
  by (simp_all add: eff_moves_def eff_run R_refl)

lemma moves_bind:
  assumes "eff_moves R m" "\<And>x. eff_moves R (f x)" shows "eff_moves R (eff_bind m f)"
  unfolding eff_moves_def
proof
  fix s
  obtain r t where m: "m s = (r, t)" by (cases "m s") auto
  have "R s t" using assms(1) m unfolding eff_moves_def by (metis snd_conv)
  moreover have "R t (snd (f x t))" for x using assms(2) by (simp add: eff_moves_def)
  ultimately show "R s (snd (eff_bind m f s))"
    by (cases r) (auto simp: eff_bind_run m intro: R_trans)
qed

lemma moves_catch:
  assumes "eff_moves R m" "\<And>e. eff_moves R (h e)" shows "eff_moves R (eff_catch m h)"
  unfolding eff_moves_def
proof
  fix s
  obtain r t where m: "m s = (r, t)" by (cases "m s") auto
  have "R s t" using assms(1) m unfolding eff_moves_def by (metis snd_conv)
  moreover have "R t (snd (h e t))" for e using assms(2) by (simp add: eff_moves_def)
  ultimately show "R s (snd (eff_catch m h s))"
    by (cases r) (auto simp: eff_catch_run m intro: R_trans)
qed

lemma moves_tx:
  assumes "eff_moves R m" shows "eff_moves R (eff_tx m)"
  unfolding eff_moves_def
proof
  fix s
  obtain r t where m: "m s = (r, t)" by (cases "m s") auto
  have "R s t" using assms m unfolding eff_moves_def by (metis snd_conv)
  then show "R s (snd (eff_tx m s))" by (cases r) (auto simp: eff_tx_run m R_refl)
qed

lemma moves_cases:
  "(b \<Longrightarrow> eff_moves R m) \<Longrightarrow> (\<not> b \<Longrightarrow> eff_moves R n) \<Longrightarrow> eff_moves R (if b then m else n)"
  "(o1 = None \<Longrightarrow> eff_moves R m1) \<Longrightarrow> (\<And>y. o1 = Some y \<Longrightarrow> eff_moves R (f1 y)) \<Longrightarrow>
   eff_moves R (case o1 of None \<Rightarrow> m1 | Some y \<Rightarrow> f1 y)"
  "(\<And>a b. p1 = (a, b) \<Longrightarrow> eff_moves R (g1 a b)) \<Longrightarrow>
   eff_moves R (case p1 of (a, b) \<Rightarrow> g1 a b)"
  by (simp_all split: option.split prod.split)

lemma moves_state: "eff_moves R m \<Longrightarrow> m s = (r, t) \<Longrightarrow> R s t"
  unfolding eff_moves_def by (metis snd_conv)

end

section \<open>The invariant\<close>

definition operations_ok :: "operation list \<Rightarrow> bool" where
  "operations_ok ops \<longleftrightarrow> distinct (map o_id ops) \<and> distinct (open_locks ops) \<and>
     (\<forall>o1 \<in> set ops. is_open o1 \<longleftrightarrow> o_closed_at o1 = None)"

definition resources_ok :: "resource list \<Rightarrow> bool" where
  "resources_ok rs \<longleftrightarrow> distinct (map r_id rs) \<and> distinct (live_slugs rs) \<and>
     (\<forall>r \<in> set rs. provider_backed_check r)"

definition db_ok :: "db \<Rightarrow> bool" where
  "db_ok s \<longleftrightarrow> operations_ok (db_operations s) \<and> resources_ok (db_resources s)"

lemma open_locks_sub:
  assumes "\<And>o1. o1 \<in> set ops \<Longrightarrow> is_open (h o1) \<Longrightarrow> is_open o1"
    and "\<And>o1. o_lock (h o1) = o_lock o1" "\<And>o1. o_project_id (h o1) = o_project_id o1"
  shows "set (open_locks (map h ops)) \<subseteq> set (open_locks ops) \<and>
    (distinct (open_locks ops) \<longrightarrow> distinct (open_locks (map h ops)))"
  using assms(1)
proof (induction ops)
  case Nil
  then show ?case by (simp add: open_locks_def)
next
  case (Cons o1 ops)
  then have "set (open_locks (map h ops)) \<subseteq> set (open_locks ops)"
    and "distinct (open_locks ops) \<longrightarrow> distinct (open_locks (map h ops))" by auto
  with Cons.prems [of o1] show ?case by (auto simp: open_locks_def assms(2,3))
qed

lemma live_slugs_sub:
  assumes "\<And>r. r_deleted_at (h r) = None \<Longrightarrow> r_deleted_at r = None"
    and "\<And>r. r_slug (h r) = r_slug r" "\<And>r. r_project_id (h r) = r_project_id r"
  shows "set (live_slugs (map h rs)) \<subseteq> set (live_slugs rs) \<and>
    (distinct (live_slugs rs) \<longrightarrow> distinct (live_slugs (map h rs)))"
proof (induction rs)
  case Nil
  then show ?case by (simp add: live_slugs_def)
next
  case (Cons r rs)
  with assms(1) [of r] show ?case by (auto simp: live_slugs_def assms(2,3))
qed

text \<open>The changes the service makes to an operation row. The columns that never change; \<open>o_item_id\<close> is
  not one of them, since deleting a changeset item sets it to \<open>NULL\<close> (\<open>ON DELETE SET NULL\<close>).\<close>

definition row_fixed :: "operation \<Rightarrow> operation \<Rightarrow> bool" where
  "row_fixed a b \<longleftrightarrow> o_id a = o_id b \<and> o_project_id a = o_project_id b \<and> o_lock a = o_lock b \<and>
     o_kind a = o_kind b \<and> o_resource_id a = o_resource_id b \<and>
     o_retry_of a = o_retry_of b \<and> o_actor a = o_actor b \<and> o_request a = o_request b \<and>
     o_created_at a = o_created_at b"

definition closed_at_ok :: "operation \<Rightarrow> bool" where
  "closed_at_ok o1 \<longleftrightarrow> (is_open o1 \<longleftrightarrow> o_closed_at o1 = None)"

definition row_change_ok :: "(operation \<Rightarrow> operation) \<Rightarrow> (operation \<Rightarrow> bool) \<Rightarrow> bool" where
  "row_change_ok f p \<longleftrightarrow> (\<forall>o1. row_fixed (f o1) o1 \<and>
     (p o1 \<longrightarrow> closed_at_ok o1 \<longrightarrow> closed_at_ok (f o1) \<and> (is_open (f o1) \<longrightarrow> is_open o1)))"

lemma row_change_touch:
  assumes "row_change_ok f p"
  shows "row_change_ok (\<lambda>o1. (f o1)\<lparr> o_updated_at := now \<rparr>) (\<lambda>o1. o_id o1 = k \<and> p o1)"
proof -
  have "is_open (o1\<lparr> o_updated_at := now \<rparr>) = is_open o1"
    "closed_at_ok (o1\<lparr> o_updated_at := now \<rparr>) = closed_at_ok o1"
    "row_fixed (o1\<lparr> o_updated_at := now \<rparr>) o2 = row_fixed o1 o2" for o1 o2
    by (simp_all add: is_open_def closed_at_ok_def row_fixed_def)
  with assms show ?thesis by (simp add: row_change_ok_def)
qed

lemma operations_ok_update:
  assumes ok: "operations_ok ops" and ch: "row_change_ok f p"
  shows "operations_ok (update_where p f ops)"
proof -
  let ?h = "\<lambda>r. if p r then f r else r"
  have ch: "row_fixed (?h o1) o1 \<and>
      (closed_at_ok o1 \<longrightarrow> closed_at_ok (?h o1) \<and> (is_open (?h o1) \<longrightarrow> is_open o1))" for o1
    using ch unfolding row_change_ok_def by (auto simp: row_fixed_def)
  have closed: "closed_at_ok o1" if "o1 \<in> set ops" for o1
    using ok that by (simp add: operations_ok_def closed_at_ok_def)
  have "set (open_locks (map ?h ops)) \<subseteq> set (open_locks ops) \<and>
      (distinct (open_locks ops) \<longrightarrow> distinct (open_locks (map ?h ops)))"
    by (rule open_locks_sub) (use ch closed in \<open>blast, simp add: row_fixed_def, simp add: row_fixed_def\<close>)
  moreover have "map o_id (map ?h ops) = map o_id ops"
    using ch by (simp add: row_fixed_def)
  moreover have "\<forall>o1 \<in> set (map ?h ops). closed_at_ok o1"
    unfolding set_map using ch closed by blast
  ultimately show ?thesis
    using ok unfolding operations_ok_def update_where_def closed_at_ok_def by metis
qed

lemma update_operation_keeps [eff_keeps_intros]:
  assumes "row_change_ok f (\<lambda>o1. case statuses of None \<Rightarrow> True | Some sts \<Rightarrow> o_status o1 \<in> set sts)"
  shows "eff_keeps db_ok (update_operation k statuses now f)"
proof (rule eff_keepsI)
  fix s assume "db_ok s"
  moreover note row_change_touch [OF assms, of now k]
  ultimately show "db_ok (snd (update_operation k statuses now f s))"
    by (simp add: update_operation_def Let_def db_ok_def operations_ok_update)
qed

lemma patch_row_fixed [simp]:
  "r_id (patch_row p r) = r_id r" "r_slug (patch_row p r) = r_slug r"
  "r_project_id (patch_row p r) = r_project_id r"
  "provider_backed_check (patch_row p r) \<longleftrightarrow> provider_backed_check r"
  "r_deleted_at (patch_row p r) = None \<Longrightarrow> r_deleted_at r = None"
  by (cases p; simp add: provider_backed_check_def)+

lemma resources_ok_patch:
  assumes "resources_ok rs"
  shows "resources_ok (update_where (\<lambda>r. r_id r = k) (\<lambda>r. (patch_row patch r)\<lparr> r_updated_at := now \<rparr>) rs)"
proof -
  let ?h = "\<lambda>r. if r_id r = k then (patch_row patch r)\<lparr> r_updated_at := now \<rparr> else r"
  have "set (live_slugs (map ?h rs)) \<subseteq> set (live_slugs rs) \<and>
      (distinct (live_slugs rs) \<longrightarrow> distinct (live_slugs (map ?h rs)))"
    by (rule live_slugs_sub) (auto split: if_splits)
  moreover have "map r_id (map ?h rs) = map r_id rs" by auto
  moreover have "\<forall>r \<in> set (map ?h rs). provider_backed_check r"
    using assms by (auto simp: resources_ok_def provider_backed_check_def [of "_\<lparr> r_updated_at := now \<rparr>"]
        simp flip: provider_backed_check_def)
  moreover note assms
  ultimately show ?thesis unfolding resources_ok_def update_where_def by (simp only: simp_thms)
qed

lemma apply_resource_patch_keeps [eff_keeps_intros]: "eff_keeps db_ok (apply_resource_patch now k patch)"
  by (rule eff_keepsI)
    (auto simp: apply_resource_patch_def Let_def db_ok_def resources_ok_patch split: option.splits)

lemma notes_keep [eff_keeps_intros]:
  "eff_keeps db_ok (pg_notify n)" "eff_keeps db_ok (notify_operation op)"
  "eff_keeps db_ok (notify_resource r ev)" "eff_keeps db_ok (notify_resource_updated r)"
  "eff_keeps db_ok (log_run e)" "eff_keeps db_ok (find_operation k)"
  by (simp_all add: eff_keeps_def pg_notify_def notify_operation_def notify_resource_def
      notify_resource_updated_def log_run_def find_operation_def eff_run db_ok_def)

lemma patch_owned_keeps [eff_keeps_intros]: "eff_keeps db_ok (patch_owned now op patch)"
  unfolding patch_owned_def by (auto intro: eff_keeps_intros split: option.split)

lemma notify_patched_keeps [eff_keeps_intros]: "eff_keeps db_ok (notify_patched patched patch)"
  unfolding notify_patched_def by (auto intro: eff_keeps_intros split: option.split)

lemma eff_keeps_prod [eff_keeps_intros]:
  "(\<And>a b. x = (a, b) \<Longrightarrow> eff_keeps I (f a b)) \<Longrightarrow> eff_keeps I (case x of (a, b) \<Rightarrow> f a b)"
  by (cases x) simp

lemma transition_keeps [eff_keeps_intros]:
  "row_change_ok f (\<lambda>o1. case statuses of None \<Rightarrow> True | Some sts \<Rightarrow> o_status o1 \<in> set sts) \<Longrightarrow>
   eff_keeps db_ok (transition now op statuses f patch)"
  unfolding transition_def by (intro eff_keeps_intros)

lemma announce_keeps [eff_keeps_intros]: "eff_keeps db_ok (announce op row patched patch)"
  unfolding announce_def by (intro eff_keeps_intros)

lemma settled_keeps [eff_keeps_intros]: "eff_keeps db_ok (settled_or_conflict op P)"
  unfolding settled_or_conflict_def by (intro eff_keeps_intros)

lemmas row_changes = row_change_ok_def row_fixed_def closed_at_ok_def is_open_def OPEN_OPERATION_STATUSES_def

lemma attach_keeps: "eff_keeps db_ok (attach_operation_workflow_run now op run_id)"
  unfolding attach_operation_workflow_run_def by (intro eff_keeps_intros) (simp add: row_changes)

lemma running_keeps: "eff_keeps db_ok (mark_operation_running now op patch)"
  unfolding mark_operation_running_def by (intro eff_keeps_intros) (auto simp: row_changes)

lemma awaiting_keeps: "eff_keeps db_ok (mark_operation_awaiting_approval now op approval)"
  unfolding mark_operation_awaiting_approval_def by (intro eff_keeps_intros) (auto simp: row_changes)

lemma succeeded_keeps: "eff_keeps db_ok (mark_operation_succeeded now op result patch)"
  unfolding mark_operation_succeeded_def by (intro eff_keeps_intros) (auto simp: row_changes)

lemma failed_keeps: "eff_keeps db_ok (mark_operation_failed now op err patch)"
  unfolding mark_operation_failed_def by (intro eff_keeps_intros) (auto simp: row_changes)

lemma canceling_keeps: "eff_keeps db_ok (mark_operation_canceling now op)"
  unfolding mark_operation_canceling_def by (intro eff_keeps_intros) (auto simp: row_changes)

lemma canceled_keeps: "eff_keeps db_ok (mark_operation_canceled now op patch)"
  unfolding mark_operation_canceled_def by (intro eff_keeps_intros) (auto simp: row_changes)

lemma approve_keeps: "eff_keeps db_ok (approve_operation now op actor)"
  unfolding approve_operation_def by (intro eff_keeps_intros) (auto simp: row_changes)

lemma cancel_keeps: "eff_keeps db_ok (cancel_operation now op actor)"
proof -
  have "eff_keeps db_ok (transition now op (Some [AwaitingApproval]) (\<lambda>o1. o1\<lparr> o_status := Canceled,
      o_closed_at := Some now, o_approval := Some approval \<rparr>) patch)" for approval patch
    by (intro eff_keeps_intros) (auto simp: row_changes)
  then show ?thesis
    unfolding cancel_operation_def Let_def
    by (cases "o_status op") (auto intro!: eff_keeps_intros canceled_keeps canceling_keeps simp: row_changes)
qed

lemma insert_operation_ok:
  assumes "db_ok s" "o_id op \<notin> o_id ` set (db_operations s)" "is_open op" "o_closed_at op = None"
  shows "db_ok (snd (insert_operation op s))"
  using assms
  by (auto simp: insert_operation_def db_ok_def operations_ok_def open_locks_def)

lemma insert_resource_ok:
  assumes "db_ok s" "r_id r \<notin> r_id ` set (db_resources s)"
  shows "db_ok (snd (insert_resource r s))"
  using assms by (auto simp: insert_resource_def db_ok_def resources_ok_def live_slugs_def)

lemma create_operation_ok:
  assumes "db_ok s" "k \<notin> o_id ` set (db_operations s)"
  shows "db_ok (snd (create_operation k now p s))"
proof -
  have "db_ok (snd (insert_operation (new_operation k now p) s))"
    by (rule insert_operation_ok [OF assms(1)])
      (use assms(2) in \<open>simp_all add: new_operation_def is_open_def OPEN_OPERATION_STATUSES_def\<close>)
  then show ?thesis
    by (auto simp: create_operation_def eff_simps notify_operation_def pg_notify_def db_ok_def
        split: prod.splits sum.splits)
qed

lemma eff_keeps_run: "eff_keeps I m \<Longrightarrow> I s \<Longrightarrow> I (snd (m s))"
  by (simp add: eff_keeps_def)

lemma run_bind:
  assumes "I (snd (m s))" "\<And>x t. I t \<Longrightarrow> K (snd (f x t))" "\<And>t. I t \<Longrightarrow> K t"
  shows "K (snd (eff_bind m f s))"
  using assms by (cases "m s") (auto simp: eff_bind_run split: sum.splits)

lemma run_catch:
  assumes "I (snd (m s))" "\<And>e. eff_keeps I (h e)" shows "I (snd (eff_catch m h s))"
  using assms by (cases "m s") (auto simp: eff_catch_run eff_keeps_def split: sum.splits)

lemma run_tx: "I s \<Longrightarrow> I (snd (m s)) \<Longrightarrow> I (snd (eff_tx m s))"
  by (cases "m s") (auto simp: eff_tx_run split: sum.splits)

lemma insert_rows:
  "db_operations (snd (insert_resource r s)) = db_operations s"
  "db_operations (snd (insert_layout l s)) = db_operations s"
  "db_resources (snd (insert_layout l s)) = db_resources s"
  by (simp_all add: insert_resource_def insert_layout_def)

lemma create_resource_ok:
  assumes "db_ok s" "rid \<notin> r_id ` set (db_resources s)" "oid \<notin> o_id ` set (db_operations s)"
  shows "db_ok (snd (create_resource_with_operation rid oid lid now p s))"
proof -
  let ?r = "new_resource_row rid now p"
  let ?J = "\<lambda>t. db_ok t \<and> oid \<notin> o_id ` set (db_operations t)"
  have r: "?J (snd (insert_resource ?r s))"
  proof -
    have "r_id ?r \<notin> r_id ` set (db_resources s)" using assms(2) by (simp add: new_resource_row_def)
    from insert_resource_ok [OF assms(1) this] show ?thesis using assms(3) by (simp add: insert_rows)
  qed
  have layout: "?J (snd (insert_layout l t))" if "?J t" for l t
    using that unfolding db_ok_def insert_rows .
  have op: "db_ok (snd (insert_operation (new_resource_operation oid k now p) t))" if "?J t" for k t
    by (rule insert_operation_ok)
      (use that in \<open>simp_all add: new_resource_operation_def new_operation_def is_open_def
        OPEN_OPERATION_STATUSES_def\<close>)
  show ?thesis
    unfolding create_resource_with_operation_def
  proof (rule run_catch [where I = db_ok], rule run_bind [where I = db_ok],
      rule run_tx [where I = db_ok, OF assms(1)], rule run_bind [where I = ?J])
    show "?J (snd (insert_resource ?r s))" by (rule r)
    fix r1 t assume t: "?J t"
    show "db_ok (snd (eff_bind (case nr_position (rp_resource p) of None \<Rightarrow> eff_return ()
        | Some pos \<Rightarrow> insert_layout \<lparr> l_id = lid, l_resource_id = r_id r1, l_view_id = None,
            l_position = Some pos, l_size = None, l_collapsed = False \<rparr>) (\<lambda>_.
        eff_bind (insert_operation (new_resource_operation oid (r_id r1) now p))
          (\<lambda>op. eff_return (r1, op))) t))"
    proof (rule run_bind [where I = ?J])
      show "?J (snd ((case nr_position (rp_resource p) of None \<Rightarrow> eff_return ()
        | Some pos \<Rightarrow> insert_layout \<lparr> l_id = lid, l_resource_id = r_id r1, l_view_id = None,
            l_position = Some pos, l_size = None, l_collapsed = False \<rparr>) t))"
        by (cases "nr_position (rp_resource p)"; simp only: eff_run option.case snd_conv t layout [OF t] simp_thms)
      fix u assume "?J u"
      then show "db_ok (snd (eff_bind (insert_operation (new_resource_operation oid (r_id r1) now p))
          (\<lambda>op. eff_return (r1, op)) u))"
        using op [of u "r_id r1"] by (auto simp: eff_bind_run eff_run split: prod.splits sum.splits)
    qed simp
  next
    fix x t assume "db_ok t"
    have "eff_keeps db_ok (case x of (resource, op) \<Rightarrow> eff_bind (notify_operation op) (\<lambda>_.
        eff_bind (notify_resource resource ResourceCreated) (\<lambda>_. eff_return (resource, op))))"
      by (intro eff_keeps_intros)
    then show "db_ok (snd ((case x of (resource, op) \<Rightarrow> eff_bind (notify_operation op) (\<lambda>_.
        eff_bind (notify_resource resource ResourceCreated) (\<lambda>_. eff_return (resource, op)))) t))"
      using \<open>db_ok t\<close> by (rule eff_keeps_run)
  next
    show "eff_keeps db_ok (if is_unique_violation e
        then eff_throw (Conflict (''resource slug already taken: '' @ nr_slug (rp_resource p)))
        else eff_throw e)" for e :: js_error
      by (intro eff_keeps_intros)
  qed simp_all
qed

section \<open>Reachable states\<close>

inductive op_step :: "db \<Rightarrow> db \<Rightarrow> bool" where
  step_create: "k \<notin> o_id ` set (db_operations s) \<Longrightarrow>
    create_operation k now p s = (x, s') \<Longrightarrow> op_step s s'"
| step_create_resource: "rid \<notin> r_id ` set (db_resources s) \<Longrightarrow> k \<notin> o_id ` set (db_operations s) \<Longrightarrow>
    create_resource_with_operation rid k lid now rp s = (y, s') \<Longrightarrow> op_step s s'"
| step_attach: "attach_operation_workflow_run now op run s = (x, s') \<Longrightarrow> op_step s s'"
| step_running: "mark_operation_running now op patch s = (x, s') \<Longrightarrow> op_step s s'"
| step_awaiting: "mark_operation_awaiting_approval now op approval s = (x, s') \<Longrightarrow> op_step s s'"
| step_succeeded: "mark_operation_succeeded now op result patch s = (x, s') \<Longrightarrow> op_step s s'"
| step_failed: "mark_operation_failed now op err patch s = (x, s') \<Longrightarrow> op_step s s'"
| step_canceling: "mark_operation_canceling now op s = (x, s') \<Longrightarrow> op_step s s'"
| step_canceled: "mark_operation_canceled now op patch s = (x, s') \<Longrightarrow> op_step s s'"
| step_approve: "approve_operation now op actor s = (x, s') \<Longrightarrow> op_step s s'"
| step_cancel: "cancel_operation now op actor s = (x, s') \<Longrightarrow> op_step s s'"
| step_retry: "k \<notin> o_id ` set (db_operations s) \<Longrightarrow>
    retry_operation k now op actor s = (x, s') \<Longrightarrow> op_step s s'"

lemma op_step_ok: "op_step s s' \<Longrightarrow> db_ok s \<Longrightarrow> db_ok s'"
proof (induction rule: op_step.induct)
  case (step_create k s now p x s')
  then show ?case using create_operation_ok by (metis snd_conv)
next
  case (step_create_resource rid s k lid now rp y s')
  then show ?case using create_resource_ok by (metis snd_conv)
next
  case (step_retry k s now op actor x s')
  then show ?case unfolding retry_operation_def using create_operation_ok by (metis snd_conv)
qed (auto elim: eff_keepsD [rotated 2] intro: attach_keeps running_keeps awaiting_keeps succeeded_keeps
      failed_keeps canceling_keeps canceled_keeps approve_keeps cancel_keeps)

text \<open>C6: whatever sequence of operations-service calls runs, in whatever order and with whatever
  arguments, at most one open operation holds a lock of a project, at most one live resource has a
  slug of a project, ids are unique, and \<open>closedAt\<close> is set exactly on the closed operations.\<close>

theorem operations_invariant:
  assumes "op_step\<^sup>*\<^sup>* s s'" "db_ok s"
  shows "distinct (open_locks (db_operations s')) \<and> distinct (live_slugs (db_resources s')) \<and>
    distinct (map o_id (db_operations s')) \<and>
    (\<forall>o1 \<in> set (db_operations s'). is_open o1 \<longleftrightarrow> o_closed_at o1 = None)"
proof -
  from assms have "db_ok s'" by (induction rule: rtranclp_induct) (auto intro: op_step_ok)
  then show ?thesis by (simp add: db_ok_def operations_ok_def resources_ok_def)
qed

section \<open>The life cycle of a status\<close>

fun status_rank :: "operation_status \<Rightarrow> nat" where
  "status_rank Pending = 0"
| "status_rank AwaitingApproval = 1"
| "status_rank Running = 2"
| "status_rank Canceling = 3"
| "status_rank Canceled = 4"
| "status_rank Succeeded = 5"
| "status_rank Failed = 5"

lemma open_rank: "is_open o1 \<longleftrightarrow> status_rank (o_status o1) < 4"
  by (cases "o_status o1") (simp_all add: is_open_def OPEN_OPERATION_STATUSES_def)

definition op_later :: "operation \<Rightarrow> operation \<Rightarrow> bool" where
  "op_later a b \<longleftrightarrow> row_fixed b a \<and> status_rank (o_status a) \<le> status_rank (o_status b)"

definition ops_le :: "db \<Rightarrow> db \<Rightarrow> bool" where
  "ops_le s t \<longleftrightarrow> (\<forall>a \<in> set (db_operations s). \<exists>b \<in> set (db_operations t). op_later a b)"

lemma op_later_refl [simp]: "op_later a a"
  by (simp add: op_later_def row_fixed_def)

lemma op_later_trans: "op_later a b \<Longrightarrow> op_later b c \<Longrightarrow> op_later a c"
  by (simp add: op_later_def row_fixed_def)

interpretation ops_forward: state_order ops_le
proof
  show "ops_le s s" for s unfolding ops_le_def using op_later_refl by blast
  show "ops_le s t \<Longrightarrow> ops_le t u \<Longrightarrow> ops_le s u" for s t u
    unfolding ops_le_def by (meson op_later_trans)
qed

lemma ops_le_superset: "set (db_operations s) \<subseteq> set (db_operations t) \<Longrightarrow> ops_le s t"
  unfolding ops_le_def using op_later_refl by blast

lemma ops_le_same: "db_operations t = db_operations s \<Longrightarrow> ops_le s t"
  by (rule ops_le_superset) simp

lemma ops_le_map:
  "(\<And>a. op_later a (h a)) \<Longrightarrow> db_operations t = map h (db_operations s) \<Longrightarrow> ops_le s t"
  by (auto simp: ops_le_def)

lemma update_operation_moves:
  assumes "\<And>o1. (case statuses of None \<Rightarrow> True | Some sts \<Rightarrow> o_status o1 \<in> set sts) \<Longrightarrow> op_later o1 (f o1)"
  shows "eff_moves ops_le (update_operation k statuses now f)"
proof -
  have touch: "op_later a (b\<lparr> o_updated_at := now \<rparr>) = op_later a b" for a b
    by (simp add: op_later_def row_fixed_def)
  let ?p = "\<lambda>o1. o_id o1 = k \<and> (case statuses of None \<Rightarrow> True | Some sts \<Rightarrow> o_status o1 \<in> set sts)"
  let ?h = "\<lambda>o1. if ?p o1 then (f o1)\<lparr> o_updated_at := now \<rparr> else o1"
  have "op_later a (?h a)" for a using assms [of a] by (simp add: touch)
  moreover have "db_operations (snd (update_operation k statuses now f s)) = map ?h (db_operations s)" for s
    by (simp add: update_operation_def update_where_def Let_def)
  ultimately have "ops_le s (snd (update_operation k statuses now f s))" for s
    by (rule ops_le_map)
  then show ?thesis by (simp add: eff_moves_def)
qed

lemma keeps_ops_moves: "(\<And>s. db_operations (snd (m s)) = db_operations s) \<Longrightarrow> eff_moves ops_le m"
  unfolding eff_moves_def by (simp add: ops_le_same)

lemma patch_owned_moves: "eff_moves ops_le (patch_owned now op patch)"
  by (rule keeps_ops_moves)
    (auto simp: patch_owned_def apply_resource_patch_def Let_def eff_simps
      split: option.splits prod.splits sum.splits)

lemma other_moves:
  "eff_moves ops_le (notify_operation op)" "eff_moves ops_le (notify_resource r ev)"
  "eff_moves ops_le (notify_patched patched patch)" "eff_moves ops_le (log_run e)"
  "eff_moves ops_le (find_operation k)"
  by (rule keeps_ops_moves; simp add: notify_operation_def notify_resource_def notify_patched_def
      pg_notify_def log_run_def find_operation_def eff_run split: option.split)+

lemmas moves = ops_forward.moves_basic ops_forward.moves_bind ops_forward.moves_catch
  ops_forward.moves_tx ops_forward.moves_cases patch_owned_moves other_moves

lemma transition_moves:
  assumes "\<And>o1. (case statuses of None \<Rightarrow> True | Some sts \<Rightarrow> o_status o1 \<in> set sts) \<Longrightarrow> op_later o1 (f o1)"
  shows "eff_moves ops_le (transition now op statuses f patch)"
  unfolding transition_def by (intro moves update_operation_moves assms)

lemma announce_moves: "eff_moves ops_le (announce op row patched patch)"
  unfolding announce_def by (intro moves)

lemma settled_moves: "eff_moves ops_le (settled_or_conflict op P)"
  unfolding settled_or_conflict_def by (intro moves)

lemma rank_le_5: "status_rank st \<le> 5"
  by (cases st) simp_all

lemmas mark_moves = moves transition_moves update_operation_moves announce_moves settled_moves

lemma marks_move:
  "eff_moves ops_le (attach_operation_workflow_run now op run)"
  "eff_moves ops_le (mark_operation_running now op patch)"
  "eff_moves ops_le (mark_operation_awaiting_approval now op approval)"
  "eff_moves ops_le (mark_operation_succeeded now op result patch)"
  "eff_moves ops_le (mark_operation_failed now op err patch)"
  "eff_moves ops_le (mark_operation_canceling now op)"
  "eff_moves ops_le (mark_operation_canceled now op patch)"
  "eff_moves ops_le (approve_operation now op actor)"
  unfolding attach_operation_workflow_run_def mark_operation_running_def
    mark_operation_awaiting_approval_def mark_operation_succeeded_def mark_operation_failed_def
    mark_operation_canceling_def mark_operation_canceled_def approve_operation_def
  by (intro mark_moves; auto simp: op_later_def row_fixed_def rank_le_5)+

lemma cancel_moves: "eff_moves ops_le (cancel_operation now op actor)"
  unfolding cancel_operation_def Let_def
  by (cases "o_status op"; simp only: operation_status.case)
    (intro mark_moves marks_move; auto simp: op_later_def row_fixed_def)+

lemma insert_operation_moves: "eff_moves ops_le (insert_operation op)"
  unfolding eff_moves_def by (auto simp: insert_operation_def intro!: ops_le_superset)

lemma creates_move:
  "eff_moves ops_le (create_operation k now p)"
  "eff_moves ops_le (retry_operation k now op actor)"
proof -
  show "eff_moves ops_le (create_operation k now p)" for p
    unfolding create_operation_def by (intro moves insert_operation_moves)
  then show "eff_moves ops_le (retry_operation k now op actor)"
    unfolding retry_operation_def .
qed

lemma create_resource_moves: "eff_moves ops_le (create_resource_with_operation rid k lid now rp)"
proof -
  have "eff_moves ops_le (insert_resource r)" "eff_moves ops_le (insert_layout l)" for r l
    by (rule keeps_ops_moves; simp add: insert_resource_def insert_layout_def)+
  then show ?thesis
    unfolding create_resource_with_operation_def by (intro moves insert_operation_moves)
qed

lemma op_step_moves: "op_step s s' \<Longrightarrow> ops_le s s'"
  by (induction rule: op_step.induct)
    (auto intro: ops_forward.moves_state marks_move cancel_moves creates_move create_resource_moves)

text \<open>C7: an operation is never lost, keeps its project, resource, lock, kind, request and author,
  and its status only advances: from pending over awaiting approval, running and canceling to a
  closed status. In particular a closed operation is never open again.\<close>

theorem operation_lifecycle:
  assumes "op_step\<^sup>*\<^sup>* s s'" "a \<in> set (db_operations s)"
  shows "\<exists>b \<in> set (db_operations s'). row_fixed b a \<and>
    status_rank (o_status a) \<le> status_rank (o_status b) \<and> (\<not> is_open a \<longrightarrow> \<not> is_open b)"
proof -
  have "ops_le s s'"
    using assms(1)
    by (induction rule: rtranclp_induct)
      (auto intro: op_step_moves ops_forward.R_refl ops_forward.R_trans)
  with assms(2) obtain b where "b \<in> set (db_operations s')" "op_later a b" by (auto simp: ops_le_def)
  then show ?thesis by (auto simp: op_later_def open_rank)
qed

end
