(* ===== verification/OperationProps.thy ===== *)
theory OperationProps
  imports OperationFacts
begin

text \<open>
  Properties of single calls of the operations service: mutual exclusion by locks, atomicity of the
  transactions, safety of re-executing a transition (workflow steps run at least once), what
  canceling frees, and the transitions that lack a guard.
\<close>

section \<open>What a call does to the tables\<close>

lemma pg_notify_run: "pg_notify n s = (Inr (), s\<lparr> db_notes := db_notes s @ [n] \<rparr>)"
  by (simp add: pg_notify_def eff_run)

lemma log_run_run: "log_run e s = (Inr (), s\<lparr> db_runs := db_runs s @ [e] \<rparr>)"
  by (simp add: log_run_def eff_run)

lemma notify_patched_run:
  "\<exists>ns. notify_patched patched patch s = (Inr (), s\<lparr> db_notes := ns \<rparr>)"
  by (auto simp: notify_patched_def notify_resource_def pg_notify_run eff_run split: option.split
      intro: exI [of _ "db_notes s"])

lemma announce_run:
  "\<exists>ns. announce op row patched patch s = (Inr (with_request op row), s\<lparr> db_notes := ns \<rparr>)"
  using notify_patched_run [of patched patch "s\<lparr> db_notes := db_notes s @ [NoteOperation row] \<rparr>"]
  by (auto simp: announce_def notify_operation_def eff_simps pg_notify_run)

definition matches_guard :: "string \<Rightarrow> operation_status list option \<Rightarrow> operation \<Rightarrow> bool" where
  "matches_guard k statuses o1 \<longleftrightarrow>
     o_id o1 = k \<and> (case statuses of None \<Rightarrow> True | Some sts \<Rightarrow> o_status o1 \<in> set sts)"

lemma update_operation_run:
  "update_operation k statuses now f s =
     (Inr (first_row (returning (matches_guard k statuses) (\<lambda>o1. (f o1)\<lparr> o_updated_at := now \<rparr>) (db_operations s))),
      s\<lparr> db_operations := update_where (matches_guard k statuses)
           (\<lambda>o1. (f o1)\<lparr> o_updated_at := now \<rparr>) (db_operations s) \<rparr>)"
  by (simp add: update_operation_def matches_guard_def [abs_def] Let_def)

lemma patch_owned_run:
  assumes "patch_owned now op patch s = (Inr patched, t)"
  shows "db_operations t = db_operations s"
  using assms
  by (auto simp: patch_owned_def apply_resource_patch_def Let_def eff_simps
      split: option.splits prod.splits sum.splits)

lemma transition_Some:
  assumes "transition now op statuses f patch s = (Inr (Some (row, patched)), t)"
  shows "first_row (returning (matches_guard (o_id op) statuses) (\<lambda>o1. (f o1)\<lparr> o_updated_at := now \<rparr>)
      (db_operations s)) = Some row"
    and "db_operations t = update_where (matches_guard (o_id op) statuses)
      (\<lambda>o1. (f o1)\<lparr> o_updated_at := now \<rparr>) (db_operations s)"
  using assms
  by (auto simp: transition_def eff_simps update_operation_run dest: patch_owned_run
      split: option.splits prod.splits sum.splits)

lemma transition_None:
  assumes "transition now op statuses f patch s = (Inr None, t)"
  shows "t = s" and "\<forall>o1 \<in> set (db_operations s). \<not> matches_guard (o_id op) statuses o1"
proof -
  from assms show n: "\<forall>o1 \<in> set (db_operations s). \<not> matches_guard (o_id op) statuses o1"
    by (auto simp: transition_def eff_simps update_operation_run first_row_returning_None
        split: option.splits prod.splits sum.splits)
  with assms show "t = s"
    by (auto simp: transition_def eff_simps update_operation_run update_where_none
        split: option.splits prod.splits sum.splits)
qed

lemma transition_unmatched:
  assumes "\<forall>o1 \<in> set (db_operations s). \<not> matches_guard (o_id op) statuses o1"
  shows "transition now op statuses f patch s = (Inr None, s)"
proof -
  have "first_row (returning (matches_guard (o_id op) statuses) g (db_operations s)) = None" for g
    using assms by (simp add: first_row_returning_None)
  with assms show ?thesis
    by (simp add: transition_def eff_simps update_operation_run update_where_none)
qed

lemma find_updated:
  assumes "distinct (map o_id ops)" "first_row (returning (matches_guard k statuses) g ops) = Some row"
    and "\<And>o1. o_id (g o1) = o_id o1"
  shows "find (\<lambda>o1. o_id o1 = k) (update_where (matches_guard k statuses) g ops) = Some row \<and>
    (\<exists>o1 \<in> set ops. matches_guard k statuses o1 \<and> row = g o1)"
proof -
  from first_row_returning_Some [OF assms(2)] obtain o1 where
    o1: "o1 \<in> set ops" "matches_guard k statuses o1" "row = g o1" by blast
  have "o_id o1 = k" using o1(2) by (simp add: matches_guard_def)
  with find_key_eq [OF assms(1) o1(1)] have "find (\<lambda>x. o_id x = k) ops = Some o1" by simp
  then show ?thesis using o1 by (auto simp: find_update_where_same [where key = o_id, OF assms(3)])
qed

section \<open>Re-execution of a guarded transition\<close>

definition guarded ::
  "operation \<Rightarrow> operation_status list \<Rightarrow> (operation \<Rightarrow> bool) \<Rightarrow> int \<Rightarrow> (operation \<Rightarrow> operation) \<Rightarrow>
   resource_patch option \<Rightarrow> operation svc" where
  "guarded op sts P now f patch =
     eff_bind (transition now op (Some sts) f patch)
       (\<lambda>result. case result of
          Some (row, patched) \<Rightarrow> announce op row patched patch
        | None \<Rightarrow> settled_or_conflict op P)"

lemma transition_no_patch:
  "transition now op statuses f None =
     eff_bind (update_operation (o_id op) statuses now f)
       (\<lambda>row. eff_return (case row of None \<Rightarrow> None | Some o1 \<Rightarrow> Some (o1, None)))"
  by (rule ext) (simp add: transition_def eff_simps update_operation_run patch_owned_def
      split: option.split)

lemma marks_guarded:
  "mark_operation_running now op patch = guarded op [Pending, AwaitingApproval]
     (\<lambda>c. o_status c = Running) now (\<lambda>o1. o1\<lparr> o_status := Running \<rparr>) patch"
  "mark_operation_canceled now op patch = guarded op [Pending, Running, AwaitingApproval, Canceling]
     (\<lambda>c. o_status c = Canceled) now (\<lambda>o1. o1\<lparr> o_status := Canceled, o_closed_at := Some now \<rparr>) patch"
  "mark_operation_canceling now op = guarded op [Running] (\<lambda>c. o_status c = Canceling) now
     (\<lambda>o1. o1\<lparr> o_status := Canceling \<rparr>) None"
  "mark_operation_awaiting_approval now op approval = guarded op [Pending]
     (\<lambda>c. o_status c = AwaitingApproval \<and>
       (case o_approval c of None \<Rightarrow> None | Some a \<Rightarrow> ap_hook a) = ap_hook approval) now
     (\<lambda>o1. o1\<lparr> o_status := AwaitingApproval, o_approval := Some approval \<rparr>) None"
  by (rule ext; simp add: mark_operation_running_def mark_operation_canceled_def
      mark_operation_canceling_def mark_operation_awaiting_approval_def guarded_def
      transition_no_patch announce_def notify_patched_def eff_simps split: option.split prod.split sum.split)+

lemma guarded_again:
  assumes run: "guarded op sts P now f patch s = (Inr o', s')" and ids: "distinct (map o_id (db_operations s))"
    and f: "\<And>o1. o_id (f o1) = o_id o1" "\<And>o1. o_status (f o1) \<notin> set sts"
    and P: "\<And>o1. P ((f o1)\<lparr> o_updated_at := now \<rparr>)"
  shows "guarded op sts P now' f' patch' s' = (Inr o', s')"
proof -
  obtain x t where t: "transition now op (Some sts) f patch s = (x, t)"
    by (cases "transition now op (Some sts) f patch s")
  consider (applied) row patched where "x = Inr (Some (row, patched))" | (none) "x = Inr None"
    using run t by (auto simp: guarded_def eff_bind_run split: sum.splits option.splits)
  then show ?thesis
  proof cases
    case applied
    let ?g = "\<lambda>o1. (f o1)\<lparr> o_updated_at := now \<rparr>"
    note tr = transition_Some [OF t [unfolded applied]]
    obtain ns where s': "o' = with_request op row" "s' = t\<lparr> db_notes := ns \<rparr>"
      using run t announce_run [of op row patched patch t]
      by (auto simp: guarded_def eff_bind_run applied)
    from find_updated [OF ids tr(1)] f(1) obtain o1 where
      found: "find (\<lambda>o1. o_id o1 = o_id op) (db_operations s') = Some row" and row: "row = ?g o1"
      using tr(2) s'(2) by auto
    have "\<forall>o2 \<in> set (db_operations s'). \<not> matches_guard (o_id op) (Some sts) o2"
      using f by (auto simp: s'(2) tr(2) update_where_def matches_guard_def)
    then have "transition now' op (Some sts) f' patch' s' = (Inr None, s')" by (rule transition_unmatched)
    moreover have "P row" unfolding row by (rule P)
    ultimately show ?thesis
      using found s'(1) by (simp add: guarded_def eff_simps settled_or_conflict_def find_operation_def)
  next
    case none
    from transition_None [OF t [unfolded none]] run t
    have "settled_or_conflict op P s = (Inr o', s')" "t = s"
      and un: "\<forall>o2 \<in> set (db_operations s). \<not> matches_guard (o_id op) (Some sts) o2"
      by (auto simp: guarded_def eff_bind_run none)
    moreover from this have "s' = s"
      by (auto simp: settled_or_conflict_def find_operation_def eff_simps split: option.splits if_splits)
    ultimately show ?thesis
      using transition_unmatched [of s op "Some sts" now' f' patch'] by (simp add: guarded_def eff_bind_run)
  qed
qed

text \<open>Re-executing a guarded transition that succeeded (a workflow step may run again after a
  crash) changes nothing: it answers with the same operation, writes no row and notifies nobody.\<close>

theorem transitions_idempotent:
  assumes "distinct (map o_id (db_operations s))"
  shows "(mark_operation_running now op patch s = (Inr o', s') \<longrightarrow>
      mark_operation_running now' op patch s' = (Inr o', s')) \<and>
    (mark_operation_awaiting_approval now op approval s = (Inr o', s') \<longrightarrow>
      mark_operation_awaiting_approval now' op approval s' = (Inr o', s')) \<and>
    (mark_operation_canceling now op s = (Inr o', s') \<longrightarrow>
      mark_operation_canceling now' op s' = (Inr o', s')) \<and>
    (mark_operation_canceled now op patch s = (Inr o', s') \<longrightarrow>
      mark_operation_canceled now' op patch s' = (Inr o', s'))"
  unfolding marks_guarded by (intro conjI impI; erule guarded_again [OF _ assms]; simp)

text \<open>A database with one project, for the witnesses: a create of the resource \<open>net\<close> is pending.\<close>

definition empty_db :: db where
  "empty_db =
     \<lparr> db_projects = [\<lparr> p_id = ''p'', p_org_id = ''o'', p_slug = ''p'', p_approval_policy = [],
          p_scan_interval = ScanOff, p_last_scan_claimed_at = None, p_created_by = (SystemActor, ''o''), p_deleted_at = None \<rparr>],
       db_integrations = [], db_resources = [], db_layouts = [], db_change_sets = [],
       db_items = [], db_dry_runs = [], db_operations = [], db_notes = [], db_runs = [] \<rparr>"

definition sample_create_params :: create_resource_params where
  "sample_create_params =
     \<lparr> rp_actor = (UserActor, ''u''), rp_project_id = ''p'', rp_item_id = None, rp_retry_of = None,
       rp_kind = OpCreate, rp_request = [], rp_approval = None,
       rp_resource = \<lparr> nr_slug = ''net'', nr_type = ''t'', nr_status = Creating, nr_inputs = None,
         nr_provider = None, nr_integration_id = None, nr_depends_on = None, nr_metadata = [],
         nr_position = Some (0, 0) \<rparr> \<rparr>"

definition created_db :: db where
  "created_db = snd (create_resource_with_operation ''r'' ''1'' ''l'' 5 sample_create_params empty_db)"

definition created_op :: operation where
  "created_op = hd (db_operations created_db)"

lemma created_db_run:
  "create_resource_with_operation ''r'' ''1'' ''l'' 5 sample_create_params empty_db =
     (Inr (hd (db_resources created_db), created_op), created_db)"
  by code_simp

lemma empty_db_ok: "db_ok empty_db"
  by code_simp

lemma created_step: "op_step empty_db created_db"
  by (rule step_create_resource [OF _ _ created_db_run]) (simp_all add: empty_db_def)

lemma created_db_ok: "db_ok created_db"
  by (rule op_step_ok [OF created_step empty_db_ok])

lemma operations_invariant_witness:
  "distinct (open_locks (db_operations created_db)) \<and> length (db_operations created_db) = 1"
proof
  show "distinct (open_locks (db_operations created_db))"
    using operations_invariant [OF r_into_rtranclp [of op_step, OF created_step] empty_db_ok] by blast
  show "length (db_operations created_db) = 1" by code_simp
qed

lemma operation_lifecycle_witness:
  "\<exists>b \<in> set (db_operations (snd (mark_operation_running 9 created_op None created_db))).
     row_fixed b created_op"
proof -
  let ?m = "mark_operation_running 9 created_op None created_db"
  have "?m = (fst ?m, snd ?m)" by simp
  then have "op_step created_db (snd ?m)" by (rule step_running)
  then have st: "op_step\<^sup>*\<^sup>* created_db (snd ?m)" by (rule r_into_rtranclp [of op_step])
  have "db_operations created_db = [created_op]" by code_simp
  then have "created_op \<in> set (db_operations created_db)" by simp
  from operation_lifecycle [OF st this] show ?thesis by blast
qed

lemma transitions_idempotent_witness:
  "let (x, s') = mark_operation_running 9 created_op (Some (PatchStatus Updating)) created_db
   in mark_operation_running 10 created_op (Some (PatchStatus Updating)) s' = (x, s') \<and> isl x = False"
proof -
  obtain x s' where m: "mark_operation_running 9 created_op (Some (PatchStatus Updating)) created_db = (x, s')"
    by (cases "mark_operation_running 9 created_op (Some (PatchStatus Updating)) created_db")
  have "\<not> isl (fst (mark_operation_running 9 created_op (Some (PatchStatus Updating)) created_db))"
    by code_simp
  then obtain o' where x: "x = Inr o'" unfolding m fst_conv by (cases x) simp_all
  have d: "distinct (map o_id (db_operations created_db))"
    using created_db_ok by (simp add: db_ok_def operations_ok_def)
  have "mark_operation_running 10 created_op (Some (PatchStatus Updating)) s' = (Inr o', s')"
    by (rule conjunct1 [OF transitions_idempotent [OF d], rule_format, OF m [unfolded x]])
  then show ?thesis unfolding m x by simp
qed

section \<open>Mutual exclusion\<close>

text \<open>A lock admits one open operation: creating an operation with a lock succeeds exactly when
  no open operation of the project holds it, and otherwise fails with a conflict and changes
  nothing.\<close>

theorem create_operation_exclusive:
  assumes "references_row p_id (db_projects s) (Some (cp_project_id p))"
    and "references_row r_id (db_resources s) (cp_resource_id p)"
    and "references_row ci_id (db_items s) (cp_item_id p)"
    and "references_row o_id (db_operations s) (cp_retry_of p)"
    and "cp_lock p = Some lock"
  shows "create_operation k now p s =
    (if \<exists>o1 \<in> set (db_operations s). o_project_id o1 = cp_project_id p \<and> o_lock o1 = Some lock \<and> is_open o1
     then (Inl (Conflict ''operation lock is already in flight''), s)
     else (Inr (new_operation k now p),
           s\<lparr> db_operations := db_operations s @ [new_operation k now p],
              db_notes := db_notes s @ [NoteOperation (new_operation k now p)] \<rparr>))"
proof -
  have held: "(cp_project_id p, lock) \<in> set (open_locks (db_operations s)) \<longleftrightarrow>
      (\<exists>o1 \<in> set (db_operations s). o_project_id o1 = cp_project_id p \<and> o_lock o1 = Some lock \<and> is_open o1)"
    by (force simp: open_locks_def)
  have "insert_operation (new_operation k now p) s =
      (if (cp_project_id p, lock) \<in> set (open_locks (db_operations s))
       then (Inl (UniqueViolation ''operations_open_lock_unique''), s)
       else (Inr (new_operation k now p), s\<lparr> db_operations := db_operations s @ [new_operation k now p] \<rparr>))"
    using assms by (simp add: insert_operation_def new_operation_def is_open_def OPEN_OPERATION_STATUSES_def)
  then show ?thesis unfolding held
    by (simp add: create_operation_def eff_simps notify_operation_def pg_notify_run) blast
qed

definition sample_update_params :: create_operation_params where
  "sample_update_params =
     \<lparr> cp_project_id = ''p'', cp_resource_id = Some ''r'', cp_item_id = None, cp_retry_of = None,
       cp_run_id = None, cp_lock = Some (resource_lock ''r''), cp_kind = OpUpdate, cp_approval = None,
       cp_actor = (UserActor, ''u''), cp_request = [] \<rparr>"

lemma create_operation_exclusive_witness:
  "create_operation ''2'' 7 sample_update_params created_db =
     (Inl (Conflict ''operation lock is already in flight''), created_db)"
proof -
  have l: "cp_lock sample_update_params = Some (resource_lock ''r'')" by code_simp
  have h: "\<exists>o1 \<in> set (db_operations created_db). o_project_id o1 = cp_project_id sample_update_params \<and>
      o_lock o1 = Some (resource_lock ''r'') \<and> is_open o1" by code_simp
  show ?thesis
    by (subst create_operation_exclusive [OF _ _ _ _ l]) (use h in \<open>code_simp, code_simp, code_simp, code_simp, simp\<close>)
qed

section \<open>Atomicity\<close>

lemma throw_after_tx:
  assumes "fst (eff_catch (eff_bind (eff_tx b) g) (\<lambda>e. if q e then eff_throw (c e) else eff_throw e) s) = Inl x"
    and "\<And>y t. \<not> isl (fst (g y t))"
  shows "snd (eff_catch (eff_bind (eff_tx b) g) (\<lambda>e. if q e then eff_throw (c e) else eff_throw e) s) = s"
proof -
  obtain y t where b: "b s = (y, t)" by (cases "b s")
  show ?thesis
  proof (cases y)
    case (Inl e)
    then show ?thesis by (simp add: eff_catch_run eff_bind_run eff_tx_run b eff_run)
  next
    case (Inr z)
    obtain w u where g: "g z t = (w, u)" by (cases "g z t")
    with assms(2) [of z t] obtain v where "w = Inr v" by (cases w) auto
    with assms(1) show ?thesis by (simp add: eff_catch_run eff_bind_run eff_tx_run b Inr g)
  qed
qed

text \<open>Creating a resource together with its operation is all or nothing: when the call throws
  (the slug is taken, a constraint fails) no row was written and nobody was notified.\<close>

theorem create_resource_atomic:
  assumes "create_resource_with_operation rid oid lid now p s = (Inl e, s')"
  shows "s' = s"
proof -
  have "fst (create_resource_with_operation rid oid lid now p s) = Inl e" using assms by simp
  then have "snd (create_resource_with_operation rid oid lid now p s) = s"
    unfolding create_resource_with_operation_def
    by (rule throw_after_tx)
      (auto simp: eff_bind_run eff_run notify_operation_def notify_resource_def pg_notify_run)
  with assms show ?thesis by simp
qed

lemma create_resource_atomic_witness:
  "snd (create_resource_with_operation ''r2'' ''2'' ''l2'' 6 sample_create_params created_db) = created_db"
proof -
  have "isl (fst (create_resource_with_operation ''r2'' ''2'' ''l2'' 6 sample_create_params created_db))"
    by code_simp
  then obtain e s' where c: "create_resource_with_operation ''r2'' ''2'' ''l2'' 6 sample_create_params created_db = (Inl e, s')"
    by (cases "create_resource_with_operation ''r2'' ''2'' ''l2'' 6 sample_create_params created_db";
        cases "fst (create_resource_with_operation ''r2'' ''2'' ''l2'' 6 sample_create_params created_db)") auto
  from create_resource_atomic [OF c] c show ?thesis by simp
qed

section \<open>Cancelation\<close>

lemma patch_row_deleted: "r_deleted_at ((patch_row (PatchDeleted t) r)\<lparr> r_updated_at := now \<rparr>) = Some t"
  by simp

lemma apply_patch_run:
  assumes "r \<in> set (db_resources s)" "r_id r = k"
  shows "\<exists>r'. apply_resource_patch now k patch s =
    (Inr r', s\<lparr> db_resources := update_where (\<lambda>r. r_id r = k)
       (\<lambda>r. (patch_row patch r)\<lparr> r_updated_at := now \<rparr>) (db_resources s) \<rparr>)"
proof -
  have "first_row (returning (\<lambda>r. r_id r = k) g (db_resources s)) \<noteq> None" for g
    using assms by (auto simp: first_row_returning_None)
  then show ?thesis by (simp add: apply_resource_patch_def Let_def split: option.split)
qed

lemma deleted_slug_free:
  assumes "resources_ok rs" "r \<in> set rs" "r_deleted_at r = None"
  shows "(r_project_id r, r_slug r) \<notin> set (live_slugs (update_where (\<lambda>x. r_id x = r_id r)
    (\<lambda>x. (patch_row (PatchDeleted t) x)\<lparr> r_updated_at := now \<rparr>) rs))"
proof
  assume "(r_project_id r, r_slug r) \<in> set (live_slugs (update_where (\<lambda>x. r_id x = r_id r)
    (\<lambda>x. (patch_row (PatchDeleted t) x)\<lparr> r_updated_at := now \<rparr>) rs))"
  then obtain x where x: "x \<in> set rs" "r_id x \<noteq> r_id r" "r_deleted_at x = None"
    "r_project_id x = r_project_id r" "r_slug x = r_slug r"
    by (auto simp: live_slugs_def update_where_def split: if_splits)
  have "distinct (map (\<lambda>r. (r_project_id r, r_slug r)) (filter (\<lambda>r. r_deleted_at r = None) rs))"
    using assms(1) by (simp add: resources_ok_def live_slugs_def)
  then have "inj_on (\<lambda>r. (r_project_id r, r_slug r)) {r \<in> set rs. r_deleted_at r = None}"
    by (simp add: distinct_map)
  with x assms(2,3) have "x = r" by (auto dest: inj_onD)
  with x(2) show False by simp
qed

lemma closed_lock_free:
  assumes "operations_ok ops" "op \<in> set ops" "is_open op" "o_lock op \<noteq> None" "matches_guard (o_id op) sts op"
    and "\<And>o1. \<not> is_open (g o1)"
  shows "(o_project_id op, the (o_lock op)) \<notin> set (open_locks (update_where (matches_guard (o_id op) sts) g ops))"
proof
  assume "(o_project_id op, the (o_lock op)) \<in> set (open_locks (update_where (matches_guard (o_id op) sts) g ops))"
  then obtain x where x: "x \<in> set ops" "\<not> matches_guard (o_id op) sts x" "is_open x" "o_lock x \<noteq> None"
    "o_project_id x = o_project_id op" "the (o_lock x) = the (o_lock op)"
    using assms(6) by (auto simp: open_locks_def update_where_def split: if_splits)
  have "distinct (map (\<lambda>o1. (o_project_id o1, the (o_lock o1))) (filter (\<lambda>o1. o_lock o1 \<noteq> None \<and> is_open o1) ops))"
    using assms(1) by (simp add: operations_ok_def open_locks_def)
  then have "inj_on (\<lambda>o1. (o_project_id o1, the (o_lock o1))) {o1 \<in> set ops. o_lock o1 \<noteq> None \<and> is_open o1}"
    by (simp add: distinct_map)
  with x assms(2-4) have "x = op" by (auto dest!: inj_onD)
  with x(2) assms(5) show False by simp
qed

lemma transition_applies:
  assumes "op \<in> set (db_operations s)" "matches_guard (o_id op) sts op"
    and "r \<in> set (db_resources s)" "o_resource_id op = Some (r_id r)" "r_id r \<noteq> []"
  shows "\<exists>row r'. transition now op sts f (Some patch) s = (Inr (Some (row, Some r')),
    s\<lparr> db_operations := update_where (matches_guard (o_id op) sts)
         (\<lambda>o1. (f o1)\<lparr> o_updated_at := now \<rparr>) (db_operations s),
       db_resources := update_where (\<lambda>x. r_id x = r_id r)
         (\<lambda>x. (patch_row patch x)\<lparr> r_updated_at := now \<rparr>) (db_resources s) \<rparr>) \<and>
    (\<exists>o1. row = (f o1)\<lparr> o_updated_at := now \<rparr>)"
proof -
  let ?g = "\<lambda>o1. (f o1)\<lparr> o_updated_at := now \<rparr>" and ?p = "matches_guard (o_id op) sts"
  have "first_row (returning ?p ?g (db_operations s)) \<noteq> None"
    using assms(1,2) by (auto simp: first_row_returning_None)
  then obtain row where row: "first_row (returning ?p ?g (db_operations s)) = Some row" by auto
  have t: "truthy (o_resource_id op) = Some (r_id r)" using assms(4,5) by (simp add: truthy_Some_iff)
  from apply_patch_run [of r "s\<lparr> db_operations := update_where ?p ?g (db_operations s) \<rparr>" "r_id r" now patch]
  obtain r' where "apply_resource_patch now (r_id r) patch
      (s\<lparr> db_operations := update_where ?p ?g (db_operations s) \<rparr>) = (Inr r',
      s\<lparr> db_operations := update_where ?p ?g (db_operations s),
        db_resources := update_where (\<lambda>x. r_id x = r_id r)
         (\<lambda>x. (patch_row patch x)\<lparr> r_updated_at := now \<rparr>) (db_resources s) \<rparr>)"
    using assms(3) by auto
  then show ?thesis
    using first_row_returning_Some [OF row]
    by (auto simp: transition_def eff_simps update_operation_run row patch_owned_def t)
qed

text \<open>Canceling a create or import that has not started (pending, or awaiting approval) frees
  both what it reserved: the slug of the stub resource and the lock of the operation.\<close>

theorem cancel_frees_reservation:
  assumes ok: "db_ok s" and op: "op \<in> set (db_operations s)"
    and st: "o_status op \<in> {Pending, AwaitingApproval}" and kind: "o_kind op \<in> {OpCreate, OpImport}"
    and r: "r \<in> set (db_resources s)" "r_deleted_at r = None" "o_resource_id op = Some (r_id r)" "r_id r \<noteq> []"
  shows "\<exists>o' s'. cancel_operation now op actor s = (Inr o', s') \<and> o_status o' = Canceled \<and>
    (r_project_id r, r_slug r) \<notin> set (live_slugs (db_resources s')) \<and>
    (o_lock op \<noteq> None \<longrightarrow> (o_project_id op, the (o_lock op)) \<notin> set (open_locks (db_operations s')))"
proof -
  let ?rs = "update_where (\<lambda>x. r_id x = r_id r)
    (\<lambda>x. (patch_row (PatchDeleted now) x)\<lparr> r_updated_at := now \<rparr>) (db_resources s)"
  have ok': "operations_ok (db_operations s)" "resources_ok (db_resources s)" using ok by (simp_all add: db_ok_def)
  have open_op: "is_open op" using st by (auto simp: is_open_def OPEN_OPERATION_STATUSES_def)
  have slug: "(r_project_id r, r_slug r) \<notin> set (live_slugs ?rs)"
    by (rule deleted_slug_free [OF ok'(2) r(1,2)])
  have patch: "cancel_stub_resource_patch now op = Some (PatchDeleted now)"
    using kind r(3,4) by (auto simp: cancel_stub_resource_patch_def truthy_None_iff)
  show ?thesis
  proof (cases "o_status op = Pending")
    case True
    let ?sts = "Some [Pending, Running, AwaitingApproval, Canceling]"
    let ?f = "\<lambda>o1. o1\<lparr> o_status := Canceled, o_closed_at := Some now \<rparr>"
    have m: "matches_guard (o_id op) ?sts op" using True by (simp add: matches_guard_def)
    from transition_applies [OF op m r(1,3,4), of now ?f "PatchDeleted now"]
    obtain row r' t o1 where t: "transition now op ?sts ?f (Some (PatchDeleted now)) s =
        (Inr (Some (row, Some r')), t)" and row: "row = (?f o1)\<lparr> o_updated_at := now \<rparr>"
      and rows: "db_resources t = ?rs" "db_operations t = update_where (matches_guard (o_id op) ?sts)
         (\<lambda>o1. (?f o1)\<lparr> o_updated_at := now \<rparr>) (db_operations s)" by auto
    obtain ns where a: "announce op row (Some r') (Some (PatchDeleted now)) t =
        (Inr (with_request op row), t\<lparr> db_notes := ns \<rparr>)" using announce_run by blast
    have free: "o_lock op \<noteq> None \<longrightarrow> (o_project_id op, the (o_lock op)) \<notin> set (open_locks (db_operations t))"
      unfolding rows(2) using closed_lock_free [OF ok'(1) op open_op _ m]
      by (auto simp: is_open_def OPEN_OPERATION_STATUSES_def)
    have "o_status (with_request op row) = Canceled" by (simp add: with_request_def row)
    then show ?thesis
      using t a slug rows(1) free True
      by (auto simp: cancel_operation_def mark_operation_canceled_def patch eff_simps log_run_run
          split: option.split)
  next
    case False
    then have aw: "o_status op = AwaitingApproval" using st by simp
    let ?sts = "Some [AwaitingApproval]"
    let ?f = "\<lambda>o1. o1\<lparr> o_status := Canceled, o_closed_at := Some now, o_approval := Some ((approval_of op)
      \<lparr> ap_canceled_by := Some (ac_type actor, ac_id actor), ap_canceled_at := Some now \<rparr>) \<rparr>"
    have m: "matches_guard (o_id op) ?sts op" using aw by (simp add: matches_guard_def)
    from transition_applies [OF op m r(1,3,4), of now ?f "PatchDeleted now"]
    obtain row r' t o1 where t: "transition now op ?sts ?f (Some (PatchDeleted now)) s =
        (Inr (Some (row, Some r')), t)" and row: "row = (?f o1)\<lparr> o_updated_at := now \<rparr>"
      and rows: "db_resources t = ?rs" "db_operations t = update_where (matches_guard (o_id op) ?sts)
         (\<lambda>o1. (?f o1)\<lparr> o_updated_at := now \<rparr>) (db_operations s)" by auto
    have free: "o_lock op \<noteq> None \<longrightarrow> (o_project_id op, the (o_lock op)) \<notin> set (open_locks (db_operations t))"
      unfolding rows(2) using closed_lock_free [OF ok'(1) op open_op _ m]
      by (auto simp: is_open_def OPEN_OPERATION_STATUSES_def)
    have "o_status row = Canceled" by (simp add: row)
    then show ?thesis
      using t slug rows(1) free aw
      by (auto simp: cancel_operation_def Let_def patch eff_simps log_run_run notify_operation_def
          notify_patched_def notify_resource_def pg_notify_run split: option.split)
  qed
qed

lemma cancel_frees_reservation_witness:
  "\<exists>o' s'. cancel_operation 9 created_op \<lparr> ac_type = UserActor, ac_id = ''u'', ac_org = ''o'',
      ac_channel = Some Browser \<rparr> created_db = (Inr o', s') \<and>
     (''p'', ''net'') \<notin> set (live_slugs (db_resources s'))"
proof -
  let ?r = "hd (db_resources created_db)"
  have h: "created_op \<in> set (db_operations created_db)" "o_status created_op \<in> {Pending, AwaitingApproval}"
    "o_kind created_op \<in> {OpCreate, OpImport}" "?r \<in> set (db_resources created_db)"
    "r_deleted_at ?r = None" "o_resource_id created_op = Some (r_id ?r)" "r_id ?r \<noteq> []"
    "r_project_id ?r = ''p''" "r_slug ?r = ''net''" by code_simp+
  show ?thesis
    using cancel_frees_reservation [OF created_db_ok h(1-7), of 9 "\<lparr> ac_type = UserActor, ac_id = ''u'',
      ac_org = ''o'', ac_channel = Some Browser \<rparr>"] h(8,9) by auto
qed

section \<open>Transitions without a guard\<close>

lemma unguarded_transition:
  assumes "op \<in> set (db_operations s)" "distinct (map o_id (db_operations s))" "\<And>o1. o_id (f o1) = o_id o1"
  shows "transition now op None f None s = (Inr (Some ((f op)\<lparr> o_updated_at := now \<rparr>, None)),
    s\<lparr> db_operations := update_where (matches_guard (o_id op) None)
       (\<lambda>o1. (f o1)\<lparr> o_updated_at := now \<rparr>) (db_operations s) \<rparr>)"
proof -
  let ?g = "\<lambda>o1. (f o1)\<lparr> o_updated_at := now \<rparr>"
  have "first_row (returning (matches_guard (o_id op) None) ?g (db_operations s)) \<noteq> None"
    using assms(1) by (auto simp: first_row_returning_None matches_guard_def)
  then obtain row where row: "first_row (returning (matches_guard (o_id op) None) ?g (db_operations s)) = Some row"
    by auto
  from first_row_returning_Some [OF row] obtain o1 where
    o1: "o1 \<in> set (db_operations s)" "o_id o1 = o_id op" "row = ?g o1" by (auto simp: matches_guard_def)
  have "o1 = op" using assms(1,2) o1(1,2) by (auto simp: distinct_map dest: inj_onD)
  with o1(3) show ?thesis
    by (simp add: transition_no_patch eff_simps update_operation_run row)
qed

text \<open>Closing an operation as succeeded or failed has no guard on its status: an operation that
  was already canceled becomes failed (or succeeded) when the workflow that was racing with the
  cancelation reports its outcome.\<close>

theorem closed_status_overwritten:
  assumes "op \<in> set (db_operations s)" "distinct (map o_id (db_operations s))" "o_status op = Canceled"
  shows "\<exists>o' s'. mark_operation_failed now op err None s = (Inr o', s') \<and> o_status o' = Failed \<and>
    (\<exists>o1 \<in> set (db_operations s'). o_id o1 = o_id op \<and> o_status o1 = Failed)"
proof -
  let ?f = "\<lambda>o1. o1\<lparr> o_status := Failed, o_error := Some err, o_closed_at := Some now \<rparr>"
  have t: "transition now op None ?f None s = (Inr (Some ((?f op)\<lparr> o_updated_at := now \<rparr>, None)),
      s\<lparr> db_operations := update_where (matches_guard (o_id op) None)
         (\<lambda>o1. (?f o1)\<lparr> o_updated_at := now \<rparr>) (db_operations s) \<rparr>)"
    by (rule unguarded_transition [OF assms(1,2)]) simp
  have "(?f op)\<lparr> o_updated_at := now \<rparr> \<in> set (update_where (matches_guard (o_id op) None)
      (\<lambda>o1. (?f o1)\<lparr> o_updated_at := now \<rparr>) (db_operations s))"
    using assms(1) by (force simp: update_where_def matches_guard_def)
  moreover obtain ns where a: "announce op ((?f op)\<lparr> o_updated_at := now \<rparr>) None None
      (s\<lparr> db_operations := update_where (matches_guard (o_id op) None)
         (\<lambda>o1. (?f o1)\<lparr> o_updated_at := now \<rparr>) (db_operations s) \<rparr>) =
      (Inr (with_request op ((?f op)\<lparr> o_updated_at := now \<rparr>)),
       s\<lparr> db_operations := update_where (matches_guard (o_id op) None)
         (\<lambda>o1. (?f o1)\<lparr> o_updated_at := now \<rparr>) (db_operations s), db_notes := ns \<rparr>)"
    using announce_run by meson
  have "mark_operation_failed now op err None s =
      (Inr (with_request op ((?f op)\<lparr> o_updated_at := now \<rparr>)),
       s\<lparr> db_operations := update_where (matches_guard (o_id op) None)
         (\<lambda>o1. (?f o1)\<lparr> o_updated_at := now \<rparr>) (db_operations s), db_notes := ns \<rparr>)"
    unfolding mark_operation_failed_def eff_bind_run t using a by simp
  moreover have "o_status (with_request op ((?f op)\<lparr> o_updated_at := now \<rparr>)) = Failed"
    by (simp add: with_request_def)
  ultimately show ?thesis by (intro exI conjI) (assumption+, rule bexI, auto)
qed

definition canceled_db :: db where
  "canceled_db = snd (mark_operation_canceled 8 created_op None created_db)"

lemma closed_status_overwritten_witness:
  "\<exists>o' s'. mark_operation_failed 9 (hd (db_operations canceled_db))
     \<lparr> oe_message = ''operation is canceled'', oe_code = ''Conflict'', oe_details = JNull \<rparr> None
     canceled_db = (Inr o', s') \<and> o_status o' = Failed"
proof -
  have h: "hd (db_operations canceled_db) \<in> set (db_operations canceled_db)"
    "distinct (map o_id (db_operations canceled_db))"
    "o_status (hd (db_operations canceled_db)) = Canceled" by code_simp+
  from closed_status_overwritten [OF h] show ?thesis by blast
qed

end
