(* ===== verification/Outcomes.thy ===== *)
theory Outcomes
  imports OperationProps
begin

text \<open>
  Statements about the outcome of a computation, for the workflows that compose the services:
  \<open>eff_spec P m Q E\<close> says that from a state satisfying \<open>P\<close> the computation \<open>m\<close> either returns \<open>x\<close> in
  a state satisfying \<open>Q x\<close> or throws \<open>e\<close> in one satisfying \<open>E e\<close>. \<open>world_le s t\<close> is what all
  services guarantee of a later state: the invariant of the tables is kept, no operation is lost or
  moved backwards, no resource row is lost or revived.
\<close>

section \<open>Specifications of computations\<close>

definition eff_spec ::
  "('s \<Rightarrow> bool) \<Rightarrow> ('s, 'e, 'a) eff \<Rightarrow> ('a \<Rightarrow> 's \<Rightarrow> bool) \<Rightarrow> ('e \<Rightarrow> 's \<Rightarrow> bool) \<Rightarrow> bool" where
  "eff_spec P m Q E \<longleftrightarrow>
     (\<forall>s. P s \<longrightarrow> (case m s of (Inr x, t) \<Rightarrow> Q x t | (Inl e, t) \<Rightarrow> E e t))"

lemma specI:
  assumes "\<And>s x t. P s \<Longrightarrow> m s = (Inr x, t) \<Longrightarrow> Q x t" "\<And>s e t. P s \<Longrightarrow> m s = (Inl e, t) \<Longrightarrow> E e t"
  shows "eff_spec P m Q E"
  using assms by (auto simp: eff_spec_def split: prod.splits sum.splits)

lemma spec_InrD: "eff_spec P m Q E \<Longrightarrow> P s \<Longrightarrow> m s = (Inr x, t) \<Longrightarrow> Q x t"
  by (auto simp: eff_spec_def split: prod.splits sum.splits)

lemma spec_InlD: "eff_spec P m Q E \<Longrightarrow> P s \<Longrightarrow> m s = (Inl e, t) \<Longrightarrow> E e t"
  by (auto simp: eff_spec_def split: prod.splits sum.splits)

lemma spec_weaken:
  assumes "eff_spec P m Q E" "\<And>s. P' s \<Longrightarrow> P s" "\<And>x s. Q x s \<Longrightarrow> Q' x s" "\<And>e s. E e s \<Longrightarrow> E' e s"
  shows "eff_spec P' m Q' E'"
  using assms by (fastforce simp: eff_spec_def split: prod.splits sum.splits)

lemma spec_bind:
  assumes "eff_spec P m R E" "\<And>x. eff_spec (R x) (f x) Q E"
  shows "eff_spec P (eff_bind m f) Q E"
  using assms by (fastforce simp: eff_spec_def eff_bind_run split: prod.splits sum.splits)

lemma spec_catch:
  assumes "eff_spec P m Q R" "\<And>e. eff_spec (R e) (h e) Q E"
  shows "eff_spec P (eff_catch m h) Q E"
  using assms by (fastforce simp: eff_spec_def eff_catch_run split: prod.splits sum.splits)

lemma spec_return: "(\<And>s. P s \<Longrightarrow> Q x s) \<Longrightarrow> eff_spec P (eff_return x) Q E"
  by (simp add: eff_spec_def eff_run)

lemma spec_throw: "(\<And>s. P s \<Longrightarrow> E e s) \<Longrightarrow> eff_spec P (eff_throw e) Q E"
  by (simp add: eff_spec_def eff_run)

lemma spec_if:
  "(b \<Longrightarrow> eff_spec P m Q E) \<Longrightarrow> (\<not> b \<Longrightarrow> eff_spec P n Q E) \<Longrightarrow> eff_spec P (if b then m else n) Q E"
  by simp

lemma spec_option:
  "(o1 = None \<Longrightarrow> eff_spec P m Q E) \<Longrightarrow> (\<And>y. o1 = Some y \<Longrightarrow> eff_spec P (f y) Q E) \<Longrightarrow>
   eff_spec P (case o1 of None \<Rightarrow> m | Some y \<Rightarrow> f y) Q E"
  by (cases o1) simp_all

text \<open>A relation between earlier and later states, and a predicate it preserves.\<close>

lemma spec_moves:
  assumes "eff_moves R m" "\<And>s t. P s \<Longrightarrow> R s t \<Longrightarrow> P t"
  shows "eff_spec P m (\<lambda>_. P) (\<lambda>_. P)"
proof (rule specI)
  show "P t" if "P s" "m s = (Inr x, t)" for s x t
    using assms that unfolding eff_moves_def by (metis snd_conv)
  show "P t" if "P s" "m s = (Inl e, t)" for s e t
    using assms that unfolding eff_moves_def by (metis snd_conv)
qed

section \<open>What later states keep\<close>

definition res_later :: "resource \<Rightarrow> resource \<Rightarrow> bool" where
  "res_later a b \<longleftrightarrow> r_id b = r_id a \<and> r_project_id b = r_project_id a \<and> r_slug b = r_slug a \<and>
     r_type b = r_type a \<and> (r_deleted_at a \<noteq> None \<longrightarrow> r_deleted_at b \<noteq> None)"

definition res_le :: "db \<Rightarrow> db \<Rightarrow> bool" where
  "res_le s t \<longleftrightarrow> (\<forall>a \<in> set (db_resources s). \<exists>b \<in> set (db_resources t). res_later a b)"

definition world_le :: "db \<Rightarrow> db \<Rightarrow> bool" where
  "world_le s t \<longleftrightarrow> (db_ok s \<longrightarrow> db_ok t) \<and> ops_le s t \<and> res_le s t"

lemma res_later_refl [simp]: "res_later a a"
  by (simp add: res_later_def)

lemma res_later_trans: "res_later a b \<Longrightarrow> res_later b c \<Longrightarrow> res_later a c"
  by (auto simp: res_later_def)

interpretation resources_forward: state_order res_le
proof
  show "res_le s s" for s unfolding res_le_def using res_later_refl by blast
  show "res_le s t \<Longrightarrow> res_le t u \<Longrightarrow> res_le s u" for s t u
    unfolding res_le_def by (meson res_later_trans)
qed

interpretation world: state_order world_le
proof
  show "world_le s s" for s
    unfolding world_le_def using ops_forward.R_refl resources_forward.R_refl by blast
  show "world_le s t \<Longrightarrow> world_le t u \<Longrightarrow> world_le s u" for s t u
    unfolding world_le_def using ops_forward.R_trans resources_forward.R_trans by blast
qed

lemma res_le_same: "db_resources t = db_resources s \<Longrightarrow> res_le s t"
  unfolding res_le_def using res_later_refl by metis

lemma res_le_update_where:
  assumes "\<And>r. res_later r (g r)"
  shows "res_le s (s\<lparr> db_resources := update_where p g (db_resources s) \<rparr>)"
  unfolding res_le_def
proof
  fix a assume "a \<in> set (db_resources s)"
  from update_where_mem [OF this, of p g]
  have "(if p a then g a else a) \<in> set (db_resources (s\<lparr> db_resources := update_where p g (db_resources s) \<rparr>))"
    by simp
  moreover have "res_later a (if p a then g a else a)" using assms by simp
  ultimately show "\<exists>b \<in> set (db_resources (s\<lparr> db_resources := update_where p g (db_resources s) \<rparr>)). res_later a b"
    by blast
qed

lemma patch_row_later: "res_later r ((patch_row patch r)\<lparr> r_updated_at := now \<rparr>)"
  by (cases patch) (simp_all add: res_later_def)

lemma apply_patch_res: "eff_moves res_le (apply_resource_patch now k patch)"
  unfolding eff_moves_def
  by (auto simp: apply_resource_patch_def Let_def resources_forward.R_refl patch_row_later
      split: option.split intro!: res_le_update_where)

lemma update_operation_res: "eff_moves res_le (update_operation k sts now f)"
  unfolding eff_moves_def by (simp add: update_operation_run res_le_same)

lemma notes_res:
  "eff_moves res_le (notify_operation op)" "eff_moves res_le (notify_resource r ev)"
  "eff_moves res_le (notify_patched patched patch)" "eff_moves res_le (log_run e)"
  "eff_moves res_le (find_operation k)"
  by (simp_all add: eff_moves_def notify_operation_def notify_resource_def notify_patched_def
      pg_notify_def log_run_def find_operation_def eff_run res_le_same split: option.split)

lemmas res_basic = resources_forward.moves_basic resources_forward.moves_bind
  resources_forward.moves_catch resources_forward.moves_tx resources_forward.moves_cases
  update_operation_res notes_res apply_patch_res

lemma patch_owned_res: "eff_moves res_le (patch_owned now op patch)"
  unfolding patch_owned_def
  by (cases patch; cases "truthy (o_resource_id op)"; simp; intro res_basic)

lemma transition_res: "eff_moves res_le (transition now op sts f patch)"
  unfolding transition_def by (intro res_basic patch_owned_res)

lemma announce_res: "eff_moves res_le (announce op row patched patch)"
  unfolding announce_def by (intro res_basic)

lemma settled_res: "eff_moves res_le (settled_or_conflict op P)"
  unfolding settled_or_conflict_def by (intro res_basic)

lemma marks_res:
  "eff_moves res_le (mark_operation_running now op patch)"
  "eff_moves res_le (mark_operation_awaiting_approval now op approval)"
  "eff_moves res_le (mark_operation_succeeded now op result patch)"
  "eff_moves res_le (mark_operation_failed now op err patch)"
  "eff_moves res_le (mark_operation_canceling now op)"
  "eff_moves res_le (mark_operation_canceled now op patch)"
  "eff_moves res_le (approve_operation now op actor)"
  unfolding mark_operation_running_def
    mark_operation_awaiting_approval_def mark_operation_succeeded_def mark_operation_failed_def
    mark_operation_canceling_def mark_operation_canceled_def approve_operation_def
  by (intro res_basic transition_res announce_res settled_res)+

lemma cancel_res: "eff_moves res_le (cancel_operation now op actor)"
  unfolding cancel_operation_def Let_def
  by (cases "o_status op"; simp only: operation_status.case)
    (intro res_basic transition_res announce_res settled_res marks_res)+

lemma world_moves:
  assumes "eff_keeps db_ok m" "eff_moves ops_le m" "eff_moves res_le m"
  shows "eff_moves world_le m"
  using assms by (simp add: eff_moves_def eff_keeps_def world_le_def)

lemma marks_world:
  "eff_moves world_le (mark_operation_running now op patch)"
  "eff_moves world_le (mark_operation_awaiting_approval now op approval)"
  "eff_moves world_le (mark_operation_succeeded now op result patch)"
  "eff_moves world_le (mark_operation_failed now op err patch)"
  "eff_moves world_le (mark_operation_canceling now op)"
  "eff_moves world_le (mark_operation_canceled now op patch)"
  "eff_moves world_le (approve_operation now op actor)"
  "eff_moves world_le (cancel_operation now op actor)"
  by (intro world_moves marks_move cancel_moves marks_res cancel_res running_keeps awaiting_keeps
      succeeded_keeps failed_keeps canceling_keeps canceled_keeps approve_keeps cancel_keeps)+

lemma same_tables_world:
  assumes "\<And>s. db_operations (snd (m s)) = db_operations s" "\<And>s. db_resources (snd (m s)) = db_resources s"
  shows "eff_moves world_le m"
  using assms unfolding eff_moves_def world_le_def db_ok_def
  by (auto intro: ops_le_same res_le_same)

section \<open>One operation in the world\<close>

text \<open>The state of the world around an operation that a workflow runs: its row exists, differs from
  the copy the workflow holds in the columns that change only, and the resource it owns exists.\<close>

definition owns :: "operation \<Rightarrow> db \<Rightarrow> bool" where
  "owns op s \<longleftrightarrow> db_ok s \<and> (\<exists>a \<in> set (db_operations s). row_fixed a op) \<and>
     (\<forall>k. truthy (o_resource_id op) = Some k \<longrightarrow> k \<in> r_id ` set (db_resources s))"

definition row_in :: "string \<Rightarrow> operation_status set \<Rightarrow> db \<Rightarrow> bool" where
  "row_in k sts s \<longleftrightarrow> (\<forall>o1 \<in> set (db_operations s). o_id o1 = k \<longrightarrow> o_status o1 \<in> sts)"

definition resource_deleted :: "string \<Rightarrow> db \<Rightarrow> bool" where
  "resource_deleted k s \<longleftrightarrow> (\<forall>r \<in> set (db_resources s). r_id r = k \<longrightarrow> r_deleted_at r \<noteq> None)"

lemma owns_later: "owns op s \<Longrightarrow> world_le s t \<Longrightarrow> owns op t"
proof -
  assume s: "owns op s" and le: "world_le s t"
  from s obtain a where a: "a \<in> set (db_operations s)" "row_fixed a op" by (auto simp: owns_def)
  with le obtain b where b: "b \<in> set (db_operations t)" "op_later a b"
    unfolding world_le_def ops_le_def by blast
  with a have ops: "\<exists>b \<in> set (db_operations t). row_fixed b op"
    by (intro bexI [of _ b]) (simp_all add: op_later_def row_fixed_def)
  have "k \<in> r_id ` set (db_resources t)" if "k \<in> r_id ` set (db_resources s)" for k
  proof -
    from that obtain r where r: "r \<in> set (db_resources s)" "k = r_id r" by (rule imageE) simp
    with le obtain r' where "r' \<in> set (db_resources t)" "res_later r r'"
      unfolding world_le_def res_le_def by blast
    then show ?thesis using r by (metis imageI res_later_def)
  qed
  with ops show "owns op t" using s le by (simp add: owns_def world_le_def)
qed

lemmas owns_spec = spec_moves [OF _ owns_later]

lemma owns_copy:
  assumes "row_fixed op' op" shows "owns op' s = owns op s"
proof -
  from assms have "row_fixed a op' = row_fixed a op" for a by (simp add: row_fixed_def)
  with assms show ?thesis by (simp add: owns_def row_fixed_def)
qed

lemma owns_row: "owns op s \<Longrightarrow> \<exists>o1 \<in> set (db_operations s). o_id o1 = o_id op"
  by (auto simp: owns_def row_fixed_def)

lemma owns_distinct: "owns op s \<Longrightarrow> distinct (map o_id (db_operations s))"
  by (simp add: owns_def db_ok_def operations_ok_def)

lemma row_in_mono: "row_in k sts s \<Longrightarrow> sts \<subseteq> sts' \<Longrightarrow> row_in k sts' s"
  by (auto simp: row_in_def)

lemma transition_unguarded:
  assumes "owns op s"
  shows "\<exists>row patched t. transition now op None f patch s = (Inr (Some (row, patched)), t) \<and>
    db_operations t = update_where (matches_guard (o_id op) None)
      (\<lambda>o1. (f o1)\<lparr> o_updated_at := now \<rparr>) (db_operations s) \<and>
    db_resources t = (case (patch, truthy (o_resource_id op)) of
       (Some p, Some k) \<Rightarrow> update_where (\<lambda>r. r_id r = k)
          (\<lambda>r. (patch_row p r)\<lparr> r_updated_at := now \<rparr>) (db_resources s)
     | _ \<Rightarrow> db_resources s)"
proof -
  let ?g = "\<lambda>o1. (f o1)\<lparr> o_updated_at := now \<rparr>"
  from owns_row [OF assms] obtain o1 where "o1 \<in> set (db_operations s)" "o_id o1 = o_id op" by blast
  then have "first_row (returning (matches_guard (o_id op) None) ?g (db_operations s)) \<noteq> None"
    unfolding first_row_returning_None by (auto simp: matches_guard_def)
  then obtain row where row: "first_row (returning (matches_guard (o_id op) None) ?g (db_operations s)) = Some row"
    by blast
  let ?s = "s\<lparr> db_operations := update_where (matches_guard (o_id op) None) ?g (db_operations s) \<rparr>"
  have run: "transition now op None f patch s = (case patch_owned now op patch ?s of
      (Inl e, t) \<Rightarrow> (Inl e, s) | (Inr patched, t) \<Rightarrow> (Inr (Some (row, patched)), t))"
    by (simp add: transition_def eff_simps update_operation_run row split: prod.splits sum.splits)
  show ?thesis
  proof (cases "\<exists>p k. patch = Some p \<and> truthy (o_resource_id op) = Some k")
    case True
    then obtain p k where p: "patch = Some p" "truthy (o_resource_id op) = Some k" by blast
    with assms obtain r where "r \<in> set (db_resources ?s)" "r_id r = k" by (auto simp: owns_def)
    from apply_patch_run [OF this, of now p] show ?thesis
      using run p by (auto simp: patch_owned_def eff_simps)
  next
    case False
    then have "patch_owned now op patch ?s = (Inr None, ?s)"
      by (cases patch; cases "truthy (o_resource_id op)") (auto simp: patch_owned_def eff_simps)
    with run False show ?thesis by (auto split: option.split)
  qed
qed

definition tombstoned :: "resource_patch option \<Rightarrow> operation \<Rightarrow> db \<Rightarrow> bool" where
  "tombstoned patch op s \<longleftrightarrow> (case (patch, truthy (o_resource_id op)) of
     (Some (PatchDeleted t), Some k) \<Rightarrow> resource_deleted k s | _ \<Rightarrow> True)"

lemma row_in_updated:
  assumes "\<And>o1. o_status (g o1) = st"
    and "db_operations t = update_where (matches_guard k None) g ops"
  shows "row_in k {st} (t\<lparr> db_notes := ns \<rparr>)"
proof -
  have "o_status r = st" if r: "r \<in> set (update_where (matches_guard k None) g ops)" "o_id r = k" for r
  proof -
    from update_where_in [OF r(1)] have "\<exists>r0. r = g r0"
      using r(2) by (auto simp: matches_guard_def)
    then show ?thesis using assms(1) by auto
  qed
  then show ?thesis by (simp add: row_in_def assms(2))
qed

lemma tombstoned_patched:
  assumes "db_resources t = (case (patch, truthy (o_resource_id op)) of
      (Some p, Some k) \<Rightarrow> update_where (\<lambda>r. r_id r = k)
         (\<lambda>r. (patch_row p r)\<lparr> r_updated_at := now \<rparr>) rs
    | _ \<Rightarrow> rs)"
  shows "tombstoned patch op (t\<lparr> db_notes := ns \<rparr>)"
proof (cases "\<exists>d k. patch = Some (PatchDeleted d) \<and> truthy (o_resource_id op) = Some k")
  case True
  then obtain d k where p: "patch = Some (PatchDeleted d)" "truthy (o_resource_id op) = Some k" by blast
  have "r_deleted_at r \<noteq> None" if r: "r \<in> set (update_where (\<lambda>r. r_id r = k)
      (\<lambda>r. (patch_row (PatchDeleted d) r)\<lparr> r_updated_at := now \<rparr>) rs)" "r_id r = k" for r
  proof -
    from update_where_in [OF r(1)] r(2) obtain r0 where
      "r = (patch_row (PatchDeleted d) r0)\<lparr> r_updated_at := now \<rparr>" by blast
    then show ?thesis by simp
  qed
  then show ?thesis
    unfolding tombstoned_def resource_deleted_def by (simp add: assms p)
next
  case False
  show ?thesis
  proof (cases patch)
    case (Some pt)
    with False show ?thesis
      by (cases pt; cases "truthy (o_resource_id op)") (simp_all add: tombstoned_def)
  qed (simp add: tombstoned_def)
qed

lemma close_spec:
  assumes st: "\<And>o1. o_status (f o1) = st"
    and mv: "eff_moves world_le m"
    and m: "\<And>s. m s = eff_bind (transition now op None f patch) (\<lambda>closed. case closed of
      None \<Rightarrow> eff_throw err | Some (row, patched) \<Rightarrow> announce op row patched patch) s"
  shows "eff_spec (owns op) m
    (\<lambda>_ s. owns op s \<and> row_in (o_id op) {st} s \<and> tombstoned patch op s) (\<lambda>_ _. False)"
proof -
  have out: "\<exists>x t'. m s = (Inr x, t') \<and> row_in (o_id op) {st} t' \<and> tombstoned patch op t'"
    if ow: "owns op s" for s
  proof -
    obtain row patched t where
      tr: "transition now op None f patch s = (Inr (Some (row, patched)), t)"
      and ops: "db_operations t = update_where (matches_guard (o_id op) None)
        (\<lambda>o1. (f o1)\<lparr> o_updated_at := now \<rparr>) (db_operations s)"
      and res: "db_resources t = (case (patch, truthy (o_resource_id op)) of
         (Some p, Some k) \<Rightarrow> update_where (\<lambda>r. r_id r = k)
            (\<lambda>r. (patch_row p r)\<lparr> r_updated_at := now \<rparr>) (db_resources s)
       | _ \<Rightarrow> db_resources s)"
      using transition_unguarded [OF ow, of now f patch] by (elim exE conjE)
    obtain ns where
      an: "announce op row patched patch t = (Inr (with_request op row), t\<lparr> db_notes := ns \<rparr>)"
      using announce_run [of op row patched patch t] by (elim exE)
    have "m s = (Inr (with_request op row), t\<lparr> db_notes := ns \<rparr>)"
      unfolding m eff_bind_run tr by (simp add: an)
    moreover have "row_in (o_id op) {st} (t\<lparr> db_notes := ns \<rparr>)"
      by (rule row_in_updated [OF _ ops]) (simp add: st)
    moreover have "tombstoned patch op (t\<lparr> db_notes := ns \<rparr>)"
      by (rule tombstoned_patched [OF res])
    ultimately show ?thesis by (intro exI conjI)
  qed
  show ?thesis
  proof (rule specI)
    fix s x t assume run: "owns op s" "m s = (Inr x, t)"
    moreover have "owns op t" by (rule owns_later [OF run(1) world.moves_state [OF mv run(2)]])
    moreover from out [OF run(1)] run(2) have "row_in (o_id op) {st} t \<and> tombstoned patch op t"
      by (elim exE conjE) simp
    ultimately show "owns op t \<and> row_in (o_id op) {st} t \<and> tombstoned patch op t" by simp
  next
    fix s e t assume run: "owns op s" "m s = (Inl e, t)"
    from out [OF run(1)] run(2) show False by (elim exE conjE) simp
  qed
qed

lemma succeeded_spec:
  "eff_spec (owns op) (mark_operation_succeeded now op result patch)
    (\<lambda>_ s. owns op s \<and> row_in (o_id op) {Succeeded} s \<and> tombstoned patch op s) (\<lambda>_ _. False)"
  by (rule close_spec [OF _ marks_world(3) fun_cong [OF mark_operation_succeeded_def]]) simp

lemma failed_spec:
  "eff_spec (owns op) (mark_operation_failed now op err patch)
    (\<lambda>_ s. owns op s \<and> row_in (o_id op) {Failed} s \<and> tombstoned patch op s) (\<lambda>_ _. False)"
  by (rule close_spec [OF _ marks_world(4) fun_cong [OF mark_operation_failed_def]]) simp

text \<open>A guarded transition that returns leaves the row in the status it moves to.\<close>

lemma guarded_row:
  assumes run: "guarded op sts P now f patch s = (Inr o', t)" and ids: "distinct (map o_id (db_operations s))"
    and f: "\<And>o1. o_id (f o1) = o_id o1" "\<And>o1. o_status (f o1) = st"
    and P: "\<And>o1. P o1 \<Longrightarrow> o_status o1 = st"
  shows "\<exists>row. find (\<lambda>o1. o_id o1 = o_id op) (db_operations t) = Some row \<and> o_status row = st \<and>
    o' = with_request op row"
proof -
  obtain x u where t: "transition now op (Some sts) f patch s = (x, u)"
    by (cases "transition now op (Some sts) f patch s")
  consider (applied) row patched where "x = Inr (Some (row, patched))" | (none) "x = Inr None"
    using run t by (auto simp: guarded_def eff_bind_run split: sum.splits option.splits)
  then show ?thesis
  proof cases
    case applied
    note tr = transition_Some [OF t [unfolded applied]]
    obtain ns where "o' = with_request op row" "t = u\<lparr> db_notes := ns \<rparr>"
      using run t announce_run [of op row patched patch u]
      by (auto simp: guarded_def eff_bind_run applied)
    with find_updated [OF ids tr(1)] f tr(2) show ?thesis by auto
  next
    case none
    from transition_None [OF t [unfolded none]] run t
    have "settled_or_conflict op P s = (Inr o', t)" by (auto simp: guarded_def eff_bind_run none)
    with P show ?thesis
      by (auto simp: settled_or_conflict_def find_operation_def eff_simps split: option.splits if_splits)
  qed
qed

lemma found_row_in:
  assumes "distinct (map o_id (db_operations t))"
    and "find (\<lambda>o1. o_id o1 = k) (db_operations t) = Some row"
  shows "row_in k {o_status row} t"
  unfolding row_in_def
proof (intro ballI impI)
  fix o1 assume "o1 \<in> set (db_operations t)" "o_id o1 = k"
  with find_key_eq [OF assms(1) this(1)] assms(2) show "o_status o1 \<in> {o_status row}" by simp
qed

lemma found_copy:
  assumes "owns op t" "find (\<lambda>o1. o_id o1 = o_id op) (db_operations t) = Some row"
  shows "row_fixed (with_request op row) op"
proof -
  from assms(1) obtain a where a: "a \<in> set (db_operations t)" "row_fixed a op" by (auto simp: owns_def)
  have "find (\<lambda>x. o_id x = o_id a) (db_operations t) = Some a"
    by (rule find_key_eq [OF owns_distinct [OF assms(1)] a(1)])
  moreover have "o_id a = o_id op" using a(2) by (simp add: row_fixed_def)
  ultimately show ?thesis using assms(2) a(2) by (simp add: row_fixed_def with_request_def)
qed

lemma guarded_spec:
  assumes "eff_moves world_le (guarded op sts P now f patch)"
    and "\<And>o1. o_id (f o1) = o_id o1" "\<And>o1. o_status (f o1) = st" "\<And>o1. P o1 \<Longrightarrow> o_status o1 = st"
  shows "eff_spec (owns op) (guarded op sts P now f patch)
    (\<lambda>x s. owns op s \<and> row_in (o_id op) {st} s \<and> row_fixed x op) (\<lambda>_. owns op)"
proof (rule specI)
  fix s x t assume s: "owns op s" and run: "guarded op sts P now f patch s = (Inr x, t)"
  from guarded_row [OF run owns_distinct [OF s] assms(2-4)] obtain row where
    row: "find (\<lambda>o1. o_id o1 = o_id op) (db_operations t) = Some row" "o_status row = st"
      "x = with_request op row" by blast
  have t: "owns op t" by (rule owns_later [OF s world.moves_state [OF assms(1) run]])
  from found_row_in [OF owns_distinct [OF t] row(1)] found_copy [OF t row(1)] t row(2,3)
  show "owns op t \<and> row_in (o_id op) {st} t \<and> row_fixed x op" by simp
next
  fix s e t assume run: "owns op s" "guarded op sts P now f patch s = (Inl e, t)"
  show "owns op t" by (rule owns_later [OF run(1) world.moves_state [OF assms(1) run(2)]])
qed

lemma running_spec:
  "eff_spec (owns op) (mark_operation_running now op patch)
    (\<lambda>x s. owns op s \<and> row_in (o_id op) {Running} s \<and> row_fixed x op) (\<lambda>_. owns op)"
  using marks_world(1) [of now op patch] unfolding marks_guarded by (rule guarded_spec) simp_all

lemma canceled_spec:
  "eff_spec (owns op) (mark_operation_canceled now op patch)
    (\<lambda>x s. owns op s \<and> row_in (o_id op) {Canceled} s \<and> row_fixed x op) (\<lambda>_. owns op)"
  using marks_world(6) [of now op patch] unfolding marks_guarded by (rule guarded_spec) simp_all

lemma awaiting_spec:
  "eff_spec (owns op) (mark_operation_awaiting_approval now op approval)
    (\<lambda>x s. owns op s \<and> row_in (o_id op) {AwaitingApproval} s \<and> row_fixed x op) (\<lambda>_. owns op)"
  using marks_world(2) [of now op approval] unfolding marks_guarded by (rule guarded_spec) simp_all

end
