(* ===== verification/Approval.thy ===== *)
theory Approval
  imports Outcomes
begin

text \<open>
  The approval gate: apps/api/src/policies (the two policies, their registry and
  \<open>evaluateOperationApproval\<close>) and operations/approval.ts (\<open>waitForOperationApproval\<close>). The durable
  hook the gate waits on is the parameter \<open>decision\<close>: given the hook's token it answers whether the
  operation was approved, and the database may change while it waits. The theorems: what makes a
  policy list require approval, that a required operation is not let through without an approving
  decision, and the status the operation's row has when the gate returns.
\<close>

section \<open>Policies\<close>

fun operation_kind_str :: "operation_kind \<Rightarrow> string" where
  "operation_kind_str OpCreate = ''create''"
| "operation_kind_str OpUpdate = ''update''"
| "operation_kind_str OpDelete = ''delete''"
| "operation_kind_str OpImport = ''import''"
| "operation_kind_str OpRead = ''read''"
| "operation_kind_str OpLookup = ''lookup''"
| "operation_kind_str OpScan = ''scan''"

definition is_mutating_kind :: "string \<Rightarrow> bool" where
  "is_mutating_kind kind \<longleftrightarrow> kind \<in> set [''create'', ''update'', ''delete'', ''import'']"

definition policy_answer :: "bool \<Rightarrow> policy_result" where
  "policy_answer b = \<lparr> po_required = b, po_approvers = None, po_reason = None \<rparr>"

definition always_policy :: "string \<Rightarrow> policy_result" where
  "always_policy kind = policy_answer (is_mutating_kind kind)"

definition on_destroy_policy :: "string \<Rightarrow> policy_result" where
  "on_destroy_policy kind = policy_answer (kind = ''delete'')"

text \<open>\<open>policyRegistry[id]\<close> on a plain object: the registered policies, the members every object
  inherits (which have no \<open>evaluate\<close>, so the call is a \<open>TypeError\<close>), and \<open>undefined\<close>.\<close>

definition evaluate_policy :: "string \<Rightarrow> string \<Rightarrow> js_error + policy_result" where
  "evaluate_policy kind k =
     (if k = ''always'' then Inr (always_policy kind)
      else if k = ''on_destroy'' then Inr (on_destroy_policy kind)
      else if object_inherited k \<noteq> JUndef
      then Inl (PlainError ''policy.evaluate is not a function'')
      else Inr (policy_answer False))"

definition evaluate_policies :: "string \<Rightarrow> string list \<Rightarrow> js_error + policy_result list" where
  "evaluate_policies kind policy_ids = map_res (evaluate_policy kind) policy_ids"

definition is_approval_required :: "policy_result list \<Rightarrow> bool" where
  "is_approval_required results \<longleftrightarrow> list_ex po_required results"

definition approved_by_type :: "operation \<Rightarrow> actor_type option" where
  "approved_by_type op =
     (case o_approval op of None \<Rightarrow> None | Some a \<Rightarrow> map_option fst (ap_approved_by a))"

record approval_requirement =
  rq_required :: bool
  rq_policy_ids :: "string list"
  rq_policy_results :: "policy_result list"

definition policy_ids_for :: "resource option \<Rightarrow> project \<Rightarrow> string list" where
  "policy_ids_for resource project =
     (case resource of
        None \<Rightarrow> p_approval_policy project
      | Some r \<Rightarrow> (case r_approval_policy r of None \<Rightarrow> p_approval_policy project | Some ids \<Rightarrow> ids))"

definition evaluate_operation_approval ::
  "operation \<Rightarrow> resource option \<Rightarrow> approval_requirement svc" where
  "evaluate_operation_approval op resource =
     (if approved_by_type op \<noteq> None
      then eff_return \<lparr> rq_required = False, rq_policy_ids = [], rq_policy_results = [] \<rparr>
      else eff_bind (eff_get (\<lambda>s. find (\<lambda>p. p_id p = o_project_id op) (db_projects s))) (\<lambda>project.
        case project of
          None \<Rightarrow> eff_throw (PlainError (''project not found: '' @ o_project_id op))
        | Some p \<Rightarrow>
            (let ids = policy_ids_for resource p in
             eff_bind (eff_lift (evaluate_policies (operation_kind_str (o_kind op)) ids)) (\<lambda>results.
             eff_return \<lparr> rq_required = is_approval_required results, rq_policy_ids = ids,
                          rq_policy_results = results \<rparr>))))"

section \<open>The gate\<close>

datatype gate_result = Approved operation | NotApproved operation

definition operation_approval_token :: "operation \<Rightarrow> string" where
  "operation_approval_token op = ''operation-approval:'' @ o_id op"

definition requested_approval :: "int \<Rightarrow> operation \<Rightarrow> approval_requirement \<Rightarrow> operation_approval" where
  "requested_approval now op requirement =
     \<lparr> ap_requested_at = now, ap_policy_ids = rq_policy_ids requirement,
       ap_policy_results = rq_policy_results requirement,
       ap_hook = Some (operation_approval_token op), ap_approved_by = None, ap_approved_at = None,
       ap_canceled_by = None, ap_canceled_at = None \<rparr>"

definition cancel_awaiting_operation :: "int \<Rightarrow> operation \<Rightarrow> operation svc" where
  "cancel_awaiting_operation now op =
     mark_operation_canceled now op
       (if (o_kind op = OpCreate \<or> o_kind op = OpImport) \<and> truthy (o_resource_id op) \<noteq> None
        then Some (PatchDeleted now) else None)"

text \<open>A step reads the clock when it runs: \<open>clock\<close> gives the time in a state.\<close>

definition with_now :: "(db \<Rightarrow> int) \<Rightarrow> (int \<Rightarrow> 'a svc) \<Rightarrow> 'a svc" where
  "with_now clock f = (\<lambda>s. f (clock s) s)"

definition wait_for_operation_approval ::
  "(db \<Rightarrow> int) \<Rightarrow> (string \<Rightarrow> bool svc) \<Rightarrow> operation \<Rightarrow> resource option \<Rightarrow> gate_result svc" where
  "wait_for_operation_approval clock decision op resource =
     eff_bind (evaluate_operation_approval op resource) (\<lambda>requirement.
       if \<not> rq_required requirement
       then eff_bind (with_now clock (\<lambda>now. mark_operation_running now op None))
              (\<lambda>o1. eff_return (Approved o1))
       else
         eff_bind (with_now clock (\<lambda>now.
             mark_operation_awaiting_approval now op (requested_approval now op requirement)))
           (\<lambda>awaiting.
         eff_bind (decision (operation_approval_token op)) (\<lambda>approved.
           if \<not> approved
           then eff_bind (with_now clock (\<lambda>now. cancel_awaiting_operation now awaiting))
                  (\<lambda>o1. eff_return (NotApproved o1))
           else eff_bind (with_now clock (\<lambda>now. mark_operation_running now awaiting None))
                  (\<lambda>o1. eff_return (Approved o1)))))"

section \<open>When approval is required\<close>

definition plain_policy :: "string \<Rightarrow> bool" where
  "plain_policy k \<longleftrightarrow> \<not> inherited_name k"

lemma evaluate_policy_plain:
  "plain_policy k \<Longrightarrow> evaluate_policy kind k =
     Inr (policy_answer (k = ''always'' \<and> is_mutating_kind kind \<or> k = ''on_destroy'' \<and> kind = ''delete''))"
  by (auto simp: evaluate_policy_def plain_policy_def always_policy_def on_destroy_policy_def
      object_inherited_plain)

lemma evaluate_policies_plain:
  "list_all plain_policy ids \<Longrightarrow> evaluate_policies kind ids =
     Inr (map (\<lambda>k. policy_answer
       (k = ''always'' \<and> is_mutating_kind kind \<or> k = ''on_destroy'' \<and> kind = ''delete'')) ids)"
  unfolding evaluate_policies_def
  by (induction ids) (simp_all add: evaluate_policy_plain)

lemma required_by_policies:
  "list_ex po_required (map (\<lambda>k. policy_answer
     (k = ''always'' \<and> m \<or> k = ''on_destroy'' \<and> d)) ids) \<longleftrightarrow>
   m \<and> ''always'' \<in> set ids \<or> d \<and> ''on_destroy'' \<in> set ids"
  by (induction ids) (auto simp: policy_answer_def)

lemma mutating_kinds:
  "is_mutating_kind (operation_kind_str kind) \<longleftrightarrow> kind \<in> {OpCreate, OpUpdate, OpDelete, OpImport}"
  "operation_kind_str kind = ''delete'' \<longleftrightarrow> kind = OpDelete"
  by (cases kind; simp add: is_mutating_kind_def)+

definition policy_requires :: "operation_kind \<Rightarrow> string list \<Rightarrow> bool" where
  "policy_requires kind ids \<longleftrightarrow>
     ''always'' \<in> set ids \<and> kind \<in> {OpCreate, OpUpdate, OpDelete, OpImport} \<or>
     ''on_destroy'' \<in> set ids \<and> kind = OpDelete"

lemma evaluate_operation_approval_run:
  assumes "approved_by_type op = None"
    and "find (\<lambda>p. p_id p = o_project_id op) (db_projects s) = Some p"
    and "list_all plain_policy (policy_ids_for resource p)"
  shows "\<exists>results. evaluate_operation_approval op resource s =
    (Inr \<lparr> rq_required = policy_requires (o_kind op) (policy_ids_for resource p),
           rq_policy_ids = policy_ids_for resource p, rq_policy_results = results \<rparr>, s)"
  using assms
  by (auto simp: evaluate_operation_approval_def eff_simps Let_def evaluate_policies_plain
      is_approval_required_def required_by_policies mutating_kinds policy_requires_def)

lemma inherited_policy_throws:
  assumes "approved_by_type op = None"
    and "find (\<lambda>p. p_id p = o_project_id op) (db_projects s) = Some p"
    and "policy_ids_for resource p = [''constructor'']"
  shows "evaluate_operation_approval op resource s =
    (Inl (PlainError ''policy.evaluate is not a function''), s)"
proof -
  have "object_inherited ''constructor'' = JFun ''constructor''" by code_simp
  then have "evaluate_policies kind [''constructor''] =
      Inl (PlainError ''policy.evaluate is not a function'')" for kind
    by (simp add: evaluate_policies_def evaluate_policy_def)
  with assms show ?thesis by (simp add: evaluate_operation_approval_def eff_simps Let_def)
qed

section \<open>What the gate answers\<close>

lemma with_now_spec: "(\<And>now. eff_spec P (f now) Q E) \<Longrightarrow> eff_spec P (with_now clock f) Q E"
  by (simp add: eff_spec_def with_now_def)

lemma with_now_moves: "(\<And>now. eff_moves R (f now)) \<Longrightarrow> eff_moves R (with_now clock f)"
  by (simp add: eff_moves_def with_now_def)

lemma evaluate_unchanged: "snd (evaluate_operation_approval op resource s) = s"
  by (simp add: evaluate_operation_approval_def eff_simps Let_def split: option.split sum.split)

definition gate_row :: "operation \<Rightarrow> gate_result \<Rightarrow> db \<Rightarrow> bool" where
  "gate_row op r s \<longleftrightarrow> owns op s \<and> (case r of
     Approved o1 \<Rightarrow> row_in (o_id op) {Running} s \<and> row_fixed o1 op
   | NotApproved o1 \<Rightarrow> row_in (o_id op) {Canceled} s \<and> row_fixed o1 op)"

lemma gate_spec:
  assumes "eff_moves world_le (decision (operation_approval_token op))"
  shows "eff_spec (owns op) (wait_for_operation_approval clock decision op resource)
    (gate_row op) (\<lambda>_. owns op)"
proof -
  have copy: "eff_spec (\<lambda>s. owns op s \<and> row_fixed o1 op) m Q E"
    if "row_fixed o1 op \<Longrightarrow> eff_spec (owns op) m Q E" for o1 m Q E
    using that by (cases "row_fixed o1 op") (auto simp: eff_spec_def)
  have run: "eff_spec (owns op) (with_now clock (\<lambda>now. mark_operation_running now o1 None))
      (\<lambda>x s. gate_row op (Approved x) s) (\<lambda>_. owns op)" if "row_fixed o1 op" for o1
  proof (rule with_now_spec, rule spec_weaken [OF running_spec])
    show "owns o1 s" if "owns op s" for s using that owns_copy [OF \<open>row_fixed o1 op\<close>] by simp
    show "owns op s" if "owns o1 s" for s using that owns_copy [OF \<open>row_fixed o1 op\<close>] by simp
    show "gate_row op (Approved x) s" if "owns o1 s \<and> row_in (o_id o1) {Running} s \<and> row_fixed x o1" for x s
      using that owns_copy [OF \<open>row_fixed o1 op\<close>] \<open>row_fixed o1 op\<close>
      by (simp add: gate_row_def row_fixed_def)
  qed
  have cancel: "eff_spec (owns op) (with_now clock (\<lambda>now. cancel_awaiting_operation now o1))
      (\<lambda>x s. gate_row op (NotApproved x) s) (\<lambda>_. owns op)" if "row_fixed o1 op" for o1
    unfolding cancel_awaiting_operation_def
  proof (rule with_now_spec, rule spec_weaken [OF canceled_spec])
    show "owns o1 s" if "owns op s" for s using that owns_copy [OF \<open>row_fixed o1 op\<close>] by simp
    show "owns op s" if "owns o1 s" for s using that owns_copy [OF \<open>row_fixed o1 op\<close>] by simp
    show "gate_row op (NotApproved x) s" if "owns o1 s \<and> row_in (o_id o1) {Canceled} s \<and> row_fixed x o1" for x s
      using that owns_copy [OF \<open>row_fixed o1 op\<close>] \<open>row_fixed o1 op\<close>
      by (simp add: gate_row_def row_fixed_def)
  qed
  have evaluate: "eff_spec (owns op) (evaluate_operation_approval op resource) (\<lambda>_. owns op) (\<lambda>_. owns op)"
    by (rule specI) (metis evaluate_unchanged snd_conv)+
  have wait: "eff_spec (owns op) (with_now clock (\<lambda>now. mark_operation_awaiting_approval now op (a now)))
      (\<lambda>x s. owns op s \<and> row_fixed x op) (\<lambda>_. owns op)" for a
    by (rule with_now_spec, rule spec_weaken [OF awaiting_spec]) simp_all
  have decide: "eff_spec (owns op) (decision (operation_approval_token op)) (\<lambda>_. owns op) (\<lambda>_. owns op)"
    by (rule owns_spec [OF assms])
  have fixed: "row_fixed op op" by (simp add: row_fixed_def)
  show ?thesis
    unfolding wait_for_operation_approval_def
  proof (rule spec_bind [OF evaluate], rule spec_if)
    fix requirement
    show "eff_spec (owns op) (eff_bind (with_now clock (\<lambda>now. mark_operation_running now op None))
        (\<lambda>o1. eff_return (Approved o1))) (gate_row op) (\<lambda>_. owns op)"
      by (rule spec_bind [OF run [OF fixed]], rule spec_return) simp
    show "eff_spec (owns op) (eff_bind (with_now clock (\<lambda>now.
          mark_operation_awaiting_approval now op (requested_approval now op requirement)))
        (\<lambda>awaiting. eff_bind (decision (operation_approval_token op)) (\<lambda>approved.
           if \<not> approved
           then eff_bind (with_now clock (\<lambda>now. cancel_awaiting_operation now awaiting))
                  (\<lambda>o1. eff_return (NotApproved o1))
           else eff_bind (with_now clock (\<lambda>now. mark_operation_running now awaiting None))
                  (\<lambda>o1. eff_return (Approved o1))))) (gate_row op) (\<lambda>_. owns op)"
    proof (rule spec_bind [OF wait], rule copy, rule spec_bind [OF decide], rule spec_if)
      fix awaiting approved assume a: "row_fixed awaiting op"
      show "eff_spec (owns op) (eff_bind (with_now clock (\<lambda>now. cancel_awaiting_operation now awaiting))
          (\<lambda>o1. eff_return (NotApproved o1))) (gate_row op) (\<lambda>_. owns op)"
        by (rule spec_bind [OF cancel [OF a]], rule spec_return) simp
      show "eff_spec (owns op) (eff_bind (with_now clock (\<lambda>now. mark_operation_running now awaiting None))
          (\<lambda>o1. eff_return (Approved o1))) (gate_row op) (\<lambda>_. owns op)"
        by (rule spec_bind [OF run [OF a]], rule spec_return) simp
    qed
  qed
qed

lemma required_gate:
  assumes "evaluate_operation_approval op resource s = (Inr requirement, s)" "rq_required requirement"
    and "\<And>t. fst (decision (operation_approval_token op) t) \<noteq> Inr True"
  shows "fst (wait_for_operation_approval clock decision op resource s) \<noteq> Inr (Approved o1)"
proof
  assume "fst (wait_for_operation_approval clock decision op resource s) = Inr (Approved o1)"
  then obtain t where run: "wait_for_operation_approval clock decision op resource s = (Inr (Approved o1), t)"
    by (metis prod.collapse)
  obtain awaiting s1 where rest: "eff_bind (decision (operation_approval_token op)) (\<lambda>approved.
      if \<not> approved
      then eff_bind (with_now clock (\<lambda>now. cancel_awaiting_operation now awaiting))
             (\<lambda>o1. eff_return (NotApproved o1))
      else eff_bind (with_now clock (\<lambda>now. mark_operation_running now awaiting None))
             (\<lambda>o1. eff_return (Approved o1))) s1 = (Inr (Approved o1), t)"
    using run unfolding wait_for_operation_approval_def eff_bind_run [of "evaluate_operation_approval op resource"]
      assms(1) prod.case sum.case
    using assms(2) by (simp only: simp_thms if_False) (erule eff_bind_InrE)
  from rest obtain approved s2 where d: "decision (operation_approval_token op) s1 = (Inr approved, s2)"
    and k: "(if \<not> approved
      then eff_bind (with_now clock (\<lambda>now. cancel_awaiting_operation now awaiting))
             (\<lambda>o1. eff_return (NotApproved o1))
      else eff_bind (with_now clock (\<lambda>now. mark_operation_running now awaiting None))
             (\<lambda>o1. eff_return (Approved o1))) s2 = (Inr (Approved o1), t)"
    by (rule eff_bind_InrE)
  show False
  proof (cases approved)
    case True
    with d assms(3) [of s1] show False by simp
  next
    case False
    with k have "eff_bind (with_now clock (\<lambda>now. cancel_awaiting_operation now awaiting))
      (\<lambda>o1. eff_return (NotApproved o1)) s2 = (Inr (Approved o1), t)" by simp
    then obtain o2 s3 where "eff_return (NotApproved o2) s3 = ((Inr (Approved o1), t) :: (js_error + gate_result) \<times> db)"
      by (rule eff_bind_InrE)
    then show False by (simp add: eff_run)
  qed
qed

text \<open>For policies of the registry or unknown ones, an operation without a recorded approval needs
  one exactly when the resource's policy list, or else the project's, holds \<open>always\<close> and the
  operation is a create, update, delete or import, or holds \<open>on_destroy\<close> and it is a delete; the
  answer lists that policy list, and the database is not changed.\<close>

theorem approval_requirement:
  assumes "approved_by_type op = None"
    and "find (\<lambda>p. p_id p = o_project_id op) (db_projects s) = Some p"
    and "list_all plain_policy (policy_ids_for resource p)"
  shows "\<exists>results. evaluate_operation_approval op resource s =
    (Inr \<lparr> rq_required = policy_requires (o_kind op) (policy_ids_for resource p),
           rq_policy_ids = policy_ids_for resource p, rq_policy_results = results \<rparr>, s)"
  by (rule evaluate_operation_approval_run [OF assms])

text \<open>An operation that needs approval is not let through the gate unless its hook answers with
  an approval: when the hook of the operation never does, whatever else happens to the database
  while the gate waits, the gate does not answer \<open>approved\<close>.\<close>

theorem gate_needs_approval:
  assumes "approved_by_type op = None"
    and "find (\<lambda>p. p_id p = o_project_id op) (db_projects s) = Some p"
    and "list_all plain_policy (policy_ids_for resource p)"
    and "policy_requires (o_kind op) (policy_ids_for resource p)"
    and "\<And>t. fst (decision (operation_approval_token op) t) \<noteq> Inr True"
  shows "fst (wait_for_operation_approval clock decision op resource s) \<noteq> Inr (Approved o1)"
proof -
  from evaluate_operation_approval_run [OF assms(1-3)] obtain results where
    "evaluate_operation_approval op resource s =
      (Inr \<lparr> rq_required = policy_requires (o_kind op) (policy_ids_for resource p),
             rq_policy_ids = policy_ids_for resource p, rq_policy_results = results \<rparr>, s)" by blast
  then show ?thesis by (rule required_gate [where decision = decision]) (use assms(4,5) in simp_all)
qed

text \<open>When the gate returns, the operation's row says so: it is running when the gate answered
  \<open>approved\<close> and canceled otherwise, and the operation answered is the one given, in the columns
  that never change. This needs of the rest of the system, which runs while the gate waits, only
  what every service guarantees.\<close>

theorem gate_outcome:
  assumes "owns op s" "eff_moves world_le (decision (operation_approval_token op))"
    and "wait_for_operation_approval clock decision op resource s = (Inr r, t)"
  shows "(case r of
      Approved o1 \<Rightarrow> row_in (o_id op) {Running} t \<and> row_fixed o1 op
    | NotApproved o1 \<Rightarrow> row_in (o_id op) {Canceled} t \<and> row_fixed o1 op) \<and>
    (\<exists>o1 \<in> set (db_operations t). o_id o1 = o_id op)"
proof -
  from spec_InrD [OF gate_spec [of decision op clock resource, OF assms(2)] assms(1,3)]
  have g: "gate_row op r t" .
  then have "owns op t" by (simp add: gate_row_def)
  from g owns_row [OF this] show ?thesis by (simp add: gate_row_def)
qed

text \<open>Witnesses: a create that the project's policy \<open>always\<close> holds back.\<close>

definition guarded_db :: db where
  "guarded_db = created_db\<lparr> db_projects :=
     map (\<lambda>p. p\<lparr> p_approval_policy := [''always''] \<rparr>) (db_projects created_db) \<rparr>"

definition guarded_project :: project where
  "guarded_project = hd (db_projects guarded_db)"

definition answer :: "bool \<Rightarrow> string \<Rightarrow> bool svc" where
  "answer b token = eff_return b"

lemma guarded_facts:
  "approved_by_type created_op = None"
  "find (\<lambda>p. p_id p = o_project_id created_op) (db_projects guarded_db) = Some guarded_project"
  "list_all plain_policy (policy_ids_for None guarded_project)"
  "policy_requires (o_kind created_op) (policy_ids_for None guarded_project)"
  by code_simp+

lemma approval_requirement_witness:
  "rq_required (projr (fst (evaluate_operation_approval created_op None guarded_db)))"
  using approval_requirement [OF guarded_facts(1-3)] guarded_facts(4) by auto

lemma gate_needs_approval_witness:
  "fst (wait_for_operation_approval (\<lambda>_. 7) (answer False) created_op None guarded_db) \<noteq>
    Inr (Approved created_op)"
  by (rule gate_needs_approval [OF guarded_facts]) (simp add: answer_def eff_run)

lemma guarded_owns: "owns created_op guarded_db"
proof -
  have "db_ok guarded_db" using created_db_ok by (simp add: guarded_db_def db_ok_def)
  moreover have "db_operations guarded_db = [created_op]" "r_id ` set (db_resources guarded_db) = {''r''}"
    "o_resource_id created_op = Some ''r''" by code_simp+
  ultimately show ?thesis by (simp add: owns_def row_fixed_def)
qed

lemma gate_outcome_witness:
  "row_in (o_id created_op) {Canceled}
    (snd (wait_for_operation_approval (\<lambda>_. 7) (answer False) created_op None guarded_db))"
proof -
  let ?w = "wait_for_operation_approval (\<lambda>_. 7) (answer False) created_op None guarded_db"
  have "case fst ?w of Inr (NotApproved o1) \<Rightarrow> True | _ \<Rightarrow> False" by code_simp
  then obtain o1 where "fst ?w = Inr (NotApproved o1)" by (auto split: sum.splits gate_result.splits)
  then have "?w = (Inr (NotApproved o1), snd ?w)" by (metis prod.collapse)
  from gate_outcome [OF guarded_owns _ this] show ?thesis
    by (simp add: answer_def world.moves_basic)
qed

end
