(* ===== verification/ErrorContract.thy ===== *)
theory ErrorContract
  imports JsValue Errors
begin

text \<open>
  The errors the API and its clients share: the classes of packages/contracts/src/errors with their
  registry and HTTP statuses (index.ts), the API's error handler (apps/api/src/middleware/error.ts)
  and the CLI's side of the wire (packages/cli/src/core/errors.ts). An error of a class is its tag
  and the payload its constructor took; the message is computed from the payload, so it is a function
  of the class. The fields a message reads are strings, or lists of strings where it joins them.
  A tag is not the name of a member of \<open>Object.prototype\<close>. Messages write a hyphen for an em dash.
\<close>

section \<open>The classes\<close>

datatype error_class =
  ErrorClass (ec_tag: string) (ec_fields: "string list") (ec_message: "jsobj \<Rightarrow> string")

definition fld :: "jsobj \<Rightarrow> string \<Rightarrow> string" where
  "fld p k = (case map_of p k of Some (JStr s) \<Rightarrow> s | _ \<Rightarrow> [])"

fun join_strings :: "string \<Rightarrow> string list \<Rightarrow> string" where
  "join_strings sep [] = []"
| "join_strings sep [s] = s"
| "join_strings sep (s # t # ss) = s @ sep @ join_strings sep (t # ss)"

fun string_elems :: "jsval list \<Rightarrow> string list" where
  "string_elems (JStr s # vs) = s # string_elems vs"
| "string_elems (v # vs) = [] # string_elems vs"
| "string_elems [] = []"

definition joined :: "jsobj \<Rightarrow> string \<Rightarrow> string" where
  "joined p k = (case map_of p k of Some (JArr vs) \<Rightarrow> join_strings '', '' (string_elems vs) | _ \<Rightarrow> [])"

definition operation_errors :: "error_class list" where
  "operation_errors =
    [ErrorClass ''OperationApprovalChannelForbidden'' []
       (\<lambda>_. ''operations can only be approved from the web UI''),
     ErrorClass ''OperationApprovalHookMissing'' [''operationId'']
       (\<lambda>p. ''operation '' @ fld p ''operationId'' @ '' approval hook is missing''),
     ErrorClass ''OperationLockAlreadyInflight'' [''lockKey'']
       (\<lambda>p. (if fld p ''lockKey'' \<noteq> [] then ''operation lock is already in flight: '' @ fld p ''lockKey'' else ''operation lock is already in flight'')),
     ErrorClass ''OperationNotFound'' [''operationId'']
       (\<lambda>p. ''operation not found: '' @ fld p ''operationId''),
     ErrorClass ''OperationStatusConflict'' [''operationId'', ''status'']
       (\<lambda>p. ''operation '' @ fld p ''operationId'' @ '' is '' @ fld p ''status'')]"

definition auth_errors :: "error_class list" where
  "auth_errors =
    [ErrorClass ''AuthOnboardingDisabled'' []
       (\<lambda>_. ''Onboarding is disabled when AUTH_SKIP is set.''),
     ErrorClass ''AuthOnboardingInvalidPayload'' [''detail'']
       (\<lambda>p. fld p ''detail''),
     ErrorClass ''AuthOnboardingOrgExists'' []
       (\<lambda>_. ''User already has an active organization.''),
     ErrorClass ''AuthUnauthorized'' []
       (\<lambda>_. ''Unauthorized''),
     ErrorClass ''AuthApiKeyInvalid'' []
       (\<lambda>_. ''Invalid API key''),
     ErrorClass ''AuthApiKeyNoOrg'' []
       (\<lambda>_. ''API key not bound to an organization''),
     ErrorClass ''AuthNoActiveOrg'' []
       (\<lambda>_. ''No active organization''),
     ErrorClass ''AuthDeviceCodeRequestFailed'' [''detail'']
       (\<lambda>p. ''Failed to request device code: '' @ fld p ''detail''),
     ErrorClass ''AuthDeviceCodeExpired'' []
       (\<lambda>_. ''Device code expired. Please try again.''),
     ErrorClass ''AuthDeviceCodeAccessDenied'' []
       (\<lambda>_. ''Access denied.''),
     ErrorClass ''AuthDeviceCodeInvalidGrant'' []
       (\<lambda>_. ''Invalid device code.''),
     ErrorClass ''AuthDeviceCodeInvalidRequest'' [''detail'']
       (\<lambda>p. fld p ''detail''),
     ErrorClass ''AuthDeviceCodePollFailed'' [''detail'']
       (\<lambda>p. ''Authentication error: '' @ fld p ''detail''),
     ErrorClass ''AuthDeviceCodeTimeout'' []
       (\<lambda>_. ''Authentication timed out.'')]"

definition bridge_errors :: "error_class list" where
  "bridge_errors =
    [ErrorClass ''BridgePhaseFailed'' [''phase'', ''detail'']
       (\<lambda>p. fld p ''phase'' @ '' failed: '' @ fld p ''detail'')]"

definition change_set_errors :: "error_class list" where
  "change_set_errors =
    [ErrorClass ''ChangeSetDryRunNotSettled'' [''pendingSlugs'']
       (\<lambda>p. ''changeset has pending dry runs for: '' @ joined p ''pendingSlugs''),
     ErrorClass ''ChangeSetDryRunDeferred'' [''blockingSlugs'']
       (\<lambda>p. ''changeset has deferred dry runs blocked on: '' @ joined p ''blockingSlugs'')]"

definition common_errors :: "error_class list" where
  "common_errors =
    [ErrorClass ''NotFound'' [''detail'']
       (\<lambda>p. fld p ''detail''),
     ErrorClass ''Conflict'' [''detail'']
       (\<lambda>p. fld p ''detail''),
     ErrorClass ''InvalidInput'' [''detail'']
       (\<lambda>p. fld p ''detail''),
     ErrorClass ''Internal'' [''detail'']
       (\<lambda>p. fld p ''detail'')]"

definition integration_errors :: "error_class list" where
  "integration_errors =
    [ErrorClass ''IntegrationActiveResourcesConflict'' [''slug'']
       (\<lambda>p. ''integration \"'' @ fld p ''slug'' @ ''\" still has active resources - delete them first''),
     ErrorClass ''IntegrationCreateFailed'' []
       (\<lambda>_. ''failed to create integration''),
     ErrorClass ''IntegrationDuplicateSlug'' [''slug'', ''projectSlug'']
       (\<lambda>p. ''integration with slug \"'' @ fld p ''slug'' @ ''\" already exists in project '' @ fld p ''projectSlug'' @ '' - pick a different slug''),
     ErrorClass ''IntegrationNoDefault'' [''provider'']
       (\<lambda>p. ''no default '' @ fld p ''provider'' @ '' integration in this project - create one with `opsy create integration <slug> --provider '' @ fld p ''provider'' @ '' --default` or pass --integration''),
     ErrorClass ''IntegrationProviderMismatch'' [''slug'', ''expected'', ''actual'']
       (\<lambda>p. ''integration \"'' @ fld p ''slug'' @ ''\" is a '' @ fld p ''actual'' @ '' integration, but a '' @ fld p ''expected'' @ '' integration is required here''),
     ErrorClass ''IntegrationNotFound'' [''id'']
       (\<lambda>p. ''integration not found: '' @ fld p ''id''),
     ErrorClass ''IntegrationNotFoundDeleted'' [''id'']
       (\<lambda>p. ''integration '' @ fld p ''id'' @ '' not found or was deleted''),
     ErrorClass ''IntegrationSlugNotFound'' [''slug'', ''hint'']
       (\<lambda>p. ''no integration in this project with slug \"'' @ fld p ''slug'' @ ''\"'' @ (if fld p ''hint'' \<noteq> [] then '' - '' @ fld p ''hint'' else [])),
     ErrorClass ''IntegrationUnknownProvider'' [''providerName'']
       (\<lambda>p. ''unknown provider: '' @ fld p ''providerName''),
     ErrorClass ''IntegrationCredentialsInvalid'' [''providerName'', ''issues'']
       (\<lambda>p. ''invalid credentials for '' @ fld p ''providerName'' @ '': '' @ fld p ''issues''),
     ErrorClass ''IntegrationConfigInvalid'' [''providerName'', ''issues'']
       (\<lambda>p. ''invalid config for '' @ fld p ''providerName'' @ '': '' @ fld p ''issues'')]"

definition project_errors :: "error_class list" where
  "project_errors =
    [ErrorClass ''ProjectActiveResourcesConflict'' [''slug'']
       (\<lambda>p. ''project '' @ fld p ''slug'' @ '' has active resources - delete them first''),
     ErrorClass ''ProjectCreateFailed'' []
       (\<lambda>_. ''failed to create project''),
     ErrorClass ''ProjectDuplicateSlug'' [''slug'']
       (\<lambda>p. ''project '' @ fld p ''slug'' @ '' already exists''),
     ErrorClass ''ProjectNotFound'' [''slug'']
       (\<lambda>p. ''project not found: '' @ fld p ''slug''),
     ErrorClass ''ProjectUpdateFailed'' []
       (\<lambda>_. ''failed to update project'')]"

definition provider_errors :: "error_class list" where
  "provider_errors =
    [ErrorClass ''ProviderDataSourceNotManaged'' [''providerName'', ''type'']
       (\<lambda>p. fld p ''providerName'' @ ''/'' @ fld p ''type'' @ '' is a data source, not a managed resource''),
     ErrorClass ''ProviderEntryNotManagedResource'' [''providerName'', ''type'']
       (\<lambda>p. fld p ''providerName'' @ ''/'' @ fld p ''type'' @ '' is not a data source - use '' @ [CHR 0x27] @ ''resource create'' @ [CHR 0x27] @ '' for managed resources''),
     ErrorClass ''ProviderTypeNotFound'' [''providerName'', ''type'']
       (\<lambda>p. ''unknown resource type: '' @ fld p ''providerName'' @ ''/'' @ fld p ''type''),
     ErrorClass ''ProviderTypeUnknownLookup'' [''providerName'', ''type'']
       (\<lambda>p. ''unknown type: '' @ fld p ''providerName'' @ ''/'' @ fld p ''type''),
     ErrorClass ''ProviderUnknown'' [''providerName'']
       (\<lambda>p. ''unknown provider: '' @ fld p ''providerName''),
     ErrorClass ''ProviderVersionUnavailable'' [''providerName'', ''requestedVersion'', ''availableVersion'']
       (\<lambda>p. ''provider '' @ fld p ''providerName'' @ '' version '' @ fld p ''requestedVersion'' @ '' is not available; installed version is '' @ fld p ''availableVersion''),
     ErrorClass ''ProviderInferTypeFailed'' [''type'']
       (\<lambda>p. ''cannot infer provider from type \"'' @ fld p ''type'' @ ''\" - expected <provider>_<resource>'')]"

definition resource_errors :: "error_class list" where
  "resource_errors =
    [ErrorClass ''ResourceProviderTargetNoIdentity'' [''kind'', ''slug'']
       (\<lambda>p. ''cannot '' @ fld p ''kind'' @ '' '' @ fld p ''slug'' @ '': no provider identity handle to read against''),
     ErrorClass ''ResourceDuplicateSlug'' [''slug'', ''projectSlug'']
       (\<lambda>p. ''resource '' @ fld p ''slug'' @ '' already exists in project '' @ fld p ''projectSlug''),
     ErrorClass ''ResourceImportMissingProviderId'' [''providerId'', ''detail'']
       (\<lambda>p. ''provider id '' @ fld p ''providerId'' @ '' not found: '' @ fld p ''detail''),
     ErrorClass ''ResourceImportProjectFailed'' []
       (\<lambda>_. ''failed to project import result''),
     ErrorClass ''ResourceInsertFailed'' []
       (\<lambda>_. ''insert returned no row''),
     ErrorClass ''ResourceLookupNotFound'' [''detail'']
       (\<lambda>p. fld p ''detail''),
     ErrorClass ''ResourceNotFound'' [''slug'', ''projectSlug'']
       (\<lambda>p. ''resource '' @ fld p ''slug'' @ '' does not exist in project '' @ fld p ''projectSlug''),
     ErrorClass ''ResourceParentCycle'' [''slug'', ''newParent'']
       (\<lambda>p. ''re-parenting \"'' @ fld p ''slug'' @ ''\" to \"'' @ fld p ''newParent'' @ ''\" creates a cycle''),
     ErrorClass ''ResourceParentNotFound'' [''parent'', ''projectSlug'']
       (\<lambda>p. ''parent resource \"'' @ fld p ''parent'' @ ''\" not found in project '' @ fld p ''projectSlug''),
     ErrorClass ''ResourceParentSelfReference'' [''parent'']
       (\<lambda>p. ''parent \"'' @ fld p ''parent'' @ ''\" cannot reference self''),
     ErrorClass ''ResourceProjectReadFailed'' []
       (\<lambda>_. ''failed to project read result''),
     ErrorClass ''ResourceProjectReadMissingFailed'' []
       (\<lambda>_. ''failed to project read result (missing)''),
     ErrorClass ''ResourceProjectTrackFailed'' [''resourceId'']
       (\<lambda>p. ''failed to project track result onto '' @ fld p ''resourceId''),
     ErrorClass ''ResourceReservedSlug'' []
       (\<lambda>_. [CHR 0x27] @ ''data'' @ [CHR 0x27] @ '' is a reserved slug - used by '' @ [CHR 0x27] @ ''opsy resource read data'' @ [CHR 0x27] @ '' for stateless data source lookup''),
     ErrorClass ''ResourceSoftDeleteFailed'' []
       (\<lambda>_. ''failed to soft-delete resource row''),
     ErrorClass ''ResourceUpdateParentWriteFailed'' []
       (\<lambda>_. ''failed to write parent'')]"

definition schema_errors :: "error_class list" where
  "schema_errors =
    [ErrorClass ''SchemaResourceTypeNoSchema'' [''providerName'', ''type'', ''kind'']
       (\<lambda>p. fld p ''providerName'' @ ''/'' @ fld p ''type'' @ '' has no '' @ fld p ''kind'' @ '' schema''),
     ErrorClass ''SchemaTypeIdentityUnknown'' [''providerName'', ''type'']
       (\<lambda>p. ''unknown resource type: '' @ fld p ''providerName'' @ ''/'' @ fld p ''type''),
     ErrorClass ''SchemaTypeUnknown'' [''providerName'', ''type'']
       (\<lambda>p. ''unknown resource type: '' @ fld p ''providerName'' @ ''/'' @ fld p ''type''),
     ErrorClass ''SchemaUnknownProvider'' [''name'']
       (\<lambda>p. ''unknown provider: '' @ fld p ''name''),
     ErrorClass ''SchemaRelationshipRuleValidationFailed'' [''issues'']
       (\<lambda>_. ''relationship rule validation failed''),
     ErrorClass ''SchemaRelationshipRuleGenerationUnavailable'' [''reason'']
       (\<lambda>p. ''relationship rule generation unavailable: '' @ fld p ''reason'')]"

definition REGISTRY :: "string list" where
  "REGISTRY =
    [''OperationApprovalChannelForbidden'', ''OperationApprovalHookMissing'',
     ''OperationLockAlreadyInflight'', ''OperationNotFound'', ''OperationStatusConflict'',
     ''AuthApiKeyInvalid'', ''AuthApiKeyNoOrg'', ''AuthDeviceCodeAccessDenied'',
     ''AuthDeviceCodeExpired'', ''AuthDeviceCodeInvalidGrant'',
     ''AuthDeviceCodeInvalidRequest'', ''AuthDeviceCodePollFailed'',
     ''AuthDeviceCodeRequestFailed'', ''AuthDeviceCodeTimeout'', ''AuthNoActiveOrg'',
     ''AuthOnboardingDisabled'', ''AuthOnboardingInvalidPayload'', ''AuthOnboardingOrgExists'',
     ''AuthUnauthorized'', ''BridgePhaseFailed'', ''NotFound'', ''Conflict'', ''InvalidInput'',
     ''Internal'', ''IntegrationActiveResourcesConflict'', ''IntegrationCreateFailed'',
     ''IntegrationDuplicateSlug'', ''IntegrationNoDefault'', ''IntegrationNotFound'',
     ''IntegrationNotFoundDeleted'', ''IntegrationProviderMismatch'',
     ''IntegrationSlugNotFound'', ''IntegrationUnknownProvider'',
     ''ProjectActiveResourcesConflict'', ''ProjectCreateFailed'', ''ProjectDuplicateSlug'',
     ''ProjectNotFound'', ''ProjectUpdateFailed'', ''ProviderDataSourceNotManaged'',
     ''ProviderEntryNotManagedResource'', ''ProviderTypeNotFound'',
     ''ProviderTypeUnknownLookup'', ''ProviderUnknown'', ''ProviderVersionUnavailable'',
     ''ProviderInferTypeFailed'', ''ChangeSetDryRunNotSettled'', ''ChangeSetDryRunDeferred'',
     ''ResourceProviderTargetNoIdentity'', ''ResourceDuplicateSlug'',
     ''ResourceImportMissingProviderId'', ''ResourceImportProjectFailed'',
     ''ResourceInsertFailed'', ''ResourceLookupNotFound'', ''ResourceNotFound'',
     ''ResourceParentCycle'', ''ResourceParentNotFound'', ''ResourceParentSelfReference'',
     ''ResourceProjectReadFailed'', ''ResourceProjectReadMissingFailed'',
     ''ResourceProjectTrackFailed'', ''ResourceReservedSlug'', ''ResourceSoftDeleteFailed'',
     ''ResourceUpdateParentWriteFailed'', ''SchemaRelationshipRuleGenerationUnavailable'',
     ''SchemaRelationshipRuleValidationFailed'', ''SchemaResourceTypeNoSchema'',
     ''SchemaTypeIdentityUnknown'', ''SchemaTypeUnknown'', ''SchemaUnknownProvider'']"

definition STATUS :: "(string \<times> nat) list" where
  "STATUS =
    [(''AuthDeviceCodeInvalidRequest'', 400), (''AuthDeviceCodePollFailed'', 400),
     (''AuthDeviceCodeRequestFailed'', 400), (''AuthOnboardingDisabled'', 400),
     (''AuthOnboardingInvalidPayload'', 400), (''IntegrationNoDefault'', 400),
     (''IntegrationProviderMismatch'', 400), (''IntegrationSlugNotFound'', 400),
     (''IntegrationUnknownProvider'', 400), (''InvalidInput'', 400),
     (''ProviderDataSourceNotManaged'', 400), (''ProviderEntryNotManagedResource'', 400),
     (''ProviderTypeNotFound'', 400), (''ProviderTypeUnknownLookup'', 400),
     (''ProviderUnknown'', 400), (''ProviderVersionUnavailable'', 400),
     (''ProviderInferTypeFailed'', 400), (''ResourceParentCycle'', 400),
     (''ResourceParentSelfReference'', 400), (''ResourceReservedSlug'', 400),
     (''SchemaRelationshipRuleValidationFailed'', 400), (''SchemaResourceTypeNoSchema'', 400),
     (''SchemaTypeIdentityUnknown'', 400), (''SchemaTypeUnknown'', 400),
     (''SchemaUnknownProvider'', 400), (''AuthApiKeyInvalid'', 401),
     (''AuthDeviceCodeExpired'', 401), (''AuthDeviceCodeInvalidGrant'', 401),
     (''AuthUnauthorized'', 401), (''OperationApprovalChannelForbidden'', 403),
     (''AuthDeviceCodeAccessDenied'', 403), (''AuthApiKeyNoOrg'', 403),
     (''AuthNoActiveOrg'', 403), (''OperationNotFound'', 404), (''IntegrationNotFound'', 404),
     (''IntegrationNotFoundDeleted'', 404), (''NotFound'', 404), (''ProjectNotFound'', 404),
     (''ResourceImportMissingProviderId'', 404), (''ResourceLookupNotFound'', 404),
     (''ResourceNotFound'', 404), (''ResourceParentNotFound'', 404),
     (''OperationApprovalHookMissing'', 409), (''OperationLockAlreadyInflight'', 409),
     (''OperationStatusConflict'', 409), (''AuthOnboardingOrgExists'', 409),
     (''Conflict'', 409), (''IntegrationActiveResourcesConflict'', 409),
     (''IntegrationDuplicateSlug'', 409), (''ProjectActiveResourcesConflict'', 409),
     (''ProjectDuplicateSlug'', 409), (''ResourceProviderTargetNoIdentity'', 409),
     (''ResourceDuplicateSlug'', 409), (''ChangeSetDryRunNotSettled'', 409),
     (''ChangeSetDryRunDeferred'', 409), (''BridgePhaseFailed'', 502),
     (''SchemaRelationshipRuleGenerationUnavailable'', 503)]"

definition error_classes :: "error_class list" where
  "error_classes = operation_errors @ auth_errors @ bridge_errors @ change_set_errors @ common_errors @
     integration_errors @ project_errors @ provider_errors @ resource_errors @ schema_errors"

section \<open>On the wire\<close>

record tagged_error =
  te_tag :: string
  te_payload :: jsobj

definition class_of_tag :: "string \<Rightarrow> error_class option" where
  "class_of_tag tag = find (\<lambda>c. ec_tag c = tag) error_classes"

definition error_message :: "tagged_error \<Rightarrow> string" where
  "error_message e = (case class_of_tag (te_tag e) of None \<Rightarrow> [] | Some c \<Rightarrow> ec_message c (te_payload e))"

definition without_tag :: "jsobj \<Rightarrow> jsobj" where
  "without_tag es = filter (\<lambda>(k, v). k \<noteq> ''_tag'' \<and> k \<noteq> ''message'') es"

definition serialize :: "tagged_error \<Rightarrow> jsobj" where
  "serialize e =
     [(''_tag'', JStr (te_tag e)), (''message'', JStr (error_message e))] @ without_tag (te_payload e)"

definition deserialize :: "jsobj \<Rightarrow> tagged_error option" where
  "deserialize obj =
     (case map_of obj ''_tag'' of
        Some (JStr tag) \<Rightarrow>
          if tag \<in> set REGISTRY then Some \<lparr> te_tag = tag, te_payload = without_tag obj \<rparr> else None
      | _ \<Rightarrow> None)"

fun is_string :: "jsval \<Rightarrow> bool" where
  "is_string (JStr s) = True"
| "is_string _ = False"

definition try_deserialize :: "jsval \<Rightarrow> tagged_error option" where
  "try_deserialize v =
     (case v of
        JObj obj \<Rightarrow>
          if is_string (get_prop v ''_tag'') \<and> is_string (get_prop v ''message'')
          then deserialize obj else None
      | _ \<Rightarrow> None)"

definition http_status :: "tagged_error \<Rightarrow> nat" where
  "http_status e = (case map_of STATUS (te_tag e) of None \<Rightarrow> 500 | Some st \<Rightarrow> st)"

definition to_http :: "tagged_error \<Rightarrow> nat \<times> jsobj" where
  "to_http e = (http_status e, serialize e)"

definition is_opsy_error :: "tagged_error \<Rightarrow> bool" where
  "is_opsy_error e \<longleftrightarrow> te_tag e \<in> set REGISTRY"

section \<open>The API's error handler\<close>

text \<open>What a handler may throw: an error with a tag, hono's \<open>HTTPException\<close> (status, message,
  cause), a \<open>RefError\<close>, or anything else.\<close>

datatype thrown =
    ThrownTagged tagged_error
  | ThrownHttp nat string jsval
  | ThrownRef ref_error_code string
  | ThrownOther

record http_response =
  hr_status :: nat
  hr_body :: jsobj

function safe_json_value :: "jsval \<Rightarrow> nat \<Rightarrow> jsval" where
  "safe_json_value value depth =
     (if depth > 5 then JUndef
      else case value of
        JArr xs \<Rightarrow> JArr (filter (\<lambda>v. v \<noteq> JUndef) (map (\<lambda>item. safe_json_value item (depth + 1)) xs))
      | JObj es \<Rightarrow> JObj (fold (\<lambda>(k, item) out. let safe = safe_json_value item (depth + 1) in
                          if safe \<noteq> JUndef then put_prop k safe out else out) es [])
      | JProto ArrayProto \<Rightarrow> JArr []
      | JProto ObjectProto \<Rightarrow> JUndef
      | JFun f \<Rightarrow> JUndef
      | _ \<Rightarrow> value)"
  by pat_completeness auto
termination by (relation "measure (\<lambda>(v, d). 6 - d)") auto

declare safe_json_value.simps [simp del]

definition CODE_REGEX :: rx where
  "CODE_REGEX = RSeq (RIn lower_chars) (RStar (RIn (lower_chars @ digit_chars @ ''_'')))"

definition safe_code :: "jsobj \<Rightarrow> string option" where
  "safe_code es =
     (case map_of es ''code'' of Some (JStr s) \<Rightarrow> if rx_matches CODE_REGEX s then Some s else None | _ \<Rightarrow> None)"

definition safe_details :: "jsobj \<Rightarrow> jsval" where
  "safe_details es = (case map_of es ''details'' of None \<Rightarrow> JUndef | Some v \<Rightarrow> safe_json_value v 0)"

definition safe_api_cause :: "jsval \<Rightarrow> string option \<times> jsval" where
  "safe_api_cause cause = (case cause of JObj es \<Rightarrow> (safe_code es, safe_details es) | _ \<Rightarrow> (None, JUndef))"

definition spread :: "jsobj \<Rightarrow> jsobj \<Rightarrow> jsobj" where \<comment> \<open>\<open>{ ...base, ...extra }\<close>\<close>
  "spread base extra = fold (\<lambda>(k, v). AList.update k v) extra base"

definition opsy_error_body :: "tagged_error \<Rightarrow> http_response" where
  "opsy_error_body e =
     (let message = JStr (error_message e); tag = JStr (te_tag e); status = JNum (of_nat (http_status e)) in
      \<lparr> hr_status = http_status e,
        hr_body = spread
          [(''error'', message), (''code'', tag), (''status'', status), (''_tag'', tag), (''message'', message)]
          (without_tag (serialize e)) \<rparr>)"

definition api_error_body :: "string \<Rightarrow> string \<Rightarrow> nat \<Rightarrow> jsval \<Rightarrow> http_response" where
  "api_error_body message code status details =
     \<lparr> hr_status = status,
       hr_body = [(''error'', JStr message), (''code'', JStr code), (''status'', JNum (of_nat status))] @
         (if details = JUndef then [] else [(''details'', details)]) \<rparr>"

definition ref_error_message :: "ref_error_code \<Rightarrow> string \<Rightarrow> string" where
  "ref_error_message code detail = code_str code @ '': '' @ detail"

definition internal_response :: http_response where
  "internal_response =
     \<lparr> hr_status = 500,
       hr_body = [(''error'', JStr ''Internal server error''), (''code'', JStr ''internal_error''),
         (''status'', JNum 500)] \<rparr>"

definition error_handler :: "thrown \<Rightarrow> http_response" where
  "error_handler err =
     (case err of
        ThrownTagged e \<Rightarrow> if is_opsy_error e then opsy_error_body e else internal_response
      | ThrownHttp status message cause \<Rightarrow>
          (let (code, details) = safe_api_cause cause in
           api_error_body message (case code of None \<Rightarrow> ''api_error'' | Some c \<Rightarrow> c) status details)
      | ThrownRef code detail \<Rightarrow>
          api_error_body (ref_error_message code detail) ''api_error'' (status_of code) JUndef
      | ThrownOther \<Rightarrow> internal_response)"

datatype log_level = LogError | LogWarn | LogDebug

definition level_for_status :: "nat \<Rightarrow> log_level" where
  "level_for_status status =
     (if status \<ge> 500 then LogError
      else if status \<in> set [401, 403, 409, 429] then LogWarn
      else LogDebug)"

section \<open>The CLI\<close>

record cli_error =
  cx_message :: string
  cx_code :: string
  cx_hint :: "string option"
  cx_status :: "nat option"

datatype cli_failure = CliOpsy tagged_error | CliFailure cli_error | CliOther

definition auth_expired :: cli_error where
  "auth_expired =
     \<lparr> cx_message = ''Session expired'', cx_code = ''AUTH_EXPIRED'',
       cx_hint = Some ''Run \"opsy auth login\" to re-authenticate'', cx_status = None \<rparr>"

fun text_of :: "jsval \<Rightarrow> string option" where \<comment> \<open>the wire's texts are strings; absent or null is \<open>??\<close>'s left\<close>
  "text_of (JStr s) = Some s"
| "text_of _ = None"

fun first_text :: "jsval list \<Rightarrow> string option" where
  "first_text [] = None"
| "first_text (v # vs) = (case text_of v of Some s \<Rightarrow> Some s | None \<Rightarrow> first_text vs)"

fun path_elem :: "jsval \<Rightarrow> string" where \<comment> \<open>a key or an index\<close>
  "path_elem (JStr s) = s"
| "path_elem (JNum n) = nat_str (nat \<lfloor>n\<rfloor>)"
| "path_elem _ = []"

definition path_text :: "jsval \<Rightarrow> string" where
  "path_text path =
     (case path of
        JArr ks \<Rightarrow> if ks = [] then ''(root)'' else join_strings ''.'' (map path_elem ks)
      | _ \<Rightarrow> ''(root)'')"

definition format_legacy_issues :: "jsval list \<Rightarrow> string" where
  "format_legacy_issues issues = join_strings ''; '' (map (\<lambda>i.
     path_text (get_prop i ''path'') @ '': '' @
     (case text_of (get_prop i ''message'') of None \<Rightarrow> ''invalid'' | Some m \<Rightarrow> m)) issues)"

definition api_error :: "(string \<Rightarrow> jsval option) \<Rightarrow> (jsval \<Rightarrow> string) \<Rightarrow> nat \<Rightarrow> jsval \<Rightarrow> cli_failure" where
  "api_error json_parse json_stringify status body =
     (let parsed = (case body of
            JStr s \<Rightarrow> (case json_parse s of None \<Rightarrow> JNull | Some v \<Rightarrow> v)
          | _ \<Rightarrow> if is_object body then body else JNull)
      in case try_deserialize parsed of
           Some e \<Rightarrow> CliOpsy e
         | None \<Rightarrow>
             if status = 401 then CliFailure auth_expired
             else
               (let fallback = (case get_prop parsed ''issues'' of
                      JArr (i # is) \<Rightarrow> Some (format_legacy_issues (i # is)) | _ \<Rightarrow> None);
                    structured = (case first_text [get_prop parsed ''error'', get_prop parsed ''message''] of
                      Some m \<Rightarrow> Some m | None \<Rightarrow> fallback);
                    message = (case structured of
                      Some m \<Rightarrow> m
                    | None \<Rightarrow> ''API error '' @ nat_str status @ '': '' @
                        (case body of JStr s \<Rightarrow> s | _ \<Rightarrow> json_stringify body))
                in CliFailure
                     \<lparr> cx_message = message, cx_code = ''API_ERROR'',
                       cx_hint = text_of (get_prop parsed ''hint''), cx_status = Some status \<rparr>))"

definition exit_code_for_status :: "nat \<Rightarrow> nat" where
  "exit_code_for_status status =
     (if status = 401 \<or> status = 403 then 3
      else if status = 404 then 4
      else if status = 400 \<or> status = 422 then 5
      else if status = 409 then 7
      else 1)"

definition exit_code_for_error :: "cli_failure \<Rightarrow> nat" where
  "exit_code_for_error err =
     (case err of
        CliOpsy e \<Rightarrow>
          if is_opsy_error e then exit_code_for_status (http_status e) else 1
      | CliFailure f \<Rightarrow>
          if cx_code f = ''NETWORK_ERROR'' then 6
          else if cx_code f = ''AUTH_EXPIRED'' then 3
          else if cx_code f = ''DRY_RUN_TIMEOUT'' then 8
          else if cx_code f = ''DRY_RUN_ERROR'' then 9
          else (case cx_status f of Some st \<Rightarrow> exit_code_for_status st | None \<Rightarrow> 1)
      | CliOther \<Rightarrow> 1)"

section \<open>Messages\<close>

definition reads_fields :: "error_class \<Rightarrow> bool" where
  "reads_fields c \<longleftrightarrow> (\<forall>p q. (\<forall>k \<in> set (ec_fields c). map_of p k = map_of q k) \<longrightarrow>
     ec_message c p = ec_message c q)"

lemma reads_fieldsD:
  "reads_fields c \<Longrightarrow> (\<And>k. k \<in> set (ec_fields c) \<Longrightarrow> map_of p k = map_of q k) \<Longrightarrow>
   ec_message c p = ec_message c q"
  by (simp add: reads_fields_def)

lemmas class_lists = operation_errors_def auth_errors_def bridge_errors_def change_set_errors_def
  common_errors_def integration_errors_def project_errors_def provider_errors_def
  resource_errors_def schema_errors_def

lemma classes_read_fields:
  "list_all reads_fields operation_errors" "list_all reads_fields auth_errors"
  "list_all reads_fields bridge_errors" "list_all reads_fields change_set_errors"
  "list_all reads_fields common_errors" "list_all reads_fields integration_errors"
  "list_all reads_fields project_errors" "list_all reads_fields provider_errors"
  "list_all reads_fields resource_errors" "list_all reads_fields schema_errors"
  by (simp_all add: class_lists reads_fields_def fld_def joined_def)

lemma error_class_reads: "c \<in> set error_classes \<Longrightarrow> reads_fields c"
  using classes_read_fields unfolding error_classes_def list_all_iff by auto

section \<open>Lookups in bodies\<close>

lemma map_of_without_tag:
  "map_of (without_tag es) k = (if k = ''_tag'' \<or> k = ''message'' then None else map_of es k)"
  by (induction es) (auto simp: without_tag_def)

lemma without_tag_same:
  "\<forall>k \<in> {''_tag'', ''message''}. k \<notin> fst ` set es \<Longrightarrow> without_tag es = es"
  unfolding without_tag_def by (rule filter_True) force

lemma map_of_spread:
  "distinct (map fst extra) \<Longrightarrow> map_of (spread base extra) = map_of base ++ map_of extra"
proof (induction extra arbitrary: base)
  case Nil
  then show ?case by (simp add: spread_def)
next
  case (Cons e extra)
  obtain k v where e: "e = (k, v)" by (cases e)
  have "spread base (e # extra) = spread (AList.update k v base) extra" by (simp add: spread_def e)
  moreover have "map_of (spread (AList.update k v base) extra) = map_of (AList.update k v base) ++ map_of extra"
    by (rule Cons.IH) (use Cons.prems in simp)
  moreover have "map_of extra k = None" using Cons.prems by (simp add: e map_of_eq_None_iff)
  ultimately show ?case
    by (simp add: e fun_eq_iff map_add_def split: option.split)
qed

definition plain_payload :: "tagged_error \<Rightarrow> bool" where
  "plain_payload e \<longleftrightarrow> distinct (map fst (te_payload e)) \<and>
     ''_tag'' \<notin> set (map fst (te_payload e)) \<and> ''message'' \<notin> set (map fst (te_payload e))"

definition has_fields :: "tagged_error \<Rightarrow> bool" where
  "has_fields e \<longleftrightarrow> (case class_of_tag (te_tag e) of
     None \<Rightarrow> False | Some c \<Rightarrow> set (ec_fields c) \<subseteq> set (map fst (te_payload e)))"

lemma serialize_payload: "plain_payload e \<Longrightarrow> without_tag (serialize e) = te_payload e"
proof -
  assume "plain_payload e"
  then have "without_tag (te_payload e) = te_payload e"
    by (intro without_tag_same) (auto simp: plain_payload_def)
  moreover have "without_tag ((''_tag'', a) # (''message'', b) # es) = without_tag es" for a b es
    by (simp add: without_tag_def)
  ultimately show ?thesis by (simp add: serialize_def)
qed

section \<open>Properties\<close>

text \<open>An error of a registered class comes back from the wire as it was: \<open>deserialize\<close> inverts
  \<open>serialize\<close> on the tag and the payload, hence on the message.\<close>

theorem error_round_trip:
  assumes "is_opsy_error e" "plain_payload e"
  shows "deserialize (serialize e) = Some e"
  using assms serialize_payload [OF assms(2)]
  by (simp add: deserialize_def is_opsy_error_def serialize_def)

lemma message_kept:
  assumes "has_fields e" "te_tag e' = te_tag e"
    and "map_of (te_payload e) \<subseteq>\<^sub>m map_of (te_payload e')"
  shows "error_message e' = error_message e"
proof -
  from assms(1) obtain c where "class_of_tag (te_tag e) = Some c"
    by (auto simp: has_fields_def split: option.splits)
  then have c: "c \<in> set error_classes" "class_of_tag (te_tag e) = Some c"
    by (auto simp: class_of_tag_def dest: find_Some_in)
  have "ec_message c (te_payload e) = ec_message c (te_payload e')"
  proof (rule reads_fieldsD [OF error_class_reads [OF c(1)]])
    fix k assume "k \<in> set (ec_fields c)"
    with assms(1) c(2) have "k \<in> dom (map_of (te_payload e))"
      by (auto simp: has_fields_def dom_map_of_conv_image_fst)
    with assms(3) show "map_of (te_payload e) k = map_of (te_payload e') k"
      by (simp add: map_le_def)
  qed
  then show ?thesis by (simp add: error_message_def assms(2) c(2))
qed

text \<open>C11: an error of a registered class thrown in the API reaches the user of the CLI as the same
  error: whatever the status, the CLI rebuilds an error with the tag, the message and every payload
  field of the one thrown from the body the API answers with, and exits with the code that belongs
  to the HTTP status of the answer.\<close>

theorem cli_sees_api_error:
  assumes "is_opsy_error e" "plain_payload e" "has_fields e"
  shows "\<exists>e'. api_error json_parse json_stringify (hr_status (error_handler (ThrownTagged e)))
        (JObj (hr_body (error_handler (ThrownTagged e)))) = CliOpsy e' \<and>
      te_tag e' = te_tag e \<and> error_message e' = error_message e \<and>
      map_of (te_payload e) \<subseteq>\<^sub>m map_of (te_payload e') \<and>
      exit_code_for_error (CliOpsy e') = exit_code_for_status (hr_status (error_handler (ThrownTagged e)))"
proof -
  let ?base = "[(''error'', JStr (error_message e)), (''code'', JStr (te_tag e)),
    (''status'', JNum (of_nat (http_status e))), (''_tag'', JStr (te_tag e)), (''message'', JStr (error_message e))]"
  let ?body = "spread ?base (te_payload e)"
  let ?e' = "\<lparr> te_tag = te_tag e, te_payload = without_tag ?body \<rparr>"
  have r: "error_handler (ThrownTagged e) = \<lparr> hr_status = http_status e, hr_body = ?body \<rparr>"
    using assms(1,2) by (simp add: error_handler_def opsy_error_body_def Let_def serialize_payload)
  have body: "map_of ?body = map_of ?base ++ map_of (te_payload e)"
    by (rule map_of_spread) (use assms(2) in \<open>simp add: plain_payload_def\<close>)
  have none: "map_of (te_payload e) ''_tag'' = None" "map_of (te_payload e) ''message'' = None"
    using assms(2) by (auto simp: plain_payload_def map_of_eq_None_iff)
  have "map_of ?body ''_tag'' = Some (JStr (te_tag e))" "map_of ?body ''message'' = Some (JStr (error_message e))"
    unfolding body using none by (simp_all add: map_add_def)
  then have "try_deserialize (JObj ?body) = Some ?e'"
    using assms(1) by (simp add: try_deserialize_def deserialize_def is_opsy_error_def)
  then have "api_error json_parse json_stringify (http_status e) (JObj ?body) = CliOpsy ?e'"
    by (simp add: api_error_def Let_def)
  moreover have le: "map_of (te_payload e) \<subseteq>\<^sub>m map_of (te_payload ?e')"
    unfolding map_le_def
  proof
    fix k assume k: "k \<in> dom (map_of (te_payload e))"
    with none have "k \<noteq> ''_tag'' \<and> k \<noteq> ''message''" by auto
    with k show "map_of (te_payload e) k = map_of (te_payload ?e') k"
      by (auto simp: map_of_without_tag body map_add_def)
  qed
  moreover have "error_message ?e' = error_message e"
    by (rule message_kept [OF assms(3) _ le]) simp
  moreover have "exit_code_for_error (CliOpsy ?e') = exit_code_for_status (http_status e)"
    using assms(1) by (simp add: exit_code_for_error_def is_opsy_error_def http_status_def)
  ultimately show ?thesis unfolding r by auto
qed

lemma registered_operation:
  "filter (\<lambda>tag. tag \<notin> set REGISTRY) (map ec_tag operation_errors) = []"
  by (simp add: REGISTRY_def operation_errors_def)

lemma registered_auth:
  "filter (\<lambda>tag. tag \<notin> set REGISTRY) (map ec_tag auth_errors) = []"
  by (simp add: REGISTRY_def auth_errors_def)

lemma registered_bridge:
  "filter (\<lambda>tag. tag \<notin> set REGISTRY) (map ec_tag bridge_errors) = []"
  by (simp add: REGISTRY_def bridge_errors_def)

lemma registered_change_set:
  "filter (\<lambda>tag. tag \<notin> set REGISTRY) (map ec_tag change_set_errors) = []"
  by (simp add: REGISTRY_def change_set_errors_def)

lemma registered_common:
  "filter (\<lambda>tag. tag \<notin> set REGISTRY) (map ec_tag common_errors) = []"
  by (simp add: REGISTRY_def common_errors_def)

lemma registered_project:
  "filter (\<lambda>tag. tag \<notin> set REGISTRY) (map ec_tag project_errors) = []"
  by (simp add: REGISTRY_def project_errors_def)

lemma registered_provider:
  "filter (\<lambda>tag. tag \<notin> set REGISTRY) (map ec_tag provider_errors) = []"
  by (simp add: REGISTRY_def provider_errors_def)

lemma registered_resource:
  "filter (\<lambda>tag. tag \<notin> set REGISTRY) (map ec_tag resource_errors) = []"
  by (simp add: REGISTRY_def resource_errors_def)

lemma registered_schema:
  "filter (\<lambda>tag. tag \<notin> set REGISTRY) (map ec_tag schema_errors) = []"
  by (simp add: REGISTRY_def schema_errors_def)

lemma registered_integration:
  "filter (\<lambda>tag. tag \<notin> set REGISTRY) (map ec_tag integration_errors) = [''IntegrationCredentialsInvalid'', ''IntegrationConfigInvalid'']"
  by (simp add: REGISTRY_def integration_errors_def)

text \<open>Two classes are missing from the registry, the ones thrown for an integration whose
  credentials or configuration do not validate. The API answers them with status 500 and the text
  "Internal server error", without the validation issues; every other class is registered.\<close>

theorem invalid_integration_is_internal:
  "filter (\<lambda>tag. tag \<notin> set REGISTRY) (map ec_tag error_classes) =
     [''IntegrationCredentialsInvalid'', ''IntegrationConfigInvalid''] \<and>
   error_handler (ThrownTagged \<lparr> te_tag = ''IntegrationConfigInvalid'', te_payload = p \<rparr>) = internal_response \<and>
   error_handler (ThrownTagged \<lparr> te_tag = ''IntegrationCredentialsInvalid'', te_payload = p \<rparr>) = internal_response"
proof (intro conjI)
  show "filter (\<lambda>tag. tag \<notin> set REGISTRY) (map ec_tag error_classes) =
     [''IntegrationCredentialsInvalid'', ''IntegrationConfigInvalid'']"
    by (simp add: error_classes_def registered_operation registered_auth registered_bridge registered_change_set
      registered_common registered_project registered_provider registered_resource registered_schema registered_integration)
  have "''IntegrationConfigInvalid'' \<notin> set REGISTRY" "''IntegrationCredentialsInvalid'' \<notin> set REGISTRY"
    by code_simp+
  then show "error_handler (ThrownTagged \<lparr> te_tag = ''IntegrationConfigInvalid'', te_payload = p \<rparr>) = internal_response"
    "error_handler (ThrownTagged \<lparr> te_tag = ''IntegrationCredentialsInvalid'', te_payload = p \<rparr>) = internal_response"
    by (simp_all add: error_handler_def is_opsy_error_def)
qed

definition safe_at :: "nat \<Rightarrow> jsval \<Rightarrow> bool" where
  "safe_at n w \<longleftrightarrow> w = JUndef \<or> (is_json w \<and> json_depth w \<le> n)"

lemma set_alist_update: "set (AList.update k v m) \<subseteq> insert (k, v) (set m)"
  by (induction m) auto

definition safe_object :: "nat \<Rightarrow> jsobj \<Rightarrow> bool" where
  "safe_object n out \<longleftrightarrow>
     distinct (map fst out) \<and> (\<forall>e \<in> set out. is_json (snd e) \<and> json_depth (snd e) \<le> n)"

lemma safe_object_put:
  assumes "safe_object n out" "safe_at n w" "w \<noteq> JUndef"
  shows "safe_object n (put_prop k w out)"
proof -
  have "distinct (map fst (AList.update k w out))"
    using assms(1) by (simp add: safe_object_def AList.distinct_update)
  moreover have "\<forall>e \<in> set (AList.update k w out). is_json (snd e) \<and> json_depth (snd e) \<le> n"
    using set_alist_update [of k w out] assms by (auto simp: safe_object_def safe_at_def)
  ultimately show ?thesis using assms(1) by (simp add: put_prop_def safe_object_def)
qed

lemma safe_object_Nil: "safe_object n []"
  by (simp add: safe_object_def)

lemma safe_entries:
  assumes elems: "\<And>k item. (k, item) \<in> set es \<Longrightarrow> safe_at n (f item)"
  shows "safe_object n (fold (\<lambda>(k, item) out. let safe = f item in
      if safe \<noteq> JUndef then put_prop k safe out else out) es [])"
  by (rule fold_invariant [where Q = "\<lambda>(k, item). safe_at n (f item)"])
    (use elems in \<open>auto simp: Let_def safe_object_put safe_object_Nil\<close>)

lemma safe_json_value_safe: "d \<le> 6 \<Longrightarrow> safe_at (6 - d) (safe_json_value v d)"
proof (induction v d rule: safe_json_value.induct)
  case (1 v d)
  show ?case
  proof (cases "d > 5")
    case True
    then show ?thesis by (subst safe_json_value.simps) (simp add: safe_at_def)
  next
    case False
    then have d1: "6 - d = Suc (6 - (d + 1))" by simp
    show ?thesis
    proof (cases v)
      case (JArr xs)
      have elem: "safe_at (6 - (d + 1)) (safe_json_value x (d + 1))" if "x \<in> set xs" for x
        using 1(1) [OF False JArr that] False by simp
      have "\<forall>w \<in> set (filter (\<lambda>v. v \<noteq> JUndef) (map (\<lambda>item. safe_json_value item (d + 1)) xs)).
          is_json w \<and> json_depth w \<le> 6 - (d + 1)"
        using elem by (auto simp: safe_at_def)
      then show ?thesis
        unfolding d1 by (subst safe_json_value.simps) (simp add: JArr False safe_at_def)
    next
      case (JObj es)
      have entry: "safe_at (6 - (d + 1)) (safe_json_value item (d + 1))" if "(k, item) \<in> set es" for k item
        using 1(2) [OF False JObj that refl] False by simp
      from safe_entries [of es "6 - (d + 1)" "\<lambda>item. safe_json_value item (d + 1)", OF entry]
      show ?thesis
        unfolding d1 by (subst safe_json_value.simps) (auto simp: JObj False safe_at_def safe_object_def)
    next
      case (JProto p)
      with False show ?thesis
        by (cases p; subst safe_json_value.simps) (simp_all add: safe_at_def)
    qed (use False in \<open>subst safe_json_value.simps; simp add: safe_at_def\<close>)+
  qed
qed

text \<open>The details of a rejected request that the API echoes are JSON, whatever value the thrower
  attached, and at most six levels deep: an array or object below that is left out.\<close>

theorem error_details_bounded:
  "safe_json_value v 0 = JUndef \<or>
   is_json (safe_json_value v 0) \<and> json_depth (safe_json_value v 0) \<le> 6"
  using safe_json_value_safe [of 0 v] by (simp add: safe_at_def)

text \<open>Witnesses.\<close>

definition sample_error :: tagged_error where
  "sample_error = \<lparr> te_tag = ''OperationStatusConflict'',
     te_payload = [(''operationId'', JStr ''7''), (''status'', JStr ''running'')] \<rparr>"

lemma sample_error_facts: "is_opsy_error sample_error" "plain_payload sample_error" "has_fields sample_error"
  by (simp_all add: sample_error_def is_opsy_error_def REGISTRY_def plain_payload_def has_fields_def
      class_of_tag_def error_classes_def class_lists)

lemma error_round_trip_witness: "deserialize (serialize sample_error) = Some sample_error"
  by (rule error_round_trip [OF sample_error_facts(1,2)])

lemma cli_sees_api_error_witness:
  "\<exists>e'. api_error (\<lambda>_. None) (\<lambda>_. []) (hr_status (error_handler (ThrownTagged sample_error)))
      (JObj (hr_body (error_handler (ThrownTagged sample_error)))) = CliOpsy e' \<and>
    error_message e' = ''operation 7 is running''"
proof -
  have "error_message sample_error = ''operation 7 is running''"
    by (simp add: sample_error_def error_message_def class_of_tag_def error_classes_def class_lists fld_def)
  with cli_sees_api_error [OF sample_error_facts, of "\<lambda>_. None" "\<lambda>_. []"] show ?thesis by auto
qed

end
