(* ===== verification/OperationErrors.thy ===== *)
theory OperationErrors
  imports ErrorContract Operations FieldTree
begin

text \<open>
  How an error is recorded and classified: \<open>describeOperationError\<close> of operations.ts, which peels the
  workflow engine's framing off a message and finds the provider's error code in its tail, and
  \<open>classifyImportError\<close> of lib/errors.ts. \<open>js_error\<close> values of a class of the error contract get their
  message from it; the driver's errors (constraint violations) get theirs from the argument
  \<open>driver\<close>, as a name and a message. The errors that reach \<open>describeOperationError\<close> have no \<open>cause\<close>.
  \<open>PlainError\<close> also stands for errors the JavaScript runtime and zod throw; only the recorded code
  would tell them apart.
\<close>

section \<open>Names and messages\<close>

definition text_field :: "string \<Rightarrow> string \<Rightarrow> string \<times> jsval" where
  "text_field k v = (k, JStr v)"

fun tagged_of :: "js_error \<Rightarrow> tagged_error option" where
  "tagged_of (NotFound d) = Some \<lparr> te_tag = ''NotFound'', te_payload = [text_field ''detail'' d] \<rparr>"
| "tagged_of (Conflict d) = Some \<lparr> te_tag = ''Conflict'', te_payload = [text_field ''detail'' d] \<rparr>"
| "tagged_of (InvalidInput d) = Some \<lparr> te_tag = ''InvalidInput'', te_payload = [text_field ''detail'' d] \<rparr>"
| "tagged_of (ChangeSetDryRunNotSettled slugs) = Some \<lparr> te_tag = ''ChangeSetDryRunNotSettled'',
     te_payload = [(''pendingSlugs'', JArr (map JStr slugs))] \<rparr>"
| "tagged_of (ChangeSetDryRunDeferred slugs) = Some \<lparr> te_tag = ''ChangeSetDryRunDeferred'',
     te_payload = [(''blockingSlugs'', JArr (map JStr slugs))] \<rparr>"
| "tagged_of (IntegrationActiveResourcesConflict s) =
     Some \<lparr> te_tag = ''IntegrationActiveResourcesConflict'', te_payload = [text_field ''slug'' s] \<rparr>"
| "tagged_of (IntegrationConfigInvalid p i) = Some \<lparr> te_tag = ''IntegrationConfigInvalid'',
     te_payload = [text_field ''providerName'' p, text_field ''issues'' i] \<rparr>"
| "tagged_of (IntegrationCredentialsInvalid p i) = Some \<lparr> te_tag = ''IntegrationCredentialsInvalid'',
     te_payload = [text_field ''providerName'' p, text_field ''issues'' i] \<rparr>"
| "tagged_of (IntegrationDuplicateSlug s p) = Some \<lparr> te_tag = ''IntegrationDuplicateSlug'',
     te_payload = [text_field ''slug'' s, text_field ''projectSlug'' p] \<rparr>"
| "tagged_of (IntegrationNoDefault p) =
     Some \<lparr> te_tag = ''IntegrationNoDefault'', te_payload = [text_field ''provider'' p] \<rparr>"
| "tagged_of (IntegrationNotFound k) =
     Some \<lparr> te_tag = ''IntegrationNotFound'', te_payload = [text_field ''id'' k] \<rparr>"
| "tagged_of (IntegrationProviderMismatch s e a) = Some \<lparr> te_tag = ''IntegrationProviderMismatch'',
     te_payload = [text_field ''slug'' s, text_field ''expected'' e, text_field ''actual'' a] \<rparr>"
| "tagged_of (IntegrationSlugNotFound s) = Some \<lparr> te_tag = ''IntegrationSlugNotFound'',
     te_payload = [text_field ''slug'' s,
       text_field ''hint'' ''run `opsy get integrations` to see existing slugs''] \<rparr>"
| "tagged_of (IntegrationUnknownProvider p) =
     Some \<lparr> te_tag = ''IntegrationUnknownProvider'', te_payload = [text_field ''providerName'' p] \<rparr>"
| "tagged_of (ProjectActiveResourcesConflict s) =
     Some \<lparr> te_tag = ''ProjectActiveResourcesConflict'', te_payload = [text_field ''slug'' s] \<rparr>"
| "tagged_of ProjectCreateFailed = Some \<lparr> te_tag = ''ProjectCreateFailed'', te_payload = [] \<rparr>"
| "tagged_of (ProjectDuplicateSlug s) =
     Some \<lparr> te_tag = ''ProjectDuplicateSlug'', te_payload = [text_field ''slug'' s] \<rparr>"
| "tagged_of (ProjectNotFound s) =
     Some \<lparr> te_tag = ''ProjectNotFound'', te_payload = [text_field ''slug'' s] \<rparr>"
| "tagged_of ProjectUpdateFailed = Some \<lparr> te_tag = ''ProjectUpdateFailed'', te_payload = [] \<rparr>"
| "tagged_of (ProviderInferTypeFailed t) =
     Some \<lparr> te_tag = ''ProviderInferTypeFailed'', te_payload = [text_field ''type'' t] \<rparr>"
| "tagged_of (ProviderUnknown p) =
     Some \<lparr> te_tag = ''ProviderUnknown'', te_payload = [text_field ''providerName'' p] \<rparr>"
| "tagged_of (ProviderVersionUnavailable p r a) = Some \<lparr> te_tag = ''ProviderVersionUnavailable'',
     te_payload = [text_field ''providerName'' p, text_field ''requestedVersion'' r,
       text_field ''availableVersion'' a] \<rparr>"
| "tagged_of (ResourceDuplicateSlug s p) = Some \<lparr> te_tag = ''ResourceDuplicateSlug'',
     te_payload = [text_field ''slug'' s, text_field ''projectSlug'' p] \<rparr>"
| "tagged_of ResourceReservedSlug = Some \<lparr> te_tag = ''ResourceReservedSlug'', te_payload = [] \<rparr>"
| "tagged_of (ResourceNotFound s p) = Some \<lparr> te_tag = ''ResourceNotFound'',
     te_payload = [text_field ''slug'' s, text_field ''projectSlug'' p] \<rparr>"
| "tagged_of (ResourceLookupNotFound d) =
     Some \<lparr> te_tag = ''ResourceLookupNotFound'', te_payload = [text_field ''detail'' d] \<rparr>"
| "tagged_of (ResourceImportMissingProviderId k d) = Some \<lparr> te_tag = ''ResourceImportMissingProviderId'',
     te_payload = [text_field ''providerId'' k, text_field ''detail'' d] \<rparr>"
| "tagged_of ResourceUpdateParentWriteFailed =
     Some \<lparr> te_tag = ''ResourceUpdateParentWriteFailed'', te_payload = [] \<rparr>"
| "tagged_of _ = None"

type_synonym driver = "js_error \<Rightarrow> string \<times> string"

definition name_and_message :: "driver \<Rightarrow> js_error \<Rightarrow> string \<times> string" where
  "name_and_message driver e =
     (case tagged_of e of
        Some t \<Rightarrow> (te_tag t, error_message t)
      | None \<Rightarrow>
          (case e of
             RefError code slug detail \<Rightarrow> (''RefError'', ref_error_message code detail)
           | PlainError msg \<Rightarrow> (''Error'', msg)
           | ImportNotFoundError msg k \<Rightarrow> (''ImportNotFoundError'', msg)
           | BridgeDiagnosticError msg ds \<Rightarrow> (''BridgeDiagnosticError'', msg)
           | BridgeTransportError msg st \<Rightarrow> (''BridgeTransportError'', msg)
           | _ \<Rightarrow> driver e))"

definition message_of :: "driver \<Rightarrow> js_error \<Rightarrow> string" where
  "message_of driver e = snd (name_and_message driver e)"

section \<open>Matching inside a text\<close>

definition lower_char :: "char \<Rightarrow> char" where
  "lower_char c = (if c \<in> set upper_chars then char_of (of_char c + 32 :: nat) else c)"

text \<open>\<open>/r/i.test(s)\<close>, for a pattern written in lower case.\<close>

definition rx_search_i :: "rx \<Rightarrow> string \<Rightarrow> bool" where
  "rx_search_i r s \<longleftrightarrow>
     rx_matches (RSeq (RStar (RNotIn [])) (RSeq r (RStar (RNotIn [])))) (map lower_char s)"

text \<open>The longest prefix a pattern matches, which is the one a greedy pattern without alternatives of
  different lengths finds.\<close>

fun longest_match :: "rx \<Rightarrow> string \<Rightarrow> nat option" where
  "longest_match r [] = (if nullable r then Some 0 else None)"
| "longest_match r (c # cs) =
     (case longest_match (rx_deriv c r) cs of
        Some n \<Rightarrow> Some (Suc n)
      | None \<Rightarrow> if nullable r then Some 0 else None)"

definition space_chars :: string where
  "space_chars = map char_of [9 :: nat, 10, 11, 12, 13, 32, 160]"

section \<open>describeOperationError\<close>

definition spaces :: rx where
  "spaces = RStar (RIn space_chars)"

definition STEP_WRAPPER_PREFIX :: rx where
  "STEP_WRAPPER_PREFIX =
     RSeq (ROpt (RSeq (RLit ''fatalerror:'') spaces))
    (RSeq (RLit ''step'') (RSeq (RPlus (RIn space_chars))
    (RSeq (RLit ''\"'') (RSeq (RStar (RNotIn ''\"'')) (RSeq (RLit ''\"'') (RSeq (RPlus (RIn space_chars))
    (RSeq
      (RAlt
        (RSeq (RLit ''failed after '') (RSeq (RPlus (RIn digit_chars))
          (RSeq (RLit '' retr'') (RAlt (RLit ''y'') (RLit ''ies'')))))
        (RSeq (RLit ''exceeded max retries'') (RSeq spaces
          (RSeq (RLit ''('') (RSeq (RStar (RNotIn '')'')) (RLit '')''))))))
      (RSeq spaces (RSeq (ROpt (RLit '':'')) spaces)))))))))"

definition strip_wrapper :: "string \<Rightarrow> string" where
  "strip_wrapper message =
     (case longest_match STEP_WRAPPER_PREFIX (map lower_char message) of
        None \<Rightarrow> message | Some n \<Rightarrow> drop n message)"

fun strip_wrappers :: "nat \<Rightarrow> string \<Rightarrow> string" where
  "strip_wrappers 0 message = message"
| "strip_wrappers (Suc n) message =
     (let rest = strip_wrapper message in if rest = message then message else strip_wrappers n rest)"

definition word_chars :: string where
  "word_chars = lower_chars @ upper_chars @ digit_chars @ ''_''"

definition api_error_at :: "string \<Rightarrow> (string \<times> string) option" where
  "api_error_at s =
     (let head = ''api error '';
          body = drop (length head) s;
          code = takeWhile (\<lambda>c. c \<in> set (word_chars @ ''.-'')) body;
          tail = drop (length code) body
      in if take (length head) s = head \<and> code \<noteq> [] \<and> hd code \<in> set (lower_chars @ upper_chars) \<and>
            take 2 tail = '': '' \<and> drop 2 tail \<noteq> [] \<and>
            (\<forall>c \<in> set (drop 2 tail). of_char c \<notin> {10, 13 :: nat})
         then Some (code, drop 2 tail) else None)"

fun api_error_tail :: "bool \<Rightarrow> string \<Rightarrow> (string \<times> string) option" where
  "api_error_tail after_word [] = None"
| "api_error_tail after_word (c # cs) =
     (case (if after_word then None else api_error_at (c # cs)) of
        Some m \<Rightarrow> Some m
      | None \<Rightarrow> api_error_tail (c \<in> set word_chars) cs)"

definition describe_operation_error :: "driver \<Rightarrow> js_error \<Rightarrow> operation_error" where
  "describe_operation_error driver e =
     (let (name, raw) = name_and_message driver e;
          message = js_trim (strip_wrappers 8 raw);
          (code, text) = (case api_error_tail False message of
              Some (code, tail) \<Rightarrow> (code, js_trim (code @ '': '' @ tail))
            | None \<Rightarrow> (if name = ''FatalError'' \<or> name = [] then ''Error'' else name, message))
      in \<lparr> oe_message = (if text = [] then raw else text), oe_code = code, oe_details = JNull \<rparr>)"

section \<open>classifyImportError\<close>

definition NOT_FOUND_PATTERN :: rx where
  "NOT_FOUND_PATTERN =
     RAlt (RSeq (RLit ''not'') (RSeq (RStar (RIn (''-'' @ space_chars))) (RLit ''found'')))
    (RAlt (RSeq (RLit ''non'') (RSeq (ROpt (RIn ''- '')) (RLit ''existent'')))
    (RAlt (RLit ''does not exist'')
    (RAlt (RLit ''nosuchentity'') (RLit ''notfound''))))"

definition not_found_diagnostic :: "diagnostic \<Rightarrow> bool" where
  "not_found_diagnostic d \<longleftrightarrow> dg_severity d = ''error'' \<and>
     rx_search_i NOT_FOUND_PATTERN
       ((case dg_summary d of None \<Rightarrow> [] | Some t \<Rightarrow> t) @ '' '' @ (case dg_detail d of None \<Rightarrow> [] | Some t \<Rightarrow> t))"

definition no_imported_resources :: "driver \<Rightarrow> js_error \<Rightarrow> string \<Rightarrow> js_error option" where
  "no_imported_resources driver err provider_id =
     (if rx_search_i (RLit ''no imported resources'') (message_of driver err)
      then Some (ImportNotFoundError (message_of driver err) provider_id) else None)"

definition classify_import_error :: "driver \<Rightarrow> js_error \<Rightarrow> string \<Rightarrow> js_error option" where
  "classify_import_error driver err provider_id =
     (case err of
        BridgeDiagnosticError msg ds \<Rightarrow>
          (case find not_found_diagnostic ds of
             Some hit \<Rightarrow> Some (ImportNotFoundError
               (case dg_summary hit of Some t \<Rightarrow> t | None \<Rightarrow>
                 (case dg_detail hit of Some t \<Rightarrow> t | None \<Rightarrow> msg)) provider_id)
           | None \<Rightarrow> no_imported_resources driver err provider_id)
      | _ \<Rightarrow> no_imported_resources driver err provider_id)"

lemma strip_wrapper_example:
  "oe_message (describe_operation_error (\<lambda>_. ([], [])) (PlainError
     ''Step \"apply\" failed after 3 retries: reading bucket: api error NoSuchBucket: gone'')) =
     ''NoSuchBucket: gone''"
  by code_simp

end
