(* ===== verification/ResourceWorkflows.thy ===== *)
theory ResourceWorkflows
  imports Approval References ResourceState Integrations OperationErrors
begin

text \<open>
  The resource workflows: apps/api/src/resources/workflows (index.ts, the workflow bodies, and
  steps.ts, their steps), the cached plan of resources/dry-run.ts and \<open>toProviderIntegration\<close> of
  lib/providers.ts. A workflow drives one operation: through the approval gate, the provider calls
  and the write that closes the operation together with its resource.

  What runs outside is the record \<open>runtime\<close>: the clock, the provider calls the runtime dispatches
  (each may throw, and the database may change meanwhile, since other requests run), the schema of a
  type, the answer of an approval hook, the catalog of providers, the text of driver errors and the
  JSON texts of values. A workflow engine that retries a step re-runs it; the transitions are
  idempotent (OperationProps), so a run is one execution of each step.
\<close>

section \<open>Plans and the runtime\<close>

datatype mutation_kind = MutCreate | MutUpdate | MutDelete

record plan_payload =
  pp_planned :: "jsobj option"
  pp_private :: "string option"
  pp_replace :: "string list list"

record resource_plan =
  pn_payload :: plan_payload
  pn_prior :: "jsobj option"

record apply_request =
  aq_type :: string
  aq_plan :: resource_plan
  aq_config :: "jsobj option"
  aq_kind :: mutation_kind

record provider_integration =
  pi_provider :: string
  pi_credentials :: jsobj
  pi_config :: jsobj
  pi_version :: "string option"

datatype import_handle = ByIdentity "(string \<times> string) list" | ByProviderId "string option"

type_synonym 'a dispatch = "provider_ref \<Rightarrow> provider_integration \<Rightarrow> 'a svc"

record runtime =
  rt_clock :: "db \<Rightarrow> int"
  rt_catalog :: "catalog_entry list"
  rt_decision :: "string \<Rightarrow> bool svc"
  rt_schema :: "provider_ref \<Rightarrow> string \<Rightarrow> resource_type_schema option svc"
  rt_read :: "string \<Rightarrow> jsobj \<Rightarrow> jsobj option dispatch"
  rt_plan :: "string \<Rightarrow> jsobj option \<Rightarrow> jsobj option \<Rightarrow> jsobj option \<Rightarrow> plan_payload dispatch"
  rt_apply :: "apply_request \<Rightarrow> jsobj option dispatch"
  rt_import :: "string \<Rightarrow> import_handle \<Rightarrow> jsobj dispatch"
  rt_read_data :: "string \<Rightarrow> jsobj \<Rightarrow> jsobj option dispatch"
  rt_driver :: driver
  rt_stringify :: "jsobj \<Rightarrow> string"
  rt_row_json :: "resource \<Rightarrow> jsval"

definition to_provider_integration :: "integration \<Rightarrow> provider_integration" where
  "to_provider_integration row =
     \<lparr> pi_provider = i_provider row, pi_credentials = i_credentials row, pi_config = i_config row,
       pi_version = truthy (i_provider_version row) \<rparr>"

definition dispatch_on :: "runtime \<Rightarrow> integration \<Rightarrow> 'a dispatch \<Rightarrow> 'a svc" where
  "dispatch_on rt integration call =
     eff_bind (eff_lift (provider_ref_from_integration (rt_catalog rt) integration))
       (\<lambda>ref. call ref (to_provider_integration integration))"

text \<open>\<open>try { x = await m; ok } catch (e) { err }\<close> where only \<open>m\<close> is guarded by \<open>err\<close>.\<close>

definition eff_try ::
  "('s, 'e, 'a) eff \<Rightarrow> ('a \<Rightarrow> ('s, 'e, 'b) eff) \<Rightarrow> ('e \<Rightarrow> ('s, 'e, 'b) eff) \<Rightarrow> ('s, 'e, 'b) eff" where
  "eff_try m ok err = (\<lambda>s. case m s of (Inl e, s') \<Rightarrow> err e s' | (Inr x, s') \<Rightarrow> ok x s')"

section \<open>Reads\<close>

definition shown :: "string option \<Rightarrow> string" where
  "shown k = (case k of None \<Rightarrow> ''null'' | Some s \<Rightarrow> s)"

definition find_resource :: "string \<Rightarrow> resource option svc" where
  "find_resource k = eff_get (\<lambda>s. find (\<lambda>r. r_id r = k) (db_resources s))"

definition found_or_throw :: "string \<Rightarrow> 'a option \<Rightarrow> 'a svc" where
  "found_or_throw msg x = (case x of None \<Rightarrow> eff_throw (PlainError msg) | Some y \<Rightarrow> eff_return y)"

definition get_resource_by_id :: "string option \<Rightarrow> resource svc" where
  "get_resource_by_id resource_id =
     eff_bind (case truthy resource_id of None \<Rightarrow> eff_return None | Some k \<Rightarrow> find_resource k)
       (found_or_throw (''resource not found: '' @ shown resource_id))"

definition step_integration_by_id :: "string \<Rightarrow> string option \<Rightarrow> integration svc" where
  "step_integration_by_id project_id integration_id =
     (case truthy integration_id of
        None \<Rightarrow> eff_throw (PlainError ''resource has no integration'')
      | Some k \<Rightarrow> get_integration_by_id project_id k)"

definition get_resource_schema :: "runtime \<Rightarrow> resource \<Rightarrow> integration \<Rightarrow> resource_type_schema svc" where
  "get_resource_schema rt resource integration =
     eff_bind (eff_lift (provider_ref_from_integration (rt_catalog rt) integration)) (\<lambda>ref.
     eff_bind (rt_schema rt ref (r_type resource))
       (found_or_throw (''provider '' @ i_provider integration @ '' has no schema for resource type '' @
          r_type resource)))"

text \<open>The request a workflow reads: the body the route validated, as the operation stores it.\<close>

definition request_field :: "operation \<Rightarrow> string \<Rightarrow> jsval" where
  "request_field op k = get_prop (JObj (o_request op)) k"

fun as_string :: "jsval \<Rightarrow> string option" where
  "as_string (JStr s) = Some s"
| "as_string _ = None"

fun as_object :: "jsval \<Rightarrow> jsobj option" where
  "as_object (JObj es) = Some es"
| "as_object _ = None"

definition as_identity :: "jsval \<Rightarrow> (string \<times> string) list option" where
  "as_identity v = map_option (map (\<lambda>(k, x). (k, case as_string x of None \<Rightarrow> [] | Some t \<Rightarrow> t))) (as_object v)"

section \<open>Provider calls\<close>

definition update_resource_inputs :: "runtime \<Rightarrow> operation \<Rightarrow> resource \<Rightarrow> resource svc" where
  "update_resource_inputs rt op resource =
     eff_bind (eff_lift (extract_refs (request_field op ''inputs''))) (\<lambda>refs.
     eff_bind (with_now (rt_clock rt) (\<lambda>now. \<lambda>s.
         let p = (\<lambda>r. r_id r = r_id resource);
             g = (\<lambda>r. r\<lparr> r_inputs := as_object (request_field op ''inputs''),
               r_depends_on := (if refs = [] then None else Some refs), r_updated_at := now \<rparr>)
         in (Inr (first_row (returning p g (db_resources s))),
             s\<lparr> db_resources := update_where p g (db_resources s) \<rparr>)))
       (\<lambda>updated. case updated of
          None \<Rightarrow> eff_throw ResourceUpdateParentWriteFailed
        | Some row \<Rightarrow> eff_bind (notify_resource_updated row) (\<lambda>_. eff_return row)))"

definition plan_resource ::
  "runtime \<Rightarrow> integration \<Rightarrow> string \<Rightarrow> jsobj option \<Rightarrow> jsobj option \<Rightarrow> mutation_kind \<Rightarrow> resource_plan svc" where
  "plan_resource rt integration ty identity config kind =
     eff_bind
       (case identity of
          None \<Rightarrow> dispatch_on rt integration (\<lambda>_ _. eff_return None)
        | Some state \<Rightarrow>
            if kind = MutCreate then dispatch_on rt integration (\<lambda>_ _. eff_return None)
            else dispatch_on rt integration (rt_read rt ty state)) (\<lambda>prior.
     let config = (if kind = MutDelete then None else config) in
     eff_bind (dispatch_on rt integration (rt_plan rt ty prior config config)) (\<lambda>payload.
     eff_return \<lparr> pn_payload = payload, pn_prior = prior \<rparr>))"

definition apply_resource ::
  "runtime \<Rightarrow> integration \<Rightarrow> string \<Rightarrow> jsobj option \<Rightarrow> resource_plan \<Rightarrow> mutation_kind \<Rightarrow> jsobj option svc" where
  "apply_resource rt integration ty config plan kind =
     dispatch_on rt integration (rt_apply rt
       \<lparr> aq_type = ty, aq_plan = plan, aq_config = (if kind = MutDelete then None else config),
         aq_kind = kind \<rparr>)"

definition import_handle_text :: "(string \<times> string) list option \<Rightarrow> string option \<Rightarrow> string" where
  "import_handle_text identity provider_id =
     (case provider_id of
        Some k \<Rightarrow> k
      | None \<Rightarrow> join_strings '', ''
          (map (\<lambda>(k, v). k @ ''='' @ v) (case identity of None \<Rightarrow> [] | Some es \<Rightarrow> es)))"

definition read_import_state ::
  "runtime \<Rightarrow> integration \<Rightarrow> string \<Rightarrow> (string \<times> string) list option \<Rightarrow> string option \<Rightarrow>
   (jsobj \<times> jsobj option) svc" where
  "read_import_state rt integration ty identity provider_id =
     eff_bind (eff_lift (provider_ref_from_integration (rt_catalog rt) integration)) (\<lambda>ref.
     eff_bind
       (eff_catch
          (rt_import rt ty
             (case identity of Some es \<Rightarrow> ByIdentity es | None \<Rightarrow> ByProviderId provider_id)
             ref (to_provider_integration integration))
          (\<lambda>err. case classify_import_error (rt_driver rt) err (import_handle_text identity provider_id) of
             Some not_found \<Rightarrow> eff_throw not_found
           | None \<Rightarrow> eff_throw err)) (\<lambda>state.
     eff_bind (rt_schema rt ref ty) (\<lambda>schema.
     eff_return (state, map_option (\<lambda>sch. get_inputs_by_schema_fields (ts_fields sch) (JObj state)) schema))))"

text \<open>How an apply and the preflight surface a missing import target.\<close>

definition missing_as_input_error :: "js_error \<Rightarrow> 'a svc" where
  "missing_as_input_error err =
     (case err of
        ImportNotFoundError msg k \<Rightarrow> eff_throw (ResourceImportMissingProviderId k msg)
      | _ \<Rightarrow> eff_throw err)"

definition assert_import_target_exists ::
  "runtime \<Rightarrow> integration \<Rightarrow> string \<Rightarrow> (string \<times> string) list option \<Rightarrow> string option \<Rightarrow> unit svc" where
  "assert_import_target_exists rt integration ty identity provider_id =
     eff_catch
       (eff_bind (read_import_state rt integration ty identity provider_id) (\<lambda>_. eff_return ()))
       missing_as_input_error"

definition import_resource_step ::
  "runtime \<Rightarrow> operation \<Rightarrow> resource \<Rightarrow> integration \<Rightarrow> (jsobj \<times> jsobj option) svc" where
  "import_resource_step rt op resource integration =
     eff_catch
       (read_import_state rt integration (r_type resource) (as_identity (request_field op ''identity''))
          (as_string (request_field op ''providerId'')))
       missing_as_input_error"

definition read_resource_state :: "runtime \<Rightarrow> resource \<Rightarrow> integration \<Rightarrow> jsobj option svc" where
  "read_resource_state rt resource integration =
     (case r_identity resource of
        None \<Rightarrow> eff_throw (PlainError (''resource has no identity to read: '' @ r_id resource))
      | Some identity \<Rightarrow> dispatch_on rt integration (rt_read rt (r_type resource) identity))"

definition get_data_state_by_selector :: "runtime \<Rightarrow> string \<Rightarrow> operation \<Rightarrow> integration \<Rightarrow> jsobj svc" where
  "get_data_state_by_selector rt project_id op integration =
     eff_bind (get_selector_with_resource_refs (request_field op ''selector'') project_id) (\<lambda>selector.
     let ty = (case as_string (request_field op ''type'') of None \<Rightarrow> [] | Some t \<Rightarrow> t) in
     eff_bind (dispatch_on rt integration (rt_read_data rt ty selector)) (\<lambda>state.
       case state of
         None \<Rightarrow> eff_throw (ResourceLookupNotFound
           (''no '' @ ty @ '' found for selector '' @ rt_stringify rt selector))
       | Some st \<Rightarrow> eff_return st))"

definition cached_action :: "dry_run_action \<Rightarrow> string option" where
  "cached_action a = (case a of
     ActPending \<Rightarrow> Some ''pending'' | ActDeferred \<Rightarrow> Some ''deferred'' | ActError \<Rightarrow> Some ''error''
   | _ \<Rightarrow> None)"

definition get_cached_resource_plan :: "string \<Rightarrow> resource_plan svc" where
  "get_cached_resource_plan item_id =
     eff_bind (eff_get (\<lambda>s. find (\<lambda>d. dr_item_id d = item_id) (db_dry_runs s))) (\<lambda>row.
       case row of
         None \<Rightarrow> eff_throw (PlainError (''no cached dry-run for change set item '' @ item_id))
       | Some d \<Rightarrow>
           (case cached_action (dr_action d) of
              Some a \<Rightarrow> eff_throw (PlainError (''cached dry-run for change set item '' @ item_id @ '' is '' @ a))
            | None \<Rightarrow> eff_return
                \<lparr> pn_payload = \<lparr> pp_planned = dr_planned d, pp_private = dr_private d,
                    pp_replace = (case dr_replace d of None \<Rightarrow> [] | Some ps \<Rightarrow> ps) \<rparr>,
                  pn_prior = dr_prior d \<rparr>))"

section \<open>Life cycle steps\<close>

definition start_resource_operation :: "runtime \<Rightarrow> operation \<Rightarrow> operation svc" where
  "start_resource_operation rt op = with_now (rt_clock rt) (\<lambda>now. mark_operation_running now op None)"

definition start_update_resource_operation :: "runtime \<Rightarrow> operation \<Rightarrow> operation svc" where
  "start_update_resource_operation rt op =
     with_now (rt_clock rt) (\<lambda>now. mark_operation_running now op (Some (PatchStatus Updating)))"

definition start_delete_resource_operation :: "runtime \<Rightarrow> operation \<Rightarrow> operation svc" where
  "start_delete_resource_operation rt op =
     with_now (rt_clock rt) (\<lambda>now. mark_operation_running now op (Some (PatchStatus Deleting)))"

definition complete_resource_operation ::
  "runtime \<Rightarrow> operation \<Rightarrow> jsobj \<Rightarrow> resource_patch option \<Rightarrow> (operation \<times> resource) svc" where
  "complete_resource_operation rt op result patch =
     eff_bind (with_now (rt_clock rt) (\<lambda>now. mark_operation_succeeded now op result patch)) (\<lambda>closed.
       case truthy (o_resource_id op) of
         None \<Rightarrow> eff_throw (PlainError (''operation has no resourceId: '' @ o_id op))
       | Some k \<Rightarrow>
           eff_bind (find_resource k) (\<lambda>row.
           eff_bind (found_or_throw (''resource not found: '' @ k) row) (\<lambda>resource.
           eff_return (closed, resource))))"

definition complete_update_resource_operation ::
  "runtime \<Rightarrow> operation \<Rightarrow> jsobj \<Rightarrow> jsobj option \<Rightarrow> (operation \<times> resource) svc" where
  "complete_update_resource_operation rt op result state =
     complete_resource_operation rt op result (Some (PatchApplied Live state state))"

definition complete_read_resource_operation ::
  "runtime \<Rightarrow> operation \<Rightarrow> resource \<Rightarrow> jsobj option \<Rightarrow> resource_type_schema \<Rightarrow> (operation \<times> resource) svc" where
  "complete_read_resource_operation rt op resource cloud_state schema =
     (let patch = get_resource_state_patch_after_read resource cloud_state (Some schema);
          result = [(''resourceId'', JStr (r_id resource))]
      in eff_bind (with_now (rt_clock rt) (\<lambda>now. mark_operation_succeeded now op result patch)) (\<lambda>closed.
           case patch of
             None \<Rightarrow> eff_return (closed, resource)
           | Some _ \<Rightarrow>
               eff_bind (find_resource (r_id resource)) (\<lambda>row.
               eff_bind (found_or_throw (''resource not found: '' @ r_id resource) row) (\<lambda>updated.
               eff_return (closed, updated)))))"

definition delete_resource_complete :: "runtime \<Rightarrow> operation \<Rightarrow> resource \<Rightarrow> (operation \<times> resource) svc" where
  "delete_resource_complete rt op resource =
     with_now (rt_clock rt) (\<lambda>now.
       eff_bind (mark_operation_succeeded now op [(''resourceId'', JStr (r_id resource))] (Some (PatchDeleted now)))
         (\<lambda>closed. eff_return (closed, resource\<lparr> r_deleted_at := Some now \<rparr>)))"

definition fail_resource_operation :: "runtime \<Rightarrow> operation \<Rightarrow> js_error \<Rightarrow> operation svc" where
  "fail_resource_operation rt op err =
     with_now (rt_clock rt) (\<lambda>now.
       mark_operation_failed now op (describe_operation_error (rt_driver rt) err) None)"

definition fail_update_resource_operation ::
  "runtime \<Rightarrow> operation \<Rightarrow> js_error \<Rightarrow> resource_status option \<Rightarrow> operation svc" where
  "fail_update_resource_operation rt op err prior_status =
     with_now (rt_clock rt) (\<lambda>now.
       mark_operation_failed now op (describe_operation_error (rt_driver rt) err)
         (if truthy (o_resource_id op) = None then None else map_option PatchStatus prior_status))"

definition tombstone_failed_resource_stub :: "runtime \<Rightarrow> operation \<Rightarrow> js_error \<Rightarrow> operation svc" where
  "tombstone_failed_resource_stub rt op err =
     with_now (rt_clock rt) (\<lambda>now.
       mark_operation_failed now op (describe_operation_error (rt_driver rt) err)
         (if (o_kind op = OpCreate \<or> o_kind op = OpImport) \<and> truthy (o_resource_id op) \<noteq> None
          then Some (PatchDeleted now) else None))"

section \<open>Workflows\<close>

datatype workflow_result = Ran resource | WorkflowCanceled

text \<open>The body after the gate, and \<open>catch (error) { await fail(error); throw error }\<close>.\<close>

definition gated ::
  "runtime \<Rightarrow> operation \<Rightarrow> resource \<Rightarrow> (operation \<Rightarrow> workflow_result svc) \<Rightarrow> workflow_result svc" where
  "gated rt op resource body =
     eff_bind (wait_for_operation_approval (rt_clock rt) (rt_decision rt) op (Some resource)) (\<lambda>approval.
       case approval of
         NotApproved _ \<Rightarrow> eff_return WorkflowCanceled
       | Approved approved \<Rightarrow> body approved)"

definition rethrow_after :: "(js_error \<Rightarrow> operation svc) \<Rightarrow> 'a svc \<Rightarrow> 'a svc" where
  "rethrow_after fail body = eff_catch body (\<lambda>e. eff_bind (fail e) (\<lambda>_. eff_throw e))"

definition resolved_config :: "resource \<Rightarrow> jsobj option svc" where
  "resolved_config resource =
     (case r_inputs resource of
        None \<Rightarrow> eff_return None
      | Some inputs \<Rightarrow>
          eff_bind (get_value_with_resource_refs (JObj inputs) (r_project_id resource)) (\<lambda>v.
          eff_bind (eff_lift (parse_record v)) (\<lambda>config. eff_return (Some config))))"

definition plan_for ::
  "runtime \<Rightarrow> operation \<Rightarrow> integration \<Rightarrow> string \<Rightarrow> jsobj option \<Rightarrow> jsobj option \<Rightarrow> mutation_kind \<Rightarrow>
   resource_plan svc" where
  "plan_for rt op integration ty identity config kind =
     (case truthy (o_item_id op) of
        Some item \<Rightarrow> get_cached_resource_plan item
      | None \<Rightarrow> plan_resource rt integration ty identity config kind)"

definition create_body :: "runtime \<Rightarrow> resource \<Rightarrow> operation \<Rightarrow> workflow_result svc" where
  "create_body rt resource op =
     (if request_field op ''type'' = JUndef
      then eff_bind
        (complete_resource_operation rt op
           [(''resourceId'', JStr (r_id resource)), (''resource'', rt_row_json rt resource)]
           (Some (PatchStatus Live))) (\<lambda>(_, completed). eff_return (Ran completed))
      else
        eff_bind (step_integration_by_id (r_project_id resource) (r_integration_id resource)) (\<lambda>integration.
        eff_bind (resolved_config resource) (\<lambda>config.
        eff_bind (plan_for rt op integration (r_type resource) None config MutCreate) (\<lambda>plan.
        eff_bind (apply_resource rt integration (r_type resource) config plan MutCreate) (\<lambda>state.
        eff_bind
          (complete_resource_operation rt op [(''resourceId'', JStr (r_id resource))]
             (Some (PatchApplied Live state state))) (\<lambda>(_, completed).
        eff_return (Ran completed)))))))"

definition create_resource_workflow :: "runtime \<Rightarrow> operation \<Rightarrow> workflow_result svc" where
  "create_resource_workflow rt op =
     rethrow_after (tombstone_failed_resource_stub rt op)
       (eff_bind (get_resource_by_id (o_resource_id op)) (\<lambda>resource.
        gated rt op resource (create_body rt resource)))"

definition update_body :: "runtime \<Rightarrow> resource \<Rightarrow> operation \<Rightarrow> workflow_result svc" where
  "update_body rt resource op =
     eff_bind (start_update_resource_operation rt op) (\<lambda>running.
     eff_bind (update_resource_inputs rt running resource) (\<lambda>updated.
     eff_bind (step_integration_by_id (r_project_id updated) (r_integration_id updated)) (\<lambda>integration.
     eff_bind (resolved_config updated) (\<lambda>config.
     eff_bind (plan_for rt running integration (r_type updated) (r_identity updated) config MutUpdate) (\<lambda>plan.
     eff_bind (apply_resource rt integration (r_type updated) config plan MutUpdate) (\<lambda>state.
     eff_bind
       (complete_update_resource_operation rt running [(''resourceId'', JStr (r_id resource))] state)
       (\<lambda>(_, completed). eff_return (Ran completed))))))))"

text \<open>\<open>priorStatus\<close> is \<open>null\<close> until the resource is loaded.\<close>

definition with_prior_status ::
  "runtime \<Rightarrow> operation \<Rightarrow> (resource \<Rightarrow> workflow_result svc) \<Rightarrow> workflow_result svc" where
  "with_prior_status rt op body =
     eff_try (get_resource_by_id (o_resource_id op))
       (\<lambda>resource. rethrow_after (\<lambda>e. fail_update_resource_operation rt op e (Some (r_status resource)))
          (body resource))
       (\<lambda>e. eff_bind (fail_update_resource_operation rt op e None) (\<lambda>_. eff_throw e))"

definition update_resource_workflow :: "runtime \<Rightarrow> operation \<Rightarrow> workflow_result svc" where
  "update_resource_workflow rt op =
     with_prior_status rt op (\<lambda>resource. gated rt op resource (update_body rt resource))"

definition import_body :: "runtime \<Rightarrow> resource \<Rightarrow> operation \<Rightarrow> workflow_result svc" where
  "import_body rt resource op =
     eff_bind (step_integration_by_id (r_project_id resource) (r_integration_id resource)) (\<lambda>integration.
     eff_bind (import_resource_step rt op resource integration) (\<lambda>(state, inputs).
     eff_bind
       (complete_resource_operation rt op [(''resourceId'', JStr (r_id resource))]
          (Some (PatchImported Live inputs (Some state) (Some state))))
       (\<lambda>(_, completed). eff_return (Ran completed))))"

definition import_resource_workflow :: "runtime \<Rightarrow> operation \<Rightarrow> workflow_result svc" where
  "import_resource_workflow rt op =
     rethrow_after (tombstone_failed_resource_stub rt op)
       (eff_bind (get_resource_by_id (o_resource_id op)) (\<lambda>resource.
        gated rt op resource (import_body rt resource)))"

definition read_resource_workflow :: "runtime \<Rightarrow> operation \<Rightarrow> resource svc" where
  "read_resource_workflow rt op =
     rethrow_after (fail_resource_operation rt op)
       (eff_bind (start_resource_operation rt op) (\<lambda>_.
        eff_bind (get_resource_by_id (o_resource_id op)) (\<lambda>resource.
        eff_bind (step_integration_by_id (r_project_id resource) (r_integration_id resource)) (\<lambda>integration.
        eff_bind (get_resource_schema rt resource integration) (\<lambda>schema.
        eff_bind (read_resource_state rt resource integration) (\<lambda>state.
        eff_bind (complete_read_resource_operation rt op resource state schema) (\<lambda>(_, completed).
        eff_return completed)))))))"

definition delete_body :: "runtime \<Rightarrow> resource \<Rightarrow> operation \<Rightarrow> workflow_result svc" where
  "delete_body rt resource op =
     eff_bind (start_delete_resource_operation rt op) (\<lambda>running.
     eff_bind (step_integration_by_id (r_project_id resource) (r_integration_id resource)) (\<lambda>integration.
     eff_bind (plan_for rt running integration (r_type resource) (r_identity resource) None MutDelete) (\<lambda>plan.
     eff_bind (apply_resource rt integration (r_type resource) None plan MutDelete) (\<lambda>_.
     eff_bind (delete_resource_complete rt running resource) (\<lambda>(_, completed).
     eff_return (Ran completed))))))"

definition delete_resource_workflow :: "runtime \<Rightarrow> operation \<Rightarrow> workflow_result svc" where
  "delete_resource_workflow rt op =
     with_prior_status rt op (\<lambda>resource. gated rt op resource (delete_body rt resource))"

definition forget_resource_workflow :: "runtime \<Rightarrow> operation \<Rightarrow> workflow_result svc" where
  "forget_resource_workflow rt op =
     rethrow_after (fail_resource_operation rt op)
       (eff_bind (get_resource_by_id (o_resource_id op)) (\<lambda>resource.
        gated rt op resource (\<lambda>approved.
          eff_bind (delete_resource_complete rt approved resource) (\<lambda>(_, completed).
          eff_return (Ran completed)))))"

definition lookup_data_workflow :: "runtime \<Rightarrow> operation \<Rightarrow> jsobj svc" where
  "lookup_data_workflow rt op =
     rethrow_after (fail_resource_operation rt op)
       (eff_bind (start_resource_operation rt op) (\<lambda>_.
        eff_bind (get_integration_by_resource_type (o_project_id op)
            (case as_string (request_field op ''type'') of None \<Rightarrow> [] | Some t \<Rightarrow> t)
            (as_string (request_field op ''integrationSlug''))) (\<lambda>integration.
        eff_bind (get_data_state_by_selector rt (o_project_id op) op integration) (\<lambda>state.
        eff_bind (complete_resource_operation rt op [(''state'', JObj state)] None) (\<lambda>_.
        eff_return state)))))"

end
