(* ===== verification/WorkflowProps.thy ===== *)
theory WorkflowProps
  imports ResourceWorkflows
begin

text \<open>
  Properties of the resource workflows. The rest of the system, which runs while a workflow waits for
  a provider or an approval, enters through \<open>runtime_ok\<close>: whatever those calls do to the database,
  it keeps what every service keeps (\<open>world_le\<close>).
\<close>

section \<open>Steps keep the world\<close>

definition runtime_ok :: "runtime \<Rightarrow> bool" where
  "runtime_ok rt \<longleftrightarrow>
     (\<forall>token. eff_moves world_le (rt_decision rt token)) \<and>
     (\<forall>ref ty. eff_moves world_le (rt_schema rt ref ty)) \<and>
     (\<forall>ty st ref pin. eff_moves world_le (rt_read rt ty st ref pin)) \<and>
     (\<forall>ty a b c ref pin. eff_moves world_le (rt_plan rt ty a b c ref pin)) \<and>
     (\<forall>q ref pin. eff_moves world_le (rt_apply rt q ref pin)) \<and>
     (\<forall>ty h ref pin. eff_moves world_le (rt_import rt ty h ref pin)) \<and>
     (\<forall>ty st ref pin. eff_moves world_le (rt_read_data rt ty st ref pin))"

lemma runtime_moves:
  assumes "runtime_ok rt"
  shows "eff_moves world_le (rt_decision rt token)" "eff_moves world_le (rt_schema rt ref ty)"
    "eff_moves world_le (rt_read rt ty st ref pin)" "eff_moves world_le (rt_plan rt ty a b c ref pin)"
    "eff_moves world_le (rt_apply rt q ref pin)" "eff_moves world_le (rt_import rt ty h ref pin)"
    "eff_moves world_le (rt_read_data rt ty st ref pin)"
  using assms by (simp_all add: runtime_ok_def)

lemma find_or_throw_moves:
  "eff_moves world_le (\<lambda>s. case f s of None \<Rightarrow> (Inl e, s) | Some row \<Rightarrow> (Inr row, s))"
  unfolding eff_moves_def by (simp add: world.R_refl split: option.split)

lemmas step_moves = world.moves_basic world.moves_bind world.moves_catch world.moves_cases
  with_now_moves marks_world

lemma read_moves:
  "eff_moves world_le (get_integration_by_id project_id k)"
  "eff_moves world_le (get_integration_by_slug project_id slug)"
  "eff_moves world_le (get_default_integration_by_provider project_id provider)"
  "eff_moves world_le (find_resource k)"
  "eff_moves world_le (get_reference_targets_by_slug project_id slugs)"
  unfolding get_integration_by_id_def get_integration_by_slug_def get_default_integration_by_provider_def
    find_resource_def get_reference_targets_by_slug_def
  by (intro find_or_throw_moves world.moves_basic)+

lemma found_moves: "eff_moves world_le (found_or_throw msg x)"
  unfolding found_or_throw_def by (intro step_moves)

lemma loaded_moves:
  "eff_moves world_le (get_resource_by_id rid)"
  "eff_moves world_le (step_integration_by_id project_id iid)"
  "eff_moves world_le (get_integration_by_resource_type project_id ty slug)"
  "eff_moves world_le (get_value_with_resource_refs v project_id)"
  "eff_moves world_le (get_selector_with_resource_refs v project_id)"
  "eff_moves world_le (resolved_config resource)"
  "eff_moves world_le (get_cached_resource_plan item)"
  unfolding get_resource_by_id_def step_integration_by_id_def get_integration_by_resource_type_def
    resolved_config_def get_value_with_resource_refs_def get_selector_with_resource_refs_def
    get_cached_resource_plan_def
  by (intro step_moves read_moves found_moves)+

lemma dispatch_moves:
  assumes "\<And>ref pin. eff_moves world_le (call ref pin)" shows "eff_moves world_le (dispatch_on rt i call)"
  unfolding dispatch_on_def by (intro step_moves assms)

lemma provider_moves:
  assumes "runtime_ok rt"
  shows "eff_moves world_le (get_resource_schema rt r i)"
    "eff_moves world_le (plan_resource rt i ty identity config kind)"
    "eff_moves world_le (apply_resource rt i ty config plan kind)"
    "eff_moves world_le (read_import_state rt i ty handle k)"
    "eff_moves world_le (read_resource_state rt r i)"
    "eff_moves world_le (get_data_state_by_selector rt project_id op i)"
    "eff_moves world_le (plan_for rt op i ty identity config kind)"
  unfolding get_resource_schema_def plan_resource_def apply_resource_def read_import_state_def
    read_resource_state_def get_data_state_by_selector_def plan_for_def Let_def
  by (intro step_moves dispatch_moves runtime_moves [OF assms] found_moves loaded_moves)+

lemma import_step_moves:
  assumes "runtime_ok rt" shows "eff_moves world_le (import_resource_step rt op r i)"
proof -
  have "eff_moves world_le (missing_as_input_error e)" for e
    unfolding missing_as_input_error_def by (cases e) (simp_all add: world.moves_basic)
  then show ?thesis
    unfolding import_resource_step_def by (intro step_moves provider_moves [OF assms])
qed

lemma update_inputs_moves: "eff_moves world_le (update_resource_inputs rt op r)"
proof -
  let ?p = "\<lambda>r1. r_id r1 = r_id r"
  have row_step: "eff_moves world_le (\<lambda>s. (Inr (first_row (returning ?p g (db_resources s))),
      s\<lparr> db_resources := update_where ?p g (db_resources s) \<rparr>))"
    if g: "g = (\<lambda>r. r\<lparr> r_inputs := ins, r_depends_on := deps, r_updated_at := now \<rparr>)" for g ins deps now
  proof (rule world_moves)
    have "res_later a (g a)" for a by (simp add: g res_later_def)
    then show "eff_moves res_le (\<lambda>s. (Inr (first_row (returning ?p g (db_resources s))),
        s\<lparr> db_resources := update_where ?p g (db_resources s) \<rparr>))"
      unfolding eff_moves_def by (simp add: res_le_update_where)
    show "eff_moves ops_le (\<lambda>s. (Inr (first_row (returning ?p g (db_resources s))),
        s\<lparr> db_resources := update_where ?p g (db_resources s) \<rparr>))"
      unfolding eff_moves_def by (simp add: ops_le_same)
    have "resources_ok (update_where ?p g rs)" if "resources_ok rs" for rs
    proof -
      let ?h = "\<lambda>r. if ?p r then g r else r"
      have "set (live_slugs (map ?h rs)) \<subseteq> set (live_slugs rs) \<and>
          (distinct (live_slugs rs) \<longrightarrow> distinct (live_slugs (map ?h rs)))"
        by (rule live_slugs_sub) (auto simp: g split: if_splits)
      moreover have "map r_id (map ?h rs) = map r_id rs" by (simp add: g)
      moreover have "\<forall>r \<in> set (map ?h rs). provider_backed_check r"
        using that by (auto simp: resources_ok_def provider_backed_check_def g)
      ultimately show ?thesis using that unfolding resources_ok_def update_where_def by (simp only: simp_thms)
    qed
    then show "eff_keeps db_ok (\<lambda>s. (Inr (first_row (returning ?p g (db_resources s))),
        s\<lparr> db_resources := update_where ?p g (db_resources s) \<rparr>))"
      by (intro eff_keepsI) (simp add: db_ok_def)
  qed
  note row = row_step [OF refl]
  have notify: "eff_moves world_le (notify_resource_updated r1)" for r1
    by (rule same_tables_world)
      (simp_all add: notify_resource_updated_def notify_resource_def pg_notify_def eff_run)
  show ?thesis
    unfolding update_resource_inputs_def Let_def by (intro step_moves notify row)
qed

section \<open>Closing an operation\<close>

definition closed_row :: "operation \<Rightarrow> db \<Rightarrow> bool" where
  "closed_row op s \<longleftrightarrow> owns op s \<and> row_in (o_id op) {Succeeded, Failed, Canceled} s"

definition done_row :: "operation \<Rightarrow> db \<Rightarrow> bool" where
  "done_row op s \<longleftrightarrow> owns op s \<and> row_in (o_id op) {Succeeded} s"

text \<open>What a workflow answers is what its row says.\<close>

definition ended :: "operation \<Rightarrow> workflow_result \<Rightarrow> db \<Rightarrow> bool" where
  "ended op result s \<longleftrightarrow> owns op s \<and>
     row_in (o_id op) {case result of Ran r \<Rightarrow> Succeeded | WorkflowCanceled \<Rightarrow> Canceled} s"

lemma done_closed: "done_row op s \<Longrightarrow> closed_row op s" "done_row op s \<Longrightarrow> owns op s"
  by (auto simp: done_row_def closed_row_def row_in_def)

lemma ended_closed: "ended op r s \<Longrightarrow> closed_row op s" "ended op (Ran x) s \<longleftrightarrow> done_row op s"
  by (auto simp: ended_def closed_row_def done_row_def row_in_def split: workflow_result.splits)

lemma spec_try:
  assumes "eff_spec P m R S" "\<And>x. eff_spec (R x) (ok x) Q E" "\<And>e. eff_spec (S e) (err e) Q E"
  shows "eff_spec P (eff_try m ok err) Q E"
  using assms by (fastforce simp: eff_spec_def eff_try_def split: prod.splits sum.splits)

lemma copy_spec:
  assumes "row_fixed o1 op" "eff_spec (owns o1) m Q E"
  shows "eff_spec (owns op) m Q E"
  by (rule spec_weaken [OF assms(2)]) (simp_all add: owns_copy [OF assms(1)])

lemma ended_copy: "row_fixed o1 op \<Longrightarrow> ended o1 r s = ended op r s"
  by (simp add: ended_def owns_copy) (simp add: row_fixed_def)

lemma keep: "eff_moves world_le m \<Longrightarrow> eff_spec (owns op) m (\<lambda>_. owns op) (\<lambda>_. owns op)"
  by (rule owns_spec)

lemma drop_spec: "eff_spec P m (\<lambda>_. Q) E \<Longrightarrow> eff_spec P m (\<lambda>x s. Q s) E" .

lemma succeed_closes:
  "eff_spec (owns op) (with_now clock (\<lambda>now. mark_operation_succeeded now op result (patch now)))
    (\<lambda>_. done_row op) (\<lambda>_. owns op)"
  by (rule with_now_spec, rule spec_weaken [OF succeeded_spec]) (auto simp: done_row_def row_in_def)

lemma fail_closes:
  "eff_spec (owns op) (with_now clock (\<lambda>now. mark_operation_failed now op err (patch now)))
    (\<lambda>_. closed_row op) (\<lambda>_ _. False)"
  by (rule with_now_spec, rule spec_weaken [OF failed_spec]) (auto simp: closed_row_def row_in_def)

lemma fail_steps_close:
  "eff_spec (owns op) (tombstone_failed_resource_stub rt op e) (\<lambda>_. closed_row op) (\<lambda>_ _. False)"
  "eff_spec (owns op) (fail_resource_operation rt op e) (\<lambda>_. closed_row op) (\<lambda>_ _. False)"
  "eff_spec (owns op) (fail_update_resource_operation rt op e st) (\<lambda>_. closed_row op) (\<lambda>_ _. False)"
  unfolding tombstone_failed_resource_stub_def fail_resource_operation_def
    fail_update_resource_operation_def
  by (rule fail_closes)+

text \<open>Once closed, reading the resource row changes nothing.\<close>

lemma found_closed:
  "eff_spec (done_row op) (eff_bind (find_resource k) (\<lambda>row.
      eff_bind (found_or_throw msg row) (\<lambda>r. eff_return (f r)))) (\<lambda>_. done_row op) (\<lambda>_. owns op)"
  by (rule specI)
    (auto simp: find_resource_def found_or_throw_def eff_simps done_row_def split: option.splits)

lemma complete_closes:
  "eff_spec (owns op) (complete_resource_operation rt op result patch) (\<lambda>_. done_row op) (\<lambda>_. owns op)"
  unfolding complete_resource_operation_def
proof (rule spec_bind [OF succeed_closes])
  fix closed
  show "eff_spec (done_row op) (case truthy (o_resource_id op) of
      None \<Rightarrow> eff_throw (PlainError (''operation has no resourceId: '' @ o_id op))
    | Some k \<Rightarrow> eff_bind (find_resource k) (\<lambda>row.
        eff_bind (found_or_throw (''resource not found: '' @ k) row) (\<lambda>resource.
        eff_return (closed, resource)))) (\<lambda>_. done_row op) (\<lambda>_. owns op)"
    by (rule spec_option, rule spec_throw, simp add: done_row_def, rule found_closed)
qed

lemma complete_update_closes:
  "eff_spec (owns op) (complete_update_resource_operation rt op result state) (\<lambda>_. done_row op) (\<lambda>_. owns op)"
  unfolding complete_update_resource_operation_def by (rule complete_closes)

lemma complete_read_closes:
  "eff_spec (owns op) (complete_read_resource_operation rt op r state schema) (\<lambda>_. done_row op) (\<lambda>_. owns op)"
  unfolding complete_read_resource_operation_def Let_def
proof (rule spec_bind [OF succeed_closes])
  fix closed
  show "eff_spec (done_row op) (case get_resource_state_patch_after_read r state (Some schema) of
      None \<Rightarrow> eff_return (closed, r)
    | Some x \<Rightarrow> eff_bind (find_resource (r_id r)) (\<lambda>row.
        eff_bind (found_or_throw (''resource not found: '' @ r_id r) row) (\<lambda>updated.
        eff_return (closed, updated)))) (\<lambda>_. done_row op) (\<lambda>_. owns op)"
    by (rule spec_option, rule spec_return, simp, rule found_closed)
qed

lemma delete_closes:
  "eff_spec (owns op) (delete_resource_complete rt op r) (\<lambda>_. done_row op) (\<lambda>_. owns op)"
  unfolding delete_resource_complete_def
proof (rule with_now_spec)
  fix now
  have "eff_spec (owns op)
      (mark_operation_succeeded now op [(''resourceId'', JStr (r_id r))] (Some (PatchDeleted now)))
      (\<lambda>_. done_row op) (\<lambda>_. owns op)"
    by (rule spec_weaken [OF succeeded_spec]) (auto simp: done_row_def row_in_def)
  then show "eff_spec (owns op) (eff_bind
      (mark_operation_succeeded now op [(''resourceId'', JStr (r_id r))] (Some (PatchDeleted now)))
      (\<lambda>closed. eff_return (closed, r\<lparr> r_deleted_at := Some now \<rparr>))) (\<lambda>_. done_row op) (\<lambda>_. owns op)"
    by (rule spec_bind) (rule spec_return)
qed

lemmas closes = complete_closes complete_update_closes complete_read_closes delete_closes

section \<open>Bodies close the operation\<close>

lemma after_keep:
  assumes "eff_moves world_le m" "\<And>x. eff_spec (owns op) (f x) Q (\<lambda>_. owns op)"
  shows "eff_spec (owns op) (eff_bind m f) Q (\<lambda>_. owns op)"
  by (rule spec_bind [OF keep [OF assms(1)] assms(2)])

lemma then_answer:
  "eff_spec P m (\<lambda>_. Q) E \<Longrightarrow> eff_spec P (eff_bind m (\<lambda>(a, b). eff_return (g a b))) (\<lambda>_. Q) E"
  by (erule spec_bind) (simp add: split_def spec_return)

lemma then_ran:
  "eff_spec P m (\<lambda>_. done_row op) E \<Longrightarrow> eff_spec P (eff_bind m (\<lambda>(a, b). eff_return (Ran (g a b)))) (ended op) E"
  by (erule spec_bind) (simp add: split_def spec_return ended_closed)

lemma create_body_closes:
  assumes "runtime_ok rt"
  shows "eff_spec (owns op) (create_body rt r op) (ended op) (\<lambda>_. owns op)"
  unfolding create_body_def
  by (intro spec_if after_keep then_ran closes loaded_moves provider_moves [OF assms])

lemma import_body_closes:
  assumes "runtime_ok rt"
  shows "eff_spec (owns op) (import_body rt r op) (ended op) (\<lambda>_. owns op)"
  unfolding import_body_def split_def
  by (intro after_keep closes loaded_moves import_step_moves [OF assms] then_ran [unfolded split_def])

lemma start_spec:
  "eff_spec (owns op) (with_now clock (\<lambda>now. mark_operation_running now op patch))
    (\<lambda>x s. owns op s \<and> row_fixed x op) (\<lambda>_. owns op)"
  by (rule with_now_spec, rule spec_weaken [OF running_spec]) simp_all

lemma started:
  assumes "\<And>x. row_fixed x op \<Longrightarrow> eff_spec (owns op) (f x) Q (\<lambda>_. owns op)"
  shows "eff_spec (owns op) (eff_bind (with_now clock (\<lambda>now. mark_operation_running now op patch)) f)
    Q (\<lambda>_. owns op)"
proof (rule spec_bind [OF start_spec])
  fix x
  show "eff_spec (\<lambda>s. owns op s \<and> row_fixed x op) (f x) Q (\<lambda>_. owns op)"
    using assms by (cases "row_fixed x op") (auto simp: eff_spec_def)
qed

lemma closes_copy:
  assumes "row_fixed x op" "eff_spec (owns x) m (ended x) (\<lambda>_. owns x)"
  shows "eff_spec (owns op) m (ended op) (\<lambda>_. owns op)"
  by (rule spec_weaken [OF assms(2)]) (simp_all add: owns_copy [OF assms(1)] ended_copy [OF assms(1)])

lemma update_body_closes:
  assumes "runtime_ok rt"
  shows "eff_spec (owns op) (update_body rt r op) (ended op) (\<lambda>_. owns op)"
  unfolding update_body_def start_update_resource_operation_def
  by (intro started, rule closes_copy, assumption)
    (intro after_keep then_ran closes loaded_moves update_inputs_moves provider_moves [OF assms])

lemma delete_body_closes:
  assumes "runtime_ok rt"
  shows "eff_spec (owns op) (delete_body rt r op) (ended op) (\<lambda>_. owns op)"
  unfolding delete_body_def start_delete_resource_operation_def
  by (intro started, rule closes_copy, assumption)
    (intro after_keep then_ran closes loaded_moves provider_moves [OF assms])

lemma gated_closes:
  assumes "runtime_ok rt"
    and "\<And>o1. eff_spec (owns o1) (body o1) (ended o1) (\<lambda>_. owns o1)"
  shows "eff_spec (owns op) (gated rt op r body) (ended op) (\<lambda>_. owns op)"
  unfolding gated_def
proof (rule spec_bind [OF gate_spec [OF runtime_moves(1) [OF assms(1)]]])
  fix approval
  show "eff_spec (gate_row op approval) (case approval of
      NotApproved _ \<Rightarrow> eff_return WorkflowCanceled | Approved approved \<Rightarrow> body approved)
    (ended op) (\<lambda>_. owns op)"
  proof (cases approval)
    case (Approved o1)
    show ?thesis
    proof (cases "row_fixed o1 op")
      case True
      have "eff_spec (owns op) (body o1) (ended op) (\<lambda>_. owns op)"
        by (rule closes_copy [OF True assms(2)])
      then show ?thesis unfolding Approved by (auto simp: eff_spec_def gate_row_def)
    qed (simp add: Approved eff_spec_def gate_row_def)
  next
    case (NotApproved o1)
    then show ?thesis
      by (auto simp: eff_spec_def eff_run gate_row_def ended_def)
  qed
qed

lemma fail_throw:
  assumes "eff_spec P m (\<lambda>_. Q) (\<lambda>_ _. False)"
  shows "eff_spec P (eff_bind m (\<lambda>_. eff_throw e)) R (\<lambda>_. Q)"
proof (rule spec_bind)
  show "eff_spec P m (\<lambda>_. Q) (\<lambda>_. Q)" by (rule spec_weaken [OF assms]) simp_all
  show "eff_spec Q (eff_throw e) R (\<lambda>_. Q)" for x by (rule spec_throw)
qed

lemma rethrow_closes:
  assumes "eff_spec P body Q (\<lambda>_. owns op)"
    and "\<And>e. eff_spec (owns op) (fail e) (\<lambda>_. closed_row op) (\<lambda>_ _. False)"
  shows "eff_spec P (rethrow_after fail body) Q (\<lambda>_. closed_row op)"
  unfolding rethrow_after_def
proof (rule spec_catch [OF assms(1)])
  fix e
  show "eff_spec (owns op) (eff_bind (fail e) (\<lambda>_. eff_throw e)) Q (\<lambda>_. closed_row op)"
    by (rule fail_throw [OF assms(2)])
qed

lemma prior_status_closes:
  assumes "\<And>r. eff_spec (owns op) (body r) Q (\<lambda>_. owns op)"
  shows "eff_spec (owns op) (with_prior_status rt op body) Q (\<lambda>_. closed_row op)"
  unfolding with_prior_status_def
proof (rule spec_try [OF keep [OF loaded_moves(1)]])
  show "eff_spec (owns op) (rethrow_after (\<lambda>e. fail_update_resource_operation rt op e (Some (r_status r))) (body r))
      Q (\<lambda>_. closed_row op)" for r
    by (rule rethrow_closes [OF assms fail_steps_close(3)])
  show "eff_spec (owns op) (eff_bind (fail_update_resource_operation rt op e None) (\<lambda>_. eff_throw e))
      Q (\<lambda>_. closed_row op)" for e
    by (rule fail_throw [OF fail_steps_close(3)])
qed

lemma workflow_ends:
  assumes "runtime_ok rt"
  shows "eff_spec (owns op) (create_resource_workflow rt op) (ended op) (\<lambda>_. closed_row op)"
    "eff_spec (owns op) (import_resource_workflow rt op) (ended op) (\<lambda>_. closed_row op)"
    "eff_spec (owns op) (update_resource_workflow rt op) (ended op) (\<lambda>_. closed_row op)"
    "eff_spec (owns op) (delete_resource_workflow rt op) (ended op) (\<lambda>_. closed_row op)"
    "eff_spec (owns op) (forget_resource_workflow rt op) (ended op) (\<lambda>_. closed_row op)"
    "eff_spec (owns op) (read_resource_workflow rt op) (\<lambda>_. done_row op) (\<lambda>_. closed_row op)"
    "eff_spec (owns op) (lookup_data_workflow rt op) (\<lambda>_. done_row op) (\<lambda>_. closed_row op)"
proof -
  note steps = after_keep then_ran closes loaded_moves provider_moves [OF assms]
  show "eff_spec (owns op) (create_resource_workflow rt op) (ended op) (\<lambda>_. closed_row op)"
    unfolding create_resource_workflow_def
    by (intro rethrow_closes fail_steps_close steps gated_closes assms create_body_closes)
  show "eff_spec (owns op) (import_resource_workflow rt op) (ended op) (\<lambda>_. closed_row op)"
    unfolding import_resource_workflow_def
    by (intro rethrow_closes fail_steps_close steps gated_closes assms import_body_closes)
  show "eff_spec (owns op) (update_resource_workflow rt op) (ended op) (\<lambda>_. closed_row op)"
    unfolding update_resource_workflow_def
    by (intro prior_status_closes gated_closes assms update_body_closes)
  show "eff_spec (owns op) (delete_resource_workflow rt op) (ended op) (\<lambda>_. closed_row op)"
    unfolding delete_resource_workflow_def
    by (intro prior_status_closes gated_closes assms delete_body_closes)
  show "eff_spec (owns op) (forget_resource_workflow rt op) (ended op) (\<lambda>_. closed_row op)"
    unfolding forget_resource_workflow_def
    by (intro rethrow_closes fail_steps_close steps gated_closes assms)
  show "eff_spec (owns op) (read_resource_workflow rt op) (\<lambda>_. done_row op) (\<lambda>_. closed_row op)"
    unfolding read_resource_workflow_def start_resource_operation_def split_def
    by (intro rethrow_closes fail_steps_close steps(1,3-) with_now_moves marks_world
        then_answer [unfolded split_def])
  show "eff_spec (owns op) (lookup_data_workflow rt op) (\<lambda>_. done_row op) (\<lambda>_. closed_row op)"
  proof -
    have last: "eff_spec (owns op) (eff_bind (complete_resource_operation rt op result None) (\<lambda>_. eff_return st))
        (\<lambda>_. done_row op) (\<lambda>_. owns op)" for result st
      by (rule spec_bind [OF complete_closes]) (rule spec_return)
    show ?thesis
      unfolding lookup_data_workflow_def start_resource_operation_def
      by (intro rethrow_closes fail_steps_close after_keep last loaded_moves provider_moves [OF assms]
          with_now_moves marks_world)
  qed
qed

lemma workflow_specs:
  assumes "runtime_ok rt"
  shows "eff_spec (owns op) (create_resource_workflow rt op) (\<lambda>_. closed_row op) (\<lambda>_. closed_row op)"
    "eff_spec (owns op) (import_resource_workflow rt op) (\<lambda>_. closed_row op) (\<lambda>_. closed_row op)"
    "eff_spec (owns op) (update_resource_workflow rt op) (\<lambda>_. closed_row op) (\<lambda>_. closed_row op)"
    "eff_spec (owns op) (delete_resource_workflow rt op) (\<lambda>_. closed_row op) (\<lambda>_. closed_row op)"
    "eff_spec (owns op) (forget_resource_workflow rt op) (\<lambda>_. closed_row op) (\<lambda>_. closed_row op)"
    "eff_spec (owns op) (read_resource_workflow rt op) (\<lambda>_. closed_row op) (\<lambda>_. closed_row op)"
    "eff_spec (owns op) (lookup_data_workflow rt op) (\<lambda>_. closed_row op) (\<lambda>_. closed_row op)"
  by (rule spec_weaken, rule workflow_ends [OF assms]; auto intro: ended_closed done_closed)+

end
