(* ===== verification/WorkflowTheorems.thy ===== *)
theory WorkflowTheorems
  imports WorkflowProps
begin

text \<open>
  What the resource workflows guarantee: every run closes its operation; a failed create or import
  tombstones the row it created; without an approval no provider is called to change anything. And
  two behaviours that depart from what the code says: the resource of an update or a delete is never
  marked \<open>updating\<close> or \<open>deleting\<close>, and a data lookup never succeeds.
\<close>

section \<open>Failed creates and imports\<close>

definition stub_gone :: "operation \<Rightarrow> string \<Rightarrow> db \<Rightarrow> bool" where
  "stub_gone op k s \<longleftrightarrow> row_in (o_id op) {Failed} s \<and> resource_deleted k s"

lemma tombstone_spec:
  assumes "o_kind op = OpCreate \<or> o_kind op = OpImport" "truthy (o_resource_id op) = Some k"
  shows "eff_spec (owns op) (tombstone_failed_resource_stub rt op e) (\<lambda>_. stub_gone op k) (\<lambda>_ _. False)"
  unfolding tombstone_failed_resource_stub_def
  by (rule with_now_spec, rule spec_weaken [OF failed_spec])
    (use assms in \<open>simp_all add: tombstoned_def stub_gone_def\<close>)

lemma stub_spec:
  assumes "eff_spec (owns op) body (ended op) (\<lambda>_. owns op)"
    and "o_kind op = OpCreate \<or> o_kind op = OpImport" "truthy (o_resource_id op) = Some k"
  shows "eff_spec (owns op) (rethrow_after (tombstone_failed_resource_stub rt op) body)
    (\<lambda>_ _. True) (\<lambda>_. stub_gone op k)"
  unfolding rethrow_after_def
proof (rule spec_catch)
  show "eff_spec (owns op) body (\<lambda>_ _. True) (\<lambda>_. owns op)" by (rule spec_weaken [OF assms(1)]) simp_all
  show "eff_spec (owns op) (eff_bind (tombstone_failed_resource_stub rt op e) (\<lambda>_. eff_throw e))
      (\<lambda>_ _. True) (\<lambda>_. stub_gone op k)" for e
    by (rule spec_weaken [OF fail_throw [OF tombstone_spec [OF assms(2,3)]]]) simp_all
qed

lemma stub_specs:
  assumes "runtime_ok rt" "o_kind op = OpCreate \<or> o_kind op = OpImport" "truthy (o_resource_id op) = Some k"
  shows "eff_spec (owns op) (create_resource_workflow rt op) (\<lambda>_ _. True) (\<lambda>_. stub_gone op k)"
    "eff_spec (owns op) (import_resource_workflow rt op) (\<lambda>_ _. True) (\<lambda>_. stub_gone op k)"
  unfolding create_resource_workflow_def import_resource_workflow_def
  by (intro stub_spec after_keep loaded_moves gated_closes create_body_closes import_body_closes assms)+

section \<open>Nothing happens without an approval\<close>

text \<open>The same runtime with other provider calls.\<close>

definition same_gate :: "runtime \<Rightarrow> runtime \<Rightarrow> bool" where
  "same_gate rt rt' \<longleftrightarrow> rt_clock rt' = rt_clock rt \<and> rt_decision rt' = rt_decision rt \<and>
     rt_driver rt' = rt_driver rt"

lemma not_approved_gated:
  assumes "\<And>o1. fst (wait_for_operation_approval (rt_clock rt) (rt_decision rt) op (Some r) s) \<noteq> Inr (Approved o1)"
    and "same_gate rt rt'"
  shows "gated rt' op r body' s = gated rt op r body s"
proof -
  obtain x t where run: "wait_for_operation_approval (rt_clock rt) (rt_decision rt) op (Some r) s = (x, t)"
    by (cases "wait_for_operation_approval (rt_clock rt) (rt_decision rt) op (Some r) s")
  with assms(1) have "x \<noteq> Inr (Approved o1)" for o1 by simp
  then show ?thesis
    using assms(2) by (simp add: gated_def same_gate_def eff_bind_run run split: sum.split gate_result.split)
qed

lemma same_fail:
  assumes "same_gate rt rt'"
  shows "tombstone_failed_resource_stub rt' op e = tombstone_failed_resource_stub rt op e"
    "fail_update_resource_operation rt' op e st = fail_update_resource_operation rt op e st"
  using assms by (simp_all add: tombstone_failed_resource_stub_def fail_update_resource_operation_def same_gate_def)

lemma loaded_resource:
  assumes "truthy (o_resource_id op) = Some k" "find (\<lambda>r. r_id r = k) (db_resources s) = Some r"
  shows "get_resource_by_id (o_resource_id op) s = (Inr r, s)"
  using assms by (simp add: get_resource_by_id_def found_or_throw_def find_resource_def eff_simps)

lemma held_back:
  assumes "truthy (o_resource_id op) = Some k" "find (\<lambda>r. r_id r = k) (db_resources s) = Some r"
    and "gated rt' op r (body' r) s = gated rt op r (body r) s" "same_gate rt rt'"
  shows "rethrow_after (tombstone_failed_resource_stub rt' op)
      (eff_bind (get_resource_by_id (o_resource_id op)) (\<lambda>r. gated rt' op r (body' r))) s =
    rethrow_after (tombstone_failed_resource_stub rt op)
      (eff_bind (get_resource_by_id (o_resource_id op)) (\<lambda>r. gated rt op r (body r))) s"
    "with_prior_status rt' op (\<lambda>r. gated rt' op r (body' r)) s = with_prior_status rt op (\<lambda>r. gated rt op r (body r)) s"
  using assms(3)
  by (simp_all add: rethrow_after_def eff_catch_run eff_bind_run loaded_resource [OF assms(1,2)]
      same_fail [OF assms(4)] with_prior_status_def eff_try_def)

section \<open>Transitions that match nothing\<close>

lemma running_again:
  assumes "owns op s" "row_in (o_id op) {Running} s"
  shows "\<exists>x. mark_operation_running now op patch s = (Inr x, s)"
proof -
  from owns_row [OF assms(1)] obtain o1 where o1: "o1 \<in> set (db_operations s)" "o_id o1 = o_id op" by blast
  have no: "\<not> (o_id o2 = o_id op \<and> (o_status o2 = Pending \<or> o_status o2 = AwaitingApproval))"
    if "o2 \<in> set (db_operations s)" for o2
    using assms(2) that by (auto simp: row_in_def)
  let ?p = "matches_guard (o_id op) (Some [Pending, AwaitingApproval])"
  have none: "first_row (returning ?p g (db_operations s)) = None" for g
    unfolding first_row_returning_None using no by (auto simp: matches_guard_def)
  have same: "update_where ?p g (db_operations s) = db_operations s" for g
    unfolding update_where_def using no by (intro map_idI) (auto simp: matches_guard_def)
  have tr: "transition now op (Some [Pending, AwaitingApproval]) f patch s = (Inr None, s)" for f
    by (simp add: transition_def eff_simps update_operation_run none same)
  obtain row where row: "find (\<lambda>x. o_id x = o_id op) (db_operations s) = Some row"
    using o1 by (cases "find (\<lambda>x. o_id x = o_id op) (db_operations s)") (auto simp: find_None_iff)
  then have "row \<in> set (db_operations s)" "o_id row = o_id op"
    by (auto simp: find_Some_iff)
  with assms(2) have "o_status row = Running" by (auto simp: row_in_def)
  with tr row show ?thesis
    by (simp add: mark_operation_running_def settled_or_conflict_def find_operation_def eff_simps)
qed

lemma no_result:
  assumes "truthy (o_resource_id op) = None"
  shows "eff_spec (owns op) (complete_resource_operation rt op result patch) (\<lambda>_ _. False) (\<lambda>_. owns op)"
  unfolding complete_resource_operation_def assms option.case
proof (rule spec_bind [OF succeed_closes])
  show "eff_spec (done_row op) (eff_throw (PlainError (''operation has no resourceId: '' @ o_id op)))
      (\<lambda>_ _. False) (\<lambda>_. owns op)" for x
    by (rule spec_throw) (simp add: done_row_def)
qed

lemma rethrow_fails:
  assumes "eff_spec P body (\<lambda>_ _. False) (\<lambda>_. owns op)"
  shows "eff_spec P (rethrow_after (fail_resource_operation rt op) body)
    (\<lambda>_ _. False) (\<lambda>_. row_in (o_id op) {Failed})"
  unfolding rethrow_after_def
proof (rule spec_catch [OF assms])
  fix e
  have "eff_spec (owns op) (fail_resource_operation rt op e) (\<lambda>_. row_in (o_id op) {Failed}) (\<lambda>_ _. False)"
    unfolding fail_resource_operation_def by (rule with_now_spec, rule spec_weaken [OF failed_spec]) simp_all
  then show "eff_spec (owns op) (eff_bind (fail_resource_operation rt op e) (\<lambda>_. eff_throw e))
      (\<lambda>_ _. False) (\<lambda>_. row_in (o_id op) {Failed})"
    by (rule fail_throw)
qed

lemma lookup_spec:
  assumes "runtime_ok rt" "truthy (o_resource_id op) = None"
  shows "eff_spec (owns op) (lookup_data_workflow rt op) (\<lambda>_ _. False) (\<lambda>_. row_in (o_id op) {Failed})"
proof -
  have last: "eff_spec (owns op) (eff_bind (complete_resource_operation rt op result None) (\<lambda>_. eff_return st))
      (\<lambda>_ _. False) (\<lambda>_. owns op)" for result st
    by (rule spec_bind [OF no_result [OF assms(2)]]) (rule spec_return)
  show ?thesis
    unfolding lookup_data_workflow_def start_resource_operation_def
    by (intro rethrow_fails after_keep last loaded_moves provider_moves [OF assms(1)]
        with_now_moves marks_world)
qed

lemma spec_end: "eff_spec P m (\<lambda>_. Q) (\<lambda>_. Q) \<Longrightarrow> P s \<Longrightarrow> Q (snd (m s))"
  by (cases "m s"; cases "fst (m s)") (auto simp: eff_spec_def)

section \<open>Theorems\<close>

text \<open>C12: every run of a resource workflow, whatever the provider, the approval hook and the rest of
  the system do meanwhile (as long as they keep what every service keeps), ends with the operation's
  row closed: succeeded, failed or canceled. This holds for runs that return and for runs that
  throw.\<close>

theorem workflows_close:
  assumes "runtime_ok rt" "owns op s"
  shows "closed_row op (snd (create_resource_workflow rt op s)) \<and>
    closed_row op (snd (update_resource_workflow rt op s)) \<and>
    closed_row op (snd (import_resource_workflow rt op s)) \<and>
    closed_row op (snd (read_resource_workflow rt op s)) \<and>
    closed_row op (snd (delete_resource_workflow rt op s)) \<and>
    closed_row op (snd (forget_resource_workflow rt op s)) \<and>
    closed_row op (snd (lookup_data_workflow rt op s))"
  by (intro conjI; rule spec_end [where P = "owns op"]; intro workflow_specs assms)

text \<open>When a create or an import throws, its operation's row is failed and the resource row that
  was inserted for it is tombstoned, so that its slug is free again.\<close>

theorem failed_stub_tombstoned:
  assumes "runtime_ok rt" "owns op s"
    and "o_kind op = OpCreate \<or> o_kind op = OpImport" "truthy (o_resource_id op) = Some k"
    and "create_resource_workflow rt op s = (Inl e, t) \<or> import_resource_workflow rt op s = (Inl e, t)"
  shows "row_in (o_id op) {Failed} t \<and> resource_deleted k t"
  using assms(5) spec_InlD [OF stub_specs(1) [OF assms(1,3,4)] assms(2)]
    spec_InlD [OF stub_specs(2) [OF assms(1,3,4)] assms(2)]
  by (auto simp: stub_gone_def)

text \<open>C13: when a policy of the resource (or else of its project) requires an approval and the hook
  never answers with one, a create, update, import or delete runs the same whatever the provider
  calls (plan, apply, read, import) are: none of them is made.\<close>

theorem no_approval_no_provider_call:
  assumes "truthy (o_resource_id op) = Some k" "find (\<lambda>r. r_id r = k) (db_resources s) = Some r"
    and "approved_by_type op = None"
    and "find (\<lambda>p. p_id p = o_project_id op) (db_projects s) = Some p"
    and "list_all plain_policy (policy_ids_for (Some r) p)"
    and "policy_requires (o_kind op) (policy_ids_for (Some r) p)"
    and "\<And>t. fst (rt_decision rt (operation_approval_token op) t) \<noteq> Inr True"
    and "rt' = rt\<lparr> rt_plan := plan, rt_apply := apply', rt_read := read', rt_import := import' \<rparr>"
  shows "create_resource_workflow rt' op s = create_resource_workflow rt op s \<and>
    update_resource_workflow rt' op s = update_resource_workflow rt op s \<and>
    import_resource_workflow rt' op s = import_resource_workflow rt op s \<and>
    delete_resource_workflow rt' op s = delete_resource_workflow rt op s"
proof -
  have same: "same_gate rt rt'" by (simp add: assms(8) same_gate_def)
  obtain results where "evaluate_operation_approval op (Some r) s =
      (Inr \<lparr> rq_required = policy_requires (o_kind op) (policy_ids_for (Some r) p),
             rq_policy_ids = policy_ids_for (Some r) p, rq_policy_results = results \<rparr>, s)"
    using evaluate_operation_approval_run [OF assms(3-5)] by (elim exE)
  from required_gate [OF this, of "rt_decision rt" "rt_clock rt"] assms(6,7)
  have no: "fst (wait_for_operation_approval (rt_clock rt) (rt_decision rt) op (Some r) s) \<noteq> Inr (Approved o1)" for o1
    by simp
  note held = held_back [OF assms(1,2) not_approved_gated [OF no same] same]
  show ?thesis
    unfolding create_resource_workflow_def update_resource_workflow_def import_resource_workflow_def
      delete_resource_workflow_def
    by (intro conjI held)
qed

text \<open>When the gate has answered \<open>approved\<close>, the step that starts an update or a delete matches no
  row and changes nothing: the operation is running already, so the resource is not marked
  \<open>updating\<close> or \<open>deleting\<close>.\<close>

theorem start_marks_nothing:
  assumes "owns op s" "eff_moves world_le (rt_decision rt (operation_approval_token op))"
    and "wait_for_operation_approval (rt_clock rt) (rt_decision rt) op resource s = (Inr (Approved o1), t)"
  shows "snd (start_update_resource_operation rt o1 t) = t \<and>
    snd (start_delete_resource_operation rt o1 t) = t"
proof -
  from spec_InrD [OF gate_spec [of "rt_decision rt" op "rt_clock rt" resource, OF assms(2)] assms(1,3)]
  have g: "owns op t" "row_in (o_id op) {Running} t" "row_fixed o1 op" by (simp_all add: gate_row_def)
  from g(3) have "o_id o1 = o_id op" by (simp add: row_fixed_def)
  with g have o1: "owns o1 t" "row_in (o_id o1) {Running} t" by (simp_all add: owns_copy)
  from running_again [OF o1] show ?thesis
    unfolding start_update_resource_operation_def start_delete_resource_operation_def with_now_def
    by (metis snd_conv)
qed

text \<open>An operation without a resource, as every data lookup is, fails: the lookup workflow never
  returns the state it read, and the operation's row ends failed even when the provider found the
  data.\<close>

theorem lookup_never_succeeds:
  assumes "runtime_ok rt" "owns op s" "truthy (o_resource_id op) = None"
  shows "\<exists>e t. lookup_data_workflow rt op s = (Inl e, t) \<and> row_in (o_id op) {Failed} t"
proof -
  obtain x t where run: "lookup_data_workflow rt op s = (x, t)" by (cases "lookup_data_workflow rt op s")
  note spec = lookup_spec [OF assms(1,3)]
  show ?thesis
  proof (cases x)
    case (Inl e)
    with run spec_InlD [OF spec assms(2)] show ?thesis by simp
  next
    case (Inr y)
    with run spec_InrD [OF spec assms(2)] show ?thesis by simp
  qed
qed

section \<open>Witnesses\<close>

text \<open>A runtime whose provider answers at once, and a create that fails in it since its provider has no
  integration; with the policy \<open>always\<close>, a hook that answers \<open>b\<close>.\<close>

definition demo_rt :: "bool \<Rightarrow> runtime" where
  "demo_rt b =
     \<lparr> rt_clock = \<lambda>_. 7, rt_catalog = [], rt_decision = answer b, rt_schema = \<lambda>_ _. eff_return None,
       rt_read = \<lambda>_ _ _ _. eff_return None,
       rt_plan = \<lambda>_ _ _ _ _ _. eff_return \<lparr> pp_planned = None, pp_private = None, pp_replace = [] \<rparr>,
       rt_apply = \<lambda>_ _ _. eff_return None, rt_import = \<lambda>_ _ _ _. eff_return [],
       rt_read_data = \<lambda>_ _ _ _. eff_return None, rt_driver = \<lambda>_. ([], []), rt_stringify = \<lambda>_. [],
       rt_row_json = \<lambda>_. JNull \<rparr>"

lemma demo_rt_ok: "runtime_ok (demo_rt b)"
  by (simp add: runtime_ok_def demo_rt_def answer_def world.moves_basic)

definition lookup_op :: operation where
  "lookup_op = created_op\<lparr> o_resource_id := None, o_kind := OpLookup, o_lock := None \<rparr>"

definition lookup_db :: db where
  "lookup_db = created_db\<lparr> db_operations := [lookup_op] \<rparr>"

lemma workflows_close_witness:
  "row_in (o_id created_op) {Succeeded, Failed, Canceled}
    (snd (delete_resource_workflow (demo_rt True) created_op guarded_db))"
  using workflows_close [OF demo_rt_ok guarded_owns, of True] by (simp add: closed_row_def)

lemma failed_stub_tombstoned_witness:
  "resource_deleted ''r'' (snd (import_resource_workflow (demo_rt True) created_op guarded_db))"
proof -
  let ?w = "import_resource_workflow (demo_rt True) created_op guarded_db"
  have "case fst ?w of Inl e \<Rightarrow> True | _ \<Rightarrow> False" by code_simp
  then obtain e where "?w = (Inl e, snd ?w)" by (cases ?w) (auto split: sum.splits)
  moreover have "o_kind created_op = OpCreate \<or> o_kind created_op = OpImport"
    "truthy (o_resource_id created_op) = Some ''r''" by code_simp+
  ultimately show ?thesis
    using failed_stub_tombstoned [OF demo_rt_ok guarded_owns, of "''r''" True e "snd ?w"] by simp
qed

lemma no_approval_no_provider_call_witness:
  "create_resource_workflow ((demo_rt False)\<lparr> rt_apply := \<lambda>_ _ _. eff_throw (PlainError []) \<rparr>)
      created_op guarded_db =
    create_resource_workflow (demo_rt False) created_op guarded_db"
proof -
  have f: "truthy (o_resource_id created_op) = Some ''r''"
    "find (\<lambda>r. r_id r = ''r'') (db_resources guarded_db) = Some (hd (db_resources guarded_db))"
    "list_all plain_policy (policy_ids_for (Some (hd (db_resources guarded_db))) guarded_project)"
    "policy_requires (o_kind created_op) (policy_ids_for (Some (hd (db_resources guarded_db))) guarded_project)"
    by code_simp+
  have no: "fst (rt_decision (demo_rt False) token t) \<noteq> Inr True" for token t
    by (simp add: demo_rt_def answer_def eff_run)
  have "(demo_rt False)\<lparr> rt_apply := \<lambda>_ _ _. eff_throw (PlainError []) \<rparr> = (demo_rt False)
    \<lparr> rt_plan := rt_plan (demo_rt False), rt_apply := \<lambda>_ _ _. eff_throw (PlainError []),
      rt_read := rt_read (demo_rt False), rt_import := rt_import (demo_rt False) \<rparr>" by simp
  from no_approval_no_provider_call [OF f(1,2) guarded_facts(1,2) f(3,4) no this] show ?thesis by simp
qed

lemma start_marks_nothing_witness:
  "\<exists>o1 t. wait_for_operation_approval (\<lambda>_. 7) (answer True) created_op None guarded_db = (Inr (Approved o1), t) \<and>
    snd (start_update_resource_operation (demo_rt True) o1 t) = t"
proof -
  let ?w = "wait_for_operation_approval (\<lambda>_. 7) (answer True) created_op None guarded_db"
  have gate: "rt_clock (demo_rt True) = (\<lambda>_. 7)" "rt_decision (demo_rt True) = answer True"
    by (simp_all add: demo_rt_def)
  have "case fst ?w of Inr (Approved o1) \<Rightarrow> True | _ \<Rightarrow> False" by code_simp
  then obtain o1 where o1: "?w = (Inr (Approved o1), snd ?w)"
    by (cases ?w) (auto split: sum.splits gate_result.splits)
  have "eff_moves world_le (rt_decision (demo_rt True) (operation_approval_token created_op))"
    by (simp add: gate answer_def world.moves_basic)
  from start_marks_nothing [OF guarded_owns this, unfolded gate, OF o1] o1 show ?thesis by blast
qed

lemma lookup_owns: "owns lookup_op lookup_db"
proof -
  have "operations_ok [lookup_op]" unfolding operations_ok_def by (intro conjI; code_simp)
  moreover have "db_operations lookup_db = [lookup_op]" "db_resources lookup_db = db_resources created_db"
    "truthy (o_resource_id lookup_op) = None" by (simp_all add: lookup_db_def lookup_op_def)
  ultimately show ?thesis using created_db_ok by (simp add: owns_def db_ok_def row_fixed_def)
qed

lemma lookup_never_succeeds_witness:
  "row_in ''1'' {Failed} (snd (lookup_data_workflow (demo_rt True) lookup_op lookup_db))"
proof -
  have "truthy (o_resource_id lookup_op) = None" "o_id lookup_op = ''1''" by code_simp+
  then show ?thesis
    using lookup_never_succeeds [OF demo_rt_ok lookup_owns, of True] by auto
qed

end
