(* ===== verification/LockTable.thy ===== *)
theory LockTable
  imports OperationProps
begin

text \<open>
  What the operations service promises of locks, as an abstract machine: a table of the operations that
  hold a lock of a project, and three events, of which acquiring a lock is possible only while it is
  free. Every call of the service is one event, told by the call and by whether it returned or threw,
  and moves the table the way the event says.
\<close>

section \<open>The abstract machine\<close>

type_synonym lock_table = "((string \<times> string) \<times> string) set"   \<comment> \<open>project and lock, operation\<close>

datatype lock_event = Acquire "string \<times> string" string | Release string | Stay

fun lock_apply :: "lock_event \<Rightarrow> lock_table \<Rightarrow> lock_table option" where
  "lock_apply (Acquire l k) T = (if l \<in> fst ` T then None else Some (insert (l, k) T))"
| "lock_apply (Release k) T = Some {e \<in> T. snd e \<noteq> k}"
| "lock_apply Stay T = Some T"

fun lock_run :: "lock_event list \<Rightarrow> lock_table \<Rightarrow> lock_table option" where
  "lock_run [] T = Some T"
| "lock_run (e # es) T = Option.bind (lock_apply e T) (lock_run es)"

text \<open>Its promise: a lock has one holder, and an operation holds one lock.\<close>

definition exclusive :: "lock_table \<Rightarrow> bool" where
  "exclusive T \<longleftrightarrow> inj_on fst T \<and> inj_on snd T"

section \<open>The abstraction\<close>

definition holds_lock :: "operation \<Rightarrow> bool" where
  "holds_lock a \<longleftrightarrow> o_lock a \<noteq> None \<and> is_open a"

definition lock_entry :: "operation \<Rightarrow> (string \<times> string) \<times> string" where
  "lock_entry a = ((o_project_id a, the (o_lock a)), o_id a)"

definition held :: "db \<Rightarrow> lock_table" where
  "held s = lock_entry ` set (filter holds_lock (db_operations s))"

lemma in_held: "e \<in> held s \<longleftrightarrow> (\<exists>a \<in> set (db_operations s). holds_lock a \<and> e = lock_entry a)"
  by (auto simp: held_def)

lemma held_same: "db_operations t = db_operations s \<Longrightarrow> held t = held s"
  by (simp add: held_def)

lemma held_open_locks: "fst ` held s = set (open_locks (db_operations s))"
  by (simp add: held_def open_locks_def lock_entry_def holds_lock_def image_image)

lemma held_snoc:
  "held (s\<lparr> db_operations := db_operations s @ [a] \<rparr>) = (if holds_lock a then insert (lock_entry a) (held s) else held s)"
  by (simp add: held_def)

section \<open>The calls of the service\<close>

datatype op_call =
    CallCreate string int create_operation_params
  | CallCreateResource string string string int create_resource_params
  | CallAttach int operation string
  | CallRunning int operation "resource_patch option"
  | CallAwaiting int operation operation_approval
  | CallSucceeded int operation jsobj "resource_patch option"
  | CallFailed int operation operation_error "resource_patch option"
  | CallCanceling int operation
  | CallCanceled int operation "resource_patch option"
  | CallApprove int operation actor
  | CallCancel int operation actor
  | CallRetry string int operation actor

fun run_call :: "op_call \<Rightarrow> operation svc" where
  "run_call (CallCreate k now p) = create_operation k now p"
| "run_call (CallCreateResource rid k lid now p) =
     eff_bind (create_resource_with_operation rid k lid now p) (\<lambda>(resource, op). eff_return op)"
| "run_call (CallAttach now op run) = attach_operation_workflow_run now op run"
| "run_call (CallRunning now op patch) = mark_operation_running now op patch"
| "run_call (CallAwaiting now op approval) = mark_operation_awaiting_approval now op approval"
| "run_call (CallSucceeded now op result patch) = mark_operation_succeeded now op result patch"
| "run_call (CallFailed now op err patch) = mark_operation_failed now op err patch"
| "run_call (CallCanceling now op) = mark_operation_canceling now op"
| "run_call (CallCanceled now op patch) = mark_operation_canceled now op patch"
| "run_call (CallApprove now op actor) = approve_operation now op actor"
| "run_call (CallCancel now op actor) = cancel_operation now op actor"
| "run_call (CallRetry k now op actor) = retry_operation k now op actor"

text \<open>A call that inserts rows is given ids that no row has.\<close>

fun fresh_call :: "op_call \<Rightarrow> db \<Rightarrow> bool" where
  "fresh_call (CallCreate k now p) s = (k \<notin> o_id ` set (db_operations s))"
| "fresh_call (CallCreateResource rid k lid now p) s =
     (rid \<notin> r_id ` set (db_resources s) \<and> k \<notin> o_id ` set (db_operations s))"
| "fresh_call (CallRetry k now op actor) s = (k \<notin> o_id ` set (db_operations s))"
| "fresh_call c s = True"

text \<open>The event of a call that returns: an operation takes its lock when it is created, and gives it back
  when it succeeds, fails or is canceled. A user's cancel closes an operation that was pending or
  awaiting approval; of a running one it only asks. A call that throws is no event.\<close>

definition acquires :: "string \<Rightarrow> string option \<Rightarrow> string \<Rightarrow> lock_event" where
  "acquires project_id lock k = (case lock of None \<Rightarrow> Stay | Some l \<Rightarrow> Acquire (project_id, l) k)"

fun event_of :: "op_call \<Rightarrow> lock_event" where
  "event_of (CallCreate k now p) = acquires (cp_project_id p) (cp_lock p) k"
| "event_of (CallCreateResource rid k lid now p) = Acquire (rp_project_id p, resource_lock rid) k"
| "event_of (CallRetry k now op actor) = acquires (o_project_id op) (o_lock op) k"
| "event_of (CallSucceeded now op result patch) = Release (o_id op)"
| "event_of (CallFailed now op err patch) = Release (o_id op)"
| "event_of (CallCanceled now op patch) = Release (o_id op)"
| "event_of (CallCancel now op actor) =
     (if o_status op \<in> {Pending, AwaitingApproval} then Release (o_id op) else Stay)"
| "event_of c = Stay"

definition call_event :: "op_call \<Rightarrow> js_error + operation \<Rightarrow> lock_event" where
  "call_event c result = (if isl result then Stay else event_of c)"

inductive op_calls :: "db \<Rightarrow> (op_call \<times> (js_error + operation)) list \<Rightarrow> db \<Rightarrow> bool" where
  no_call: "op_calls s [] s"
| call: "fresh_call c s \<Longrightarrow> run_call c s = (result, s1) \<Longrightarrow> op_calls s1 cs t \<Longrightarrow> op_calls s ((c, result) # cs) t"

text \<open>These are the steps of the service.\<close>

lemma run_call_step: "fresh_call c s \<Longrightarrow> run_call c s = (result, t) \<Longrightarrow> op_step s t"
proof (cases c)
  case (CallCreateResource rid k lid now p)
  assume fresh: "fresh_call c s" and run: "run_call c s = (result, t)"
  obtain y u where y: "create_resource_with_operation rid k lid now p s = (y, u)"
    by (cases "create_resource_with_operation rid k lid now p s")
  with run CallCreateResource have "t = u" by (auto simp: eff_bind_run eff_run split: sum.splits prod.splits)
  with y fresh CallCreateResource show ?thesis by (auto intro: step_create_resource)
qed (auto intro: op_step.intros)

lemma op_step_call: "op_step s t \<longleftrightarrow> (\<exists>c result. fresh_call c s \<and> run_call c s = (result, t))"
proof
  assume "op_step s t"
  then show "\<exists>c result. fresh_call c s \<and> run_call c s = (result, t)"
  proof cases
    case (step_create k now p x)
    then show ?thesis by (intro exI [of _ "CallCreate k now p"]) simp
  next
    case (step_create_resource rid k lid now rp y)
    then show ?thesis
      by (intro exI [of _ "CallCreateResource rid k lid now rp"])
        (auto simp: eff_bind_run eff_run split: sum.split prod.split)
  next
    case (step_attach now op run x)
    then show ?thesis by (intro exI [of _ "CallAttach now op run"]) simp
  next
    case (step_running now op patch x)
    then show ?thesis by (intro exI [of _ "CallRunning now op patch"]) simp
  next
    case (step_awaiting now op approval x)
    then show ?thesis by (intro exI [of _ "CallAwaiting now op approval"]) simp
  next
    case (step_succeeded now op result patch x)
    then show ?thesis by (intro exI [of _ "CallSucceeded now op result patch"]) simp
  next
    case (step_failed now op err patch x)
    then show ?thesis by (intro exI [of _ "CallFailed now op err patch"]) simp
  next
    case (step_canceling now op x)
    then show ?thesis by (intro exI [of _ "CallCanceling now op"]) simp
  next
    case (step_canceled now op patch x)
    then show ?thesis by (intro exI [of _ "CallCanceled now op patch"]) simp
  next
    case (step_approve now op actor x)
    then show ?thesis by (intro exI [of _ "CallApprove now op actor"]) simp
  next
    case (step_cancel now op actor x)
    then show ?thesis by (intro exI [of _ "CallCancel now op actor"]) simp
  next
    case (step_retry k now op actor x)
    then show ?thesis by (intro exI [of _ "CallRetry k now op actor"]) simp
  qed
qed (auto intro: run_call_step)

section \<open>Calls that leave the table\<close>

definition same_locks :: "db \<Rightarrow> db \<Rightarrow> bool" where
  "same_locks s t \<longleftrightarrow> held t = held s"

interpretation same_locks: state_order same_locks
  by unfold_locales (simp_all add: same_locks_def)

lemma same_rows_locks: "(\<And>s. db_operations (snd (m s)) = db_operations s) \<Longrightarrow> eff_moves same_locks m"
  by (simp add: eff_moves_def same_locks_def held_def)

lemma held_map:
  "(\<And>a. lock_entry (h a) = lock_entry a \<and> holds_lock (h a) = holds_lock a) \<Longrightarrow>
   held (s\<lparr> db_operations := map h (db_operations s) \<rparr>) = held s"
  by (auto simp: in_held set_eq_iff)

lemma update_operation_locks:
  assumes "\<And>a. o_id a = k \<Longrightarrow> (case statuses of None \<Rightarrow> True | Some sts \<Rightarrow> o_status a \<in> set sts) \<Longrightarrow>
      lock_entry (f a) = lock_entry a \<and> holds_lock (f a) = holds_lock a"
  shows "eff_moves same_locks (update_operation k statuses now f)"
proof -
  have touch: "lock_entry (a\<lparr> o_updated_at := now \<rparr>) = lock_entry a" "holds_lock (a\<lparr> o_updated_at := now \<rparr>) = holds_lock a" for a
    by (simp_all add: lock_entry_def holds_lock_def is_open_def)
  let ?p = "\<lambda>a. o_id a = k \<and> (case statuses of None \<Rightarrow> True | Some sts \<Rightarrow> o_status a \<in> set sts)"
  let ?h = "\<lambda>a. if ?p a then (f a)\<lparr> o_updated_at := now \<rparr> else a"
  have h: "lock_entry (?h a) = lock_entry a" "holds_lock (?h a) = holds_lock a" for a
    using assms [of a] by (simp_all add: touch)
  have "held (s\<lparr> db_operations := map ?h (db_operations s) \<rparr>) = held s" for s
    by (rule held_map) (intro conjI h)
  then show ?thesis
    by (simp add: eff_moves_def same_locks_def update_operation_def update_where_def Let_def)
qed

lemma other_locks:
  "eff_moves same_locks (notify_operation op)" "eff_moves same_locks (notify_patched patched patch)"
  "eff_moves same_locks (log_run e)" "eff_moves same_locks (find_operation j)"
  "eff_moves same_locks (patch_owned now op patch)"
  by (rule same_rows_locks; auto simp: notify_operation_def notify_resource_def notify_patched_def
      pg_notify_def log_run_def find_operation_def patch_owned_def apply_resource_patch_def Let_def eff_simps
      split: option.splits prod.splits sum.splits)+

lemmas lock_moves = same_locks.moves_basic same_locks.moves_bind same_locks.moves_catch same_locks.moves_tx
  same_locks.moves_cases other_locks update_operation_locks

lemma marks_locks:
  "eff_moves same_locks (attach_operation_workflow_run now op run)"
  "eff_moves same_locks (mark_operation_running now op patch)"
  "eff_moves same_locks (mark_operation_awaiting_approval now op approval)"
  "eff_moves same_locks (mark_operation_canceling now op)"
  "eff_moves same_locks (approve_operation now op actor)"
  unfolding attach_operation_workflow_run_def mark_operation_running_def
    mark_operation_awaiting_approval_def mark_operation_canceling_def approve_operation_def
    transition_def announce_def settled_or_conflict_def
  by (intro lock_moves; auto simp: lock_entry_def holds_lock_def is_open_def OPEN_OPERATION_STATUSES_def)+

section \<open>Calls that close an operation\<close>

lemma held_closed:
  assumes "distinct (map o_id (db_operations s))" "a \<in> set (db_operations s)" "p a" "\<And>b. p b \<Longrightarrow> o_id b = k"
    and "\<And>b. p b \<Longrightarrow> o_id (g b) = o_id b \<and> \<not> is_open (g b)"
    and "db_operations t = update_where p g (db_operations s)"
  shows "held t = {e \<in> held s. snd e \<noteq> k}"
proof -
  have only: "b = a" if "b \<in> set (db_operations s)" "o_id b = k" for b
    using assms(1,2) that assms(4) [OF assms(3)] unfolding distinct_map by (auto dest: inj_onD)
  have row: "p b \<longleftrightarrow> b = a" "o_id b = k \<longleftrightarrow> b = a" if "b \<in> set (db_operations s)" for b
    using only [OF that] assms(3,4) by blast+
  have "set (db_operations t) = g ` {b \<in> set (db_operations s). p b} \<union> {b \<in> set (db_operations s). \<not> p b}"
    by (auto simp: assms(6) update_where_def image_iff)
  also have "\<dots> = insert (g a) {b \<in> set (db_operations s). o_id b \<noteq> k}"
    using assms(2) row by auto
  finally have rows: "set (db_operations t) = insert (g a) {b \<in> set (db_operations s). o_id b \<noteq> k}" .
  have "\<not> holds_lock (g a)" using assms(3,5) by (simp add: holds_lock_def)
  then have "e \<in> held t \<longleftrightarrow> (\<exists>b \<in> set (db_operations s). o_id b \<noteq> k \<and> holds_lock b \<and> e = lock_entry b)" for e
    unfolding in_held rows by blast
  then show ?thesis by (auto simp: set_eq_iff in_held lock_entry_def)
qed

lemma held_none:
  assumes "distinct (map o_id (db_operations s))" "a \<in> set (db_operations s)" "o_id a = k" "\<not> is_open a"
  shows "held s = {e \<in> held s. snd e \<noteq> k}"
proof -
  have "b = a" if "b \<in> set (db_operations s)" "o_id b = k" for b
    using assms(1-3) that unfolding distinct_map by (auto dest: inj_onD)
  then have "snd e \<noteq> k" if "e \<in> held s" for e
    using assms(4) that by (auto simp: in_held lock_entry_def holds_lock_def)
  then show ?thesis by blast
qed

text \<open>What a transition that closes the row does to the table.\<close>

lemma transition_locks:
  assumes "distinct (map o_id (db_operations s))" "\<And>a. o_id (f a) = o_id a \<and> \<not> is_open (f a)"
    and "transition now op statuses f patch s = (result, t)"
  shows "case result of Inl e \<Rightarrow> held t = held s | Inr None \<Rightarrow> t = s
    | Inr (Some x) \<Rightarrow> held t = {e \<in> held s. snd e \<noteq> o_id op}"
proof -
  let ?p = "\<lambda>a. o_id a = o_id op \<and> (case statuses of None \<Rightarrow> True | Some sts \<Rightarrow> o_status a \<in> set sts)"
  let ?g = "\<lambda>a. (f a)\<lparr> o_updated_at := now \<rparr>"
  let ?s1 = "s\<lparr> db_operations := update_where ?p ?g (db_operations s) \<rparr>"
  have g: "o_id (?g a) = o_id a \<and> \<not> is_open (?g a)" for a using assms(2) [of a] by (simp add: is_open_def)
  show ?thesis
  proof (cases "first_row (returning ?p ?g (db_operations s))")
    case None
    then have "\<forall>r \<in> set (db_operations s). \<not> ?p r" unfolding first_row_returning_None .
    then have "?s1 = s" by (simp only: update_where_none) simp
    with None assms(3) show ?thesis
      by (auto simp: transition_def update_operation_def Let_def eff_simps)
  next
    case (Some row)
    from first_row_returning_Some [OF Some] obtain a where a: "a \<in> set (db_operations s)" "?p a" by blast
    obtain q u where q: "patch_owned now op patch ?s1 = (q, u)" by (cases "patch_owned now op patch ?s1")
    have u: "held u = held ?s1" using same_locks.moves_state [OF other_locks(5) q] by (simp add: same_locks_def)
    have closed: "held ?s1 = {e \<in> held s. snd e \<noteq> o_id op}"
      by (rule held_closed [where p = ?p and g = ?g, OF assms(1) a]) (use g in auto)
    from Some q assms(3) have "(result, t) = (case q of Inl e \<Rightarrow> (Inl e, s) | Inr x \<Rightarrow> (Inr (Some (row, x)), u))"
      by (auto simp: transition_def update_operation_def Let_def eff_simps split: sum.splits)
    with u closed show ?thesis by (cases q) auto
  qed
qed

lemma announce_returns:
  "\<exists>u. announce op row patched patch s = (Inr (with_request op row), u) \<and> held u = held s"
proof -
  have "fst (announce op row patched patch s) = Inr (with_request op row)"
    by (simp add: announce_def notify_operation_def notify_patched_def notify_resource_def pg_notify_def eff_simps
        split: option.split)
  moreover have "eff_moves same_locks (announce op row patched patch)" unfolding announce_def by (intro lock_moves)
  ultimately show ?thesis by (cases "announce op row patched patch s") (auto dest: same_locks.moves_state simp: same_locks_def)
qed

lemma settled_locks:
  assumes "distinct (map o_id (db_operations s))" "settled_or_conflict op P s = (result, t)" "\<And>a. P a \<Longrightarrow> \<not> is_open a"
  shows "t = s \<and> (\<not> isl result \<longrightarrow> held s = {e \<in> held s. snd e \<noteq> o_id op})"
proof (cases "find (\<lambda>a. o_id a = o_id op) (db_operations s)")
  case None
  with assms(2) show ?thesis by (auto simp: settled_or_conflict_def find_operation_def eff_simps)
next
  case (Some a)
  then have "a \<in> set (db_operations s)" "o_id a = o_id op" by (auto simp: find_Some_iff)
  with Some assms held_none [OF assms(1) this] show ?thesis
    by (auto simp: settled_or_conflict_def find_operation_def eff_simps split: if_splits)
qed

lemma closes_locks:
  assumes "distinct (map o_id (db_operations s))"
  shows "mark_operation_succeeded now op outcome patch s = (result, t) \<Longrightarrow>
      lock_apply (if isl result then Stay else Release (o_id op)) (held s) = Some (held t)"
    "mark_operation_failed now op err patch s = (result, t) \<Longrightarrow>
      lock_apply (if isl result then Stay else Release (o_id op)) (held s) = Some (held t)"
    "mark_operation_canceled now op patch s = (result, t) \<Longrightarrow>
      lock_apply (if isl result then Stay else Release (o_id op)) (held s) = Some (held t)"
proof -
  have run: "lock_apply (if isl result then Stay else Release (o_id op)) (held s) = Some (held t)"
    if run: "eff_bind (transition now op statuses f patch) (\<lambda>closed. case closed of None \<Rightarrow> otherwise
        | Some (row, patched) \<Rightarrow> announce op row patched patch) s = (result, t)"
      and closes: "\<And>a. o_id (f a) = o_id a \<and> \<not> is_open (f a)"
      and otherwise: "\<And>result t. otherwise s = (result, t) \<Longrightarrow>
        t = s \<and> (\<not> isl result \<longrightarrow> held s = {e \<in> held s. snd e \<noteq> o_id op})" for statuses f otherwise
  proof -
    obtain q u where q: "transition now op statuses f patch s = (q, u)" by (cases "transition now op statuses f patch s")
    note moved = transition_locks [OF assms closes q]
    consider (threw) e where "q = Inl e" | (none) "q = Inr None" | (some) row patched where "q = Inr (Some (row, patched))"
      by (cases q) (auto, metis option.exhaust surj_pair)
    then show ?thesis
    proof cases
      case threw
      with moved q run show ?thesis by (auto simp: eff_bind_run)
    next
      case none
      with moved q run have "otherwise s = (result, t)" by (simp add: eff_bind_run)
      from otherwise [OF this] show ?thesis by (cases result) auto
    next
      case some
      with moved q run announce_returns [of op row patched patch u] show ?thesis by (auto simp: eff_bind_run)
    qed
  qed
  have missing: "eff_throw (operation_not_found op) s = (result, t) \<Longrightarrow>
      t = s \<and> (\<not> isl result \<longrightarrow> held s = {e \<in> held s. snd e \<noteq> o_id op})" for result :: "js_error + operation" and t
    by (auto simp: eff_run)
  show "mark_operation_succeeded now op outcome patch s = (result, t) \<Longrightarrow>
      lock_apply (if isl result then Stay else Release (o_id op)) (held s) = Some (held t)"
    unfolding mark_operation_succeeded_def
    by (erule run [OF _ _ missing]) (simp_all add: is_open_def OPEN_OPERATION_STATUSES_def)
  show "mark_operation_failed now op err patch s = (result, t) \<Longrightarrow>
      lock_apply (if isl result then Stay else Release (o_id op)) (held s) = Some (held t)"
    unfolding mark_operation_failed_def
    by (erule run [OF _ _ missing]) (simp_all add: is_open_def OPEN_OPERATION_STATUSES_def)
  show "mark_operation_canceled now op patch s = (result, t) \<Longrightarrow>
      lock_apply (if isl result then Stay else Release (o_id op)) (held s) = Some (held t)"
    unfolding mark_operation_canceled_def eff_bind_def [of "transition _ _ _ _ _"]
    by (rule run [where otherwise = "settled_or_conflict op (\<lambda>c. o_status c = Canceled)"
          and statuses = "Some [Pending, Running, AwaitingApproval, Canceling]"])
      (auto simp: eff_bind_def is_open_def OPEN_OPERATION_STATUSES_def cong: option.case_cong
        split: sum.splits prod.splits option.splits dest!: settled_locks [OF assms])
qed

lemma cancel_locks:
  assumes "distinct (map o_id (db_operations s))" "cancel_operation now op actor s = (result, t)"
  shows "lock_apply (call_event (CallCancel now op actor) result) (held s) = Some (held t)"
proof (cases "o_status op")
  case Pending
  from assms(2) Pending obtain r1 s1 where mark: "mark_operation_canceled now op (cancel_stub_resource_patch now op) s = (r1, s1)"
    and rest: "isl result = isl r1" "db_operations t = db_operations s1"
    by (cases "mark_operation_canceled now op (cancel_stub_resource_patch now op) s")
      (auto simp: cancel_operation_def eff_simps log_run_def split: sum.splits option.splits)
  from closes_locks(3) [OF assms(1) mark] held_same [OF rest(2)] rest(1) Pending show ?thesis
    by (auto simp: call_event_def split: if_splits)
next
  case AwaitingApproval
  let ?f = "\<lambda>o1. o1\<lparr> o_status := Canceled, o_closed_at := Some now, o_approval := Some ((approval_of op)
    \<lparr> ap_canceled_by := Some (ac_type actor, ac_id actor), ap_canceled_at := Some now \<rparr>) \<rparr>"
  let ?m = "transition now op (Some [AwaitingApproval]) ?f (cancel_stub_resource_patch now op)"
  obtain q u where q: "?m s = (q, u)" by (cases "?m s")
  have "case q of Inl e \<Rightarrow> held u = held s | Inr None \<Rightarrow> u = s
    | Inr (Some x) \<Rightarrow> held u = {e \<in> held s. snd e \<noteq> o_id op}"
    by (rule transition_locks [OF assms(1) _ q]) (simp add: is_open_def OPEN_OPERATION_STATUSES_def)
  moreover have "db_operations t = db_operations u" "isl result \<longleftrightarrow> (\<forall>x. q \<noteq> Inr (Some x))"
    using assms(2) q AwaitingApproval
    by (auto simp: cancel_operation_def Let_def eff_simps log_run_def notify_operation_def notify_patched_def
        notify_resource_def pg_notify_def split: sum.splits option.splits prod.splits)
  ultimately show ?thesis using AwaitingApproval held_same [of t u]
    by (auto simp: call_event_def split: sum.splits option.splits)
next
  case Running
  with assms(2) have "mark_operation_canceling now op s = (result, t)" by (simp add: cancel_operation_def)
  from same_locks.moves_state [OF marks_locks(4) this] Running show ?thesis by (simp add: call_event_def same_locks_def)
qed (use assms(2) in \<open>auto simp: cancel_operation_def call_event_def eff_run\<close>)

section \<open>Calls that create an operation\<close>

lemma insert_operation_locks:
  assumes "insert_operation op s = (result, t)" "is_open op"
  shows "lock_apply (if isl result then Stay else acquires (o_project_id op) (o_lock op) (o_id op)) (held s) = Some (held t)"
  using assms
proof (cases "o_lock op")
  case None
  with assms show ?thesis
    by (auto simp: insert_operation_def acquires_def held_snoc holds_lock_def split: if_splits)
next
  case (Some l)
  show ?thesis
  proof (cases "(o_project_id op, l) \<in> fst ` held s")
    case True
    with assms Some show ?thesis by (auto simp: insert_operation_def held_open_locks)
  next
    case False
    with assms Some show ?thesis
      by (auto simp: insert_operation_def acquires_def held_snoc holds_lock_def lock_entry_def held_open_locks
          split: if_splits)
  qed
qed

lemma new_operation_open: "is_open (new_operation k now p)"
  by (simp add: new_operation_def is_open_def OPEN_OPERATION_STATUSES_def)

lemma create_operation_locks:
  assumes "create_operation k now p s = (result, t)"
  shows "lock_apply (if isl result then Stay else acquires (cp_project_id p) (cp_lock p) k) (held s) = Some (held t)"
proof -
  obtain q u where q: "insert_operation (new_operation k now p) s = (q, u)"
    by (cases "insert_operation (new_operation k now p) s")
  with assms have "db_operations t = db_operations u" "isl result = isl q"
    by (auto simp: create_operation_def eff_simps notify_operation_def pg_notify_def split: sum.splits if_splits)
  with insert_operation_locks [OF q new_operation_open] held_same [of t u] show ?thesis
    by (auto simp: new_operation_def split: if_splits)
qed

lemma create_resource_locks:
  assumes "create_resource_with_operation rid k lid now p s = (result, t)"
  shows "lock_apply (if isl result then Stay else Acquire (rp_project_id p, resource_lock rid) k) (held s) = Some (held t)"
proof (cases result)
  case (Inl e)
  with assms have "db_operations t = db_operations s"
    by (auto simp: create_resource_with_operation_def eff_simps notify_operation_def notify_resource_def pg_notify_def
        split: sum.splits prod.splits if_splits)
  from held_same [OF this] Inl show ?thesis by simp
next
  case (Inr x)
  let ?op = "new_resource_operation k rid now p"
  let ?layout = "case nr_position (rp_resource p) of None \<Rightarrow> eff_return ()
    | Some pos \<Rightarrow> insert_layout \<lparr> l_id = lid, l_resource_id = rid, l_view_id = None, l_position = Some pos,
        l_size = None, l_collapsed = False \<rparr>"
  obtain q1 u1 where 1: "insert_resource (new_resource_row rid now p) s = (q1, u1)"
    by (cases "insert_resource (new_resource_row rid now p) s")
  obtain q2 u2 where 2: "?layout u1 = (q2, u2)" by (cases "?layout u1")
  obtain q3 u3 where 3: "insert_operation ?op u2 = (q3, u3)" by (cases "insert_operation ?op u2")
  have "db_operations u1 = db_operations s" using insert_rows(1) [of "new_resource_row rid now p" s] 1 by simp
  moreover have "db_operations u2 = db_operations u1"
    using 2 insert_rows(2) by (auto simp: eff_run split: option.splits) (metis snd_conv)
  ultimately have same: "held u2 = held s" by (simp add: held_def)
  have row: "\<forall>r. q1 = Inr r \<longrightarrow> r_id r = rid"
    using 1 by (auto simp: insert_resource_def new_resource_row_def split: if_splits)
  from assms Inr 1 2 3 row have "db_operations t = db_operations u3 \<and> \<not> isl q3"
    by (auto simp: create_resource_with_operation_def eff_simps notify_operation_def notify_resource_def pg_notify_def
        split: sum.splits prod.splits if_splits)
  with insert_operation_locks [OF 3] same held_same [of t u3] Inr show ?thesis
    by (simp add: new_resource_operation_def new_operation_open acquires_def)
      (auto simp: new_operation_def split: if_splits)
qed

section \<open>Refinement\<close>

lemma run_call_locks:
  assumes "run_call c s = (result, t)" "db_ok s"
  shows "lock_apply (call_event c result) (held s) = Some (held t)"
proof -
  have ids: "distinct (map o_id (db_operations s))" using assms(2) by (simp add: db_ok_def operations_ok_def)
  show ?thesis
  proof (cases c)
    case (CallCreate k now p)
    with assms(1) have "create_operation k now p s = (result, t)" by simp
    from create_operation_locks [OF this] CallCreate show ?thesis by (auto simp: call_event_def split: if_splits)
  next
    case (CallCreateResource rid k lid now p)
    obtain y u where y: "create_resource_with_operation rid k lid now p s = (y, u)"
      by (cases "create_resource_with_operation rid k lid now p s")
    with assms(1) CallCreateResource have "t = u" "isl result = isl y"
      by (auto simp: eff_bind_run eff_run split: sum.splits prod.splits)
    with create_resource_locks [OF y] CallCreateResource show ?thesis by (auto simp: call_event_def split: if_splits)
  next
    case (CallRetry k now op actor)
    with assms(1) have "retry_operation k now op actor s = (result, t)" by simp
    from create_operation_locks [OF this [unfolded retry_operation_def]] CallRetry show ?thesis
      by (auto simp: call_event_def split: if_splits)
  next
    case (CallCancel now op actor)
    with assms(1) cancel_locks [OF ids] show ?thesis by simp
  next
    case (CallSucceeded now op outcome patch)
    with assms(1) have "mark_operation_succeeded now op outcome patch s = (result, t)" by simp
    from closes_locks(1) [OF ids this] CallSucceeded show ?thesis by (auto simp: call_event_def split: if_splits)
  next
    case (CallFailed now op err patch)
    with assms(1) have "mark_operation_failed now op err patch s = (result, t)" by simp
    from closes_locks(2) [OF ids this] CallFailed show ?thesis by (auto simp: call_event_def split: if_splits)
  next
    case (CallCanceled now op patch)
    with assms(1) have "mark_operation_canceled now op patch s = (result, t)" by simp
    from closes_locks(3) [OF ids this] CallCanceled show ?thesis by (auto simp: call_event_def split: if_splits)
  qed (use assms(1) marks_locks [THEN same_locks.moves_state] in
      \<open>auto simp: call_event_def same_locks_def simp del: split_paired_All\<close>)
qed

lemma held_exclusive:
  assumes "db_ok s"
  shows "exclusive (held s)"
proof -
  have "distinct (map o_id (db_operations s))" "distinct (open_locks (db_operations s))"
    using assms by (simp_all add: db_ok_def operations_ok_def)
  then show ?thesis
    unfolding exclusive_def held_def open_locks_def
    by (auto simp: distinct_map inj_on_def lock_entry_def holds_lock_def)
qed

text \<open>C17: the operations service refines the lock table. Each of its calls, with whatever arguments in
  whatever state, moves the locks of the open operations the way its event says: a create or retry that
  returns takes its lock, which was free, and gives it to the new operation; a close or an effective
  cancel that returns frees the lock of that operation and no other; every other call, and every call
  that throws, leaves the table. So a sequence of calls is the run of the machine on its events, and a
  lock has one holder throughout.\<close>

theorem operations_refine_locks:
  assumes "op_calls s cs t" "db_ok s"
  shows "lock_run (map (\<lambda>(c, result). call_event c result) cs) (held s) = Some (held t) \<and> exclusive (held t)"
  using assms
proof (induction rule: op_calls.induct)
  case (no_call s)
  then show ?case by (simp add: held_exclusive)
next
  case (call c s result s1 cs t)
  from op_step_ok [OF run_call_step [OF call.hyps(1,2)] call.prems] call.IH
    run_call_locks [OF call.hyps(2) call.prems] show ?case by simp
qed

text \<open>A resource is created; a retry of its operation finds the lock taken; once the operation is canceled
  the retry takes it.\<close>

definition lock_user :: actor where
  "lock_user = \<lparr> ac_type = UserActor, ac_id = ''u'', ac_org = ''o'', ac_channel = Some Browser \<rparr>"

definition sample_calls :: "op_call list" where
  "sample_calls =
     [CallCreateResource ''r'' ''1'' ''l'' 5 sample_create_params, CallRetry ''2'' 6 created_op lock_user,
      CallCanceled 7 created_op None, CallRetry ''2'' 8 created_op lock_user]"

fun call_results :: "op_call list \<Rightarrow> db \<Rightarrow> (op_call \<times> (js_error + operation)) list \<times> db" where
  "call_results [] s = ([], s)"
| "call_results (c # cs) s = (case run_call c s of (r, s1) \<Rightarrow> case call_results cs s1 of (rs, t) \<Rightarrow> ((c, r) # rs, t))"

fun fresh_calls :: "op_call list \<Rightarrow> db \<Rightarrow> bool" where
  "fresh_calls [] s = True"
| "fresh_calls (c # cs) s = (fresh_call c s \<and> fresh_calls cs (snd (run_call c s)))"

lemma op_calls_run: "fresh_calls cs s \<Longrightarrow> op_calls s (fst (call_results cs s)) (snd (call_results cs s))"
  by (induction cs arbitrary: s) (auto intro!: op_calls.intros split: prod.split, metis fst_conv snd_conv)

lemma operations_refine_locks_witness:
  "let t = snd (call_results sample_calls empty_db) in
   lock_run [Acquire (''p'', ''resource:r'') ''1'', Stay, Release ''1'', Acquire (''p'', ''resource:r'') ''2''] {} = Some (held t) \<and>
   exclusive (held t)"
proof -
  have "fresh_calls sample_calls empty_db" "db_ok empty_db" by code_simp+
  note run = operations_refine_locks [OF op_calls_run [OF this(1)] this(2)]
  have "map (\<lambda>(c, result). call_event c result) (fst (call_results sample_calls empty_db)) =
      [Acquire (''p'', ''resource:r'') ''1'', Stay, Release ''1'', Acquire (''p'', ''resource:r'') ''2'']"
    by code_simp
  moreover have "held empty_db = {}" by (simp add: held_def empty_db_def)
  ultimately show ?thesis using run unfolding Let_def by (simp only:)
qed

end
