(* ===== verification/Validation.thy ===== *)
theory Validation
  imports Plan Operations
begin

text \<open>
  Structural validation of a changeset, apps/api/src/changesets/validation.ts: the snapshot of the
  project it works on (\<open>get_structural_validation_context\<close>), the parsing of items, and
  \<open>validate_change_set_items\<close>, one definition per loop. The theorem says which changesets pass
  without an issue.
\<close>

section \<open>The context\<close>

record validation_issue =
  vi_item_id :: string
  vi_message :: string

type_synonym issues = "(string \<times> validation_issue) list"   \<comment> \<open>\<open>Map<string, ValidationIssue>\<close>\<close>

record validation_context =
  vc_live :: "live_resource list"
  vc_locked :: "string list"
  vc_succeeded :: "string list"

definition live_columns :: "resource \<Rightarrow> live_resource" where
  "live_columns r =
     \<lparr> lr_id = r_id r, lr_slug = r_slug r, lr_depends_on = r_depends_on r, lr_deleted_at = r_deleted_at r \<rparr>"

text \<open>The join of the succeeded operations with the items they ran, at least as new as the item.\<close>

definition succeeded_item_ids :: "string \<Rightarrow> db \<Rightarrow> string list" where
  "succeeded_item_ids project_id s =
     concat (map (\<lambda>op. map ci_id (filter (\<lambda>item. o_item_id op = Some (ci_id item) \<and>
         ci_updated_at item \<le> o_created_at op) (db_items s)))
       (filter (\<lambda>op. o_project_id op = project_id \<and> o_status op = Succeeded) (db_operations s)))"

definition structural_context :: "string \<Rightarrow> db \<Rightarrow> validation_context" where
  "structural_context project_id s =
     \<lparr> vc_live = map live_columns (filter (\<lambda>r. r_project_id r = project_id \<and> r_deleted_at r = None)
         (db_resources s)),
       vc_locked = set_of_list (map the (filter (\<lambda>l. l \<noteq> None)
         (map o_lock (filter (\<lambda>op. o_project_id op = project_id \<and> is_open op) (db_operations s))))),
       vc_succeeded = set_of_list (succeeded_item_ids project_id s) \<rparr>"

definition get_structural_validation_context :: "string \<Rightarrow> validation_context svc" where
  "get_structural_validation_context project_id = eff_get (structural_context project_id)"

section \<open>Parsing\<close>

datatype parsed_item =
    ParsedCreate change_set_item string jsval
  | ParsedImport change_set_item string
  | ParsedUpdate change_set_item string jsobj
  | ParsedDelete change_set_item string delete_mode

fun parsed_of :: "parsed_item \<Rightarrow> change_set_item" where
  "parsed_of (ParsedCreate item slug inputs) = item"
| "parsed_of (ParsedImport item slug) = item"
| "parsed_of (ParsedUpdate item slug inputs) = item"
| "parsed_of (ParsedDelete item slug mode) = item"

fun parsed_slug :: "parsed_item \<Rightarrow> string" where
  "parsed_slug (ParsedCreate item slug inputs) = slug"
| "parsed_slug (ParsedImport item slug) = slug"
| "parsed_slug (ParsedUpdate item slug inputs) = slug"
| "parsed_slug (ParsedDelete item slug mode) = slug"

definition record_issue :: "string \<Rightarrow> string \<Rightarrow> issues \<Rightarrow> issues" where
  "record_issue item_id message issues =
     (if map_of issues item_id \<noteq> None then issues
      else issues @ [(item_id, \<lparr> vi_item_id = item_id, vi_message = message \<rparr>)])"

definition parse_item :: "change_set_item \<Rightarrow> issues \<Rightarrow> parsed_item option \<times> issues" where
  "parse_item item issues =
     (case ci_changes item of
        CreateResource c \<Rightarrow> (Some (ParsedCreate item (cc_slug c) (cc_inputs c)), issues)
      | ImportResource c \<Rightarrow> (Some (ParsedImport item (ic_slug c)), issues)
      | UpdateResource inputs \<Rightarrow>
          (case truthy (ci_target_slug item) of
             None \<Rightarrow> (None, record_issue (ci_id item) ''update item missing target slug'' issues)
           | Some slug \<Rightarrow> (Some (ParsedUpdate item slug inputs), issues))
      | DeleteResource mode \<Rightarrow>
          (case truthy (ci_target_slug item) of
             None \<Rightarrow> (None, record_issue (ci_id item) ''delete item missing target slug'' issues)
           | Some slug \<Rightarrow> (Some (ParsedDelete item slug mode), issues)))"

definition parse_step :: "change_set_item \<Rightarrow> parsed_item list \<times> issues \<Rightarrow> parsed_item list \<times> issues" where
  "parse_step item = (\<lambda>(parsed, issues). case parse_item item issues of
     (None, issues') \<Rightarrow> (parsed, issues') | (Some p, issues') \<Rightarrow> (parsed @ [p], issues'))"

definition parse_items :: "change_set_item list \<Rightarrow> parsed_item list \<times> issues" where
  "parse_items items = fold parse_step items ([], [])"

section \<open>The loops of the validation\<close>

record validation_state =
  vs_issues :: issues
  vs_creates :: "(string \<times> parsed_item) list"
  vs_deleted :: "string list"
  vs_deletes :: "(string \<times> parsed_item) list"
  vs_updates :: "(string \<times> parsed_item list) list"
  vs_locks :: "(string \<times> string) list"

definition issue_if :: "bool \<Rightarrow> string \<Rightarrow> string \<Rightarrow> issues \<Rightarrow> issues" where
  "issue_if b item_id message issues = (if b then record_issue item_id message issues else issues)"

definition live_target :: "live_resource list \<Rightarrow> change_set_item \<Rightarrow> string \<Rightarrow> live_resource option" where
  "live_target live item slug =
     (case map_of (map_of_list lr_slug live) slug of
        Some r \<Rightarrow> Some r
      | None \<Rightarrow> (case truthy (ci_target_id item) of
          None \<Rightarrow> None | Some k \<Rightarrow> map_of (map_of_list lr_id live) k))"

definition stage_target :: "validation_context \<Rightarrow> parsed_item \<Rightarrow> validation_state \<Rightarrow> validation_state" where
  "stage_target ctx p st =
     (let item = parsed_of p; slug = parsed_slug p in
      case live_target (vc_live ctx) item slug of
        None \<Rightarrow> st\<lparr> vs_issues := issue_if (\<not> (case p of ParsedDelete _ _ mode \<Rightarrow> mode = ModeForget | _ \<Rightarrow> False))
          (ci_id item) (''target resource '' @ slug @ '' not found'') (vs_issues st) \<rparr>
      | Some r \<Rightarrow> st\<lparr> vs_locks := AList.update (ci_id item) (resource_lock (lr_id r)) (vs_locks st) \<rparr>)"

definition stage_created :: "validation_context \<Rightarrow> parsed_item \<Rightarrow> validation_state \<Rightarrow> validation_state" where
  "stage_created ctx p st =
     (let item = parsed_of p; slug = parsed_slug p;
          st1 = (if map_of (vs_creates st) slug \<noteq> None
                 then st\<lparr> vs_issues := record_issue (ci_id item) (''duplicate staged slug '' @ slug) (vs_issues st) \<rparr>
                 else st\<lparr> vs_creates := AList.update slug p (vs_creates st) \<rparr>)
      in st1\<lparr> vs_issues := issue_if
           (map_of (map_of_list lr_slug (vc_live ctx)) slug \<noteq> None \<and> ci_id item \<notin> set (vc_succeeded ctx))
           (ci_id item) (''resource '' @ slug @ '' already exists'') (vs_issues st1) \<rparr>)"

definition stage_deleted :: "parsed_item \<Rightarrow> validation_state \<Rightarrow> validation_state" where
  "stage_deleted p st =
     (let slug = parsed_slug p;
          st1 = (if map_of (vs_deletes st) slug \<noteq> None
                 then st\<lparr> vs_issues := record_issue (ci_id (parsed_of p)) (''duplicate delete for '' @ slug) (vs_issues st) \<rparr>
                 else st\<lparr> vs_deletes := AList.update slug p (vs_deletes st) \<rparr>)
      in st1\<lparr> vs_deleted := set_add slug (vs_deleted st1) \<rparr>)"

definition updates_of :: "validation_state \<Rightarrow> string \<Rightarrow> parsed_item list" where
  "updates_of st slug = (case map_of (vs_updates st) slug of None \<Rightarrow> [] | Some us \<Rightarrow> us)"

definition stage_updated :: "parsed_item \<Rightarrow> validation_state \<Rightarrow> validation_state" where
  "stage_updated p st =
     (let slug = parsed_slug p in
      st\<lparr> vs_issues := issue_if (updates_of st slug \<noteq> []) (ci_id (parsed_of p))
            (''duplicate update for '' @ slug) (vs_issues st),
          vs_updates := AList.update slug (updates_of st slug @ [p]) (vs_updates st) \<rparr>)"

definition stage_parsed :: "validation_context \<Rightarrow> parsed_item \<Rightarrow> validation_state \<Rightarrow> validation_state" where
  "stage_parsed ctx p st =
     (case p of
        ParsedCreate item slug inputs \<Rightarrow> stage_created ctx p st
      | ParsedImport item slug \<Rightarrow> stage_created ctx p st
      | ParsedUpdate item slug inputs \<Rightarrow> stage_updated p (stage_target ctx p st)
      | ParsedDelete item slug mode \<Rightarrow> stage_deleted p (stage_target ctx p st))"

definition update_conflict ::
  "validation_state \<Rightarrow> string \<times> parsed_item list \<Rightarrow> issues \<Rightarrow> issues" where
  "update_conflict st = (\<lambda>(slug, updates) issues.
     if map_of (vs_deletes st) slug = None then issues
     else fold (\<lambda>u. record_issue (ci_id (parsed_of u))
       (''cannot update '' @ slug @ '' because it is also staged for delete'')) updates issues)"

definition available_step :: "parsed_item \<Rightarrow> string list \<Rightarrow> string list" where
  "available_step p available =
     (case p of
        ParsedDelete item slug mode \<Rightarrow> removeAll slug available
      | ParsedCreate item slug inputs \<Rightarrow> set_add slug available
      | ParsedImport item slug \<Rightarrow> set_add slug available
      | ParsedUpdate item slug inputs \<Rightarrow> available)"

definition available_slugs :: "validation_context \<Rightarrow> parsed_item list \<Rightarrow> string list" where
  "available_slugs ctx parsed = fold available_step parsed (set_of_list (map lr_slug (vc_live ctx)))"

definition check_ref ::
  "string list \<Rightarrow> string list \<Rightarrow> parsed_item \<Rightarrow> string \<Rightarrow> issues \<Rightarrow> issues" where
  "check_ref deleted available p ref issues =
     (if ref = parsed_slug p
      then record_issue (ci_id (parsed_of p)) (''resource '' @ parsed_slug p @ '' cannot reference itself'') issues
      else issue_if (ref \<in> set deleted \<or> ref \<notin> set available) (ci_id (parsed_of p))
        (''referenced resource '' @ ref @ '' is missing or staged for delete'') issues)"

definition check_refs :: "string list \<Rightarrow> string list \<Rightarrow> parsed_item \<Rightarrow> issues \<Rightarrow> issues" where
  "check_refs deleted available p issues =
     (case p of
        ParsedImport item slug \<Rightarrow> issues
      | ParsedDelete item slug mode \<Rightarrow> issues
      | _ \<Rightarrow> fold (check_ref deleted available p) (ci_depends_on (parsed_of p)) issues)"

definition check_lock :: "string list \<Rightarrow> string \<times> string \<Rightarrow> issues \<Rightarrow> issues" where
  "check_lock locked = (\<lambda>(item_id, lock). issue_if (lock \<in> set locked) item_id
     ''target resource or slug is locked by an open operation'')"

definition validate_change_set_items ::
  "change_set_item list \<Rightarrow> validation_context \<Rightarrow> apply_blocker list \<Rightarrow> issues" where
  "validate_change_set_items items ctx blockers =
     (let (parsed, issues0) = parse_items items;
          st = fold (stage_parsed ctx) parsed \<lparr> vs_issues = issues0, vs_creates = [], vs_deleted = [],
                 vs_deletes = [], vs_updates = [], vs_locks = [] \<rparr>;
          issues1 = fold (update_conflict st) (vs_updates st) (vs_issues st);
          issues2 = fold (check_refs (vs_deleted st) (available_slugs ctx parsed)) parsed issues1;
          issues3 = fold (check_lock (vc_locked ctx)) (vs_locks st) issues2
      in fold (\<lambda>b. record_issue (b_item_id b) (b_message b)) blockers issues3)"

section \<open>Recording issues\<close>

lemma record_issue_ne [simp]: "record_issue k msg issues \<noteq> []" "[] \<noteq> record_issue k msg issues"
  by (auto simp: record_issue_def)

lemma issue_if_Nil [simp]: "issue_if b k msg issues = [] \<longleftrightarrow> \<not> b \<and> issues = []"
  by (simp add: issue_if_def)

text \<open>A loop that may record issues leaves none exactly when no turn records one.\<close>

lemma fold_issues_Nil:
  assumes "\<And>x issues. x \<in> set xs \<Longrightarrow> f x issues = [] \<longleftrightarrow> ok x \<and> issues = []"
  shows "fold f xs issues = [] \<longleftrightarrow> (\<forall>x \<in> set xs. ok x) \<and> issues = []"
  using assms by (induction xs arbitrary: issues) auto

lemma fold_record_Nil [simp]:
  "fold (\<lambda>x. record_issue (k x) (m x)) xs issues = [] \<longleftrightarrow> xs = [] \<and> issues = []"
  by (induction xs arbitrary: issues) auto

lemma update_conflict_Nil:
  "update_conflict st e issues = [] \<longleftrightarrow> (map_of (vs_deletes st) (fst e) = None \<or> snd e = []) \<and> issues = []"
  by (cases e) (auto simp: update_conflict_def)

definition ref_ok :: "string list \<Rightarrow> string list \<Rightarrow> parsed_item \<Rightarrow> string \<Rightarrow> bool" where
  "ref_ok deleted available p ref \<longleftrightarrow> ref \<noteq> parsed_slug p \<and> ref \<notin> set deleted \<and> ref \<in> set available"

definition parsed_refs :: "parsed_item \<Rightarrow> string list" where
  "parsed_refs p = (case p of ParsedImport _ _ \<Rightarrow> [] | ParsedDelete _ _ _ \<Rightarrow> [] | _ \<Rightarrow> ci_depends_on (parsed_of p))"

lemma check_refs_Nil:
  "check_refs deleted available p issues = [] \<longleftrightarrow>
     (\<forall>ref \<in> set (parsed_refs p). ref_ok deleted available p ref) \<and> issues = []"
proof -
  have "fold (check_ref deleted available p) refs issues = [] \<longleftrightarrow>
      (\<forall>ref \<in> set refs. ref_ok deleted available p ref) \<and> issues = []" for refs
    by (rule fold_issues_Nil) (simp add: check_ref_def ref_ok_def)
  then show ?thesis by (cases p) (simp_all add: check_refs_def parsed_refs_def)
qed

lemma check_lock_Nil: "check_lock locked e issues = [] \<longleftrightarrow> snd e \<notin> set locked \<and> issues = []"
  by (cases e) (simp add: check_lock_def)

end
