(* ===== verification/Changesets.thy ===== *)
theory Changesets
  imports Validation Approval Integrations References
begin

text \<open>
  The changeset service, apps/api/src/changesets/changesets.ts: views of a project's changesets, the
  staging of items with their pending dry-run rows, and \<open>apply\<close> with its gates. What the service
  calls outside this model is the record \<open>environment\<close>: the clock, the start of a workflow run (which
  may throw) and the display artifacts of a list of subjects. Ids of new rows are arguments.

  A \<open>NoteChangeSet\<close> carries the row; the payload of \<open>apply\<close> and \<open>discard\<close> also contains the items of
  the loaded view, which no listener reads.
\<close>

section \<open>Views\<close>

datatype apply_status = ApplyPending | ApplySucceeded | ApplyFailed

record dry_run_view =
  dv_action :: dry_run_action
  dv_prior :: "jsobj option"
  dv_planned :: "jsobj option"
  dv_replace :: "string list list option"
  dv_error :: "string option"
  dv_updated_at :: int

record item_view =
  iv_item :: change_set_item
  iv_display :: "jsval option"
  iv_apply_status :: apply_status
  iv_apply_error :: "string option"
  iv_issue :: "string option"       \<comment> \<open>the message of \<open>validationResult\<close>; \<open>valid\<close> when \<open>None\<close>\<close>
  iv_dry_run :: "dry_run_view option"

record change_set_view =
  cv_change_set :: change_set
  cv_items :: "item_view list"

record raw_operation =
  ro_status :: operation_status
  ro_error :: "operation_error option"
  ro_created_at :: int

record raw_view =
  rv_change_set :: change_set
  rv_items :: "(change_set_item \<times> raw_operation list) list"

record display_subject =
  ds_id :: string
  ds_type :: string
  ds_integration_id :: "string option"

datatype run_request =
    RunDryRun string string int                                  \<comment> \<open>item, project, observed\<close>
  | RunRefresh string string                                     \<comment> \<open>changeset, project\<close>
  | RunApply change_set_view "change_set_item list option list"  \<comment> \<open>view, levels\<close>

record environment =
  en_clock :: "db \<Rightarrow> int"
  en_start :: "run_request \<Rightarrow> unit svc"
  en_displays :: "string \<Rightarrow> display_subject list \<Rightarrow> (string \<times> jsval) list svc"

definition actor_renders_artifacts :: "actor \<Rightarrow> bool" where
  "actor_renders_artifacts actor \<longleftrightarrow> ac_type actor \<noteq> ApiKeyActor \<and> ac_channel actor \<noteq> Some Bearer"

fun change_set_status_str :: "change_set_status \<Rightarrow> string" where
  "change_set_status_str Draft = ''draft''"
| "change_set_status_str Applying = ''applying''"
| "change_set_status_str Applied = ''applied''"
| "change_set_status_str Discarded = ''discarded''"
| "change_set_status_str ChangeSetCanceled = ''canceled''"

definition notify_change_set :: "change_set \<Rightarrow> unit svc" where
  "notify_change_set row = pg_notify (NoteChangeSet row)"

section \<open>Loading\<close>

definition raw_operation_of :: "operation \<Rightarrow> raw_operation" where
  "raw_operation_of op = \<lparr> ro_status = o_status op, ro_error = o_error op, ro_created_at = o_created_at op \<rparr>"

definition raw_view_of :: "db \<Rightarrow> change_set \<Rightarrow> raw_view" where
  "raw_view_of s row =
     \<lparr> rv_change_set = row,
       rv_items = map (\<lambda>item. (item, map raw_operation_of
           (filter (\<lambda>op. o_item_id op = Some (ci_id item)) (db_operations s))))
         (sort_key ci_created_at (filter (\<lambda>item. ci_change_set_id item = cs_id row) (db_items s))) \<rparr>"

datatype raw_order = Unordered | CreatedAtAsc | UpdatedAtDesc

definition load_raw_change_sets :: "(change_set \<Rightarrow> bool) \<Rightarrow> raw_order \<Rightarrow> raw_view list svc" where
  "load_raw_change_sets where' order = eff_get (\<lambda>s. map (raw_view_of s)
     ((case order of
         Unordered \<Rightarrow> (\<lambda>rows. rows)
       | CreatedAtAsc \<Rightarrow> sort_key cs_created_at
       | UpdatedAtDesc \<Rightarrow> sort_key (\<lambda>c. - cs_updated_at c)) (filter where' (db_change_sets s))))"

definition assert_draft :: "change_set \<Rightarrow> unit svc" where
  "assert_draft row =
     (if cs_status row \<noteq> Draft
      then eff_throw (Conflict (''changeset '' @ cs_id row @ '' is '' @ change_set_status_str (cs_status row)))
      else eff_return ())"

definition current_operations :: "int \<Rightarrow> raw_operation list \<Rightarrow> raw_operation list" where
  "current_operations updated_at ops = filter (\<lambda>op. ro_created_at op \<ge> updated_at) ops"

definition has_current_success :: "int \<Rightarrow> raw_operation list \<Rightarrow> bool" where
  "has_current_success updated_at ops \<longleftrightarrow>
     list_ex (\<lambda>op. ro_status op = Succeeded) (current_operations updated_at ops)"

definition latest_failed :: "raw_operation option \<Rightarrow> raw_operation \<Rightarrow> raw_operation option" where
  "latest_failed latest op =
     (if ro_status op = Failed \<and>
         (case latest of None \<Rightarrow> True | Some l \<Rightarrow> ro_created_at op > ro_created_at l)
      then Some op else latest)"

definition get_change_set_item_apply_result ::
  "int \<Rightarrow> raw_operation list \<Rightarrow> apply_status \<times> string option" where
  "get_change_set_item_apply_result updated_at ops =
     (let current = current_operations updated_at ops in
      if list_ex (\<lambda>op. ro_status op = Succeeded) current then (ApplySucceeded, None)
      else case foldl latest_failed None current of
        Some failed \<Rightarrow> (ApplyFailed, map_option oe_message (ro_error failed))
      | None \<Rightarrow> (ApplyPending, None))"

definition dry_run_view_of :: "dry_run \<Rightarrow> dry_run_view" where
  "dry_run_view_of d =
     \<lparr> dv_action = dr_action d, dv_prior = dr_prior d, dv_planned = dr_planned d, dv_replace = dr_replace d,
       dv_error = dr_error d, dv_updated_at = dr_updated_at d \<rparr>"

definition get_dry_runs_by_item_id :: "string list \<Rightarrow> (string \<times> dry_run_view) list svc" where
  "get_dry_runs_by_item_id item_ids =
     (if item_ids = [] then eff_return []
      else eff_get (\<lambda>s. map (\<lambda>d. (dr_item_id d, dry_run_view_of d))
        (filter (\<lambda>d. dr_item_id d \<in> set item_ids) (db_dry_runs s))))"

definition create_item_display_subject :: "change_set_item \<Rightarrow> display_subject option" where
  "create_item_display_subject item =
     (if \<not> is_create_or_import item then None
      else case truthy (ci_resource_type item) of
        None \<Rightarrow> None
      | Some ty \<Rightarrow> Some \<lparr> ds_id = ci_id item, ds_type = ty, ds_integration_id = ci_integration_id item \<rparr>)"

definition find_live_by :: "string \<Rightarrow> (resource \<Rightarrow> bool) \<Rightarrow> db \<Rightarrow> resource option" where
  "find_live_by project_id where' s =
     find (\<lambda>r. r_project_id r = project_id \<and> r_deleted_at r = None \<and> where' r) (db_resources s)"

definition live_rows :: "string \<Rightarrow> (resource \<Rightarrow> bool) \<Rightarrow> db \<Rightarrow> resource list" where
  "live_rows project_id where' s =
     filter (\<lambda>r. r_project_id r = project_id \<and> r_deleted_at r = None \<and> where' r) (db_resources s)"

definition target_slug_to_load :: "change_set_item \<Rightarrow> string list" where
  "target_slug_to_load item =
     (case truthy (ci_target_id item) of
        Some k \<Rightarrow> []
      | None \<Rightarrow> (case truthy (ci_target_slug item) of None \<Rightarrow> [] | Some slug \<Rightarrow> [slug]))"

definition target_resources_by_item_id ::
  "string \<Rightarrow> change_set_item list \<Rightarrow> (string \<times> resource) list svc" where
  "target_resources_by_item_id project_id items = eff_get (\<lambda>s.
     let target_ids = concat (map (\<lambda>i. case truthy (ci_target_id i) of None \<Rightarrow> [] | Some k \<Rightarrow> [k]) items);
         target_slugs = concat (map target_slug_to_load items);
         by_id = map_of_list r_id (live_rows project_id (\<lambda>r. r_id r \<in> set target_ids) s);
         by_slug = map_of_list r_slug (live_rows project_id (\<lambda>r. r_slug r \<in> set target_slugs) s)
     in fold (\<lambda>item found.
          case (case truthy (ci_target_id item) of
              Some k \<Rightarrow> map_of by_id k
            | None \<Rightarrow> Option.bind (truthy (ci_target_slug item)) (map_of by_slug)) of
            None \<Rightarrow> found | Some r \<Rightarrow> AList.update (ci_id item) r found) items [])"

record enrichment =
  er_dry_runs :: "(string \<times> dry_run_view) list"
  er_issues :: issues
  er_displays :: "(string \<times> jsval) list option"

definition get_item_view :: "enrichment \<Rightarrow> change_set_item \<times> raw_operation list \<Rightarrow> item_view" where
  "get_item_view e = (\<lambda>(item, ops).
     \<lparr> iv_item = item,
       iv_display = Option.bind (er_displays e) (\<lambda>ds. map_of ds (ci_id item)),
       iv_apply_status = fst (get_change_set_item_apply_result (ci_updated_at item) ops),
       iv_apply_error = snd (get_change_set_item_apply_result (ci_updated_at item) ops),
       iv_issue = map_option vi_message (map_of (er_issues e) (ci_id item)),
       iv_dry_run = map_of (er_dry_runs e) (ci_id item) \<rparr>)"

definition get_change_set_view :: "raw_view \<Rightarrow> enrichment \<Rightarrow> change_set_view" where
  "get_change_set_view row e =
     \<lparr> cv_change_set = rv_change_set row, cv_items = map (get_item_view e) (rv_items row) \<rparr>"

definition raw_items :: "raw_view \<Rightarrow> change_set_item list" where
  "raw_items row = map fst (rv_items row)"

definition display_subjects ::
  "(string \<times> resource) list \<Rightarrow> change_set_item list \<Rightarrow> display_subject list" where
  "display_subjects targets items = concat (map (\<lambda>item.
     case create_item_display_subject item of
       Some subject \<Rightarrow> [subject]
     | None \<Rightarrow> (case map_of targets (ci_id item) of
         None \<Rightarrow> []
       | Some r \<Rightarrow> [\<lparr> ds_id = ci_id item, ds_type = r_type r, ds_integration_id = r_integration_id r \<rparr>])) items)"

definition get_change_set_views_with_displays ::
  "environment \<Rightarrow> actor \<Rightarrow> project \<Rightarrow> raw_view list \<Rightarrow> change_set_view list svc" where
  "get_change_set_views_with_displays en actor project rows =
     (let all_items = concat (map raw_items rows) in
      eff_bind (get_dry_runs_by_item_id (map ci_id all_items)) (\<lambda>dry_runs.
      eff_bind (get_structural_validation_context (p_id project)) (\<lambda>ctx.
      let view = (\<lambda>displays row. get_change_set_view row
            \<lparr> er_dry_runs = dry_runs, er_issues = validate_change_set_items (raw_items row) ctx [],
              er_displays = displays \<rparr>)
      in if \<not> actor_renders_artifacts actor then eff_return (map (view None) rows)
         else
           eff_bind (target_resources_by_item_id (p_id project) all_items) (\<lambda>targets.
           eff_bind (en_displays en (p_id project) (display_subjects targets all_items)) (\<lambda>displays.
           eff_return (map (view (Some displays)) rows))))))"

definition get_change_set_view_with_item_displays ::
  "environment \<Rightarrow> actor \<Rightarrow> project \<Rightarrow> raw_view \<Rightarrow> change_set_view svc" where
  "get_change_set_view_with_item_displays en actor project row =
     eff_bind (get_change_set_views_with_displays en actor project [row]) (\<lambda>views. eff_return (hd views))"

definition get_raw_change_set_view :: "string \<Rightarrow> raw_view option svc" where
  "get_raw_change_set_view k =
     eff_bind (load_raw_change_sets (\<lambda>c. cs_id c = k) Unordered) (\<lambda>rows. eff_return (first_row rows))"

definition get_raw_change_set_view_by_project :: "project \<Rightarrow> string \<Rightarrow> raw_view svc" where
  "get_raw_change_set_view_by_project project k =
     eff_bind (get_raw_change_set_view k) (\<lambda>row.
       case row of
         None \<Rightarrow> eff_throw (NotFound (''changeset '' @ k @ '' not found''))
       | Some r \<Rightarrow>
           if cs_project_id (rv_change_set r) \<noteq> p_id project
           then eff_throw (NotFound (''changeset '' @ k @ '' not found''))
           else eff_return r)"

definition get_change_set_view_by_project ::
  "environment \<Rightarrow> actor \<Rightarrow> project \<Rightarrow> string \<Rightarrow> change_set_view svc" where
  "get_change_set_view_by_project en actor project k =
     eff_bind (get_raw_change_set_view_by_project project k)
       (get_change_set_view_with_item_displays en actor project)"

section \<open>Reads\<close>

definition list_change_sets :: "environment \<Rightarrow> actor \<Rightarrow> project \<Rightarrow> change_set_view list svc" where
  "list_change_sets en actor project =
     eff_bind (load_raw_change_sets (\<lambda>c. cs_project_id c = p_id project) UpdatedAtDesc)
       (get_change_set_views_with_displays en actor project)"

definition find_draft :: "environment \<Rightarrow> actor \<Rightarrow> project \<Rightarrow> change_set_view option svc" where
  "find_draft en actor project =
     eff_bind (load_raw_change_sets (\<lambda>c. cs_project_id c = p_id project \<and> cs_status c = Draft) Unordered)
       (\<lambda>rows. case first_row rows of
          None \<Rightarrow> eff_return None
        | Some row \<Rightarrow>
            eff_bind (get_change_set_view_with_item_displays en actor project row) (\<lambda>v. eff_return (Some v)))"

fun eff_map :: "('a \<Rightarrow> ('s, 'e, 'b) eff) \<Rightarrow> 'a list \<Rightarrow> ('s, 'e, 'b list) eff" where
  "eff_map f [] = eff_return []"
| "eff_map f (x # xs) = eff_bind (f x) (\<lambda>y. eff_bind (eff_map f xs) (\<lambda>ys. eff_return (y # ys)))"

definition find_applying :: "environment \<Rightarrow> actor \<Rightarrow> project \<Rightarrow> change_set_view list svc" where
  "find_applying en actor project =
     eff_bind (load_raw_change_sets (\<lambda>c. cs_project_id c = p_id project \<and> cs_status c = Applying) CreatedAtAsc)
       (eff_map (get_change_set_view_with_item_displays en actor project))"

definition get_active ::
  "environment \<Rightarrow> actor \<Rightarrow> project \<Rightarrow> (change_set_view option \<times> change_set_view list) svc" where
  "get_active en actor project =
     eff_bind (find_draft en actor project) (\<lambda>draft.
     eff_bind (find_applying en actor project) (\<lambda>applying. eff_return (draft, applying)))"

definition get_item_dry_run :: "project \<Rightarrow> string \<Rightarrow> string \<Rightarrow> dry_run_view svc" where
  "get_item_dry_run project change_set_id item_id = (\<lambda>s.
     let missing = (Inl (NotFound (''dry-run for item '' @ item_id @ '' not found'')), s) in
     case find (\<lambda>i. ci_id i = item_id) (db_items s) of
       None \<Rightarrow> missing
     | Some item \<Rightarrow>
         (case (find (\<lambda>c. cs_id c = ci_change_set_id item) (db_change_sets s),
                find (\<lambda>d. dr_item_id d = item_id) (db_dry_runs s)) of
            (Some row, Some d) \<Rightarrow>
              if ci_change_set_id item \<noteq> change_set_id \<or> cs_project_id row \<noteq> p_id project then missing
              else (Inr (dry_run_view_of d), s)
          | _ \<Rightarrow> missing))"

end
