(* ===== verification/ChangesetWrites.thy ===== *)
theory ChangesetWrites
  imports Changesets
begin

text \<open>
  The writes of the changeset service, apps/api/src/changesets/changesets.ts: creating and finding the
  draft of a project, staging, updating and deleting its items, refreshing the dry-runs, \<open>apply\<close> and
  \<open>discard\<close>. The tables enforce their constraints: at most one draft per project
  (\<open>change_sets_project_draft_unique\<close>), one dry-run per item, the references of an item; deleting an
  item deletes its dry-run and clears the item of its operations.
\<close>

section \<open>Tables\<close>

definition drafts :: "change_set list \<Rightarrow> string list" where
  "drafts rows = map cs_project_id (filter (\<lambda>c. cs_status c = Draft) rows)"

definition insert_change_set :: "change_set \<Rightarrow> change_set svc" where
  "insert_change_set row = (\<lambda>s.
     if cs_status row = Draft \<and> cs_project_id row \<in> set (drafts (db_change_sets s))
     then (Inl (UniqueViolation ''change_sets_project_draft_unique''), s)
     else if \<not> references_row p_id (db_projects s) (Some (cs_project_id row))
     then (Inl (ForeignKeyViolation ''change_sets''), s)
     else (Inr row, s\<lparr> db_change_sets := db_change_sets s @ [row] \<rparr>))"

text \<open>\<open>UPDATE change_sets SET status WHERE id [AND status]\<close>, and the first row it returns.\<close>

definition update_change_set ::
  "string \<Rightarrow> change_set_status option \<Rightarrow> int \<Rightarrow> (change_set \<Rightarrow> change_set) \<Rightarrow> change_set option svc" where
  "update_change_set k status now f = (\<lambda>s.
     let p = (\<lambda>c. cs_id c = k \<and> (case status of None \<Rightarrow> True | Some st \<Rightarrow> cs_status c = st));
         g = (\<lambda>c. (f c)\<lparr> cs_updated_at := now \<rparr>);
         rows = update_where p g (db_change_sets s)
     in if \<not> distinct (drafts rows) then (Inl (UniqueViolation ''change_sets_project_draft_unique''), s)
        else (Inr (first_row (returning p g (db_change_sets s))), s\<lparr> db_change_sets := rows \<rparr>))"

definition item_references :: "change_set_item \<Rightarrow> db \<Rightarrow> bool" where
  "item_references item s \<longleftrightarrow> references_row cs_id (db_change_sets s) (Some (ci_change_set_id item)) \<and>
     references_row r_id (db_resources s) (ci_target_id item) \<and>
     references_row i_id (db_integrations s) (ci_integration_id item)"

definition insert_item :: "change_set_item \<Rightarrow> change_set_item svc" where
  "insert_item item = (\<lambda>s.
     if \<not> item_references item s then (Inl (ForeignKeyViolation ''change_set_items''), s)
     else (Inr item, s\<lparr> db_items := db_items s @ [item] \<rparr>))"

definition pending_dry_run :: "string \<Rightarrow> int \<Rightarrow> dry_run" where
  "pending_dry_run item_id now =
     \<lparr> dr_item_id = item_id, dr_action = ActPending, dr_prior = None, dr_planned = None, dr_private = None,
       dr_replace = None, dr_error = None, dr_updated_at = now \<rparr>"

definition insert_dry_run :: "dry_run \<Rightarrow> unit svc" where
  "insert_dry_run d = (\<lambda>s.
     if dr_item_id d \<in> dr_item_id ` set (db_dry_runs s) then (Inl (UniqueViolation ''resource_dry_runs_pkey''), s)
     else if \<not> references_row ci_id (db_items s) (Some (dr_item_id d))
     then (Inl (ForeignKeyViolation ''resource_dry_runs''), s)
     else (Inr (), s\<lparr> db_dry_runs := db_dry_runs s @ [d] \<rparr>))"

definition delete_items :: "string \<Rightarrow> unit svc" where
  "delete_items item_id = eff_modify (\<lambda>s. s\<lparr>
     db_items := filter (\<lambda>i. ci_id i \<noteq> item_id) (db_items s),
     db_dry_runs := filter (\<lambda>d. dr_item_id d \<noteq> item_id) (db_dry_runs s),
     db_operations := map (\<lambda>op. if o_item_id op = Some item_id then op\<lparr> o_item_id := None \<rparr> else op)
       (db_operations s) \<rparr>)"

section \<open>The draft of a project\<close>

definition create_change_set ::
  "string \<Rightarrow> environment \<Rightarrow> actor \<Rightarrow> project \<Rightarrow> string option \<Rightarrow> change_set_view svc" where
  "create_change_set k en actor project title =
     eff_catch
       (with_now (en_clock en) (\<lambda>now.
          eff_bind (insert_change_set
            \<lparr> cs_id = k, cs_project_id = p_id project, cs_status = Draft, cs_title = title,
              cs_actor = (ac_type actor, ac_id actor), cs_applied_at = None, cs_created_at = now,
              cs_updated_at = now \<rparr>) (\<lambda>row.
          eff_bind (notify_change_set row) (\<lambda>_.
          eff_return \<lparr> cv_change_set = row, cv_items = [] \<rparr>))))
       (\<lambda>err. if is_unique_violation err
              then eff_throw (Conflict ''project already has a draft changeset'')
              else eff_throw err)"

definition get_or_create_active :: "string \<Rightarrow> environment \<Rightarrow> actor \<Rightarrow> project \<Rightarrow> change_set_view svc" where
  "get_or_create_active k en actor project =
     eff_bind (find_draft en actor project) (\<lambda>draft.
       case draft of
         Some view \<Rightarrow> eff_return view
       | None \<Rightarrow>
           eff_catch (create_change_set k en actor project None)
             (\<lambda>err. case err of
                Conflict d \<Rightarrow>
                  eff_bind (find_draft en actor project) (\<lambda>raced.
                    case raced of Some view \<Rightarrow> eff_return view | None \<Rightarrow> eff_throw err)
              | _ \<Rightarrow> eff_throw err))"

section \<open>Bodies\<close>

record add_item_body =
  ab_source :: "item_source option"
  ab_changes :: item_changes
  ab_target_id :: "string option"
  ab_target_slug :: "string option"

record partial_create =
  pc_slug :: "string option"
  pc_type :: "string option"
  pc_integration_slug :: "string option"
  pc_display_name :: "string option"
  pc_inputs :: "jsobj option"
  pc_position :: "position option"

record partial_import =
  pm_slug :: "string option"
  pm_type :: "string option"
  pm_integration_slug :: "string option"
  pm_provider_id :: "string option"
  pm_identity :: "(string \<times> string) list option"
  pm_position :: "position option"

text \<open>The changes of an update body, without its kind when it has none; a field is \<open>None\<close> when absent.\<close>

datatype update_changes =
    EditCreate "partial_create option"
  | EditImport "partial_import option"
  | EditUpdate "jsobj option"
  | EditDelete "delete_mode option"

text \<open>The target fields of an update body may be absent (\<open>None\<close>) or null (\<open>Some None\<close>).\<close>

record update_item_body =
  ub_source :: "item_source option"
  ub_changes :: update_changes
  ub_target_id :: "string option option"
  ub_target_slug :: "string option option"

fun edited_kind :: "update_changes \<Rightarrow> item_kind" where
  "edited_kind (EditCreate c) = CreateKind"
| "edited_kind (EditImport c) = ImportKind"
| "edited_kind (EditUpdate c) = UpdateKind"
| "edited_kind (EditDelete c) = DeleteKind"

fun item_kind_str :: "item_kind \<Rightarrow> string" where
  "item_kind_str CreateKind = ''create_resource''"
| "item_kind_str UpdateKind = ''update_resource''"
| "item_kind_str DeleteKind = ''delete_resource''"
| "item_kind_str ImportKind = ''import_resource''"

definition spread_create :: "create_changes \<Rightarrow> partial_create \<Rightarrow> create_changes" where
  "spread_create prev c =
     \<lparr> cc_slug = (case pc_slug c of None \<Rightarrow> cc_slug prev | Some x \<Rightarrow> x),
       cc_type = or_else (pc_type c) (cc_type prev),
       cc_integration_slug = or_else (pc_integration_slug c) (cc_integration_slug prev),
       cc_display_name = or_else (pc_display_name c) (cc_display_name prev),
       cc_inputs = (case pc_inputs c of None \<Rightarrow> cc_inputs prev | Some es \<Rightarrow> JObj es),
       cc_position = or_else (pc_position c) (cc_position prev) \<rparr>"

definition spread_import :: "import_changes \<Rightarrow> partial_import \<Rightarrow> import_changes" where
  "spread_import prev c =
     \<lparr> ic_slug = (case pm_slug c of None \<Rightarrow> ic_slug prev | Some x \<Rightarrow> x),
       ic_type = (case pm_type c of None \<Rightarrow> ic_type prev | Some x \<Rightarrow> x),
       ic_integration_slug = or_else (pm_integration_slug c) (ic_integration_slug prev),
       ic_provider_id = or_else (pm_provider_id c) (ic_provider_id prev),
       ic_identity = or_else (pm_identity c) (ic_identity prev),
       ic_position = or_else (pm_position c) (ic_position prev) \<rparr>"

definition merge_update_body :: "change_set_item \<Rightarrow> update_item_body \<Rightarrow> js_error + add_item_body" where
  "merge_update_body existing body =
     (let source = (case ub_source body of None \<Rightarrow> ci_source existing | Some x \<Rightarrow> x);
          target_id = (case ub_target_id body of None \<Rightarrow> ci_target_id existing | Some x \<Rightarrow> x);
          target_slug = (case ub_target_slug body of None \<Rightarrow> ci_target_slug existing | Some x \<Rightarrow> x)
      in case (ub_changes body, ci_changes existing) of
        (EditCreate c, CreateResource prev) \<Rightarrow> Inr
          \<lparr> ab_source = Some source,
            ab_changes = CreateResource (case c of None \<Rightarrow> prev | Some p \<Rightarrow> spread_create prev p),
            ab_target_id = None, ab_target_slug = None \<rparr>
      | (EditImport c, ImportResource prev) \<Rightarrow> Inr
          \<lparr> ab_source = Some source,
            ab_changes = ImportResource (case c of None \<Rightarrow> prev | Some p \<Rightarrow> spread_import prev p),
            ab_target_id = None, ab_target_slug = None \<rparr>
      | (EditUpdate c, UpdateResource prev) \<Rightarrow> Inr
          \<lparr> ab_source = Some source,
            ab_changes = UpdateResource (case c of None \<Rightarrow> prev | Some inputs \<Rightarrow> inputs),
            ab_target_id = target_id, ab_target_slug = target_slug \<rparr>
      | (EditDelete c, DeleteResource prev) \<Rightarrow> Inr
          \<lparr> ab_source = Some source,
            ab_changes = DeleteResource (case c of None \<Rightarrow> prev | Some mode \<Rightarrow> mode),
            ab_target_id = target_id, ab_target_slug = target_slug \<rparr>
      | _ \<Rightarrow> Inl (InvalidInput ''update body kind mismatch''))"

definition get_target_resource_for_item ::
  "project \<Rightarrow> string option \<Rightarrow> string option \<Rightarrow> resource option svc" where
  "get_target_resource_for_item project target_id target_slug =
     (if truthy target_id = None \<and> truthy target_slug = None then eff_return None
      else eff_get (find_live_by (p_id project) (\<lambda>r.
        (case truthy target_id of None \<Rightarrow> True | Some k \<Rightarrow> r_id r = k) \<and>
        (case truthy target_slug of None \<Rightarrow> True | Some slug \<Rightarrow> r_slug r = slug))))"

record normalized_item =
  ni_target_id :: "string option"
  ni_target_slug :: "string option"
  ni_integration_id :: "string option"
  ni_resource_type :: "string option"
  ni_changes :: item_changes
  ni_source :: item_source
  ni_depends_on :: "string list"

definition nullish_inputs :: "jsval \<Rightarrow> jsval" where
  "nullish_inputs v = (if v = JUndef then JNull else v)"

definition normalize_target ::
  "project \<Rightarrow> add_item_body \<Rightarrow> jsval \<Rightarrow> normalized_item svc" where
  "normalize_target project body inputs =
     eff_bind (get_target_resource_for_item project (ab_target_id body) (ab_target_slug body)) (\<lambda>target.
       case target of
         None \<Rightarrow> eff_throw (NotFound ''target resource not found'')
       | Some r \<Rightarrow>
           eff_bind (eff_lift (extract_refs inputs)) (\<lambda>refs.
           eff_return \<lparr> ni_target_id = Some (r_id r), ni_target_slug = Some (r_slug r),
             ni_integration_id = r_integration_id r, ni_resource_type = Some (r_type r),
             ni_changes = ab_changes body,
             ni_source = (case ab_source body of None \<Rightarrow> SourceUser | Some x \<Rightarrow> x),
             ni_depends_on = refs \<rparr>))"

definition normalize_add_item_body :: "project \<Rightarrow> add_item_body \<Rightarrow> normalized_item svc" where
  "normalize_add_item_body project body =
     (case ab_changes body of
        CreateResource c \<Rightarrow>
          eff_bind (case truthy (cc_type c) of
              None \<Rightarrow> eff_return None
            | Some ty \<Rightarrow> eff_bind (get_integration_by_resource_type (p_id project) ty (cc_integration_slug c))
                (\<lambda>i. eff_return (Some (i_id i)))) (\<lambda>integration_id.
          eff_bind (eff_lift (extract_refs (nullish_inputs (cc_inputs c)))) (\<lambda>refs.
          eff_return \<lparr> ni_target_id = None, ni_target_slug = Some (cc_slug c),
            ni_integration_id = integration_id, ni_resource_type = cc_type c,
            ni_changes = ab_changes body,
            ni_source = (case ab_source body of None \<Rightarrow> SourceUser | Some x \<Rightarrow> x),
            ni_depends_on = refs \<rparr>))
      | ImportResource c \<Rightarrow>
          eff_bind (get_integration_by_resource_type (p_id project) (ic_type c) (ic_integration_slug c)) (\<lambda>i.
          eff_return \<lparr> ni_target_id = None, ni_target_slug = Some (ic_slug c),
            ni_integration_id = Some (i_id i), ni_resource_type = Some (ic_type c),
            ni_changes = ab_changes body,
            ni_source = (case ab_source body of None \<Rightarrow> SourceImport | Some x \<Rightarrow> x),
            ni_depends_on = [] \<rparr>)
      | UpdateResource inputs \<Rightarrow> normalize_target project body (JObj inputs)
      | DeleteResource mode \<Rightarrow> normalize_target project body JNull)"

section \<open>Items\<close>

definition new_item :: "string \<Rightarrow> string \<Rightarrow> int \<Rightarrow> normalized_item \<Rightarrow> change_set_item" where
  "new_item item_id change_set_id now n =
     \<lparr> ci_id = item_id, ci_change_set_id = change_set_id, ci_target_id = ni_target_id n,
       ci_target_slug = ni_target_slug n, ci_integration_id = ni_integration_id n,
       ci_resource_type = ni_resource_type n, ci_changes = ni_changes n, ci_source = ni_source n,
       ci_depends_on = ni_depends_on n, ci_created_at = now, ci_updated_at = now \<rparr>"

definition insert_staged :: "change_set_item \<Rightarrow> change_set_item svc" where
  "insert_staged item =
     eff_tx (eff_bind (insert_item item) (\<lambda>row.
       eff_bind (insert_dry_run (pending_dry_run (ci_id row) (ci_updated_at row))) (\<lambda>_. eff_return row)))"

definition stage_change_set_item ::
  "string \<Rightarrow> environment \<Rightarrow> actor \<Rightarrow> project \<Rightarrow> string \<Rightarrow> add_item_body \<Rightarrow> change_set_view svc" where
  "stage_change_set_item item_id en actor project k body =
     eff_bind (get_raw_change_set_view_by_project project k) (\<lambda>row.
     eff_bind (assert_draft (rv_change_set row)) (\<lambda>_.
     eff_bind (normalize_add_item_body project body) (\<lambda>normalized.
     eff_bind (with_now (en_clock en) (\<lambda>observed. insert_staged (new_item item_id k observed normalized)))
       (\<lambda>inserted.
     eff_bind (en_start en (RunDryRun (ci_id inserted) (p_id project) (ci_updated_at inserted))) (\<lambda>_.
     get_change_set_view_by_project en actor project k)))))"

definition change_item :: "int \<Rightarrow> normalized_item \<Rightarrow> change_set_item \<Rightarrow> change_set_item" where
  "change_item now n item = item
     \<lparr> ci_target_id := ni_target_id n, ci_target_slug := ni_target_slug n,
       ci_integration_id := ni_integration_id n, ci_resource_type := ni_resource_type n,
       ci_changes := ni_changes n, ci_source := ni_source n, ci_depends_on := ni_depends_on n,
       ci_updated_at := now \<rparr>"

definition update_item_row :: "string \<Rightarrow> int \<Rightarrow> normalized_item \<Rightarrow> change_set_item option svc" where
  "update_item_row item_id now n = (\<lambda>s.
     let p = (\<lambda>i. ci_id i = item_id) in
     if list_ex (\<lambda>i. p i \<and> \<not> item_references (change_item now n i) s) (db_items s)
     then (Inl (ForeignKeyViolation ''change_set_items''), s)
     else (Inr (first_row (returning p (change_item now n) (db_items s))),
           s\<lparr> db_items := update_where p (change_item now n) (db_items s) \<rparr>))"

definition reset_dry_run :: "string \<Rightarrow> int \<Rightarrow> unit svc" where
  "reset_dry_run item_id now = eff_modify (\<lambda>s. s\<lparr> db_dry_runs :=
     update_where (\<lambda>d. dr_item_id d = item_id) (\<lambda>d. pending_dry_run item_id now) (db_dry_runs s) \<rparr>)"

definition update_staged :: "string \<Rightarrow> int \<Rightarrow> normalized_item \<Rightarrow> change_set_item option svc" where
  "update_staged item_id now n =
     eff_tx (eff_bind (update_item_row item_id now n) (\<lambda>row.
       case row of
         None \<Rightarrow> eff_return None
       | Some r \<Rightarrow> eff_bind (reset_dry_run item_id now) (\<lambda>_. eff_return (Some r))))"

definition item_not_found :: "string \<Rightarrow> js_error" where
  "item_not_found item_id = NotFound (''changeset item '' @ item_id @ '' not found'')"

definition update_change_set_item ::
  "environment \<Rightarrow> actor \<Rightarrow> project \<Rightarrow> string \<Rightarrow> string \<Rightarrow> update_item_body \<Rightarrow> change_set_view svc" where
  "update_change_set_item en actor project k item_id body =
     eff_bind (get_raw_change_set_view_by_project project k) (\<lambda>row.
     eff_bind (assert_draft (rv_change_set row)) (\<lambda>_.
       case find (\<lambda>i. ci_id i = item_id) (raw_items row) of
         None \<Rightarrow> eff_throw (item_not_found item_id)
       | Some existing \<Rightarrow>
           if edited_kind (ub_changes body) \<noteq> kind_of (ci_changes existing)
           then eff_throw (InvalidInput (''cannot change kind of item '' @ item_id @ '' from '' @
             item_kind_str (kind_of (ci_changes existing)) @ '' to '' @ item_kind_str (edited_kind (ub_changes body))))
           else
             eff_bind (eff_lift (merge_update_body existing body)) (\<lambda>merged.
             eff_bind (normalize_add_item_body project merged) (\<lambda>normalized.
             eff_bind (with_now (en_clock en) (\<lambda>now. update_staged item_id now normalized)) (\<lambda>updated.
               case updated of
                 None \<Rightarrow> eff_throw (item_not_found item_id)
               | Some item \<Rightarrow>
                   eff_bind (en_start en (RunDryRun (ci_id item) (p_id project) (ci_updated_at item))) (\<lambda>_.
                   get_change_set_view_by_project en actor project k))))))"

definition delete_change_set_item ::
  "environment \<Rightarrow> actor \<Rightarrow> project \<Rightarrow> string \<Rightarrow> string \<Rightarrow> change_set_view svc" where
  "delete_change_set_item en actor project k item_id =
     eff_bind (get_raw_change_set_view_by_project project k) (\<lambda>row.
     eff_bind (assert_draft (rv_change_set row)) (\<lambda>_.
       case find (\<lambda>i. ci_id i = item_id) (raw_items row) of
         None \<Rightarrow> eff_throw (item_not_found item_id)
       | Some existing \<Rightarrow>
           eff_bind (delete_items item_id) (\<lambda>_. get_change_set_view_by_project en actor project k)))"

definition no_items :: js_error where
  "no_items = InvalidInput ''changeset has no items''"

definition refresh_dry_runs :: "environment \<Rightarrow> actor \<Rightarrow> project \<Rightarrow> string \<Rightarrow> change_set_view svc" where
  "refresh_dry_runs en actor project k =
     eff_bind (get_raw_change_set_view_by_project project k) (\<lambda>row.
     eff_bind (assert_draft (rv_change_set row)) (\<lambda>_.
       if rv_items row = [] then eff_throw no_items
       else eff_bind (en_start en (RunRefresh (cs_id (rv_change_set row)) (p_id project))) (\<lambda>_.
         get_change_set_view_by_project en actor project k)))"

section \<open>Apply and discard\<close>

definition slug_of_item :: "change_set_item list \<Rightarrow> string \<Rightarrow> string" where
  "slug_of_item items item_id =
     (case find (\<lambda>i. ci_id i = item_id) items of
        None \<Rightarrow> item_id
      | Some i \<Rightarrow> (case change_set_item_slug i of None \<Rightarrow> ci_id i | Some slug \<Rightarrow> slug))"

definition dry_run_rows :: "string list \<Rightarrow> db \<Rightarrow> (string \<times> dry_run_action) list" where
  "dry_run_rows item_ids s =
     map (\<lambda>d. (dr_item_id d, dr_action d)) (filter (\<lambda>d. dr_item_id d \<in> set item_ids) (db_dry_runs s))"

definition slugs_in_action ::
  "change_set_item list \<Rightarrow> dry_run_action \<Rightarrow> (string \<times> dry_run_action) list \<Rightarrow> string list" where
  "slugs_in_action items a rows = map (\<lambda>r. slug_of_item items (fst r)) (filter (\<lambda>r. snd r = a) rows)"

text \<open>The dry-run gate: every item has a dry-run, none is pending, none deferred.\<close>

definition dry_run_gate :: "change_set_item list \<Rightarrow> (string \<times> dry_run_action) list \<Rightarrow> js_error option" where
  "dry_run_gate items rows =
     (let missing = map (slug_of_item items) (filter (\<lambda>k. k \<notin> fst ` set rows) (map ci_id items));
          pending = slugs_in_action items ActPending rows;
          deferred = slugs_in_action items ActDeferred rows
      in if missing \<noteq> [] \<or> pending \<noteq> [] then Some (ChangeSetDryRunNotSettled (missing @ pending))
         else if deferred \<noteq> [] then Some (ChangeSetDryRunDeferred deferred)
         else None)"

definition structural_issues :: "issues \<Rightarrow> js_error" where
  "structural_issues issues =
     InvalidInput (''changeset has '' @ nat_str (length issues) @ '' structural issue(s): '' @
       (case issues of [] \<Rightarrow> ''unknown'' | (_, issue) # _ \<Rightarrow> vi_message issue))"

definition apply_gate ::
  "project \<Rightarrow> raw_view \<Rightarrow> change_set_item list option list svc" where
  "apply_gate project row =
     (let items = raw_items row in
      eff_bind (get_structural_validation_context (p_id project)) (\<lambda>ctx.
      eff_bind (eff_lift (plan_changeset_apply items (vc_live ctx))) (\<lambda>plan.
      let issues = validate_change_set_items items ctx (pl_blockers plan) in
      if issues \<noteq> [] then eff_throw (structural_issues issues)
      else
        eff_bind (eff_lift (get_change_set_apply_graph plan)) (\<lambda>levels.
        eff_bind (eff_get (dry_run_rows (map ci_id items))) (\<lambda>rows.
          case dry_run_gate items rows of
            Some err \<Rightarrow> eff_throw err
          | None \<Rightarrow> eff_return levels)))))"

definition revert_to_draft :: "environment \<Rightarrow> string \<Rightarrow> unit svc" where
  "revert_to_draft en k =
     eff_bind (with_now (en_clock en) (\<lambda>now. update_change_set k (Some Applying) now
         (\<lambda>c. c\<lparr> cs_status := Draft, cs_applied_at := None \<rparr>))) (\<lambda>reverted.
       case reverted of None \<Rightarrow> eff_return () | Some row \<Rightarrow> notify_change_set row)"

definition with_status :: "change_set_status \<Rightarrow> raw_view \<Rightarrow> raw_view" where
  "with_status st row = row\<lparr> rv_change_set := (rv_change_set row)\<lparr> cs_status := st \<rparr> \<rparr>"

definition start_apply ::
  "environment \<Rightarrow> actor \<Rightarrow> project \<Rightarrow> string \<Rightarrow> raw_view \<Rightarrow> change_set_item list option list \<Rightarrow>
   change_set_view svc" where
  "start_apply en actor project k row levels =
     eff_bind (with_now (en_clock en) (\<lambda>now.
         update_change_set k (Some Draft) now (\<lambda>c. c\<lparr> cs_status := Applying \<rparr>))) (\<lambda>_.
     let patched = with_status Applying row in
     eff_bind (notify_change_set (rv_change_set patched)) (\<lambda>_.
     eff_catch
       (eff_bind (get_change_set_view_with_item_displays en actor project patched) (\<lambda>view.
        eff_bind (en_start en (RunApply view levels)) (\<lambda>_. eff_return view)))
       (\<lambda>err. eff_bind (revert_to_draft en k) (\<lambda>_. eff_throw err))))"

definition apply_change_set :: "environment \<Rightarrow> actor \<Rightarrow> project \<Rightarrow> string \<Rightarrow> change_set_view svc" where
  "apply_change_set en actor project k =
     eff_bind (get_raw_change_set_view_by_project project k) (\<lambda>row.
     eff_bind (assert_draft (rv_change_set row)) (\<lambda>_.
       if rv_items row = [] then eff_throw no_items
       else eff_bind (apply_gate project row) (start_apply en actor project k row)))"

definition discard_change_set :: "environment \<Rightarrow> actor \<Rightarrow> project \<Rightarrow> string \<Rightarrow> change_set_view svc" where
  "discard_change_set en actor project k =
     eff_bind (get_raw_change_set_view_by_project project k) (\<lambda>row.
     eff_bind (assert_draft (rv_change_set row)) (\<lambda>_.
     eff_bind (with_now (en_clock en) (\<lambda>now.
         update_change_set k None now (\<lambda>c. c\<lparr> cs_status := Discarded \<rparr>))) (\<lambda>_.
     eff_bind (notify_change_set (rv_change_set (with_status Discarded row))) (\<lambda>_.
     get_change_set_view_with_item_displays en actor project (with_status Discarded row)))))"

end
