(* ===== verification/ChangesetWorkflows.thy ===== *)
theory ChangesetWorkflows
  imports ChangesetWrites ResourceWorkflows
begin

text \<open>
  The changeset workflows, apps/api/src/changesets/workflows (steps.ts and index.ts), with
  \<open>getResourceDryRunAction\<close> of resources/dry-run.ts and \<open>getResourceByChangeSetItem\<close> of
  resources/resources.ts: applying a changeset level by level, each item through the workflow of its
  resource, and the dry-runs that plan every item before.

  The items of a level run one after the other here. In the code they run concurrently; what the
  others do meanwhile is part of what the calls of the \<open>runtime\<close> may do to the database.
\<close>

record workflow_env =
  we_rt :: runtime
  we_ids :: "db \<Rightarrow> string \<times> string \<times> string"      \<comment> \<open>fresh resource, operation and layout ids\<close>
  we_start :: "run_request \<Rightarrow> unit svc"

definition we_now :: "workflow_env \<Rightarrow> (int \<Rightarrow> 'a svc) \<Rightarrow> 'a svc" where
  "we_now we = with_now (rt_clock (we_rt we))"

definition with_ids :: "workflow_env \<Rightarrow> (string \<times> string \<times> string \<Rightarrow> 'a svc) \<Rightarrow> 'a svc" where
  "with_ids we f = (\<lambda>s. f (we_ids we s) s)"

section \<open>Requests\<close>

definition json_field :: "string \<Rightarrow> ('a \<Rightarrow> jsval) \<Rightarrow> 'a option \<Rightarrow> jsobj" where
  "json_field k f x = (case x of None \<Rightarrow> [] | Some y \<Rightarrow> [(k, f y)])"

definition position_json :: "position \<Rightarrow> jsval" where
  "position_json pos = JObj [(''x'', JNum (fst pos)), (''y'', JNum (snd pos))]"

definition create_request :: "create_changes \<Rightarrow> jsobj" where
  "create_request c =
     [(''slug'', JStr (cc_slug c))] @ json_field ''type'' JStr (cc_type c) @
     json_field ''integrationSlug'' JStr (cc_integration_slug c) @
     json_field ''displayName'' JStr (cc_display_name c) @
     (if cc_inputs c = JUndef then [] else [(''inputs'', cc_inputs c)]) @
     json_field ''position'' position_json (cc_position c)"

definition import_request :: "import_changes \<Rightarrow> jsobj" where
  "import_request c =
     [(''slug'', JStr (ic_slug c)), (''type'', JStr (ic_type c))] @
     json_field ''integrationSlug'' JStr (ic_integration_slug c) @
     json_field ''providerId'' JStr (ic_provider_id c) @
     json_field ''identity'' (\<lambda>es. JObj (map (\<lambda>(k, v). (k, JStr v)) es)) (ic_identity c) @
     json_field ''position'' position_json (ic_position c)"

section \<open>Operations of an apply\<close>

definition cv_project :: "change_set_view \<Rightarrow> string" where
  "cv_project cv = cs_project_id (cv_change_set cv)"

definition provider_columns :: "integration option \<Rightarrow> string option \<times> string option" where
  "provider_columns integration = (map_option i_provider integration, map_option i_id integration)"

definition apply_create_operation ::
  "workflow_env \<Rightarrow> change_set_view \<Rightarrow> change_set_item \<Rightarrow> create_changes \<Rightarrow> operation svc" where
  "apply_create_operation we cv item body =
     (let is_provider = cc_type body \<noteq> None in
      eff_bind (case (if is_provider then truthy (ci_integration_id item) else None) of
          None \<Rightarrow> eff_return None
        | Some k \<Rightarrow> eff_bind (get_integration_by_id (cv_project cv) k) (\<lambda>i. eff_return (Some i))) (\<lambda>integration.
      eff_bind (eff_lift (if is_provider then extract_refs (cc_inputs body) else Inr [])) (\<lambda>refs.
      eff_bind (with_ids we (\<lambda>(resource_id, op_id, layout_id). we_now we (\<lambda>now.
        create_resource_with_operation resource_id op_id layout_id now
          \<lparr> rp_actor = cs_actor (cv_change_set cv), rp_project_id = cv_project cv, rp_item_id = Some (ci_id item),
            rp_retry_of = None, rp_kind = OpCreate, rp_request = create_request body, rp_approval = None,
            rp_resource = \<lparr> nr_slug = cc_slug body,
              nr_type = (case cc_type body of None \<Rightarrow> ''resource'' | Some ty \<Rightarrow> ty), nr_status = Creating,
              nr_inputs = (if is_provider then as_object (cc_inputs body) else None),
              nr_provider = fst (provider_columns integration),
              nr_integration_id = snd (provider_columns integration),
              nr_depends_on = (if refs = [] then None else Some refs),
              nr_metadata = json_field ''displayName'' JStr (truthy (cc_display_name body)),
              nr_position = cc_position body \<rparr> \<rparr>))) (\<lambda>(resource, op). eff_return op))))"

definition apply_import_operation ::
  "workflow_env \<Rightarrow> change_set_view \<Rightarrow> change_set_item \<Rightarrow> import_changes \<Rightarrow> operation svc" where
  "apply_import_operation we cv item body =
     (case truthy (ci_integration_id item) of
        None \<Rightarrow> eff_throw (InvalidInput (''import item '' @ ic_slug body @ '' has no integration resolved''))
      | Some k \<Rightarrow>
          eff_bind (get_integration_by_id (cv_project cv) k) (\<lambda>integration.
          eff_bind (with_ids we (\<lambda>(resource_id, op_id, layout_id). we_now we (\<lambda>now.
            create_resource_with_operation resource_id op_id layout_id now
              \<lparr> rp_actor = cs_actor (cv_change_set cv), rp_project_id = cv_project cv,
                rp_item_id = Some (ci_id item), rp_retry_of = None, rp_kind = OpImport,
                rp_request = import_request body, rp_approval = None,
                rp_resource = \<lparr> nr_slug = ic_slug body, nr_type = ic_type body, nr_status = Importing,
                  nr_inputs = None, nr_provider = Some (i_provider integration),
                  nr_integration_id = Some (i_id integration), nr_depends_on = None, nr_metadata = [],
                  nr_position = ic_position body \<rparr> \<rparr>))) (\<lambda>(resource, op). eff_return op)))"

definition get_resource_by_change_set_item :: "string \<Rightarrow> string \<Rightarrow> resource option svc" where
  "get_resource_by_change_set_item project_id item_id = eff_get (\<lambda>s.
     Option.bind (find (\<lambda>i. ci_id i = item_id) (db_items s)) (\<lambda>item.
     Option.bind (ci_target_id item) (\<lambda>k. find_live_by project_id (\<lambda>r. r_id r = k) s)))"

definition find_apply_target_resource :: "change_set_view \<Rightarrow> change_set_item \<Rightarrow> resource option svc" where
  "find_apply_target_resource cv item =
     eff_bind (case truthy (ci_target_id item) of
         None \<Rightarrow> eff_return None
       | Some _ \<Rightarrow> get_resource_by_change_set_item (cv_project cv) (ci_id item)) (\<lambda>by_id.
       case by_id of
         Some r \<Rightarrow> eff_return (Some r)
       | None \<Rightarrow>
           (case truthy (ci_target_slug item) of
              None \<Rightarrow> eff_return None
            | Some slug \<Rightarrow> eff_get (find_live_by (cv_project cv) (\<lambda>r. r_slug r = slug))))"

definition target_name :: "change_set_item \<Rightarrow> string" where
  "target_name item = (case or_else (ci_target_slug item) (ci_target_id item) of None \<Rightarrow> ''null'' | Some x \<Rightarrow> x)"

definition get_apply_target_resource :: "change_set_view \<Rightarrow> change_set_item \<Rightarrow> resource svc" where
  "get_apply_target_resource cv item =
     eff_bind (find_apply_target_resource cv item) (\<lambda>resource.
       case resource of
         None \<Rightarrow> eff_throw (InvalidInput (''target resource '' @ target_name item @ '' not found''))
       | Some r \<Rightarrow> eff_return r)"

definition create_target_operation ::
  "workflow_env \<Rightarrow> change_set_view \<Rightarrow> change_set_item \<Rightarrow> operation_kind \<Rightarrow> jsobj \<Rightarrow> resource \<Rightarrow> operation svc" where
  "create_target_operation we cv item kind request resource =
     with_ids we (\<lambda>(_, op_id, _). we_now we (\<lambda>now. create_operation op_id now
       \<lparr> cp_project_id = cv_project cv, cp_resource_id = Some (r_id resource), cp_item_id = Some (ci_id item),
         cp_retry_of = None, cp_run_id = None, cp_lock = Some (resource_lock (r_id resource)), cp_kind = kind,
         cp_approval = None, cp_actor = cs_actor (cv_change_set cv), cp_request = request \<rparr>))"

definition apply_update_operation ::
  "workflow_env \<Rightarrow> change_set_view \<Rightarrow> change_set_item \<Rightarrow> jsobj \<Rightarrow> operation svc" where
  "apply_update_operation we cv item inputs =
     eff_bind (get_apply_target_resource cv item)
       (create_target_operation we cv item OpUpdate [(''inputs'', JObj inputs)])"

definition delete_request :: "resource \<Rightarrow> string \<Rightarrow> jsobj" where
  "delete_request resource mode = [(''slug'', JStr (r_slug resource)), (''mode'', JStr mode)]"

definition apply_delete_operation :: "workflow_env \<Rightarrow> change_set_view \<Rightarrow> change_set_item \<Rightarrow> operation svc" where
  "apply_delete_operation we cv item =
     eff_bind (get_apply_target_resource cv item) (\<lambda>r.
       create_target_operation we cv item OpDelete (delete_request r ''delete'') r)"

definition apply_forget_operation ::
  "workflow_env \<Rightarrow> change_set_view \<Rightarrow> change_set_item \<Rightarrow> operation option svc" where
  "apply_forget_operation we cv item =
     eff_bind (find_apply_target_resource cv item) (\<lambda>resource.
       case resource of
         None \<Rightarrow> eff_return None
       | Some r \<Rightarrow>
           eff_bind (create_target_operation we cv item OpDelete (delete_request r ''forget'') r)
             (\<lambda>op. eff_return (Some op)))"

definition set_change_set ::
  "workflow_env \<Rightarrow> change_set_view \<Rightarrow> (int \<Rightarrow> change_set \<Rightarrow> change_set) \<Rightarrow> change_set_view svc" where
  "set_change_set we cv f =
     eff_bind (we_now we (\<lambda>now. update_change_set (cs_id (cv_change_set cv)) None now (f now))) (\<lambda>updated.
       case updated of
         None \<Rightarrow> eff_throw (PlainError (''changeset not found: '' @ cs_id (cv_change_set cv)))
       | Some row \<Rightarrow> eff_bind (notify_change_set row) (\<lambda>_. eff_return (cv\<lparr> cv_change_set := row \<rparr>)))"

definition close_change_set :: "workflow_env \<Rightarrow> change_set_view \<Rightarrow> change_set_view svc" where
  "close_change_set we cv =
     set_change_set we cv (\<lambda>now c. c\<lparr> cs_status := Applied, cs_applied_at := Some now \<rparr>)"

definition cancel_change_set :: "workflow_env \<Rightarrow> change_set_view \<Rightarrow> change_set_view svc" where
  "cancel_change_set we cv = set_change_set we cv (\<lambda>now c. c\<lparr> cs_status := ChangeSetCanceled \<rparr>)"

definition reopen_change_set :: "workflow_env \<Rightarrow> change_set_view \<Rightarrow> change_set_view svc" where
  "reopen_change_set we cv =
     set_change_set we cv (\<lambda>now c. c\<lparr> cs_status := Draft, cs_applied_at := None \<rparr>)"

section \<open>The apply workflow\<close>

datatype item_outcome = ItemSkipped | ItemSucceeded | ItemCanceled

definition outcome_of :: "workflow_result \<Rightarrow> item_outcome" where
  "outcome_of r = (case r of Ran _ \<Rightarrow> ItemSucceeded | WorkflowCanceled \<Rightarrow> ItemCanceled)"

definition run_item ::
  "(runtime \<Rightarrow> operation \<Rightarrow> workflow_result svc) \<Rightarrow> workflow_env \<Rightarrow> operation svc \<Rightarrow> item_outcome svc" where
  "run_item workflow we start_op =
     eff_bind start_op (\<lambda>op. eff_bind (workflow (we_rt we) op) (\<lambda>result. eff_return (outcome_of result)))"

definition apply_item ::
  "workflow_env \<Rightarrow> change_set_view \<Rightarrow> string list \<Rightarrow> change_set_item \<Rightarrow> item_outcome svc" where
  "apply_item we cv succeeded item =
     (if ci_id item \<in> set succeeded then eff_return ItemSkipped
      else case ci_changes item of
        CreateResource c \<Rightarrow> run_item create_resource_workflow we (apply_create_operation we cv item c)
      | ImportResource c \<Rightarrow> run_item import_resource_workflow we (apply_import_operation we cv item c)
      | UpdateResource inputs \<Rightarrow> run_item update_resource_workflow we (apply_update_operation we cv item inputs)
      | DeleteResource ModeForget \<Rightarrow>
          eff_bind (apply_forget_operation we cv item) (\<lambda>op.
            case op of
              None \<Rightarrow> eff_return ItemSucceeded
            | Some op \<Rightarrow> run_item forget_resource_workflow we (eff_return op))
      | DeleteResource ModeDelete \<Rightarrow> run_item delete_resource_workflow we (apply_delete_operation we cv item))"

text \<open>\<open>Promise.allSettled\<close>: every item runs, and its outcome or error is a value.\<close>

definition eff_settle :: "'a svc \<Rightarrow> (js_error + 'a) svc" where
  "eff_settle m = (\<lambda>s. case m s of (r, s') \<Rightarrow> (Inr r, s'))"

definition apply_level ::
  "workflow_env \<Rightarrow> change_set_view \<Rightarrow> string list \<Rightarrow> change_set_item list \<Rightarrow> bool svc" where
  "apply_level we cv succeeded level =
     eff_bind (eff_map (\<lambda>item. eff_settle (apply_item we cv succeeded item)) level) (\<lambda>settled.
       case find isl settled of
         Some rejected \<Rightarrow> eff_throw (projl rejected)
       | None \<Rightarrow> eff_return (list_ex (\<lambda>r. r = Inr ItemCanceled) settled))"

fun apply_levels ::
  "workflow_env \<Rightarrow> change_set_view \<Rightarrow> string list \<Rightarrow> change_set_item list option list \<Rightarrow> change_set_view svc" where
  "apply_levels we cv succeeded [] = close_change_set we cv"
| "apply_levels we cv succeeded (None # levels) = eff_throw (PlainError ''undefined is not an object'')"
| "apply_levels we cv succeeded (Some level # levels) =
     eff_bind (apply_level we cv succeeded level) (\<lambda>canceled.
       if canceled then cancel_change_set we cv else apply_levels we cv succeeded levels)"

definition succeeded_items :: "change_set_view \<Rightarrow> string list" where
  "succeeded_items cv =
     map (\<lambda>v. ci_id (iv_item v)) (filter (\<lambda>v. iv_apply_status v = ApplySucceeded) (cv_items cv))"

definition apply_change_set_workflow ::
  "workflow_env \<Rightarrow> change_set_view \<Rightarrow> change_set_item list option list \<Rightarrow> change_set_view svc" where
  "apply_change_set_workflow we cv levels =
     eff_catch (apply_levels we cv (succeeded_items cv) levels)
       (\<lambda>e. eff_bind (reopen_change_set we cv) (\<lambda>_. eff_throw e))"

end
