(* ===== verification/DryRuns.thy ===== *)
theory DryRuns
  imports ChangesetWorkflows
begin

text \<open>
  The dry-runs of changeset items: the second half of apps/api/src/changesets/workflows/steps.ts, the
  dry-run workflows of index.ts, and \<open>getResourceDryRunAction\<close> of resources/dry-run.ts. A dry-run row
  is written with the time the run observed as a token (\<open>WHERE updated_at = observed\<close>), so a run that
  was overtaken by an edit or a refresh of its item writes nothing.
\<close>

section \<open>Planning one item\<close>

definition get_resource_dry_run_action ::
  "jsobj option \<Rightarrow> jsobj option \<Rightarrow> string list list option \<Rightarrow> item_kind \<Rightarrow> dry_run_action" where
  "get_resource_dry_run_action prior planned replace kind =
     (if kind = ImportKind then ActNoop
      else if prior = None \<and> planned = None then ActNoop
      else if prior = None then ActCreate
      else if planned = None then ActDelete
      else case replace of Some (p # ps) \<Rightarrow> ActReplace | _ \<Rightarrow> ActUpdate)"

record dry_run_plan =
  rd_action :: dry_run_action
  rd_prior :: "jsobj option"
  rd_planned :: "jsobj option"
  rd_private :: "string option"
  rd_replace :: "string list list"
  rd_error :: "string option"

definition unplanned :: "dry_run_action \<Rightarrow> string option \<Rightarrow> dry_run_plan" where
  "unplanned a err =
     \<lparr> rd_action = a, rd_prior = None, rd_planned = None, rd_private = None, rd_replace = [], rd_error = err \<rparr>"

definition planned_as :: "item_kind \<Rightarrow> resource_plan \<Rightarrow> dry_run_plan" where
  "planned_as kind plan =
     (let p = pn_payload plan in
      \<lparr> rd_action = get_resource_dry_run_action (pn_prior plan) (pp_planned p) (Some (pp_replace p)) kind,
        rd_prior = pn_prior plan, rd_planned = pp_planned p, rd_private = pp_private p,
        rd_replace = pp_replace p, rd_error = None \<rparr>)"

definition parse_nullable_record :: "jsval \<Rightarrow> js_error + jsobj option" where
  "parse_nullable_record v = (if v = JNull then Inr None else res_bind (parse_record v) (\<lambda>es. Inr (Some es)))"

definition plan_import_item :: "runtime \<Rightarrow> change_set_item \<Rightarrow> string \<Rightarrow> import_changes \<Rightarrow> dry_run_plan svc" where
  "plan_import_item rt item project_id c =
     (case truthy (ci_integration_id item) of
        None \<Rightarrow> eff_return (unplanned ActDeferred
          (Some (''import item '' @ ic_slug c @ '' has no integration resolved'')))
      | Some k \<Rightarrow>
          eff_bind (get_integration_by_id project_id k) (\<lambda>integration.
          eff_catch
            (eff_bind (read_import_state rt integration (ic_type c) (ic_identity c) (ic_provider_id c))
              (\<lambda>_. eff_return (unplanned ActNoop None)))
            (\<lambda>err. case err of
               ImportNotFoundError msg _ \<Rightarrow> eff_return (unplanned ActError (Some msg))
             | _ \<Rightarrow> eff_throw err)))"

definition plan_create_item ::
  "runtime \<Rightarrow> change_set_item \<Rightarrow> string \<Rightarrow> create_changes \<Rightarrow> jsval \<Rightarrow> dry_run_plan svc" where
  "plan_create_item rt item project_id c inputs =
     (case cc_type c of
        None \<Rightarrow> eff_return (unplanned ActNoop None)
      | Some ty \<Rightarrow>
          (case truthy (ci_integration_id item) of
             None \<Rightarrow> eff_return (unplanned ActDeferred
               (Some (''create item '' @ cc_slug c @ '' has no integration resolved'')))
           | Some k \<Rightarrow>
               eff_bind (get_integration_by_id project_id k) (\<lambda>integration.
               eff_bind (eff_lift (parse_nullable_record inputs)) (\<lambda>config.
               eff_bind (plan_resource rt integration ty None config MutCreate) (\<lambda>plan.
               eff_return (planned_as CreateKind plan))))))"

definition plan_target_item ::
  "runtime \<Rightarrow> change_set_item \<Rightarrow> string \<Rightarrow> (integration \<Rightarrow> resource \<Rightarrow> dry_run_plan svc) \<Rightarrow> dry_run_plan svc" where
  "plan_target_item rt item project_id plan =
     eff_bind (get_resource_by_change_set_item project_id (ci_id item)) (\<lambda>target.
       case target of
         None \<Rightarrow> eff_return (unplanned ActDeferred
           (Some (''target resource '' @ target_name item @ '' not found'')))
       | Some r \<Rightarrow>
           (case truthy (r_integration_id r) of
              None \<Rightarrow> eff_return (unplanned ActDeferred
                (Some (''target resource '' @ r_slug r @ '' has no integration'')))
            | Some k \<Rightarrow> eff_bind (get_integration_by_id project_id k) (\<lambda>integration. plan integration r)))"

definition plan_item :: "runtime \<Rightarrow> change_set_item \<Rightarrow> string \<Rightarrow> jsval \<Rightarrow> dry_run_plan svc" where
  "plan_item rt item project_id inputs =
     (case ci_changes item of
        ImportResource c \<Rightarrow> plan_import_item rt item project_id c
      | CreateResource c \<Rightarrow> plan_create_item rt item project_id c inputs
      | DeleteResource ModeForget \<Rightarrow> eff_return (unplanned ActNoop None)
      | DeleteResource ModeDelete \<Rightarrow> plan_target_item rt item project_id (\<lambda>integration r.
          eff_bind (plan_resource rt integration (r_type r) (r_identity r) None MutDelete)
            (\<lambda>plan. eff_return (planned_as DeleteKind plan)))
      | UpdateResource _ \<Rightarrow> plan_target_item rt item project_id (\<lambda>integration r.
          eff_bind (eff_lift (parse_nullable_record inputs)) (\<lambda>config.
          eff_bind (plan_resource rt integration (r_type r) (r_identity r) config MutUpdate)
            (\<lambda>plan. eff_return (planned_as UpdateKind plan)))))"

fun recoverable :: "js_error \<Rightarrow> bool" where
  "recoverable (BridgeDiagnosticError msg ds) = True"
| "recoverable (BridgeTransportError msg status) = (400 \<le> status \<and> status < 500)"
| "recoverable _ = False"

definition plan_resource_dry_run :: "runtime \<Rightarrow> change_set_item \<Rightarrow> string \<Rightarrow> jsval \<Rightarrow> dry_run_plan svc" where
  "plan_resource_dry_run rt item project_id inputs =
     eff_catch (plan_item rt item project_id inputs)
       (\<lambda>err. if \<not> recoverable err then eff_throw err
              else eff_return (unplanned ActError (Some (message_of (rt_driver rt) err))))"

section \<open>Writing a dry-run\<close>

text \<open>\<open>UPDATE resource_dry_runs ... WHERE change_set_item_id = $1 AND updated_at = $2\<close>.\<close>

definition write_dry_run :: "string \<Rightarrow> int \<Rightarrow> int \<Rightarrow> dry_run_plan \<Rightarrow> unit svc" where
  "write_dry_run item_id observed now p = eff_modify (\<lambda>s. s\<lparr> db_dry_runs :=
     update_where (\<lambda>d. dr_item_id d = item_id \<and> dr_updated_at d = observed)
       (\<lambda>d. d\<lparr> dr_action := rd_action p, dr_prior := rd_prior p, dr_planned := rd_planned p,
         dr_private := rd_private p,
         dr_replace := (if rd_replace p = [] then None else Some (rd_replace p)),
         dr_error := rd_error p, dr_updated_at := now \<rparr>) (db_dry_runs s) \<rparr>)"

definition update_dry_run_deferred :: "workflow_env \<Rightarrow> string \<Rightarrow> int \<Rightarrow> unit svc" where
  "update_dry_run_deferred we item_id observed =
     we_now we (\<lambda>now. write_dry_run item_id observed now (unplanned ActDeferred None))"

definition update_dry_run :: "workflow_env \<Rightarrow> string \<Rightarrow> dry_run_plan \<Rightarrow> int \<Rightarrow> unit svc" where
  "update_dry_run we item_id p observed = we_now we (\<lambda>now. write_dry_run item_id observed now p)"

definition mark_dry_run_failed :: "workflow_env \<Rightarrow> string \<Rightarrow> int \<Rightarrow> string \<Rightarrow> unit svc" where
  "mark_dry_run_failed we item_id observed message =
     we_now we (\<lambda>now. write_dry_run item_id observed now (unplanned ActError (Some message)))"

section \<open>The inputs of a dry-run\<close>

definition slug_from_changes :: "change_set_item \<Rightarrow> string option" where
  "slug_from_changes item =
     (case ci_changes item of
        CreateResource c \<Rightarrow> Some (cc_slug c) | ImportResource c \<Rightarrow> Some (ic_slug c) | _ \<Rightarrow> None)"

definition sibling_items :: "string \<Rightarrow> string list \<Rightarrow> db \<Rightarrow> change_set_item list" where
  "sibling_items change_set_id slugs s =
     filter (\<lambda>i. ci_change_set_id i = change_set_id \<and>
       (ci_target_slug i \<in> Some ` set slugs \<or> slug_from_changes i \<in> Some ` set slugs)) (db_items s)"

definition sibling_dry_run :: "db \<Rightarrow> change_set_item \<Rightarrow> dry_run_action \<times> jsobj option" where
  "sibling_dry_run s item =
     (case find (\<lambda>d. dr_item_id d = ci_id item) (db_dry_runs s) of
        None \<Rightarrow> (ActPending, None) | Some d \<Rightarrow> (dr_action d, dr_planned d))"

type_synonym sibling_map = "(string \<times> dry_run_action \<times> jsobj option) list"

definition add_sibling :: "string list \<Rightarrow> db \<Rightarrow> change_set_item \<Rightarrow> sibling_map \<Rightarrow> sibling_map" where
  "add_sibling slugs s item found =
     (case truthy (if is_create_or_import item then slug_from_changes item else ci_target_slug item) of
        None \<Rightarrow> found
      | Some slug \<Rightarrow>
          if slug \<notin> set slugs then found
          else if map_of found slug \<noteq> None \<and> \<not> is_create_or_import item then found
          else AList.update slug (sibling_dry_run s item) found)"

definition get_change_set_dry_runs_by_slug :: "string \<Rightarrow> string list \<Rightarrow> sibling_map svc" where
  "get_change_set_dry_runs_by_slug change_set_id slugs =
     (if slugs = [] then eff_return []
      else eff_get (\<lambda>s. fold (add_sibling slugs s) (sibling_items change_set_id slugs s) []))"

definition item_inputs :: "change_set_item \<Rightarrow> jsval" where
  "item_inputs item =
     (case ci_changes item of
        CreateResource c \<Rightarrow> nullish_inputs (cc_inputs c) | UpdateResource inputs \<Rightarrow> JObj inputs | _ \<Rightarrow> JNull)"

text \<open>The target of one reference, or \<open>None\<close> when the dry-run must wait for it.\<close>

definition dry_run_target ::
  "sibling_map \<Rightarrow> (string \<times> ref_target) list \<Rightarrow> string \<Rightarrow> ref_target option" where
  "dry_run_target siblings live slug =
     (case map_of siblings slug of
        Some (a, planned) \<Rightarrow>
          if a = ActPending \<or> a = ActDeferred \<or> a = ActDelete then None else map_option TargetOk planned
      | None \<Rightarrow> (case map_of live slug of Some (TargetOk state) \<Rightarrow> Some (TargetOk state) | _ \<Rightarrow> None))"

definition get_change_set_dry_run_inputs :: "change_set_item \<Rightarrow> string \<Rightarrow> (jsval \<times> string list) svc" where
  "get_change_set_dry_run_inputs item project_id =
     (let inputs = item_inputs item; slugs = ci_depends_on item in
      if slugs = [] then eff_return (inputs, [])
      else
        eff_bind (get_change_set_dry_runs_by_slug (ci_change_set_id item) slugs) (\<lambda>siblings.
        eff_bind (get_reference_targets_by_slug project_id (filter (\<lambda>s. map_of siblings s = None) slugs)) (\<lambda>live.
        let deferred_on = filter (\<lambda>s. dry_run_target siblings live s = None) slugs;
            merged = fold (\<lambda>s. AList.update s (the (dry_run_target siblings live s))) slugs []
        in if deferred_on \<noteq> [] then eff_return (inputs, deferred_on)
           else eff_bind (eff_lift (substitute_refs inputs merged)) (\<lambda>v. eff_return (v, [])))))"

section \<open>Workflows\<close>

definition get_change_set_item :: "string \<Rightarrow> change_set_item option svc" where
  "get_change_set_item item_id = eff_get (\<lambda>s. find (\<lambda>i. ci_id i = item_id) (db_items s))"

definition depends_on_slug :: "string \<Rightarrow> string \<Rightarrow> string \<Rightarrow> db \<Rightarrow> dry_run \<Rightarrow> bool" where
  "depends_on_slug change_set_id slug source s d \<longleftrightarrow> dr_item_id d \<noteq> source \<and>
     list_ex (\<lambda>i. ci_id i = dr_item_id d \<and> ci_change_set_id i = change_set_id \<and>
       slug \<in> set (ci_depends_on i)) (db_items s) \<and>
     list_ex (\<lambda>c. cs_id c = change_set_id \<and> cs_status c = Draft) (db_change_sets s)"

definition reset_dependents :: "string \<Rightarrow> string \<Rightarrow> string \<Rightarrow> int \<Rightarrow> dry_run list svc" where
  "reset_dependents change_set_id slug source now = (\<lambda>s.
     let p = depends_on_slug change_set_id slug source s; f = (\<lambda>d. pending_dry_run (dr_item_id d) now)
     in (Inr (returning p f (db_dry_runs s)), s\<lparr> db_dry_runs := update_where p f (db_dry_runs s) \<rparr>))"

definition start_dry_run :: "workflow_env \<Rightarrow> string \<Rightarrow> dry_run \<Rightarrow> unit svc" where
  "start_dry_run we project_id d = we_start we (RunDryRun (dr_item_id d) project_id (dr_updated_at d))"

definition start_dependent_dry_runs ::
  "workflow_env \<Rightarrow> string \<Rightarrow> string \<Rightarrow> string \<Rightarrow> string \<Rightarrow> unit svc" where
  "start_dependent_dry_runs we project_id change_set_id slug source =
     eff_bind (we_now we (reset_dependents change_set_id slug source))
       (eff_for (start_dry_run we project_id))"

definition dry_run_body :: "workflow_env \<Rightarrow> string \<Rightarrow> string \<Rightarrow> int \<Rightarrow> unit svc" where
  "dry_run_body we item_id project_id observed =
     eff_bind (get_change_set_item item_id) (\<lambda>found.
       case found of
         None \<Rightarrow> eff_return ()
       | Some item \<Rightarrow>
           eff_bind (get_change_set_dry_run_inputs item project_id) (\<lambda>(inputs, deferred_on).
             if deferred_on \<noteq> [] then update_dry_run_deferred we item_id observed
             else
               eff_bind (plan_resource_dry_run (we_rt we) item project_id inputs) (\<lambda>p.
               eff_bind (update_dry_run we item_id p observed) (\<lambda>_.
                 case truthy (change_set_item_slug item) of
                   None \<Rightarrow> eff_return ()
                 | Some slug \<Rightarrow>
                     start_dependent_dry_runs we project_id (ci_change_set_id item) slug (ci_id item)))))"

definition dry_run_change_workflow :: "workflow_env \<Rightarrow> string \<Rightarrow> string \<Rightarrow> int \<Rightarrow> unit svc" where
  "dry_run_change_workflow we item_id project_id observed =
     eff_catch (dry_run_body we item_id project_id observed)
       (\<lambda>e. eff_bind (mark_dry_run_failed we item_id observed (message_of (rt_driver (we_rt we)) e))
         (\<lambda>_. eff_throw e))"

text \<open>\<open>INSERT ... ON CONFLICT DO UPDATE\<close> of a pending row for every item of a draft.\<close>

definition draft_item_ids :: "string \<Rightarrow> db \<Rightarrow> string list" where
  "draft_item_ids change_set_id s =
     (if list_ex (\<lambda>c. cs_id c = change_set_id \<and> cs_status c = Draft) (db_change_sets s)
      then map ci_id (filter (\<lambda>i. ci_change_set_id i = change_set_id) (db_items s)) else [])"

definition upsert_pending :: "int \<Rightarrow> string \<Rightarrow> dry_run list \<Rightarrow> dry_run list" where
  "upsert_pending now item_id rows =
     (if item_id \<in> dr_item_id ` set rows
      then update_where (\<lambda>d. dr_item_id d = item_id) (\<lambda>d. pending_dry_run item_id now) rows
      else rows @ [pending_dry_run item_id now])"

definition reset_change_set_dry_runs :: "string \<Rightarrow> int \<Rightarrow> dry_run list svc" where
  "reset_change_set_dry_runs change_set_id now = (\<lambda>s.
     (Inr (map (\<lambda>k. pending_dry_run k now) (draft_item_ids change_set_id s)),
      s\<lparr> db_dry_runs := fold (upsert_pending now) (draft_item_ids change_set_id s) (db_dry_runs s) \<rparr>))"

definition refresh_dry_runs_workflow :: "workflow_env \<Rightarrow> string \<Rightarrow> string \<Rightarrow> unit svc" where
  "refresh_dry_runs_workflow we change_set_id project_id =
     eff_bind (we_now we (reset_change_set_dry_runs change_set_id)) (eff_for (start_dry_run we project_id))"

end
