(* ===== verification/ValidationProps.thy ===== *)
theory ValidationProps
  imports Validation PlanSafety
begin

text \<open>
  Which changesets pass validation. Each loop is first reduced to a condition on the parsed items,
  then the conditions are stated on the items themselves (\<open>changeset_ok\<close>).
\<close>

section \<open>Parsed items\<close>

definition is_staged :: "parsed_item \<Rightarrow> bool" where
  "is_staged p = (case p of ParsedCreate _ _ _ \<Rightarrow> True | ParsedImport _ _ \<Rightarrow> True | _ \<Rightarrow> False)"

definition is_parsed_update :: "parsed_item \<Rightarrow> bool" where
  "is_parsed_update p = (case p of ParsedUpdate _ _ _ \<Rightarrow> True | _ \<Rightarrow> False)"

definition is_parsed_delete :: "parsed_item \<Rightarrow> bool" where
  "is_parsed_delete p = (case p of ParsedDelete _ _ _ \<Rightarrow> True | _ \<Rightarrow> False)"

definition is_forget :: "parsed_item \<Rightarrow> bool" where
  "is_forget p = (case p of ParsedDelete _ _ mode \<Rightarrow> mode = ModeForget | _ \<Rightarrow> False)"

lemma parsed_kinds [simp]:
  "is_staged (ParsedCreate i s x)" "is_staged (ParsedImport i s)" "\<not> is_staged (ParsedUpdate i s y)"
  "\<not> is_staged (ParsedDelete i s m)"
  "is_parsed_update p \<longleftrightarrow> \<not> is_staged p \<and> \<not> is_parsed_delete p"
  "\<not> is_parsed_delete (ParsedCreate i s x)" "\<not> is_parsed_delete (ParsedImport i s)"
  "\<not> is_parsed_delete (ParsedUpdate i s y)" "is_parsed_delete (ParsedDelete i s m)"
  "\<not> is_forget (ParsedCreate i s x)" "\<not> is_forget (ParsedImport i s)"
  "\<not> is_forget (ParsedUpdate i s y)" "is_forget (ParsedDelete i s m) \<longleftrightarrow> m = ModeForget"
  by (auto simp: is_staged_def is_parsed_update_def is_parsed_delete_def is_forget_def split: parsed_item.split)

definition slugs_where :: "(parsed_item \<Rightarrow> bool) \<Rightarrow> parsed_item list \<Rightarrow> string list" where
  "slugs_where P ps = map parsed_slug (filter P ps)"

lemma slugs_where_simps [simp]:
  "slugs_where P [] = []" "slugs_where P (ps @ [p]) = slugs_where P ps @ (if P p then [parsed_slug p] else [])"
  by (simp_all add: slugs_where_def)

definition target_of :: "validation_context \<Rightarrow> parsed_item \<Rightarrow> live_resource option" where
  "target_of ctx p = (if is_staged p then None else live_target (vc_live ctx) (parsed_of p) (parsed_slug p))"

definition staged_ok :: "validation_context \<Rightarrow> parsed_item list \<Rightarrow> bool" where
  "staged_ok ctx ps \<longleftrightarrow>
     distinct (slugs_where is_staged ps) \<and> distinct (slugs_where is_parsed_delete ps) \<and>
     distinct (slugs_where is_parsed_update ps) \<and>
     (\<forall>p \<in> set ps. is_staged p \<longrightarrow> parsed_slug p \<notin> lr_slug ` set (vc_live ctx) \<or>
        ci_id (parsed_of p) \<in> set (vc_succeeded ctx)) \<and>
     (\<forall>p \<in> set ps. \<not> is_staged p \<and> \<not> is_forget p \<longrightarrow> target_of ctx p \<noteq> None)"

definition stage_all :: "validation_context \<Rightarrow> issues \<Rightarrow> parsed_item list \<Rightarrow> validation_state" where
  "stage_all ctx issues ps = fold (stage_parsed ctx) ps \<lparr> vs_issues = issues, vs_creates = [],
     vs_deleted = [], vs_deletes = [], vs_updates = [], vs_locks = [] \<rparr>"

lemma stage_all_simps:
  "stage_all ctx issues [] = \<lparr> vs_issues = issues, vs_creates = [], vs_deleted = [], vs_deletes = [],
     vs_updates = [], vs_locks = [] \<rparr>"
  "stage_all ctx issues (ps @ [p]) = stage_parsed ctx p (stage_all ctx issues ps)"
  by (simp_all add: stage_all_def)

lemma live_slug_known: "map_of (map_of_list lr_slug live) slug = None \<longleftrightarrow> slug \<notin> lr_slug ` set live"
  by (auto simp: map_of_map_of_list_None)

lemmas stage_defs = stage_parsed_def stage_created_def stage_updated_def stage_deleted_def stage_target_def Let_def

lemma stage_keys:
  "map_of (vs_creates (stage_all ctx issues ps)) k = None \<longleftrightarrow> k \<notin> set (slugs_where is_staged ps)"
  "map_of (vs_deletes (stage_all ctx issues ps)) k = None \<longleftrightarrow> k \<notin> set (slugs_where is_parsed_delete ps)"
  "set (vs_deleted (stage_all ctx issues ps)) = set (slugs_where is_parsed_delete ps)"
proof (induction ps rule: rev_induct)
  case Nil
  { case 1 show ?case by (simp add: stage_all_simps) }
  { case 2 show ?case by (simp add: stage_all_simps) }
  { case 3 show ?case by (simp add: stage_all_simps) }
next
  case (snoc p ps)
  note IH = snoc.IH
  have hit: "map_of (vs_creates (stage_all ctx issues ps)) k = Some q \<Longrightarrow> k \<in> set (slugs_where is_staged ps)" for q
    using IH(1) by fastforce
  { case 1 show ?case
      by (cases p) (auto simp: stage_all_simps stage_defs IH dest: hit split: option.splits) }
  have hit: "map_of (vs_deletes (stage_all ctx issues ps)) k = Some q \<Longrightarrow> k \<in> set (slugs_where is_parsed_delete ps)" for q
    using IH(2) by fastforce
  { case 2 show ?case
      by (cases p) (auto simp: stage_all_simps stage_defs IH dest: hit split: option.splits) }
  { case 3 show ?case by (cases p) (auto simp: stage_all_simps stage_defs IH split: option.splits) }
qed

lemma stage_hits:
  "map_of (vs_creates (stage_all ctx issues ps)) k = Some p \<Longrightarrow> k \<in> set (slugs_where is_staged ps)"
  "map_of (vs_deletes (stage_all ctx issues ps)) k = Some p \<Longrightarrow> k \<in> set (slugs_where is_parsed_delete ps)"
  by (metis stage_keys(1) option.distinct(1), metis stage_keys(2) option.distinct(1))

lemma updates_of_fields [simp]:
  "updates_of (st\<lparr> vs_issues := a \<rparr>) k = updates_of st k"
  "updates_of (st\<lparr> vs_locks := b \<rparr>) k = updates_of st k"
  by (simp_all add: updates_of_def)

lemma updates_of_stage:
  "updates_of (stage_all ctx issues ps) k = filter (\<lambda>p. is_parsed_update p \<and> parsed_slug p = k) ps"
proof (induction ps rule: rev_induct)
  case Nil
  show ?case by (simp add: stage_all_simps updates_of_def)
next
  case (snoc p ps)
  then show ?case
    by (cases p) (auto simp: stage_all_simps stage_defs updates_of_def split: option.splits)
qed

lemma update_keys:
  "fst ` set (vs_updates (stage_all ctx issues ps)) = set (slugs_where is_parsed_update ps)"
proof (induction ps rule: rev_induct)
  case Nil
  show ?case by (simp add: stage_all_simps)
next
  case (snoc p ps)
  then show ?case by (cases p) (auto simp: stage_all_simps stage_defs split: option.splits)
qed

lemma update_in: "e \<in> set (AList.update k v m) \<Longrightarrow> e = (k, v) \<or> e \<in> set m"
  by (induction m) (auto split: if_splits)

lemma stage_fields:
  "vs_updates (stage_parsed ctx p st) = (if is_parsed_update p
     then AList.update (parsed_slug p) (updates_of st (parsed_slug p) @ [p]) (vs_updates st) else vs_updates st)"
  "vs_locks (stage_parsed ctx p st) = (case target_of ctx p of None \<Rightarrow> vs_locks st
     | Some r \<Rightarrow> AList.update (ci_id (parsed_of p)) (resource_lock (lr_id r)) (vs_locks st))"
  by (cases p; simp add: stage_defs target_of_def split: option.split)+

lemma update_entries: "e \<in> set (vs_updates (stage_all ctx issues ps)) \<Longrightarrow> snd e \<noteq> []"
proof (induction ps arbitrary: e rule: rev_induct)
  case Nil
  then show ?case by (simp add: stage_all_simps)
next
  case (snoc p ps)
  from snoc.prems have "snd e = updates_of (stage_all ctx issues ps) (parsed_slug p) @ [p] \<or>
      e \<in> set (vs_updates (stage_all ctx issues ps))"
    by (auto simp: stage_all_simps stage_fields simp del: parsed_kinds split: if_splits dest!: update_in)
  with snoc.IH [of e] show ?case by auto
qed

definition lock_of :: "validation_context \<Rightarrow> parsed_item \<Rightarrow> string option" where
  "lock_of ctx p = map_option (\<lambda>r. resource_lock (lr_id r)) (target_of ctx p)"

lemma update_new: "k \<notin> fst ` set m \<Longrightarrow> AList.update k v m = m @ [(k, v)]"
  by (induction m) auto

lemma stage_locks:
  assumes "distinct (map (\<lambda>p. ci_id (parsed_of p)) ps)"
  shows "snd ` set (vs_locks (stage_all ctx issues ps)) = {l. \<exists>p \<in> set ps. lock_of ctx p = Some l} \<and>
    fst ` set (vs_locks (stage_all ctx issues ps)) \<subseteq> (\<lambda>p. ci_id (parsed_of p)) ` set ps"
  using assms
proof (induction ps rule: rev_induct)
  case Nil
  then show ?case by (simp add: stage_all_simps)
next
  case (snoc p ps)
  show ?case
  proof (cases "target_of ctx p")
    case None
    with snoc show ?thesis by (auto simp: stage_all_simps stage_fields lock_of_def)
  next
    case (Some r)
    from snoc have "ci_id (parsed_of p) \<notin> fst ` set (vs_locks (stage_all ctx issues ps))" by auto
    note new = update_new [OF this]
    from snoc Some show ?thesis by (auto simp: stage_all_simps stage_fields lock_of_def new)
  qed
qed

lemma stage_issues:
  "vs_issues (stage_all ctx issues ps) = [] \<longleftrightarrow> issues = [] \<and> staged_ok ctx ps"
proof (induction ps rule: rev_induct)
  case Nil
  show ?case by (simp add: stage_all_simps staged_ok_def)
next
  case (snoc p ps)
  have upd: "updates_of (stage_all ctx is0 ps) k = [] \<longleftrightarrow> k \<notin> set (slugs_where is_parsed_update ps)" for is0 k
    by (auto simp: updates_of_stage slugs_where_def filter_empty_conv)
  show ?case
    using snoc
    by (cases p) (auto simp: stage_all_simps stage_defs staged_ok_def target_of_def stage_keys upd live_slug_known
        dest: stage_hits split: option.splits)
qed

section \<open>Parsing the items\<close>

definition parsed_item_of :: "change_set_item \<Rightarrow> parsed_item" where
  "parsed_item_of item =
     (case ci_changes item of
        CreateResource c \<Rightarrow> ParsedCreate item (cc_slug c) (cc_inputs c)
      | ImportResource c \<Rightarrow> ParsedImport item (ic_slug c)
      | UpdateResource inputs \<Rightarrow> ParsedUpdate item (the (ci_target_slug item)) inputs
      | DeleteResource mode \<Rightarrow> ParsedDelete item (the (ci_target_slug item)) mode)"

definition parses :: "change_set_item \<Rightarrow> bool" where
  "parses item \<longleftrightarrow> is_create_or_import item \<or> truthy (ci_target_slug item) \<noteq> None"

lemma parse_item_cases:
  "parses item \<Longrightarrow> parse_item item issues = (Some (parsed_item_of item), issues)"
  "\<not> parses item \<Longrightarrow> \<exists>msg. parse_item item issues = (None, record_issue (ci_id item) msg issues)"
  by (cases "ci_changes item"; auto simp: parses_def is_create_or_import_def parse_item_def parsed_item_of_def
      truthy_Some_iff split: option.splits)+

lemma parse_issues_stay: "issues \<noteq> [] \<Longrightarrow> snd (fold parse_step items (ps, issues)) \<noteq> []"
proof (induction items arbitrary: ps issues)
  case Nil
  then show ?case by simp
next
  case (Cons item items)
  have "snd (parse_step item (ps, issues)) \<noteq> []"
    using Cons.prems parse_item_cases(2) [of item issues]
    by (cases "parses item") (auto simp: parse_step_def parse_item_cases(1) split: option.splits prod.splits)
  with Cons.IH show ?case by (cases "parse_step item (ps, issues)") simp
qed

lemma parse_fold:
  "(\<forall>item \<in> set items. parses item) \<Longrightarrow>
   fold parse_step items (ps, issues) = (ps @ map parsed_item_of items, issues)"
  by (induction items arbitrary: ps) (simp_all add: parse_step_def parse_item_cases(1))

lemma parse_items_Nil: "snd (parse_items items) = [] \<longleftrightarrow> (\<forall>item \<in> set items. parses item)"
proof -
  have "snd (fold parse_step items (ps, [])) = [] \<longleftrightarrow> (\<forall>item \<in> set items. parses item)" for ps
  proof (induction items arbitrary: ps)
    case Nil
    show ?case by simp
  next
    case (Cons item items)
    show ?case
    proof (cases "parses item")
      case True
      then have "parse_step item (ps, []) = (ps @ [parsed_item_of item], [])"
        by (simp add: parse_step_def parse_item_cases(1))
      with True show ?thesis by (simp add: Cons.IH)
    next
      case False
      with parse_item_cases(2) [of item "[]"] obtain msg where
        "parse_item item [] = (None, record_issue (ci_id item) msg [])" by blast
      then have "snd (fold parse_step items (parse_step item (ps, []))) \<noteq> []"
        using parse_issues_stay by (simp add: parse_step_def)
      with False show ?thesis by simp
    qed
  qed
  then show ?thesis by (simp add: parse_items_def)
qed

section \<open>Changesets that pass\<close>

definition is_update_item :: "change_set_item \<Rightarrow> bool" where
  "is_update_item item \<longleftrightarrow> kind_of (ci_changes item) = UpdateKind"

definition staged_slugs :: "(change_set_item \<Rightarrow> bool) \<Rightarrow> change_set_item list \<Rightarrow> string option list" where
  "staged_slugs P items = map change_set_item_slug (filter P items)"

definition is_forget_item :: "change_set_item \<Rightarrow> bool" where
  "is_forget_item item \<longleftrightarrow> ci_changes item = DeleteResource ModeForget"

text \<open>The live resource an update or a delete acts on.\<close>

definition item_target :: "live_resource list \<Rightarrow> change_set_item \<Rightarrow> live_resource option" where
  "item_target live item =
     (if is_create_or_import item then None
      else Option.bind (change_set_item_slug item) (live_target live item))"

definition checked_refs :: "change_set_item \<Rightarrow> string list" where
  "checked_refs item = (if kind_of (ci_changes item) \<in> {CreateKind, UpdateKind} then ci_depends_on item else [])"

definition changeset_ok :: "change_set_item list \<Rightarrow> validation_context \<Rightarrow> bool" where
  "changeset_ok items ctx \<longleftrightarrow>
     (\<forall>i \<in> set items. \<not> is_create_or_import i \<longrightarrow> truthy (ci_target_slug i) \<noteq> None) \<and>
     distinct (staged_slugs is_create_or_import items) \<and> distinct (staged_slugs is_delete_item items) \<and>
     distinct (staged_slugs is_update_item items) \<and>
     set (staged_slugs is_update_item items) \<inter> set (staged_slugs is_delete_item items) = {} \<and>
     (\<forall>i \<in> set items. is_create_or_import i \<and> ci_id i \<notin> set (vc_succeeded ctx) \<longrightarrow>
        change_set_item_slug i \<notin> Some ` lr_slug ` set (vc_live ctx)) \<and>
     (\<forall>i \<in> set items. \<not> is_create_or_import i \<and> \<not> is_forget_item i \<longrightarrow> item_target (vc_live ctx) i \<noteq> None) \<and>
     (\<forall>i \<in> set items. \<forall>r. item_target (vc_live ctx) i = Some r \<longrightarrow> resource_lock (lr_id r) \<notin> set (vc_locked ctx)) \<and>
     (\<forall>i \<in> set items. \<forall>ref \<in> set (checked_refs i). Some ref \<noteq> change_set_item_slug i \<and>
        Some ref \<notin> set (staged_slugs is_delete_item items) \<and>
        (ref \<in> lr_slug ` set (vc_live ctx) \<or> Some ref \<in> set (staged_slugs is_create_or_import items)))"

lemma parsed_item_kinds:
  "is_staged (parsed_item_of i) = is_create_or_import i"
  "is_parsed_delete (parsed_item_of i) = is_delete_item i"
  "is_forget (parsed_item_of i) = is_forget_item i"
  "is_update_item i \<longleftrightarrow> \<not> is_create_or_import i \<and> \<not> is_delete_item i"
  "parsed_of (parsed_item_of i) = i"
  "parses i \<Longrightarrow> Some (parsed_slug (parsed_item_of i)) = change_set_item_slug i"
  "parsed_refs (parsed_item_of i) = checked_refs i"
  by (cases "ci_changes i"; auto simp: parsed_item_of_def is_create_or_import_def is_delete_item_def
      is_forget_item_def is_update_item_def change_set_item_slug_def parses_def parsed_refs_def checked_refs_def
      truthy_None_iff)+

lemma slugs_of_parsed:
  assumes "\<forall>i \<in> set items. parses i" "\<And>i. P (parsed_item_of i) = Q i"
  shows "map Some (slugs_where P (map parsed_item_of items)) = staged_slugs Q items"
  using assms by (induction items) (auto simp: slugs_where_def staged_slugs_def parsed_item_kinds)

lemma available_iff:
  assumes "ref \<notin> set (slugs_where is_parsed_delete ps)"
  shows "ref \<in> set (fold available_step ps acc) \<longleftrightarrow> ref \<in> set acc \<or> ref \<in> set (slugs_where is_staged ps)"
  using assms
proof (induction ps rule: rev_induct)
  case Nil
  show ?case by simp
next
  case (snoc p ps)
  then show ?case by (cases p) (auto simp: available_step_def split: if_splits)
qed

lemma conflicts_Nil:
  "(\<forall>e \<in> set (vs_updates (stage_all ctx issues ps)).
      map_of (vs_deletes (stage_all ctx issues ps)) (fst e) = None \<or> snd e = []) \<longleftrightarrow>
   set (slugs_where is_parsed_update ps) \<inter> set (slugs_where is_parsed_delete ps) = {}"
  unfolding stage_keys update_keys [of ctx issues ps, symmetric] using update_entries by blast

lemma validate_run:
  "parse_items items = (ps, issues) \<Longrightarrow> validate_change_set_items items ctx blockers =
     fold (\<lambda>b. record_issue (b_item_id b) (b_message b)) blockers
       (fold (check_lock (vc_locked ctx)) (vs_locks (stage_all ctx issues ps))
         (fold (check_refs (vs_deleted (stage_all ctx issues ps)) (available_slugs ctx ps)) ps
           (fold (update_conflict (stage_all ctx issues ps)) (vs_updates (stage_all ctx issues ps))
             (vs_issues (stage_all ctx issues ps)))))"
  by (simp add: validate_change_set_items_def stage_all_def Let_def)

lemma validation_Nil:
  assumes "distinct (map ci_id items)" "\<forall>i \<in> set items. parses i"
  shows "validate_change_set_items items ctx blockers = [] \<longleftrightarrow> blockers = [] \<and>
    (let ps = map parsed_item_of items in
      staged_ok ctx ps \<and>
      set (slugs_where is_parsed_update ps) \<inter> set (slugs_where is_parsed_delete ps) = {} \<and>
      (\<forall>p \<in> set ps. \<forall>ref \<in> set (parsed_refs p).
         ref_ok (slugs_where is_parsed_delete ps) (available_slugs ctx ps) p ref) \<and>
      (\<forall>p \<in> set ps. \<forall>l. lock_of ctx p = Some l \<longrightarrow> l \<notin> set (vc_locked ctx)))"
proof -
  let ?ps = "map parsed_item_of items"
  let ?st = "stage_all ctx [] ?ps"
  have "parse_items items = (?ps, [])" using parse_fold [OF assms(2)] by (simp add: parse_items_def)
  note run = validate_run [OF this, of ctx blockers]
  have "distinct (map (\<lambda>p. ci_id (parsed_of p)) ?ps)"
    using assms(1) by (simp add: comp_def parsed_item_kinds)
  from conjunct1 [OF stage_locks [OF this, of ctx "[]"]]
  have "(\<forall>l \<in> snd ` set (vs_locks ?st). l \<notin> set (vc_locked ctx)) \<longleftrightarrow>
      (\<forall>l \<in> {l. \<exists>p \<in> set ?ps. lock_of ctx p = Some l}. l \<notin> set (vc_locked ctx))" by (rule arg_cong)
  then have locks: "(\<forall>e \<in> set (vs_locks ?st). snd e \<notin> set (vc_locked ctx)) \<longleftrightarrow>
      (\<forall>p \<in> set ?ps. \<forall>l. lock_of ctx p = Some l \<longrightarrow> l \<notin> set (vc_locked ctx))"
    by (simp only: ball_simps image_iff mem_Collect_eq) blast
  have deleted: "ref_ok (vs_deleted ?st) av p ref = ref_ok (slugs_where is_parsed_delete ?ps) av p ref" for av p ref
    by (simp add: ref_ok_def stage_keys)
  show ?thesis
    unfolding run fold_record_Nil fold_issues_Nil [OF check_lock_Nil] fold_issues_Nil [OF check_refs_Nil]
      fold_issues_Nil [OF update_conflict_Nil] stage_issues locks deleted conflicts_Nil Let_def
    by argo
qed

lemma validation_parses:
  "validate_change_set_items items ctx blockers = [] \<Longrightarrow> \<forall>i \<in> set items. parses i"
proof -
  assume v: "validate_change_set_items items ctx blockers = []"
  obtain ps is0 where p: "parse_items items = (ps, is0)" by fastforce
  have "vs_issues (stage_all ctx is0 ps) = []"
    using v by (simp add: validate_run [OF p] fold_issues_Nil [OF check_lock_Nil]
        fold_issues_Nil [OF check_refs_Nil] fold_issues_Nil [OF update_conflict_Nil])
  then show ?thesis using parse_items_Nil [of items] by (simp add: stage_issues p)
qed

lemma validation_ok_iff:
  assumes "distinct (map ci_id items)"
  shows "validate_change_set_items items ctx blockers = [] \<longleftrightarrow> blockers = [] \<and> changeset_ok items ctx"
proof (cases "\<forall>i \<in> set items. parses i")
  case True
  let ?ps = "map parsed_item_of items" and ?live = "lr_slug ` set (vc_live ctx)"
  let ?del = "slugs_where is_parsed_delete ?ps"
  have slugs: "staged_slugs is_create_or_import items = map Some (slugs_where is_staged ?ps)"
    "staged_slugs is_delete_item items = map Some ?del"
    "staged_slugs is_update_item items = map Some (slugs_where is_parsed_update ?ps)"
    using slugs_of_parsed [OF True, of is_staged is_create_or_import]
      slugs_of_parsed [OF True, of is_parsed_delete is_delete_item]
      slugs_of_parsed [OF True, of is_parsed_update is_update_item]
    by (simp_all add: parsed_item_kinds)
  have plain: "set (map Some xs) \<inter> set (map Some ys) = {} \<longleftrightarrow> set xs \<inter> set ys = {}"
    "distinct (map Some xs) = distinct xs" "Some x \<in> set (map Some xs) \<longleftrightarrow> x \<in> set xs"
    for x and xs ys :: "string list" by (auto simp: distinct_map)
  have slug: "change_set_item_slug i = Some (parsed_slug (parsed_item_of i))" if "i \<in> set items" for i
    using parsed_item_kinds(6) [of i] True that by simp
  have target: "item_target (vc_live ctx) i = target_of ctx (parsed_item_of i)" if "i \<in> set items" for i
    using slug [OF that] by (simp add: item_target_def target_of_def parsed_item_kinds(1-5))
  have refs: "ref_ok ?del (available_slugs ctx ?ps) (parsed_item_of i) ref \<longleftrightarrow>
      Some ref \<noteq> change_set_item_slug i \<and> ref \<notin> set ?del \<and>
      (ref \<in> ?live \<or> ref \<in> set (slugs_where is_staged ?ps))" if "i \<in> set items" for i ref
  proof -
    have live: "set (set_of_list (map lr_slug (vc_live ctx))) = ?live" by simp
    have "ref \<notin> set ?del \<Longrightarrow> ref \<in> set (available_slugs ctx ?ps) \<longleftrightarrow>
        ref \<in> ?live \<or> ref \<in> set (slugs_where is_staged ?ps)"
      unfolding available_slugs_def live [symmetric] by (rule available_iff)
    then show ?thesis unfolding ref_ok_def slug [OF that] by blast
  qed
  have items: "(\<forall>p \<in> set ?ps. P p) \<longleftrightarrow> (\<forall>i \<in> set items. P (parsed_item_of i))" for P by simp
  have names: "(\<forall>i \<in> set items. \<not> is_create_or_import i \<longrightarrow> truthy (ci_target_slug i) \<noteq> None) \<longleftrightarrow> True"
    using True by (auto simp: parses_def)
  have fresh: "(\<forall>i \<in> set items. is_create_or_import i \<and> ci_id i \<notin> set (vc_succeeded ctx) \<longrightarrow>
        change_set_item_slug i \<notin> Some ` ?live) \<longleftrightarrow>
      (\<forall>p \<in> set ?ps. is_staged p \<longrightarrow> parsed_slug p \<notin> ?live \<or> ci_id (parsed_of p) \<in> set (vc_succeeded ctx))"
    unfolding items by (rule ball_cong [OF refl]) (auto simp: parsed_item_kinds(1-5) slug simp del: parsed_kinds)
  have exists: "(\<forall>i \<in> set items. \<not> is_create_or_import i \<and> \<not> is_forget_item i \<longrightarrow> item_target (vc_live ctx) i \<noteq> None) \<longleftrightarrow>
      (\<forall>p \<in> set ?ps. \<not> is_staged p \<and> \<not> is_forget p \<longrightarrow> target_of ctx p \<noteq> None)"
    unfolding items by (rule ball_cong [OF refl]) (simp add: parsed_item_kinds(1-5) target)
  have free: "(\<forall>i \<in> set items. \<forall>r. item_target (vc_live ctx) i = Some r \<longrightarrow> resource_lock (lr_id r) \<notin> set (vc_locked ctx)) \<longleftrightarrow>
      (\<forall>p \<in> set ?ps. \<forall>l. lock_of ctx p = Some l \<longrightarrow> l \<notin> set (vc_locked ctx))"
    unfolding items by (rule ball_cong [OF refl]) (auto simp: target lock_of_def)
  have sound: "(\<forall>i \<in> set items. \<forall>ref \<in> set (checked_refs i). Some ref \<noteq> change_set_item_slug i \<and>
        ref \<notin> set ?del \<and> (ref \<in> ?live \<or> ref \<in> set (slugs_where is_staged ?ps))) \<longleftrightarrow>
      (\<forall>p \<in> set ?ps. \<forall>ref \<in> set (parsed_refs p). ref_ok ?del (available_slugs ctx ?ps) p ref)"
    unfolding items parsed_item_kinds(7) by (intro ball_cong refl) (rule refs [symmetric])
  show ?thesis
    unfolding validation_Nil [OF assms True] changeset_ok_def staged_ok_def slugs plain names fresh exists free
      sound Let_def
    by argo
next
  case False
  then obtain i where "i \<in> set items" "\<not> parses i" by blast
  then have "validate_change_set_items items ctx blockers \<noteq> []" "\<not> changeset_ok items ctx"
    using validation_parses [of items ctx blockers] unfolding changeset_ok_def parses_def by blast+
  then show ?thesis by simp
qed

text \<open>C21: a changeset passes validation without an issue exactly when no planner blocker is passed in
  and its items are consistent: updates and deletes name a target, no slug is created, updated or
  deleted twice, or both updated and deleted; a created slug is not live (unless the item itself
  created it); the targets exist (a forget needs none) and no open operation holds their lock; and
  every reference names another resource that is live or created and is not deleted.\<close>

theorem validation_accepts_iff:
  assumes "distinct (map ci_id items)"
  shows "validate_change_set_items items ctx blockers = [] \<longleftrightarrow> blockers = [] \<and> changeset_ok items ctx"
  by (rule validation_ok_iff [OF assms])

definition sample_context :: validation_context where
  "sample_context = \<lparr> vc_live = sample_live, vc_locked = [], vc_succeeded = [] \<rparr>"

lemma validation_accepts_iff_witness: "changeset_ok sample_items sample_context"
proof -
  have "distinct (map ci_id sample_items)" "validate_change_set_items sample_items sample_context [] = []"
    by code_simp+
  then show ?thesis using validation_accepts_iff [of sample_items sample_context "[]"] by simp
qed

end
