(* ===== verification/ChangesetProps.thy ===== *)
theory ChangesetProps
  imports ChangesetWrites ValidationProps
begin

text \<open>
  What the changeset service guarantees: when \<open>apply\<close> starts a run and that it changes nothing
  otherwise, and the invariant of its tables.
\<close>

section \<open>Reads\<close>

definition items_of :: "string \<Rightarrow> db \<Rightarrow> change_set_item list" where
  "items_of k s = sort_key ci_created_at (filter (\<lambda>i. ci_change_set_id i = k) (db_items s))"

lemma raw_items_of: "raw_items (raw_view_of s row) = items_of (cs_id row) s"
  by (simp add: raw_items_def raw_view_of_def items_of_def comp_def)

lemma rv_raw_view [simp]: "rv_change_set (raw_view_of s row) = row"
  by (simp add: raw_view_of_def)

lemma rv_items_Nil: "rv_items (raw_view_of s row) = [] \<longleftrightarrow> items_of (cs_id row) s = []"
  by (simp add: raw_view_of_def items_of_def)

lemma first_row_map: "first_row (map f (filter P xs)) = map_option f (find P xs)"
  by (induction xs) (auto simp: first_row_def)

lemma raw_view_run:
  "get_raw_change_set_view_by_project project k s =
     ((case find (\<lambda>c. cs_id c = k) (db_change_sets s) of
        None \<Rightarrow> Inl (NotFound (''changeset '' @ k @ '' not found''))
      | Some row \<Rightarrow> if cs_project_id row \<noteq> p_id project then Inl (NotFound (''changeset '' @ k @ '' not found''))
          else Inr (raw_view_of s row)), s)"
proof -
  have "get_raw_change_set_view k s =
      (Inr (map_option (raw_view_of s) (find (\<lambda>c. cs_id c = k) (db_change_sets s))), s)"
    by (simp add: get_raw_change_set_view_def load_raw_change_sets_def eff_simps first_row_map)
  moreover have "rv_change_set (raw_view_of s row) = row" for row by (simp add: raw_view_of_def)
  ultimately show ?thesis
    by (simp add: get_raw_change_set_view_by_project_def eff_simps split: option.split)
qed

lemma distinct_items_of: "distinct (map ci_id (db_items s)) \<Longrightarrow> distinct (map ci_id (items_of k s))"
  by (auto simp: items_of_def distinct_map intro: inj_on_subset)

section \<open>The gate of apply\<close>

text \<open>The dry-runs of the items are there and settled.\<close>

definition dry_runs_settled :: "change_set_item list \<Rightarrow> db \<Rightarrow> bool" where
  "dry_runs_settled items s \<longleftrightarrow>
     ci_id ` set items \<subseteq> dr_item_id ` set (db_dry_runs s) \<and>
     (\<forall>d \<in> set (db_dry_runs s). dr_item_id d \<in> ci_id ` set items \<longrightarrow> dr_action d \<notin> {ActPending, ActDeferred})"

lemma dry_run_gate_None:
  "dry_run_gate items (dry_run_rows (map ci_id items) s) = None \<longleftrightarrow> dry_runs_settled items s"
proof -
  have rows: "fst ` set (dry_run_rows (map ci_id items) s) =
      dr_item_id ` set (db_dry_runs s) \<inter> ci_id ` set items"
    unfolding dry_run_rows_def set_map set_filter image_image fst_conv by blast
  have act: "slugs_in_action items a (dry_run_rows (map ci_id items) s) = [] \<longleftrightarrow>
      (\<forall>d \<in> set (db_dry_runs s). dr_item_id d \<in> ci_id ` set items \<longrightarrow> dr_action d \<noteq> a)" for a
    by (auto simp: slugs_in_action_def dry_run_rows_def filter_empty_conv)
  have miss: "filter (\<lambda>k. k \<notin> fst ` set (dry_run_rows (map ci_id items) s)) (map ci_id items) = [] \<longleftrightarrow>
      ci_id ` set items \<subseteq> dr_item_id ` set (db_dry_runs s)"
    unfolding rows by (auto simp: filter_empty_conv)
  show ?thesis
    by (simp add: dry_run_gate_def Let_def dry_runs_settled_def act miss) blast
qed

definition gate_open :: "project \<Rightarrow> string \<Rightarrow> db \<Rightarrow> bool" where
  "gate_open project k s \<longleftrightarrow>
     (\<exists>row plan. find (\<lambda>c. cs_id c = k) (db_change_sets s) = Some row \<and> cs_project_id row = p_id project \<and>
        cs_status row = Draft \<and> items_of k s \<noteq> [] \<and>
        plan_changeset_apply (items_of k s) (vc_live (structural_context (p_id project) s)) = Inr plan \<and>
        pl_blockers plan = [] \<and> changeset_ok (items_of k s) (structural_context (p_id project) s) \<and>
        dry_runs_settled (items_of k s) s)"

lemma apply_gate_run:
  assumes "distinct (map ci_id (raw_items row))"
  shows "\<exists>r. apply_gate project row s = (r, s) \<and>
    (case r of
       Inl e \<Rightarrow> \<not> (\<exists>plan. plan_changeset_apply (raw_items row) (vc_live (structural_context (p_id project) s)) = Inr plan \<and>
          pl_blockers plan = [] \<and> changeset_ok (raw_items row) (structural_context (p_id project) s) \<and>
          dry_runs_settled (raw_items row) s)
     | Inr levels \<Rightarrow> \<exists>plan. plan_changeset_apply (raw_items row) (vc_live (structural_context (p_id project) s)) = Inr plan \<and>
          pl_blockers plan = [] \<and> changeset_ok (raw_items row) (structural_context (p_id project) s) \<and>
          dry_runs_settled (raw_items row) s \<and> get_change_set_apply_graph plan = Inr levels)"
proof -
  let ?items = "raw_items row" and ?ctx = "structural_context (p_id project) s"
  show ?thesis
  proof (cases "plan_changeset_apply ?items (vc_live ?ctx)")
    case (Inl e)
    then show ?thesis
      by (simp add: apply_gate_def Let_def eff_simps get_structural_validation_context_def)
  next
    case (Inr plan)
    note valid = validation_ok_iff [OF assms, of ?ctx "pl_blockers plan"]
    note gate = dry_run_gate_None [of ?items s]
    show ?thesis
      using valid gate Inr
      by (cases "dry_run_gate ?items (dry_run_rows (map ci_id ?items) s)")
        (auto simp: apply_gate_def Let_def eff_simps get_structural_validation_context_def
          get_change_set_apply_graph_def)
  qed
qed

lemma apply_draft_run:
  assumes "distinct (map ci_id (db_items s))"
    and row: "find (\<lambda>c. cs_id c = k) (db_change_sets s) = Some row" "cs_project_id row = p_id project"
      "cs_status row = Draft" "items_of k s \<noteq> []"
  obtains r where
    "apply_change_set en actor project k s =
      (case r of Inl e \<Rightarrow> (Inl e, s) | Inr levels \<Rightarrow> start_apply en actor project k (raw_view_of s row) levels s)"
    "gate_open project k s \<longleftrightarrow> (\<exists>levels. r = Inr levels)"
    "\<And>levels. r = Inr levels \<Longrightarrow> \<exists>plan. plan_changeset_apply (items_of k s) (vc_live (structural_context (p_id project) s)) = Inr plan \<and>
       get_change_set_apply_graph plan = Inr levels"
proof -
  let ?raw = "raw_view_of s row"
  have k: "cs_id row = k" using find_Some_in [OF row(1)] by auto
  have items: "raw_items ?raw = items_of k s" by (simp add: raw_items_of k)
  have some: "rv_items ?raw \<noteq> []" using row(4) items by (auto simp: raw_items_def)
  have "apply_change_set en actor project k s =
      eff_bind (apply_gate project ?raw) (start_apply en actor project k ?raw) s"
    using row(1-3) some
    by (simp add: apply_change_set_def eff_bind_run raw_view_run assert_draft_def eff_run)
  moreover have "distinct (map ci_id (raw_items ?raw))"
    unfolding items by (rule distinct_items_of [OF assms(1)])
  from apply_gate_run [OF this, of project s] obtain r where r: "apply_gate project ?raw s = (r, s)"
    "case r of
       Inl e \<Rightarrow> \<not> (\<exists>plan. plan_changeset_apply (raw_items ?raw) (vc_live (structural_context (p_id project) s)) = Inr plan \<and>
          pl_blockers plan = [] \<and> changeset_ok (raw_items ?raw) (structural_context (p_id project) s) \<and>
          dry_runs_settled (raw_items ?raw) s)
     | Inr levels \<Rightarrow> \<exists>plan. plan_changeset_apply (raw_items ?raw) (vc_live (structural_context (p_id project) s)) = Inr plan \<and>
          pl_blockers plan = [] \<and> changeset_ok (raw_items ?raw) (structural_context (p_id project) s) \<and>
          dry_runs_settled (raw_items ?raw) s \<and> get_change_set_apply_graph plan = Inr levels" by blast
  moreover have "gate_open project k s \<longleftrightarrow> (\<exists>levels. r = Inr levels)"
    using r(2) row by (cases r) (auto simp: gate_open_def items)
  moreover have "\<exists>plan. plan_changeset_apply (items_of k s) (vc_live (structural_context (p_id project) s)) = Inr plan \<and>
      get_change_set_apply_graph plan = Inr levels" if "r = Inr levels" for levels
    using r(2) that items by auto
  ultimately show thesis using that [of r] by (simp add: eff_bind_run)
qed

lemma apply_not_draft:
  assumes "\<nexists>row. find (\<lambda>c. cs_id c = k) (db_change_sets s) = Some row \<and> cs_project_id row = p_id project \<and>
    cs_status row = Draft \<and> items_of k s \<noteq> []"
  shows "\<not> gate_open project k s" "\<exists>e. apply_change_set en actor project k s = (Inl e, s)"
proof -
  show "\<not> gate_open project k s" using assms unfolding gate_open_def by blast
  show "\<exists>e. apply_change_set en actor project k s = (Inl e, s)"
    using assms
    by (cases "find (\<lambda>c. cs_id c = k) (db_change_sets s)")
      (auto simp: apply_change_set_def eff_bind_run raw_view_run assert_draft_def eff_run rv_items_Nil dest!: find_Some_in)
qed

text \<open>C14: \<open>apply\<close> starts a run exactly when the gate is open: the changeset is a draft of the project
  with at least one item, the planner accepts its items with no blocker, they pass validation, and
  every item has a dry-run that is neither pending nor deferred. It then hands the levels of that
  plan to the run. Otherwise it throws and changes nothing. A dry-run that ended in \<open>error\<close> does not
  close the gate.\<close>

theorem apply_gated:
  assumes "distinct (map ci_id (db_items s))"
  shows "if gate_open project k s
    then \<exists>row plan levels. rv_change_set row \<in> set (db_change_sets s) \<and> raw_items row = items_of k s \<and>
      plan_changeset_apply (items_of k s) (vc_live (structural_context (p_id project) s)) = Inr plan \<and>
      get_change_set_apply_graph plan = Inr levels \<and>
      apply_change_set en actor project k s = start_apply en actor project k row levels s
    else \<exists>e. apply_change_set en actor project k s = (Inl e, s)"
proof (cases "\<exists>row. find (\<lambda>c. cs_id c = k) (db_change_sets s) = Some row \<and> cs_project_id row = p_id project \<and>
    cs_status row = Draft \<and> items_of k s \<noteq> []")
  case True
  then obtain row where row: "find (\<lambda>c. cs_id c = k) (db_change_sets s) = Some row" "cs_project_id row = p_id project"
    "cs_status row = Draft" "items_of k s \<noteq> []" by blast
  have view: "rv_change_set (raw_view_of s row) \<in> set (db_change_sets s)" "raw_items (raw_view_of s row) = items_of k s"
    using find_Some_in [OF row(1)] by (auto simp: raw_items_of)
  obtain r where r: "apply_change_set en actor project k s =
      (case r of Inl e \<Rightarrow> (Inl e, s) | Inr levels \<Rightarrow> start_apply en actor project k (raw_view_of s row) levels s)"
    "gate_open project k s \<longleftrightarrow> (\<exists>levels. r = Inr levels)"
    "\<And>levels. r = Inr levels \<Longrightarrow> \<exists>plan. plan_changeset_apply (items_of k s) (vc_live (structural_context (p_id project) s)) = Inr plan \<and>
       get_change_set_apply_graph plan = Inr levels"
    using apply_draft_run [OF assms row] by blast
  show ?thesis
  proof (cases r)
    case (Inl e)
    with r(1,2) show ?thesis by simp
  next
    case (Inr levels)
    from r(3) [OF Inr] obtain plan where
      "plan_changeset_apply (items_of k s) (vc_live (structural_context (p_id project) s)) = Inr plan"
      "get_change_set_apply_graph plan = Inr levels" by blast
    moreover have "apply_change_set en actor project k s = start_apply en actor project k (raw_view_of s row) levels s"
      using r(1) Inr by simp
    ultimately have "\<exists>row plan levels. rv_change_set row \<in> set (db_change_sets s) \<and> raw_items row = items_of k s \<and>
        plan_changeset_apply (items_of k s) (vc_live (structural_context (p_id project) s)) = Inr plan \<and>
        get_change_set_apply_graph plan = Inr levels \<and>
        apply_change_set en actor project k s = start_apply en actor project k row levels s"
      using view by blast
    then show ?thesis using r(2) Inr by simp
  qed
next
  case False
  with apply_not_draft show ?thesis by simp
qed

text \<open>A draft with one item, a forget, whose dry-run ended in an error.\<close>

definition draft_db :: "dry_run_action \<Rightarrow> db" where
  "draft_db a = empty_db\<lparr>
     db_change_sets := [\<lparr> cs_id = ''c'', cs_project_id = ''p'', cs_status = Draft, cs_title = None,
       cs_actor = (UserActor, ''u''), cs_applied_at = None, cs_created_at = 1, cs_updated_at = 1 \<rparr>],
     db_items := [sample_item ''f'' 1 (Some ''gone'') (DeleteResource ModeForget)],
     db_dry_runs := [(pending_dry_run ''f'' 1)\<lparr> dr_action := a \<rparr>] \<rparr>"

definition demo_project :: project where
  "demo_project = hd (db_projects empty_db)"

lemma draft_items: "items_of ''c'' (draft_db a) = db_items (draft_db a)"
  by (simp add: items_of_def draft_db_def sample_item_def)

lemma draft_plan:
  "plan_changeset_apply (db_items (draft_db a)) (vc_live (structural_context (p_id demo_project) (draft_db a))) =
     Inr (projr (plan_changeset_apply (db_items (draft_db ActError)) []))"
proof -
  have "db_items (draft_db a) = db_items (draft_db ActError)"
    "vc_live (structural_context (p_id demo_project) (draft_db a)) = []"
    by (simp_all add: draft_db_def structural_context_def live_columns_def empty_db_def)
  moreover have "\<not> isl (plan_changeset_apply (db_items (draft_db ActError)) [])" by code_simp
  ultimately show ?thesis by simp
qed

lemma draft_gate_open: "gate_open demo_project ''c'' (draft_db ActError)"
proof -
  let ?s = "draft_db ActError"
  let ?items = "db_items ?s" and ?ctx = "structural_context (p_id demo_project) ?s"
  have "validate_change_set_items ?items ?ctx [] = []" "distinct (map ci_id ?items)" by code_simp+
  then have "changeset_ok ?items ?ctx" using validation_ok_iff by blast
  moreover have "dry_runs_settled ?items ?s" by code_simp
  moreover have "pl_blockers (projr (plan_changeset_apply ?items [])) = []" "?items \<noteq> []" by code_simp+
  moreover have "find (\<lambda>c. cs_id c = ''c'') (db_change_sets ?s) = Some (hd (db_change_sets ?s))"
    "cs_project_id (hd (db_change_sets ?s)) = p_id demo_project" "cs_status (hd (db_change_sets ?s)) = Draft"
    by code_simp+
  ultimately show ?thesis
    unfolding gate_open_def draft_items using draft_plan [of ActError] by blast
qed

lemma draft_gate_pending: "\<not> gate_open demo_project ''c'' (draft_db ActPending)"
proof -
  have "\<not> dry_runs_settled (db_items (draft_db ActPending)) (draft_db ActPending)" by code_simp
  then show ?thesis unfolding gate_open_def draft_items by blast
qed

definition demo_env :: environment where
  "demo_env = \<lparr> en_clock = \<lambda>_. 7, en_start = \<lambda>_. eff_return (), en_displays = \<lambda>_ _. eff_return [] \<rparr>"

definition demo_actor :: actor where
  "demo_actor = \<lparr> ac_type = UserActor, ac_id = ''u'', ac_org = ''o'', ac_channel = None \<rparr>"

lemma apply_gated_witness:
  "(\<exists>row levels. apply_change_set demo_env demo_actor demo_project ''c'' (draft_db ActError) =
      start_apply demo_env demo_actor demo_project ''c'' row levels (draft_db ActError)) \<and>
   (\<exists>e. apply_change_set demo_env demo_actor demo_project ''c'' (draft_db ActPending) = (Inl e, draft_db ActPending))"
proof -
  have "distinct (map ci_id (db_items (draft_db a)))" for a by (simp add: draft_db_def)
  note gated = apply_gated [OF this, of demo_project "''c''"]
  show ?thesis
    using gated [of ActError demo_env demo_actor] gated [of ActPending demo_env demo_actor]
      draft_gate_open draft_gate_pending by auto
qed

end
