(* ===== verification/ApplyProps.thy ===== *)
theory ApplyProps
  imports ChangesetWorkflows WorkflowTheorems ChangesetProps
begin

text \<open>
  What a run of the apply workflow guarantees. \<open>item_run\<close> lists the ways the run of an item can end, and
  \<open>item_ended\<close> says of each outcome what the operation of the item is in the state left behind. A level
  in which an item fails or is canceled stops the run before any later level; a run that returns
  \<open>applied\<close> has an operation that succeeded for every item it did not skip.
\<close>

section \<open>The run of an item\<close>

text \<open>The operation an item starts, and the workflow that runs it. A \<open>forget\<close> of a resource that is gone
  starts none.\<close>

definition item_operation :: "workflow_env \<Rightarrow> change_set_view \<Rightarrow> change_set_item \<Rightarrow> operation option svc" where
  "item_operation we cv item =
     (case ci_changes item of
        CreateResource c \<Rightarrow> eff_bind (apply_create_operation we cv item c) (\<lambda>op. eff_return (Some op))
      | ImportResource c \<Rightarrow> eff_bind (apply_import_operation we cv item c) (\<lambda>op. eff_return (Some op))
      | UpdateResource inputs \<Rightarrow> eff_bind (apply_update_operation we cv item inputs) (\<lambda>op. eff_return (Some op))
      | DeleteResource ModeForget \<Rightarrow> apply_forget_operation we cv item
      | DeleteResource ModeDelete \<Rightarrow> eff_bind (apply_delete_operation we cv item) (\<lambda>op. eff_return (Some op)))"

definition item_workflow :: "change_set_item \<Rightarrow> runtime \<Rightarrow> operation \<Rightarrow> workflow_result svc" where
  "item_workflow item =
     (case ci_changes item of
        CreateResource c \<Rightarrow> create_resource_workflow
      | ImportResource c \<Rightarrow> import_resource_workflow
      | UpdateResource inputs \<Rightarrow> update_resource_workflow
      | DeleteResource ModeForget \<Rightarrow> forget_resource_workflow
      | DeleteResource ModeDelete \<Rightarrow> delete_resource_workflow)"

text \<open>How one item can end.\<close>

inductive item_run ::
  "workflow_env \<Rightarrow> change_set_view \<Rightarrow> string list \<Rightarrow> change_set_item \<Rightarrow> db \<Rightarrow> js_error + item_outcome \<Rightarrow> db \<Rightarrow> bool"
  for we cv succeeded item where
  skipped: "ci_id item \<in> set succeeded \<Longrightarrow> item_run we cv succeeded item s (Inr ItemSkipped) s"
| refused: "ci_id item \<notin> set succeeded \<Longrightarrow> item_operation we cv item s = (Inl e, t) \<Longrightarrow>
    item_run we cv succeeded item s (Inl e) t"
| gone: "ci_id item \<notin> set succeeded \<Longrightarrow> item_operation we cv item s = (Inr None, t) \<Longrightarrow>
    item_run we cv succeeded item s (Inr ItemSucceeded) t"
| ran: "ci_id item \<notin> set succeeded \<Longrightarrow> item_operation we cv item s = (Inr (Some op), s1) \<Longrightarrow>
    item_workflow item (we_rt we) op s1 = (Inr (Ran v), t) \<Longrightarrow> item_run we cv succeeded item s (Inr ItemSucceeded) t"
| canceled: "ci_id item \<notin> set succeeded \<Longrightarrow> item_operation we cv item s = (Inr (Some op), s1) \<Longrightarrow>
    item_workflow item (we_rt we) op s1 = (Inr WorkflowCanceled, t) \<Longrightarrow>
    item_run we cv succeeded item s (Inr ItemCanceled) t"
| failed: "ci_id item \<notin> set succeeded \<Longrightarrow> item_operation we cv item s = (Inr (Some op), s1) \<Longrightarrow>
    item_workflow item (we_rt we) op s1 = (Inl e, t) \<Longrightarrow> item_run we cv succeeded item s (Inl e) t"

text \<open>A relation of every item, one after the other.\<close>

inductive each_item :: "('i \<Rightarrow> 's \<Rightarrow> 'r \<Rightarrow> 's \<Rightarrow> bool) \<Rightarrow> 'i list \<Rightarrow> 's \<Rightarrow> 'r list \<Rightarrow> 's \<Rightarrow> bool" for R where
  none: "each_item R [] s [] s"
| another: "R i s r s1 \<Longrightarrow> each_item R xs s1 rs t \<Longrightarrow> each_item R (i # xs) s (r # rs) t"

inductive_simps each_item_simps [simp]: "each_item R [] s rs t" "each_item R (i # xs) s rs t"

lemma each_item_append:
  "each_item R (xs @ ys) s rs u \<longleftrightarrow>
     (\<exists>qs t ps. rs = qs @ ps \<and> each_item R xs s qs t \<and> each_item R ys t ps u)"
proof (induction xs arbitrary: s rs)
  case (Cons i xs)
  show ?case
  proof
    assume "each_item R ((i # xs) @ ys) s rs u"
    then obtain r s1 rs' where r: "rs = r # rs'" "R i s r s1" "each_item R (xs @ ys) s1 rs' u" by auto
    from r(3) obtain qs t ps where "rs' = qs @ ps" "each_item R xs s1 qs t" "each_item R ys t ps u"
      unfolding Cons.IH by blast
    with r have "rs = (r # qs) @ ps \<and> each_item R (i # xs) s (r # qs) t \<and> each_item R ys t ps u" by auto
    then show "\<exists>qs t ps. rs = qs @ ps \<and> each_item R (i # xs) s qs t \<and> each_item R ys t ps u" by blast
  next
    assume "\<exists>qs t ps. rs = qs @ ps \<and> each_item R (i # xs) s qs t \<and> each_item R ys t ps u"
    then show "each_item R ((i # xs) @ ys) s rs u" by (fastforce simp: Cons.IH)
  qed
qed auto

lemma eff_bind_assoc: "eff_bind (eff_bind m f) g = eff_bind m (\<lambda>x. eff_bind (f x) g)"
  by (rule ext) (simp add: eff_bind_run split: prod.split sum.split)

lemma eff_bind_return: "eff_bind (eff_return x) f = f x"
  by (rule ext) (simp add: eff_bind_run eff_run)

lemma apply_item_steps:
  "apply_item we cv succeeded item =
     (if ci_id item \<in> set succeeded then eff_return ItemSkipped
      else eff_bind (item_operation we cv item) (\<lambda>op. case op of
          None \<Rightarrow> eff_return ItemSucceeded
        | Some op \<Rightarrow> eff_bind (item_workflow item (we_rt we) op) (\<lambda>result. eff_return (outcome_of result))))"
  by (cases "ci_changes item")
    (simp_all add: apply_item_def run_item_def item_operation_def item_workflow_def eff_bind_assoc eff_bind_return
      split: delete_mode.split)

lemma apply_item_run: "apply_item we cv succeeded item s = (r, t) \<longleftrightarrow> item_run we cv succeeded item s r t"
proof
  show "item_run we cv succeeded item s r t" if "apply_item we cv succeeded item s = (r, t)"
    using that unfolding apply_item_steps
    by (auto simp: eff_bind_run eff_run outcome_of_def intro: item_run.intros
        split: if_splits prod.splits sum.splits option.splits workflow_result.splits)
  show "apply_item we cv succeeded item s = (r, t)" if "item_run we cv succeeded item s r t"
    using that by cases (simp_all add: apply_item_steps eff_bind_run eff_run outcome_of_def)
qed

section \<open>Levels\<close>

lemma settled_run:
  "each_item (item_run we cv succeeded) items s results t \<longleftrightarrow>
     eff_map (\<lambda>item. eff_settle (apply_item we cv succeeded item)) items s = (Inr results, t)"
proof (induction items arbitrary: s results)
  case Nil
  then show ?case by (auto simp: eff_run)
next
  case (Cons item items)
  obtain r s1 where r: "apply_item we cv succeeded item s = (r, s1)" by (cases "apply_item we cv succeeded item s")
  have "item_run we cv succeeded item s q u \<longleftrightarrow> q = r \<and> u = s1" for q u
    using r by (auto simp flip: apply_item_run)
  then show ?case
    by (auto simp: Cons.IH eff_simps eff_settle_def r split: prod.splits sum.splits)
qed

lemma settled_exists: "\<exists>results t. each_item (item_run we cv succeeded) items s results t"
proof (induction items arbitrary: s)
  case (Cons item items)
  obtain r s1 where "apply_item we cv succeeded item s = (r, s1)" by (cases "apply_item we cv succeeded item s")
  with Cons.IH [of s1] show ?case by (auto simp flip: apply_item_run)
qed (auto intro: each_item.none)

lemma level_result:
  assumes "each_item (item_run we cv succeeded) level s results t"
  shows "apply_level we cv succeeded level s =
    ((case find isl results of Some r \<Rightarrow> Inl (projl r) | None \<Rightarrow> Inr (Inr ItemCanceled \<in> set results)), t)"
  using assms by (auto simp: apply_level_def settled_run eff_simps list_ex_iff split: option.splits)

lemma find_isl: "find isl results = None \<longleftrightarrow> (\<forall>r \<in> set results. \<not> isl r)"
  by (auto simp: find_None_iff)

lemma earlier_levels:
  assumes "each_item (item_run we cv succeeded) (concat us) s outs t"
    and "\<forall>r \<in> set outs. r = Inr ItemSkipped \<or> r = Inr ItemSucceeded"
  shows "apply_levels we cv succeeded (map Some us @ levels) s = apply_levels we cv succeeded levels t"
  using assms
proof (induction us arbitrary: s outs)
  case Nil
  then show ?case by simp
next
  case (Cons u us)
  then obtain qs s1 ps where r: "outs = qs @ ps" "each_item (item_run we cv succeeded) u s qs s1"
      "each_item (item_run we cv succeeded) (concat us) s1 ps t"
    by (auto simp: each_item_append)
  from Cons.prems(2) r(1) have ok: "\<forall>r \<in> set qs. r = Inr ItemSkipped \<or> r = Inr ItemSucceeded" by simp
  then have "find isl qs = None" unfolding find_isl by auto
  have "apply_level we cv succeeded u s = (Inr False, s1)"
    using level_result [OF r(2)] \<open>find isl qs = None\<close> ok by auto
  with Cons.IH [OF r(3)] Cons.prems(2) r(1) show ?case by (simp add: eff_bind_run)
qed

section \<open>How a run ends\<close>

lemma set_change_set_Inr:
  assumes "set_change_set we cv f s = (Inr v, t)" "\<And>now c. cs_status (f now c) = st"
  shows "cs_status (cv_change_set v) = st \<and> cv_change_set v \<in> set (db_change_sets t) \<and> cv_items v = cv_items cv"
proof -
  let ?k = "cs_id (cv_change_set cv)"
  from assms(1) obtain updated s1 where
    u: "we_now we (\<lambda>now. update_change_set ?k None now (f now)) s = (Inr updated, s1)"
    and rest: "(case updated of None \<Rightarrow> eff_throw (PlainError (''changeset not found: '' @ ?k))
       | Some row \<Rightarrow> eff_bind (notify_change_set row) (\<lambda>_. eff_return (cv\<lparr> cv_change_set := row \<rparr>))) s1 = (Inr v, t)"
    unfolding set_change_set_def by (rule eff_bind_InrE)
  from rest obtain row where row: "updated = Some row" "v = cv\<lparr> cv_change_set := row \<rparr>"
    "db_change_sets t = db_change_sets s1"
    by (auto simp: eff_bind_run eff_run notify_change_set_def pg_notify_def split: option.splits)
  let ?p = "\<lambda>c. cs_id c = ?k" and ?g = "\<lambda>c. (f (rt_clock (we_rt we) s) c)\<lparr> cs_updated_at := rt_clock (we_rt we) s \<rparr>"
  from u row(1) have "first_row (returning ?p ?g (db_change_sets s)) = Some row"
    and s1: "db_change_sets s1 = update_where ?p ?g (db_change_sets s)"
    by (auto simp: we_now_def with_now_def update_change_set_def Let_def split: if_splits)
  from first_row_returning_Some [OF this(1)] obtain c where
    c: "c \<in> set (db_change_sets s)" "?p c" "row = ?g c" by blast
  have "row \<in> set (db_change_sets t)"
    unfolding row(3) s1 using update_where_mem [OF c(1), of ?p ?g] c(2,3) by simp
  moreover have "cs_status row = st" unfolding c(3) using assms(2) by simp
  ultimately show ?thesis by (simp add: row(2))
qed

lemmas end_defs = close_change_set_def cancel_change_set_def reopen_change_set_def

section \<open>What an item leaves\<close>

text \<open>Fresh ids: no row has them yet.\<close>

definition fresh_ids :: "workflow_env \<Rightarrow> bool" where
  "fresh_ids we \<longleftrightarrow> (\<forall>s. case we_ids we s of (resource_id, op_id, _) \<Rightarrow>
     resource_id \<notin> r_id ` set (db_resources s) \<and> op_id \<notin> o_id ` set (db_operations s))"

definition starts :: "change_set_item \<Rightarrow> operation svc \<Rightarrow> bool" where
  "starts item m \<longleftrightarrow>
     eff_spec db_ok m (\<lambda>op s. owns op s \<and> o_item_id op = Some (ci_id item)) (\<lambda>_. db_ok)"

lemma starts_bind: "eff_keeps db_ok m \<Longrightarrow> (\<And>x. starts item (f x)) \<Longrightarrow> starts item (eff_bind m f)"
  unfolding starts_def eff_keeps_def
  by (rule spec_bind [where R = "\<lambda>_. db_ok"]) (auto simp: eff_spec_def split: prod.splits sum.splits)

lemma starts_throw: "starts item (eff_throw e)"
  by (simp add: starts_def spec_throw)

lemma owns_new:
  assumes "db_ok s" "op \<in> set (db_operations s)" "references_row r_id (db_resources s) (o_resource_id op)"
  shows "owns op s"
  using assms by (auto simp: owns_def references_row_def row_fixed_def truthy_Some_iff split: option.splits)

lemma create_operation_owns:
  assumes "db_ok s" "k \<notin> o_id ` set (db_operations s)" "create_operation k now p s = (Inr op, t)"
  shows "owns op t \<and> o_item_id op = cp_item_id p"
proof -
  have "op \<in> set (db_operations t)" "references_row r_id (db_resources t) (o_resource_id op)"
    "o_item_id op = cp_item_id p"
    using assms(3) by (auto simp: create_operation_def insert_operation_def notify_operation_def pg_notify_def
        new_operation_def eff_simps split: if_splits)
  moreover have "db_ok t" using create_operation_ok [OF assms(1,2), of now p] assms(3) by simp
  ultimately show ?thesis by (simp add: owns_new)
qed

lemma create_resource_owns:
  assumes "db_ok s" "rid \<notin> r_id ` set (db_resources s)" "k \<notin> o_id ` set (db_operations s)"
    and "create_resource_with_operation rid k lid now p s = (Inr (r, op), t)"
  shows "owns op t \<and> o_item_id op = rp_item_id p"
proof -
  have "op \<in> set (db_operations t)" "references_row r_id (db_resources t) (o_resource_id op)"
    "o_item_id op = rp_item_id p"
    using assms(4) by (auto simp: create_resource_with_operation_def insert_resource_def insert_layout_def
        insert_operation_def notify_operation_def notify_resource_def pg_notify_def new_resource_operation_def
        new_operation_def eff_simps split: if_splits option.splits prod.splits sum.splits)
  moreover have "db_ok t" using create_resource_ok [OF assms(1-3), of lid now p] assms(4) by simp
  ultimately show ?thesis by (simp add: owns_new)
qed

lemma target_starts:
  assumes "fresh_ids we"
  shows "starts item (create_target_operation we cv item kind request r)"
  unfolding starts_def
proof (rule specI)
  fix s assume s: "db_ok s"
  obtain rid k lid where ids: "we_ids we s = (rid, k, lid)" by (cases "we_ids we s") auto
  with assms have fresh: "k \<notin> o_id ` set (db_operations s)" unfolding fresh_ids_def by (metis (no_types, lifting) case_prod_conv)
  note run = create_target_operation_def with_ids_def ids we_now_def with_now_def
  show "owns op t \<and> o_item_id op = Some (ci_id item)" if "create_target_operation we cv item kind request r s = (Inr op, t)" for op t
    using create_operation_owns [OF s fresh] that by (simp add: run)
  show "db_ok t" if "create_target_operation we cv item kind request r s = (Inl e, t)" for e t
    using create_operation_ok [OF s fresh] that by (simp add: run) (metis snd_conv)
qed

lemma resource_starts:
  assumes "fresh_ids we" "\<And>rid. rp_item_id (p rid) = Some (ci_id item)"
  shows "starts item (eff_bind (with_ids we (\<lambda>(rid, k, lid). we_now we (\<lambda>now.
      create_resource_with_operation rid k lid now (p rid)))) (\<lambda>(resource, op). eff_return op))"
  unfolding starts_def
proof (rule specI)
  fix s assume s: "db_ok s"
  obtain rid k lid where ids: "we_ids we s = (rid, k, lid)" by (cases "we_ids we s") auto
  with assms(1) have fresh: "rid \<notin> r_id ` set (db_resources s)" "k \<notin> o_id ` set (db_operations s)"
    unfolding fresh_ids_def by (metis (no_types, lifting) case_prod_conv)+
  let ?m = "eff_bind (with_ids we (\<lambda>(rid, k, lid). we_now we (\<lambda>now.
      create_resource_with_operation rid k lid now (p rid)))) (\<lambda>(resource, op). eff_return op)"
  have run: "?m s = (case create_resource_with_operation rid k lid (rt_clock (we_rt we) s) (p rid) s of
      (Inl e, t) \<Rightarrow> (Inl e, t) | (Inr (resource, op), t) \<Rightarrow> (Inr op, t))"
    by (auto simp: with_ids_def ids we_now_def with_now_def eff_bind_run eff_run split: prod.split sum.split)
  show "owns op t \<and> o_item_id op = Some (ci_id item)" if "?m s = (Inr op, t)" for op t
    using create_resource_owns [OF s fresh] that assms(2) unfolding run
    by (fastforce split: prod.splits sum.splits)
  show "db_ok t" if "?m s = (Inl e, t)" for e t
    using create_resource_ok [OF s fresh, of lid "rt_clock (we_rt we) s" "p rid"] that unfolding run
    by (auto split: prod.splits sum.splits)
qed

lemma target_reads_keep:
  "eff_keeps db_ok (get_integration_by_id project_id k)" "eff_keeps db_ok (find_apply_target_resource cv item)"
  "eff_keeps db_ok (get_apply_target_resource cv item)"
proof -
  show "eff_keeps db_ok (get_integration_by_id project_id k)"
    by (simp add: eff_keeps_def get_integration_by_id_def eff_simps split: option.split)
  show find: "eff_keeps db_ok (find_apply_target_resource cv item)"
    unfolding find_apply_target_resource_def get_resource_by_change_set_item_def
    by (auto intro!: eff_keeps_intros split: option.split)
  show "eff_keeps db_ok (get_apply_target_resource cv item)"
    unfolding get_apply_target_resource_def by (auto intro!: eff_keeps_intros find split: option.split)
qed

lemma operation_starts:
  assumes "fresh_ids we"
  shows "starts item (apply_create_operation we cv item c)" "starts item (apply_import_operation we cv item i)"
    "starts item (apply_update_operation we cv item inputs)" "starts item (apply_delete_operation we cv item)"
proof -
  show "starts item (apply_create_operation we cv item c)"
    unfolding apply_create_operation_def Let_def
    by (intro starts_bind resource_starts assms) (auto intro!: eff_keeps_intros target_reads_keep split: option.split)
  show "starts item (apply_import_operation we cv item i)"
    unfolding apply_import_operation_def
    by (cases "truthy (ci_integration_id item)")
      (auto intro!: starts_throw starts_bind [OF target_reads_keep(1)] resource_starts assms)
  show "starts item (apply_update_operation we cv item inputs)" "starts item (apply_delete_operation we cv item)"
    unfolding apply_update_operation_def apply_delete_operation_def
    by (intro starts_bind target_reads_keep target_starts assms)+
qed

text \<open>The one operation with an id has this status.\<close>

definition has_status :: "string \<Rightarrow> operation_status \<Rightarrow> db \<Rightarrow> bool" where
  "has_status k st s \<longleftrightarrow> (\<exists>a \<in> set (db_operations s). o_id a = k) \<and> row_in k {st} s"

text \<open>What the outcome of an item says of the state it left: a success is an operation of the item that
  succeeded, or a \<open>forget\<close> that found no resource, and a cancelation an operation of the item that was
  canceled.\<close>

definition item_ended ::
  "workflow_env \<Rightarrow> change_set_view \<Rightarrow> string list \<Rightarrow> change_set_item \<Rightarrow> db \<Rightarrow> item_outcome \<Rightarrow> db \<Rightarrow> bool" where
  "item_ended we cv succeeded item s outcome t \<longleftrightarrow>
     (if ci_id item \<in> set succeeded then outcome = ItemSkipped \<and> t = s
      else \<exists>op s1. item_operation we cv item s = (Inr op, s1) \<and>
        (case op of
           None \<Rightarrow> outcome = ItemSucceeded \<and> ci_changes item = DeleteResource ModeForget \<and>
             find_apply_target_resource cv item s = (Inr None, t)
         | Some op \<Rightarrow> o_item_id op = Some (ci_id item) \<and>
             (outcome = ItemSucceeded \<and> has_status (o_id op) Succeeded t \<or>
              outcome = ItemCanceled \<and> has_status (o_id op) Canceled t)))"

lemma item_operation_starts:
  assumes "fresh_ids we" "db_ok s" "item_operation we cv item s = (r, t)"
  shows "db_ok t \<and> (\<forall>op. r = Inr (Some op) \<longrightarrow> owns op t \<and> o_item_id op = Some (ci_id item)) \<and>
    (r = Inr None \<longrightarrow> ci_changes item = DeleteResource ModeForget \<and>
       find_apply_target_resource cv item s = (Inr None, t))"
proof -
  have some: "db_ok t \<and> (\<forall>op. r = Inr (Some op) \<longrightarrow> owns op t \<and> o_item_id op = Some (ci_id item)) \<and> r \<noteq> Inr None"
    if m: "starts item m" "db_ok s" "eff_bind m (\<lambda>op. eff_return (Some op)) s = (r, t)" for m s
  proof (cases "m s")
    case (Pair q u)
    show ?thesis
    proof (cases q)
      case (Inl e)
      with Pair m(3) spec_InlD [OF m(1) [unfolded starts_def] m(2)] show ?thesis by (auto simp: eff_bind_run)
    next
      case (Inr op)
      with Pair m(3) spec_InrD [OF m(1) [unfolded starts_def] m(2)] show ?thesis
        by (auto simp: eff_bind_run eff_run owns_def)
    qed
  qed
  show ?thesis
  proof (cases "ci_changes item = DeleteResource ModeForget")
    case False
    have "\<exists>m. item_operation we cv item = eff_bind m (\<lambda>op. eff_return (Some op)) \<and> starts item m"
    proof (cases "ci_changes item")
      case (DeleteResource mode)
      with False have "mode = ModeDelete" by (cases mode) simp_all
      with DeleteResource show ?thesis
        by (intro exI [of _ "apply_delete_operation we cv item"]) (simp add: item_operation_def operation_starts(4) [OF assms(1)])
    next
      case (CreateResource c)
      then show ?thesis
        by (intro exI [of _ "apply_create_operation we cv item c"]) (simp add: item_operation_def operation_starts(1) [OF assms(1)])
    next
      case (ImportResource c)
      then show ?thesis
        by (intro exI [of _ "apply_import_operation we cv item c"]) (simp add: item_operation_def operation_starts(2) [OF assms(1)])
    next
      case (UpdateResource inputs)
      then show ?thesis
        by (intro exI [of _ "apply_update_operation we cv item inputs"]) (simp add: item_operation_def operation_starts(3) [OF assms(1)])
    qed
    with some assms(2,3) show ?thesis by metis
  next
    case True
    with assms(3) have run: "apply_forget_operation we cv item s = (r, t)" by (simp add: item_operation_def)
    obtain found s1 where find: "find_apply_target_resource cv item s = (found, s1)"
      by (cases "find_apply_target_resource cv item s") auto
    have s1: "db_ok s1" using eff_keepsD [OF target_reads_keep(2) assms(2) find] .
    show ?thesis
    proof (cases "\<exists>row. found = Inr (Some row)")
      case False
      with run find s1 True show ?thesis
        by (cases found) (auto simp: apply_forget_operation_def eff_simps split: option.splits)
    next
      case True
      with run find have "\<exists>row. eff_bind (create_target_operation we cv item OpDelete (delete_request row ''forget'') row)
          (\<lambda>op. eff_return (Some op)) s1 = (r, t)"
        by (auto simp: apply_forget_operation_def eff_bind_run)
      with some [OF target_starts [OF assms(1)] s1] show ?thesis by blast
    qed
  qed
qed

lemma item_workflow_ends:
  assumes "runtime_ok rt"
  shows "eff_spec (owns op) (item_workflow item rt op) (ended op) (\<lambda>_. closed_row op)"
  using workflow_ends [OF assms] by (auto simp: item_workflow_def split: item_changes.split delete_mode.split)

lemma run_ended:
  assumes "item_run we cv succeeded item s r t" "runtime_ok (we_rt we)" "fresh_ids we" "db_ok s"
  shows "db_ok t \<and> (\<forall>out. r = Inr out \<longrightarrow> item_ended we cv succeeded item s out t)"
proof -
  have started: "owns op s1 \<and> o_item_id op = Some (ci_id item)" if "item_operation we cv item s = (Inr (Some op), s1)" for op s1
    using item_operation_starts [OF assms(3,4) that] by simp
  have result: "ended op v t \<and> db_ok t" if "item_operation we cv item s = (Inr (Some op), s1)"
    "item_workflow item (we_rt we) op s1 = (Inr v, t)" for op s1 v
    using spec_InrD [OF item_workflow_ends [OF assms(2)] _ that(2)] started [OF that(1)]
    by (simp add: ended_def owns_def)
  have closed: "db_ok t" if "item_operation we cv item s = (Inr (Some op), s1)"
    "item_workflow item (we_rt we) op s1 = (Inl e, t)" for op s1 e
    using spec_InlD [OF item_workflow_ends [OF assms(2)] _ that(2)] started [OF that(1)]
    by (simp add: closed_row_def owns_def)
  have status: "ended op v t \<Longrightarrow> has_status (o_id op) (case v of Ran x \<Rightarrow> Succeeded | WorkflowCanceled \<Rightarrow> Canceled) t" for op v
    by (auto simp: has_status_def ended_def dest: owns_row)
  from assms(1) show ?thesis
  proof cases
    case skipped
    with assms(4) show ?thesis by (simp add: item_ended_def)
  next
    case (refused e)
    with item_operation_starts [OF assms(3,4)] show ?thesis by simp
  next
    case gone
    with item_operation_starts [OF assms(3,4) gone(3)] show ?thesis by (simp add: item_ended_def)
  next
    case (ran op s1 v)
    with result [OF ran(3,4)] started [OF ran(3)] status [of op "Ran v"] show ?thesis by (simp add: item_ended_def)
  next
    case (canceled op s1)
    with result [OF canceled(3,4)] started [OF canceled(3)] status [of op WorkflowCanceled] show ?thesis
      by (simp add: item_ended_def)
  next
    case (failed op s1 e)
    with closed [OF failed(3,4)] show ?thesis by simp
  qed
qed

lemma level_ended:
  assumes "each_item (item_run we cv succeeded) items s results t" "runtime_ok (we_rt we)" "fresh_ids we" "db_ok s"
  shows "db_ok t \<and> (find isl results = None \<longrightarrow>
    each_item (item_ended we cv succeeded) items s (map projr results) t)"
  using assms(1,4)
proof (induction rule: each_item.induct)
  case (none s)
  then show ?case by simp
next
  case (another item s r s1 items rs t)
  note r = run_ended [OF another.hyps(1) assms(2,3) another.prems]
  with another.IH show ?case by (cases r) auto
qed

lemma levels_end:
  assumes "apply_levels we cv succeeded levels s = (Inr v, t)" "runtime_ok (we_rt we)" "fresh_ids we" "db_ok s"
  shows "\<exists>items outs u. each_item (item_ended we cv succeeded) (concat items) s outs u \<and>
    (levels = map Some items \<and> ItemCanceled \<notin> set outs \<and> close_change_set we cv u = (Inr v, t) \<or>
     (\<exists>later. levels = map Some items @ later) \<and> ItemCanceled \<in> set outs \<and> cancel_change_set we cv u = (Inr v, t))"
  using assms(1,4)
proof (induction levels arbitrary: s)
  case Nil
  then have "close_change_set we cv s = (Inr v, t)" by simp
  then show ?case by (intro exI [of _ "[]"] exI [of _ s]) simp
next
  case (Cons l levels)
  from Cons.prems(1) obtain level where l: "l = Some level" by (cases l) (simp_all add: eff_run)
  from settled_exists obtain results s1 where runs: "each_item (item_run we cv succeeded) level s results s1" by blast
  note ended = level_ended [OF runs assms(2,3) Cons.prems(2)]
  from Cons.prems(1) l level_result [OF runs] have none: "find isl results = None"
    and rest: "(if Inr ItemCanceled \<in> set results then cancel_change_set we cv else apply_levels we cv succeeded levels) s1 = (Inr v, t)"
    by (auto simp: eff_bind_run split: option.splits)
  with ended have outs: "each_item (item_ended we cv succeeded) level s (map projr results) s1" by simp
  have canceled: "ItemCanceled \<in> set (map projr results) \<longleftrightarrow> Inr ItemCanceled \<in> set results"
  proof -
    have "projr r = ItemCanceled \<longleftrightarrow> r = Inr ItemCanceled" if "\<not> isl r" for r :: "js_error + item_outcome"
      using that by (cases r) auto
    with none show ?thesis unfolding find_isl set_map image_iff by metis
  qed
  show ?case
  proof (cases "Inr ItemCanceled \<in> set results")
    case True
    with rest outs canceled l show ?thesis
      by (intro exI [of _ "[level]"] exI [of _ "map projr results"] exI [of _ s1]) auto
  next
    case False
    with rest have "apply_levels we cv succeeded levels s1 = (Inr v, t)" by simp
    from Cons.IH [OF this] ended obtain items outs' u where
      "each_item (item_ended we cv succeeded) (concat items) s1 outs' u"
      "levels = map Some items \<and> ItemCanceled \<notin> set outs' \<and> close_change_set we cv u = (Inr v, t) \<or>
       (\<exists>later. levels = map Some items @ later) \<and> ItemCanceled \<in> set outs' \<and> cancel_change_set we cv u = (Inr v, t)"
      by blast
    with outs l False canceled show ?thesis
      by (intro exI [of _ "level # items"] exI [of _ "map projr results @ outs'"] exI [of _ u])
        (auto simp: each_item_append)
  qed
qed

text \<open>C15: when every item of the earlier levels ran to success and a level holds an item that fails (its
  operation is refused, or its workflow throws) or is canceled, then every item of that level is run and
  the run ends there, whatever the later levels hold: the changeset is reopened and the run throws the
  error of the first failed item, or, when none failed, the changeset is canceled. (If canceling throws
  the changeset is reopened too, and if reopening throws the run throws that error.)\<close>

theorem failed_level_stops:
  assumes "each_item (item_run we cv (succeeded_items cv)) (concat us) s outs s1"
    and "\<forall>r \<in> set outs. r = Inr ItemSkipped \<or> r = Inr ItemSucceeded"
    and "each_item (item_run we cv (succeeded_items cv)) level s1 results s2"
    and "\<exists>r \<in> set results. isl r \<or> r = Inr ItemCanceled"
  shows "apply_change_set_workflow we cv (map Some us @ Some level # later) s =
    eff_catch (case find isl results of Some r \<Rightarrow> eff_throw (projl r) | None \<Rightarrow> cancel_change_set we cv)
      (\<lambda>e. eff_bind (reopen_change_set we cv) (\<lambda>_. eff_throw e)) s2"
proof -
  have "Inr ItemCanceled \<in> set results" if "find isl results = None"
    using that assms(4) unfolding find_isl by blast
  then have "apply_levels we cv (succeeded_items cv) (map Some us @ Some level # later) s =
      (case find isl results of Some r \<Rightarrow> eff_throw (projl r) | None \<Rightarrow> cancel_change_set we cv) s2"
    unfolding earlier_levels [OF assms(1,2)]
    by (simp add: eff_bind_run eff_run level_result [OF assms(3)] split: option.split)
  then show ?thesis by (simp add: apply_change_set_workflow_def eff_catch_run)
qed

text \<open>C16: when the run of an apply returns, the changeset row has the status it answers. It is \<open>applied\<close>
  when every item of every level was skipped because it had succeeded before, has an operation that
  succeeded in this run, or is a \<open>forget\<close> that found no resource; it is \<open>canceled\<close> when the items up to
  the end of some level ended like that except that an operation of one of them was canceled.\<close>

theorem applied_means_all_applied:
  assumes "apply_change_set_workflow we cv levels s = (Inr v, t)"
    and "runtime_ok (we_rt we)" "fresh_ids we" "db_ok s"
  shows "cv_change_set v \<in> set (db_change_sets t) \<and>
    (\<exists>items outs u. each_item (item_ended we cv (succeeded_items cv)) (concat items) s outs u \<and>
       (cs_status (cv_change_set v) = Applied \<and> levels = map Some items \<and> ItemCanceled \<notin> set outs \<and>
          close_change_set we cv u = (Inr v, t) \<or>
        cs_status (cv_change_set v) = ChangeSetCanceled \<and> (\<exists>later. levels = map Some items @ later) \<and>
          ItemCanceled \<in> set outs \<and> cancel_change_set we cv u = (Inr v, t)))"
proof -
  from assms(1) have "apply_levels we cv (succeeded_items cv) levels s = (Inr v, t)"
    by (auto simp: apply_change_set_workflow_def eff_catch_run eff_bind_run eff_run split: prod.splits sum.splits)
  from levels_end [OF this assms(2-4)] obtain items outs u where
    run: "each_item (item_ended we cv (succeeded_items cv)) (concat items) s outs u"
    and ends: "levels = map Some items \<and> ItemCanceled \<notin> set outs \<and> close_change_set we cv u = (Inr v, t) \<or>
     (\<exists>later. levels = map Some items @ later) \<and> ItemCanceled \<in> set outs \<and> cancel_change_set we cv u = (Inr v, t)"
    by blast
  have "close_change_set we cv u = (Inr v, t) \<Longrightarrow>
      cs_status (cv_change_set v) = Applied \<and> cv_change_set v \<in> set (db_change_sets t)"
    "cancel_change_set we cv u = (Inr v, t) \<Longrightarrow>
      cs_status (cv_change_set v) = ChangeSetCanceled \<and> cv_change_set v \<in> set (db_change_sets t)"
    using set_change_set_Inr [of we cv _ u v t Applied] set_change_set_Inr [of we cv _ u v t ChangeSetCanceled]
    by (auto simp: end_defs)
  with run ends show ?thesis by blast
qed

section \<open>Witnesses\<close>

text \<open>A changeset of project \<open>p\<close> that forgets a resource which is gone, and one more item, an import
  without an integration.\<close>

definition demo_we :: workflow_env where
  "demo_we = \<lparr> we_rt = demo_rt True, we_ids = \<lambda>_. (''r9'', ''o9'', ''l9''), we_start = \<lambda>_. eff_return () \<rparr>"

definition demo_change_set :: change_set where
  "demo_change_set =
     \<lparr> cs_id = ''c'', cs_project_id = ''p'', cs_status = Applying, cs_title = None,
       cs_actor = (UserActor, ''u''), cs_applied_at = None, cs_created_at = 1, cs_updated_at = 1 \<rparr>"

definition demo_view :: change_set_view where
  "demo_view = \<lparr> cv_change_set = demo_change_set, cv_items = [] \<rparr>"

definition forget_gone :: change_set_item where
  "forget_gone = sample_item ''f'' 1 (Some ''gone'') (DeleteResource ModeForget)"

definition import_unresolved :: change_set_item where
  "import_unresolved = sample_item ''i'' 2 (Some ''net'') (ImportResource
     \<lparr> ic_slug = ''net'', ic_type = ''t'', ic_integration_slug = None, ic_provider_id = Some ''x'',
       ic_identity = None, ic_position = None \<rparr>)"

definition applying_db :: db where
  "applying_db = empty_db\<lparr> db_change_sets := [demo_change_set] \<rparr>"

lemma failed_level_stops_witness:
  "apply_change_set_workflow demo_we demo_view [Some [forget_gone], Some [import_unresolved], Some [forget_gone]] applying_db =
    eff_bind (reopen_change_set demo_we demo_view)
      (\<lambda>_. eff_throw (InvalidInput ''import item net has no integration resolved'')) applying_db"
proof -
  let ?R = "item_run demo_we demo_view (succeeded_items demo_view)"
  have "apply_item demo_we demo_view (succeeded_items demo_view) forget_gone applying_db = (Inr ItemSucceeded, applying_db)"
    "apply_item demo_we demo_view (succeeded_items demo_view) import_unresolved applying_db =
      (Inl (InvalidInput ''import item net has no integration resolved''), applying_db)" by code_simp+
  from this [unfolded apply_item_run]
  have runs: "each_item ?R (concat [[forget_gone]]) applying_db [Inr ItemSucceeded] applying_db"
    "each_item ?R [import_unresolved] applying_db
      [Inl (InvalidInput ''import item net has no integration resolved'')] applying_db" by auto
  have "apply_change_set_workflow demo_we demo_view (map Some [[forget_gone]] @ Some [import_unresolved] # [Some [forget_gone]]) applying_db =
    eff_catch (case find isl [Inl (InvalidInput ''import item net has no integration resolved'')] of
        Some r \<Rightarrow> eff_throw (projl r) | None \<Rightarrow> cancel_change_set demo_we demo_view)
      (\<lambda>e. eff_bind (reopen_change_set demo_we demo_view) (\<lambda>_. eff_throw e)) applying_db"
    using failed_level_stops [OF runs(1) _ runs(2), of "[Some [forget_gone]]"] by simp
  then show ?thesis by (simp add: eff_catch_run eff_run)
qed

text \<open>An environment whose ids are longer than every id of the tables, and a changeset with an item that
  creates a block without a type.\<close>

definition long_id :: "db \<Rightarrow> string" where
  "long_id s = replicate (Suc (sum_list (map (length \<circ> r_id) (db_resources s)) +
     sum_list (map (length \<circ> o_id) (db_operations s)))) CHR ''x''"

definition fresh_we :: workflow_env where
  "fresh_we = demo_we\<lparr> we_ids := \<lambda>s. (long_id s, long_id s, long_id s) \<rparr>"

lemma fresh_we_ok: "fresh_ids fresh_we"
proof -
  have "length (r_id r) < length (long_id s)" if "r \<in> set (db_resources s)" for r s
    using member_le_sum_list [of "length (r_id r)" "map (length \<circ> r_id) (db_resources s)"] that
    by (force simp: long_id_def)
  moreover have "length (o_id a) < length (long_id s)" if "a \<in> set (db_operations s)" for a s
    using member_le_sum_list [of "length (o_id a)" "map (length \<circ> o_id) (db_operations s)"] that
    by (force simp: long_id_def)
  ultimately show ?thesis by (fastforce simp: fresh_ids_def fresh_we_def)
qed

definition add_block :: change_set_item where
  "add_block = sample_item ''b'' 2 (Some ''block'') (CreateResource
     \<lparr> cc_slug = ''block'', cc_type = None, cc_integration_slug = None, cc_display_name = None,
       cc_inputs = JUndef, cc_position = None \<rparr>)"

definition staged_db :: db where
  "staged_db = applying_db\<lparr> db_items := [forget_gone, add_block] \<rparr>"

lemma applied_means_all_applied_witness:
  "\<exists>v t outs u. apply_change_set_workflow fresh_we demo_view [Some [forget_gone], Some [add_block]] staged_db = (Inr v, t) \<and>
    cs_status (cv_change_set v) = Applied \<and>
    each_item (item_ended fresh_we demo_view []) [forget_gone, add_block] staged_db outs u \<and> ItemCanceled \<notin> set outs"
proof -
  let ?w = "apply_change_set_workflow fresh_we demo_view [Some [forget_gone], Some [add_block]] staged_db"
  have "case fst ?w of Inr v \<Rightarrow> cs_status (cv_change_set v) = Applied | _ \<Rightarrow> False" "db_ok staged_db" by code_simp+
  then obtain v where v: "?w = (Inr v, snd ?w)" "cs_status (cv_change_set v) = Applied"
    by (cases ?w) (auto split: sum.splits)
  have "runtime_ok (we_rt fresh_we)" by (simp add: fresh_we_def demo_we_def demo_rt_ok)
  note ends = applied_means_all_applied [OF v(1) this fresh_we_ok \<open>db_ok staged_db\<close>]
  have "cs_status (cv_change_set v) \<noteq> ChangeSetCanceled" using v(2) by simp
  with ends obtain items outs u where
    run: "each_item (item_ended fresh_we demo_view (succeeded_items demo_view)) (concat items) staged_db outs u"
    and levels: "[Some [forget_gone], Some [add_block]] = map Some items" "ItemCanceled \<notin> set outs"
    by (elim conjE exE disjE) (rule that, assumption+, erule notE, assumption)
  from levels(1) have "concat items = [forget_gone, add_block]" by (auto dest!: map_eq_Cons_D)
  moreover have "succeeded_items demo_view = []" by (simp add: succeeded_items_def demo_view_def)
  ultimately have "each_item (item_ended fresh_we demo_view []) [forget_gone, add_block] staged_db outs u"
    using run by (simp only:)
  with v levels(2) show ?thesis by blast
qed

end
