(* ===== verification/DryRunProps.thy ===== *)
theory DryRunProps
  imports DryRuns ApplyProps
begin

text \<open>
  What the dry-run workflows guarantee: the runs that start one another come to an end when the items
  do not depend on each other in a circle, and need not otherwise.
\<close>

section \<open>What planning does to the database\<close>

text \<open>The calls of the runtime that planning makes move the database along an order.\<close>

definition planning_moves :: "(db \<Rightarrow> db \<Rightarrow> bool) \<Rightarrow> runtime \<Rightarrow> bool" where
  "planning_moves R rt \<longleftrightarrow>
     (\<forall>ref ty. eff_moves R (rt_schema rt ref ty)) \<and>
     (\<forall>ty st ref pin. eff_moves R (rt_read rt ty st ref pin)) \<and>
     (\<forall>ty a b c ref pin. eff_moves R (rt_plan rt ty a b c ref pin)) \<and>
     (\<forall>ty h ref pin. eff_moves R (rt_import rt ty h ref pin))"

locale db_order = state_order R for R :: "db \<Rightarrow> db \<Rightarrow> bool"
begin

lemma runtime_calls:
  assumes "planning_moves R rt"
  shows "eff_moves R (rt_schema rt ref ty)" "eff_moves R (rt_read rt ty st ref pin)"
    "eff_moves R (rt_plan rt ty a b c ref pin)" "eff_moves R (rt_import rt ty h ref pin)"
  using assms by (simp_all add: planning_moves_def)

lemma integration_moves: "eff_moves R (get_integration_by_id p k)"
  by (auto simp: eff_moves_def get_integration_by_id_def R_refl split: option.split)

lemma dispatch_on_moves:
  "(\<And>ref. eff_moves R (call ref (to_provider_integration i))) \<Longrightarrow> eff_moves R (dispatch_on rt i call)"
  unfolding dispatch_on_def by (intro moves_bind moves_basic)

lemma plan_resource_moves:
  assumes "planning_moves R rt"
  shows "eff_moves R (plan_resource rt i ty identity config kind)"
  unfolding plan_resource_def Let_def
  by (intro moves_bind moves_basic moves_cases dispatch_on_moves runtime_calls [OF assms])

lemma read_import_moves:
  assumes "planning_moves R rt"
  shows "eff_moves R (read_import_state rt i ty identity k)"
  unfolding read_import_state_def
  by (intro moves_bind moves_basic moves_cases moves_catch runtime_calls [OF assms])

lemma plan_target_moves:
  assumes "\<And>i r. eff_moves R (f i r)"
  shows "eff_moves R (plan_target_item rt item p f)"
  unfolding plan_target_item_def get_resource_by_change_set_item_def
  by (intro moves_bind moves_basic moves_cases integration_moves assms)

lemma plan_moves:
  assumes "planning_moves R rt"
  shows "eff_moves R (plan_resource_dry_run rt item p inputs)"
proof -
  have "eff_moves R (plan_import_item rt item p c)" for c
    unfolding plan_import_item_def
    by (intro moves_bind moves_basic moves_cases moves_catch integration_moves read_import_moves [OF assms])
      (auto split: js_error.split intro: moves_basic)
  moreover have "eff_moves R (plan_create_item rt item p c inputs)" for c
    unfolding plan_create_item_def
    by (intro moves_bind moves_basic moves_cases integration_moves plan_resource_moves [OF assms])
  moreover have "eff_moves R (plan_target_item rt item p (\<lambda>i r.
      eff_bind (plan_resource rt i (r_type r) (r_identity r) None MutDelete) (\<lambda>plan. eff_return (planned_as DeleteKind plan))))"
    "eff_moves R (plan_target_item rt item p (\<lambda>i r.
      eff_bind (eff_lift (parse_nullable_record inputs)) (\<lambda>config.
      eff_bind (plan_resource rt i (r_type r) (r_identity r) config MutUpdate)
        (\<lambda>plan. eff_return (planned_as UpdateKind plan)))))"
    by (intro plan_target_moves moves_bind moves_basic plan_resource_moves [OF assms])+
  ultimately have "eff_moves R (plan_item rt item p inputs)"
    unfolding plan_item_def by (auto split: item_changes.split delete_mode.split intro: moves_basic)
  then show ?thesis
    unfolding plan_resource_dry_run_def by (intro moves_catch) (auto intro: moves_basic moves_cases)
qed

lemma inputs_moves: "eff_moves R (get_change_set_dry_run_inputs item p)"
  unfolding get_change_set_dry_run_inputs_def get_change_set_dry_runs_by_slug_def
    get_reference_targets_by_slug_def Let_def
  by (intro moves_bind moves_basic moves_cases)

end

section \<open>The queue of runs\<close>

text \<open>The start of a run queues it; the queue is what the log of started runs holds.\<close>

fun log_start :: "run_request \<Rightarrow> unit svc" where
  "log_start (RunDryRun k p observed) = log_run (RunStarted k p observed)"
| "log_start (RunRefresh k p) = eff_return ()"
| "log_start (RunApply view levels) = eff_return ()"

text \<open>Any queued run may be the next one; it leaves the queue and may start others.\<close>

inductive dry_run_step :: "workflow_env \<Rightarrow> db \<Rightarrow> db \<Rightarrow> bool" for we where
  run: "db_runs s = us @ RunStarted k p observed # vs \<Longrightarrow>
    dry_run_step we s (snd (dry_run_change_workflow we k p observed (s\<lparr> db_runs := us @ vs \<rparr>)))"

inductive_cases dry_run_stepE: "dry_run_step we s t"

text \<open>\<open>(b, a)\<close>: a run of item \<open>a\<close> may start one of item \<open>b\<close>, which depends on the slug of \<open>a\<close>.\<close>

definition rerun_edges :: "change_set_item list \<Rightarrow> (string \<times> string) set" where
  "rerun_edges items =
     {(ci_id i, ci_id j) |i j. i \<in> set items \<and> j \<in> set items \<and> ci_id i \<noteq> ci_id j \<and>
        ci_change_set_id i = ci_change_set_id j \<and>
        (\<exists>slug. truthy (change_set_item_slug j) = Some slug \<and> slug \<in> set (ci_depends_on i))}"

lemma finite_rerun_edges: "finite (rerun_edges items)"
proof (rule finite_subset)
  show "rerun_edges items \<subseteq> ci_id ` set items \<times> ci_id ` set items" by (auto simp: rerun_edges_def)
qed simp

text \<open>From one state to another the items stay and the queue grows by runs that item \<open>k\<close> may start.\<close>

definition queue_le :: "change_set_item list \<Rightarrow> string \<Rightarrow> db \<Rightarrow> db \<Rightarrow> bool" where
  "queue_le items k s t \<longleftrightarrow> (db_items s = items \<longrightarrow> db_items t = items \<and>
     (\<exists>es. db_runs t = db_runs s @ es \<and>
       (\<forall>e \<in> set es. \<exists>b p observed. e = RunStarted b p observed \<and> (b, k) \<in> rerun_edges items)))"

lemma queue_le_trans: "queue_le items k s t \<Longrightarrow> queue_le items k t u \<Longrightarrow> queue_le items k s u"
  unfolding queue_le_def by (metis Un_iff append.assoc set_append)

lemma queue_le_same: "db_items t = db_items s \<Longrightarrow> db_runs t = db_runs s \<Longrightarrow> queue_le items k s t"
  by (simp add: queue_le_def)

interpretation queue: db_order "queue_le items k" for items k
  by unfold_locales (auto intro: queue_le_same queue_le_trans)

lemma write_dry_run_queue: "eff_moves (queue_le items k) (write_dry_run j observed now p)"
  by (auto simp: eff_moves_def write_dry_run_def eff_run intro: queue_le_same)

lemma we_now_moves: "(\<And>now. eff_moves R (f now)) \<Longrightarrow> eff_moves R (we_now we f)"
  by (simp add: we_now_def with_now_def eff_moves_def)

lemmas dry_run_writes =
  update_dry_run_deferred_def update_dry_run_def mark_dry_run_failed_def

lemma dry_run_writes_queue:
  "eff_moves (queue_le items k) (update_dry_run_deferred we j observed)"
  "eff_moves (queue_le items k) (update_dry_run we j p observed)"
  "eff_moves (queue_le items k) (mark_dry_run_failed we j observed msg)"
  unfolding dry_run_writes by (intro we_now_moves write_dry_run_queue)+

lemma start_dependents_queue:
  assumes "we_start we = log_start" "item \<in> set items" "ci_id item = k"
    "truthy (change_set_item_slug item) = Some slug"
  shows "eff_moves (queue_le items k)
    (start_dependent_dry_runs we p (ci_change_set_id item) slug (ci_id item))"
  unfolding eff_moves_def assms(3)
proof
  fix s
  let ?dep = "depends_on_slug (ci_change_set_id item) slug k s"
  let ?f = "\<lambda>d. pending_dry_run (dr_item_id d) (rt_clock (we_rt we) s)"
  let ?t = "s\<lparr> db_dry_runs := update_where ?dep ?f (db_dry_runs s) \<rparr>"
  let ?rows = "returning ?dep ?f (db_dry_runs s)"
  have run: "start_dependent_dry_runs we p (ci_change_set_id item) slug k s =
      eff_for (start_dry_run we p) ?rows ?t"
    by (simp add: start_dependent_dry_runs_def we_now_def with_now_def reset_dependents_def eff_bind_run Let_def)
  have for': "eff_for (start_dry_run we p) rows t =
      (Inr (), t\<lparr> db_runs := db_runs t @ map (\<lambda>d. RunStarted (dr_item_id d) p (dr_updated_at d)) rows \<rparr>)" for rows t
    by (induction rows arbitrary: t) (simp_all add: start_dry_run_def assms(1) log_run_def eff_simps)
  have edge: "(dr_item_id d, k) \<in> rerun_edges (db_items s)" if "db_items s = items" "?dep d" for d
    using that assms(2-4) by (auto simp: depends_on_slug_def list_ex_iff rerun_edges_def) metis
  have "d \<in> set ?rows \<Longrightarrow> \<exists>d0. ?dep d0 \<and> dr_item_id d = dr_item_id d0" for d
    by (auto simp: returning_def pending_dry_run_def)
  then show "queue_le items k s (snd (start_dependent_dry_runs we p (ci_change_set_id item) slug k s))"
    unfolding run for' queue_le_def using edge by fastforce
qed

lemma dry_run_queue:
  assumes "planning_moves (queue_le items k) (we_rt we)" "we_start we = log_start"
  shows "eff_moves (queue_le items k) (dry_run_change_workflow we k p observed)"
proof -
  have body: "eff_moves (queue_le items k) (dry_run_body we k p observed)"
    unfolding eff_moves_def
  proof
    fix s
    show "queue_le items k s (snd (dry_run_body we k p observed s))"
    proof (cases "find (\<lambda>i. ci_id i = k) (db_items s)")
      case None
      then show ?thesis
        by (simp add: dry_run_body_def get_change_set_item_def eff_simps queue_le_same)
    next
      case (Some item)
      from find_Some_in [OF Some] have item: "item \<in> set (db_items s)" "ci_id item = k" by simp_all
      let ?rest = "\<lambda>slug. start_dependent_dry_runs we p (ci_change_set_id item) slug (ci_id item)"
      let ?m = "eff_bind (get_change_set_dry_run_inputs item p) (\<lambda>(inputs, deferred_on).
          if deferred_on \<noteq> [] then update_dry_run_deferred we k observed
          else eff_bind (plan_resource_dry_run (we_rt we) item p inputs) (\<lambda>pl.
            eff_bind (update_dry_run we k pl observed) (\<lambda>_.
              case truthy (change_set_item_slug item) of None \<Rightarrow> eff_return () | Some slug \<Rightarrow> ?rest slug)))"
      have "eff_moves (queue_le items k) ?m" if "db_items s = items"
        by (intro queue.moves_bind queue.moves_cases queue.moves_basic queue.inputs_moves
          queue.plan_moves [OF assms(1)] dry_run_writes_queue start_dependents_queue [OF assms(2)])
          (use item that in auto)
      moreover have "dry_run_body we k p observed s = ?m s"
        using Some by (simp add: dry_run_body_def get_change_set_item_def eff_simps)
      ultimately show ?thesis by (auto simp: eff_moves_def queue_le_def)
    qed
  qed
  show ?thesis
    unfolding dry_run_change_workflow_def
    by (intro queue.moves_catch queue.moves_bind queue.moves_basic body dry_run_writes_queue)
qed

section \<open>Termination\<close>

text \<open>The items of the queued runs, as a multiset.\<close>

fun run_item_id :: "run_event \<Rightarrow> string option" where
  "run_item_id (RunStarted k p observed) = Some k"
| "run_item_id (RunCanceled r) = None"
| "run_item_id (HookResumed token b) = None"

definition queued :: "db \<Rightarrow> string multiset" where
  "queued s = mset (List.map_filter run_item_id (db_runs s))"

lemma step_decreases:
  assumes "dry_run_step we s t" "\<And>k. planning_moves (queue_le items k) (we_rt we)" "we_start we = log_start"
    and "db_items s = items"
  shows "db_items t = items \<and> (queued t, queued s) \<in> mult (rerun_edges items)"
  using assms(1)
proof (rule dry_run_stepE)
  fix us k p observed vs
  assume t: "t = snd (dry_run_change_workflow we k p observed (s\<lparr> db_runs := us @ vs \<rparr>))"
    and s: "db_runs s = us @ RunStarted k p observed # vs"
  have "queue_le items k (s\<lparr> db_runs := us @ vs \<rparr>) t"
    using dry_run_queue [OF assms(2,3)] unfolding t eff_moves_def by blast
  then obtain es where items: "db_items t = items" and es: "db_runs t = (us @ vs) @ es"
    "\<forall>e \<in> set es. \<exists>b p observed. e = RunStarted b p observed \<and> (b, k) \<in> rerun_edges items"
    using assms(4) by (auto simp: queue_le_def)
  let ?rest = "mset (List.map_filter run_item_id (us @ vs))" and ?new = "mset (List.map_filter run_item_id es)"
  have "queued s = ?rest + {#k#}" "queued t = ?rest + ?new"
    by (simp_all add: queued_def s es(1) map_filter_def)
  moreover have "\<forall>b \<in># ?new. \<exists>a \<in># {#k#}. (b, a) \<in> rerun_edges items"
    using es(2) by (fastforce simp: map_filter_def)
  ultimately show ?thesis using items one_step_implies_mult [of "{#k#}" ?new "rerun_edges items" ?rest] by simp
qed

text \<open>C20: when no items of a changeset depend on each other in a circle, dry-runs come to an end: while
  the items are not edited, whatever queued run goes next and however the provider answers, only
  finitely many runs follow.\<close>

theorem dry_runs_terminate:
  assumes "acyclic (rerun_edges (db_items (f 0)))" "we_start we = log_start"
    and "\<And>k. planning_moves (queue_le (db_items (f 0)) k) (we_rt we)"
  shows "\<exists>n. \<not> dry_run_step we (f n) (f (Suc n))"
proof (rule ccontr)
  assume "\<not> ?thesis"
  then have step: "dry_run_step we (f n) (f (Suc n))" for n by simp
  let ?items = "db_items (f 0)"
  have items: "db_items (f n) = ?items" for n
  proof (induction n)
    case (Suc n)
    from step_decreases [OF step assms(3,2) this] show ?case by simp
  qed simp
  have "\<forall>n. (queued (f (Suc n)), queued (f n)) \<in> mult (rerun_edges ?items)"
    using step_decreases [OF step assms(3,2) items] by simp
  then have "\<exists>g. \<forall>n. (g (Suc n), g n) \<in> mult (rerun_edges ?items)"
    by (rule exI [of _ "\<lambda>n. queued (f n)"])
  moreover have "wf (mult (rerun_edges ?items))"
    by (intro wf_mult finite_acyclic_wf finite_rerun_edges assms(1))
  ultimately show False unfolding wf_iff_no_infinite_down_chain by blast
qed

section \<open>Items in a circle\<close>

text \<open>Two live resources \<open>a\<close> and \<open>b\<close>, and a draft with two updates: one lets \<open>a\<close> refer to \<open>b\<close>, the other
  lets \<open>b\<close> refer to \<open>a\<close>. Every clock reading is later than every token.\<close>

definition circle_rt :: runtime where
  "circle_rt = (demo_rt True)\<lparr>
    rt_catalog := [\<lparr> ce_name = ''aws'', ce_source = ''aws'', ce_versions = [''1''] \<rparr>],
     rt_clock := \<lambda>s. fold max (map dr_updated_at (db_dry_runs s)) 0 + 1,
     rt_read := \<lambda>_ identity _ _. eff_return (Some identity),
     rt_plan := \<lambda>_ _ _ _ _ _. eff_return
       \<lparr> pp_planned = Some [(''id'', JStr ''x'')], pp_private = None, pp_replace = [] \<rparr> \<rparr>"

definition circle_we :: workflow_env where
  "circle_we = \<lparr> we_rt = circle_rt, we_ids = \<lambda>_. (''r9'', ''o9'', ''l9''), we_start = log_start \<rparr>"

definition live_row :: "string \<Rightarrow> resource" where
  "live_row slug =
     \<lparr> r_id = ''r-'' @ slug, r_project_id = ''p'', r_slug = slug, r_type = ''aws_t'', r_inputs = Some [],
       r_identity = Some [(''id'', JStr ''x'')], r_outputs = Some [(''id'', JStr ''x'')], r_status = Live,
       r_provider = Some ''aws'', r_integration_id = Some ''k'', r_depends_on = None, r_approval_policy = None,
       r_metadata = [], r_created_by = (UserActor, ''u''), r_created_at = 1, r_updated_at = 1, r_deleted_at = None \<rparr>"

definition circle_integration :: integration where
  "circle_integration =
     \<lparr> i_id = ''k'', i_project_id = ''p'', i_provider = ''aws'', i_slug = ''aws'', i_name = None, i_is_default = True, i_provider_source = None, i_provider_version = None, 
       i_config = [], i_credentials = [], i_credential_mode = [], i_created_by = (UserActor, ''u''), i_deleted_at = None \<rparr>"

definition circle_update :: "string \<Rightarrow> string \<Rightarrow> string \<Rightarrow> change_set_item" where
  "circle_update k target ref = (sample_item k 1 (Some target) (UpdateResource [(''v'', sample_ref (ref @ ''.id''))]))
     \<lparr> ci_target_id := Some (''r-'' @ target), ci_integration_id := Some ''k'', ci_resource_type := Some ''aws_t'',
       ci_depends_on := [ref] \<rparr>"

definition planned_row :: "string \<Rightarrow> int \<Rightarrow> dry_run" where
  "planned_row k now = (pending_dry_run k now)\<lparr> dr_action := ActUpdate,
     dr_prior := Some [(''id'', JStr ''x'')], dr_planned := Some [(''id'', JStr ''x'')] \<rparr>"

text \<open>Between two runs: one update has its plan, the other is pending and its run is queued.\<close>

definition circle_state :: "bool \<Rightarrow> int \<Rightarrow> db" where
  "circle_state first n = empty_db\<lparr>
     db_integrations := [circle_integration],
     db_resources := [live_row ''a'', live_row ''b''],
     db_change_sets := db_change_sets (draft_db ActPending),
     db_items := [circle_update ''u1'' ''a'' ''b'', circle_update ''u2'' ''b'' ''a''],
     db_dry_runs := (if first then [pending_dry_run ''u1'' n, planned_row ''u2'' (n - 1)]
       else [planned_row ''u1'' (n - 1), pending_dry_run ''u2'' n]),
     db_runs := [RunStarted (if first then ''u1'' else ''u2'') ''p'' n] \<rparr>"

definition circle_key :: "bool \<Rightarrow> string" where
  "circle_key first = (if first then ''u1'' else ''u2'')"

lemma circle_fields:
  "db_items (circle_state b n) = [circle_update ''u1'' ''a'' ''b'', circle_update ''u2'' ''b'' ''a'']"
  "db_dry_runs (circle_state b n) = (if b then [pending_dry_run ''u1'' n, planned_row ''u2'' (n - 1)]
       else [planned_row ''u1'' (n - 1), pending_dry_run ''u2'' n])"
  "db_resources (circle_state b n) = [live_row ''a'', live_row ''b'']"
  "db_change_sets (circle_state b n) = db_change_sets (draft_db ActPending)"
  "db_integrations (circle_state b n) = [circle_integration]"
  "db_runs (circle_state b n) = [RunStarted (circle_key b) ''p'' n]"
  by (simp_all add: circle_state_def circle_key_def)

lemmas row_fields = circle_update_def planned_row_def pending_dry_run_def live_row_def sample_item_def

text \<open>One run in such a state: its inputs are ready, it is planned, and it starts the other.\<close>

lemma circle_refs:
  "substitute_refs (JObj [(''v'', JObj [(''$ref'', JStr ''b.id'')])]) [(''b'', TargetOk [(''id'', JStr ''x'')])] =
     Inr (JObj [(''v'', JStr ''x'')])"
  "substitute_refs (JObj [(''v'', JObj [(''$ref'', JStr ''a.id'')])]) [(''a'', TargetOk [(''id'', JStr ''x'')])] =
     Inr (JObj [(''v'', JStr ''x'')])"
  by code_simp+

definition circle_item :: "bool \<Rightarrow> change_set_item" where
  "circle_item first = (if first then circle_update ''u1'' ''a'' ''b'' else circle_update ''u2'' ''b'' ''a'')"

lemma circle_inputs:
  "get_change_set_dry_run_inputs (circle_item b) ''p'' ((circle_state b n)\<lparr> db_runs := [] \<rparr>) =
     (Inr (JObj [(''v'', JStr ''x'')], []), (circle_state b n)\<lparr> db_runs := [] \<rparr>)"
  by (cases b) (simp_all add: circle_item_def get_change_set_dry_run_inputs_def get_change_set_dry_runs_by_slug_def
    get_reference_targets_by_slug_def eff_simps circle_fields row_fields sibling_items_def add_sibling_def
    sibling_dry_run_def slug_from_changes_def Let_def dry_run_target_def item_inputs_def is_create_or_import_def
    circle_refs sample_ref_def)

lemma circle_ref:
  "provider_ref_from_integration (rt_catalog circle_rt) circle_integration =
     Inr \<lparr> pf_name = ''aws'', pf_source = ''aws'', pf_version = ''1'' \<rparr>"
  by code_simp

definition circle_plan :: dry_run_plan where
  "circle_plan = \<lparr> rd_action = ActUpdate, rd_prior = Some [(''id'', JStr ''x'')],
     rd_planned = Some [(''id'', JStr ''x'')], rd_private = None, rd_replace = [], rd_error = None \<rparr>"

lemma circle_calls:
  "rt_read circle_rt ty identity ref pin = eff_return (Some identity)"
  "rt_plan circle_rt ty x y z ref pin =
     eff_return \<lparr> pp_planned = Some [(''id'', JStr ''x'')], pp_private = None, pp_replace = [] \<rparr>"
  "rt_clock circle_rt s = fold max (map dr_updated_at (db_dry_runs s)) 0 + 1"
  "we_start circle_we = log_start" "we_rt circle_we = circle_rt"
  by (simp_all add: circle_rt_def circle_we_def)

lemma circle_integration_by_id:
  "get_integration_by_id ''p'' ''k'' ((circle_state b n)\<lparr> db_runs := [] \<rparr>) =
     (Inr circle_integration, (circle_state b n)\<lparr> db_runs := [] \<rparr>)"
  by (simp add: get_integration_by_id_def circle_fields circle_integration_def live_integration_def)

lemma circle_planned:
  "plan_resource_dry_run circle_rt (circle_item b) ''p'' (JObj [(''v'', JStr ''x'')]) ((circle_state b n)\<lparr> db_runs := [] \<rparr>) =
     (Inr circle_plan, (circle_state b n)\<lparr> db_runs := [] \<rparr>)"
  by (cases b) (simp_all add: circle_item_def plan_resource_dry_run_def plan_item_def plan_target_item_def
    get_resource_by_change_set_item_def eff_simps circle_fields row_fields find_live_by_def Let_def
    circle_integration_by_id parse_nullable_record_def plan_resource_def dispatch_on_def circle_ref circle_calls
    planned_as_def get_resource_dry_run_action_def circle_plan_def)

lemma circle_step:
  assumes "0 \<le> n"
  shows "snd (dry_run_change_workflow circle_we (circle_key b) ''p'' n ((circle_state b n)\<lparr> db_runs := [] \<rparr>)) =
    circle_state (\<not> b) (n + 2)"
proof -
  let ?s = "(circle_state b n)\<lparr> db_runs := [] \<rparr>"
  have "get_change_set_item (circle_key b) ?s = (Inr (Some (circle_item b)), ?s)"
    by (cases b) (simp_all add: get_change_set_item_def eff_simps circle_fields circle_key_def circle_item_def row_fields)
  moreover have "truthy (change_set_item_slug (circle_item b)) = Some (if b then ''a'' else ''b'')"
    "ci_id (circle_item b) = circle_key b" "ci_change_set_id (circle_item b) = ''c''"
    by (simp_all add: circle_item_def change_set_item_slug_def row_fields circle_key_def)
  moreover have "eff_bind (update_dry_run circle_we (circle_key b) circle_plan n) (\<lambda>_.
      start_dependent_dry_runs circle_we ''p'' ''c'' (if b then ''a'' else ''b'') (circle_key b)) ?s =
      (Inr (), circle_state (\<not> b) (n + 2))"
    using assms
    by (cases b) (simp_all add: eff_simps update_dry_run_def we_now_def with_now_def write_dry_run_def
      circle_calls circle_fields update_where_def returning_def row_fields start_dependent_dry_runs_def reset_dependents_def
      Let_def depends_on_slug_def draft_db_def start_dry_run_def log_run_def circle_key_def circle_plan_def
      circle_state_def)
  ultimately show ?thesis
    by (simp add: dry_run_change_workflow_def dry_run_body_def eff_simps circle_inputs circle_planned circle_calls)
qed

text \<open>Two updates of one draft that refer to each other's resource: from this state each run starts the
  other's, and the runs, each of them a plan of the provider, go on until an item is edited or the draft
  leaves its status. The planner refuses such a pair as a circle whatever the dry-runs say, so what does
  not end here are the runs; that the draft is not applied has another reason.\<close>

lemma mutual_updates_run_forever:
  "\<exists>f. f 0 = circle_state True 1 \<and> (\<forall>n. dry_run_step circle_we (f n) (f (Suc n)))"
proof (intro exI [of _ "\<lambda>n. circle_state (even n) (1 + 2 * int n)"] conjI allI)
  fix n
  let ?s = "circle_state (even n) (1 + 2 * int n)"
  have "db_runs ?s = [] @ RunStarted (circle_key (even n)) ''p'' (1 + 2 * int n) # []"
    by (simp add: circle_fields)
  from dry_run_step.run [OF this, of circle_we]
  show "dry_run_step circle_we ?s (circle_state (even (Suc n)) (1 + 2 * int (Suc n)))"
    using circle_step [of "1 + 2 * int n" "even n"] by (simp add: algebra_simps)
qed simp

section \<open>Witness\<close>

text \<open>The same draft without the second reference.\<close>

definition chain_db :: db where
  "chain_db = (circle_state False 1)\<lparr> db_items :=
     [circle_update ''u1'' ''a'' ''b'', (circle_update ''u2'' ''b'' ''a'')\<lparr> ci_depends_on := [] \<rparr>] \<rparr>"

definition run_next :: "db \<Rightarrow> db" where
  "run_next s = (case db_runs s of
     RunStarted k p observed # rest \<Rightarrow> snd (dry_run_change_workflow circle_we k p observed (s\<lparr> db_runs := rest \<rparr>))
   | _ \<Rightarrow> s)"

lemma dry_runs_terminate_witness:
  "\<exists>n. \<not> dry_run_step circle_we ((run_next ^^ n) chain_db) ((run_next ^^ Suc n) chain_db)"
proof (rule dry_runs_terminate [of "\<lambda>n. (run_next ^^ n) chain_db"])
  have "rerun_edges (db_items chain_db) \<subseteq> {(''u1'', ''u2'')}"
    by (auto simp: rerun_edges_def chain_db_def row_fields change_set_item_slug_def)
  moreover have "trans {(''u1'', ''u2'')}" by (auto intro!: transI)
  then have "acyclic {(''u1'', ''u2'')}" unfolding acyclic_def by (subst trancl_id) auto
  ultimately have "acyclic (rerun_edges (db_items chain_db))" by (rule acyclic_subset [rotated])
  then show "acyclic (rerun_edges (db_items ((run_next ^^ 0) chain_db)))" by simp
  show "we_start circle_we = log_start" by (simp add: circle_calls)
  show "planning_moves (queue_le (db_items ((run_next ^^ 0) chain_db)) k) (we_rt circle_we)" for k
    by (simp add: planning_moves_def circle_we_def circle_rt_def demo_rt_def queue.moves_basic)
qed

end
