(* ===== verification/ChangesetInvariant.thy ===== *)
theory ChangesetInvariant
  imports DryRunProps
begin

text \<open>
  The invariant of the changeset tables: at most one draft per project, every item belongs to a
  changeset and has one dry-run, items have the shape their kind says, and what an import or a plain
  resource stages is never planned. Every write of the service and every dry-run workflow keeps it.
\<close>

section \<open>The invariant\<close>

definition tables_ok :: "db \<Rightarrow> bool" where
  "tables_ok s \<longleftrightarrow>
     distinct (map cs_id (db_change_sets s)) \<and> distinct (drafts (db_change_sets s)) \<and>
     distinct (map ci_id (db_items s)) \<and> ci_change_set_id ` set (db_items s) \<subseteq> cs_id ` set (db_change_sets s) \<and>
     distinct (map dr_item_id (db_dry_runs s)) \<and> dr_item_id ` set (db_dry_runs s) = ci_id ` set (db_items s)"

text \<open>What the columns of an item are for the changes it carries.\<close>

definition columns_typed ::
  "item_changes \<Rightarrow> string option \<Rightarrow> string option \<Rightarrow> string option \<Rightarrow> string option \<Rightarrow> string list \<Rightarrow> bool" where
  "columns_typed changes target_id target_slug integration_id ty refs \<longleftrightarrow>
     (case changes of
        CreateResource c \<Rightarrow> target_id = None \<and> target_slug = Some (cc_slug c) \<and> ty = cc_type c \<and>
          (integration_id = None \<longleftrightarrow> truthy (cc_type c) = None) \<and>
          extract_refs (nullish_inputs (cc_inputs c)) = Inr refs
      | ImportResource c \<Rightarrow> target_id = None \<and> target_slug = Some (ic_slug c) \<and> ty = Some (ic_type c) \<and>
          integration_id \<noteq> None \<and> refs = []
      | UpdateResource inputs \<Rightarrow> target_id \<noteq> None \<and> target_slug \<noteq> None \<and> ty \<noteq> None \<and>
          extract_refs (JObj inputs) = Inr refs
      | DeleteResource mode \<Rightarrow> target_id \<noteq> None \<and> target_slug \<noteq> None \<and> ty \<noteq> None \<and> refs = [])"

definition item_typed :: "change_set_item \<Rightarrow> bool" where
  "item_typed i \<longleftrightarrow> columns_typed (ci_changes i) (ci_target_id i) (ci_target_slug i) (ci_integration_id i)
     (ci_resource_type i) (ci_depends_on i)"

definition normalized_typed :: "normalized_item \<Rightarrow> bool" where
  "normalized_typed n \<longleftrightarrow> columns_typed (ni_changes n) (ni_target_id n) (ni_target_slug n) (ni_integration_id n)
     (ni_resource_type n) (ni_depends_on n)"

text \<open>An import, or a create without a type: its plan says nothing about the state of its resource.\<close>

definition never_planned :: "change_set_item \<Rightarrow> bool" where
  "never_planned i \<longleftrightarrow>
     (case ci_changes i of ImportResource c \<Rightarrow> True | CreateResource c \<Rightarrow> cc_type c = None | _ \<Rightarrow> False)"

definition unplanned_rows :: "db \<Rightarrow> bool" where
  "unplanned_rows s \<longleftrightarrow> (\<forall>d \<in> set (db_dry_runs s). \<forall>i \<in> set (db_items s).
     ci_id i = dr_item_id d \<and> never_planned i \<longrightarrow> dr_planned d = None)"

definition changesets_inv :: "db \<Rightarrow> bool" where
  "changesets_inv s \<longleftrightarrow> tables_ok s \<and> (\<forall>i \<in> set (db_items s). item_typed i) \<and> unplanned_rows s"

section \<open>Reads\<close>

text \<open>The three tables stay as they are.\<close>

definition same_tables :: "db \<Rightarrow> db \<Rightarrow> bool" where
  "same_tables s t \<longleftrightarrow> db_change_sets t = db_change_sets s \<and> db_items t = db_items s \<and> db_dry_runs t = db_dry_runs s"

interpretation tables: db_order same_tables
  by unfold_locales (auto simp: same_tables_def)

lemma same_tables_inv: "changesets_inv s \<Longrightarrow> same_tables s t \<Longrightarrow> changesets_inv t"
  by (simp add: changesets_inv_def tables_ok_def unplanned_rows_def same_tables_def)

text \<open>What the environment of the service does leaves the tables alone.\<close>

definition environment_ok :: "environment \<Rightarrow> bool" where
  "environment_ok en \<longleftrightarrow> (\<forall>r. eff_moves same_tables (en_start en r)) \<and>
     (\<forall>p subjects. eff_moves same_tables (en_displays en p subjects))"

lemmas tables_moves = tables.moves_basic tables.moves_bind tables.moves_catch tables.moves_tx tables.moves_cases

lemma notify_tables [intro]: "eff_moves same_tables (notify_change_set row)"
  by (simp add: notify_change_set_def pg_notify_def eff_moves_def eff_run same_tables_def)

lemma eff_map_tables: "(\<And>x. eff_moves same_tables (f x)) \<Longrightarrow> eff_moves same_tables (eff_map f xs)"
  by (induction xs) (auto intro: tables_moves)

lemma raw_tables:
  "eff_moves same_tables (load_raw_change_sets p order)" "eff_moves same_tables (get_raw_change_set_view k)"
  "eff_moves same_tables (get_raw_change_set_view_by_project project k)"
  "eff_moves same_tables (assert_draft row)"
  unfolding load_raw_change_sets_def get_raw_change_set_view_def get_raw_change_set_view_by_project_def assert_draft_def
  by (intro tables_moves)+

lemma view_tables:
  assumes "environment_ok en"
  shows "eff_moves same_tables (get_change_set_views_with_displays en actor project rows)"
    "eff_moves same_tables (get_change_set_view_with_item_displays en actor project row)"
    "eff_moves same_tables (get_change_set_view_by_project en actor project k)"
    "eff_moves same_tables (find_draft en actor project)"
proof -
  have displays: "eff_moves same_tables (en_displays en p subjects)" for p subjects
    using assms by (simp add: environment_ok_def)
  show views: "eff_moves same_tables (get_change_set_views_with_displays en actor project rows)" for rows
    unfolding get_change_set_views_with_displays_def get_dry_runs_by_item_id_def
      get_structural_validation_context_def target_resources_by_item_id_def Let_def
    by (intro tables_moves displays)
  then show view: "eff_moves same_tables (get_change_set_view_with_item_displays en actor project row)" for row
    unfolding get_change_set_view_with_item_displays_def by (intro tables_moves)
  show "eff_moves same_tables (get_change_set_view_by_project en actor project k)"
    unfolding get_change_set_view_by_project_def by (intro tables_moves raw_tables view)
  show "eff_moves same_tables (find_draft en actor project)"
    unfolding find_draft_def by (intro tables_moves raw_tables view)
qed

lemma integration_lookup_tables:
  "eff_moves same_tables (get_default_integration_by_provider p provider)"
  "eff_moves same_tables (get_integration_by_slug p slug)"
  by (auto simp: eff_moves_def get_default_integration_by_provider_def get_integration_by_slug_def same_tables_def
      split: option.split)

lemma integration_by_type_tables: "eff_moves same_tables (get_integration_by_resource_type p ty slug)"
  unfolding get_integration_by_resource_type_def by (intro tables_moves integration_lookup_tables)

section \<open>Normalised items\<close>

lemma typed_new_item: "item_typed (new_item item_id k now n) \<longleftrightarrow> normalized_typed n"
  by (simp add: item_typed_def normalized_typed_def new_item_def)

lemma typed_change_item: "item_typed (change_item now n i) \<longleftrightarrow> normalized_typed n"
  by (simp add: item_typed_def normalized_typed_def change_item_def)

text \<open>A body becomes columns of its kind; nothing is written.\<close>

lemma normalize_tables: "eff_moves same_tables (normalize_add_item_body project body)"
  unfolding normalize_add_item_body_def normalize_target_def get_target_resource_for_item_def
  by (auto split: item_changes.split intro!: tables_moves integration_by_type_tables)

lemma refs_of_null [simp]: "extract_refs JNull = Inr []"
  by (simp add: extract_refs_def)

lemma normalize_target_typed:
  assumes "normalize_target project body inputs s = (Inr n, t)" "\<And>refs k slug i ty. extract_refs inputs = Inr refs \<Longrightarrow>
    columns_typed (ab_changes body) (Some k) (Some slug) i (Some ty) refs"
  shows "normalized_typed n"
  using assms by (auto simp: normalize_target_def eff_bind_run eff_run normalized_typed_def
      split: prod.splits sum.splits option.splits)

lemma normalize_typed:
  assumes "normalize_add_item_body project body s = (Inr n, t)"
  shows "normalized_typed n"
proof (cases "ab_changes body")
  case (CreateResource c)
  with assms show ?thesis
    by (auto simp: normalize_add_item_body_def eff_bind_run eff_run normalized_typed_def columns_typed_def
        split: prod.splits sum.splits option.splits)
next
  case (ImportResource c)
  with assms show ?thesis
    by (auto simp: normalize_add_item_body_def eff_bind_run eff_run normalized_typed_def columns_typed_def
        split: prod.splits sum.splits)
next
  case (UpdateResource inputs)
  with assms show ?thesis
    by (intro normalize_target_typed [of project body "JObj inputs" s])
      (auto simp: normalize_add_item_body_def columns_typed_def)
next
  case (DeleteResource mode)
  with assms show ?thesis
    by (intro normalize_target_typed [of project body JNull s])
      (auto simp: normalize_add_item_body_def columns_typed_def)
qed

section \<open>Writes of the tables\<close>

lemma pending_fields [simp]:
  "dr_item_id (pending_dry_run k now) = k" "dr_planned (pending_dry_run k now) = None"
  by (simp_all add: pending_dry_run_def)

lemma drafts_snoc: "drafts (rows @ [row]) = drafts rows @ (if cs_status row = Draft then [cs_project_id row] else [])"
  by (simp add: drafts_def)

lemma insert_change_set_inv:
  assumes "cs_id row \<notin> cs_id ` set (db_change_sets s)" "changesets_inv s"
  shows "changesets_inv (snd (insert_change_set row s))"
  using assms
  by (auto simp: insert_change_set_def changesets_inv_def tables_ok_def unplanned_rows_def drafts_snoc)

lemma update_change_set_inv:
  assumes "\<And>c. cs_id (f c) = cs_id c"
  shows "eff_keeps changesets_inv (update_change_set k status now f)"
proof (rule eff_keepsI)
  fix s :: db
  let ?p = "\<lambda>c. cs_id c = k \<and> (case status of None \<Rightarrow> True | Some st \<Rightarrow> cs_status c = st)"
  let ?rows = "update_where ?p (\<lambda>c. (f c)\<lparr> cs_updated_at := now \<rparr>) (db_change_sets s)"
  have "map cs_id ?rows = map cs_id (db_change_sets s)" by (rule map_key_update_where) (simp add: assms)
  then have "distinct (map cs_id (db_change_sets s)) = distinct (map cs_id ?rows)"
    "cs_id ` set (db_change_sets s) = cs_id ` set ?rows" by (simp_all flip: set_map)
  then show "changesets_inv (snd (update_change_set k status now f s))" if "changesets_inv s"
    using that by (simp add: update_change_set_def changesets_inv_def tables_ok_def unplanned_rows_def Let_def)
qed

lemma insert_staged_inv:
  assumes "ci_id item \<notin> ci_id ` set (db_items s)" "item_typed item" "changesets_inv s"
  shows "changesets_inv (snd (insert_staged item s))"
proof (cases "item_references item s")
  case True
  then have "ci_change_set_id item \<in> cs_id ` set (db_change_sets s)"
    by (simp add: item_references_def references_row_def)
  moreover have "ci_id item \<notin> dr_item_id ` set (db_dry_runs s)"
    using assms(1,3) by (simp add: changesets_inv_def tables_ok_def)
  ultimately show ?thesis
    using assms True
    by (auto simp: insert_staged_def eff_tx_run eff_bind_run eff_run insert_item_def insert_dry_run_def
        references_row_def pending_dry_run_def changesets_inv_def tables_ok_def unplanned_rows_def)
next
  case False
  then show ?thesis using assms(3) by (simp add: insert_staged_def eff_tx_run eff_bind_run insert_item_def)
qed

lemma update_staged_inv:
  assumes "normalized_typed n"
  shows "eff_keeps changesets_inv (update_staged item_id now n)"
proof (rule eff_keepsI)
  fix s :: db
  assume inv: "changesets_inv s"
  let ?p = "\<lambda>i. ci_id i = item_id" and ?g = "change_item now n"
  let ?items = "update_where ?p ?g (db_items s)"
  let ?rows = "update_where (\<lambda>d. dr_item_id d = item_id) (\<lambda>d. pending_dry_run item_id now) (db_dry_runs s)"
  show "changesets_inv (snd (update_staged item_id now n s))"
  proof (cases "list_ex (\<lambda>i. ?p i \<and> \<not> item_references (?g i) s) (db_items s) \<or> (\<forall>i \<in> set (db_items s). \<not> ?p i)")
    case True
    then have "snd (update_staged item_id now n s) = s"
    proof
      assume "\<forall>i \<in> set (db_items s). \<not> ?p i"
      then have "filter ?p (db_items s) = []" "update_where ?p ?g (db_items s) = db_items s"
        "\<not> list_ex (\<lambda>i. ?p i \<and> \<not> item_references (?g i) s) (db_items s)"
        by (auto simp: filter_empty_conv update_where_none list_ex_iff)
      then show ?thesis
        by (simp add: update_staged_def eff_tx_run eff_bind_run eff_run update_item_row_def returning_def first_row_def)
    qed (simp add: update_staged_def eff_tx_run eff_bind_run update_item_row_def)
    then show ?thesis using inv by simp
  next
    case False
    then have "update_staged item_id now n s =
        (Inr (first_row (returning ?p ?g (db_items s))), s\<lparr> db_items := ?items, db_dry_runs := ?rows \<rparr>)"
      by (auto simp: update_staged_def eff_tx_run eff_bind_run eff_run update_item_row_def returning_def first_row_def
          reset_dry_run_def filter_empty_conv split: list.split)
    moreover have ids: "map ci_id ?items = map ci_id (db_items s)"
      by (rule map_key_update_where) (simp add: change_item_def)
    moreover have "map ci_change_set_id ?items = map ci_change_set_id (db_items s)"
      by (rule map_key_update_where) (simp add: change_item_def)
    moreover have rows: "map dr_item_id ?rows = map dr_item_id (db_dry_runs s)"
      by (auto simp: update_where_def)
    moreover have "\<forall>i \<in> set ?items. item_typed i"
      using inv assms by (auto simp: changesets_inv_def typed_change_item dest!: update_where_in)
    moreover have "dr_planned d = None"
      if "d \<in> set ?rows" "i \<in> set ?items" "ci_id i = dr_item_id d" "never_planned i" for d i
    proof (cases "dr_item_id d = item_id")
      case True
      with update_where_in [OF that(1)] show ?thesis by (metis pending_fields(2))
    next
      case False
      with that have "d \<in> set (db_dry_runs s)" "i \<in> set (db_items s)"
        by (auto simp: change_item_def dest!: update_where_in)
      with that inv show ?thesis by (auto simp: changesets_inv_def unplanned_rows_def)
    qed
    ultimately show ?thesis
      using inv by (simp add: changesets_inv_def tables_ok_def unplanned_rows_def flip: set_map)
  qed
qed

lemma delete_items_inv: "eff_keeps changesets_inv (delete_items item_id)"
proof (rule eff_keepsI)
  fix s :: db
  assume "changesets_inv s"
  moreover have "dr_item_id ` set (filter (\<lambda>d. dr_item_id d \<noteq> item_id) (db_dry_runs s)) =
      dr_item_id ` set (db_dry_runs s) - {item_id}"
    "ci_id ` set (filter (\<lambda>i. ci_id i \<noteq> item_id) (db_items s)) = ci_id ` set (db_items s) - {item_id}" by auto
  ultimately show "changesets_inv (snd (delete_items item_id s))"
    by (auto simp: delete_items_def eff_run changesets_inv_def tables_ok_def unplanned_rows_def distinct_map
        intro: inj_on_subset)
qed

section \<open>Writes of the dry-runs\<close>

text \<open>Rows keep their items; a row of an item that is never planned gets no plan.\<close>

lemma rows_inv:
  assumes "changesets_inv s" "map dr_item_id rows = map dr_item_id (db_dry_runs s)"
    and "\<And>d i. d \<in> set rows \<Longrightarrow> i \<in> set (db_items s) \<Longrightarrow> ci_id i = dr_item_id d \<Longrightarrow> never_planned i \<Longrightarrow>
      dr_planned d = None"
  shows "changesets_inv (s\<lparr> db_dry_runs := rows \<rparr>)"
proof -
  have "dr_item_id ` set rows = dr_item_id ` set (db_dry_runs s)" using assms(2) by (metis set_map)
  then show ?thesis using assms by (simp add: changesets_inv_def tables_ok_def unplanned_rows_def)
qed

lemma update_rows_inv:
  assumes "changesets_inv s" "\<And>d. p d \<Longrightarrow> dr_item_id (f d) = dr_item_id d"
    and "\<And>d i. p d \<Longrightarrow> i \<in> set (db_items s) \<Longrightarrow> ci_id i = dr_item_id d \<Longrightarrow> never_planned i \<Longrightarrow> dr_planned (f d) = None"
  shows "changesets_inv (s\<lparr> db_dry_runs := update_where p f (db_dry_runs s) \<rparr>)"
proof (rule rows_inv [OF assms(1)])
  show "map dr_item_id (update_where p f (db_dry_runs s)) = map dr_item_id (db_dry_runs s)"
    using assms(2) by (auto simp: update_where_def)
  show "dr_planned d = None"
    if d: "d \<in> set (update_where p f (db_dry_runs s))" "i \<in> set (db_items s)" "ci_id i = dr_item_id d" "never_planned i" for d i
    using update_where_in [OF d(1)]
  proof
    assume "\<exists>d0 \<in> set (db_dry_runs s). p d0 \<and> d = f d0"
    then obtain d0 where "p d0" "d = f d0" by blast
    then show ?thesis using assms(2) [of d0] assms(3) [of d0 i] d by simp
  next
    assume "d \<in> set (db_dry_runs s) \<and> \<not> p d"
    then show ?thesis using assms(1) d by (auto simp: changesets_inv_def unplanned_rows_def)
  qed
qed

lemma write_dry_run_inv:
  assumes "changesets_inv s" "\<And>i. i \<in> set (db_items s) \<Longrightarrow> ci_id i = k \<Longrightarrow> never_planned i \<Longrightarrow> rd_planned p = None"
  shows "changesets_inv (snd (write_dry_run k observed now p s))"
  unfolding write_dry_run_def eff_run snd_conv
  by (rule update_rows_inv [OF assms(1)]) (use assms(2) in auto)

lemma unplanned_planned [simp]: "rd_planned (unplanned a err) = None"
  by (simp add: unplanned_def)

lemma failed_writes_inv:
  "eff_keeps changesets_inv (update_dry_run_deferred we k observed)"
  "eff_keeps changesets_inv (mark_dry_run_failed we k observed msg)"
  by (auto simp: dry_run_writes we_now_def with_now_def eff_keeps_def intro: write_dry_run_inv)

lemma reset_dependents_inv:
  "eff_keeps changesets_inv (reset_dependents cs slug source now)"
  by (auto simp: eff_keeps_def reset_dependents_def Let_def intro: update_rows_inv)

lemma upsert_pending_inv:
  assumes "changesets_inv s" "k \<in> ci_id ` set (db_items s)"
  shows "changesets_inv (s\<lparr> db_dry_runs := upsert_pending now k (db_dry_runs s) \<rparr>)"
proof -
  have "k \<in> dr_item_id ` set (db_dry_runs s)" using assms by (simp add: changesets_inv_def tables_ok_def)
  then show ?thesis unfolding upsert_pending_def by (simp add: update_rows_inv [OF assms(1)])
qed

lemma reset_all_inv: "eff_keeps changesets_inv (reset_change_set_dry_runs k now)"
proof (rule eff_keepsI)
  fix s
  have "changesets_inv (s\<lparr> db_dry_runs := fold (upsert_pending now) ks (db_dry_runs s) \<rparr>)"
    if "changesets_inv s" "set ks \<subseteq> ci_id ` set (db_items s)" for s ks
    using that
  proof (induction ks arbitrary: s)
    case (Cons k ks)
    then have "changesets_inv (s\<lparr> db_dry_runs := upsert_pending now k (db_dry_runs s) \<rparr>)"
      by (intro upsert_pending_inv) auto
    from Cons.IH [OF this] Cons.prems(2) show ?case by simp
  qed simp
  moreover have "set (draft_item_ids k s) \<subseteq> ci_id ` set (db_items s)" by (auto simp: draft_item_ids_def)
  ultimately show "changesets_inv s \<Longrightarrow> changesets_inv (snd (reset_change_set_dry_runs k now s))"
    by (simp add: reset_change_set_dry_runs_def)
qed

section \<open>Dry-run workflows\<close>

lemma never_planned_plan:
  assumes "plan_resource_dry_run rt item p inputs s = (Inr pl, t)" "never_planned item"
  shows "rd_planned pl = None"
proof -
  have "rd_planned pl = None" if "plan_item rt item p inputs s = (Inr pl, t)" for pl t
    using that assms(2)
    by (auto simp: plan_item_def never_planned_def plan_import_item_def plan_create_item_def eff_bind_run eff_catch_run
        eff_run split: item_changes.splits option.splits prod.splits sum.splits js_error.splits)
  then show ?thesis
    using assms(1) by (auto simp: plan_resource_dry_run_def eff_catch_run eff_run split: prod.splits sum.splits if_splits)
qed

definition workflow_env_ok :: "workflow_env \<Rightarrow> bool" where
  "workflow_env_ok we \<longleftrightarrow> planning_moves same_tables (we_rt we) \<and> (\<forall>r. eff_moves same_tables (we_start we r))"

lemma tables_keep: "eff_moves same_tables m \<Longrightarrow> eff_keeps changesets_inv m"
  unfolding eff_keeps_def eff_moves_def using same_tables_inv by blast

lemma we_now_keeps: "(\<And>now. eff_keeps I (f now)) \<Longrightarrow> eff_keeps I (we_now we f)"
  by (simp add: we_now_def with_now_def eff_keeps_def)

lemma start_dry_runs_inv:
  assumes "workflow_env_ok we"
  shows "eff_keeps changesets_inv (eff_for (start_dry_run we p) rows)"
  unfolding start_dry_run_def
  by (intro eff_keeps_for tables_keep) (use assms in \<open>simp add: workflow_env_ok_def\<close>)

lemma start_dependents_inv:
  assumes "workflow_env_ok we"
  shows "eff_keeps changesets_inv (start_dependent_dry_runs we p cs slug source)"
  unfolding start_dependent_dry_runs_def
  by (intro eff_keeps_bind we_now_keeps reset_dependents_inv start_dry_runs_inv [OF assms])

lemma case_sum_same: "(case x of Inl e \<Rightarrow> A | Inr y \<Rightarrow> A) = A"
  by (cases x) simp_all

lemma spec_snd: "eff_spec P m (\<lambda>_. I) (\<lambda>_. I) \<longleftrightarrow> (\<forall>s. P s \<longrightarrow> I (snd (m s)))"
  by (simp add: eff_spec_def case_prod_unfold case_sum_same)

lemma eff_keeps_snd: "eff_keeps I m \<Longrightarrow> I s \<Longrightarrow> I (snd (m s))"
  by (simp add: eff_keeps_def)

lemma keeps_spec: "eff_keeps I m \<longleftrightarrow> eff_spec I m (\<lambda>_. I) (\<lambda>_. I)"
  by (simp add: spec_snd eff_keeps_def)

lemma dry_run_item_inv:
  assumes we: "workflow_env_ok we" and item: "item \<in> set items" and ids: "distinct (map ci_id items)"
  shows "eff_spec (\<lambda>s. changesets_inv s \<and> db_items s = items)
    (eff_bind (get_change_set_dry_run_inputs item p) (\<lambda>(inputs, deferred_on).
      if deferred_on \<noteq> [] then update_dry_run_deferred we (ci_id item) observed
      else eff_bind (plan_resource_dry_run (we_rt we) item p inputs) (\<lambda>pl.
        eff_bind (update_dry_run we (ci_id item) pl observed) (\<lambda>_.
          case truthy (change_set_item_slug item) of None \<Rightarrow> eff_return ()
          | Some slug \<Rightarrow> start_dependent_dry_runs we p (ci_change_set_id item) slug (ci_id item)))))
    (\<lambda>_. changesets_inv) (\<lambda>_. changesets_inv)" (is "eff_spec ?P _ _ _")
proof -
  have keep: "eff_spec ?P m (\<lambda>_. ?P) (\<lambda>_. ?P)" if "eff_moves same_tables m" for m :: "'x svc"
    by (rule spec_moves [OF that]) (auto simp: same_tables_def intro: same_tables_inv)
  have planning: "planning_moves same_tables (we_rt we)" using we by (simp add: workflow_env_ok_def)
  let ?Q = "\<lambda>pl s. ?P s \<and> (never_planned item \<longrightarrow> rd_planned pl = None)"
  have plan: "eff_spec ?P (plan_resource_dry_run (we_rt we) item p inputs) ?Q (\<lambda>_. changesets_inv)" for inputs
    using keep [OF tables.plan_moves [OF planning, of item p inputs]]
    by (intro specI) (auto dest: spec_InrD spec_InlD never_planned_plan)
  have "ci_id i = ci_id item \<Longrightarrow> i \<in> set items \<Longrightarrow> i = item" for i
    using item ids by (simp add: distinct_map inj_on_def)
  then have stored: "eff_spec (?Q pl) (update_dry_run we (ci_id item) pl observed) (\<lambda>_. changesets_inv) (\<lambda>_. changesets_inv)" for pl
    unfolding spec_snd update_dry_run_def we_now_def with_now_def by (auto intro: write_dry_run_inv)
  show ?thesis
  proof (rule spec_bind [of _ _ "\<lambda>_. ?P"])
    show "eff_spec ?P (get_change_set_dry_run_inputs item p) (\<lambda>_. ?P) (\<lambda>_. changesets_inv)"
      by (rule spec_weaken [OF keep [OF tables.inputs_moves]]) auto
    fix x :: "jsval \<times> string list"
    show "eff_spec ?P (case x of (inputs, deferred_on) \<Rightarrow>
        if deferred_on \<noteq> [] then update_dry_run_deferred we (ci_id item) observed
        else eff_bind (plan_resource_dry_run (we_rt we) item p inputs) (\<lambda>pl.
          eff_bind (update_dry_run we (ci_id item) pl observed) (\<lambda>_.
            case truthy (change_set_item_slug item) of None \<Rightarrow> eff_return ()
            | Some slug \<Rightarrow> start_dependent_dry_runs we p (ci_change_set_id item) slug (ci_id item))))
      (\<lambda>_. changesets_inv) (\<lambda>_. changesets_inv)"
      unfolding prod.case_eq_if
    proof (rule spec_if)
      show "eff_spec ?P (update_dry_run_deferred we (ci_id item) observed) (\<lambda>_. changesets_inv) (\<lambda>_. changesets_inv)"
        by (rule spec_weaken [OF failed_writes_inv(1) [unfolded keeps_spec]]) auto
      show "eff_spec ?P (eff_bind (plan_resource_dry_run (we_rt we) item p (fst x)) (\<lambda>pl.
          eff_bind (update_dry_run we (ci_id item) pl observed) (\<lambda>_.
            case truthy (change_set_item_slug item) of None \<Rightarrow> eff_return ()
            | Some slug \<Rightarrow> start_dependent_dry_runs we p (ci_change_set_id item) slug (ci_id item))))
        (\<lambda>_. changesets_inv) (\<lambda>_. changesets_inv)"
        by (intro spec_bind [OF plan] spec_bind [OF stored] spec_option spec_return
            start_dependents_inv [OF we, unfolded keeps_spec])
    qed
  qed
qed

lemma dry_run_workflow_inv:
  assumes "workflow_env_ok we"
  shows "eff_keeps changesets_inv (dry_run_change_workflow we k p observed)"
  unfolding dry_run_change_workflow_def
proof (intro eff_keeps_catch eff_keeps_bind failed_writes_inv eff_keeps_basic, rule eff_keepsI)
  fix s
  assume inv: "changesets_inv s"
  show "changesets_inv (snd (dry_run_body we k p observed s))"
  proof (cases "find (\<lambda>i. ci_id i = k) (db_items s)")
    case None
    with inv show ?thesis by (simp add: dry_run_body_def get_change_set_item_def eff_simps)
  next
    case (Some item)
    from find_Some_in [OF Some] have item: "item \<in> set (db_items s)" "ci_id item = k" by simp_all
    have "distinct (map ci_id (db_items s))" using inv by (simp add: changesets_inv_def tables_ok_def)
    from dry_run_item_inv [OF assms item(1) this, of p observed] inv Some item(2) show ?thesis
      by (auto simp: dry_run_body_def get_change_set_item_def eff_bind_run [of "eff_get _"] eff_run spec_snd)
  qed
qed

lemma refresh_workflow_inv:
  assumes "workflow_env_ok we"
  shows "eff_keeps changesets_inv (refresh_dry_runs_workflow we k p)"
  unfolding refresh_dry_runs_workflow_def
  by (intro eff_keeps_bind we_now_keeps reset_all_inv start_dry_runs_inv [OF assms])

lemma set_change_set_inv:
  assumes "\<And>now c. cs_id (f now c) = cs_id c"
  shows "eff_keeps changesets_inv (set_change_set we cv f)"
  unfolding set_change_set_def
  by (intro eff_keeps_intros we_now_keeps update_change_set_inv tables_keep notify_tables assms)

section \<open>Service calls\<close>

lemma create_inv:
  assumes "environment_ok en" "k \<notin> cs_id ` set (db_change_sets s)" "changesets_inv s"
  shows "changesets_inv (snd (create_change_set k en actor project title s))"
proof -
  let ?row = "\<lparr> cs_id = k, cs_project_id = p_id project, cs_status = Draft, cs_title = title,
    cs_actor = (ac_type actor, ac_id actor), cs_applied_at = None, cs_created_at = en_clock en s,
    cs_updated_at = en_clock en s \<rparr>"
  let ?view = "\<lambda>row. eff_bind (notify_change_set row) (\<lambda>_. eff_return \<lparr> cv_change_set = row, cv_items = [] \<rparr>)"
  have "eff_keeps changesets_inv (?view row)" for row
    by (intro eff_keeps_intros tables_keep notify_tables)
  moreover have "changesets_inv (snd (insert_change_set ?row s))"
    using assms(2,3) by (intro insert_change_set_inv) simp_all
  ultimately have "changesets_inv (snd (eff_bind (insert_change_set ?row) ?view s))"
    by (cases "insert_change_set ?row s") (auto simp: eff_bind_run eff_keeps_def split: sum.splits)
  then show ?thesis
    by (cases "eff_bind (insert_change_set ?row) ?view s")
      (auto simp: create_change_set_def eff_catch_run with_now_def eff_run split: sum.splits)
qed

lemma get_or_create_inv:
  assumes "environment_ok en" "k \<notin> cs_id ` set (db_change_sets s)" "changesets_inv s"
  shows "changesets_inv (snd (get_or_create_active k en actor project s))"
proof -
  let ?P = "\<lambda>s. changesets_inv s \<and> k \<notin> cs_id ` set (db_change_sets s)"
  have find: "eff_moves same_tables (find_draft en actor project)" by (rule view_tables [OF assms(1)])
  have keep: "eff_spec ?P m (\<lambda>_. ?P) (\<lambda>_. changesets_inv)" if "eff_moves same_tables m" for m :: "'x svc"
    by (rule spec_weaken [OF spec_moves [OF that, of ?P]]) (auto simp: same_tables_def intro: same_tables_inv)
  have create: "eff_spec ?P (create_change_set k en actor project None) (\<lambda>_. changesets_inv) (\<lambda>_. changesets_inv)"
    unfolding spec_snd using create_inv [OF assms(1)] by blast
  have again: "eff_keeps changesets_inv (case err of Conflict d \<Rightarrow>
      eff_bind (find_draft en actor project) (\<lambda>raced. case raced of Some view \<Rightarrow> eff_return view | None \<Rightarrow> eff_throw err)
    | _ \<Rightarrow> eff_throw err)" for err
    by (auto split: js_error.split intro!: eff_keeps_intros tables_keep [OF find])
  have "eff_spec ?P (get_or_create_active k en actor project) (\<lambda>_. changesets_inv) (\<lambda>_. changesets_inv)"
    unfolding get_or_create_active_def
    by (intro spec_bind [OF keep [OF find]] spec_option spec_catch [OF create] again [unfolded keeps_spec] spec_return) simp
  then show ?thesis using assms unfolding spec_snd by blast
qed

lemma stage_inv:
  assumes "environment_ok en" "item_id \<notin> ci_id ` set (db_items s)" "changesets_inv s"
  shows "changesets_inv (snd (stage_change_set_item item_id en actor project k body s))"
proof -
  let ?P = "\<lambda>s. changesets_inv s \<and> item_id \<notin> ci_id ` set (db_items s)"
  let ?I = "\<lambda>_. changesets_inv"
  have keep: "eff_spec ?P m (\<lambda>_. ?P) ?I" if "eff_moves same_tables m" for m :: "'x svc"
    by (rule spec_weaken [OF spec_moves [OF that, of ?P]]) (auto simp: same_tables_def intro: same_tables_inv)
  have normal: "eff_spec ?P (normalize_add_item_body project body) (\<lambda>n s. ?P s \<and> normalized_typed n) ?I"
    using keep [OF normalize_tables, of project body]
    by (intro specI) (auto dest: spec_InrD spec_InlD normalize_typed)
  have insert: "eff_spec (\<lambda>s. ?P s \<and> normalized_typed n)
      (with_now (en_clock en) (\<lambda>observed. insert_staged (new_item item_id k observed n))) ?I ?I" for n
    unfolding spec_snd with_now_def
    by (auto intro!: insert_staged_inv simp: typed_new_item) (simp add: new_item_def)
  have start: "eff_keeps changesets_inv (en_start en r)" for r
    using assms(1) by (intro tables_keep) (simp add: environment_ok_def)
  have "eff_spec ?P (stage_change_set_item item_id en actor project k body) ?I ?I"
    unfolding stage_change_set_item_def
    by (intro spec_bind [OF keep [OF raw_tables(3)]] spec_bind [OF keep [OF raw_tables(4)]] spec_bind [OF normal]
        spec_bind [OF insert] spec_bind [OF start [unfolded keeps_spec]]
        tables_keep [OF view_tables(3) [OF assms(1)], unfolded keeps_spec])
  then show ?thesis using assms unfolding spec_snd by blast
qed

lemma service_inv:
  assumes "environment_ok en"
  shows "eff_keeps changesets_inv (update_change_set_item en actor project k item_id body)"
    "eff_keeps changesets_inv (delete_change_set_item en actor project k item_id)"
    "eff_keeps changesets_inv (refresh_dry_runs en actor project k)"
    "eff_keeps changesets_inv (apply_change_set en actor project k)"
    "eff_keeps changesets_inv (discard_change_set en actor project k)"
proof -
  have start: "eff_keeps changesets_inv (en_start en r)" for r
    using assms by (intro tables_keep) (simp add: environment_ok_def)
  have now: "eff_keeps changesets_inv (with_now clock f)" if "\<And>now. eff_keeps changesets_inv (f now)"
    for clock and f :: "int \<Rightarrow> 'x svc"
    using that by (simp add: with_now_def eff_keeps_def)
  note reads = raw_tables [THEN tables_keep] view_tables [OF assms, THEN tables_keep] notify_tables [THEN tables_keep]
  have normal: "eff_spec changesets_inv (normalize_add_item_body project body)
      (\<lambda>n s. changesets_inv s \<and> normalized_typed n) (\<lambda>_. changesets_inv)" for body
    using tables_keep [OF normalize_tables, of project body, unfolded keeps_spec]
    by (intro specI) (auto dest: spec_InrD spec_InlD normalize_typed)
  have edit: "eff_keeps changesets_inv (eff_bind (normalize_add_item_body project body) (\<lambda>n.
      eff_bind (with_now (en_clock en) (\<lambda>now. update_staged item_id now n)) f))"
    if "\<And>updated. eff_keeps changesets_inv (f updated)" for body and f :: "change_set_item option \<Rightarrow> change_set_view svc"
    unfolding keeps_spec
  proof (rule spec_bind [OF normal])
    fix n
    have "normalized_typed n \<Longrightarrow> eff_keeps changesets_inv
        (eff_bind (with_now (en_clock en) (\<lambda>now. update_staged item_id now n)) f)"
      by (intro eff_keeps_bind now update_staged_inv that)
    then show "eff_spec (\<lambda>s. changesets_inv s \<and> normalized_typed n)
        (eff_bind (with_now (en_clock en) (\<lambda>now. update_staged item_id now n)) f)
        (\<lambda>_. changesets_inv) (\<lambda>_. changesets_inv)"
      by (auto simp: spec_snd eff_keeps_def)
  qed
  show "eff_keeps changesets_inv (update_change_set_item en actor project k item_id body)"
    unfolding update_change_set_item_def by (intro eff_keeps_intros edit start reads)
  show "eff_keeps changesets_inv (delete_change_set_item en actor project k item_id)"
    unfolding delete_change_set_item_def by (intro eff_keeps_intros delete_items_inv reads)
  show "eff_keeps changesets_inv (refresh_dry_runs en actor project k)"
    unfolding refresh_dry_runs_def by (intro eff_keeps_intros start reads)
  have gate: "eff_keeps changesets_inv (apply_gate project row)" for row
    unfolding apply_gate_def Let_def get_structural_validation_context_def by (intro eff_keeps_intros)
  show "eff_keeps changesets_inv (apply_change_set en actor project k)"
    unfolding apply_change_set_def start_apply_def revert_to_draft_def Let_def
    by (intro eff_keeps_intros gate reads start now update_change_set_inv) simp_all
  show "eff_keeps changesets_inv (discard_change_set en actor project k)"
    unfolding discard_change_set_def by (intro eff_keeps_intros reads now update_change_set_inv) simp_all
qed

section \<open>Reachable states\<close>

text \<open>The writes of the changeset tables, in any order: the calls of the service with fresh ids, the
  dry-run workflows, the end of an apply run, and anything else that leaves the three tables alone.\<close>

inductive changeset_step :: "environment \<Rightarrow> workflow_env \<Rightarrow> db \<Rightarrow> db \<Rightarrow> bool" for en we where
  create: "k \<notin> cs_id ` set (db_change_sets s) \<Longrightarrow>
    changeset_step en we s (snd (create_change_set k en actor project title s))"
| active: "k \<notin> cs_id ` set (db_change_sets s) \<Longrightarrow>
    changeset_step en we s (snd (get_or_create_active k en actor project s))"
| stage: "item_id \<notin> ci_id ` set (db_items s) \<Longrightarrow>
    changeset_step en we s (snd (stage_change_set_item item_id en actor project k body s))"
| edit: "changeset_step en we s (snd (update_change_set_item en actor project k item_id ubody s))"
| unstage: "changeset_step en we s (snd (delete_change_set_item en actor project k item_id s))"
| refresh: "changeset_step en we s (snd (refresh_dry_runs en actor project k s))"
| start: "changeset_step en we s (snd (apply_change_set en actor project k s))"
| discard: "changeset_step en we s (snd (discard_change_set en actor project k s))"
| dry_run: "changeset_step en we s (snd (dry_run_change_workflow we k p observed s))"
| refresh_run: "changeset_step en we s (snd (refresh_dry_runs_workflow we k p s))"
| close: "changeset_step en we s (snd (close_change_set we cv s))"
| cancel: "changeset_step en we s (snd (cancel_change_set we cv s))"
| reopen: "changeset_step en we s (snd (reopen_change_set we cv s))"
| elsewhere: "same_tables s t \<Longrightarrow> changeset_step en we s t"

lemma step_inv:
  assumes "changeset_step en we s t" "environment_ok en" "workflow_env_ok we" "changesets_inv s"
  shows "changesets_inv t"
proof -
  have ends: "eff_keeps changesets_inv (close_change_set we cv)" "eff_keeps changesets_inv (cancel_change_set we cv)"
    "eff_keeps changesets_inv (reopen_change_set we cv)" for cv
    unfolding end_defs by (intro set_change_set_inv; simp)+
  note fresh = create_inv [OF assms(2) _ assms(4)] get_or_create_inv [OF assms(2) _ assms(4)] stage_inv [OF assms(2) _ assms(4)]
  note keeps = service_inv [OF assms(2)] dry_run_workflow_inv [OF assms(3)] refresh_workflow_inv [OF assms(3)] ends
  note kept = keeps [THEN eff_keeps_snd, OF assms(4)]
  from assms(1) show ?thesis
    by cases (simp_all add: fresh kept same_tables_inv [OF assms(4)])
qed

lemma reachable_inv:
  assumes "(changeset_step en we)\<^sup>*\<^sup>* s t" "environment_ok en" "workflow_env_ok we" "changesets_inv s"
  shows "changesets_inv t"
  using assms(1)
proof (induction rule: rtranclp_induct)
  case base
  show ?case by (rule assms(4))
next
  case (step t u)
  from step_inv [OF step.hyps(2) assms(2,3) step.IH] show ?case .
qed

text \<open>Nothing is staged yet.\<close>

definition no_changesets :: "db \<Rightarrow> bool" where
  "no_changesets s \<longleftrightarrow> db_change_sets s = [] \<and> db_items s = [] \<and> db_dry_runs s = []"

lemma no_changesets_inv: "no_changesets s \<Longrightarrow> changesets_inv s"
  by (simp add: no_changesets_def changesets_inv_def tables_ok_def unplanned_rows_def drafts_def)

text \<open>C18: however the calls of the service, the dry-run workflows and the ends of apply runs follow each
  other, the ids of changesets, items and dry-runs stay unique, a project has at most one draft, every
  item belongs to a changeset, and every item has its dry-run and no other item one.\<close>

theorem changeset_tables_invariant:
  assumes "(changeset_step en we)\<^sup>*\<^sup>* s t" "environment_ok en" "workflow_env_ok we" "no_changesets s"
  shows "tables_ok t"
  using reachable_inv [OF assms(1-3) no_changesets_inv [OF assms(4)]] by (simp add: changesets_inv_def)

text \<open>C19: the columns of a stored item always fit the kind of its changes: a create or an import names
  its own slug and no target, an import has an integration, a create has one exactly when it has a
  type, an update or a delete has a target with id, slug and type, and the references listed are the
  ones the inputs contain.\<close>

theorem stored_items_typed:
  assumes "(changeset_step en we)\<^sup>*\<^sup>* s t" "environment_ok en" "workflow_env_ok we" "no_changesets s"
  shows "list_all item_typed (db_items t)"
  using reachable_inv [OF assms(1-3) no_changesets_inv [OF assms(4)]] by (simp add: changesets_inv_def list_all_iff)

section \<open>References to imports\<close>

lemma sibling_never_planned:
  assumes "\<And>i. i \<in> set items \<Longrightarrow> is_create_or_import i \<Longrightarrow> change_set_item_slug i = Some slug \<Longrightarrow>
      snd (sibling_dry_run s i) = None"
    and "imp \<in> set items" "is_create_or_import imp" "change_set_item_slug imp = Some slug" "slug \<noteq> []" "slug \<in> set slugs"
  shows "\<exists>a. map_of (fold (add_sibling slugs s) items found) slug = Some (a, None)"
proof -
  have slug_of: "is_create_or_import i \<Longrightarrow> slug_from_changes i = change_set_item_slug i" for i
    by (auto simp: is_create_or_import_def slug_from_changes_def change_set_item_slug_def split: item_changes.split)
  have keep: "\<exists>a. map_of (fold (add_sibling slugs s) is' found) slug = Some (a, None)"
    if "\<exists>a. map_of found slug = Some (a, None)" "set is' \<subseteq> set items" for is' found
    using that
  proof (induction is' arbitrary: found)
    case (Cons i is')
    have "\<exists>a. map_of (add_sibling slugs s i found) slug = Some (a, None)"
    proof (cases "is_create_or_import i \<and> change_set_item_slug i = Some slug")
      case True
      then have "snd (sibling_dry_run s i) = None" using assms(1) Cons.prems(2) by simp
      then show ?thesis
        using True assms(5,6) Cons.prems(1)
        by (cases "sibling_dry_run s i")
          (auto simp: add_sibling_def slug_of update_conv split: option.splits dest!: truthy_Some_iff [THEN iffD1])
    next
      case False
      then show ?thesis
        using Cons.prems(1)
        by (auto simp: add_sibling_def slug_of update_conv split: option.splits if_splits dest!: truthy_Some_iff [THEN iffD1])
    qed
    with Cons show ?case by simp
  qed simp
  from assms(2) obtain us vs where items: "items = us @ imp # vs" by (meson split_list)
  have "\<exists>a. map_of (add_sibling slugs s imp (fold (add_sibling slugs s) us found)) slug = Some (a, None)"
  proof -
    have "truthy (slug_from_changes imp) = Some slug" using assms(3-5) by (simp add: slug_of truthy_Some_iff)
    moreover have "snd (sibling_dry_run s imp) = None" using assms(1-4) by simp
    ultimately show ?thesis
      using assms(3,6) by (cases "sibling_dry_run s imp") (auto simp: add_sibling_def update_conv)
  qed
  then have "\<exists>a. map_of (fold (add_sibling slugs s) vs (add_sibling slugs s imp (fold (add_sibling slugs s) us found)))
      slug = Some (a, None)"
    by (rule keep) (auto simp: items)
  then show ?thesis by (simp add: items)
qed

lemma never_planned_stage: "never_planned i \<Longrightarrow> is_create_or_import i"
  by (auto simp: never_planned_def is_create_or_import_def split: item_changes.splits)

lemma never_planned_row:
  assumes "unplanned_rows s" "imp \<in> set (db_items s)" "never_planned imp"
  shows "snd (sibling_dry_run s imp) = None"
proof (cases "find (\<lambda>d. dr_item_id d = ci_id imp) (db_dry_runs s)")
  case (Some d)
  from find_Some_in [OF this] have "d \<in> set (db_dry_runs s)" "ci_id imp = dr_item_id d" by simp_all
  then have "dr_planned d = None" using assms unfolding unplanned_rows_def by blast
  then show ?thesis by (simp add: sibling_dry_run_def Some)
qed (simp add: sibling_dry_run_def)

lemma inputs_deferred:
  assumes "map_of (fold (add_sibling slugs s) (sibling_items cs slugs s) []) slug = Some (a, None)"
    and "slug \<in> set slugs" "ci_depends_on item = slugs" "ci_change_set_id item = cs"
  shows "\<exists>inputs deferred_on. get_change_set_dry_run_inputs item p s = (Inr (inputs, deferred_on), s) \<and> deferred_on \<noteq> []"
proof -
  let ?siblings = "fold (add_sibling slugs s) (sibling_items cs slugs s) []"
  have "dry_run_target ?siblings live slug = None" for live
    using assms(1) by (simp add: dry_run_target_def)
  with assms(2) have "filter (\<lambda>x. dry_run_target ?siblings live x = None) slugs \<noteq> []" for live
    by (auto simp: filter_empty_conv)
  moreover have "slugs \<noteq> []" using assms(2) by auto
  ultimately show ?thesis
    by (simp add: get_change_set_dry_run_inputs_def get_change_set_dry_runs_by_slug_def get_reference_targets_by_slug_def
        eff_simps Let_def assms(3,4))
qed

text \<open>An item that refers to a slug which an import, or a create without a type, of its own changeset
  stages is deferred by every one of its runs, whatever the provider answers: the sibling's dry-run
  never holds a planned state. A deferred dry-run closes the gate, so such a changeset cannot be
  applied.\<close>

theorem import_reference_never_applies:
  assumes "changesets_inv s" "item \<in> set (db_items s)" "imp \<in> set (db_items s)"
    and "ci_change_set_id imp = ci_change_set_id item" "never_planned imp"
    and "change_set_item_slug imp = Some slug" "slug \<noteq> []" "slug \<in> set (ci_depends_on item)"
    and "\<And>i. i \<in> set (db_items s) \<Longrightarrow> ci_change_set_id i = ci_change_set_id item \<Longrightarrow> is_create_or_import i \<Longrightarrow>
      change_set_item_slug i = Some slug \<Longrightarrow> i = imp"
    and "d \<in> set (db_dry_runs s)" "dr_item_id d = ci_id item"
  shows "dry_run_change_workflow we (ci_id item) p (dr_updated_at d) s =
      update_dry_run_deferred we (ci_id item) (dr_updated_at d) s \<and>
    \<not> gate_open project (ci_change_set_id item) (snd (dry_run_change_workflow we (ci_id item) p (dr_updated_at d) s))"
proof -
  let ?items = "sibling_items (ci_change_set_id item) (ci_depends_on item) s"
  have "find (\<lambda>i. ci_id i = ci_id item) (db_items s) = Some item"
    using assms(1,2) by (intro find_key_eq) (simp_all add: changesets_inv_def tables_ok_def)
  moreover have create: "is_create_or_import imp" using assms(5) by (rule never_planned_stage)
  moreover have "slug_from_changes imp = Some slug"
    using assms(5,6) by (cases "ci_changes imp") (simp_all add: never_planned_def slug_from_changes_def change_set_item_slug_def)
  with assms(3,4,8) have imp: "imp \<in> set ?items" by (simp add: sibling_items_def)
  have "unplanned_rows s" using assms(1) by (simp add: changesets_inv_def)
  from never_planned_row [OF this assms(3,5)]
  have planned: "i \<in> set ?items \<Longrightarrow> is_create_or_import i \<Longrightarrow> change_set_item_slug i = Some slug \<Longrightarrow>
      snd (sibling_dry_run s i) = None" for i
    using assms(9) by (auto simp: sibling_items_def)
  have "\<exists>a. map_of (fold (add_sibling (ci_depends_on item) s) ?items []) slug = Some (a, None)"
    by (rule sibling_never_planned [OF _ imp create assms(6-8)]) (rule planned)
  then obtain a where "map_of (fold (add_sibling (ci_depends_on item) s) ?items []) slug = Some (a, None)" ..
  from inputs_deferred [OF this assms(8) refl refl, of p] obtain inputs deferred_on where
    "get_change_set_dry_run_inputs item p s = (Inr (inputs, deferred_on), s)" "deferred_on \<noteq> []" by (elim exE conjE)
  ultimately have run: "dry_run_change_workflow we (ci_id item) p (dr_updated_at d) s =
      update_dry_run_deferred we (ci_id item) (dr_updated_at d) s"
    by (simp add: dry_run_change_workflow_def dry_run_body_def get_change_set_item_def eff_simps
        update_dry_run_deferred_def we_now_def with_now_def write_dry_run_def)
  let ?t = "snd (update_dry_run_deferred we (ci_id item) (dr_updated_at d) s)"
  let ?p = "\<lambda>e. dr_item_id e = ci_id item \<and> dr_updated_at e = dr_updated_at d"
  let ?f = "\<lambda>e. e\<lparr> dr_action := rd_action (unplanned ActDeferred None), dr_prior := rd_prior (unplanned ActDeferred None),
    dr_planned := rd_planned (unplanned ActDeferred None), dr_private := rd_private (unplanned ActDeferred None),
    dr_replace := (if rd_replace (unplanned ActDeferred None) = [] then None
      else Some (rd_replace (unplanned ActDeferred None))),
    dr_error := rd_error (unplanned ActDeferred None), dr_updated_at := rt_clock (we_rt we) s \<rparr>"
  have rows: "db_dry_runs ?t = update_where ?p ?f (db_dry_runs s)"
    by (simp add: update_dry_run_deferred_def we_now_def with_now_def write_dry_run_def eff_run)
  have "?f d \<in> set (db_dry_runs ?t)" "dr_item_id (?f d) = ci_id item" "dr_action (?f d) = ActDeferred"
    unfolding rows using update_where_mem [OF assms(10), of ?p ?f] assms(11) by (simp_all add: unplanned_def)
  moreover have "item \<in> set (items_of (ci_change_set_id item) ?t)"
    using assms(2) by (simp add: items_of_def update_dry_run_deferred_def we_now_def with_now_def write_dry_run_def eff_run)
  ultimately have "\<not> dry_runs_settled (items_of (ci_change_set_id item) ?t) ?t"
    unfolding dry_runs_settled_def by (metis image_eqI insertCI)
  then have "\<not> gate_open project (ci_change_set_id item) ?t" unfolding gate_open_def by (elim contrapos_nn exE conjE)
  then show ?thesis unfolding run by simp
qed

section \<open>Witnesses\<close>

text \<open>A draft that imports \<open>net\<close> and creates a resource that refers to it.\<close>

definition refers_to_net :: change_set_item where
  "refers_to_net = (sample_create ''r'' 3 ''srv'' (JObj [(''n'', sample_ref ''net.id'')]))
     \<lparr> ci_integration_id := Some ''k'', ci_resource_type := Some ''t'', ci_depends_on := [''net''] \<rparr>"

definition imports_net :: change_set_item where
  "imports_net = import_unresolved\<lparr> ci_integration_id := Some ''k'', ci_resource_type := Some ''t'' \<rparr>"

definition import_db :: db where
  "import_db = empty_db\<lparr> db_change_sets := db_change_sets (draft_db ActPending),
     db_items := [imports_net, refers_to_net],
     db_dry_runs := [pending_dry_run ''i'' 2, pending_dry_run ''r'' 3] \<rparr>"

lemma import_db_inv: "changesets_inv import_db"
proof -
  have "extract_refs (JObj [(''n'', sample_ref ''net.id'')]) = Inr [''net'']" by code_simp
  then show ?thesis
    by (simp add: changesets_inv_def tables_ok_def unplanned_rows_def import_db_def draft_db_def empty_db_def drafts_def
        imports_net_def import_unresolved_def refers_to_net_def sample_create_def sample_item_def item_typed_def
        columns_typed_def nullish_inputs_def)
qed

lemma import_reference_never_applies_witness:
  "\<not> gate_open demo_project ''c'' (snd (dry_run_change_workflow demo_we ''r'' ''p'' 3 import_db))"
proof -
  let ?d = "pending_dry_run ''r'' 3"
  have items: "db_items import_db = [imports_net, refers_to_net]" "?d \<in> set (db_dry_runs import_db)"
    by (simp_all add: import_db_def)
  note fields = refers_to_net_def sample_create_def sample_item_def imports_net_def import_unresolved_def
  have mem: "refers_to_net \<in> set (db_items import_db)" "imports_net \<in> set (db_items import_db)"
    by (simp_all add: items)
  have cs: "ci_change_set_id imports_net = ci_change_set_id refers_to_net" "ci_change_set_id refers_to_net = ''c''"
    by (simp_all add: fields)
  have imp: "never_planned imports_net" "change_set_item_slug imports_net = Some ''net''" "''net'' \<noteq> []"
    by (simp_all add: fields never_planned_def change_set_item_slug_def)
  have row: "''net'' \<in> set (ci_depends_on refers_to_net)" "dr_item_id ?d = ci_id refers_to_net"
    "ci_id refers_to_net = ''r''" "dr_updated_at ?d = 3" by (simp_all add: fields pending_dry_run_def)
  have "change_set_item_slug refers_to_net = Some ''srv''" by (simp add: fields change_set_item_slug_def)
  then have only: "i \<in> set (db_items import_db) \<Longrightarrow> change_set_item_slug i = Some ''net'' \<Longrightarrow> i = imports_net" for i
    unfolding items by auto
  have "\<not> gate_open demo_project (ci_change_set_id refers_to_net)
      (snd (dry_run_change_workflow demo_we (ci_id refers_to_net) ''p'' (dr_updated_at ?d) import_db))"
    by (rule import_reference_never_applies [OF import_db_inv mem cs(1) imp row(1) _ items(2) row(2), THEN conjunct2])
      (rule only)
  then show ?thesis unfolding cs(2) row(3,4) .
qed

lemma environments_ok: "environment_ok demo_env" "workflow_env_ok demo_we"
  by (simp_all add: environment_ok_def workflow_env_ok_def planning_moves_def demo_env_def demo_we_def demo_rt_def
      tables.moves_basic)

text \<open>A project with a resource, and a draft that changes it and adds a block that refers to it.\<close>

definition net_draft :: db where
  "net_draft = snd (create_change_set ''c'' demo_env demo_actor demo_project None created_db)"

definition block_body :: add_item_body where
  "block_body = \<lparr> ab_source = None, ab_changes = CreateResource \<lparr> cc_slug = ''block'', cc_type = None,
     cc_integration_slug = None, cc_display_name = None, cc_inputs = JObj [(''n'', sample_ref ''net.id'')],
     cc_position = None \<rparr>, ab_target_id = None, ab_target_slug = None \<rparr>"

definition update_body_of_net :: add_item_body where
  "update_body_of_net = \<lparr> ab_source = None, ab_changes = UpdateResource [(''n'', JNum 1)],
     ab_target_id = None, ab_target_slug = Some ''net'' \<rparr>"

definition one_staged :: db where
  "one_staged = snd (stage_change_set_item ''i'' demo_env demo_actor demo_project ''c'' block_body net_draft)"

definition two_staged :: db where
  "two_staged = snd (stage_change_set_item ''j'' demo_env demo_actor demo_project ''c'' update_body_of_net one_staged)"

lemma staged_columns:
  "map ci_id (db_items one_staged) = [''i'']"
  "map (\<lambda>i. (ci_id i, ci_target_id i, ci_target_slug i, ci_depends_on i)) (db_items two_staged) =
     [(''i'', None, Some ''block'', [''net'']), (''j'', Some ''r'', Some ''net'', [])]"
  by code_simp+

lemma staged_reached: "(changeset_step demo_env demo_we)\<^sup>*\<^sup>* created_db two_staged"
proof -
  have items: "db_items net_draft = []" by code_simp
  have first: "changeset_step demo_env demo_we created_db net_draft"
    unfolding net_draft_def by (rule changeset_step.create) code_simp
  have second: "changeset_step demo_env demo_we net_draft one_staged"
    unfolding one_staged_def by (rule changeset_step.stage) (simp add: items)
  have third: "changeset_step demo_env demo_we one_staged two_staged"
    unfolding two_staged_def by (rule changeset_step.stage) (use staged_columns(1) in auto)
  from first second third show ?thesis by (meson rtranclp.rtrancl_refl rtranclp.rtrancl_into_rtrancl)
qed

lemma changeset_tables_invariant_witness:
  "length (db_items two_staged) = 2 \<and> tables_ok two_staged"
proof
  show "tables_ok two_staged"
    by (rule changeset_tables_invariant [OF staged_reached environments_ok]) code_simp
  show "length (db_items two_staged) = 2" using arg_cong [OF staged_columns(2), of length] by simp
qed

lemma stored_items_typed_witness:
  "map (\<lambda>i. (ci_id i, ci_target_id i, ci_target_slug i, ci_depends_on i)) (db_items two_staged) =
     [(''i'', None, Some ''block'', [''net'']), (''j'', Some ''r'', Some ''net'', [])] \<and>
   list_all item_typed (db_items two_staged)"
proof
  have "no_changesets created_db" by code_simp
  then show "list_all item_typed (db_items two_staged)"
    by (rule stored_items_typed [OF staged_reached environments_ok])
qed (rule staged_columns(2))

end
