(* ===== verification/ResourceService.thy ===== *)
theory ResourceService
  imports ChangesetWorkflows References ErrorContract
begin

text \<open>
  The resource service, apps/api/src/resources/resources.ts: the views of a project's resources, the
  plans it makes on request, the calls that open an operation and start its workflow, and the layouts
  of the canvas. Starting a workflow run is the field \<open>re_start\<close> of \<open>resource_env\<close>, which answers a
  run id or throws; ids of new rows come from \<open>re_ids\<close>.
\<close>

datatype workflow_name =
    CreateWorkflow | UpdateWorkflow | ImportWorkflow | ReadWorkflow | LookupWorkflow | DeleteWorkflow | ForgetWorkflow

record resource_env =
  re_rt :: runtime
  re_ids :: "db \<Rightarrow> string \<times> string \<times> string"     \<comment> \<open>fresh resource, operation and layout ids\<close>
  re_start :: "workflow_name \<Rightarrow> operation \<Rightarrow> string svc"

section \<open>Views\<close>

record layout_fields =
  lf_position :: "position option"
  lf_size :: "(rat \<times> rat) option"
  lf_collapsed :: bool

record resource_view =
  rw_resource :: resource
  rw_position :: "position option"
  rw_size :: "(rat \<times> rat) option"
  rw_collapsed :: bool
  rw_references :: "resource_reference list"
  rw_inlined :: "jsval option"

definition get_resource_by_slug :: "string \<Rightarrow> string \<Rightarrow> resource option svc" where
  "get_resource_by_slug project_id slug = eff_get (find_live_by project_id (\<lambda>r. r_slug r = slug))"

definition layout_fields_of :: "resource_layout \<Rightarrow> layout_fields" where
  "layout_fields_of l = \<lparr> lf_position = l_position l, lf_size = l_size l, lf_collapsed = l_collapsed l \<rparr>"

definition get_resource_layouts_by_project :: "string \<Rightarrow> (string \<times> layout_fields) list svc" where
  "get_resource_layouts_by_project project_id = eff_get (\<lambda>s.
     fold (\<lambda>l. AList.update (l_resource_id l) (layout_fields_of l))
       (filter (\<lambda>l. l_view_id l = None \<and>
          (\<exists>r \<in> set (db_resources s). r_id r = l_resource_id l \<and> r_project_id r = project_id)) (db_layouts s)) [])"

definition inputs_value :: "resource \<Rightarrow> jsval" where
  "inputs_value r = (case r_inputs r of None \<Rightarrow> JNull | Some es \<Rightarrow> JObj es)"

definition get_resource_view :: "resource \<Rightarrow> layout_fields option \<Rightarrow> jsval option \<Rightarrow> resource_view" where
  "get_resource_view r layout inlined =
     \<lparr> rw_resource = r,
       rw_position = Option.bind layout lf_position,
       rw_size = Option.bind layout lf_size,
       rw_collapsed = (case layout of None \<Rightarrow> False | Some l \<Rightarrow> lf_collapsed l),
       rw_references = get_resource_references (inputs_value r) [],
       rw_inlined = inlined \<rparr>"

definition build_resource_view :: "resource \<Rightarrow> resource_view svc" where
  "build_resource_view r = eff_get (\<lambda>s. get_resource_view r
     (map_option layout_fields_of
       (find (\<lambda>l. l_resource_id l = r_id r \<and> l_view_id l = None) (db_layouts s))) None)"

text \<open>\<open>getValueWithResourceRefs\<close> answers the value itself when it holds no reference, and a copy otherwise;
  the copy alone is shown.\<close>

definition inlined_inputs :: "resource \<Rightarrow> string \<Rightarrow> jsval option svc" where
  "inlined_inputs r project_id =
     eff_bind (eff_lift (extract_refs (inputs_value r))) (\<lambda>slugs.
     eff_bind (get_value_with_resource_refs (inputs_value r) project_id) (\<lambda>v.
     eff_return (if slugs = [] then None else Some v)))"

definition get_resource_view_by_slug :: "project \<Rightarrow> string \<Rightarrow> resource_view option svc" where
  "get_resource_view_by_slug project slug =
     eff_bind (get_resource_layouts_by_project (p_id project)) (\<lambda>layouts.
     eff_bind (get_resource_by_slug (p_id project) slug) (\<lambda>found.
       case found of
         None \<Rightarrow> eff_return None
       | Some r \<Rightarrow>
           eff_bind (inlined_inputs r (p_id project)) (\<lambda>inlined.
           eff_return (Some (get_resource_view r (map_of layouts (r_id r)) inlined)))))"

definition get_resources_by_project :: "project \<Rightarrow> resource_view list svc" where
  "get_resources_by_project project =
     eff_bind (eff_get (\<lambda>s. sort_key r_slug (live_rows (p_id project) (\<lambda>_. True) s))) (\<lambda>rows.
     eff_bind (get_resource_layouts_by_project (p_id project)) (\<lambda>layouts.
     eff_return (map (\<lambda>r. get_resource_view r (map_of layouts (r_id r)) None) rows)))"

section \<open>Plans\<close>

text \<open>\<open>body.inputs == null ? null : resourceState.parse(...)\<close>.\<close>

definition planned_config :: "jsval \<Rightarrow> string \<Rightarrow> jsobj option svc" where
  "planned_config inputs project_id =
     (if inputs = JUndef \<or> inputs = JNull then eff_return None
      else eff_bind (get_value_with_resource_refs inputs project_id) (\<lambda>v.
           eff_bind (eff_lift (parse_record v)) (\<lambda>es. eff_return (Some es))))"

definition plan_create_resource ::
  "runtime \<Rightarrow> project \<Rightarrow> string \<Rightarrow> string option \<Rightarrow> jsval \<Rightarrow> resource_plan svc" where
  "plan_create_resource rt project ty integration_slug inputs =
     eff_bind (get_integration_by_resource_type (p_id project) ty integration_slug) (\<lambda>integration.
     eff_bind (planned_config inputs (p_id project)) (\<lambda>config.
     plan_resource rt integration ty None config MutCreate))"

definition plan_update_resource :: "runtime \<Rightarrow> project \<Rightarrow> resource \<Rightarrow> jsval \<Rightarrow> resource_plan svc" where
  "plan_update_resource rt project r inputs =
     (case truthy (r_integration_id r) of
        None \<Rightarrow> eff_throw (PlainError (''resource '' @ r_slug r @ '' cannot be planned: no provider''))
      | Some k \<Rightarrow>
          eff_bind (get_integration_by_id (p_id project) k) (\<lambda>integration.
          eff_bind (planned_config inputs (p_id project)) (\<lambda>config.
          plan_resource rt integration (r_type r) (r_identity r) config MutUpdate)))"

definition no_plan :: resource_plan where
  "no_plan = \<lparr> pn_payload = \<lparr> pp_planned = None, pp_private = None, pp_replace = [] \<rparr>, pn_prior = None \<rparr>"

definition plan_delete_resource :: "runtime \<Rightarrow> project \<Rightarrow> resource \<Rightarrow> resource_plan svc" where
  "plan_delete_resource rt project r =
     (case (truthy (r_integration_id r), r_identity r) of
        (Some k, Some identity) \<Rightarrow>
          if r_status r = Missing then eff_return no_plan
          else eff_bind (get_integration_by_id (p_id project) k)
                 (\<lambda>integration. plan_resource rt integration (r_type r) (Some identity) None MutDelete)
      | _ \<Rightarrow> eff_return no_plan)"

section \<open>Opening an operation\<close>

definition re_now :: "resource_env \<Rightarrow> (int \<Rightarrow> 'a svc) \<Rightarrow> 'a svc" where
  "re_now re = with_now (rt_clock (re_rt re))"

text \<open>\<open>const run = await start(workflow, [operation]); attachOperationWorkflowRun(operation, run.runId)\<close>.\<close>

definition start_and_attach :: "resource_env \<Rightarrow> workflow_name \<Rightarrow> operation \<Rightarrow> operation svc" where
  "start_and_attach re workflow op =
     eff_bind (re_start re workflow op) (\<lambda>run_id.
     re_now re (\<lambda>now. attach_operation_workflow_run now op run_id))"

definition actor_columns :: "actor \<Rightarrow> actor_type \<times> string" where
  "actor_columns actor = (ac_type actor, ac_id actor)"

definition open_operation ::
  "resource_env \<Rightarrow> actor \<Rightarrow> project \<Rightarrow> string option \<Rightarrow> operation_kind \<Rightarrow> string option \<Rightarrow> jsobj \<Rightarrow> operation svc" where
  "open_operation re actor project resource_id kind lock request = (\<lambda>s.
     re_now re (\<lambda>now. create_operation (fst (snd (re_ids re s))) now
       \<lparr> cp_project_id = p_id project, cp_resource_id = resource_id, cp_item_id = None, cp_retry_of = None,
         cp_run_id = None, cp_lock = lock, cp_kind = kind, cp_approval = None, cp_actor = actor_columns actor,
         cp_request = request \<rparr>) s)"

definition open_resource_operation ::
  "resource_env \<Rightarrow> actor \<Rightarrow> project \<Rightarrow> operation_kind \<Rightarrow> jsobj \<Rightarrow> new_resource \<Rightarrow> operation svc" where
  "open_resource_operation re actor project kind request row = (\<lambda>s.
     let (resource_id, op_id, layout_id) = re_ids re s in
     eff_bind (re_now re (\<lambda>now. create_resource_with_operation resource_id op_id layout_id now
       \<lparr> rp_actor = actor_columns actor, rp_project_id = p_id project, rp_item_id = None, rp_retry_of = None,
         rp_kind = kind, rp_request = request, rp_approval = None, rp_resource = row \<rparr>))
       (\<lambda>(resource, op). eff_return op) s)"

section \<open>Mutations\<close>

definition self_reference :: "string \<Rightarrow> js_error" where
  "self_reference slug = RefError RefCycle slug (''resource '' @ [CHR 0x22] @ slug @ [CHR 0x22] @ '' cannot reference itself'')"

definition assert_slug_free :: "project \<Rightarrow> string \<Rightarrow> unit svc" where
  "assert_slug_free project slug =
     (if slug = ''data'' then eff_throw ResourceReservedSlug
      else eff_bind (get_resource_by_slug (p_id project) slug) (\<lambda>found.
        case found of
          Some _ \<Rightarrow> eff_throw (ResourceDuplicateSlug slug (p_slug project))
        | None \<Rightarrow> eff_return ()))"

definition assert_no_self_reference :: "string \<Rightarrow> jsval \<Rightarrow> string list svc" where
  "assert_no_self_reference slug inputs =
     eff_bind (eff_lift (extract_refs inputs)) (\<lambda>refs.
       if slug \<in> set refs then eff_throw (self_reference slug) else eff_return refs)"

definition created_row :: "create_changes \<Rightarrow> integration option \<Rightarrow> string list \<Rightarrow> new_resource" where
  "created_row body integration refs =
     (let is_provider = cc_type body \<noteq> None in
      \<lparr> nr_slug = cc_slug body, nr_type = (case cc_type body of None \<Rightarrow> ''resource'' | Some ty \<Rightarrow> ty),
        nr_status = Creating, nr_inputs = (if is_provider then as_object (cc_inputs body) else None),
        nr_provider = fst (provider_columns integration), nr_integration_id = snd (provider_columns integration),
        nr_depends_on = (if refs = [] then None else Some refs),
        nr_metadata = json_field ''displayName'' JStr (truthy (cc_display_name body)),
        nr_position = cc_position body \<rparr>)"

definition create_resource :: "resource_env \<Rightarrow> actor \<Rightarrow> project \<Rightarrow> create_changes \<Rightarrow> operation svc" where
  "create_resource re actor project body =
     eff_bind (assert_slug_free project (cc_slug body)) (\<lambda>_.
     eff_bind (case cc_type body of
         None \<Rightarrow> eff_return (None, [])
       | Some ty \<Rightarrow>
           eff_bind (assert_no_self_reference (cc_slug body) (cc_inputs body)) (\<lambda>refs.
           eff_bind (get_integration_by_resource_type (p_id project) ty (cc_integration_slug body))
             (\<lambda>integration. eff_return (Some integration, refs)))) (\<lambda>(integration, refs).
     eff_bind (open_resource_operation re actor project OpCreate (create_request body)
         (created_row body integration refs))
       (start_and_attach re CreateWorkflow)))"

definition inputs_request :: "jsobj \<Rightarrow> jsobj" where
  "inputs_request inputs = [(''inputs'', JObj inputs)]"

definition update_resource :: "resource_env \<Rightarrow> actor \<Rightarrow> project \<Rightarrow> resource \<Rightarrow> jsobj \<Rightarrow> operation svc" where
  "update_resource re actor project r inputs =
     eff_bind (assert_no_self_reference (r_slug r) (JObj inputs)) (\<lambda>_.
     eff_bind (open_operation re actor project (Some (r_id r)) OpUpdate (Some (resource_lock (r_id r)))
         (inputs_request inputs))
       (start_and_attach re UpdateWorkflow))"

definition import_resource :: "resource_env \<Rightarrow> actor \<Rightarrow> project \<Rightarrow> import_changes \<Rightarrow> operation svc" where
  "import_resource re actor project body =
     eff_bind (assert_slug_free project (ic_slug body)) (\<lambda>_.
     eff_bind (get_integration_by_resource_type (p_id project) (ic_type body) (ic_integration_slug body)) (\<lambda>integration.
     eff_bind (assert_import_target_exists (re_rt re) integration (ic_type body) (ic_identity body) (ic_provider_id body))
       (\<lambda>_.
     eff_bind (open_resource_operation re actor project OpImport (import_request body)
         \<lparr> nr_slug = ic_slug body, nr_type = ic_type body, nr_status = Importing, nr_inputs = None,
           nr_provider = Some (i_provider integration), nr_integration_id = Some (i_id integration),
           nr_depends_on = None, nr_metadata = [], nr_position = ic_position body \<rparr>)
       (start_and_attach re ImportWorkflow))))"

definition read_resource :: "resource_env \<Rightarrow> actor \<Rightarrow> project \<Rightarrow> resource \<Rightarrow> operation svc" where
  "read_resource re actor project r =
     eff_bind (open_operation re actor project (Some (r_id r)) OpRead None [(''slug'', JStr (r_slug r))])
       (start_and_attach re ReadWorkflow)"

definition lookup_data :: "resource_env \<Rightarrow> actor \<Rightarrow> project \<Rightarrow> jsobj \<Rightarrow> operation svc" where
  "lookup_data re actor project body =
     eff_bind (open_operation re actor project None OpLookup None body) (start_and_attach re LookupWorkflow)"

definition delete_resource :: "resource_env \<Rightarrow> actor \<Rightarrow> project \<Rightarrow> resource \<Rightarrow> operation svc" where
  "delete_resource re actor project r =
     eff_bind (open_operation re actor project (Some (r_id r)) OpDelete (Some (resource_lock (r_id r)))
         (delete_request r ''delete''))
       (start_and_attach re DeleteWorkflow)"

definition dependents_of :: "string \<Rightarrow> string \<Rightarrow> db \<Rightarrow> string list" where
  "dependents_of project_id slug s = map r_slug
     (live_rows project_id (\<lambda>r. case r_depends_on r of None \<Rightarrow> False | Some refs \<Rightarrow> slug \<in> set refs) s)"

definition target_in_use :: "string \<Rightarrow> string list \<Rightarrow> js_error" where
  "target_in_use slug dependents = RefError RefTargetInUse slug
     (''cannot forget '' @ slug @ '': ['' @ join_strings '', '' dependents @ ''] reference it; forget those first'')"

definition forget_resource :: "resource_env \<Rightarrow> actor \<Rightarrow> project \<Rightarrow> resource \<Rightarrow> operation svc" where
  "forget_resource re actor project r =
     eff_bind (eff_get (dependents_of (p_id project) (r_slug r))) (\<lambda>dependents.
       if dependents \<noteq> [] then eff_throw (target_in_use (r_slug r) dependents)
       else
         eff_bind (open_operation re actor project (Some (r_id r)) OpDelete (Some (resource_lock (r_id r)))
             (delete_request r ''forget''))
           (start_and_attach re ForgetWorkflow))"

section \<open>Layouts\<close>

text \<open>A patch: an absent field is \<open>None\<close>, \<open>null\<close> is \<open>Some None\<close>.\<close>

record layout_patch =
  lp_position :: "position option option"
  lp_size :: "(rat \<times> rat) option option"
  lp_collapsed :: "bool option"

definition empty_patch :: "layout_patch \<Rightarrow> bool" where
  "empty_patch p \<longleftrightarrow> lp_position p = None \<and> lp_size p = None \<and> lp_collapsed p = None"

definition patch_layout :: "layout_patch \<Rightarrow> resource_layout \<Rightarrow> resource_layout" where
  "patch_layout p l = l\<lparr> l_position := (case lp_position p of None \<Rightarrow> l_position l | Some x \<Rightarrow> x),
     l_size := (case lp_size p of None \<Rightarrow> l_size l | Some x \<Rightarrow> x),
     l_collapsed := (case lp_collapsed p of None \<Rightarrow> l_collapsed l | Some x \<Rightarrow> x) \<rparr>"

definition new_layout :: "string \<Rightarrow> string \<Rightarrow> layout_patch \<Rightarrow> resource_layout" where
  "new_layout k resource_id p = patch_layout p
     \<lparr> l_id = k, l_resource_id = resource_id, l_view_id = None, l_position = None, l_size = None, l_collapsed = False \<rparr>"

definition find_layout :: "string \<Rightarrow> resource_layout option svc" where
  "find_layout resource_id = eff_get (\<lambda>s. find (\<lambda>l. l_resource_id l = resource_id \<and> l_view_id l = None) (db_layouts s))"

definition update_layout :: "string \<Rightarrow> layout_patch \<Rightarrow> resource_layout list svc" where
  "update_layout k p = (\<lambda>s. (Inr (returning (\<lambda>l. l_id l = k) (patch_layout p) (db_layouts s)),
     s\<lparr> db_layouts := update_where (\<lambda>l. l_id l = k) (patch_layout p) (db_layouts s) \<rparr>))"

text \<open>One layout, updated or inserted; the answer counts the rows written.\<close>

definition put_layout :: "string \<Rightarrow> string \<Rightarrow> layout_patch \<Rightarrow> nat svc" where
  "put_layout k resource_id p =
     eff_bind (find_layout resource_id) (\<lambda>found.
       case found of
         Some l \<Rightarrow> if empty_patch p then eff_return 0
                   else eff_bind (update_layout (l_id l) p) (\<lambda>rows. eff_return (length rows))
       | None \<Rightarrow> eff_bind (insert_layout (new_layout k resource_id p)) (\<lambda>_. eff_return 1))"

definition create_or_update_resource_layout ::
  "resource_env \<Rightarrow> project \<Rightarrow> string \<Rightarrow> layout_patch \<Rightarrow> resource_view svc" where
  "create_or_update_resource_layout re project slug p =
     eff_bind (get_resource_by_slug (p_id project) slug) (\<lambda>found.
       case found of
         None \<Rightarrow> eff_throw (ResourceNotFound slug (p_slug project))
       | Some r \<Rightarrow>
           eff_bind (\<lambda>s. put_layout (snd (snd (re_ids re s))) (r_id r) p s) (\<lambda>_.
           eff_bind (get_resource_view_by_slug project slug) (\<lambda>view.
             case view of
               None \<Rightarrow> eff_throw (ResourceNotFound slug (p_slug project))
             | Some v \<Rightarrow> eff_return v)))"

fun put_layouts :: "resource_env \<Rightarrow> project \<Rightarrow> (string \<times> layout_patch) list \<Rightarrow> nat svc" where
  "put_layouts re project [] = eff_return 0"
| "put_layouts re project ((slug, p) # entries) =
     eff_bind (get_resource_by_slug (p_id project) slug) (\<lambda>found.
     eff_bind (case found of
         None \<Rightarrow> eff_return 0
       | Some r \<Rightarrow> (\<lambda>s. put_layout (snd (snd (re_ids re s))) (r_id r) p s)) (\<lambda>n.
     eff_bind (put_layouts re project entries) (\<lambda>m. eff_return (n + m))))"

definition create_or_update_resource_layouts ::
  "resource_env \<Rightarrow> project \<Rightarrow> (string \<times> layout_patch) list \<Rightarrow> nat svc" where
  "create_or_update_resource_layouts re project entries =
     (if entries = [] then eff_return 0 else eff_tx (put_layouts re project entries))"

end
