(* ===== verification/Projects.thy ===== *)
theory Projects
  imports ResourceService
begin

text \<open>
  Projects and their scans: apps/api/src/projects/projects.ts, lib/db/softDelete.ts and the scan workflow of
  projects/workflows (index.ts, its loop, and steps.ts, its steps). A scan walks the applied resources of
  a project in batches, reads each from its provider and settles what drifted through an operation of
  its own. What runs outside is the runtime of the resource workflows and \<open>pe_start\<close>, the start of a run.
\<close>

record project_env =
  pe_rt :: runtime
  pe_ids :: "db \<Rightarrow> string"
  pe_start :: "operation \<Rightarrow> string svc"

definition pe_now :: "project_env \<Rightarrow> (int \<Rightarrow> 'a svc) \<Rightarrow> 'a svc" where
  "pe_now pe = with_now (rt_clock (pe_rt pe))"

section \<open>Projects\<close>

definition live_project :: "string \<Rightarrow> string \<Rightarrow> project \<Rightarrow> bool" where
  "live_project org_id slug p \<longleftrightarrow> p_org_id p = org_id \<and> p_slug p = slug \<and> p_deleted_at p = None"

text \<open>The insert, with \<open>projects_org_slug_unique\<close>; the organizations are outside the model.\<close>

definition insert_project :: "project \<Rightarrow> project svc" where
  "insert_project p = (\<lambda>s.
     if \<exists>q \<in> set (db_projects s). p_deleted_at p = None \<and> live_project (p_org_id p) (p_slug p) q
     then (Inl (UniqueViolation ''projects_org_slug_unique''), s)
     else (Inr p, s\<lparr> db_projects := db_projects s @ [p] \<rparr>))"

definition update_projects :: "(project \<Rightarrow> bool) \<Rightarrow> (project \<Rightarrow> project) \<Rightarrow> project list svc" where
  "update_projects p f = (\<lambda>s. (Inr (returning p f (db_projects s)), s\<lparr> db_projects := update_where p f (db_projects s) \<rparr>))"

definition find_project :: "actor \<Rightarrow> string \<Rightarrow> project option svc" where
  "find_project actor slug = eff_get (\<lambda>s. find (live_project (ac_org actor) slug) (db_projects s))"

definition create_project :: "string \<Rightarrow> actor \<Rightarrow> string \<Rightarrow> project svc" where
  "create_project k actor slug =
     eff_bind (find_project actor slug) (\<lambda>existing.
       if existing \<noteq> None then eff_throw (ProjectDuplicateSlug slug)
       else insert_project
         \<lparr> p_id = k, p_org_id = ac_org actor, p_slug = slug, p_approval_policy = [], p_scan_interval = ScanOff,
           p_last_scan_claimed_at = None, p_created_by = actor_columns actor, p_deleted_at = None \<rparr>)"

definition list_projects :: "actor \<Rightarrow> project list svc" where
  "list_projects actor = eff_get (\<lambda>s.
     sort_key p_slug (filter (\<lambda>p. p_org_id p = ac_org actor \<and> p_deleted_at p = None) (db_projects s)))"

definition get_project_by_slug :: "actor \<Rightarrow> string \<Rightarrow> project svc" where
  "get_project_by_slug actor slug =
     eff_bind (find_project actor slug) (\<lambda>row.
       case row of None \<Rightarrow> eff_throw (ProjectNotFound slug) | Some p \<Rightarrow> eff_return p)"

text \<open>\<open>softDeleteOne\<close> on the projects: the tombstone is written on the live rows only.\<close>

definition soft_delete_project :: "int \<Rightarrow> (project \<Rightarrow> bool) \<Rightarrow> bool \<Rightarrow> string \<Rightarrow> bool svc" where
  "soft_delete_project now where_p force message =
     eff_bind (update_projects (\<lambda>p. where_p p \<and> p_deleted_at p = None) (\<lambda>p. p\<lparr> p_deleted_at := Some now \<rparr>)) (\<lambda>rows.
       if rows \<noteq> [] then eff_return True
       else if force then eff_return False
       else eff_throw (NotFound message))"

definition has_live_resources :: "string \<Rightarrow> string \<Rightarrow> db \<Rightarrow> bool" where
  "has_live_resources org_id slug s \<longleftrightarrow>
     (\<exists>r \<in> set (db_resources s). r_deleted_at r = None \<and>
        (\<exists>p \<in> set (db_projects s). p_id p = r_project_id r \<and> live_project org_id slug p))"

definition delete_project :: "int \<Rightarrow> actor \<Rightarrow> string \<Rightarrow> bool \<Rightarrow> unit svc" where
  "delete_project now actor slug force =
     eff_bind (eff_get (has_live_resources (ac_org actor) slug)) (\<lambda>live.
       if live then eff_throw (ProjectActiveResourcesConflict slug)
       else eff_bind (soft_delete_project now (\<lambda>p. p_org_id p = ac_org actor \<and> p_slug p = slug) force
                (''project not found: '' @ slug)) (\<lambda>_. eff_return ()))"

record update_project_body =
  pb_approval_policy :: "string list option"
  pb_scan_interval :: "scan_interval option"

definition patch_project :: "update_project_body \<Rightarrow> project \<Rightarrow> project" where
  "patch_project body p = p\<lparr>
     p_approval_policy := (case pb_approval_policy body of None \<Rightarrow> p_approval_policy p | Some x \<Rightarrow> x),
     p_scan_interval := (case pb_scan_interval body of None \<Rightarrow> p_scan_interval p | Some x \<Rightarrow> x) \<rparr>"

text \<open>An update that sets no column is refused by the query builder.\<close>

definition update_project :: "actor \<Rightarrow> string \<Rightarrow> update_project_body \<Rightarrow> project svc" where
  "update_project actor slug body =
     eff_bind (find_project actor slug) (\<lambda>row.
       case row of
         None \<Rightarrow> eff_throw (ProjectNotFound slug)
       | Some p \<Rightarrow>
           if pb_approval_policy body = None \<and> pb_scan_interval body = None
           then eff_throw (PlainError ''No values to set'')
           else eff_bind (update_projects (\<lambda>q. p_id q = p_id p) (patch_project body)) (\<lambda>rows.
             case first_row rows of None \<Rightarrow> eff_throw ProjectUpdateFailed | Some q \<Rightarrow> eff_return q))"

section \<open>Starting a scan\<close>

definition scan_lock :: "string \<Rightarrow> string" where
  "scan_lock project_id = ''scan:'' @ project_id"

definition claim_project_scan :: "int \<Rightarrow> string \<Rightarrow> unit svc" where
  "claim_project_scan now project_id =
     eff_bind (update_projects (\<lambda>p. p_id p = project_id) (\<lambda>p. p\<lparr> p_last_scan_claimed_at := Some now \<rparr>))
       (\<lambda>_. eff_return ())"

definition open_scan :: "project_env \<Rightarrow> actor \<Rightarrow> project \<Rightarrow> operation svc" where
  "open_scan pe actor project = (\<lambda>s.
     pe_now pe (\<lambda>now. create_operation (pe_ids pe s) now
       \<lparr> cp_project_id = p_id project, cp_resource_id = None, cp_item_id = None, cp_retry_of = None, cp_run_id = None,
         cp_lock = Some (scan_lock (p_id project)), cp_kind = OpScan, cp_approval = None,
         cp_actor = actor_columns actor, cp_request = [] \<rparr>) s)"

text \<open>The handler of a failed start closes the operation; its own failure is logged only.\<close>

definition close_failed_start :: "project_env \<Rightarrow> operation \<Rightarrow> js_error \<Rightarrow> 'a svc" where
  "close_failed_start pe op error =
     eff_bind (eff_catch
         (eff_bind (pe_now pe (\<lambda>now. mark_operation_failed now op
             (describe_operation_error (rt_driver (pe_rt pe)) error) None)) (\<lambda>_. eff_return ()))
         (\<lambda>_. eff_return ())) (\<lambda>_. eff_throw error)"

definition start_project_scan :: "project_env \<Rightarrow> actor \<Rightarrow> project \<Rightarrow> operation svc" where
  "start_project_scan pe actor project =
     eff_bind (open_scan pe actor project) (\<lambda>op.
     eff_bind (pe_now pe (\<lambda>now. claim_project_scan now (p_id project))) (\<lambda>_.
     eff_bind (eff_catch (pe_start pe op) (close_failed_start pe op)) (\<lambda>run_id.
     pe_now pe (\<lambda>now. attach_operation_workflow_run now op run_id))))"

section \<open>The scan loop\<close>

text \<open>Times are milliseconds.\<close>

fun scan_interval_ms :: "scan_interval \<Rightarrow> int option" where
  "scan_interval_ms ScanOff = None"
| "scan_interval_ms ScanHourly = Some 3600000"
| "scan_interval_ms ScanDaily = Some 86400000"

definition scan_due :: "int \<Rightarrow> project \<Rightarrow> bool" where
  "scan_due now p \<longleftrightarrow> p_deleted_at p = None \<and>
     (case scan_interval_ms (p_scan_interval p) of
        None \<Rightarrow> False
      | Some interval \<Rightarrow>
          (case p_last_scan_claimed_at p of None \<Rightarrow> True | Some claimed \<Rightarrow> claimed + interval < now))"

definition system_actor :: "string \<Rightarrow> actor" where
  "system_actor org_id = \<lparr> ac_type = SystemActor, ac_id = org_id, ac_org = org_id, ac_channel = None \<rparr>"

definition tick_project :: "project_env \<Rightarrow> project \<Rightarrow> unit svc" where
  "tick_project pe project =
     eff_catch (eff_bind (start_project_scan pe (system_actor (p_org_id project)) project) (\<lambda>_. eff_return ()))
       (\<lambda>_. eff_return ())"

definition run_scan_loop_tick :: "project_env \<Rightarrow> unit svc" where
  "run_scan_loop_tick pe =
     eff_bind (pe_now pe (\<lambda>now. eff_get (\<lambda>s. filter (scan_due now) (db_projects s))))
       (eff_for (tick_project pe))"

text \<open>The timer of the loop: the module variable \<open>loopHandle\<close> and the intervals that run.\<close>

record scan_timer =
  tm_handle :: "nat option"
  tm_running :: "nat list"

definition start_scan_loop :: "bool \<Rightarrow> nat \<Rightarrow> scan_timer \<Rightarrow> scan_timer" where
  "start_scan_loop disabled fresh t =
     (if disabled \<or> tm_handle t \<noteq> None then t
      else \<lparr> tm_handle = Some fresh, tm_running = fresh # tm_running t \<rparr>)"

definition stop_scan_loop :: "scan_timer \<Rightarrow> scan_timer" where
  "stop_scan_loop t =
     (case tm_handle t of
        None \<Rightarrow> t
      | Some h \<Rightarrow> \<lparr> tm_handle = None, tm_running = removeAll h (tm_running t) \<rparr>)"

end
