(* ===== verification/Scans.thy ===== *)
theory Scans
  imports Projects
begin

text \<open>
  The scan workflow: projects/workflows/steps.ts and index.ts. The reads and alignments of a batch, which
  the code runs concurrently, run one after the other; what other requests do meanwhile is part of what
  the provider calls may do to the database. The loop \<open>while (true)\<close> may not end, so it answers \<open>None\<close>
  when it does not.
\<close>

section \<open>Candidates\<close>

definition scan_candidate :: "operation \<Rightarrow> resource \<Rightarrow> bool" where
  "scan_candidate op r \<longleftrightarrow> r_project_id r = o_project_id op \<and> r_deleted_at r = None \<and> r_provider r \<noteq> None \<and>
     r_integration_id r \<noteq> None \<and> r_identity r \<noteq> None \<and> r_created_at r < o_created_at op"

definition count_scan_resources :: "operation \<Rightarrow> nat svc" where
  "count_scan_resources op = eff_get (\<lambda>s. length (filter (scan_candidate op) (db_resources s)))"

definition after_cursor :: "string option \<Rightarrow> resource \<Rightarrow> bool" where
  "after_cursor cursor r \<longleftrightarrow> (case truthy cursor of None \<Rightarrow> True | Some k \<Rightarrow> k < r_id r)"

definition next_candidates :: "operation \<Rightarrow> string option \<Rightarrow> nat \<Rightarrow> db \<Rightarrow> resource list" where
  "next_candidates op cursor limit s =
     take limit (sort_key r_id (filter (\<lambda>r. scan_candidate op r \<and> after_cursor cursor r) (db_resources s)))"

definition locked_keys :: "operation \<Rightarrow> resource list \<Rightarrow> db \<Rightarrow> string list" where
  "locked_keys op candidates s =
     map (\<lambda>o1. the (o_lock o1)) (filter (\<lambda>o1. o_project_id o1 = o_project_id op \<and> is_open o1 \<and>
       (\<exists>r \<in> set candidates. o_lock o1 = Some (resource_lock (r_id r)))) (db_operations s))"

record scan_resources_batch =
  sb_resources :: "resource list"
  sb_skipped :: nat
  sb_cursor :: "string option"

definition get_next_scan_resources :: "operation \<Rightarrow> string option \<Rightarrow> nat \<Rightarrow> scan_resources_batch svc" where
  "get_next_scan_resources op cursor limit = eff_get (\<lambda>s.
     let candidates = next_candidates op cursor limit s;
         locked = (\<lambda>r. resource_lock (r_id r) \<in> set (locked_keys op candidates s))
     in if candidates = [] then \<lparr> sb_resources = [], sb_skipped = 0, sb_cursor = None \<rparr>
        else \<lparr> sb_resources = filter (\<lambda>r. \<not> locked r) candidates, sb_skipped = length (filter locked candidates),
               sb_cursor = Some (r_id (last candidates)) \<rparr>)"

section \<open>Integrations and schemas of a batch\<close>

definition group_step :: "resource \<Rightarrow> (string \<times> resource list) list \<times> resource list \<Rightarrow>
    (string \<times> resource list) list \<times> resource list" where
  "group_step r acc = (case truthy (r_integration_id r) of
     None \<Rightarrow> (fst acc, snd acc @ [r])
   | Some k \<Rightarrow> (AList.map_default k [r] (\<lambda>rs. rs @ [r]) (fst acc), snd acc))"

definition known_step :: "(string \<times> integration) list \<Rightarrow> string \<times> resource list \<Rightarrow>
    (integration \<times> resource list) list \<times> resource list \<Rightarrow> (integration \<times> resource list) list \<times> resource list" where
  "known_step known g acc = (case map_of known (fst g) of
     Some integration \<Rightarrow> (fst acc @ [(integration, snd g)], snd acc)
   | None \<Rightarrow> (fst acc, snd acc @ snd g))"

definition get_scan_resource_integration_groups ::
  "operation \<Rightarrow> resource list \<Rightarrow> ((integration \<times> resource list) list \<times> resource list) svc" where
  "get_scan_resource_integration_groups op batch =
     (let (by_id, failed) = fold group_step batch ([], [])
      in eff_bind (get_integrations_by_ids (o_project_id op) (map fst by_id)) (\<lambda>known.
         eff_return (fold (known_step known) by_id ([], failed))))"

definition schema_key :: "integration \<Rightarrow> resource \<Rightarrow> string" where
  "schema_key integration r = i_id integration @ '':'' @ r_type r"

type_synonym wanted = "(string \<times> provider_ref \<times> string) list"

definition want_schema :: "integration \<Rightarrow> provider_ref \<Rightarrow> resource \<Rightarrow> wanted \<Rightarrow> wanted" where
  "want_schema integration ref r w =
     (if schema_key integration r \<in> fst ` set w then w else w @ [(schema_key integration r, ref, r_type r)])"

definition want_group :: "runtime \<Rightarrow> integration \<times> resource list \<Rightarrow> wanted \<Rightarrow> js_error + wanted" where
  "want_group rt g w = (case provider_ref_from_integration (rt_catalog rt) (fst g) of
     Inl e \<Rightarrow> Inl e
   | Inr ref \<Rightarrow> Inr (fold (want_schema (fst g) ref) (snd g) w))"

definition load_schema :: "runtime \<Rightarrow> string \<times> provider_ref \<times> string \<Rightarrow> (string \<times> resource_type_schema option) svc" where
  "load_schema rt entry = (case entry of (key, ref, ty) \<Rightarrow>
     eff_bind (eff_catch (rt_schema rt ref ty) (\<lambda>_. eff_return None)) (\<lambda>schema. eff_return (key, schema)))"

definition get_scan_resource_schemas ::
  "runtime \<Rightarrow> (integration \<times> resource list) list \<Rightarrow> (string \<times> resource_type_schema option) list svc" where
  "get_scan_resource_schemas rt groups =
     eff_bind (eff_lift (fold_res (want_group rt) groups [])) (eff_map (load_schema rt))"

section \<open>Alignment\<close>

datatype scan_outcome = Unchanged | Absorbed | MissingOutcome | FailedOutcome | SkippedDuringRun

definition get_scan_resource_patch ::
  "resource \<Rightarrow> jsobj option \<Rightarrow> resource_type_schema option \<Rightarrow> (resource_patch \<times> scan_outcome) option" where
  "get_scan_resource_patch r read schema =
     (case get_resource_state_patch_after_read r read schema of
        None \<Rightarrow> None
      | Some patch \<Rightarrow> Some (patch, if patch = PatchStatus Missing then MissingOutcome else Absorbed))"

fun scan_outcome_str :: "scan_outcome \<Rightarrow> string" where
  "scan_outcome_str Unchanged = ''unchanged''"
| "scan_outcome_str Absorbed = ''absorbed''"
| "scan_outcome_str MissingOutcome = ''missing''"
| "scan_outcome_str FailedOutcome = ''failed''"
| "scan_outcome_str SkippedDuringRun = ''skippedDuringRun''"

definition create_scan_alignment_operation :: "project_env \<Rightarrow> operation \<Rightarrow> resource \<Rightarrow> scan_outcome \<Rightarrow> operation svc" where
  "create_scan_alignment_operation pe scan r reason = (\<lambda>s.
     pe_now pe (\<lambda>now. create_operation (pe_ids pe s) now
       \<lparr> cp_project_id = o_project_id scan, cp_resource_id = Some (r_id r), cp_item_id = None, cp_retry_of = None,
         cp_run_id = None, cp_lock = Some (resource_lock (r_id r)), cp_kind = OpUpdate, cp_approval = None,
         cp_actor = o_actor scan,
         cp_request = [(''mode'', JStr ''scan_alignment''), (''scanOperationId'', JStr (o_id scan)),
           (''reason'', JStr (scan_outcome_str reason))] \<rparr>) s)"

definition complete_scan_alignment_operation ::
  "project_env \<Rightarrow> operation \<Rightarrow> jsobj \<Rightarrow> resource_patch \<Rightarrow> operation svc" where
  "complete_scan_alignment_operation pe op result patch =
     pe_now pe (\<lambda>now. mark_operation_succeeded now op result (Some patch))"

definition fail_operation :: "project_env \<Rightarrow> operation \<Rightarrow> js_error \<Rightarrow> operation svc" where
  "fail_operation pe op e =
     pe_now pe (\<lambda>now. mark_operation_failed now op (describe_operation_error (rt_driver (pe_rt pe)) e) None)"

definition settle_drift ::
  "project_env \<Rightarrow> operation \<Rightarrow> resource \<Rightarrow> resource_patch \<Rightarrow> scan_outcome \<Rightarrow> operation \<Rightarrow> scan_outcome svc" where
  "settle_drift pe scan r patch reason op =
     eff_catch
       (eff_bind (complete_scan_alignment_operation pe op
           [(''scanOperationId'', JStr (o_id scan)), (''resourceId'', JStr (r_id r)),
            (''reason'', JStr (scan_outcome_str reason))] patch) (\<lambda>_. eff_return reason))
       (\<lambda>err. eff_bind (fail_operation pe op err) (\<lambda>_. eff_return FailedOutcome))"

definition align_scan_resource ::
  "project_env \<Rightarrow> operation \<Rightarrow> resource \<Rightarrow> jsobj option \<Rightarrow> resource_type_schema option \<Rightarrow> bool \<Rightarrow> scan_outcome svc" where
  "align_scan_resource pe scan r read schema read_failed =
     (if read_failed then eff_return FailedOutcome
      else case get_scan_resource_patch r read schema of
        None \<Rightarrow> eff_return Unchanged
      | Some (patch, reason) \<Rightarrow>
          eff_bind (eff_catch
              (eff_bind (create_scan_alignment_operation pe scan r reason) (\<lambda>op. eff_return (Some op)))
              (\<lambda>err. case err of Conflict d \<Rightarrow> eff_return None | _ \<Rightarrow> eff_throw err)) (\<lambda>created.
            case created of
              None \<Rightarrow> eff_return SkippedDuringRun
            | Some op \<Rightarrow> settle_drift pe scan r patch reason op))"

section \<open>The workflow\<close>

definition SCAN_BATCH_SIZE :: nat where "SCAN_BATCH_SIZE = 25"

record scan_counts =
  sn_total :: nat
  sn_scanned :: nat
  sn_inflight :: nat
  sn_unchanged :: nat
  sn_absorbed :: nat
  sn_missing :: nat
  sn_failed :: nat
  sn_during :: nat

fun count_outcome :: "scan_outcome \<Rightarrow> scan_counts \<Rightarrow> scan_counts" where
  "count_outcome Unchanged c = c\<lparr> sn_unchanged := sn_unchanged c + 1 \<rparr>"
| "count_outcome Absorbed c = c\<lparr> sn_absorbed := sn_absorbed c + 1 \<rparr>"
| "count_outcome MissingOutcome c = c\<lparr> sn_missing := sn_missing c + 1 \<rparr>"
| "count_outcome FailedOutcome c = c\<lparr> sn_failed := sn_failed c + 1 \<rparr>"
| "count_outcome SkippedDuringRun c = c\<lparr> sn_during := sn_during c + 1 \<rparr>"

record scan_read =
  sr_resource :: resource
  sr_key :: string
  sr_state :: "jsobj option"
  sr_failed :: bool

definition read_for_scan :: "runtime \<Rightarrow> integration \<Rightarrow> resource \<Rightarrow> scan_read svc" where
  "read_for_scan rt integration r =
     eff_catch
       (eff_bind (read_resource_state rt r integration) (\<lambda>state. eff_return
          \<lparr> sr_resource = r, sr_key = schema_key integration r, sr_state = state, sr_failed = False \<rparr>))
       (\<lambda>_. eff_return \<lparr> sr_resource = r, sr_key = schema_key integration r, sr_state = None, sr_failed = True \<rparr>)"

definition align_read ::
  "project_env \<Rightarrow> operation \<Rightarrow> (string \<times> resource_type_schema option) list \<Rightarrow> scan_read \<Rightarrow> scan_outcome svc" where
  "align_read pe scan schemas x =
     align_scan_resource pe scan (sr_resource x) (sr_state x)
       (case map_of schemas (sr_key x) of None \<Rightarrow> None | Some schema \<Rightarrow> schema) (sr_failed x)"

definition scan_batch_outcomes :: "project_env \<Rightarrow> operation \<Rightarrow> resource list \<Rightarrow> scan_outcome list svc" where
  "scan_batch_outcomes pe scan batch =
     (if batch = [] then eff_return []
      else
        eff_bind (get_scan_resource_integration_groups scan batch) (\<lambda>(groups, failed).
        eff_bind (get_scan_resource_schemas (pe_rt pe) groups) (\<lambda>schemas.
        eff_bind (eff_map (\<lambda>(integration, r). read_for_scan (pe_rt pe) integration r)
            (concat (map (\<lambda>(integration, rs). map (Pair integration) rs) groups))) (\<lambda>reads.
        eff_bind (eff_map (align_read pe scan schemas) reads) (\<lambda>outcomes.
        eff_return (map (\<lambda>_. FailedOutcome) failed @ outcomes))))))"

definition scan_batch ::
  "project_env \<Rightarrow> operation \<Rightarrow> string option \<Rightarrow> scan_counts \<Rightarrow> (string option \<times> scan_counts) svc" where
  "scan_batch pe scan cursor counts =
     eff_bind (get_next_scan_resources scan cursor SCAN_BATCH_SIZE) (\<lambda>batch.
     eff_bind (scan_batch_outcomes pe scan (sb_resources batch)) (\<lambda>outcomes.
     eff_return (sb_cursor batch, fold count_outcome outcomes
       (counts\<lparr> sn_scanned := sn_scanned counts + length (sb_resources batch),
          sn_inflight := sn_inflight counts + sb_skipped batch \<rparr>))))"

partial_function (option) scan_loop ::
  "project_env \<Rightarrow> operation \<Rightarrow> string option \<Rightarrow> scan_counts \<Rightarrow> db \<Rightarrow> ((js_error + scan_counts) \<times> db) option" where
  "scan_loop pe scan cursor counts s =
     (case scan_batch pe scan cursor counts s of
        (Inl e, t) \<Rightarrow> Some (Inl e, t)
      | (Inr (cursor', counts'), t) \<Rightarrow>
          (case truthy cursor' of
             None \<Rightarrow> Some (Inr counts', t)
           | Some k \<Rightarrow> scan_loop pe scan (Some k) counts' t))"

declare scan_loop.simps [code]

definition start_scan_operation :: "project_env \<Rightarrow> operation \<Rightarrow> operation svc" where
  "start_scan_operation pe op = pe_now pe (\<lambda>now. mark_operation_running now op None)"

definition counts_json :: "scan_counts \<Rightarrow> jsobj" where
  "counts_json c = map (\<lambda>(k, n). (k, JNum (of_nat n)))
     [(''totalResources'', sn_total c), (''scanned'', sn_scanned c), (''skippedInflight'', sn_inflight c),
      (''unchanged'', sn_unchanged c), (''absorbed'', sn_absorbed c), (''missing'', sn_missing c),
      (''failed'', sn_failed c), (''skippedDuringRun'', sn_during c)]"

definition complete_scan_operation :: "project_env \<Rightarrow> operation \<Rightarrow> jsobj \<Rightarrow> operation svc" where
  "complete_scan_operation pe op result = pe_now pe (\<lambda>now. mark_operation_succeeded now op result None)"

definition initial_counts :: "nat \<Rightarrow> scan_counts" where
  "initial_counts n = \<lparr> sn_total = n, sn_scanned = 0, sn_inflight = 0, sn_unchanged = 0, sn_absorbed = 0,
     sn_missing = 0, sn_failed = 0, sn_during = 0 \<rparr>"

text \<open>The body of the \<open>try\<close>, with its loop.\<close>

definition scan_body :: "project_env \<Rightarrow> operation \<Rightarrow> db \<Rightarrow> ((js_error + scan_counts) \<times> db) option" where
  "scan_body pe op s =
     (case eff_bind (start_scan_operation pe op) (\<lambda>_. count_scan_resources op) s of
        (Inl e, t) \<Rightarrow> Some (Inl e, t)
      | (Inr n, t) \<Rightarrow>
          (case scan_loop pe op None (initial_counts n) t of
             None \<Rightarrow> None
           | Some (Inl e, u) \<Rightarrow> Some (Inl e, u)
           | Some (Inr counts, u) \<Rightarrow>
               Some (eff_bind (complete_scan_operation pe op (counts_json counts)) (\<lambda>_. eff_return counts) u)))"

definition scan_project_workflow :: "project_env \<Rightarrow> operation \<Rightarrow> db \<Rightarrow> ((js_error + scan_counts) \<times> db) option" where
  "scan_project_workflow pe op s =
     map_option (\<lambda>(r, t). case r of
         Inr counts \<Rightarrow> (Inr counts, t)
       | Inl e \<Rightarrow> eff_bind (fail_operation pe op e) (\<lambda>_. eff_throw e) t)
       (scan_body pe op s)"

end
