(* ===== verification/ScanOrder.thy ===== *)
theory ScanOrder
  imports Scans OperationFacts
begin

text \<open>
  The interface of the statements about a scan that compare two states: an order the provider calls and
  the alignment of a resource respect is respected by a batch, by the loop and by the workflow.
\<close>

definition scan_calls :: "(db \<Rightarrow> db \<Rightarrow> bool) \<Rightarrow> runtime \<Rightarrow> bool" where
  "scan_calls R rt \<longleftrightarrow>
     (\<forall>ty identity ref int. eff_moves R (rt_read rt ty identity ref int)) \<and>
     (\<forall>ref ty. eff_moves R (rt_schema rt ref ty))"

locale scan_order = state_order R for R :: "db \<Rightarrow> db \<Rightarrow> bool"
begin

lemma now_order: "(\<And>now. eff_moves R (f now)) \<Longrightarrow> eff_moves R (pe_now pe f)"
  by (simp add: eff_moves_def pe_now_def with_now_def)

lemma map_order: "(\<And>x. eff_moves R (f x)) \<Longrightarrow> eff_moves R (eff_map f xs)"
  by (induction xs) (auto intro!: moves_basic moves_bind)

lemma batch_order:
  assumes calls: "scan_calls R (pe_rt pe)"
    and align: "\<And>r read schema failed. eff_moves R (align_scan_resource pe scan r read schema failed)"
  shows "eff_moves R (scan_batch pe scan cursor counts)"
proof -
  have "eff_moves R (rt_read (pe_rt pe) ty identity ref int)" "eff_moves R (rt_schema (pe_rt pe) ref ty)"
    for ty identity ref int using calls by (simp_all add: scan_calls_def)
  then have "eff_moves R (read_for_scan (pe_rt pe) integration r)" "eff_moves R (load_schema (pe_rt pe) entry)"
    for integration r entry
    unfolding read_for_scan_def read_resource_state_def dispatch_on_def load_schema_def
    by (auto intro!: moves_basic moves_bind moves_catch moves_cases split: option.split prod.split)
  then have "eff_moves R (scan_batch_outcomes pe scan batch)" for batch
    unfolding scan_batch_outcomes_def get_scan_resource_integration_groups_def get_integrations_by_ids_def
      get_scan_resource_schemas_def align_read_def
    by (auto simp: align intro!: moves_basic moves_bind map_order split: prod.splits)
  then show ?thesis
    unfolding scan_batch_def get_next_scan_resources_def by (intro moves_basic moves_bind)
qed

lemma loop_order:
  assumes batch: "\<And>cursor counts. eff_moves R (scan_batch pe scan cursor counts)"
    and run: "scan_loop pe scan cursor counts s = Some out"
  shows "R s (snd out)"
proof -
  have "pe' = pe \<longrightarrow> scan' = scan \<longrightarrow> R s (snd out)" if "scan_loop pe' scan' cursor counts s = Some out"
    for pe' scan' cursor counts s out
    using that
  proof (rule scan_loop.raw_induct [rotated])
    fix loop pe' scan' cursor counts s out
    assume IH: "\<And>pe' scan' cursor counts s out. loop pe' scan' cursor counts s = Some out \<Longrightarrow>
        pe' = pe \<longrightarrow> scan' = scan \<longrightarrow> R s (snd out)"
      and run: "(case scan_batch pe' scan' cursor counts s of
        (Inl e, t) \<Rightarrow> Some (Inl e, t)
      | (Inr (cursor', counts'), t) \<Rightarrow>
          (case truthy cursor' of
             None \<Rightarrow> Some (Inr counts', t)
           | Some k \<Rightarrow> loop pe' scan' (Some k) counts' t)) = Some out"
    show "pe' = pe \<longrightarrow> scan' = scan \<longrightarrow> R s (snd out)"
    proof (intro impI)
      assume same: "pe' = pe" "scan' = scan"
      obtain r t where b: "scan_batch pe scan cursor counts s = (r, t)" by (cases "scan_batch pe scan cursor counts s")
      have st: "R s t" by (rule moves_state [OF batch b])
      from run b same consider "snd out = t" | d k where "loop pe scan (Some k) d t = Some out"
        by (auto split: sum.splits prod.splits option.splits)
      then show "R s (snd out)"
      proof cases
        case 1
        with st show ?thesis by simp
      next
        case 2
        from IH [OF 2] st show ?thesis by (auto intro: R_trans)
      qed
    qed
  qed
  with run show ?thesis by blast
qed

lemma workflow_order:
  assumes "\<And>cursor counts. eff_moves R (scan_batch pe scan cursor counts)"
    and "eff_moves R (start_scan_operation pe scan)"
    and "\<And>result. eff_moves R (complete_scan_operation pe scan result)" "\<And>e. eff_moves R (fail_operation pe scan e)"
    and run: "scan_project_workflow pe scan s = Some out"
  shows "R s (snd out)"
proof -
  have count: "eff_moves R (eff_bind (start_scan_operation pe scan) (\<lambda>_. count_scan_resources scan))"
    unfolding count_scan_resources_def by (intro moves_basic moves_bind assms)
  have finish: "eff_moves R (eff_bind (complete_scan_operation pe scan result) (\<lambda>_. eff_return x))"
    "eff_moves R (eff_bind (fail_operation pe scan e) (\<lambda>_. eff_throw e))" for result x e
    by (intro moves_basic moves_bind assms)+
  from run obtain r t where body: "scan_body pe scan s = Some (r, t)"
    and out: "out = (case r of Inr counts \<Rightarrow> (Inr counts, t)
       | Inl e \<Rightarrow> eff_bind (fail_operation pe scan e) (\<lambda>_. eff_throw e) t)"
    by (auto simp: scan_project_workflow_def)
  obtain x u where first: "eff_bind (start_scan_operation pe scan) (\<lambda>_. count_scan_resources scan) s = (x, u)"
    by (cases "eff_bind (start_scan_operation pe scan) (\<lambda>_. count_scan_resources scan) s")
  have su: "R s u" by (rule moves_state [OF count first])
  have "R s t"
  proof (cases x)
    case (Inl e)
    with body first su show ?thesis by (simp add: scan_body_def)
  next
    case (Inr n)
    from body first Inr obtain y v where loop: "scan_loop pe scan None (initial_counts n) u = Some (y, v)"
      and rest: "(case y of Inl e \<Rightarrow> (Inl e, v)
        | Inr counts \<Rightarrow> eff_bind (complete_scan_operation pe scan (counts_json counts)) (\<lambda>_. eff_return counts) v) = (r, t)"
      by (auto simp: scan_body_def split: option.splits sum.splits prod.splits)
    have uv: "R u v" using loop_order [OF assms(1) loop] by simp
    have vt: "R v t"
    proof (cases y)
      case (Inl e)
      with rest show ?thesis by (simp add: R_refl)
    next
      case (Inr counts)
      with rest have "eff_bind (complete_scan_operation pe scan (counts_json counts)) (\<lambda>_. eff_return counts) v = (r, t)" by simp
      then show ?thesis by (rule moves_state [OF finish(1)])
    qed
    from R_trans [OF R_trans [OF su uv] vt] show ?thesis .
  qed
  moreover have "R t (snd out)"
  proof (cases r)
    case (Inl e)
    have "R t (snd (eff_bind (fail_operation pe scan e) (\<lambda>_. eff_throw e) t))"
      using finish(2) [of e] unfolding eff_moves_def by blast
    with Inl out show ?thesis by simp
  next
    case (Inr c)
    with out show ?thesis by (simp add: R_refl)
  qed
  ultimately show ?thesis by (rule R_trans)
qed

end

end
