(* ===== verification/ResourceServiceProps.thy ===== *)
theory ResourceServiceProps
  imports ResourceService LockTable WorkflowTheorems ChangesetProps
begin

text \<open>
  What a call of the resource service leaves behind: nothing when it is rejected, one pending operation
  when its run does not start, and one pending operation with its run otherwise.
\<close>

section \<open>Computations that only read\<close>

definition unchanged :: "db \<Rightarrow> db \<Rightarrow> bool" where
  "unchanged s t \<longleftrightarrow> t = s"

interpretation reads: state_order unchanged
  by unfold_locales (simp_all add: unchanged_def)

lemma unchanged_run: "eff_moves unchanged m \<Longrightarrow> m s = (r, t) \<Longrightarrow> t = s"
  by (metis eff_moves_def unchanged_def snd_conv)

lemmas read_moves_intros = reads.moves_basic reads.moves_bind reads.moves_catch reads.moves_cases

lemma integration_reads: "eff_moves unchanged (get_integration_by_resource_type project_id ty slug)"
proof -
  have "eff_moves unchanged (get_default_integration_by_provider project_id p)"
    "eff_moves unchanged (get_integration_by_slug project_id k)" for p k
    by (simp_all add: eff_moves_def unchanged_def get_default_integration_by_provider_def
        get_integration_by_slug_def split: option.split)
  then show ?thesis unfolding get_integration_by_resource_type_def by (intro read_moves_intros)
qed

lemma slug_reads: "eff_moves unchanged (assert_slug_free project slug)"
  unfolding assert_slug_free_def get_resource_by_slug_def by (intro read_moves_intros)

lemma reference_reads: "eff_moves unchanged (assert_no_self_reference slug inputs)"
  unfolding assert_no_self_reference_def by (intro read_moves_intros)

text \<open>The provider calls of the import preflight, which reads the target before anything is written.\<close>

definition preflight_reads :: "runtime \<Rightarrow> bool" where
  "preflight_reads rt \<longleftrightarrow>
     (\<forall>ty h ref int. eff_moves unchanged (rt_import rt ty h ref int)) \<and>
     (\<forall>ref ty. eff_moves unchanged (rt_schema rt ref ty))"

lemma preflight_unchanged:
  assumes "preflight_reads rt"
  shows "eff_moves unchanged (assert_import_target_exists rt integration ty identity provider_id)"
proof -
  have "eff_moves unchanged (rt_import rt ty h ref int)" "eff_moves unchanged (rt_schema rt ref ty)"
    for ty h ref int using assms by (simp_all add: preflight_reads_def)
  moreover have "eff_moves unchanged (missing_as_input_error e)" for e
    unfolding missing_as_input_error_def by (cases e) (simp_all add: reads.moves_basic)
  ultimately show ?thesis
    unfolding assert_import_target_exists_def read_import_state_def
    by (intro read_moves_intros)
qed

section \<open>Opening and starting\<close>

definition opened :: "string \<Rightarrow> db \<Rightarrow> db \<Rightarrow> operation \<Rightarrow> bool" where
  "opened k s t op \<longleftrightarrow> db_operations t = db_operations s @ [op] \<and> o_id op = k \<and> o_status op = Pending \<and>
     o_run_id op = None"

lemma open_operation_run:
  assumes "open_operation re actor project resource_id kind lock request s = (r, t)"
  shows "(case r of Inl e \<Rightarrow> t = s | Inr op \<Rightarrow> opened (fst (snd (re_ids re s))) s t op \<and> o_lock op = lock)"
  using assms
  by (auto simp: open_operation_def re_now_def with_now_def create_operation_def eff_simps insert_operation_def
      notify_operation_def pg_notify_def new_operation_def opened_def split: if_splits prod.splits sum.splits)

lemma insert_resource_run:
  "insert_resource r s = (Inr r', t) \<Longrightarrow> r' = r \<and> db_operations t = db_operations s"
  by (auto simp: insert_resource_def split: if_splits)

lemma insert_layout_run: "insert_layout l s = (Inr u, t) \<Longrightarrow> db_operations t = db_operations s"
  by (auto simp: insert_layout_def split: if_splits)

lemma insert_operation_run:
  "insert_operation op s = (Inr op', t) \<Longrightarrow> op' = op \<and> db_operations t = db_operations s @ [op]"
  by (auto simp: insert_operation_def split: if_splits)

lemma notes_run:
  "notify_operation op s = (Inr (), s\<lparr> db_notes := db_notes s @ [NoteOperation op] \<rparr>)"
  "\<exists>t. notify_resource r ev s = (Inr (), t) \<and> db_operations t = db_operations s"
  by (simp_all add: notify_operation_def notify_resource_def pg_notify_def eff_simps)

lemma create_resource_run:
  assumes "create_resource_with_operation rid k lid now p s = (r, t)"
  shows "(case r of Inl e \<Rightarrow> t = s | Inr (row, op) \<Rightarrow> opened k s t op)"
proof -
  define tx where "tx = eff_bind (insert_resource (new_resource_row rid now p)) (\<lambda>resource.
      eff_bind (case nr_position (rp_resource p) of
          None \<Rightarrow> eff_return ()
        | Some pos \<Rightarrow> insert_layout \<lparr> l_id = lid, l_resource_id = r_id resource,
            l_view_id = None, l_position = Some pos, l_size = None, l_collapsed = False \<rparr>) (\<lambda>_.
      eff_bind (insert_operation (new_resource_operation k (r_id resource) now p)) (\<lambda>op.
      eff_return (resource, op))))"
  have new: "o_id (new_resource_operation k x now p) = k" "o_status (new_resource_operation k x now p) = Pending"
    "o_run_id (new_resource_operation k x now p) = None" for x
    by (simp_all add: new_resource_operation_def new_operation_def)
  have tx: "opened k s u op" if "tx s = (Inr (row, op), u)" for row op u
    using that unfolding tx_def
    by (auto simp: eff_simps opened_def new split: prod.splits sum.splits option.splits
        dest!: insert_resource_run insert_layout_run insert_operation_run)
  obtain x u where run: "tx s = (x, u)" by (cases "tx s")
  show ?thesis
  proof (cases x)
    case (Inl e)
    with run assms show ?thesis
      unfolding create_resource_with_operation_def tx_def [symmetric]
      by (auto simp: eff_catch_run eff_bind_run eff_tx_run eff_run split: if_splits)
  next
    case (Inr y)
    obtain row op where y: "y = (row, op)" by (cases y)
    obtain v where v: "notify_resource row ResourceCreated (u\<lparr> db_notes := db_notes u @ [NoteOperation op] \<rparr>) = (Inr (), v)"
      "db_operations v = db_operations u" using notes_run(2) by fastforce
    have "opened k s v op" using tx [OF run [unfolded Inr y]] v(2) by (simp add: opened_def)
    moreover have "(r, t) = (Inr (row, op), v)"
      using assms unfolding create_resource_with_operation_def tx_def [symmetric]
      by (simp add: eff_catch_run eff_bind_run eff_tx_run eff_run run Inr y notes_run(1) v(1))
    ultimately show ?thesis by simp
  qed
qed


section \<open>The outcome of a call\<close>

definition start_leaves :: "resource_env \<Rightarrow> bool" where
  "start_leaves re \<longleftrightarrow> (\<forall>w op. eff_moves unchanged (re_start re w op))"

text \<open>Rejected: nothing changed. Not started: the new operation is there, pending and without a run,
  and the error is the one \<open>start\<close> threw. Started: the new operation is there with its run.\<close>

definition rejected :: "db \<Rightarrow> (js_error + operation) \<times> db \<Rightarrow> bool" where
  "rejected s out \<longleftrightarrow> isl (fst out) \<and> snd out = s"

definition not_started :: "resource_env \<Rightarrow> workflow_name \<Rightarrow> db \<Rightarrow> (js_error + operation) \<times> db \<Rightarrow> bool" where
  "not_started re w s out \<longleftrightarrow> (\<exists>op e. out = (Inl e, snd out) \<and> re_start re w op (snd out) = (Inl e, snd out) \<and>
     opened (fst (snd (re_ids re s))) s (snd out) op)"

definition started_with :: "resource_env \<Rightarrow> workflow_name \<Rightarrow> db \<Rightarrow> (js_error + operation) \<times> db \<Rightarrow> bool" where
  "started_with re w s out \<longleftrightarrow> (\<exists>op. fst out = Inr op \<and> db_operations (snd out) = db_operations s @ [op] \<and>
     o_status op = Pending \<and> o_run_id op \<noteq> None)"

lemma attach_run:
  assumes "opened k s t op" "k \<notin> o_id ` set (db_operations s)"
    and "attach_operation_workflow_run now op run t = (r, u)"
  shows "\<exists>op'. r = Inr op' \<and> db_operations u = db_operations s @ [op'] \<and> o_status op' = Pending \<and>
    o_run_id op' = Some run"
proof -
  let ?g = "\<lambda>o1. (o1\<lparr> o_run_id := (case o_run_id o1 of None \<Rightarrow> Some run | Some r \<Rightarrow> Some r) \<rparr>)\<lparr> o_updated_at := now \<rparr>"
  have op: "db_operations t = db_operations s @ [op]" "o_id op = k" "o_status op = Pending" "o_run_id op = None"
    using assms(1) by (simp_all add: opened_def)
  have old: "filter (\<lambda>o1. o_id o1 = k) (db_operations s) = []"
    "map (\<lambda>o1. if o_id o1 = k then ?g o1 else o1) (db_operations s) = db_operations s"
    using assms(2) by (auto simp: filter_empty_conv intro!: map_idI)
  show ?thesis
    using assms(3) op old
    by (auto simp: attach_operation_workflow_run_def eff_simps update_operation_def Let_def returning_def
        update_where_def first_row_def notes_run with_request_def)
qed

lemma start_run:
  assumes "opened (fst (snd (re_ids re s))) s t op" "fst (snd (re_ids re s)) \<notin> o_id ` set (db_operations s)"
    and "start_leaves re"
  shows "not_started re w s (start_and_attach re w op t) \<or> started_with re w s (start_and_attach re w op t)"
proof -
  obtain r u where start: "re_start re w op t = (r, u)" by (cases "re_start re w op t")
  with assms(3) have u: "u = t" unfolding start_leaves_def using unchanged_run by blast
  show ?thesis
  proof (cases r)
    case (Inl e)
    with start u have "start_and_attach re w op t = (Inl e, t)" by (simp add: start_and_attach_def eff_bind_run)
    with start u Inl assms(1) show ?thesis by (auto simp: not_started_def)
  next
    case (Inr run)
    obtain x v where a: "attach_operation_workflow_run (rt_clock (re_rt re) t) op run t = (x, v)"
      by (cases "attach_operation_workflow_run (rt_clock (re_rt re) t) op run t")
    with start u Inr have "start_and_attach re w op t = (x, v)"
      by (simp add: start_and_attach_def eff_bind_run re_now_def with_now_def)
    with attach_run [OF assms(1,2) a] show ?thesis by (auto simp: started_with_def)
  qed
qed

definition outcome_ok :: "resource_env \<Rightarrow> workflow_name \<Rightarrow> operation svc \<Rightarrow> bool" where
  "outcome_ok re w m \<longleftrightarrow> (\<forall>s. fst (snd (re_ids re s)) \<notin> o_id ` set (db_operations s) \<longrightarrow>
     rejected s (m s) \<or> not_started re w s (m s) \<or> started_with re w s (m s))"

lemma opening_outcome:
  assumes "start_leaves re"
    and "\<And>s r t. m s = (r, t) \<Longrightarrow> (case r of Inl e \<Rightarrow> t = s | Inr op \<Rightarrow> opened (fst (snd (re_ids re s))) s t op)"
  shows "outcome_ok re w (eff_bind m (start_and_attach re w))"
  unfolding outcome_ok_def
proof (intro allI impI)
  fix s assume fresh: "fst (snd (re_ids re s)) \<notin> o_id ` set (db_operations s)"
  obtain r t where m: "m s = (r, t)" by (cases "m s")
  show "rejected s (eff_bind m (start_and_attach re w) s) \<or> not_started re w s (eff_bind m (start_and_attach re w) s) \<or>
    started_with re w s (eff_bind m (start_and_attach re w) s)"
  proof (cases r)
    case (Inl e)
    with assms(2) [OF m] m show ?thesis by (simp add: eff_bind_run rejected_def)
  next
    case (Inr op)
    with assms(2) [OF m] m start_run [OF _ fresh assms(1)] show ?thesis by (simp add: eff_bind_run)
  qed
qed

lemma reading_outcome:
  assumes "eff_moves unchanged m" "\<And>x. outcome_ok re w (f x)"
  shows "outcome_ok re w (eff_bind m f)"
  unfolding outcome_ok_def
proof (intro allI impI)
  fix s assume fresh: "fst (snd (re_ids re s)) \<notin> o_id ` set (db_operations s)"
  obtain r t where m: "m s = (r, t)" by (cases "m s")
  with unchanged_run [OF assms(1) m] assms(2) fresh
  show "rejected s (eff_bind m f s) \<or> not_started re w s (eff_bind m f s) \<or> started_with re w s (eff_bind m f s)"
    by (cases r) (simp_all add: eff_bind_run rejected_def outcome_ok_def)
qed

lemma rejecting_outcome: "outcome_ok re w (eff_throw e)"
  by (simp add: outcome_ok_def rejected_def eff_run)

lemma open_outcome:
  "start_leaves re \<Longrightarrow> outcome_ok re w (eff_bind (open_operation re actor project rid kind lock request) (start_and_attach re w))"
  by (rule opening_outcome) (auto dest: open_operation_run split: sum.splits)

lemma open_resource_outcome:
  assumes "start_leaves re"
  shows "outcome_ok re w (eff_bind (open_resource_operation re actor project kind request row) (start_and_attach re w))"
proof (rule opening_outcome [OF assms])
  fix s r t assume run: "open_resource_operation re actor project kind request row s = (r, t)"
  obtain rid k lid where ids: "re_ids re s = (rid, k, lid)" by (cases "re_ids re s") auto
  from run show "case r of Inl e \<Rightarrow> t = s | Inr op \<Rightarrow> opened (fst (snd (re_ids re s))) s t op"
    by (auto simp: open_resource_operation_def re_now_def with_now_def ids eff_simps
        split: prod.splits sum.splits dest!: create_resource_run)
qed

section \<open>The calls\<close>

datatype service_call =
    CallCreate create_changes
  | CallUpdate resource jsobj
  | CallImport import_changes
  | CallRead resource
  | CallLookup jsobj
  | CallDelete resource
  | CallForget resource

fun service :: "resource_env \<Rightarrow> actor \<Rightarrow> project \<Rightarrow> service_call \<Rightarrow> operation svc" where
  "service re actor project (CallCreate body) = create_resource re actor project body"
| "service re actor project (CallUpdate r inputs) = update_resource re actor project r inputs"
| "service re actor project (CallImport body) = import_resource re actor project body"
| "service re actor project (CallRead r) = read_resource re actor project r"
| "service re actor project (CallLookup body) = lookup_data re actor project body"
| "service re actor project (CallDelete r) = delete_resource re actor project r"
| "service re actor project (CallForget r) = forget_resource re actor project r"

fun workflow_of :: "service_call \<Rightarrow> workflow_name" where
  "workflow_of (CallCreate body) = CreateWorkflow"
| "workflow_of (CallUpdate r inputs) = UpdateWorkflow"
| "workflow_of (CallImport body) = ImportWorkflow"
| "workflow_of (CallRead r) = ReadWorkflow"
| "workflow_of (CallLookup body) = LookupWorkflow"
| "workflow_of (CallDelete r) = DeleteWorkflow"
| "workflow_of (CallForget r) = ForgetWorkflow"


lemma service_outcome_ok:
  assumes start: "start_leaves re" and pre: "preflight_reads (re_rt re)"
  shows "outcome_ok re (workflow_of c) (service re actor project c)"
proof -
  note intros = reading_outcome rejecting_outcome open_outcome [OF start] open_resource_outcome [OF start]
    slug_reads reference_reads integration_reads preflight_unchanged [OF pre] read_moves_intros
  show ?thesis
  proof (cases c)
    case (CallCreate body)
    then show ?thesis by (auto simp: create_resource_def intro!: intros split: prod.splits option.splits)
  next
    case (CallUpdate r inputs)
    then show ?thesis by (auto simp: update_resource_def intro!: intros)
  next
    case (CallImport body)
    then show ?thesis by (auto simp: import_resource_def intro!: intros)
  next
    case (CallRead r)
    then show ?thesis by (auto simp: read_resource_def intro!: intros)
  next
    case (CallLookup body)
    then show ?thesis by (auto simp: lookup_data_def intro!: intros)
  next
    case (CallDelete r)
    then show ?thesis by (auto simp: delete_resource_def intro!: intros)
  next
    case (CallForget r)
    then show ?thesis by (auto simp: forget_resource_def intro!: intros)
  qed
qed

text \<open>C22: a call of the resource service (create, update, import, read, lookup, delete, forget) has one
  of three outcomes: it throws and the database is as it was; it throws what \<open>start\<close> threw and has left
  one new operation, pending and without a run; or it answers the one operation it added, pending and
  with its run.\<close>

theorem service_call_outcome:
  assumes "start_leaves re" "preflight_reads (re_rt re)"
    and "fst (snd (re_ids re s)) \<notin> o_id ` set (db_operations s)"
  shows "rejected s (service re actor project c s) \<or>
    not_started re (workflow_of c) s (service re actor project c s) \<or>
    started_with re (workflow_of c) s (service re actor project c s)"
  using service_outcome_ok [OF assms(1,2)] assms(3) unfolding outcome_ok_def by blast

lemma open_operation_exclusive:
  assumes "p_id project \<in> p_id ` set (db_projects s)" "r_id r \<in> r_id ` set (db_resources s)"
  shows "open_operation re actor project (Some (r_id r)) kind (Some lock) request s =
    (if \<exists>o1 \<in> set (db_operations s). o_project_id o1 = p_id project \<and> o_lock o1 = Some lock \<and> is_open o1
     then (Inl (Conflict ''operation lock is already in flight''), s)
     else
       (let op = new_operation (fst (snd (re_ids re s))) (rt_clock (re_rt re) s)
          \<lparr> cp_project_id = p_id project, cp_resource_id = Some (r_id r), cp_item_id = None, cp_retry_of = None,
            cp_run_id = None, cp_lock = Some lock, cp_kind = kind, cp_approval = None, cp_actor = actor_columns actor,
            cp_request = request \<rparr>
        in (Inr op, s\<lparr> db_operations := db_operations s @ [op], db_notes := db_notes s @ [NoteOperation op] \<rparr>)))"
  unfolding open_operation_def re_now_def with_now_def Let_def
  by (subst create_operation_exclusive [where lock = lock]) (use assms in \<open>simp_all add: references_row_def\<close>)

lemma update_resource_opens:
  assumes "extract_refs (JObj inputs) = Inr refs" "r_slug r \<notin> set refs"
  shows "update_resource re actor project r inputs s =
    eff_bind (open_operation re actor project (Some (r_id r)) OpUpdate (Some (resource_lock (r_id r))) (inputs_request inputs))
      (start_and_attach re UpdateWorkflow) s"
  by (simp add: update_resource_def assert_no_self_reference_def eff_bind_run [of "eff_bind _ _"] eff_bind_run [of "eff_lift _"]
      eff_run assms)

text \<open>What an open operation with the lock of a resource does to the calls on that resource.\<close>

definition still_open :: "operation \<Rightarrow> db \<Rightarrow> bool" where
  "still_open op u \<longleftrightarrow> (\<exists>a \<in> set (db_operations u). row_fixed a op \<and> is_open a)"

lemma open_blocks:
  assumes op: "still_open op u" "o_project_id op = p_id project" "o_lock op = Some (resource_lock (r_id r))"
    and rows: "p_id project \<in> p_id ` set (db_projects u)" "r_id r \<in> r_id ` set (db_resources u)"
  shows "delete_resource re actor project r u = (Inl (Conflict ''operation lock is already in flight''), u)"
    "\<exists>e. forget_resource re actor project r u = (Inl e, u)"
    "\<exists>e. update_resource re actor project r inputs u = (Inl e, u)"
    "extract_refs (JObj inputs) = Inr refs \<Longrightarrow> r_slug r \<notin> set refs \<Longrightarrow>
      update_resource re actor project r inputs u = (Inl (Conflict ''operation lock is already in flight''), u)"
proof -
  have held: "\<exists>o1 \<in> set (db_operations u). o_project_id o1 = p_id project \<and>
      o_lock o1 = Some (resource_lock (r_id r)) \<and> is_open o1"
    using op by (auto simp: still_open_def row_fixed_def)
  have taken: "open_operation re actor project (Some (r_id r)) kind (Some (resource_lock (r_id r))) request u =
      (Inl (Conflict ''operation lock is already in flight''), u)" for kind request
    unfolding open_operation_exclusive [OF rows] if_P [OF held] ..
  show "delete_resource re actor project r u = (Inl (Conflict ''operation lock is already in flight''), u)"
    by (simp add: delete_resource_def eff_bind_run taken)
  show "\<exists>e. forget_resource re actor project r u = (Inl e, u)"
    by (simp add: forget_resource_def eff_simps taken)
  show "\<exists>e. update_resource re actor project r inputs u = (Inl e, u)"
    by (cases "assert_no_self_reference (r_slug r) (JObj inputs) u")
      (auto simp: update_resource_def eff_simps taken assert_no_self_reference_def split: sum.splits if_splits)
  show "update_resource re actor project r inputs u = (Inl (Conflict ''operation lock is already in flight''), u)"
    if "extract_refs (JObj inputs) = Inr refs" "r_slug r \<notin> set refs"
    unfolding update_resource_opens [OF that] by (simp add: eff_bind_run taken)
qed

lemma pending_update_cancels:
  assumes "op \<in> set (db_operations t)" "o_status op = Pending" "o_kind op = OpUpdate"
  shows "\<exists>closed u. cancel_operation now op actor t = (Inr closed, u)"
proof -
  let ?p = "\<lambda>o1. o_id o1 = o_id op \<and> o_status o1 \<in> set [Pending, Running, AwaitingApproval, Canceling]"
  have "first_row (returning ?p g (db_operations t)) \<noteq> None" for g :: "operation \<Rightarrow> operation"
    using assms(1,2) unfolding first_row_returning_None by force
  then obtain row where "first_row (returning ?p
      (\<lambda>o1. (o1\<lparr> o_status := Canceled, o_closed_at := Some now \<rparr>)\<lparr> o_updated_at := now \<rparr>) (db_operations t)) = Some row" by blast
  then have "\<exists>u. transition now op (Some [Pending, Running, AwaitingApproval, Canceling])
      (\<lambda>o1. o1\<lparr> o_status := Canceled, o_closed_at := Some now \<rparr>) None t = (Inr (Some (row, None)), u)"
    by (simp add: transition_def update_operation_def Let_def patch_owned_def eff_simps)
  then obtain u where u: "transition now op (Some [Pending, Running, AwaitingApproval, Canceling])
      (\<lambda>o1. o1\<lparr> o_status := Canceled, o_closed_at := Some now \<rparr>) None t = (Inr (Some (row, None)), u)" by blast
  from announce_returns [of op row None None u] obtain v where
    "announce op row None None u = (Inr (with_request op row), v)" by blast
  with u have "mark_operation_canceled now op None t = (Inr (with_request op row), v)"
    by (simp add: mark_operation_canceled_def eff_bind_run)
  then show ?thesis
    using assms(2,3) by (auto simp: cancel_operation_def cancel_stub_resource_patch_def eff_simps log_run_def split: option.split)
qed

text \<open>C23: when \<open>start\<close> throws, \<open>updateResource\<close> throws its error and leaves one new operation behind:
  pending, without a run, with the lock of the resource. In any later state in which that operation is
  still open, whoever calls and with whatever inputs, a delete answers the lock conflict, so does an
  update whose inputs do not refer to the resource itself, and no update, delete or forget changes
  anything. Canceling the operation gives the lock back.\<close>

theorem failed_start_keeps_lock:
  assumes fails: "\<And>op u. re_start re UpdateWorkflow op u = (Inl e, u)"
    and refs: "extract_refs (JObj inputs) = Inr refs" "r_slug r \<notin> set refs"
    and rows: "p_id project \<in> p_id ` set (db_projects s)" "r_id r \<in> r_id ` set (db_resources s)"
    and free: "(p_id project, resource_lock (r_id r)) \<notin> fst ` held s"
    and ids: "db_ok s" "fst (snd (re_ids re s)) \<notin> o_id ` set (db_operations s)"
  shows "\<exists>op t. update_resource re actor project r inputs s = (Inl e, t) \<and>
    db_operations t = db_operations s @ [op] \<and> o_status op = Pending \<and> o_run_id op = None \<and>
    (\<forall>u re' actor' inputs'. still_open op u \<and> p_id project \<in> p_id ` set (db_projects u) \<and>
        r_id r \<in> r_id ` set (db_resources u) \<longrightarrow>
       delete_resource re' actor' project r u = (Inl (Conflict ''operation lock is already in flight''), u) \<and>
       (\<exists>e. forget_resource re' actor' project r u = (Inl e, u)) \<and>
       (\<exists>e. update_resource re' actor' project r inputs' u = (Inl e, u)) \<and>
       (\<forall>refs'. extract_refs (JObj inputs') = Inr refs' \<and> r_slug r \<notin> set refs' \<longrightarrow>
          update_resource re' actor' project r inputs' u = (Inl (Conflict ''operation lock is already in flight''), u))) \<and>
    (\<forall>now actor'. \<exists>closed u. cancel_operation now op actor' t = (Inr closed, u) \<and>
       (p_id project, resource_lock (r_id r)) \<notin> fst ` held u)"
proof -
  let ?lock = "resource_lock (r_id r)"
  have none: "\<not> (\<exists>o1 \<in> set (db_operations s). o_project_id o1 = p_id project \<and> o_lock o1 = Some ?lock \<and> is_open o1)"
    using free unfolding held_def by (force simp: holds_lock_def lock_entry_def)
  define op where "op = new_operation (fst (snd (re_ids re s))) (rt_clock (re_rt re) s)
      \<lparr> cp_project_id = p_id project, cp_resource_id = Some (r_id r), cp_item_id = None, cp_retry_of = None,
        cp_run_id = None, cp_lock = Some ?lock, cp_kind = OpUpdate, cp_approval = None, cp_actor = actor_columns actor,
        cp_request = inputs_request inputs \<rparr>"
  define t where "t = s\<lparr> db_operations := db_operations s @ [op], db_notes := db_notes s @ [NoteOperation op] \<rparr>"
  have run: "update_resource re actor project r inputs s = (Inl e, t)"
    unfolding update_resource_opens [OF refs] t_def op_def
    by (simp only: eff_bind_run open_operation_exclusive [OF rows] none if_False Let_def)
      (simp add: start_and_attach_def eff_bind_run fails)
  have op: "o_project_id op = p_id project" "o_lock op = Some ?lock" "o_status op = Pending" "o_run_id op = None"
    "o_kind op = OpUpdate" "holds_lock op" "lock_entry op = ((p_id project, ?lock), o_id op)"
    by (simp_all add: op_def new_operation_def holds_lock_def lock_entry_def is_open_def OPEN_OPERATION_STATUSES_def)
  have ops: "db_operations t = db_operations s @ [op]" by (simp add: t_def)
  have frees: "\<exists>closed u. cancel_operation now op actor' t = (Inr closed, u) \<and>
      (p_id project, ?lock) \<notin> fst ` held u" for now actor'
  proof -
    from pending_update_cancels [OF _ op(3,5), of t now actor'] ops obtain closed u where
      u: "cancel_operation now op actor' t = (Inr closed, u)" by auto
    have "distinct (map o_id (db_operations t))"
      using ids by (auto simp: ops db_ok_def operations_ok_def op_def new_operation_def)
    from cancel_locks [OF this u] have "held u = {x \<in> held t. snd x \<noteq> o_id op}"
      by (simp add: call_event_def op(3))
    moreover have "held t = insert ((p_id project, ?lock), o_id op) (held s)"
      using op(6,7) by (auto simp: in_held ops)
    ultimately show ?thesis using u free by (force simp: image_iff)
  qed
  show ?thesis
    by (rule exI [of _ op], rule exI [of _ t], intro conjI allI impI)
      (auto simp: run ops op(3,4) frees intro: open_blocks [OF _ op(1,2)])
qed

section \<open>Witnesses\<close>

definition demo_re :: "bool \<Rightarrow> resource_env" where
  "demo_re answers = \<lparr> re_rt = demo_rt True, re_ids = (\<lambda>_. (''r2'', ''2'', ''l2'')),
     re_start = (\<lambda>_ _. if answers then eff_return ''run'' else eff_throw (PlainError ''no engine'')) \<rparr>"

definition idle_db :: db where
  "idle_db = created_db\<lparr> db_operations := [] \<rparr>"

definition idle_resource :: resource where
  "idle_resource = hd (db_resources created_db)"

lemma demo_re_reads: "start_leaves (demo_re b)" "preflight_reads (re_rt (demo_re b))"
  by (simp_all add: start_leaves_def preflight_reads_def demo_re_def demo_rt_def eff_moves_def unchanged_def eff_run)

lemma service_call_outcome_witness:
  "rejected idle_db (service (demo_re True) demo_actor demo_project (CallRead idle_resource) idle_db) \<or>
   not_started (demo_re True) ReadWorkflow idle_db (service (demo_re True) demo_actor demo_project (CallRead idle_resource) idle_db) \<or>
   started_with (demo_re True) ReadWorkflow idle_db (service (demo_re True) demo_actor demo_project (CallRead idle_resource) idle_db)"
  using service_call_outcome [OF demo_re_reads, of True idle_db demo_actor demo_project "CallRead idle_resource"]
  by (simp add: demo_re_def idle_db_def)

lemma failed_start_keeps_lock_witness:
  "\<exists>op t. update_resource (demo_re False) demo_actor demo_project idle_resource [] idle_db = (Inl (PlainError ''no engine''), t) \<and>
    still_open op t \<and>
    delete_resource (demo_re True) demo_actor demo_project idle_resource t =
      (Inl (Conflict ''operation lock is already in flight''), t)"
proof -
  have 1: "extract_refs (JObj []) = Inr []" by code_simp
  have 2: "p_id demo_project \<in> p_id ` set (db_projects idle_db)" by code_simp
  have 3: "r_id idle_resource \<in> r_id ` set (db_resources idle_db)" by code_simp
  have 4: "(p_id demo_project, resource_lock (r_id idle_resource)) \<notin> fst ` held idle_db"
    by (simp add: held_def idle_db_def)
  have 5: "re_start (demo_re False) UpdateWorkflow op u = (Inl (PlainError ''no engine''), u)" for op u
    by (simp add: demo_re_def eff_run)
  have 6: "db_ok idle_db" by code_simp
  have 7: "fst (snd (re_ids (demo_re False) idle_db)) \<notin> o_id ` set (db_operations idle_db)" by (simp add: idle_db_def)
  obtain op t where t: "update_resource (demo_re False) demo_actor demo_project idle_resource [] idle_db = (Inl (PlainError ''no engine''), t)"
      "db_operations t = db_operations idle_db @ [op]" "o_status op = Pending"
    and blocks: "\<And>u. still_open op u \<and> p_id demo_project \<in> p_id ` set (db_projects u) \<and>
        r_id idle_resource \<in> r_id ` set (db_resources u) \<Longrightarrow>
      delete_resource (demo_re True) demo_actor demo_project idle_resource u =
        (Inl (Conflict ''operation lock is already in flight''), u)"
    using failed_start_keeps_lock [OF 5 1 _ 2 3 4 6 7, of demo_actor] by (auto 0 3)
  have "still_open op t" using t(2,3) by (auto simp: still_open_def row_fixed_def is_open_def OPEN_OPERATION_STATUSES_def)
  moreover have "p_id demo_project \<in> p_id ` set (db_projects t)" "r_id idle_resource \<in> r_id ` set (db_resources t)"
  proof -
    have "t = snd (update_resource (demo_re False) demo_actor demo_project idle_resource [] idle_db)" using t(1) by simp
    moreover have "p_id demo_project \<in> p_id ` set (db_projects (snd (update_resource (demo_re False) demo_actor demo_project idle_resource [] idle_db)))"
      "r_id idle_resource \<in> r_id ` set (db_resources (snd (update_resource (demo_re False) demo_actor demo_project idle_resource [] idle_db)))"
      by code_simp+
    ultimately show "p_id demo_project \<in> p_id ` set (db_projects t)" "r_id idle_resource \<in> r_id ` set (db_resources t)" by simp_all
  qed
  ultimately show ?thesis using t(1) blocks by blast
qed

end
