(* ===== verification/ScanProps.thy ===== *)
theory ScanProps
  imports ScanOrder ResourceServiceProps
begin

text \<open>
  Correctness of scans: the loop ends, its counts account for every candidate exactly once, and a scan
  whose run does not start is closed, which frees its lock. The locale \<open>resource_order\<close> is the
  interface of statements on the resource table over a scan.
\<close>

section \<open>What a scan does to the resource table\<close>

fun scan_patch :: "resource_patch \<Rightarrow> bool" where
  "scan_patch (PatchStatus st) = True"
| "scan_patch (PatchRead st inps outs) = True"
| "scan_patch _ = False"

locale resource_order = scan_order R for R :: "db \<Rightarrow> db \<Rightarrow> bool" +
  assumes same_rows: "db_resources t = db_resources s \<Longrightarrow> R s t"
    and patched_rows: "scan_patch patch \<Longrightarrow> R s (s\<lparr> db_resources := update_where (\<lambda>r. r_id r = k)
      (\<lambda>r. (patch_row patch r)\<lparr> r_updated_at := now \<rparr>) (db_resources s) \<rparr>)"
begin

lemma quiet_moves:
  "eff_moves R (update_operation k sts now f)" "eff_moves R (insert_operation op)"
  "eff_moves R (notify_operation op)" "eff_moves R (notify_resource r ev)"
  "eff_moves R (notify_patched patched patch)" "eff_moves R (find_operation k)"
  unfolding eff_moves_def
  by (intro allI same_rows; simp add: update_operation_run insert_operation_def notify_operation_def notify_resource_def
      notify_patched_def pg_notify_def find_operation_def eff_run split: option.split)+

lemma patch_moves: "scan_patch patch \<Longrightarrow> eff_moves R (apply_resource_patch now k patch)"
  unfolding eff_moves_def
  by (auto simp: apply_resource_patch_def Let_def R_refl patched_rows split: option.split)

lemma owned_moves: "list_all scan_patch (case patch of None \<Rightarrow> [] | Some p \<Rightarrow> [p]) \<Longrightarrow> eff_moves R (patch_owned now op patch)"
  unfolding patch_owned_def
  by (cases patch; cases "truthy (o_resource_id op)"; simp; intro moves_basic moves_bind patch_moves; simp)

lemmas table_moves = moves_basic moves_bind moves_catch moves_tx moves_cases quiet_moves owned_moves

lemma mark_moves:
  "list_all scan_patch (case patch of None \<Rightarrow> [] | Some p \<Rightarrow> [p]) \<Longrightarrow> eff_moves R (mark_operation_succeeded now op result patch)"
  "eff_moves R (mark_operation_failed now op err None)"
  "eff_moves R (mark_operation_running now op None)"
  "eff_moves R (create_operation k now p)"
  unfolding mark_operation_succeeded_def mark_operation_failed_def mark_operation_running_def create_operation_def
    transition_def announce_def settled_or_conflict_def
  by (intro table_moves; simp)+

lemma patch_of_read: "get_resource_state_patch_after_read r read schema = Some patch \<Longrightarrow> scan_patch patch"
  by (auto simp: get_resource_state_patch_after_read_def Let_def split: option.splits if_splits)

lemma align_moves: "eff_moves R (align_scan_resource pe scan r read schema failed)"
proof -
  have create: "eff_moves R (create_scan_alignment_operation pe scan r reason)" for reason
    unfolding create_scan_alignment_operation_def eff_moves_def pe_now_def with_now_def
    using mark_moves(4) by (simp add: eff_moves_def)
  have settle: "eff_moves R (settle_drift pe scan r patch reason op)" if "scan_patch patch" for patch reason op
    unfolding settle_drift_def complete_scan_alignment_operation_def fail_operation_def
    by (intro moves_basic moves_bind moves_catch now_order mark_moves) (simp add: that)
  have handler: "eff_moves R (case err of Conflict d \<Rightarrow> eff_return None | _ \<Rightarrow> eff_throw err)" for err :: js_error
    by (cases err) (simp_all add: moves_basic)
  show ?thesis
  proof (cases "get_resource_state_patch_after_read r read schema")
    case None
    then show ?thesis by (simp add: align_scan_resource_def get_scan_resource_patch_def moves_basic)
  next
    case (Some patch)
    note ok = settle [OF patch_of_read [OF Some]]
    show ?thesis
      unfolding align_scan_resource_def get_scan_resource_patch_def Some option.case prod.case
      by (intro moves_basic moves_bind moves_catch moves_cases create handler ok)
  qed
qed

lemma batch_moves: "scan_calls R (pe_rt pe) \<Longrightarrow> eff_moves R (scan_batch pe scan cursor counts)"
  by (rule batch_order [OF _ align_moves])

end

section \<open>Two orders\<close>

text \<open>The rows older than the scan, which only disappear; and its candidates, which stay the same.\<close>

definition old_ids :: "operation \<Rightarrow> db \<Rightarrow> string set" where
  "old_ids op s = r_id ` {r \<in> set (db_resources s). r_project_id r = o_project_id op \<and> r_created_at r < o_created_at op}"

definition no_older :: "operation \<Rightarrow> db \<Rightarrow> db \<Rightarrow> bool" where
  "no_older op s t \<longleftrightarrow> old_ids op t \<subseteq> old_ids op s"

definition candidate_ids :: "operation \<Rightarrow> db \<Rightarrow> string list" where
  "candidate_ids op s = map r_id (filter (scan_candidate op) (db_resources s))"

definition same_candidates :: "operation \<Rightarrow> db \<Rightarrow> db \<Rightarrow> bool" where
  "same_candidates op s t \<longleftrightarrow> candidate_ids op t = candidate_ids op s"

lemma patched_same:
  assumes "scan_patch patch"
  shows "r_id ((patch_row patch r)\<lparr> r_updated_at := now \<rparr>) = r_id r"
    "scan_candidate op ((patch_row patch r)\<lparr> r_updated_at := now \<rparr>) = scan_candidate op r"
    "r_project_id ((patch_row patch r)\<lparr> r_updated_at := now \<rparr>) = r_project_id r"
    "r_created_at ((patch_row patch r)\<lparr> r_updated_at := now \<rparr>) = r_created_at r"
  using assms by (cases patch; simp add: scan_candidate_def)+

interpretation older: resource_order "no_older op" for op
proof
  show "no_older op s s" for s by (simp add: no_older_def)
  show "no_older op s t \<Longrightarrow> no_older op t u \<Longrightarrow> no_older op s u" for s t u by (auto simp: no_older_def)
  show "db_resources t = db_resources s \<Longrightarrow> no_older op s t" for s t by (simp add: no_older_def old_ids_def)
  show "no_older op s (s\<lparr> db_resources := update_where (\<lambda>r. r_id r = k)
      (\<lambda>r. (patch_row patch r)\<lparr> r_updated_at := now \<rparr>) (db_resources s) \<rparr>)" if "scan_patch patch" for patch s k now
    by (auto simp: no_older_def old_ids_def update_where_def patched_same [OF that] split: if_splits)
qed

interpretation candidates: resource_order "same_candidates op" for op
proof
  show "same_candidates op s s" for s by (simp add: same_candidates_def)
  show "same_candidates op s t \<Longrightarrow> same_candidates op t u \<Longrightarrow> same_candidates op s u" for s t u
    by (simp add: same_candidates_def)
  show "db_resources t = db_resources s \<Longrightarrow> same_candidates op s t" for s t
    by (simp add: same_candidates_def candidate_ids_def)
  show "same_candidates op s (s\<lparr> db_resources := update_where (\<lambda>r. r_id r = k)
      (\<lambda>r. (patch_row patch r)\<lparr> r_updated_at := now \<rparr>) (db_resources s) \<rparr>)" if "scan_patch patch" for patch s k now
  proof -
    let ?g = "\<lambda>r. if r_id r = k then (patch_row patch r)\<lparr> r_updated_at := now \<rparr> else r"
    have "map r_id (filter (scan_candidate op) (map ?g rs)) = map r_id (filter (scan_candidate op) rs)" for rs
      by (induction rs) (simp_all add: patched_same [OF that])
    then show ?thesis by (simp add: same_candidates_def candidate_ids_def update_where_def)
  qed
qed

section \<open>Batches\<close>

lemma next_candidates_mem:
  assumes "r \<in> set (next_candidates op cursor n s)"
  shows "r \<in> set (db_resources s) \<and> scan_candidate op r \<and> after_cursor cursor r"
  using in_set_takeD [OF assms [unfolded next_candidates_def]] by simp

lemma batch_cursor:
  assumes "scan_batch pe op cursor counts s = (Inr (cursor', counts'), t)" "truthy cursor' = Some k"
  shows "k \<in> old_ids op s \<and> (case truthy cursor of None \<Rightarrow> True | Some j \<Rightarrow> j < k)"
proof -
  let ?cs = "next_candidates op cursor SCAN_BATCH_SIZE s"
  from assms have c: "?cs \<noteq> []" "k = r_id (last ?cs)"
    by (auto simp: scan_batch_def get_next_scan_resources_def eff_simps Let_def split: prod.splits sum.splits if_splits
        elim: truthy.elims)
  then have "last ?cs \<in> set ?cs" by simp
  from next_candidates_mem [OF this] c(2) show ?thesis
    by (auto simp: old_ids_def scan_candidate_def after_cursor_def split: option.splits)
qed

definition ahead :: "operation \<Rightarrow> string option \<Rightarrow> db \<Rightarrow> string set" where
  "ahead op cursor s = {k \<in> old_ids op s. case truthy cursor of None \<Rightarrow> True | Some j \<Rightarrow> j < k}"

lemma ahead_decreases:
  assumes "scan_calls (no_older op) (pe_rt pe)"
    and run: "scan_batch pe op cursor counts s = (Inr (cursor', counts'), t)" "truthy cursor' = Some k"
  shows "card (ahead op (Some k) t) < card (ahead op cursor s)"
proof (rule psubset_card_mono)
  show "finite (ahead op cursor s)" by (simp add: ahead_def old_ids_def)
  have sub: "old_ids op t \<subseteq> old_ids op s"
    using older.moves_state [OF older.batch_moves [OF assms(1)] run(1)] by (simp add: no_older_def)
  have k: "k \<in> old_ids op s" "truthy (Some k) = Some k"
    "case truthy cursor of None \<Rightarrow> True | Some j \<Rightarrow> j < k"
    using batch_cursor [OF run] run(2) by (auto elim: truthy.elims)
  have "ahead op (Some k) t \<subseteq> ahead op cursor s"
    using sub k by (auto simp: ahead_def split: option.splits)
  moreover have "k \<in> ahead op cursor s" "k \<notin> ahead op (Some k) t" using k by (auto simp: ahead_def)
  ultimately show "ahead op (Some k) t \<subset> ahead op cursor s" by blast
qed

lemma scan_loop_ends:
  assumes "scan_calls (no_older op) (pe_rt pe)"
  shows "scan_loop pe op cursor counts s \<noteq> None"
proof (induction "card (ahead op cursor s)" arbitrary: cursor counts s rule: less_induct)
  case less
  obtain r t where batch: "scan_batch pe op cursor counts s = (r, t)" by (cases "scan_batch pe op cursor counts s")
  show ?case
  proof (cases r)
    case (Inl e)
    with batch show ?thesis by (simp add: scan_loop.simps)
  next
    case (Inr x)
    obtain cursor' counts' where x: "x = (cursor', counts')" by (cases x)
    show ?thesis
    proof (cases "truthy cursor'")
      case None
      with batch Inr x show ?thesis by (simp add: scan_loop.simps)
    next
      case (Some k)
      with less [OF ahead_decreases [OF assms batch [unfolded Inr x] Some]] batch Inr x
      show ?thesis by (subst scan_loop.simps) simp
    qed
  qed
qed

lemma scan_workflow_ends:
  assumes "scan_calls (no_older op) (pe_rt pe)"
  shows "scan_project_workflow pe op s \<noteq> None"
proof -
  have "scan_loop pe op None c t \<noteq> None" for c t by (rule scan_loop_ends [OF assms])
  then have "scan_body pe op s \<noteq> None"
    unfolding scan_body_def by (auto split: prod.splits sum.splits option.splits) (metis option.distinct(1))
  then show ?thesis unfolding scan_project_workflow_def by auto
qed

text \<open>C24: a scan comes to an end, whatever the provider answers and whatever other requests do
  meanwhile, as long as they insert no resource that claims to be older than the scan.\<close>

theorem scan_terminates:
  assumes "scan_calls (no_older op) (pe_rt pe)"
  shows "\<exists>result t. scan_project_workflow pe op s = Some (result, t)"
  using scan_workflow_ends [OF assms, of s] by (cases "scan_project_workflow pe op s") auto

section \<open>Counts\<close>

definition outcomes_counted :: "scan_counts \<Rightarrow> nat" where
  "outcomes_counted c = sn_unchanged c + sn_absorbed c + sn_missing c + sn_failed c + sn_during c"

lemma count_fold:
  "outcomes_counted (fold count_outcome outs c) = outcomes_counted c + length outs"
  "sn_total (fold count_outcome outs c) = sn_total c" "sn_scanned (fold count_outcome outs c) = sn_scanned c"
  "sn_inflight (fold count_outcome outs c) = sn_inflight c"
proof -
  have step: "outcomes_counted (count_outcome x d) = Suc (outcomes_counted d)" "sn_total (count_outcome x d) = sn_total d"
    "sn_scanned (count_outcome x d) = sn_scanned d" "sn_inflight (count_outcome x d) = sn_inflight d" for x d
    by (cases x; simp add: outcomes_counted_def)+
  show "outcomes_counted (fold count_outcome outs c) = outcomes_counted c + length outs"
    "sn_total (fold count_outcome outs c) = sn_total c" "sn_scanned (fold count_outcome outs c) = sn_scanned c"
    "sn_inflight (fold count_outcome outs c) = sn_inflight c"
    by (induction outs arbitrary: c) (simp_all add: step)
qed

definition members :: "('k \<times> resource list) list \<times> resource list \<Rightarrow> nat" where
  "members acc = sum_list (map (length \<circ> snd) (fst acc)) + length (snd acc)"

lemma map_default_members:
  "sum_list (map (length \<circ> snd) (AList.map_default k [r] (\<lambda>rs. rs @ [r]) g)) = Suc (sum_list (map (length \<circ> snd) g))"
  by (induction g) auto

lemma group_members: "members (fold group_step batch acc) = members acc + length batch"
proof (induction batch arbitrary: acc)
  case (Cons r batch)
  have "members (group_step r acc) = Suc (members acc)"
    by (simp add: group_step_def members_def map_default_members split: option.split)
  with Cons show ?case by simp
qed simp

lemma known_members: "members (fold (known_step known) gs acc) = members acc + sum_list (map (length \<circ> snd) gs)"
proof (induction gs arbitrary: acc)
  case (Cons g gs)
  have "members (known_step known g acc) = members acc + length (snd g)"
    by (simp add: known_step_def members_def split: option.split)
  with Cons show ?case by simp
qed simp

lemma eff_map_length: "eff_map f xs s = (Inr ys, t) \<Longrightarrow> length ys = length xs"
  by (induction xs arbitrary: s ys) (auto simp: eff_simps split: prod.splits sum.splits)

lemma groups_members:
  assumes "get_scan_resource_integration_groups op batch s = (Inr (groups, failed), t)"
  shows "sum_list (map (length \<circ> snd) groups) + length failed = length batch"
proof -
  obtain by_id f where g: "fold group_step batch ([], []) = (by_id, f)" by (cases "fold group_step batch ([], [])")
  from assms obtain known where "fold (known_step known) by_id ([], f) = (groups, failed)"
    by (auto simp: get_scan_resource_integration_groups_def g eff_simps split: prod.splits sum.splits)
  with known_members [of known by_id "([], f)"] group_members [of batch "([], [])"] g
  show ?thesis by (simp add: members_def)
qed

lemma outcomes_length:
  assumes "scan_batch_outcomes pe op batch s = (Inr outcomes, t)"
  shows "length outcomes = length batch"
proof (cases "batch = []")
  case True
  with assms show ?thesis by (simp add: scan_batch_outcomes_def eff_run)
next
  case False
  with assms obtain groups failed u v w reads outs schemas where run:
    "get_scan_resource_integration_groups op batch s = (Inr (groups, failed), u)"
    "eff_map (\<lambda>(integration, r). read_for_scan (pe_rt pe) integration r)
       (concat (map (\<lambda>(integration, rs). map (Pair integration) rs) groups)) v = (Inr reads, w)"
    "eff_map (align_read pe op schemas) reads w = (Inr outs, t)" "outcomes = map (\<lambda>_. FailedOutcome) failed @ outs"
    by (auto simp: scan_batch_outcomes_def eff_simps split: prod.splits sum.splits)
  have "length (concat (map (\<lambda>(integration, rs). map (Pair integration) rs) groups)) = sum_list (map (length \<circ> snd) groups)"
    by (induction groups) auto
  with eff_map_length [OF run(2)] eff_map_length [OF run(3)] groups_members [OF run(1)] run(4) show ?thesis by simp
qed

text \<open>The candidates a cursor has not passed.\<close>

definition remaining :: "operation \<Rightarrow> string option \<Rightarrow> db \<Rightarrow> string list" where
  "remaining op cursor s = sort (filter (\<lambda>k. case truthy cursor of None \<Rightarrow> True | Some j \<Rightarrow> j < k) (candidate_ids op s))"

lemma next_ids: "map r_id (next_candidates op cursor n s) = take n (remaining op cursor s)"
proof -
  have "map r_id (sort_key r_id rs) = sort (map r_id rs)" for rs :: "resource list"
    by (rule sorted_sort_id [symmetric, THEN trans]) (auto intro: properties_for_sort [symmetric])
  moreover have "filter (\<lambda>k. case truthy cursor of None \<Rightarrow> True | Some j \<Rightarrow> j < k) (candidate_ids op s) =
      map r_id (filter (\<lambda>r. scan_candidate op r \<and> after_cursor cursor r) (db_resources s))"
    by (simp add: candidate_ids_def after_cursor_def filter_map comp_def conj_commute)
  ultimately show ?thesis by (simp add: next_candidates_def remaining_def take_map [symmetric])
qed

lemma sorted_rest:
  fixes ks :: "'k :: linorder list"
  assumes "sorted ks" "distinct ks" "take n ks \<noteq> []"
  shows "filter (\<lambda>k. last (take n ks) < k) ks = drop n ks"
proof -
  have ks: "ks = take n ks @ drop n ks" by simp
  have "sorted (butlast (take n ks) @ [last (take n ks)])" using assms(1,3) by (simp add: sorted_wrt_take)
  then have "\<forall>k \<in> set (butlast (take n ks)). k \<le> last (take n ks)" by (simp add: sorted_append)
  moreover have "set (take n ks) = insert (last (take n ks)) (set (butlast (take n ks)))"
    using append_butlast_last_id [OF assms(3)] by (metis list.set(1,2) set_append Un_insert_right sup_bot.right_neutral)
  ultimately have low: "k \<le> last (take n ks)" if "k \<in> set (take n ks)" for k using that by auto
  have high: "last (take n ks) < k" if "k \<in> set (drop n ks)" for k
  proof -
    have mem: "last (take n ks) \<in> set (take n ks)" using assms(3) by simp
    have "sorted (take n ks @ drop n ks)" "distinct (take n ks @ drop n ks)" using assms(1,2) by simp_all
    with mem that have "last (take n ks) \<le> k" "last (take n ks) \<noteq> k"
      unfolding sorted_append distinct_append by blast+
    then show ?thesis by simp
  qed
  have "filter (\<lambda>k. last (take n ks) < k) (take n ks @ drop n ks) = drop n ks"
    unfolding filter_append using low high by (auto simp: filter_empty_conv filter_id_conv not_less)
  then show ?thesis by simp
qed

lemma batch_counts:
  assumes run: "scan_batch pe op cursor counts s = (Inr (cursor', counts'), t)"
    and calls: "scan_calls (same_candidates op) (pe_rt pe)"
    and ids: "distinct (candidate_ids op s)" "[] \<notin> set (candidate_ids op s)"
  shows "sn_scanned counts' + sn_inflight counts' + length (remaining op cursor' t) =
      sn_scanned counts + sn_inflight counts + length (remaining op cursor s) \<or>
    (cursor' = None \<and> remaining op cursor s = [] \<and>
      sn_scanned counts' + sn_inflight counts' = sn_scanned counts + sn_inflight counts)"
    "truthy cursor' = None \<Longrightarrow> remaining op cursor s = []"
    "outcomes_counted counts' + sn_scanned counts = outcomes_counted counts + sn_scanned counts'"
    "sn_total counts' = sn_total counts" "candidate_ids op t = candidate_ids op s"
    "sn_scanned counts + sn_inflight counts \<le> sn_scanned counts' + sn_inflight counts'"
proof -
  let ?cs = "next_candidates op cursor SCAN_BATCH_SIZE s"
  let ?locked = "\<lambda>r. resource_lock (r_id r) \<in> set (locked_keys op ?cs s)"
  let ?batch = "filter (\<lambda>r. \<not> ?locked r) ?cs"
  show same: "candidate_ids op t = candidate_ids op s"
    using candidates.moves_state [OF candidates.batch_moves [OF calls] run] by (simp add: same_candidates_def)
  define c where "c = counts\<lparr> sn_scanned := sn_scanned counts + length ?batch,
     sn_inflight := sn_inflight counts + length (filter ?locked ?cs) \<rparr>"
  from run obtain outs u where outs: "scan_batch_outcomes pe op ?batch s = (Inr outs, t)" "counts' = fold count_outcome outs c"
    and cursor': "cursor' = (if ?cs = [] then None else Some (r_id (last ?cs)))"
    unfolding c_def
    by (auto simp: scan_batch_def get_next_scan_resources_def eff_simps Let_def split: prod.splits sum.splits if_splits)
  have len: "length ?batch + length (filter ?locked ?cs) = length ?cs"
    using sum_length_filter_compl [of ?locked ?cs] by simp
  show "sn_total counts' = sn_total counts" by (simp add: outs(2) count_fold c_def)
  have c: "outcomes_counted c = outcomes_counted counts" "sn_scanned c = sn_scanned counts + length ?batch"
    by (simp_all add: c_def outcomes_counted_def)
  show "outcomes_counted counts' + sn_scanned counts = outcomes_counted counts + sn_scanned counts'"
    using outcomes_length [OF outs(1)] by (simp add: outs(2) count_fold c)
  have taken: "map r_id ?cs = take SCAN_BATCH_SIZE (remaining op cursor s)" by (rule next_ids)
  have size: "sn_scanned counts' + sn_inflight counts' = sn_scanned counts + sn_inflight counts + length ?cs"
    using len by (simp add: outs(2) count_fold c_def)
  then show "sn_scanned counts + sn_inflight counts \<le> sn_scanned counts' + sn_inflight counts'" by simp
  have empty: "remaining op cursor s = []" if "?cs = []" using taken that by (simp add: SCAN_BATCH_SIZE_def)
  have last: "r_id (last ?cs) \<in> set (candidate_ids op s)" if "?cs \<noteq> []"
    using next_candidates_mem [of "last ?cs" op cursor SCAN_BATCH_SIZE s] that by (auto simp: candidate_ids_def)
  show "remaining op cursor s = []" if "truthy cursor' = None"
  proof (rule empty, rule ccontr)
    assume ne: "?cs \<noteq> []"
    with that cursor' have "r_id (last ?cs) = []" by (cases "r_id (last ?cs)") simp_all
    with last [OF ne] ids(2) show False by simp
  qed
  show "sn_scanned counts' + sn_inflight counts' + length (remaining op cursor' t) =
      sn_scanned counts + sn_inflight counts + length (remaining op cursor s) \<or>
    (cursor' = None \<and> remaining op cursor s = [] \<and>
      sn_scanned counts' + sn_inflight counts' = sn_scanned counts + sn_inflight counts)"
  proof (cases "?cs = []")
    case True
    with empty size cursor' show ?thesis by simp
  next
    case False
    let ?ks = "remaining op cursor s"
    from False taken have k: "take SCAN_BATCH_SIZE ?ks \<noteq> []" "r_id (last ?cs) = last (take SCAN_BATCH_SIZE ?ks)"
      by (metis Nil_is_map_conv) (metis last_map taken False)
    have truthy: "truthy cursor' = Some (r_id (last ?cs))"
    proof -
      have "r_id (last ?cs) \<noteq> []" using last [OF False] ids(2) by metis
      then show ?thesis using cursor' False by (cases "r_id (last ?cs)") simp_all
    qed
    have above: "case truthy cursor of None \<Rightarrow> True | Some j \<Rightarrow> j < k" if "k = r_id (last ?cs)" for k
      using next_candidates_mem [of "last ?cs" op cursor SCAN_BATCH_SIZE s] False that
      by (simp add: after_cursor_def split: option.splits)
    have "filter (\<lambda>k. r_id (last ?cs) < k) (candidate_ids op s) =
        filter (\<lambda>k. r_id (last ?cs) < k) (filter (\<lambda>k. case truthy cursor of None \<Rightarrow> True | Some j \<Rightarrow> j < k) (candidate_ids op s))"
      using above by (auto simp: filter_filter intro!: filter_cong split: option.splits)
    then have "remaining op cursor' t = filter (\<lambda>k. r_id (last ?cs) < k) ?ks"
      unfolding remaining_def truthy option.case same by (simp add: filter_sort)
    also have "\<dots> = drop SCAN_BATCH_SIZE ?ks"
      unfolding k(2) by (rule sorted_rest) (use ids(1) k(1) in \<open>simp_all add: remaining_def\<close>)
    finally have "length (remaining op cursor' t) + length ?cs = length ?ks"
      using arg_cong [OF taken, of length] by simp
    with size show ?thesis by simp
  qed
qed

lemma loop_counts:
  assumes "scan_loop pe op cursor counts s = Some (Inr counts', t)"
    and calls: "scan_calls (same_candidates op) (pe_rt pe)"
    and ids: "distinct (candidate_ids op s)" "[] \<notin> set (candidate_ids op s)"
  shows "sn_scanned counts' + sn_inflight counts' = sn_scanned counts + sn_inflight counts + length (remaining op cursor s) \<and>
    outcomes_counted counts' + sn_scanned counts = outcomes_counted counts + sn_scanned counts' \<and>
    sn_total counts' = sn_total counts"
proof -
  define Q where "Q cursor counts s out \<longleftrightarrow>
      distinct (candidate_ids op s) \<longrightarrow> [] \<notin> set (candidate_ids op s) \<longrightarrow> fst out = Inr counts' \<longrightarrow>
      sn_scanned counts' + sn_inflight counts' = sn_scanned counts + sn_inflight counts + length (remaining op cursor s) \<and>
      outcomes_counted counts' + sn_scanned counts = outcomes_counted counts + sn_scanned counts' \<and>
      sn_total counts' = sn_total counts"
    for cursor counts and s :: db and out :: "(js_error + scan_counts) \<times> db"
  have "Q cursor counts s out" if "scan_loop pe op cursor counts s = Some out" for cursor counts s out
  proof (rule scan_loop.raw_induct [where P = "\<lambda>pe' op' cursor counts s out. pe' = pe \<longrightarrow> op' = op \<longrightarrow> Q cursor counts s out",
        OF _ that, simplified])
    fix loop pe' op' cursor counts s out
    assume IH: "\<And>pe' op' cursor counts s out. loop pe' op' cursor counts s = Some out \<Longrightarrow> pe' = pe \<longrightarrow> op' = op \<longrightarrow> Q cursor counts s out"
      and run: "(case scan_batch pe' op' cursor counts s of
        (Inl e, t) \<Rightarrow> Some (Inl e, t)
      | (Inr (cursor', counts'), t) \<Rightarrow>
          (case truthy cursor' of
             None \<Rightarrow> Some (Inr counts', t)
           | Some k \<Rightarrow> loop pe' op' (Some k) counts' t)) = Some out"
    show "pe' = pe \<longrightarrow> op' = op \<longrightarrow> Q cursor counts s out"
    proof (intro impI)
      assume [simp]: "pe' = pe" "op' = op"
      obtain r t where batch: "scan_batch pe op cursor counts s = (r, t)" by (cases "scan_batch pe op cursor counts s")
      show "Q cursor counts s out"
      proof (cases r)
        case (Inl e)
        with run batch show ?thesis by (auto simp: Q_def)
      next
        case (Inr x)
        obtain c' d where x: "x = (c', d)" by (cases x)
        show ?thesis
          unfolding Q_def
        proof (intro impI)
          assume ids: "distinct (candidate_ids op s)" "[] \<notin> set (candidate_ids op s)" and out: "fst out = Inr counts'"
          note counts = batch_counts [OF batch [unfolded Inr x] calls ids]
          show "sn_scanned counts' + sn_inflight counts' = sn_scanned counts + sn_inflight counts + length (remaining op cursor s) \<and>
              outcomes_counted counts' + sn_scanned counts = outcomes_counted counts + sn_scanned counts' \<and>
              sn_total counts' = sn_total counts"
          proof (cases "truthy c'")
            case None
            with run batch Inr x out have "d = counts'" by auto
            with counts None show ?thesis by auto
          next
            case (Some k)
            with run batch Inr x have "loop pe op (Some k) d t = Some out" by simp
            from IH [OF this] ids out counts(5)
            have "sn_scanned counts' + sn_inflight counts' = sn_scanned d + sn_inflight d + length (remaining op (Some k) t) \<and>
                outcomes_counted counts' + sn_scanned d = outcomes_counted d + sn_scanned counts' \<and>
                sn_total counts' = sn_total d" by (simp add: Q_def)
            moreover have "c' = Some k" using Some by (auto elim: truthy.elims)
            ultimately show ?thesis using counts by auto
          qed
        qed
      qed
    qed
  qed
  from this [OF assms(1)] ids show ?thesis by (simp add: Q_def)
qed

lemma start_scan_resources: "db_resources (snd (start_scan_operation pe op s)) = db_resources s"
  by (auto simp: start_scan_operation_def pe_now_def with_now_def mark_operation_running_def transition_def announce_def
      settled_or_conflict_def patch_owned_def notify_patched_def notify_operation_def pg_notify_def find_operation_def
      update_operation_def Let_def eff_simps split: option.splits prod.splits sum.splits if_splits)

text \<open>The counts a scan returns account for every candidate exactly once: each of the resources
  that were applied when the scan started was either read or skipped because an operation held its
  lock, and each of those read has one outcome; as long as the other requests that run meanwhile do not
  apply, delete or restore a resource of the project.\<close>

theorem scan_counts_add_up:
  assumes run: "scan_project_workflow pe op s = Some (Inr counts, t)"
    and calls: "scan_calls (same_candidates op) (pe_rt pe)"
    and ids: "distinct (map r_id (db_resources s))" "[] \<notin> r_id ` set (db_resources s)"
  shows "sn_total counts = length (filter (scan_candidate op) (db_resources s)) \<and>
    sn_scanned counts + sn_inflight counts = sn_total counts \<and>
    sn_unchanged counts + sn_absorbed counts + sn_missing counts + sn_failed counts + sn_during counts = sn_scanned counts"
proof -
  from run obtain r u where r: "scan_body pe op s = Some (r, u)"
    "(case r of Inr counts \<Rightarrow> (Inr counts, u) | Inl e \<Rightarrow> eff_bind (fail_operation pe op e) (\<lambda>_. eff_throw e) u) = (Inr counts, t)"
    by (auto simp: scan_project_workflow_def)
  then have body: "scan_body pe op s = Some (Inr counts, u)"
    by (cases r) (auto simp: eff_simps split: sum.splits prod.splits)
  obtain x t0 where start: "start_scan_operation pe op s = (x, t0)" by (cases "start_scan_operation pe op s")
  have same: "db_resources t0 = db_resources s" using start_scan_resources [of pe op s] start by simp
  let ?n = "length (filter (scan_candidate op) (db_resources s))"
  from body start obtain v where loop: "scan_loop pe op None (initial_counts ?n) t0 = Some (Inr counts, v)"
    by (auto simp: scan_body_def count_scan_resources_def eff_simps same split: sum.splits option.splits prod.splits)
  have cand: "candidate_ids op t0 = map r_id (filter (scan_candidate op) (db_resources s))" by (simp add: candidate_ids_def same)
  have "distinct (candidate_ids op t0)" "[] \<notin> set (candidate_ids op t0)"
    using ids by (auto simp: cand distinct_map_filter)
  from loop_counts [OF loop calls this]
  have "sn_scanned counts + sn_inflight counts = length (remaining op None t0)" "sn_total counts = ?n"
    "outcomes_counted counts = sn_scanned counts" by (auto simp: initial_counts_def outcomes_counted_def)
  moreover have "length (remaining op None t0) = ?n" by (simp add: remaining_def cand)
  ultimately show ?thesis by (simp add: outcomes_counted_def)
qed

section \<open>A run that does not start\<close>

lemma fail_last:
  assumes "db_operations s = ops @ [op]" "o_id op \<notin> o_id ` set ops"
  shows "\<exists>t op'. mark_operation_failed now op err None s = (Inr op', t) \<and> db_operations t = ops @ [op'] \<and>
    o_id op' = o_id op \<and> o_status op' = Failed \<and> o_closed_at op' = Some now \<and> db_projects t = db_projects s"
proof -
  let ?g = "\<lambda>o1. (o1\<lparr> o_status := Failed, o_error := Some err, o_closed_at := Some now \<rparr>)\<lparr> o_updated_at := now \<rparr>"
  have other: "o_id o1 \<noteq> o_id op" if "o1 \<in> set ops" for o1
    using assms(2) that by (metis image_eqI)
  then have old: "filter (\<lambda>o1. o_id o1 = o_id op) ops = []"
    "map (\<lambda>o1. if o_id o1 = o_id op then ?g o1 else o1) ops = ops"
    by (auto simp: filter_empty_conv intro!: map_idI)
  have "update_operation (o_id op) None now
      (\<lambda>o1. o1\<lparr> o_status := Failed, o_error := Some err, o_closed_at := Some now \<rparr>) s =
      (Inr (Some (?g op)), s\<lparr> db_operations := ops @ [?g op] \<rparr>)"
    by (simp add: update_operation_def Let_def returning_def update_where_def first_row_def assms(1) old)
  then show ?thesis
    by (simp add: mark_operation_failed_def transition_def patch_owned_def announce_def notify_patched_def
        notify_operation_def pg_notify_def eff_simps with_request_def)
qed

lemma open_scan_run:
  assumes "p_id project \<in> p_id ` set (db_projects s)" "(p_id project, scan_lock (p_id project)) \<notin> fst ` held s"
  shows "\<exists>op. open_scan pe actor project s =
      (Inr op, s\<lparr> db_operations := db_operations s @ [op], db_notes := db_notes s @ [NoteOperation op] \<rparr>) \<and>
    o_id op = pe_ids pe s \<and> o_project_id op = p_id project"
proof -
  have none: "\<not> (\<exists>o1 \<in> set (db_operations s). o_project_id o1 = p_id project \<and>
      o_lock o1 = Some (scan_lock (p_id project)) \<and> is_open o1)"
    using assms(2) unfolding held_def by (force simp: holds_lock_def lock_entry_def)
  then show ?thesis
    unfolding open_scan_def pe_now_def with_now_def
    by (subst create_operation_exclusive [where lock = "scan_lock (p_id project)"])
      (use assms(1) in \<open>simp_all add: references_row_def new_operation_def\<close>)
qed

text \<open>When the run of a scan does not start, the call throws the error of \<open>start\<close>, the scan operation
  is closed as failed and its lock is free again, and the project counts as scanned until its interval
  is over.\<close>

theorem failed_scan_start_closes:
  assumes fails: "\<And>op u. pe_start pe op u = (Inl e, u)"
    and free: "p_id project \<in> p_id ` set (db_projects s)" "(p_id project, scan_lock (p_id project)) \<notin> fst ` held s"
    and fresh: "pe_ids pe s \<notin> o_id ` set (db_operations s)"
  shows "\<exists>t op claimed. start_project_scan pe actor project s = (Inl e, t) \<and>
    db_operations t = db_operations s @ [op] \<and> o_status op = Failed \<and> held t = held s \<and>
    (\<forall>p \<in> set (db_projects t). p_id p = p_id project \<longrightarrow> p_last_scan_claimed_at p = Some claimed \<and>
       (\<forall>now interval. scan_interval_ms (p_scan_interval p) = Some interval \<longrightarrow>
          scan_due now p \<longrightarrow> claimed + interval < now))"
proof -
  obtain op where op: "open_scan pe actor project s =
      (Inr op, s\<lparr> db_operations := db_operations s @ [op], db_notes := db_notes s @ [NoteOperation op] \<rparr>)"
    "o_id op = pe_ids pe s" "o_project_id op = p_id project"
    using open_scan_run [OF free] by blast
  let ?s1 = "s\<lparr> db_operations := db_operations s @ [op], db_notes := db_notes s @ [NoteOperation op] \<rparr>"
  define claimed where "claimed = rt_clock (pe_rt pe) ?s1"
  let ?s2 = "?s1\<lparr> db_projects := update_where (\<lambda>p. p_id p = p_id project)
      (\<lambda>p. p\<lparr> p_last_scan_claimed_at := Some claimed \<rparr>) (db_projects s) \<rparr>"
  have claim: "claim_project_scan claimed (p_id project) ?s1 = (Inr (), ?s2)"
    by (simp add: claim_project_scan_def update_projects_def eff_bind_run eff_run)
  let ?err = "describe_operation_error (rt_driver (pe_rt pe)) e"
  have rows: "db_operations ?s2 = db_operations s @ [op]" "o_id op \<notin> o_id ` set (db_operations s)"
    using fresh op(2) by simp_all
  obtain t op' where failed: "mark_operation_failed (rt_clock (pe_rt pe) ?s2) op ?err None ?s2 = (Inr op', t)"
    "db_operations t = db_operations s @ [op']" "o_status op' = Failed" "db_projects t = db_projects ?s2"
    using fail_last [OF rows, of "rt_clock (pe_rt pe) ?s2" ?err] by blast
  have "start_project_scan pe actor project s = (Inl e, t)"
    by (simp add: start_project_scan_def eff_bind_run op(1) pe_now_def with_now_def claimed_def [symmetric] claim
        eff_catch_run fails close_failed_start_def failed(1) [simplified] eff_run)
  moreover have "held t = held s"
    using failed(2,3) by (simp add: held_def holds_lock_def is_open_def OPEN_OPERATION_STATUSES_def)
  moreover have "p_last_scan_claimed_at p = Some claimed" if "p \<in> set (db_projects t)" "p_id p = p_id project" for p
    using that unfolding failed(4) by (auto simp: update_where_def split: if_splits)
  ultimately show ?thesis
    using failed(2,3) by (intro exI [of _ t] exI [of _ op'] exI [of _ claimed]) (auto simp: scan_due_def)
qed

section \<open>Witnesses\<close>

text \<open>A project with one applied resource, whose read answers what is stored, and one that drifted.\<close>

definition scanned_resource :: "string \<Rightarrow> resource_status \<Rightarrow> resource" where
  "scanned_resource k status = (hd (db_resources created_db))\<lparr> r_id := k, r_slug := k, r_status := status, r_type := ''aws_vpc'',
     r_identity := Some [(''id'', JStr k)], r_inputs := Some [], r_outputs := Some [],
     r_provider := Some ''aws'', r_integration_id := Some (i_id (hd (db_integrations with_two))), r_created_at := 1 \<rparr>"

definition scan_op :: operation where
  "scan_op = new_operation ''scan'' 9 \<lparr> cp_project_id = ''p'', cp_resource_id = None, cp_item_id = None, cp_retry_of = None,
     cp_run_id = None, cp_lock = Some (scan_lock ''p''), cp_kind = OpScan, cp_approval = None,
     cp_actor = (SystemActor, ''o''), cp_request = [] \<rparr>"

definition scan_db :: db where
  "scan_db = with_two\<lparr> db_resources := [scanned_resource ''a'' Live, scanned_resource ''b'' Updating],
     db_operations := [scan_op] \<rparr>"

definition scan_env :: project_env where
  "scan_env = \<lparr> pe_rt = (demo_rt True)\<lparr> rt_catalog := aws_catalog, rt_read := \<lambda>_ _ _ _. eff_return (Some []) \<rparr>,
     pe_ids = \<lambda>_. ''new'', pe_start = \<lambda>_. eff_throw (PlainError ''no engine'') \<rparr>"

lemma scan_env_calls: "scan_calls (no_older op) (pe_rt scan_env)" "scan_calls (same_candidates op) (pe_rt scan_env)"
  by (simp_all add: scan_calls_def scan_env_def demo_rt_def older.moves_basic candidates.moves_basic)

lemma scan_terminates_witness: "\<exists>result t. scan_project_workflow scan_env scan_op scan_db = Some (result, t)"
  by (rule scan_terminates [OF scan_env_calls(1)])

lemma scan_run: "map_option fst (scan_project_workflow scan_env scan_op scan_db) =
    Some (Inr \<lparr> sn_total = 2, sn_scanned = 2, sn_inflight = 0, sn_unchanged = 1, sn_absorbed = 1, sn_missing = 0,
      sn_failed = 0, sn_during = 0 \<rparr>)"
  by code_simp

lemma scan_counts_add_up_witness:
  "sn_scanned (projr (fst (the (scan_project_workflow scan_env scan_op scan_db)))) = 2"
proof -
  obtain counts t where run: "scan_project_workflow scan_env scan_op scan_db = Some (Inr counts, t)"
    and counts: "sn_total counts = 2" "sn_inflight counts = 0"
    using scan_run by auto
  have ids: "distinct (map r_id (db_resources scan_db))" "[] \<notin> r_id ` set (db_resources scan_db)" by code_simp+
  from scan_counts_add_up [OF run scan_env_calls(2) ids] counts show ?thesis by (simp add: run)
qed

lemma failed_scan_start_closes_witness:
  "\<exists>t op. start_project_scan scan_env demo_actor demo_project idle_db = (Inl (PlainError ''no engine''), t) \<and>
     o_status (op :: operation) = Failed \<and> held t = held idle_db"
proof -
  have 1: "pe_start scan_env op u = (Inl (PlainError ''no engine''), u)" for op u by (simp add: scan_env_def eff_run)
  have 2: "p_id demo_project \<in> p_id ` set (db_projects idle_db)" by code_simp
  have 3: "(p_id demo_project, scan_lock (p_id demo_project)) \<notin> fst ` held idle_db" by (simp add: held_def idle_db_def)
  have 4: "pe_ids scan_env idle_db \<notin> o_id ` set (db_operations idle_db)" by (simp add: idle_db_def)
  show ?thesis using failed_scan_start_closes [OF 1 2 3 4, of demo_actor] by blast
qed

end
