(* ===== verification/ScanSafety.thy ===== *)
theory ScanSafety
  imports ScanProps
begin

text \<open>
  A scan and the operations that run beside it: it never writes a resource whose lock another operation
  holds, and leaves that operation its lock.
\<close>

section \<open>Locked resources\<close>

definition locked_by_other :: "operation \<Rightarrow> string \<Rightarrow> db \<Rightarrow> bool" where
  "locked_by_other scan k s \<longleftrightarrow> (\<exists>o1 \<in> set (db_operations s). o_project_id o1 = o_project_id scan \<and>
     o_lock o1 = Some (resource_lock k) \<and> is_open o1 \<and> o_id o1 \<noteq> o_id scan)"

definition rows_of :: "string \<Rightarrow> db \<Rightarrow> resource list" where
  "rows_of k s = filter (\<lambda>r. r_id r = k) (db_resources s)"

definition leaves_locked :: "operation \<Rightarrow> db \<Rightarrow> db \<Rightarrow> bool" where
  "leaves_locked scan s t \<longleftrightarrow> (\<forall>k. locked_by_other scan k s \<longrightarrow> locked_by_other scan k t \<and> rows_of k t = rows_of k s)"

interpretation locked: scan_order "leaves_locked scan" for scan
  by unfold_locales (auto simp: leaves_locked_def)

section \<open>What one operation touches\<close>

text \<open>Only the operation \<open>j\<close> and the resource \<open>k\<close>, if any.\<close>

definition only_touches :: "string \<Rightarrow> string option \<Rightarrow> db \<Rightarrow> db \<Rightarrow> bool" where
  "only_touches j k s t \<longleftrightarrow>
     filter (\<lambda>o1. o_id o1 \<noteq> j) (db_operations t) = filter (\<lambda>o1. o_id o1 \<noteq> j) (db_operations s) \<and>
     (\<forall>i. Some i \<noteq> k \<longrightarrow> rows_of i t = rows_of i s)"

interpretation touches: scan_order "only_touches j k" for j k
  by unfold_locales (auto simp: only_touches_def)

lemma filter_update_where:
  assumes "\<And>x. p x \<Longrightarrow> \<not> q x \<and> \<not> q (f x)"
  shows "filter q (update_where p f xs) = filter q xs"
  by (induction xs) (use assms in \<open>auto simp: update_where_def\<close>)

lemma patch_row_id: "r_id (patch_row patch r) = r_id r"
  by (cases patch) simp_all

lemma touches_basic:
  "eff_moves (only_touches j k) (notify_operation op)" "eff_moves (only_touches j k) (notify_patched patched patch)"
  "eff_moves (only_touches j k) (find_operation i)"
  by (simp_all add: eff_moves_def only_touches_def rows_of_def notify_operation_def notify_patched_def notify_resource_def
      pg_notify_def find_operation_def eff_run split: option.split)

lemma update_touches:
  assumes "\<And>o1. o_id (f o1) = o_id o1" shows "eff_moves (only_touches j k) (update_operation j sts now f)"
  unfolding eff_moves_def
proof
  fix s
  show "only_touches j k s (snd (update_operation j sts now f s))"
    unfolding only_touches_def
    by (auto simp: update_operation_def Let_def rows_of_def assms intro!: filter_update_where)
qed

lemma patch_touches:
  "eff_moves (only_touches j (Some k)) (apply_resource_patch now k patch)"
  by (auto simp: eff_moves_def only_touches_def apply_resource_patch_def Let_def rows_of_def patch_row_id
      split: option.split intro!: filter_update_where)

lemma owned_touches: "eff_moves (only_touches j (truthy (o_resource_id op))) (patch_owned now op patch)"
proof (cases patch)
  case None
  then show ?thesis by (simp add: patch_owned_def touches.moves_basic)
next
  case (Some p)
  then show ?thesis
    by (cases "truthy (o_resource_id op)")
      (auto simp: patch_owned_def intro!: touches.moves_basic touches.moves_bind patch_touches)
qed

lemma owned_none: "eff_moves (only_touches j k) (patch_owned now op None)"
  by (simp add: patch_owned_def touches.moves_basic)

lemmas touch_intros = touches.moves_basic touches.moves_bind touches.moves_catch touches.moves_tx touches.moves_cases
  touches_basic update_touches

lemma marks_touch:
  "eff_moves (only_touches (o_id op) (truthy (o_resource_id op))) (mark_operation_succeeded now op result patch)"
  "eff_moves (only_touches (o_id op) k) (mark_operation_succeeded now op result None)"
  "eff_moves (only_touches (o_id op) k) (mark_operation_failed now op err None)"
  "eff_moves (only_touches (o_id op) k) (mark_operation_running now op None)"
  unfolding mark_operation_succeeded_def mark_operation_failed_def mark_operation_running_def transition_def announce_def
    settled_or_conflict_def
  by (intro touch_intros owned_touches owned_none; simp)+

lemma touches_locked:
  assumes "only_touches (o_id scan) None s t" shows "leaves_locked scan s t"
proof -
  have "locked_by_other scan k s = locked_by_other scan k t" for k
  proof -
    have "locked_by_other scan k u \<longleftrightarrow> (\<exists>o1 \<in> set (filter (\<lambda>o1. o_id o1 \<noteq> o_id scan) (db_operations u)).
        o_project_id o1 = o_project_id scan \<and> o_lock o1 = Some (resource_lock k) \<and> is_open o1)" for u
      by (auto simp: locked_by_other_def)
    moreover have "filter (\<lambda>o1. o_id o1 \<noteq> o_id scan) (db_operations t) =
        filter (\<lambda>o1. o_id o1 \<noteq> o_id scan) (db_operations s)" using assms by (simp add: only_touches_def)
    ultimately show ?thesis by (simp only:)
  qed
  with assms show ?thesis by (simp add: leaves_locked_def only_touches_def)
qed

section \<open>Alignment\<close>

lemma create_operation_run:
  assumes "create_operation k now p s = (r, t)"
  shows "(case r of Inl e \<Rightarrow> t = s
    | Inr op \<Rightarrow> op = new_operation k now p \<and> db_operations t = db_operations s @ [op] \<and> db_resources t = db_resources s \<and>
        (\<forall>l. cp_lock p = Some l \<longrightarrow> (cp_project_id p, l) \<notin> set (open_locks (db_operations s))))"
  using assms
  by (auto simp: create_operation_def eff_simps insert_operation_def notify_operation_def pg_notify_def new_operation_def
      is_open_def OPEN_OPERATION_STATUSES_def split: if_splits prod.splits sum.splits)

lemma settle_touches: "eff_moves (only_touches (o_id op) (truthy (o_resource_id op))) (settle_drift pe scan r patch reason op)"
  unfolding settle_drift_def complete_scan_alignment_operation_def fail_operation_def
  by (intro touch_intros touches.now_order marks_touch)

lemma other_lock:
  assumes "locked_by_other scan k s" "(o_project_id scan, l) \<notin> set (open_locks (db_operations s))"
  shows "l \<noteq> resource_lock k"
proof
  assume "l = resource_lock k"
  with assms(1) obtain o1 where "o1 \<in> set (db_operations s)" "o_project_id o1 = o_project_id scan"
    "o_lock o1 = Some l" "is_open o1" unfolding locked_by_other_def by blast
  then have "(o_project_id o1, the (o_lock o1)) \<in> set (open_locks (db_operations s))"
    unfolding open_locks_def by (auto intro!: image_eqI [of _ _ o1])
  with assms(2) \<open>o_project_id o1 = o_project_id scan\<close> \<open>o_lock o1 = Some l\<close> show False by simp
qed

text \<open>Creating the operation of a drift and settling it, when its id is fresh.\<close>

lemma drift_leaves_locked:
  assumes fresh: "\<And>u. pe_ids pe u \<notin> o_id ` set (db_operations u)"
    and create: "create_scan_alignment_operation pe scan r reason s = (Inr op, u)"
    and touch: "only_touches (o_id op) (truthy (o_resource_id op)) u t"
  shows "leaves_locked scan s t"
  unfolding leaves_locked_def
proof (intro allI impI)
  fix k assume locked: "locked_by_other scan k s"
  have op: "o_id op = pe_ids pe s" "o_resource_id op = Some (r_id r)" "db_operations u = db_operations s @ [op]"
    "db_resources u = db_resources s" "(o_project_id scan, resource_lock (r_id r)) \<notin> set (open_locks (db_operations s))"
    using create create_operation_run
    unfolding create_scan_alignment_operation_def pe_now_def with_now_def
    by (fastforce simp: new_operation_def)+
  from other_lock [OF locked op(5)] have k: "k \<noteq> r_id r" by auto
  from locked obtain o1 where o1: "o1 \<in> set (db_operations s)" "o_project_id o1 = o_project_id scan"
    "o_lock o1 = Some (resource_lock k)" "is_open o1" "o_id o1 \<noteq> o_id scan"
    unfolding locked_by_other_def by blast
  have "o_id o1 \<noteq> o_id op" using fresh [of s] o1(1) op(1) by (metis image_eqI)
  with o1(1) op(3) have "o1 \<in> set (filter (\<lambda>o1. o_id o1 \<noteq> o_id op) (db_operations u))" by simp
  then have "o1 \<in> set (filter (\<lambda>o1. o_id o1 \<noteq> o_id op) (db_operations t))" using touch by (simp add: only_touches_def)
  then have "o1 \<in> set (db_operations t)" by simp
  with o1 have "locked_by_other scan k t" unfolding locked_by_other_def by blast
  moreover have "rows_of k t = rows_of k u"
    using touch k op(2) by (cases "r_id r") (auto simp: only_touches_def)
  ultimately show "locked_by_other scan k t \<and> rows_of k t = rows_of k s"
    using op(4) by (simp add: rows_of_def)
qed

lemma align_leaves_locked:
  assumes "\<And>u. pe_ids pe u \<notin> o_id ` set (db_operations u)"
  shows "eff_moves (leaves_locked scan) (align_scan_resource pe scan r read schema failed)"
proof (cases "failed \<or> get_scan_resource_patch r read schema = None")
  case True
  then show ?thesis by (auto simp: align_scan_resource_def locked.moves_basic)
next
  case False
  then obtain patch reason where patch: "get_scan_resource_patch r read schema = Some (patch, reason)" and ok: "\<not> failed" by auto
  show ?thesis
    unfolding eff_moves_def
  proof
    fix s
    obtain x u where create: "create_scan_alignment_operation pe scan r reason s = (x, u)"
      by (cases "create_scan_alignment_operation pe scan r reason s")
    show "leaves_locked scan s (snd (align_scan_resource pe scan r read schema failed s))"
    proof (cases x)
      case (Inl e)
      with create create_operation_run have u: "u = s"
        unfolding create_scan_alignment_operation_def pe_now_def with_now_def by fastforce
      have "snd (align_scan_resource pe scan r read schema failed s) = s"
        by (cases e) (simp_all add: align_scan_resource_def ok patch eff_simps create Inl u)
      then show ?thesis by (simp add: locked.R_refl)
    next
      case (Inr op)
      have "only_touches (o_id op) (truthy (o_resource_id op)) u (snd (settle_drift pe scan r patch reason op u))"
        using settle_touches by (simp add: eff_moves_def)
      from drift_leaves_locked [OF assms create [unfolded Inr] this]
      show ?thesis by (simp add: align_scan_resource_def ok patch eff_simps create Inr)
    qed
  qed
qed

text \<open>C25: a scan never writes a resource while another operation of its project holds the lock of that
  resource, and the other operation keeps the lock: whatever the scan read, its result is dropped.\<close>

theorem scan_leaves_locked:
  assumes "scan_calls (leaves_locked scan) (pe_rt pe)"
    and "\<And>u. pe_ids pe u \<notin> o_id ` set (db_operations u)"
    and "scan_project_workflow pe scan s = Some (result, t)" "locked_by_other scan k s"
  shows "rows_of k t = rows_of k s \<and> locked_by_other scan k t"
proof -
  have own: "eff_moves (leaves_locked scan) m" if "eff_moves (only_touches (o_id scan) None) m" for m :: "'x svc"
    using that touches_locked by (simp add: eff_moves_def)
  have "leaves_locked scan s (snd (result, t))"
  proof (rule locked.workflow_order [OF _ _ _ _ assms(3)])
    show "eff_moves (leaves_locked scan) (scan_batch pe scan cursor counts)" for cursor counts
      by (rule locked.batch_order [OF assms(1) align_leaves_locked [OF assms(2)]])
    show "eff_moves (leaves_locked scan) (start_scan_operation pe scan)"
      "eff_moves (leaves_locked scan) (complete_scan_operation pe scan result)"
      "eff_moves (leaves_locked scan) (fail_operation pe scan e)" for result e
      unfolding start_scan_operation_def complete_scan_operation_def fail_operation_def
      by (intro own touches.now_order marks_touch)+
  qed
  with assms(4) show ?thesis by (simp add: leaves_locked_def)
qed

section \<open>A read that is out of date\<close>

lemma settle_applies:
  assumes "op \<in> set (db_operations s)" "cur \<in> set (db_resources s)" "o_resource_id op = Some (r_id cur)" "r_id cur \<noteq> []"
  shows "\<exists>t now. settle_drift pe scan r patch reason op s = (Inr reason, t) \<and>
    db_resources t = update_where (\<lambda>x. r_id x = r_id cur) (\<lambda>x. (patch_row patch x)\<lparr> r_updated_at := now \<rparr>) (db_resources s)"
proof -
  let ?now = "rt_clock (pe_rt pe) s"
  let ?res = "[(''scanOperationId'', JStr (o_id scan)), (''resourceId'', JStr (r_id r)),
      (''reason'', JStr (scan_outcome_str reason))]"
  let ?rows = "update_where (\<lambda>x. r_id x = r_id cur) (\<lambda>x. (patch_row patch x)\<lparr> r_updated_at := ?now \<rparr>) (db_resources s)"
  have guard: "matches_guard (o_id op) None op" by (simp add: matches_guard_def)
  obtain row r' u where run: "transition ?now op None
      (\<lambda>o1. o1\<lparr> o_status := Succeeded, o_result := Some ?res, o_closed_at := Some ?now \<rparr>) (Some patch) s =
      (Inr (Some (row, Some r')), u)" "db_resources u = ?rows"
    using transition_applies [OF assms(1) guard assms(2-4), of ?now _ patch] by fastforce
  then have "\<exists>t. settle_drift pe scan r patch reason op s = (Inr reason, t) \<and> db_resources t = ?rows"
    by (simp add: settle_drift_def complete_scan_alignment_operation_def pe_now_def with_now_def
        mark_operation_succeeded_def eff_simps announce_def notify_operation_def notify_patched_def notify_resource_def
        pg_notify_def)
  then show ?thesis by blast
qed

lemma create_alignment_run:
  assumes "o_project_id scan \<in> p_id ` set (db_projects s)" "r_id r \<in> r_id ` set (db_resources s)"
    and "\<not> (\<exists>o1 \<in> set (db_operations s). o_project_id o1 = o_project_id scan \<and>
      o_lock o1 = Some (resource_lock (r_id r)) \<and> is_open o1)"
  shows "\<exists>op. create_scan_alignment_operation pe scan r reason s =
      (Inr op, s\<lparr> db_operations := db_operations s @ [op], db_notes := db_notes s @ [NoteOperation op] \<rparr>) \<and>
    o_resource_id op = Some (r_id r)"
  unfolding create_scan_alignment_operation_def pe_now_def with_now_def
  by (subst create_operation_exclusive [where lock = "resource_lock (r_id r)"])
    (use assms in \<open>simp_all add: references_row_def new_operation_def\<close>)

text \<open>C26: the drift of a resource is computed from the row and the state read before its lock is taken,
  and is not checked again: when the lock is free at the end, the row gets the inputs and outputs of
  that read, whatever an operation that finished in between has written to it.\<close>

theorem stale_scan_overwrites:
  assumes drift: "get_resource_state_patch_after_read old (Some state) schema = Some (PatchRead Live inps outs)"
    and cur: "cur \<in> set (db_resources s)" "r_id cur = r_id old" "r_id old \<noteq> []"
    and project: "o_project_id scan \<in> p_id ` set (db_projects s)"
    and free: "(o_project_id scan, resource_lock (r_id old)) \<notin> fst ` held s"
  shows "\<exists>t. align_scan_resource pe scan old (Some state) schema False s = (Inr Absorbed, t) \<and>
    (\<exists>row \<in> set (db_resources t). r_id row = r_id old \<and> r_inputs row = inps \<and> r_outputs row = outs \<and>
       r_slug row = r_slug cur)"
proof -
  have none: "\<not> (\<exists>o1 \<in> set (db_operations s). o_project_id o1 = o_project_id scan \<and>
      o_lock o1 = Some (resource_lock (r_id old)) \<and> is_open o1)"
    using free unfolding held_def holds_lock_def lock_entry_def by (fastforce intro: rev_image_eqI)
  have row: "r_id old \<in> r_id ` set (db_resources s)" using cur(1,2) by (metis image_eqI)
  obtain op where create: "create_scan_alignment_operation pe scan old Absorbed s =
      (Inr op, s\<lparr> db_operations := db_operations s @ [op], db_notes := db_notes s @ [NoteOperation op] \<rparr>)"
    and target: "o_resource_id op = Some (r_id old)"
    using create_alignment_run [OF project row none, of pe Absorbed] by blast
  define u where "u = s\<lparr> db_operations := db_operations s @ [op], db_notes := db_notes s @ [NoteOperation op] \<rparr>"
  have op: "op \<in> set (db_operations u)" "o_resource_id op = Some (r_id old)" "db_resources u = db_resources s"
    using target by (simp_all add: u_def)
  have "cur \<in> set (db_resources u)" "o_resource_id op = Some (r_id cur)" "r_id cur \<noteq> []" using op cur by simp_all
  from settle_applies [OF op(1) this, of pe scan old "PatchRead Live inps outs" Absorbed]
  obtain t now where settle: "settle_drift pe scan old (PatchRead Live inps outs) Absorbed op u = (Inr Absorbed, t)"
    and rows: "db_resources t = update_where (\<lambda>x. r_id x = r_id cur)
      (\<lambda>x. (patch_row (PatchRead Live inps outs) x)\<lparr> r_updated_at := now \<rparr>) (db_resources u)" by blast
  let ?row = "(patch_row (PatchRead Live inps outs) cur)\<lparr> r_updated_at := now \<rparr>"
  have "?row \<in> set (db_resources t)" unfolding rows op(3)
    using update_where_mem [OF cur(1), of "\<lambda>x. r_id x = r_id cur"
      "\<lambda>x. (patch_row (PatchRead Live inps outs) x)\<lparr> r_updated_at := now \<rparr>"] by simp
  moreover have "align_scan_resource pe scan old (Some state) schema False s = (Inr Absorbed, t)"
    by (simp add: align_scan_resource_def get_scan_resource_patch_def drift eff_simps create u_def [symmetric] settle)
  moreover have "r_id ?row = r_id old" "r_inputs ?row = inps" "r_outputs ?row = outs" "r_slug ?row = r_slug cur"
    using cur(2) by simp_all
  ultimately show ?thesis by blast
qed

section \<open>Witness\<close>

definition fresh_env :: project_env where
  "fresh_env = scan_env\<lparr> pe_ids := \<lambda>s. ''x'' @ concat (map o_id (db_operations s)) \<rparr>"

definition busy_op :: operation where
  "busy_op = scan_op\<lparr> o_id := ''busy'', o_lock := Some (resource_lock ''b''), o_kind := OpUpdate \<rparr>"

definition busy_db :: db where
  "busy_db = scan_db\<lparr> db_operations := [scan_op, busy_op] \<rparr>"

lemma fresh_ids: "pe_ids fresh_env u \<notin> o_id ` set (db_operations u)"
proof
  assume "pe_ids fresh_env u \<in> o_id ` set (db_operations u)"
  then obtain o1 where o1: "o1 \<in> set (db_operations u)" "o_id o1 = ''x'' @ concat (map o_id (db_operations u))"
    by (auto simp: fresh_env_def)
  have "length (o_id o1) \<le> length (concat (map o_id (db_operations u)))"
    using member_le_sum_list [of "length (o_id o1)" "map length (map o_id (db_operations u))"] o1(1)
    by (simp add: length_concat comp_def)
  with o1(2) show False by simp
qed

lemma scan_leaves_locked_witness:
  "rows_of ''b'' (snd (the (scan_project_workflow fresh_env scan_op busy_db))) = rows_of ''b'' busy_db"
proof -
  have calls: "scan_calls (leaves_locked scan_op) (pe_rt fresh_env)"
    by (simp add: scan_calls_def fresh_env_def scan_env_def demo_rt_def locked.moves_basic)
  have "scan_calls (no_older scan_op) (pe_rt fresh_env)" using scan_env_calls by (simp add: fresh_env_def)
  from scan_workflow_ends [OF this, of busy_db] obtain result t where
    run: "scan_project_workflow fresh_env scan_op busy_db = Some (result, t)"
    by (cases "scan_project_workflow fresh_env scan_op busy_db") auto
  have locked: "locked_by_other scan_op ''b'' busy_db"
    by (simp add: locked_by_other_def busy_db_def busy_op_def scan_op_def new_operation_def is_open_def OPEN_OPERATION_STATUSES_def)
  show ?thesis using scan_leaves_locked [OF calls fresh_ids run locked] by (simp add: run)
qed

text \<open>The row \<open>b\<close> was updated, and its operation finished, after it was read.\<close>

definition updated_db :: db where
  "updated_db = scan_db\<lparr> db_resources := [(scanned_resource ''b'' Live)\<lparr> r_outputs := Some [(''size'', JNum 2)] \<rparr>] \<rparr>"

lemma stale_scan_overwrites_witness:
  "\<exists>t. align_scan_resource scan_env scan_op (scanned_resource ''b'' Updating) (Some []) None False updated_db = (Inr Absorbed, t) \<and>
     (\<exists>row \<in> set (db_resources t). r_id row = ''b'' \<and> r_outputs row = Some [])"
proof -
  have 1: "get_resource_state_patch_after_read (scanned_resource ''b'' Updating) (Some []) None =
      Some (PatchRead Live (Some []) (Some []))" by code_simp
  have 2: "(scanned_resource ''b'' Live)\<lparr> r_outputs := Some [(''size'', JNum 2)] \<rparr> \<in> set (db_resources updated_db)"
    by (simp add: updated_db_def)
  have 3: "o_project_id scan_op \<in> p_id ` set (db_projects updated_db)" by code_simp
  have 4: "(o_project_id scan_op, resource_lock (r_id (scanned_resource ''b'' Updating))) \<notin> fst ` held updated_db"
    by (simp add: held_def updated_db_def scan_db_def scan_op_def new_operation_def scanned_resource_def lock_entry_def
        scan_lock_def resource_lock_def)
  have 5: "r_id ((scanned_resource ''b'' Live)\<lparr> r_outputs := Some [(''size'', JNum 2)] \<rparr>) = r_id (scanned_resource ''b'' Updating)"
    "r_id (scanned_resource ''b'' Updating) = ''b''" by (simp_all add: scanned_resource_def)
  show ?thesis using stale_scan_overwrites [OF 1 2 5(1) _ 3 4, of scan_env] unfolding 5(2) by blast
qed

end
