(* ===== verification/Sse.thy ===== *)
theory Sse
  imports JsValue "HOL-Library.Sublist"
begin

text \<open>
  Server-sent events, from both ends: the frames apps/api/src/lib/sse.ts writes and the incremental
  parser of the CLI, packages/cli/src/core/sse/parser.ts. A chunk is a decoded string; the calls of the
  callbacks are the list of outputs. The ellipsis of a shortened field name is written as three dots.
\<close>

definition CR :: char where "CR = CHR 0x0D"
definition LF :: char where "LF = CHR 0x0A"

section \<open>Lines\<close>

definition index_of :: "char \<Rightarrow> string \<Rightarrow> nat option" where
  "index_of c s = (if c \<in> set s then Some (length (takeWhile (\<lambda>x. x \<noteq> c) s)) else None)"

text \<open>\<open>lineEnd\<close>, counted from the search index; a CR at the end of the chunk is left for the next one.\<close>

definition line_end :: "string \<Rightarrow> nat option" where
  "line_end rest = (case (index_of CR rest, index_of LF rest) of
     (Some c, Some l) \<Rightarrow> Some (min c l)
   | (Some c, None) \<Rightarrow> if c = length rest - 1 then None else Some c
   | (None, Some l) \<Rightarrow> Some l
   | (None, None) \<Rightarrow> None)"

definition after_line :: "nat \<Rightarrow> string \<Rightarrow> string" where
  "after_line n rest =
     (let after = drop (n + 1) rest
      in if rest ! n = CR \<and> after \<noteq> [] \<and> hd after = LF then tl after else after)"

lemma index_of_less: "index_of c s = Some n \<Longrightarrow> n < length s"
  unfolding index_of_def by (induction s arbitrary: n) (auto split: if_splits)

lemma line_end_less: "line_end rest = Some n \<Longrightarrow> n < length rest"
  by (auto simp: line_end_def min_def split: option.splits if_splits dest: index_of_less)

lemma after_line_shorter: "line_end rest = Some n \<Longrightarrow> length (after_line n rest) < length rest"
  by (auto simp: after_line_def Let_def dest!: line_end_less)

function split_lines :: "string \<Rightarrow> string list \<times> string" where
  "split_lines rest =
     (case line_end rest of
        None \<Rightarrow> ([], rest)
      | Some n \<Rightarrow> (case split_lines (after_line n rest) of (lines, incomplete) \<Rightarrow> (take n rest # lines, incomplete)))"
  by pat_completeness auto

termination
  by (relation "measure length") (auto simp: after_line_shorter)

declare split_lines.simps [simp del]

section \<open>The parser\<close>

record sse_message =
  em_id :: "string option"
  em_event :: "string option"
  em_data :: string

datatype parse_error_type = InvalidRetry | UnknownField

record parse_error =
  pe_type :: parse_error_type
  pe_message :: string
  pe_field :: "string option"
  pe_value :: string
  pe_line :: string

datatype parser_output =
    OnEvent sse_message
  | OnRetry nat
  | OnComment string
  | OnError parse_error

record parser_state =
  ps_incomplete :: string
  ps_first :: bool
  ps_id :: "string option"
  ps_data :: string
  ps_event :: string

definition initial_parser :: parser_state where
  "initial_parser = \<lparr> ps_incomplete = [], ps_first = True, ps_id = None, ps_data = [], ps_event = [] \<rparr>"

definition quoted :: "string \<Rightarrow> string" where
  "quoted s = [CHR 0x22] @ s @ [CHR 0x22]"

definition process_field :: "string \<Rightarrow> string \<Rightarrow> string \<Rightarrow> parser_state \<Rightarrow> parser_output list \<times> parser_state" where
  "process_field field value line st =
     (if field = ''event'' then ([], st\<lparr> ps_event := value \<rparr>)
      else if field = ''data'' then ([], st\<lparr> ps_data := ps_data st @ value @ [LF] \<rparr>)
      else if field = ''id'' then ([], st\<lparr> ps_id := (if CHR 0x00 \<in> set value then None else Some value) \<rparr>)
      else if field = ''retry'' then
        (if is_digits value then ([OnRetry (nat_of_digits value)], st)
         else ([OnError \<lparr> pe_type = InvalidRetry, pe_message = ''Invalid `retry` value: '' @ quoted value, pe_field = None,
            pe_value = value, pe_line = line \<rparr>], st))
      else ([OnError \<lparr> pe_type = UnknownField,
          pe_message = ''Unknown field '' @ quoted (if length field > 20 then take 20 field @ ''...'' else field),
          pe_field = Some field, pe_value = value, pe_line = line \<rparr>], st))"

definition dispatch_event :: "parser_state \<Rightarrow> parser_output list \<times> parser_state" where
  "dispatch_event st =
     ((if ps_data st = [] then []
       else [OnEvent \<lparr> em_id = ps_id st, em_event = (if ps_event st = [] then None else Some (ps_event st)),
         em_data = (if last (ps_data st) = LF then butlast (ps_data st) else ps_data st) \<rparr>]),
      st\<lparr> ps_id := None, ps_data := [], ps_event := [] \<rparr>)"

text \<open>\<open>line.slice(index + offset)\<close>, where one space after the colon is skipped.\<close>

definition field_value :: "nat \<Rightarrow> string \<Rightarrow> string" where
  "field_value n line = (let rest = drop (n + 1) line in case rest of c # cs \<Rightarrow> if c = CHR '' '' then cs else rest | [] \<Rightarrow> [])"

definition parse_line :: "string \<Rightarrow> parser_state \<Rightarrow> parser_output list \<times> parser_state" where
  "parse_line line st =
     (if line = [] then dispatch_event st
      else if hd line = CHR '':'' then ([OnComment (drop (if take 2 line = '': '' then 2 else 1) line)], st)
      else case index_of (CHR '':'') line of
        Some n \<Rightarrow> process_field (take n line) (field_value n line) line st
      | None \<Rightarrow> process_field line [] line st)"

fun parse_lines :: "string list \<Rightarrow> parser_state \<Rightarrow> parser_output list \<times> parser_state" where
  "parse_lines [] st = ([], st)"
| "parse_lines (line # rest) st =
     (case parse_line line st of (out, st1) \<Rightarrow> case parse_lines rest st1 of (out', st2) \<Rightarrow> (out @ out', st2))"

definition BOM :: string where "BOM = [CHR 0xEF, CHR 0xBB, CHR 0xBF]"

definition strip_bom :: "string \<Rightarrow> string" where
  "strip_bom chunk = (if prefix BOM chunk then drop (length BOM) chunk else chunk)"

definition feed :: "string \<Rightarrow> parser_state \<Rightarrow> parser_output list \<times> parser_state" where
  "feed new_chunk st =
     (let chunk = (if ps_first st then strip_bom new_chunk else new_chunk);
          (lines, incomplete) = split_lines (ps_incomplete st @ chunk);
          (out, st1) = parse_lines lines st
      in (out, st1\<lparr> ps_incomplete := incomplete, ps_first := False \<rparr>))"

definition reset_parser :: "bool \<Rightarrow> parser_state \<Rightarrow> parser_output list \<times> parser_state" where
  "reset_parser consume st =
     ((if ps_incomplete st \<noteq> [] \<and> consume then fst (parse_line (ps_incomplete st) st) else []), initial_parser)"

fun feed_all :: "string list \<Rightarrow> parser_state \<Rightarrow> parser_output list \<times> parser_state" where
  "feed_all [] st = ([], st)"
| "feed_all (chunk # chunks) st =
     (case feed chunk st of (out, st1) \<Rightarrow> case feed_all chunks st1 of (out', st2) \<Rightarrow> (out @ out', st2))"

fun event_of :: "parser_output \<Rightarrow> sse_message list" where
  "event_of (OnEvent msg) = [msg]"
| "event_of _ = []"

text \<open>\<open>parseSseStream\<close>: the events of a stream, once its chunks are decoded.\<close>

definition parse_sse_stream :: "string list \<Rightarrow> sse_message list" where
  "parse_sse_stream chunks = concat (map event_of (fst (feed_all chunks initial_parser)))"

section \<open>What the API writes\<close>

datatype frame = Connected | Heartbeat | JsonEvent string string   \<comment> \<open>event, JSON text\<close>

fun frame_text :: "(string \<Rightarrow> string \<Rightarrow> string) \<Rightarrow> frame \<Rightarrow> string" where
  "frame_text write_sse Connected = '': connected'' @ [LF, LF]"
| "frame_text write_sse Heartbeat = '': heartbeat'' @ [LF, LF]"
| "frame_text write_sse (JsonEvent event data) = write_sse event data"

end
