(* ===== verification/SseProps.thy ===== *)
theory SseProps
  imports Sse
begin

text \<open>
  The event stream between API and CLI: how the bytes are cut into chunks does not matter to the
  parser, and what the API wrote is what the CLI reads.
\<close>

section \<open>Cutting a stream\<close>

lemma index_of_append:
  "index_of c (x @ y) = (case index_of c x of Some n \<Rightarrow> Some n | None \<Rightarrow> map_option (\<lambda>n. length x + n) (index_of c y))"
proof -
  have "takeWhile (\<lambda>x. x \<noteq> c) (x @ y) = x @ takeWhile (\<lambda>x. x \<noteq> c) y" if "c \<notin> set x"
    using that by (induction x) auto
  then show ?thesis by (auto simp: index_of_def takeWhile_append1)
qed

lemma index_of_nth: "index_of c s = Some n \<Longrightarrow> s ! n = c"
  unfolding index_of_def by (induction s arbitrary: n) (auto split: if_splits)

lemma line_end_append:
  assumes "line_end x = Some n" shows "line_end (x @ y) = Some n"
proof -
  have c: "c < length x" if "index_of CR x = Some c" for c using index_of_less [OF that] .
  have l: "l < length x" if "index_of LF x = Some l" for l using index_of_less [OF that] .
  show ?thesis
    using assms c l
    by (cases "index_of CR x"; cases "index_of LF x"; cases "index_of CR y"; cases "index_of LF y")
      (auto simp: line_end_def index_of_append split: if_splits)
qed

lemma line_end_CR:
  assumes "line_end x = Some n" "x ! n = CR" shows "n + 1 < length x"
proof (cases "index_of LF x")
  case None
  with assms(1) index_of_less [of CR x] show ?thesis
    by (auto simp: line_end_def split: option.splits if_splits)
next
  case (Some l)
  have "LF \<noteq> CR" by (simp add: LF_def CR_def)
  with index_of_nth [OF Some] assms have "n \<noteq> l" by auto
  with assms(1) Some have "n < l" by (auto simp: line_end_def min_def split: option.splits if_splits)
  with index_of_less [OF Some] show ?thesis by simp
qed

lemma after_line_append:
  assumes "line_end x = Some n" shows "after_line n (x @ y) = after_line n x @ y"
proof -
  have n: "n < length x" by (rule line_end_less [OF assms])
  show ?thesis
  proof (cases "x ! n = CR")
    case True
    from line_end_CR [OF assms True] have "drop (n + 1) x \<noteq> []" by simp
    with n show ?thesis by (cases "drop (n + 1) x") (simp_all add: after_line_def Let_def nth_append)
  next
    case False
    with n show ?thesis by (simp add: after_line_def Let_def nth_append)
  qed
qed

lemma split_lines_append:
  "split_lines (x @ y) = (case split_lines x of (ls, inc) \<Rightarrow> case split_lines (inc @ y) of (ls', inc') \<Rightarrow> (ls @ ls', inc'))"
proof (induction x rule: split_lines.induct)
  case (1 x)
  show ?case
  proof (cases "line_end x")
    case None
    then show ?thesis by (simp add: split_lines.simps [of x] split: prod.split)
  next
    case (Some n)
    have "take n (x @ y) = take n x" using line_end_less [OF Some] by simp
    then show ?thesis
      using 1 [OF Some]
      by (simp add: split_lines.simps [of x] split_lines.simps [of "x @ y"] Some line_end_append [OF Some]
          after_line_append [OF Some] split: prod.splits)
  qed
qed

lemma parse_lines_append:
  "parse_lines (xs @ ys) st =
     (case parse_lines xs st of (out, st1) \<Rightarrow> case parse_lines ys st1 of (out', st2) \<Rightarrow> (out @ out', st2))"
  by (induction xs arbitrary: st) (auto split: prod.splits)

text \<open>Parsing a line neither reads nor writes what is left of the last chunk.\<close>

definition with_rest :: "string \<Rightarrow> bool \<Rightarrow> parser_state \<Rightarrow> parser_state" where
  "with_rest i f st = st\<lparr> ps_incomplete := i, ps_first := f \<rparr>"

lemma with_rest_twice [simp]: "with_rest i f (with_rest j g st) = with_rest i f st"
  by (simp add: with_rest_def)

lemma parse_line_rest:
  "parse_line line (with_rest i f st) = apsnd (with_rest i f) (parse_line line st)"
  by (auto simp: parse_line_def with_rest_def dispatch_event_def process_field_def split: option.split)

lemma parse_lines_rest:
  "parse_lines lines (with_rest i f st) = apsnd (with_rest i f) (parse_lines lines st)"
  by (induction lines arbitrary: st) (auto simp: parse_line_rest split: prod.splits)

lemma feed_run:
  assumes "split_lines (ps_incomplete st @ (if ps_first st then strip_bom chunk else chunk)) = (ls, inc)"
  shows "feed chunk st = apsnd (with_rest inc False) (parse_lines ls st)"
  using assms by (simp add: feed_def Let_def with_rest_def split: prod.splits)

lemma feed_feed:
  assumes first: "\<not> ps_first st" and run: "feed x st = (out, st1)"
  shows "feed (x @ y) st = (case feed y st1 of (out', st2) \<Rightarrow> (out @ out', st2))"
proof -
  obtain ls inc where x: "split_lines (ps_incomplete st @ x) = (ls, inc)" by (cases "split_lines (ps_incomplete st @ x)")
  obtain ls' inc' where y: "split_lines (inc @ y) = (ls', inc')" by (cases "split_lines (inc @ y)")
  obtain o1 s1 where p: "parse_lines ls st = (o1, s1)" by (cases "parse_lines ls st")
  have r: "out = o1" "st1 = with_rest inc False s1"
    using run first by (simp_all add: feed_run [of st x ls inc] x p)
  have xy: "split_lines (ps_incomplete st @ x @ y) = (ls @ ls', inc')"
    using split_lines_append [of "ps_incomplete st @ x" y] by (simp add: x y)
  have "feed (x @ y) st = apsnd (with_rest inc' False) (parse_lines (ls @ ls') st)"
    by (rule feed_run) (simp add: first xy)
  moreover have "feed y st1 = apsnd (with_rest inc' False) (parse_lines ls' st1)"
    by (rule feed_run) (simp add: r with_rest_def y)
  ultimately show ?thesis
    unfolding parse_lines_append p r by (cases "parse_lines ls' s1") (simp add: parse_lines_rest p)
qed

lemma feed_later: "\<not> ps_first (snd (feed x st))"
  by (simp add: feed_def Let_def split: prod.split)

lemma feed_all_concat:
  "\<not> ps_first st \<Longrightarrow> chunks \<noteq> [] \<Longrightarrow> feed_all chunks st = feed (concat chunks) st"
proof (induction chunks arbitrary: st)
  case (Cons c cs)
  obtain out st1 where run: "feed c st = (out, st1)" by (cases "feed c st")
  have later: "\<not> ps_first st1" using feed_later [of c st] by (simp add: run)
  show ?case
  proof (cases "cs = []")
    case True
    then show ?thesis by (simp add: run)
  next
    case False
    from Cons.IH [OF later this] feed_feed [OF Cons.prems(1) run] show ?thesis by (simp add: run)
  qed
qed simp

definition open_parser :: parser_state where
  "open_parser = initial_parser\<lparr> ps_first := False \<rparr>"

lemma feed_first: "\<not> prefix BOM c \<Longrightarrow> feed c initial_parser = feed c open_parser"
proof -
  assume c: "\<not> prefix BOM c"
  obtain ls inc where s: "split_lines c = (ls, inc)" by (cases "split_lines c")
  have open_rest: "open_parser = with_rest [] False initial_parser" by (simp add: open_parser_def with_rest_def initial_parser_def)
  have "feed c initial_parser = apsnd (with_rest inc False) (parse_lines ls initial_parser)"
    by (rule feed_run) (use c s in \<open>simp add: initial_parser_def strip_bom_def\<close>)
  moreover have "feed c open_parser = apsnd (with_rest inc False) (parse_lines ls open_parser)"
    by (rule feed_run) (simp add: open_parser_def initial_parser_def s)
  ultimately show ?thesis
    by (cases "parse_lines ls initial_parser") (simp add: open_rest parse_lines_rest)
qed

lemma stream_feed:
  assumes "\<not> prefix BOM (concat chunks)"
  shows "parse_sse_stream chunks = concat (map event_of (fst (feed (concat chunks) open_parser)))"
proof (cases chunks)
  case Nil
  have "split_lines [] = ([], [])" by code_simp
  then show ?thesis by (simp add: Nil parse_sse_stream_def feed_def open_parser_def initial_parser_def)
next
  case (Cons c cs)
  have "\<not> prefix BOM c" using assms Cons by (auto simp: prefix_def)
  then have "feed_all chunks initial_parser = feed_all chunks open_parser" by (simp add: Cons feed_first)
  also have "\<dots> = feed (concat chunks) open_parser"
    by (rule feed_all_concat) (simp_all add: open_parser_def Cons)
  finally show ?thesis by (simp add: parse_sse_stream_def)
qed

text \<open>C27: how a stream is cut into chunks does not matter, not even inside a line or between the CR and
  the LF of a line end: the CLI reads the events it would read from the whole text at once. The text must not
  begin with the three characters of a byte order mark, which the parser looks for in the first chunk only.\<close>

theorem sse_chunking:
  assumes "\<not> prefix BOM (concat chunks)" "concat chunks' = concat chunks"
  shows "parse_sse_stream chunks = parse_sse_stream chunks'"
  using assms by (simp add: stream_feed)

section \<open>Reading what was written\<close>

definition line_safe :: "string \<Rightarrow> bool" where
  "line_safe s \<longleftrightarrow> CR \<notin> set s \<and> LF \<notin> set s"

text \<open>What \<open>writeSSE\<close> writes for an event with a name and data of one line.\<close>

definition writes_sse :: "(string \<Rightarrow> string \<Rightarrow> string) \<Rightarrow> bool" where
  "writes_sse w \<longleftrightarrow> (\<forall>e d. e \<noteq> [] \<longrightarrow> line_safe e \<longrightarrow> line_safe d \<longrightarrow>
     w e d = ''event: '' @ e @ [LF] @ ''data: '' @ d @ [LF, LF])"

fun frame_ok :: "frame \<Rightarrow> bool" where
  "frame_ok (JsonEvent e d) \<longleftrightarrow> e \<noteq> [] \<and> line_safe e \<and> line_safe d"
| "frame_ok _ = True"

fun message_of_frame :: "frame \<Rightarrow> sse_message list" where
  "message_of_frame (JsonEvent e d) = [\<lparr> em_id = None, em_event = Some e, em_data = d \<rparr>]"
| "message_of_frame _ = []"

lemma split_line:
  assumes "line_safe l"
  shows "split_lines (l @ LF # rest) = (l # fst (split_lines rest), snd (split_lines rest))"
proof -
  have LF: "index_of LF (l @ LF # rest) = Some (length l)"
    using assms by (subst index_of_append) (simp add: line_safe_def index_of_def)
  have "line_end (l @ LF # rest) = Some (length l)"
  proof (cases "index_of CR (l @ LF # rest)")
    case None
    with LF show ?thesis by (simp add: line_end_def)
  next
    case (Some c)
    have "LF \<noteq> CR" by (simp add: LF_def CR_def)
    have "takeWhile (\<lambda>x. x \<noteq> CR) (l @ LF # rest) = l @ LF # takeWhile (\<lambda>x. x \<noteq> CR) rest"
      using assms \<open>LF \<noteq> CR\<close> unfolding line_safe_def by (induction l) auto
    then have "length l < c" using Some by (auto simp: index_of_def split: if_splits)
    with LF Some show ?thesis by (simp add: line_end_def)
  qed
  moreover have "after_line (length l) (l @ LF # rest) = rest"
    by (simp add: after_line_def LF_def CR_def)
  ultimately show ?thesis
    by (subst split_lines.simps) (simp split: prod.split)
qed

lemma split_empty: "split_lines [] = ([], [])"
  by code_simp

lemma parse_event_line:
  "parse_line (''event: '' @ e) st = ([], st\<lparr> ps_event := e \<rparr>)"
  "parse_line (''data: '' @ d) st = ([], st\<lparr> ps_data := ps_data st @ d @ [LF] \<rparr>)"
  by (simp_all add: parse_line_def index_of_def process_field_def field_value_def)

lemma feed_frame:
  assumes "writes_sse w" "frame_ok f"
  shows "\<exists>out. feed (frame_text w f) open_parser = (out, open_parser) \<and> concat (map event_of out) = message_of_frame f"
proof (cases f)
  case (JsonEvent e d)
  with assms have shape: "frame_text w f = (''event: '' @ e) @ LF # (''data: '' @ d) @ LF # [] @ LF # []"
    and nonempty: "e \<noteq> []" and es: "line_safe e" and ds: "line_safe d" by (simp_all add: writes_sse_def)
  have safe: "line_safe (''event: '' @ e)" "line_safe (''data: '' @ d)" "line_safe []"
    using es ds by (simp_all add: line_safe_def CR_def LF_def)
  have split: "split_lines (frame_text w f) = ([''event: '' @ e, ''data: '' @ d, []], [])"
    unfolding shape by (simp only: split_line [OF safe(1)] split_line [OF safe(2)] split_line [OF safe(3)] split_empty fst_conv snd_conv)
  have "feed (frame_text w f) open_parser =
      apsnd (with_rest [] False) (parse_lines [''event: '' @ e, ''data: '' @ d, []] open_parser)"
    by (rule feed_run) (simp add: open_parser_def initial_parser_def split)
  also have "\<dots> = ([OnEvent \<lparr> em_id = None, em_event = Some e, em_data = d \<rparr>], open_parser)"
    using nonempty unfolding parse_lines.simps parse_event_line
    by (simp add: parse_line_def dispatch_event_def open_parser_def initial_parser_def with_rest_def butlast_append)
  finally show ?thesis using JsonEvent by simp
next
  case Connected
  have "feed (frame_text w Connected) open_parser = ([OnComment ''connected''], open_parser)" by simp code_simp
  with Connected show ?thesis by simp
next
  case Heartbeat
  have "feed (frame_text w Heartbeat) open_parser = ([OnComment ''heartbeat''], open_parser)" by simp code_simp
  with Heartbeat show ?thesis by simp
qed

lemma feed_frames:
  assumes "writes_sse w" "list_all frame_ok fs"
  shows "\<exists>out. feed (concat (map (frame_text w) fs)) open_parser = (out, open_parser) \<and>
    concat (map event_of out) = concat (map message_of_frame fs)"
  using assms(2)
proof (induction fs)
  case Nil
  have "feed [] open_parser = ([], open_parser)" by code_simp
  then show ?case by simp
next
  case (Cons f fs)
  from feed_frame [OF assms(1)] Cons.prems obtain out where
    f: "feed (frame_text w f) open_parser = (out, open_parser)" "concat (map event_of out) = message_of_frame f" by fastforce
  from Cons obtain out' where fs: "feed (concat (map (frame_text w) fs)) open_parser = (out', open_parser)"
    "concat (map event_of out') = concat (map message_of_frame fs)" by auto
  have "feed (frame_text w f @ concat (map (frame_text w) fs)) open_parser = (out @ out', open_parser)"
    using feed_feed [OF _ f(1)] by (simp add: open_parser_def fs(1) [unfolded open_parser_def])
  with f(2) fs(2) show ?case by simp
qed

text \<open>C28: the events the API writes on a stream, among heartbeats, are the events the CLI reads, in
  order and with their names and data, however the text is cut into chunks.\<close>

theorem sse_roundtrip:
  assumes "writes_sse w" "list_all frame_ok frames" "concat chunks = concat (map (frame_text w) frames)"
  shows "parse_sse_stream chunks = concat (map message_of_frame frames)"
proof -
  have "\<not> prefix BOM (concat chunks)"
  proof (cases frames)
    case (Cons f fs)
    with assms show ?thesis by (cases f) (auto simp: BOM_def writes_sse_def)
  qed (simp add: assms(3) BOM_def)
  from stream_feed [OF this] feed_frames [OF assms(1,2)] show ?thesis by (auto simp: assms(3))
qed

section \<open>Instances\<close>

theorem sse_chunking_witness:
  "parse_sse_stream [''data: a'', [CR], [LF, LF]] = parse_sse_stream [''da'', ''ta: a'' @ [CR, LF], [], [LF]]"
  by (rule sse_chunking) (simp_all add: BOM_def)

definition sample_write :: "string \<Rightarrow> string \<Rightarrow> string" where
  "sample_write event data = ''event: '' @ event @ [LF] @ ''data: '' @ data @ [LF, LF]"

theorem sse_roundtrip_witness:
  "parse_sse_stream [frame_text sample_write Connected @ ''ev'', drop 2 (frame_text sample_write (JsonEvent ''x'' ''1''))] =
    [\<lparr> em_id = None, em_event = Some ''x'', em_data = ''1'' \<rparr>]"
proof -
  have "writes_sse sample_write" by (simp add: writes_sse_def sample_write_def)
  from sse_roundtrip [OF this, of "[Connected, JsonEvent ''x'' ''1'']"]
  show ?thesis by (simp add: sample_write_def line_safe_def CR_def LF_def)
qed

end
