(* ===== verification/Notify.thy ===== *)
theory Notify
  imports Prelude
begin

text \<open>
  The notification bus, apps/api/src/lib/notify.ts, for one channel (the map of channels is pointwise):
  subscribers with bounded queues over one LISTEN of the database. The state is \<open>None\<close> when the map has
  no entry for the channel. Each call and each callback is a step on the state with what it makes
  happen outside; the awaits of the code are the points between steps.
\<close>

section \<open>State\<close>

text \<open>Where the generator of a subscriber stands: awaiting the LISTEN, or in its loop.\<close>

datatype subscriber_phase = Subscribing | Receiving

record 'v subscriber =
  su_id :: nat
  su_filter :: "'v \<Rightarrow> bool option"      \<comment> \<open>\<open>None\<close>: it throws\<close>
  su_buffered :: "'v list"
  su_waiting :: bool                     \<comment> \<open>a resolver is queued\<close>
  su_phase :: subscriber_phase

record 'v bus_channel =
  ch_subscribers :: "'v subscriber list"
  ch_listening :: bool                   \<comment> \<open>\<open>unlisten\<close> is set\<close>
  ch_pending :: bool                     \<comment> \<open>\<open>listenPromise\<close> is set\<close>
  ch_refs :: nat

datatype 'v bus_effect =
    StartListen
  | Unlisten
  | Delivered nat 'v
  | Dropped nat 'v
  | Finished nat
  | Failed_subscriber nat

definition MAX_BUFFERED_NOTIFICATIONS :: nat where "MAX_BUFFERED_NOTIFICATIONS = 64"

definition new_channel :: "'v bus_channel" where
  "new_channel = \<lparr> ch_subscribers = [], ch_listening = False, ch_pending = False, ch_refs = 0 \<rparr>"

definition state_for :: "'v bus_channel option \<Rightarrow> 'v bus_channel" where
  "state_for st = (case st of None \<Rightarrow> new_channel | Some c \<Rightarrow> c)"

section \<open>Operations\<close>

definition maybe_stop_listening :: "'v bus_channel \<Rightarrow> 'v bus_channel option \<times> 'v bus_effect list" where
  "maybe_stop_listening c =
     (if ch_refs c > 0 \<or> ch_pending c \<or> \<not> ch_listening c then (Some c, []) else (None, [Unlisten]))"

text \<open>\<open>subscribeJson\<close> up to its first await, for a signal that is not aborted yet.\<close>

definition subscribe_json :: "nat \<Rightarrow> ('v \<Rightarrow> bool option) \<Rightarrow> 'v bus_channel option \<Rightarrow> 'v bus_channel option \<times> 'v bus_effect list" where
  "subscribe_json k f st =
     (let c = state_for st;
          sub = \<lparr> su_id = k, su_filter = f, su_buffered = [], su_waiting = False,
                  su_phase = (if ch_listening c then Receiving else Subscribing) \<rparr>;
          c1 = c\<lparr> ch_subscribers := ch_subscribers c @ [sub], ch_refs := ch_refs c + 1 \<rparr>
      in if ch_listening c \<or> ch_pending c then (Some c1, []) else (Some (c1\<lparr> ch_pending := True \<rparr>), [StartListen]))"

text \<open>\<open>cleanup\<close>: a queued resolver is told that the stream is done.\<close>

definition remove_subscriber :: "nat \<Rightarrow> 'v bus_channel \<Rightarrow> 'v bus_channel" where
  "remove_subscriber k c =
     c\<lparr> ch_subscribers := filter (\<lambda>s. su_id s \<noteq> k) (ch_subscribers c), ch_refs := ch_refs c - 1 \<rparr>"

definition find_subscriber :: "nat \<Rightarrow> 'v bus_channel \<Rightarrow> 'v subscriber option" where
  "find_subscriber k c = find (\<lambda>s. su_id s = k) (ch_subscribers c)"

definition cleanup :: "nat \<Rightarrow> 'v bus_channel option \<Rightarrow> 'v bus_channel option \<times> 'v bus_effect list" where
  "cleanup k st =
     (case st of
        None \<Rightarrow> (None, [])
      | Some c \<Rightarrow>
          (case find_subscriber k c of
             None \<Rightarrow> (Some c, [])
           | Some sub \<Rightarrow>
               (let (st', out) = maybe_stop_listening (remove_subscriber k c)
                in (st', (if su_waiting sub then [Finished k] else []) @ out))))"

definition receive_all :: "'v bus_channel \<Rightarrow> 'v bus_channel" where
  "receive_all c = c\<lparr> ch_subscribers := map (\<lambda>s. s\<lparr> su_phase := Receiving \<rparr>) (ch_subscribers c) \<rparr>"

text \<open>The LISTEN resolves, or rejects: then the subscribers that waited for it clean up and throw.\<close>

definition listen_done :: "'v bus_channel option \<Rightarrow> 'v bus_channel option \<times> 'v bus_effect list" where
  "listen_done st =
     (case st of
        None \<Rightarrow> (None, [])
      | Some c \<Rightarrow>
          if \<not> ch_pending c then (Some c, [])
          else maybe_stop_listening (receive_all (c\<lparr> ch_listening := True, ch_pending := False \<rparr>)))"

definition listen_failed :: "'v bus_channel option \<Rightarrow> 'v bus_channel option \<times> 'v bus_effect list" where
  "listen_failed st =
     (case st of
        None \<Rightarrow> (None, [])
      | Some c \<Rightarrow>
          if \<not> ch_pending c then (Some c, [])
          else
            (let gone = filter (\<lambda>s. su_phase s = Subscribing) (ch_subscribers c)
             in (Some (fold (\<lambda>s. remove_subscriber (su_id s)) gone (c\<lparr> ch_pending := False \<rparr>)),
                 map (\<lambda>s. Failed_subscriber (su_id s)) gone)))"

text \<open>\<open>dispatch\<close> to one subscriber: the queued resolver gets the value, else it is buffered and the oldest
  value is dropped when the buffer is too long.\<close>

definition offer :: "nat \<Rightarrow> 'v \<Rightarrow> 'v subscriber \<Rightarrow> 'v subscriber \<times> 'v bus_effect list" where
  "offer max_buffered v s =
     (if su_filter s v \<noteq> Some True then (s, [])
      else if su_waiting s then (s\<lparr> su_waiting := False \<rparr>, [Delivered (su_id s) v])
      else
        (let buffered = su_buffered s @ [v]
         in if length buffered > max_buffered then (s\<lparr> su_buffered := tl buffered \<rparr>, [Dropped (su_id s) (hd buffered)])
            else (s\<lparr> su_buffered := buffered \<rparr>, [])))"

definition dispatch :: "nat \<Rightarrow> 'v \<Rightarrow> 'v bus_channel \<Rightarrow> 'v bus_channel \<times> 'v bus_effect list" where
  "dispatch max_buffered v c =
     (c\<lparr> ch_subscribers := map (fst \<circ> offer max_buffered v) (ch_subscribers c) \<rparr>,
      concat (map (snd \<circ> offer max_buffered v) (ch_subscribers c)))"

text \<open>\<open>handlePayload\<close>: a payload that is not JSON is logged.\<close>

definition handle_payload :: "nat \<Rightarrow> 'v option \<Rightarrow> 'v bus_channel option \<Rightarrow> 'v bus_channel option \<times> 'v bus_effect list" where
  "handle_payload max_buffered payload st =
     (case (payload, st) of
        (Some v, Some c) \<Rightarrow> (let (c', out) = dispatch max_buffered v c in (Some c', out))
      | _ \<Rightarrow> (st, []))"

text \<open>The consumer asks for the next value.\<close>

definition pull_one :: "'v subscriber \<Rightarrow> 'v subscriber \<times> 'v bus_effect list" where
  "pull_one s =
     (if su_phase s \<noteq> Receiving \<or> su_waiting s then (s, [])
      else case su_buffered s of
        v # vs \<Rightarrow> (s\<lparr> su_buffered := vs \<rparr>, [Delivered (su_id s) v])
      | [] \<Rightarrow> (s\<lparr> su_waiting := True \<rparr>, []))"

definition pull :: "nat \<Rightarrow> 'v bus_channel option \<Rightarrow> 'v bus_channel option \<times> 'v bus_effect list" where
  "pull k st =
     (case st of
        None \<Rightarrow> (None, [])
      | Some c \<Rightarrow>
          (Some (c\<lparr> ch_subscribers := map (\<lambda>s. if su_id s = k then fst (pull_one s) else s) (ch_subscribers c) \<rparr>),
           concat (map (\<lambda>s. if su_id s = k then snd (pull_one s) else []) (ch_subscribers c))))"

section \<open>Steps\<close>

datatype 'v bus_action =
    ASubscribe nat "'v \<Rightarrow> bool option"
  | ACleanup nat
  | AListenDone
  | AListenFailed
  | APayload "'v option"
  | APull nat

fun bus_step :: "nat \<Rightarrow> 'v bus_action \<Rightarrow> 'v bus_channel option \<Rightarrow> 'v bus_channel option \<times> 'v bus_effect list" where
  "bus_step n (ASubscribe k f) st = subscribe_json k f st"
| "bus_step n (ACleanup k) st = cleanup k st"
| "bus_step n AListenDone st = listen_done st"
| "bus_step n AListenFailed st = listen_failed st"
| "bus_step n (APayload v) st = handle_payload n v st"
| "bus_step n (APull k) st = pull k st"

text \<open>A run: a subscriber is a new generator, so its number is new.\<close>

definition fresh_action :: "'v bus_action \<Rightarrow> 'v bus_channel option \<Rightarrow> bool" where
  "fresh_action a st \<longleftrightarrow> (case a of
     ASubscribe k f \<Rightarrow> k \<notin> su_id ` set (ch_subscribers (state_for st))
   | _ \<Rightarrow> True)"

fun bus_run :: "nat \<Rightarrow> 'v bus_action list \<Rightarrow> 'v bus_channel option \<Rightarrow> 'v bus_channel option \<times> 'v bus_effect list" where
  "bus_run n [] st = (st, [])"
| "bus_run n (a # as) st = (case bus_step n a st of (st1, out) \<Rightarrow> case bus_run n as st1 of (st2, out') \<Rightarrow> (st2, out @ out'))"

inductive bus_reachable :: "nat \<Rightarrow> 'v bus_channel option \<Rightarrow> bool" for n where
  start: "bus_reachable n None"
| step: "bus_reachable n st \<Longrightarrow> fresh_action a st \<Longrightarrow> bus_reachable n (fst (bus_step n a st))"

end
