(* ===== verification/NotifyProps.thy ===== *)
theory NotifyProps
  imports Notify
begin

text \<open>
  What the bus keeps: a LISTEN held or pending for its subscribers, never two, and bounded queues; and
  what a subscriber gets: the values that match, in the order they were published, the oldest dropped first.
\<close>

section \<open>The invariant\<close>

definition subscriber_ok :: "nat \<Rightarrow> 'v bus_channel \<Rightarrow> 'v subscriber \<Rightarrow> bool" where
  "subscriber_ok n c s \<longleftrightarrow> length (su_buffered s) \<le> n \<and> (su_waiting s \<longrightarrow> su_buffered s = [] \<and> su_phase s = Receiving) \<and>
     (if su_phase s = Receiving then ch_listening c else ch_pending c)"

definition channel_ok :: "nat \<Rightarrow> 'v bus_channel \<Rightarrow> bool" where
  "channel_ok n c \<longleftrightarrow> distinct (map su_id (ch_subscribers c)) \<and> ch_refs c = length (ch_subscribers c) \<and>
     \<not> (ch_listening c \<and> ch_pending c) \<and> (ch_listening c \<longrightarrow> ch_subscribers c \<noteq> []) \<and>
     (\<forall>s \<in> set (ch_subscribers c). subscriber_ok n c s)"

definition bus_ok :: "nat \<Rightarrow> 'v bus_channel option \<Rightarrow> bool" where
  "bus_ok n st \<longleftrightarrow> (\<forall>c. st = Some c \<longrightarrow> channel_ok n c)"

lemma stop_ok:
  assumes "distinct (map su_id (ch_subscribers c))" "ch_refs c = length (ch_subscribers c)"
    "\<not> (ch_listening c \<and> ch_pending c)" "\<forall>s \<in> set (ch_subscribers c). subscriber_ok n c s"
  shows "bus_ok n (fst (maybe_stop_listening c))"
  using assms by (auto simp: maybe_stop_listening_def bus_ok_def channel_ok_def)

lemma subscribe_ok:
  assumes "bus_ok n st" "k \<notin> su_id ` set (ch_subscribers (state_for st))"
  shows "bus_ok n (fst (subscribe_json k f st))"
proof -
  have ok: "channel_ok n (state_for st)"
    using assms(1) by (auto simp: state_for_def bus_ok_def channel_ok_def new_channel_def split: option.split)
  then have "subscriber_ok n (c\<lparr> ch_subscribers := xs, ch_refs := m, ch_pending := p \<rparr>) s"
    if "c = state_for st" "s \<in> set (ch_subscribers c)" "p \<or> ch_listening c" for c xs m p s
    using that by (auto simp: channel_ok_def subscriber_ok_def split: if_splits)
  with ok assms(2) show ?thesis
    by (auto simp: subscribe_json_def Let_def bus_ok_def channel_ok_def subscriber_ok_def)
qed

lemma distinct_filter_ids: "distinct (map su_id xs) \<Longrightarrow> distinct (map su_id (filter P xs))"
  by (simp add: distinct_map_filter)

lemma distinct_head: "distinct (map su_id (x # xs)) \<Longrightarrow> \<forall>s \<in> set xs. su_id s \<noteq> su_id x"
  by simp (metis image_eqI)

lemma removed_length:
  assumes "distinct (map su_id xs)" "s \<in> set xs" "su_id s = k"
  shows "length (filter (\<lambda>s. su_id s \<noteq> k) xs) = length xs - 1"
  using assms
proof (induction xs)
  case (Cons x xs)
  show ?case
  proof (cases "su_id x = k")
    case True
    with distinct_head [OF Cons.prems(1)] have "\<forall>s \<in> set xs. su_id s \<noteq> k" by simp
    with True show ?thesis by simp
  next
    case False
    with Cons have "s \<in> set xs" "length (filter (\<lambda>s. su_id s \<noteq> k) xs) = length xs - 1" by auto
    with False show ?thesis by (cases xs) auto
  qed
qed simp

lemma find_subscriber_Some:
  "find_subscriber k c = Some s \<Longrightarrow> s \<in> set (ch_subscribers c) \<and> su_id s = k"
  by (auto simp: find_subscriber_def find_Some_iff)

lemma cleanup_ok: "bus_ok n st \<Longrightarrow> bus_ok n (fst (cleanup k st))"
proof (cases st)
  case (Some c)
  assume "bus_ok n st"
  with Some have ok: "channel_ok n c" by (simp add: bus_ok_def)
  show ?thesis
  proof (cases "find_subscriber k c")
    case None
    with Some ok show ?thesis by (simp add: cleanup_def bus_ok_def)
  next
    case (Some s)
    let ?d = "remove_subscriber k c"
    have "bus_ok n (fst (maybe_stop_listening ?d))"
    proof (rule stop_ok)
      show "distinct (map su_id (ch_subscribers ?d))"
        using ok by (simp add: channel_ok_def remove_subscriber_def distinct_filter_ids)
      show "ch_refs ?d = length (ch_subscribers ?d)"
        using ok removed_length [of "ch_subscribers c" s k] find_subscriber_Some [OF Some]
        by (simp add: channel_ok_def remove_subscriber_def)
      show "\<not> (ch_listening ?d \<and> ch_pending ?d)" using ok by (simp add: channel_ok_def remove_subscriber_def)
      show "\<forall>s \<in> set (ch_subscribers ?d). subscriber_ok n ?d s"
        using ok by (auto simp: channel_ok_def remove_subscriber_def subscriber_ok_def)
    qed
    with \<open>st = Some c\<close> Some show ?thesis by (cases "maybe_stop_listening ?d") (simp add: cleanup_def)
  qed
qed (simp add: cleanup_def)

lemma fold_remove:
  "ch_listening (fold (\<lambda>s. remove_subscriber (su_id s)) gone c) = ch_listening c \<and>
   ch_pending (fold (\<lambda>s. remove_subscriber (su_id s)) gone c) = ch_pending c \<and>
   ch_subscribers (fold (\<lambda>s. remove_subscriber (su_id s)) gone c) =
     filter (\<lambda>s. su_id s \<notin> su_id ` set gone) (ch_subscribers c) \<and>
   ch_refs (fold (\<lambda>s. remove_subscriber (su_id s)) gone c) = ch_refs c - length gone"
  by (induction gone arbitrary: c) (auto simp: remove_subscriber_def intro: filter_cong)

lemma listen_failed_ok: "bus_ok n st \<Longrightarrow> bus_ok n (fst (listen_failed st))"
proof (cases st)
  case (Some c)
  assume "bus_ok n st"
  with Some have ok: "channel_ok n c" by (simp add: bus_ok_def)
  show ?thesis
  proof (cases "ch_pending c")
    case True
    with ok have all: "filter (\<lambda>s. su_phase s = Subscribing) (ch_subscribers c) = ch_subscribers c"
      by (auto simp: channel_ok_def subscriber_ok_def filter_id_conv split: if_splits intro: subscriber_phase.exhaust)
    have "ch_subscribers (fold (\<lambda>s. remove_subscriber (su_id s)) (ch_subscribers c) (c\<lparr> ch_pending := False \<rparr>)) = []"
      by (simp add: fold_remove filter_empty_conv)
    with Some True all ok show ?thesis by (simp add: listen_failed_def Let_def bus_ok_def channel_ok_def fold_remove)
  next
    case False
    with Some ok show ?thesis by (simp add: listen_failed_def bus_ok_def)
  qed
qed (simp add: listen_failed_def)

lemma listen_done_ok: "bus_ok n st \<Longrightarrow> bus_ok n (fst (listen_done st))"
proof (cases st)
  case (Some c)
  assume "bus_ok n st"
  with Some have ok: "channel_ok n c" by (simp add: bus_ok_def)
  have "bus_ok n (fst (maybe_stop_listening (receive_all (c\<lparr> ch_listening := True, ch_pending := False \<rparr>))))"
    by (rule stop_ok) (use ok in \<open>auto simp: channel_ok_def receive_all_def subscriber_ok_def comp_def\<close>)
  with Some ok show ?thesis by (simp add: listen_done_def bus_ok_def)
qed (simp add: listen_done_def)

lemma map_channel_ok:
  assumes ok: "channel_ok n c" and g: "\<And>s. su_id (g s) = su_id s" "\<And>s. subscriber_ok n c s \<Longrightarrow> subscriber_ok n c (g s)"
  shows "channel_ok n (c\<lparr> ch_subscribers := map g (ch_subscribers c) \<rparr>)"
proof -
  have "map su_id (map g xs) = map su_id xs" for xs using g(1) by simp
  moreover have "subscriber_ok n (c\<lparr> ch_subscribers := xs \<rparr>) s = subscriber_ok n c s" for xs s
    by (simp add: subscriber_ok_def)
  ultimately show ?thesis using ok g(2) by (auto simp: channel_ok_def simp del: map_map)
qed

lemma offer_fixed: "su_id (fst (offer n v s)) = su_id s \<and> su_filter (fst (offer n v s)) = su_filter s"
  by (simp add: offer_def Let_def)

lemma payload_ok: "bus_ok n st \<Longrightarrow> bus_ok n (fst (handle_payload n payload st))"
proof (cases st; cases payload)
  fix c v assume st: "st = Some c" "payload = Some v" and "bus_ok n st"
  then have ok: "channel_ok n c" by (simp add: bus_ok_def)
  have "channel_ok n (c\<lparr> ch_subscribers := map (fst \<circ> offer n v) (ch_subscribers c) \<rparr>)"
    by (rule map_channel_ok [OF ok]) (auto simp: offer_fixed, auto simp: subscriber_ok_def offer_def Let_def)
  with st show ?thesis by (simp add: handle_payload_def dispatch_def bus_ok_def)
qed (simp_all add: handle_payload_def)

lemma pull_one_fixed: "su_id (fst (pull_one s)) = su_id s \<and> su_filter (fst (pull_one s)) = su_filter s"
  by (simp add: pull_one_def split: list.split)

lemma pull_ok: "bus_ok n st \<Longrightarrow> bus_ok n (fst (pull k st))"
proof (cases st)
  case (Some c)
  assume "bus_ok n st"
  with Some have ok: "channel_ok n c" by (simp add: bus_ok_def)
  have "channel_ok n (c\<lparr> ch_subscribers := map (\<lambda>s. if su_id s = k then fst (pull_one s) else s) (ch_subscribers c) \<rparr>)"
    by (rule map_channel_ok [OF ok])
      (simp add: pull_one_fixed, auto simp: subscriber_ok_def pull_one_def split: list.split)
  with Some show ?thesis by (simp add: pull_def bus_ok_def)
qed (simp add: pull_def)

lemma bus_step_ok: "bus_ok n st \<Longrightarrow> fresh_action a st \<Longrightarrow> bus_ok n (fst (bus_step n a st))"
  by (cases a)
    (simp_all add: subscribe_ok cleanup_ok listen_done_ok listen_failed_ok payload_ok pull_ok fresh_action_def)

lemma reachable_ok: "bus_reachable n st \<Longrightarrow> bus_ok n st"
proof (induction rule: bus_reachable.induct)
  case start
  show ?case by (simp add: bus_ok_def)
next
  case (step st a)
  then show ?case by (simp add: bus_step_ok)
qed

lemma start_listen_once:
  "StartListen \<in> set (snd (bus_step n a (Some c))) \<Longrightarrow>
   \<not> ch_listening c \<and> \<not> ch_pending c \<and> (\<exists>k f. a = ASubscribe k f)"
  by (cases a)
    (auto simp: subscribe_json_def state_for_def cleanup_def listen_done_def listen_failed_def handle_payload_def
      dispatch_def pull_def maybe_stop_listening_def offer_def pull_one_def Let_def neq_Nil_conv
      split: option.splits if_splits list.splits prod.splits)

text \<open>C29: over any sequence of subscriptions, cleanups, outcomes of LISTEN, payloads and reads: the count of
  references is the number of subscribers; a LISTEN is held or pending, never both, and one is started
  only by a subscription that finds neither; while none is pending, one is held exactly when there is a
  subscriber (a LISTEN whose subscribers have all left stays pending until it settles); a subscriber
  receives exactly when the LISTEN is held, its queue never grows beyond the bound, and one that waits
  for a value has nothing queued.\<close>

theorem notify_bus_invariant:
  assumes "bus_reachable n (Some c)"
  shows "ch_refs c = length (ch_subscribers c) \<and> distinct (map su_id (ch_subscribers c)) \<and>
    \<not> (ch_listening c \<and> ch_pending c) \<and> (ch_pending c \<or> (ch_listening c \<longleftrightarrow> ch_subscribers c \<noteq> [])) \<and>
    (\<forall>a. StartListen \<in> set (snd (bus_step n a (Some c))) \<longrightarrow>
       \<not> ch_listening c \<and> \<not> ch_pending c \<and> (\<exists>k f. a = ASubscribe k f)) \<and>
    (\<forall>s \<in> set (ch_subscribers c). (su_phase s = Receiving \<longleftrightarrow> ch_listening c) \<and> length (su_buffered s) \<le> n \<and>
       (su_waiting s \<longrightarrow> su_buffered s = []))"
proof (intro conjI allI impI)
  from reachable_ok [OF assms] have ok: "channel_ok n c" by (simp add: bus_ok_def)
  then have subs: "subscriber_ok n c s" if "s \<in> set (ch_subscribers c)" for s
    using that by (simp add: channel_ok_def)
  show "ch_refs c = length (ch_subscribers c)" "distinct (map su_id (ch_subscribers c))"
    "\<not> (ch_listening c \<and> ch_pending c)" using ok by (simp_all add: channel_ok_def)
  have "ch_listening c \<or> ch_pending c" if "ch_subscribers c \<noteq> []"
    using that subs [of "hd (ch_subscribers c)"] by (auto simp: subscriber_ok_def split: if_splits)
  with ok show "ch_pending c \<or> (ch_listening c \<longleftrightarrow> ch_subscribers c \<noteq> [])" by (auto simp: channel_ok_def)
  show "\<forall>s \<in> set (ch_subscribers c). (su_phase s = Receiving \<longleftrightarrow> ch_listening c) \<and> length (su_buffered s) \<le> n \<and>
       (su_waiting s \<longrightarrow> su_buffered s = [])"
    using ok subs by (fastforce simp: subscriber_ok_def channel_ok_def split: if_splits)
qed (use start_listen_once in blast)+

section \<open>What a subscriber gets\<close>

fun left_queue :: "nat \<Rightarrow> 'v bus_effect \<Rightarrow> 'v list" where
  "left_queue k (Delivered j v) = (if j = k then [v] else [])"
| "left_queue k (Dropped j v) = (if j = k then [v] else [])"
| "left_queue k _ = []"

fun matching :: "('v \<Rightarrow> bool option) \<Rightarrow> 'v bus_action \<Rightarrow> 'v list" where
  "matching f (APayload (Some v)) = (if f v = Some True then [v] else [])"
| "matching f _ = []"

definition left :: "nat \<Rightarrow> 'v bus_effect list \<Rightarrow> 'v list" where
  "left k out = concat (map (left_queue k) out)"

definition present :: "nat \<Rightarrow> 'v bus_channel option \<Rightarrow> 'v subscriber \<Rightarrow> bool" where
  "present k st s \<longleftrightarrow> (\<exists>c. st = Some c \<and> s \<in> set (ch_subscribers c) \<and> su_id s = k)"

lemma left_Nil [simp]: "left k [] = []"
  by (simp add: left_def)

lemma left_append [simp]: "left k (xs @ ys) = left k xs @ left k ys"
  by (simp add: left_def)

lemma left_others: "(\<And>e. e \<in> set out \<Longrightarrow> left_queue k e = []) \<Longrightarrow> left k out = []"
  by (simp add: left_def)

lemma left_stop [simp]: "left k (snd (maybe_stop_listening c)) = []"
  by (simp add: maybe_stop_listening_def left_def)

text \<open>The effects of the other subscribers do not concern \<open>k\<close>.\<close>

lemma left_concat:
  assumes "distinct (map su_id xs)" "s \<in> set xs" "su_id s = k"
    and "\<And>x. su_id x \<noteq> k \<Longrightarrow> left k (g x) = []"
  shows "left k (concat (map g xs)) = left k (g s)"
  using assms(1,2)
proof (induction xs)
  case (Cons x xs)
  show ?case
  proof (cases "x = s")
    case True
    then have "\<forall>y \<in> set xs. su_id y \<noteq> k" using distinct_head [OF Cons.prems(1)] assms(3) by simp
    then have "left k (concat (map g xs)) = []" using assms(4) by (induction xs) auto
    with True show ?thesis by simp
  next
    case False
    with Cons.prems have "s \<in> set xs" "su_id x \<noteq> su_id s" by auto
    with Cons assms(3,4) show ?thesis by simp
  qed
qed simp_all

lemma offer_queue:
  assumes "su_waiting s \<longrightarrow> su_buffered s = []"
  shows "su_buffered s @ (if su_filter s v = Some True then [v] else []) =
    left (su_id s) (snd (offer n v s)) @ su_buffered (fst (offer n v s))"
  using assms by (cases "su_buffered s") (auto simp: offer_def Let_def left_def)

lemma pull_queue: "su_buffered s = left (su_id s) (snd (pull_one s)) @ su_buffered (fst (pull_one s))"
  by (auto simp: pull_one_def left_def split: list.split)

lemma unique_subscriber:
  "distinct (map su_id xs) \<Longrightarrow> s \<in> set xs \<Longrightarrow> t \<in> set xs \<Longrightarrow> su_id s = su_id t \<Longrightarrow> s = t"
  by (auto simp: distinct_map dest: inj_onD)

text \<open>One step, for a subscriber that is there before and after: what was queued, followed by what the step
  publishes to it, is what left the queue, followed by what is queued.\<close>

definition keeps_order :: "nat \<Rightarrow> 'v bus_action \<Rightarrow> 'v bus_channel option \<Rightarrow> 'v bus_channel option \<times> 'v bus_effect list \<Rightarrow> bool" where
  "keeps_order k a st out \<longleftrightarrow> (\<forall>s s'. present k st s \<longrightarrow> present k (fst out) s' \<longrightarrow>
     su_filter s' = su_filter s \<and> su_buffered s @ matching (su_filter s) a = left k (snd out) @ su_buffered s')"

lemma present_unique: "bus_ok n st \<Longrightarrow> present k st s \<Longrightarrow> present k st t \<Longrightarrow> s = t"
  by (auto simp: present_def bus_ok_def channel_ok_def intro: unique_subscriber)

text \<open>A step that publishes nothing to \<open>k\<close> and takes nothing from its queue.\<close>

lemma quiet_order:
  assumes ok: "bus_ok n st" and quiet: "\<And>f. matching f a = []" "left k (snd out) = []"
    and old: "\<And>s'. present k (fst out) s' \<Longrightarrow> \<exists>s. present k st s \<and> su_filter s' = su_filter s \<and> su_buffered s' = su_buffered s"
  shows "keeps_order k a st out"
  unfolding keeps_order_def
proof (intro allI impI)
  fix s s' assume s: "present k st s" "present k (fst out) s'"
  from old [OF s(2)] obtain t where t: "present k st t" "su_filter s' = su_filter t" "su_buffered s' = su_buffered t" by blast
  with present_unique [OF ok s(1) t(1)]
  show "su_filter s' = su_filter s \<and> su_buffered s @ matching (su_filter s) a = left k (snd out) @ su_buffered s'"
    by (simp add: quiet)
qed

lemma stop_present:
  "present k (fst (maybe_stop_listening c)) s \<Longrightarrow> present k (Some c) s"
  by (auto simp: maybe_stop_listening_def present_def split: if_splits)

lemma removed_present: "present k (Some (remove_subscriber j c)) s \<Longrightarrow> present k (Some c) s"
  by (auto simp: present_def remove_subscriber_def)

lemma subscribe_order: "bus_ok n st \<Longrightarrow> j \<noteq> k \<Longrightarrow> keeps_order k (ASubscribe j f) st (subscribe_json j f st)"
  by (erule quiet_order)
    (auto simp: subscribe_json_def Let_def present_def state_for_def new_channel_def left_def split: option.splits if_splits)

lemma cleanup_order:
  assumes "bus_ok n st" shows "keeps_order k (ACleanup j) st (cleanup j st)"
proof (rule quiet_order [OF assms])
  show "left k (snd (cleanup j st)) = []"
    by (auto simp: cleanup_def left_def maybe_stop_listening_def split: option.split)
  show "\<exists>s. present k st s \<and> su_filter s' = su_filter s \<and> su_buffered s' = su_buffered s"
    if "present k (fst (cleanup j st)) s'" for s'
    using that
    by (auto simp: cleanup_def Let_def split: option.splits prod.splits)
      (metis fst_conv stop_present removed_present)
qed simp

lemma listen_done_order:
  assumes "bus_ok n st" shows "keeps_order k AListenDone st (listen_done st)"
proof (rule quiet_order [OF assms])
  show "left k (snd (listen_done st)) = []" by (auto simp: listen_done_def left_def maybe_stop_listening_def split: option.split)
  show "\<exists>s. present k st s \<and> su_filter s' = su_filter s \<and> su_buffered s' = su_buffered s"
    if "present k (fst (listen_done st)) s'" for s'
    using that
    by (auto simp: listen_done_def split: option.splits if_splits dest!: stop_present)
      (auto simp: present_def receive_all_def)
qed simp

lemma listen_failed_order:
  assumes "bus_ok n st" shows "keeps_order k AListenFailed st (listen_failed st)"
proof (rule quiet_order [OF assms])
  show "left k (snd (listen_failed st)) = []"
    by (auto simp: listen_failed_def Let_def split: option.split intro!: left_others)
  show "\<exists>s. present k st s \<and> su_filter s' = su_filter s \<and> su_buffered s' = su_buffered s"
    if "present k (fst (listen_failed st)) s'" for s'
    using that by (auto simp: listen_failed_def Let_def present_def fold_remove split: option.splits if_splits)
qed simp

lemma payload_order:
  assumes ok: "bus_ok n st" shows "keeps_order k (APayload payload) st (handle_payload n payload st)"
proof (cases payload)
  case None
  then show ?thesis by (intro quiet_order [OF ok]) (auto simp: handle_payload_def left_def)
next
  case (Some v)
  show ?thesis
    unfolding keeps_order_def
  proof (intro allI impI)
    fix s s' assume s: "present k st s" and s': "present k (fst (handle_payload n payload st)) s'"
    then obtain c where c: "st = Some c" "s \<in> set (ch_subscribers c)" "su_id s = k" by (auto simp: present_def)
    from ok c(1) have chan: "distinct (map su_id (ch_subscribers c))" "su_waiting s \<longrightarrow> su_buffered s = []"
      using c(2) by (auto simp: bus_ok_def channel_ok_def subscriber_ok_def)
    have "present k (Some (c\<lparr> ch_subscribers := map (fst \<circ> offer n v) (ch_subscribers c) \<rparr>)) s'"
      using s' by (simp add: handle_payload_def dispatch_def c(1) Some)
    then obtain t where t: "t \<in> set (ch_subscribers c)" "s' = fst (offer n v t)" "su_id s' = k"
      unfolding present_def by auto
    have "su_id t = k" using t(2,3) offer_fixed [of n v t] by simp
    with unique_subscriber [OF chan(1) c(2) t(1)] c(3) t(2) have s'eq: "s' = fst (offer n v s)" by simp
    have "left k ((snd \<circ> offer n v) x) = []" if "su_id x \<noteq> k" for x
      using that by (auto simp: offer_def Let_def left_def)
    from left_concat [OF chan(1) c(2,3), of "snd \<circ> offer n v", OF this]
    have "left k (snd (handle_payload n payload st)) = left k (snd (offer n v s))"
      by (simp add: handle_payload_def dispatch_def c(1) Some)
    with offer_queue [OF chan(2), of v n] c(3)
    show "su_filter s' = su_filter s \<and> su_buffered s @ matching (su_filter s) (APayload payload) =
        left k (snd (handle_payload n payload st)) @ su_buffered s'"
      by (simp add: s'eq Some offer_fixed)
  qed
qed

lemma pull_order:
  assumes ok: "bus_ok n st" shows "keeps_order k (APull j) st (pull j st)"
  unfolding keeps_order_def
proof (intro allI impI)
  fix s s' assume s: "present k st s" and s': "present k (fst (pull j st)) s'"
  then obtain c where c: "st = Some c" "s \<in> set (ch_subscribers c)" "su_id s = k" by (auto simp: present_def)
  from ok c(1) have dist: "distinct (map su_id (ch_subscribers c))" by (auto simp: bus_ok_def channel_ok_def)
  let ?g = "\<lambda>s. if su_id s = j then snd (pull_one s) else []"
  from s' obtain t where t: "t \<in> set (ch_subscribers c)" "s' = (if su_id t = j then fst (pull_one t) else t)" "su_id t = k"
    by (auto simp: pull_def present_def c(1) pull_one_fixed split: if_splits)
  have "s = t" by (rule unique_subscriber [OF dist c(2) t(1)]) (simp add: c(3) t(3))
  with t(2,3) have s'eq: "s' = (if k = j then fst (pull_one s) else s)" by simp
  have "left k (?g x) = []" if "su_id x \<noteq> k" for x
    using that by (auto simp: pull_one_def left_def split: list.split)
  from left_concat [OF dist c(2,3), of ?g, OF this]
  have "left k (snd (pull j st)) = (if k = j then left k (snd (pull_one s)) else [])"
    by (simp add: pull_def c(1,3))
  with pull_queue [of s] c(3)
  show "su_filter s' = su_filter s \<and> su_buffered s @ matching (su_filter s) (APull j) =
      left k (snd (pull j st)) @ su_buffered s'"
    by (simp add: s'eq pull_one_fixed)
qed

lemma step_order:
  "bus_ok n st \<Longrightarrow> (\<And>f. a \<noteq> ASubscribe k f) \<Longrightarrow> keeps_order k a st (bus_step n a st)"
  by (cases a)
    (auto intro: subscribe_order cleanup_order listen_done_order listen_failed_order payload_order pull_order)

text \<open>Only a subscription makes a subscriber appear.\<close>

fun subscribes :: "nat \<Rightarrow> 'v bus_action \<Rightarrow> bool" where
  "subscribes k (ASubscribe j f) = (j = k)"
| "subscribes k _ = False"

lemma present_before:
  assumes "\<not> subscribes k a" "present k (fst (bus_step n a st)) s'"
  shows "\<exists>s. present k st s"
  using assms
proof (cases a)
  case (ASubscribe j f)
  with assms show ?thesis
    by (auto simp: present_def subscribe_json_def Let_def state_for_def new_channel_def split: option.splits if_splits)
next
  case (ACleanup j)
  have "present k (Some c) t" if "present k (fst (cleanup j (Some c))) t" for c t
    using that stop_present [of k "remove_subscriber j c" t] removed_present [of k j c t]
    by (cases "maybe_stop_listening (remove_subscriber j c)") (auto simp: cleanup_def split: option.splits)
  with ACleanup assms(2) show ?thesis by (cases st) (auto simp: cleanup_def)
next
  case AListenDone
  with assms(2) show ?thesis
    by (auto simp: listen_done_def split: option.splits if_splits dest!: stop_present)
      (auto simp: present_def receive_all_def)
next
  case AListenFailed
  with assms(2) show ?thesis
    by (auto simp: listen_failed_def Let_def present_def fold_remove split: option.splits if_splits)
next
  case (APayload p)
  with assms(2) show ?thesis
    by (auto simp: handle_payload_def dispatch_def present_def offer_fixed split: option.splits)
next
  case (APull j)
  with assms(2) show ?thesis
    by (auto simp: pull_def present_def pull_one_fixed split: option.splits if_splits)
qed

fun fresh_run :: "nat \<Rightarrow> 'v bus_action list \<Rightarrow> 'v bus_channel option \<Rightarrow> bool" where
  "fresh_run n [] st \<longleftrightarrow> True"
| "fresh_run n (a # as) st \<longleftrightarrow> fresh_action a st \<and> fresh_run n as (fst (bus_step n a st))"

lemma bus_run_Cons:
  "bus_run n (a # as) st = (fst (bus_run n as (fst (bus_step n a st))),
     snd (bus_step n a st) @ snd (bus_run n as (fst (bus_step n a st))))"
  by (cases "bus_step n a st"; cases "bus_run n as (fst (bus_step n a st))") simp

declare bus_run.simps(2) [simp del] bus_run_Cons [simp]

lemma run_present_before:
  "\<forall>a \<in> set as. \<not> subscribes k a \<Longrightarrow> present k (fst (bus_run n as st)) s' \<Longrightarrow> \<exists>s. present k st s"
proof (induction as arbitrary: st)
  case (Cons a as)
  from Cons.IH [of "fst (bus_step n a st)"] Cons.prems
  obtain s where "present k (fst (bus_step n a st)) s" by auto
  with present_before [of k a n st s] Cons.prems(1) show ?case by auto
qed auto

lemma run_order:
  assumes "bus_ok n st" "fresh_run n as st" "\<forall>a \<in> set as. \<not> subscribes k a"
    and "present k st s" "present k (fst (bus_run n as st)) s'"
  shows "su_filter s' = su_filter s \<and>
    su_buffered s @ concat (map (matching (su_filter s)) as) = left k (snd (bus_run n as st)) @ su_buffered s'"
  using assms
proof (induction as arbitrary: st s)
  case Nil
  then show ?case using present_unique by fastforce
next
  case (Cons a as)
  let ?st1 = "fst (bus_step n a st)"
  have end': "present k (fst (bus_run n as ?st1)) s'" using Cons.prems(5) by simp
  with run_present_before [of as k n ?st1 s'] Cons.prems(3) obtain s1 where s1: "present k ?st1 s1" by auto
  have ok1: "bus_ok n ?st1" using Cons.prems by (auto intro: bus_step_ok)
  have "keeps_order k a st (bus_step n a st)"
    using Cons.prems by (intro step_order) auto
  with Cons.prems(4) s1 have one: "su_filter s1 = su_filter s"
    "su_buffered s @ matching (su_filter s) a = left k (snd (bus_step n a st)) @ su_buffered s1"
    by (auto simp: keeps_order_def)
  from Cons.IH [OF ok1 _ _ s1 end'] Cons.prems(2,3)
  have rest: "su_filter s' = su_filter s1"
    "su_buffered s1 @ concat (map (matching (su_filter s1)) as) = left k (snd (bus_run n as ?st1)) @ su_buffered s'"
    by auto
  have "su_buffered s @ concat (map (matching (su_filter s)) (a # as)) =
      left k (snd (bus_step n a st)) @ su_buffered s1 @ concat (map (matching (su_filter s)) as)"
    using one(2) by (simp flip: append_assoc)
  also have "\<dots> = left k (snd (bus_step n a st)) @ left k (snd (bus_run n as ?st1)) @ su_buffered s'"
    using rest(2) one(1) by simp
  finally show ?case using rest(1) one(1) by simp
qed

text \<open>C30: between two moments a subscriber is there, whatever happens on the channel: what was queued for it,
  followed by the payloads that matched its filter in the order they arrived, is what it was given or
  what was dropped as the oldest, followed by what is queued now. Nothing is reordered, repeated or lost
  otherwise.\<close>

theorem bus_fifo:
  assumes "bus_reachable n st" "fresh_run n as st" "\<forall>a \<in> set as. \<not> subscribes k a"
    and "present k st s" "present k (fst (bus_run n as st)) s'"
  shows "su_buffered s @ concat (map (matching (su_filter s)) as) =
    left k (snd (bus_run n as st)) @ su_buffered s'"
  using run_order [OF reachable_ok [OF assms(1)] assms(2-5)] by simp

section \<open>Instances\<close>

lemma reachable_run: "fresh_run n as st \<Longrightarrow> bus_reachable n st \<Longrightarrow> bus_reachable n (fst (bus_run n as st))"
  by (induction as arbitrary: st) (auto intro: bus_reachable.step)

definition sample_start :: "nat bus_action list" where
  "sample_start = [ASubscribe 7 (\<lambda>v. Some (v < 10)), AListenDone, APull 7]"

definition sample_run :: "nat bus_action list" where
  "sample_run = [APayload (Some 1), APayload (Some 20), APayload (Some 2), APayload None, APayload (Some 3), APayload (Some 4),
     APull 7]"

lemmas bus_eval = sample_start_def sample_run_def subscribe_json_def state_for_def new_channel_def listen_done_def
  receive_all_def maybe_stop_listening_def pull_def pull_one_def handle_payload_def dispatch_def offer_def Let_def

lemma sample_state:
  "fst (bus_run 2 sample_start None) = Some \<lparr> ch_subscribers =
     [\<lparr> su_id = 7, su_filter = (\<lambda>v. Some (v < 10)), su_buffered = [], su_waiting = True, su_phase = Receiving \<rparr>],
     ch_listening = True, ch_pending = False, ch_refs = 1 \<rparr>"
  by (simp add: bus_eval)

lemma sample_reachable: "bus_reachable 2 (fst (bus_run 2 sample_start None))"
  by (rule reachable_run [OF _ bus_reachable.start]) (simp add: bus_eval fresh_action_def)

theorem notify_bus_invariant_witness:
  "ch_refs (the (fst (bus_run 2 sample_start None))) = 1 \<and> ch_listening (the (fst (bus_run 2 sample_start None)))"
  using notify_bus_invariant [OF sample_reachable [unfolded sample_state]] by (simp add: sample_state)

theorem bus_fifo_witness:
  "left 7 (snd (bus_run 2 sample_run (fst (bus_run 2 sample_start None)))) = [1, 2, 3 :: nat]"
proof -
  let ?s = "\<lparr> su_id = 7, su_filter = (\<lambda>v. Some (v < (10 :: nat))), su_buffered = [], su_waiting = True, su_phase = Receiving \<rparr>"
  let ?s' = "?s\<lparr> su_buffered := [4], su_waiting := False \<rparr>"
  have "present 7 (fst (bus_run 2 sample_start None)) ?s" by (simp add: sample_state present_def)
  moreover have "present 7 (fst (bus_run 2 sample_run (fst (bus_run 2 sample_start None)))) ?s'"
    unfolding sample_state by (simp add: bus_eval present_def)
  moreover have "fresh_run 2 sample_run (fst (bus_run 2 sample_start None))"
    by (simp add: sample_run_def fresh_action_def)
  moreover have "\<forall>a \<in> set sample_run. \<not> subscribes 7 a" by (simp add: sample_run_def)
  ultimately have "su_buffered ?s @ concat (map (matching (su_filter ?s)) sample_run) =
      left 7 (snd (bus_run 2 sample_run (fst (bus_run 2 sample_start None)))) @ su_buffered ?s'"
    using bus_fifo [OF sample_reachable] by blast
  then show ?thesis by (simp add: sample_run_def)
qed

end
