(* ===== verification/Events.thy ===== *)
theory Events
  imports NotifyProps ResourceService
begin

text \<open>
  The event streams of the API on top of the bus: the stream of one operation
  (apps/api/src/operations/sse.ts) and the stream of a project, which merges three channels
  (apps/api/src/events/projectEvents.ts). A stream is an async generator, so the model says what it
  yields for what its subscriptions give it.
\<close>

section \<open>The stream of an operation\<close>

text \<open>The filter \<open>operation.id === initial.id\<close>.\<close>

definition own_operation :: "operation \<Rightarrow> operation \<Rightarrow> bool option" where
  "own_operation initial op = Some (o_id op = o_id initial)"

text \<open>The loop: the events it yields and whether it returned.\<close>

fun until_closed :: "operation list \<Rightarrow> operation list \<times> bool" where
  "until_closed [] = ([], False)"
| "until_closed (op # ops) =
     (if o_closed_at op \<noteq> None then ([op], True)
      else case until_closed ops of (out, done) \<Rightarrow> (op # out, done))"

definition operation_events :: "operation \<Rightarrow> operation list \<Rightarrow> operation list \<times> bool" where
  "operation_events initial delivered =
     (if o_closed_at initial \<noteq> None then ([initial], True)
      else case until_closed delivered of (out, done) \<Rightarrow> (initial # out, done))"

section \<open>The stream of a project\<close>

datatype project_event =
    OperationEvent operation
  | ResourceEvent resource_event resource_view
  | ResourceDeletedEvent string string string       \<comment> \<open>id, project, slug\<close>
  | ChangeSetEvent change_set

definition OPERATION_EVENT :: string where "OPERATION_EVENT = ''operation.updated''"
definition CHANGESET_UPDATED_EVENT :: string where "CHANGESET_UPDATED_EVENT = ''changeset.updated''"

fun resource_event_name :: "resource_event \<Rightarrow> string" where
  "resource_event_name ResourceCreated = ''resource.created''"
| "resource_event_name ResourceUpdated = ''resource.updated''"
| "resource_event_name ResourceDeleted = ''resource.deleted''"

fun event_name :: "project_event \<Rightarrow> string" where
  "event_name (OperationEvent op) = OPERATION_EVENT"
| "event_name (ResourceEvent kind r) = resource_event_name kind"
| "event_name (ResourceDeletedEvent i p s) = resource_event_name ResourceDeleted"
| "event_name (ChangeSetEvent cs) = CHANGESET_UPDATED_EVENT"

definition operation_event_of :: "operation \<Rightarrow> project_event option svc" where
  "operation_event_of op = eff_return (Some (OperationEvent op))"

definition change_set_event_of :: "change_set \<Rightarrow> project_event option svc" where
  "change_set_event_of cs = eff_return (Some (ChangeSetEvent cs))"

text \<open>A notification of a resource is reloaded by its slug, except for a deletion.\<close>

definition resource_event_of :: "resource_event \<Rightarrow> string \<Rightarrow> string \<Rightarrow> string \<Rightarrow> project_event option svc" where
  "resource_event_of kind resource_id project_id slug =
     (if kind = ResourceDeleted then eff_return (Some (ResourceDeletedEvent resource_id project_id slug))
      else
        eff_bind (get_resource_by_slug project_id slug) (\<lambda>fresh.
          case fresh of
            None \<Rightarrow> eff_return None
          | Some r \<Rightarrow> eff_bind (build_resource_view r) (\<lambda>view. eff_return (Some (ResourceEvent kind view)))))"

text \<open>The three filters, and the three functions of the channels.\<close>

fun of_project :: "project \<Rightarrow> notification \<Rightarrow> bool option" where
  "of_project project (NoteOperation op) = Some (o_project_id op = p_id project)"
| "of_project project (NoteResource kind resource_id project_id slug) = Some (project_id = p_id project)"
| "of_project project (NoteChangeSet cs) = Some (cs_project_id cs = p_id project)"

fun event_of_notification :: "notification \<Rightarrow> project_event option svc" where
  "event_of_notification (NoteOperation op) = operation_event_of op"
| "event_of_notification (NoteResource kind resource_id project_id slug) = resource_event_of kind resource_id project_id slug"
| "event_of_notification (NoteChangeSet cs) = change_set_event_of cs"

text \<open>\<open>runChannel\<close>: the queue of a channel, and whether its loop still runs. What it awaits in
  \<open>toEvent\<close> may throw (the database may fail), and then the loop is over.\<close>

datatype stream_source = OperationSource | ResourceSource | ChangeSetSource

type_synonym arrival = "js_error + project_event option"

record stream_channel =
  sc_queue :: "project_event list"
  sc_running :: bool

definition run_channel :: "arrival \<Rightarrow> stream_channel \<Rightarrow> stream_channel" where
  "run_channel outcome c =
     (if \<not> sc_running c then c
      else case outcome of
        Inl _ \<Rightarrow> c\<lparr> sc_running := False \<rparr>
      | Inr None \<Rightarrow> c
      | Inr (Some e) \<Rightarrow> c\<lparr> sc_queue := sc_queue c @ [e] \<rparr>)"

record project_stream =
  st_operations :: stream_channel
  st_resources :: stream_channel
  st_change_sets :: stream_channel

definition new_stream :: project_stream where
  "new_stream = (let c = \<lparr> sc_queue = [], sc_running = True \<rparr>
     in \<lparr> st_operations = c, st_resources = c, st_change_sets = c \<rparr>)"

fun arrive :: "stream_source \<Rightarrow> arrival \<Rightarrow> project_stream \<Rightarrow> project_stream" where
  "arrive OperationSource outcome s = s\<lparr> st_operations := run_channel outcome (st_operations s) \<rparr>"
| "arrive ResourceSource outcome s = s\<lparr> st_resources := run_channel outcome (st_resources s) \<rparr>"
| "arrive ChangeSetSource outcome s = s\<lparr> st_change_sets := run_channel outcome (st_change_sets s) \<rparr>"

text \<open>\<open>opQueue.shift() ?? resQueue.shift() ?? csQueue.shift()\<close>.\<close>

definition shift_queue :: "stream_channel \<Rightarrow> (project_event \<times> stream_channel) option" where
  "shift_queue c = (case sc_queue c of [] \<Rightarrow> None | e # es \<Rightarrow> Some (e, c\<lparr> sc_queue := es \<rparr>))"

definition next_event :: "project_stream \<Rightarrow> (project_event \<times> project_stream) option" where
  "next_event s =
     (case shift_queue (st_operations s) of
        Some (e, c) \<Rightarrow> Some (e, s\<lparr> st_operations := c \<rparr>)
      | None \<Rightarrow>
          (case shift_queue (st_resources s) of
             Some (e, c) \<Rightarrow> Some (e, s\<lparr> st_resources := c \<rparr>)
           | None \<Rightarrow>
               (case shift_queue (st_change_sets s) of
                  Some (e, c) \<Rightarrow> Some (e, s\<lparr> st_change_sets := c \<rparr>)
                | None \<Rightarrow> None)))"

text \<open>Payloads arrive on the channels while the consumer takes events.\<close>

datatype stream_action = Arrive stream_source arrival | TakeNext

fun stream_run :: "stream_action list \<Rightarrow> project_stream \<Rightarrow> project_stream \<times> project_event list" where
  "stream_run [] s = (s, [])"
| "stream_run (Arrive src outcome # as) s = stream_run as (arrive src outcome s)"
| "stream_run (TakeNext # as) s =
     (case next_event s of
        None \<Rightarrow> stream_run as s
      | Some (e, s1) \<Rightarrow> (case stream_run as s1 of (s2, out) \<Rightarrow> (s2, e # out)))"

end
