(* ===== verification/EventProps.thy ===== *)
theory EventProps
  imports Events
begin

text \<open>
  What the watcher of an operation and of a project sees: the stream of an operation ends with its
  close when the subscription was there to get it, and only then; the stream of a project keeps the order
  of each channel, up to the first event it could not build.
\<close>

section \<open>What an operation's watcher sees\<close>

fun given :: "nat \<Rightarrow> 'v bus_effect list \<Rightarrow> 'v list" where
  "given k [] = []"
| "given k (Delivered j v # es) = (if j = k then v # given k es else given k es)"
| "given k (_ # es) = given k es"

fun drops :: "nat \<Rightarrow> 'v bus_effect \<Rightarrow> bool" where
  "drops k (Dropped j v) = (j = k)"
| "drops k _ = False"

lemma given_append [simp]: "given k (xs @ ys) = given k xs @ given k ys"
  by (induction k xs rule: given.induct) auto

lemma left_given: "\<not> list_ex (drops k) out \<Longrightarrow> left k out = given k out"
  unfolding left_def by (induction k out rule: given.induct) auto

lemma given_left: "left k out = [] \<Longrightarrow> given k out = []"
  unfolding left_def by (induction k out rule: given.induct) (auto split: if_splits)

text \<open>A value is dropped when it matches and the queue is full.\<close>

lemma dropped_by_step:
  assumes "list_ex (drops k) (snd (bus_step n a st))"
  shows "\<exists>v s. a = APayload (Some v) \<and> present k st s \<and> su_filter s v = Some True \<and> n \<le> length (su_buffered s)"
proof (cases a)
  case (ASubscribe j f)
  with assms show ?thesis by (simp add: subscribe_json_def Let_def split: if_splits)
next
  case (ACleanup j)
  with assms show ?thesis
    by (auto simp: cleanup_def maybe_stop_listening_def split: option.splits if_splits)
next
  case AListenDone
  with assms show ?thesis by (auto simp: listen_done_def maybe_stop_listening_def split: option.splits if_splits)
next
  case AListenFailed
  with assms show ?thesis by (auto simp: listen_failed_def Let_def list_ex_iff split: option.splits if_splits)
next
  case (APayload p)
  then obtain c v where c: "st = Some c" "p = Some v"
    "list_ex (drops k) (concat (map (snd \<circ> offer n v) (ch_subscribers c)))"
    using assms by (auto simp: handle_payload_def dispatch_def split: option.splits)
  then obtain s where s: "s \<in> set (ch_subscribers c)" "list_ex (drops k) (snd (offer n v s))"
    by (auto simp: list_ex_iff)
  from s(2) have "su_id s = k" "su_filter s v = Some True" "n \<le> length (su_buffered s)"
    by (auto simp: offer_def Let_def split: if_splits)
  with s(1) c APayload show ?thesis by (auto simp: present_def)
next
  case (APull j)
  have "\<not> list_ex (drops k) (snd (pull_one s))" for s by (simp add: pull_one_def split: list.split)
  with APull assms show ?thesis by (auto simp: pull_def list_ex_iff split: option.splits if_splits)
qed

lemma run_no_drop:
  assumes "bus_ok n st" "fresh_run n as st" "\<forall>a \<in> set as. \<not> subscribes k a"
    and "present k st s" "present k (fst (bus_run n as st)) s'"
    and "length (su_buffered s) + length (concat (map (matching (su_filter s)) as)) \<le> n"
  shows "\<not> list_ex (drops k) (snd (bus_run n as st))"
  using assms
proof (induction as arbitrary: st s)
  case (Cons a as)
  let ?st1 = "fst (bus_step n a st)"
  have end': "present k (fst (bus_run n as ?st1)) s'" using Cons.prems(5) by simp
  with run_present_before [of as k n ?st1 s'] Cons.prems(3) obtain s1 where s1: "present k ?st1 s1" by auto
  have ok1: "bus_ok n ?st1" using Cons.prems by (auto intro: bus_step_ok)
  have "keeps_order k a st (bus_step n a st)" using Cons.prems by (intro step_order) auto
  with Cons.prems(4) s1 have one: "su_filter s1 = su_filter s"
    "su_buffered s @ matching (su_filter s) a = left k (snd (bus_step n a st)) @ su_buffered s1"
    by (auto simp: keeps_order_def)
  from arg_cong [OF one(2), of length]
  have "length (su_buffered s1) \<le> length (su_buffered s) + length (matching (su_filter s) a)" by simp
  with Cons.prems(6) one(1)
  have "length (su_buffered s1) + length (concat (map (matching (su_filter s1)) as)) \<le> n" by simp
  from Cons.IH [OF ok1 _ _ s1 end' this] Cons.prems(2,3)
  have rest: "\<not> list_ex (drops k) (snd (bus_run n as ?st1))" by auto
  have "\<not> list_ex (drops k) (snd (bus_step n a st))"
  proof
    assume "list_ex (drops k) (snd (bus_step n a st))"
    then obtain v t where t: "a = APayload (Some v)" "present k st t" "su_filter t v = Some True" "n \<le> length (su_buffered t)"
      using dropped_by_step by blast
    have "s = t" by (rule present_unique [OF Cons.prems(1,4) t(2)])
    with t Cons.prems(6) show False by simp
  qed
  with rest show ?case by simp
qed simp

lemma until_closed_spec:
  "until_closed ops = (if \<exists>op \<in> set ops. o_closed_at op \<noteq> None
     then (takeWhile (\<lambda>op. o_closed_at op = None) ops @ [the (find (\<lambda>op. o_closed_at op \<noteq> None) ops)], True)
     else (ops, False))"
  by (induction ops) auto

text \<open>C31: a watcher whose subscription is there when the operation's notifications arrive, no more of them
  than its queue holds, and who has taken them all, has seen the loaded row, then every notification of
  its operation in order up to the one that closes it, and there the stream ends.\<close>

theorem watched_operation_ends:
  fixes initial :: operation
  assumes "bus_reachable n st" "fresh_run n as st" "\<forall>a \<in> set as. \<not> subscribes k a"
    and "present k st s" "su_buffered s = []" "su_filter s = own_operation initial"
    and "present k (fst (bus_run n as st)) s'" "su_buffered s' = []"
    and "updates = concat (map (matching (own_operation initial)) as)" "length updates \<le> n"
    and "o_closed_at initial = None" "\<exists>op \<in> set updates. o_closed_at op \<noteq> None"
  shows "operation_events initial (given k (snd (bus_run n as st))) =
    (initial # takeWhile (\<lambda>op. o_closed_at op = None) updates @ [the (find (\<lambda>op. o_closed_at op \<noteq> None) updates)], True)"
proof -
  have ok: "bus_ok n st" by (rule reachable_ok [OF assms(1)])
  have "\<not> list_ex (drops k) (snd (bus_run n as st))"
    by (rule run_no_drop [OF ok assms(2,3,4,7)]) (use assms(5,6,9,10) in simp)
  then have "given k (snd (bus_run n as st)) = left k (snd (bus_run n as st))" by (simp add: left_given)
  also have "\<dots> = updates"
    using run_order [OF ok assms(2,3,4,7)] assms(5,6,8,9) by simp
  finally show ?thesis using assms(11,12) by (simp add: operation_events_def until_closed_spec)
qed

text \<open>C32: a watcher that subscribes after the notification of the close was published, with a row it loaded
  before, never sees the close: as long as it listens and nothing else is published for its operation,
  its stream is the loaded row and has not ended. What was published before is no hypothesis.\<close>

theorem missed_close_never_ends:
  fixes initial :: operation
  assumes "bus_reachable n st" "fresh_run n (ASubscribe k (own_operation initial) # as) st"
    and "\<forall>a \<in> set as. \<not> subscribes k a \<and> matching (own_operation initial) a = []"
    and "present k (fst (bus_run n (ASubscribe k (own_operation initial) # as) st)) s'"
    and "o_closed_at initial = None"
  shows "operation_events initial (given k (snd (bus_run n (ASubscribe k (own_operation initial) # as) st))) = ([initial], False)"
proof -
  let ?st1 = "fst (subscribe_json k (own_operation initial) st)"
  have ok: "bus_ok n ?st1"
    using subscribe_ok [OF reachable_ok [OF assms(1)]] assms(2) by (simp add: fresh_action_def)
  obtain s where s: "present k ?st1 s" "su_buffered s = []" "su_filter s = own_operation initial"
  proof (rule that)
    let ?s = "\<lparr> su_id = k, su_filter = own_operation initial, su_buffered = [], su_waiting = False,
      su_phase = (if ch_listening (state_for st) then Receiving else Subscribing) \<rparr>"
    show "present k ?st1 ?s" by (simp add: present_def subscribe_json_def Let_def)
  qed simp_all
  have fresh: "fresh_run n as ?st1" and end': "present k (fst (bus_run n as ?st1)) s'"
    using assms(2,4) by simp_all
  have quiet: "concat (map (matching (own_operation initial)) as) = []" using assms(3) by simp
  have "left k (snd (bus_run n as ?st1)) = []"
    using run_order [OF ok fresh _ s(1) end'] s(2,3) assms(3) quiet by simp
  then have "given k (snd (bus_run n as ?st1)) = []" by (rule given_left)
  moreover have "given k (snd (subscribe_json k (own_operation initial) st)) = []"
    by (simp add: subscribe_json_def Let_def)
  ultimately show ?thesis using assms(5) by (simp add: operation_events_def)
qed

section \<open>The stream of a project\<close>

fun source_of :: "project_event \<Rightarrow> stream_source" where
  "source_of (OperationEvent op) = OperationSource"
| "source_of (ResourceEvent kind r) = ResourceSource"
| "source_of (ResourceDeletedEvent i p s) = ResourceSource"
| "source_of (ChangeSetEvent cs) = ChangeSetSource"

text \<open>The events of a channel that the stream carries: those built before the first failure.\<close>

fun carried :: "arrival list \<Rightarrow> project_event list" where
  "carried [] = []"
| "carried (Inl _ # outs) = []"
| "carried (Inr None # outs) = carried outs"
| "carried (Inr (Some e) # outs) = e # carried outs"

fun arrivals :: "stream_source \<Rightarrow> stream_action list \<Rightarrow> arrival list" where
  "arrivals src [] = []"
| "arrivals src (Arrive j outcome # as) = (if j = src then outcome # arrivals src as else arrivals src as)"
| "arrivals src (TakeNext # as) = arrivals src as"

fun typed_action :: "stream_action \<Rightarrow> bool" where
  "typed_action (Arrive src (Inr (Some e))) = (source_of e = src)"
| "typed_action _ = True"

fun channel_of :: "stream_source \<Rightarrow> project_stream \<Rightarrow> stream_channel" where
  "channel_of OperationSource s = st_operations s"
| "channel_of ResourceSource s = st_resources s"
| "channel_of ChangeSetSource s = st_change_sets s"

definition typed_stream :: "project_stream \<Rightarrow> bool" where
  "typed_stream s \<longleftrightarrow> (\<forall>src. \<forall>e \<in> set (sc_queue (channel_of src s)). source_of e = src)"

definition pending_of :: "stream_channel \<Rightarrow> arrival list \<Rightarrow> project_event list" where
  "pending_of c outs = sc_queue c @ (if sc_running c then carried outs else [])"

lemma channel_arrive: "channel_of src (arrive j outcome s) = (if src = j then run_channel outcome (channel_of src s) else channel_of src s)"
  by (cases src; cases j) simp_all

lemma typed_arrive: "typed_stream s \<Longrightarrow> typed_action (Arrive j outcome) \<Longrightarrow> typed_stream (arrive j outcome s)"
  by (auto simp: typed_stream_def channel_arrive run_channel_def split: sum.splits option.splits)

lemma pending_arrive: "pending_of (run_channel outcome c) outs = pending_of c (outcome # outs)"
  by (auto simp: pending_of_def run_channel_def split: sum.split option.split)

lemma next_event_Some:
  assumes "typed_stream s" "next_event s = Some (e, s1)"
  shows "typed_stream s1 \<and> channel_of (source_of e) s = (channel_of (source_of e) s1)\<lparr> sc_queue := e # sc_queue (channel_of (source_of e) s1) \<rparr> \<and>
    (\<forall>src. src \<noteq> source_of e \<longrightarrow> channel_of src s1 = channel_of src s)"
proof -
  have all: "(\<forall>src. P src) \<longleftrightarrow> P OperationSource \<and> P ResourceSource \<and> P ChangeSetSource" for P
    by (metis stream_source.exhaust)
  show ?thesis
    using assms
    by (auto simp: next_event_def shift_queue_def typed_stream_def all split: option.splits list.splits)
qed

text \<open>For each of the three channels, what the stream of a project yields of it, followed by what is
  queued, is what the channel carried, in order: nothing is lost, repeated or moved between the events of
  a channel, however arrivals and reads interleave. What arrives after the first event that could not be
  built (the reload of a resource failed) is never yielded, though the stream goes on.\<close>

theorem project_stream_order:
  assumes "list_all typed_action as"
  shows "filter (\<lambda>e. source_of e = src) (snd (stream_run as new_stream)) @ sc_queue (channel_of src (fst (stream_run as new_stream))) =
    carried (arrivals src as)"
proof -
  have run: "filter (\<lambda>e. source_of e = src) (snd (stream_run as s)) @ sc_queue (channel_of src (fst (stream_run as s))) =
      pending_of (channel_of src s) (arrivals src as)"
    if "list_all typed_action as" "typed_stream s" for as s
    using that
  proof (induction as s rule: stream_run.induct)
    case (1 s)
    then show ?case by (simp add: pending_of_def)
  next
    case (2 j outcome as s)
    then show ?case using typed_arrive [of s j outcome] by (simp add: channel_arrive pending_arrive)
  next
    case (3 as s)
    show ?case
    proof (cases "next_event s")
      case None
      with 3 show ?thesis by simp
    next
      case (Some r)
      obtain e s1 where r: "next_event s = Some (e, s1)" using Some by (cases r) auto
      from next_event_Some [OF "3.prems"(2) r] "3.IH"(2) [OF r refl] "3.prems"(1)
      show ?thesis by (cases "source_of e = src") (auto simp: r pending_of_def split: prod.split)
    qed
  qed
  have "typed_stream new_stream"
    unfolding typed_stream_def new_stream_def Let_def by (intro allI, case_tac src) simp_all
  moreover have "channel_of src new_stream = \<lparr> sc_queue = [], sc_running = True \<rparr>"
    by (cases src) (simp_all add: new_stream_def Let_def)
  ultimately show ?thesis using run [OF assms, of new_stream] by (simp add: pending_of_def)
qed

section \<open>Instances\<close>

definition watched :: "operation_status \<Rightarrow> int option \<Rightarrow> operation" where
  "watched status closed_at =
     \<lparr> o_id = ''op'', o_project_id = ''p'', o_resource_id = None, o_item_id = None, o_retry_of = None, o_run_id = Some ''run'',
       o_lock = None, o_kind = OpCreate, o_status = status, o_actor = (SystemActor, ''scheduler''), o_request = [],
       o_result = None, o_error = None, o_approval = None, o_closed_at = closed_at, o_created_at = 0, o_updated_at = 0 \<rparr>"

definition watch_start :: "operation bus_action list" where
  "watch_start = [ASubscribe 1 (own_operation (watched Pending None)), AListenDone, APull 1]"

definition watch_run :: "operation bus_action list" where
  "watch_run = [APayload (Some (watched Running None)), APull 1, APayload (Some (watched Succeeded (Some 9)))]"

definition watch_state :: "operation bus_channel option" where
  "watch_state = fst (bus_run 64 watch_start None)"

lemma own_watched: "own_operation (watched a b) (watched c d) = Some True"
  by (simp add: own_operation_def watched_def)

lemma watched_closed [simp]: "o_closed_at (watched a b) = b"
  by (simp add: watched_def)

lemma watch_state: "watch_state = Some \<lparr> ch_subscribers =
     [\<lparr> su_id = 1, su_filter = own_operation (watched Pending None), su_buffered = [], su_waiting = True, su_phase = Receiving \<rparr>],
     ch_listening = True, ch_pending = False, ch_refs = 1 \<rparr>"
  by (simp add: watch_state_def watch_start_def bus_eval)

theorem watched_operation_ends_witness:
  "operation_events (watched Pending None) (given 1 (snd (bus_run 64 watch_run watch_state))) =
    ([watched Pending None, watched Running None, watched Succeeded (Some 9)], True)"
proof -
  let ?s = "\<lparr> su_id = 1, su_filter = own_operation (watched Pending None), su_buffered = [], su_waiting = True, su_phase = Receiving \<rparr>"
  let ?s' = "?s\<lparr> su_waiting := False \<rparr>"
  have reach: "bus_reachable 64 watch_state"
    unfolding watch_state_def
    by (rule reachable_run [OF _ bus_reachable.start]) (simp add: watch_start_def bus_eval fresh_action_def)
  have s: "present 1 watch_state ?s" by (simp add: watch_state present_def)
  have s': "present 1 (fst (bus_run 64 watch_run watch_state)) ?s'"
    unfolding watch_state by (simp add: watch_run_def bus_eval present_def own_watched)
  have updates: "[watched Running None, watched Succeeded (Some 9)] =
      concat (map (matching (own_operation (watched Pending None))) watch_run)"
    by (simp add: watch_run_def own_watched)
  have fresh: "fresh_run 64 watch_run watch_state" by (simp add: watch_run_def fresh_action_def)
  have "\<forall>a \<in> set watch_run. \<not> subscribes 1 a" by (simp add: watch_run_def)
  from watched_operation_ends [OF reach fresh this s _ _ s' _ updates]
  show ?thesis by simp
qed

definition late_state :: "operation bus_channel option" where
  "late_state = fst (bus_run 64 [ASubscribe 2 (\<lambda>_. Some True), AListenDone, APayload (Some (watched Succeeded (Some 9)))] None)"

theorem missed_close_never_ends_witness:
  "operation_events (watched Running None)
     (given 1 (snd (bus_run 64 [ASubscribe 1 (own_operation (watched Running None)), APull 1, APull 2] late_state))) =
   ([watched Running None], False)"
proof -
  have reach: "bus_reachable 64 late_state"
    unfolding late_state_def
    by (rule reachable_run [OF _ bus_reachable.start]) (simp add: bus_eval fresh_action_def)
  let ?as = "[APull 1, APull 2] :: operation bus_action list"
  let ?s' = "\<lparr> su_id = 1, su_filter = own_operation (watched Running None), su_buffered = [], su_waiting = True, su_phase = Receiving \<rparr>"
  have fresh: "fresh_run 64 (ASubscribe 1 (own_operation (watched Running None)) # ?as) late_state"
    by (simp add: late_state_def bus_eval fresh_action_def)
  have here: "present 1 (fst (bus_run 64 (ASubscribe 1 (own_operation (watched Running None)) # ?as) late_state)) ?s'"
    by (simp add: late_state_def bus_eval present_def)
  show ?thesis by (rule missed_close_never_ends [OF reach fresh _ here]) simp_all
qed

definition stream_actions :: "stream_action list" where
  "stream_actions =
     [Arrive ResourceSource (Inr (Some (ResourceDeletedEvent ''r'' ''p'' ''a''))), Arrive OperationSource (Inr (Some (OperationEvent (watched Running None)))),
      TakeNext, Arrive ResourceSource (Inl (PlainError ''down'')), Arrive ResourceSource (Inr (Some (ResourceDeletedEvent ''r'' ''p'' ''b''))), TakeNext, TakeNext]"

theorem project_stream_order_witness:
  "filter (\<lambda>e. source_of e = ResourceSource) (snd (stream_run stream_actions new_stream)) @
     sc_queue (channel_of ResourceSource (fst (stream_run stream_actions new_stream))) = [ResourceDeletedEvent ''r'' ''p'' ''a'']"
  by (subst project_stream_order) (simp_all add: stream_actions_def)

end
