(* ===== verification/ThinkingStore.thy ===== *)
theory ThinkingStore
  imports JsValue Errors
begin

text \<open>
  The store of thinking blocks, packages/thinking-blocks/src: its records (types.ts), JSON copies
  (json.ts), the store in memory (memory-store.ts) and the one on the database
  (apps/api/src/thinking-blocks/thinking-blocks.ts). Both work on \<open>tb_store\<close>, whose fields are the
  arrays of the first and the tables of the second. \<open>mem_\<close> and \<open>pg_\<close> name their operations. Times are
  milliseconds. Rows of equal time keep the order in which they were inserted: the sort of JavaScript is
  stable, and SQL, which leaves the order open, is taken at its simplest.
\<close>

section \<open>Records\<close>

datatype artifact_status =
    ArtifactPending | ArtifactRunning | ArtifactReady | ArtifactRejected | ArtifactFailed | ArtifactSuperseded

record artifact =
  ta_id :: string
  ta_block :: string
  ta_version :: string
  ta_identity :: string
  ta_input :: jsval
  ta_status :: artifact_status
  ta_output :: jsval
  ta_rejection :: jsval
  ta_error :: "jsobj option"
  ta_phase :: "string option"
  ta_phase_label :: "string option"
  ta_phase_at :: "int option"
  ta_created_at :: int
  ta_updated_at :: int
  ta_ready_at :: "int option"
  ta_superseded_by :: "string option"
  ta_superseded_at :: "int option"

datatype run_status = RunRunning | RunSuccess | RunRejected | RunFailed

record block_run =
  tr_id :: string
  tr_artifact_id :: string
  tr_block :: string
  tr_trigger :: "string option"
  tr_metadata :: jsobj
  tr_started_at :: int
  tr_status :: run_status
  tr_finished_at :: "int option"
  tr_error :: "jsobj option"
  tr_reason :: "string option"
  tr_rejection :: jsval
  tr_finish :: "jsobj option"     \<comment> \<open>in memory: the metadata of \<open>finish\<close>\<close>
  tr_duration :: "int option"     \<comment> \<open>in the database\<close>

datatype call_role = GenerateRole | JudgeRole

datatype call_status = CallSuccess | CallError

record model_call =
  mc_run_id :: string
  mc_operation_id :: string
  mc_attempt :: nat
  mc_step_index :: nat
  mc_role :: call_role
  mc_block :: string
  mc_provider :: string
  mc_model :: string
  mc_response_model :: "string option"
  mc_status :: call_status
  mc_metadata :: jsobj
  mc_input :: jsobj
  mc_instructions :: "string option"
  mc_instructions_hash :: "string option"
  mc_output :: jsobj
  mc_error :: "jsobj option"
  mc_validator_id :: "string option"

record validation_result =
  vr_run_id :: string
  vr_operation_id :: string
  vr_attempt :: nat
  vr_validator_id :: string
  vr_model :: bool                \<comment> \<open>a judge, not a check\<close>
  vr_pass :: bool
  vr_feedback :: jsval
  vr_metadata :: jsobj

record tb_store =
  ts_artifacts :: "artifact list"
  ts_runs :: "block_run list"
  ts_model_calls :: "model_call list"
  ts_validations :: "validation_result list"
  ts_phases :: "(string \<times> string \<times> string \<times> int) list"     \<comment> \<open>in memory\<close>

type_synonym 'a tb = "(tb_store, js_error, 'a) eff"

text \<open>Block name, version and identity; block name and version.\<close>

type_synonym block_key = "string \<times> string \<times> string"

definition artifact_key :: "artifact \<Rightarrow> block_key" where
  "artifact_key a = (ta_block a, ta_version a, ta_identity a)"

definition of_block :: "string \<times> string \<Rightarrow> artifact \<Rightarrow> bool" where
  "of_block block a \<longleftrightarrow> (ta_block a, ta_version a) = block"

section \<open>JSON copies (json.ts)\<close>

text \<open>\<open>JSON.parse(JSON.stringify(value))\<close>.\<close>

fun json_copy :: "jsval \<Rightarrow> jsval" where
  "json_copy (JArr xs) = JArr (map (\<lambda>x. case json_copy x of JUndef \<Rightarrow> JNull | v \<Rightarrow> v) xs)"
| "json_copy (JObj es) = JObj (filter (\<lambda>(k, v). v \<noteq> JUndef) (map (\<lambda>(k, v). (k, json_copy v)) es))"
| "json_copy (JFun f) = JUndef"
| "json_copy (JProto ObjectProto) = JObj []"
| "json_copy (JProto ArrayProto) = JArr []"
| "json_copy v = v"

definition to_json_value :: "jsval \<Rightarrow> js_error + jsval" where
  "to_json_value v =
     (if v = JUndef then Inr JUndef
      else case json_copy v of JUndef \<Rightarrow> Inl (PlainError ''undefined is not valid JSON'') | w \<Rightarrow> Inr w)"

definition to_json_record :: "jsval \<Rightarrow> js_error + jsobj option" where
  "to_json_record v = map_sum id (\<lambda>w. case w of JObj es \<Rightarrow> Some es | _ \<Rightarrow> None) (to_json_value v)"

text \<open>Name, message and stack of an error come from the runtime.\<close>

definition serialize_error :: "(js_error \<Rightarrow> string \<times> string \<times> string) \<Rightarrow> js_error \<Rightarrow> jsobj" where
  "serialize_error parts err = (case parts err of (name, message, stack) \<Rightarrow>
     [(''name'', JStr name), (''message'', JStr message), (''stack'', JStr stack)])"

section \<open>Rows\<close>

definition set_artifacts :: "(artifact \<Rightarrow> bool) \<Rightarrow> (artifact \<Rightarrow> artifact) \<Rightarrow> tb_store \<Rightarrow> tb_store" where
  "set_artifacts P f s = s\<lparr> ts_artifacts := map (\<lambda>a. if P a then f a else a) (ts_artifacts s) \<rparr>"

definition set_run :: "string \<Rightarrow> (block_run \<Rightarrow> block_run) \<Rightarrow> tb_store \<Rightarrow> tb_store" where
  "set_run k f s = s\<lparr> ts_runs := map (\<lambda>r. if tr_id r = k then f r else r) (ts_runs s) \<rparr>"

definition find_artifact :: "string \<Rightarrow> tb_store \<Rightarrow> artifact option" where
  "find_artifact k s = find (\<lambda>a. ta_id a = k) (ts_artifacts s)"

definition new_artifact :: "string \<Rightarrow> block_key \<Rightarrow> jsval \<Rightarrow> int \<Rightarrow> artifact" where
  "new_artifact k key input time = (case key of (block, version, identity) \<Rightarrow>
     \<lparr> ta_id = k, ta_block = block, ta_version = version, ta_identity = identity, ta_input = input,
       ta_status = ArtifactPending, ta_output = JNull, ta_rejection = JNull, ta_error = None, ta_phase = None,
       ta_phase_label = None, ta_phase_at = None, ta_created_at = time, ta_updated_at = time, ta_ready_at = None,
       ta_superseded_by = None, ta_superseded_at = None \<rparr>)"

definition normalized_identity :: "block_key \<Rightarrow> unit tb" where
  "normalized_identity key =
     (if snd (snd key) = [] then eff_throw (PlainError ''ThinkingBlock identity key is required'') else eff_return ())"

text \<open>The orders of the queries: the latest first; the least recently updated first, then the oldest.\<close>

definition latest_first :: "artifact list \<Rightarrow> artifact list" where
  "latest_first = sort_key (\<lambda>a. - ta_created_at a)"

definition queue_order :: "artifact list \<Rightarrow> artifact list" where
  "queue_order xs = sort_key ta_updated_at (sort_key ta_created_at xs)"

definition run_count :: "string \<Rightarrow> tb_store \<Rightarrow> nat" where
  "run_count k s = length (filter (\<lambda>r. tr_artifact_id r = k) (ts_runs s))"

text \<open>What the updates set.\<close>

definition as_running :: "int \<Rightarrow> artifact \<Rightarrow> artifact" where
  "as_running time a = a\<lparr> ta_status := ArtifactRunning, ta_updated_at := time, ta_error := None \<rparr>"

definition as_requeued :: "int \<Rightarrow> artifact \<Rightarrow> artifact" where
  "as_requeued time a = a\<lparr> ta_status := ArtifactPending, ta_updated_at := time, ta_error := None \<rparr>"

definition as_superseded :: "string option \<Rightarrow> int \<Rightarrow> artifact \<Rightarrow> artifact" where
  "as_superseded k time a = a\<lparr> ta_status := ArtifactSuperseded,
     ta_superseded_by := (case k of None \<Rightarrow> ta_superseded_by a | Some _ \<Rightarrow> k),
     ta_superseded_at := Some time, ta_updated_at := time \<rparr>"

definition as_ready :: "jsval \<Rightarrow> int \<Rightarrow> artifact \<Rightarrow> artifact" where
  "as_ready out time a = a\<lparr> ta_status := ArtifactReady, ta_output := out, ta_rejection := JNull, ta_error := None,
     ta_ready_at := Some time, ta_updated_at := time \<rparr>"

definition as_rejected :: "jsval \<Rightarrow> int \<Rightarrow> artifact \<Rightarrow> artifact" where
  "as_rejected rejection time a =
     a\<lparr> ta_status := ArtifactRejected, ta_rejection := rejection, ta_error := None, ta_updated_at := time \<rparr>"

definition as_failed :: "jsobj \<Rightarrow> int \<Rightarrow> artifact \<Rightarrow> artifact" where
  "as_failed err time a = a\<lparr> ta_status := ArtifactFailed, ta_error := Some err, ta_updated_at := time \<rparr>"

definition in_phase :: "string \<Rightarrow> string \<Rightarrow> artifact \<Rightarrow> bool" where
  "in_phase phase label a \<longleftrightarrow> ta_phase a = Some phase \<and> ta_phase_label a = Some label"

definition as_phase :: "string \<Rightarrow> string \<Rightarrow> int \<Rightarrow> artifact \<Rightarrow> artifact" where
  "as_phase phase label time a =
     a\<lparr> ta_phase := Some phase, ta_phase_label := Some label, ta_phase_at := Some time, ta_updated_at := time \<rparr>"

definition ready_of :: "block_key \<Rightarrow> artifact \<Rightarrow> bool" where
  "ready_of key a \<longleftrightarrow> artifact_key a = key \<and> ta_status a = ArtifactReady"

definition new_run :: "string \<Rightarrow> string \<Rightarrow> string \<Rightarrow> string option \<Rightarrow> jsobj \<Rightarrow> int \<Rightarrow> block_run" where
  "new_run k artifact_id block trigger metadata time =
     \<lparr> tr_id = k, tr_artifact_id = artifact_id, tr_block = block, tr_trigger = trigger, tr_metadata = metadata,
       tr_started_at = time, tr_status = RunRunning, tr_finished_at = None, tr_error = None, tr_reason = None,
       tr_rejection = JNull, tr_finish = None, tr_duration = None \<rparr>"

section \<open>The store in memory\<close>

definition require_artifact :: "string \<Rightarrow> artifact tb" where
  "require_artifact k = eff_bind (eff_get (find_artifact k)) (\<lambda>found. case found of
     None \<Rightarrow> eff_throw (PlainError (''unknown thinking block artifact: '' @ k)) | Some a \<Rightarrow> eff_return a)"

definition require_run :: "string \<Rightarrow> block_run tb" where
  "require_run k = eff_bind (eff_get (\<lambda>s. find (\<lambda>r. tr_id r = k) (ts_runs s))) (\<lambda>found. case found of
     None \<Rightarrow> eff_throw (PlainError (''unknown thinking block run: '' @ k)) | Some r \<Rightarrow> eff_return r)"

definition set_artifact :: "string \<Rightarrow> (artifact \<Rightarrow> artifact) \<Rightarrow> unit tb" where
  "set_artifact k f = eff_modify (set_artifacts (\<lambda>a. ta_id a = k) f)"

definition mem_create_artifact :: "(tb_store \<Rightarrow> string) \<Rightarrow> block_key \<Rightarrow> jsval \<Rightarrow> int \<Rightarrow> artifact tb" where
  "mem_create_artifact new_id key input time =
     eff_bind (normalized_identity key) (\<lambda>_.
     eff_bind (eff_get (\<lambda>s. new_artifact (new_id s) key input time)) (\<lambda>a.
     eff_bind (eff_modify (\<lambda>s. s\<lparr> ts_artifacts := ts_artifacts s @ [a] \<rparr>)) (\<lambda>_.
     eff_return a)))"

definition mem_find_artifact_by_id :: "string \<Rightarrow> artifact option tb" where
  "mem_find_artifact_by_id k = eff_get (find_artifact k)"

definition mem_find_active_artifact :: "block_key \<Rightarrow> artifact option tb" where
  "mem_find_active_artifact key =
     eff_bind (normalized_identity key) (\<lambda>_. eff_get (\<lambda>s. find (ready_of key) (ts_artifacts s)))"

definition non_superseded :: "block_key \<Rightarrow> tb_store \<Rightarrow> artifact list" where
  "non_superseded key s =
     latest_first (filter (\<lambda>a. artifact_key a = key \<and> ta_status a \<noteq> ArtifactSuperseded) (ts_artifacts s))"

definition mem_find_latest_non_superseded_artifact :: "block_key \<Rightarrow> artifact option tb" where
  "mem_find_latest_non_superseded_artifact key =
     eff_bind (normalized_identity key) (\<lambda>_. eff_get (\<lambda>s. first_row (non_superseded key s)))"

definition mem_find_artifact_status :: "block_key \<Rightarrow> artifact_status option tb" where
  "mem_find_artifact_status key =
     eff_bind (normalized_identity key) (\<lambda>_. eff_get (\<lambda>s. map_option ta_status (first_row (non_superseded key s))))"

definition pending_queue :: "string \<times> string \<Rightarrow> artifact list \<Rightarrow> artifact list" where
  "pending_queue block xs = queue_order (filter (\<lambda>a. of_block block a \<and> ta_status a = ArtifactPending) xs)"

definition mem_claim_pending_artifacts :: "string \<times> string \<Rightarrow> int \<Rightarrow> int \<Rightarrow> artifact list tb" where
  "mem_claim_pending_artifacts block limit time =
     (if limit < 1 then eff_return []
      else
        eff_bind (eff_get (\<lambda>s. take (nat limit) (pending_queue block (ts_artifacts s)))) (\<lambda>claimed.
        eff_bind (eff_modify (set_artifacts (\<lambda>a. ta_id a \<in> ta_id ` set claimed) (as_running time))) (\<lambda>_.
        eff_return (map (as_running time) claimed))))"

definition requeueable ::
  "string \<times> string \<Rightarrow> nat \<Rightarrow> int \<Rightarrow> string list \<Rightarrow> tb_store \<Rightarrow> artifact \<Rightarrow> bool" where
  "requeueable block n before excluded s a \<longleftrightarrow>
     of_block block a \<and> ta_status a = ArtifactFailed \<and> ta_id a \<notin> set excluded \<and> ta_updated_at a \<le> before \<and>
     run_count (ta_id a) s = n"

definition mem_requeue_retryable_artifacts ::
  "string \<times> string \<Rightarrow> nat \<Rightarrow> int \<Rightarrow> int \<Rightarrow> string list \<Rightarrow> nat tb" where
  "mem_requeue_retryable_artifacts block n before time excluded =
     eff_bind (eff_get (\<lambda>s. filter (requeueable block n before excluded s) (ts_artifacts s))) (\<lambda>found.
     eff_bind (eff_modify (set_artifacts (\<lambda>a. ta_id a \<in> ta_id ` set found) (as_requeued time))) (\<lambda>_.
     eff_return (length found)))"

definition mem_count_runs :: "string \<Rightarrow> nat tb" where
  "mem_count_runs k = eff_get (run_count k)"

text \<open>The earlier ready artifacts are superseded before the artifact is looked up.\<close>

definition mem_mark_artifact_ready :: "string \<Rightarrow> block_key \<Rightarrow> jsval \<Rightarrow> int \<Rightarrow> string list tb" where
  "mem_mark_artifact_ready k key out time =
     eff_bind (normalized_identity key) (\<lambda>_.
     eff_bind (eff_get (\<lambda>s. map ta_id (filter (\<lambda>a. ta_id a \<noteq> k \<and> ready_of key a) (ts_artifacts s)))) (\<lambda>gone.
     eff_bind (eff_modify (set_artifacts (\<lambda>a. ta_id a \<noteq> k \<and> ready_of key a) (as_superseded (Some k) time))) (\<lambda>_.
     eff_bind (require_artifact k) (\<lambda>_.
     eff_bind (set_artifact k (as_ready out time)) (\<lambda>_.
     eff_return gone)))))"

definition mem_mark_artifact_rejected :: "string \<Rightarrow> jsval \<Rightarrow> int \<Rightarrow> unit tb" where
  "mem_mark_artifact_rejected k rejection time =
     eff_bind (require_artifact k) (\<lambda>_. set_artifact k (as_rejected rejection time))"

definition mem_mark_artifact_failed :: "string \<Rightarrow> jsobj \<Rightarrow> int \<Rightarrow> unit tb" where
  "mem_mark_artifact_failed k err time = eff_bind (require_artifact k) (\<lambda>_. set_artifact k (as_failed err time))"

definition mem_update_artifact_phase :: "string \<Rightarrow> string \<Rightarrow> string \<Rightarrow> int \<Rightarrow> unit tb" where
  "mem_update_artifact_phase k phase label time =
     eff_bind (require_artifact k) (\<lambda>a.
       if in_phase phase label a then eff_return ()
       else
         eff_bind (eff_modify (\<lambda>s. s\<lparr> ts_phases := ts_phases s @ [(k, phase, label, time)] \<rparr>)) (\<lambda>_.
         set_artifact k (as_phase phase label time)))"

definition mem_dump_artifacts :: "block_key \<Rightarrow> int \<Rightarrow> artifact list tb" where
  "mem_dump_artifacts key time =
     eff_bind (normalized_identity key) (\<lambda>_.
     eff_bind (eff_get (\<lambda>s. map (as_superseded None time) (filter (ready_of key) (ts_artifacts s)))) (\<lambda>dumped.
     eff_bind (eff_modify (set_artifacts (ready_of key) (as_superseded None time))) (\<lambda>_.
     eff_return dumped)))"

definition mem_list_artifacts :: "block_key \<Rightarrow> artifact list tb" where
  "mem_list_artifacts key =
     eff_bind (normalized_identity key) (\<lambda>_.
     eff_get (\<lambda>s. latest_first (filter (\<lambda>a. artifact_key a = key) (ts_artifacts s))))"

definition mem_start_run ::
  "(tb_store \<Rightarrow> string) \<Rightarrow> string \<Rightarrow> string \<Rightarrow> string option \<Rightarrow> jsobj \<Rightarrow> int \<Rightarrow> string tb" where
  "mem_start_run new_id artifact_id block trigger metadata time =
     eff_bind (eff_get (\<lambda>s. new_run (new_id s) artifact_id block trigger metadata time)) (\<lambda>r.
     eff_bind (eff_modify (\<lambda>s. s\<lparr> ts_runs := ts_runs s @ [r] \<rparr>)) (\<lambda>_.
     eff_return (tr_id r)))"

definition mem_finish_run :: "string \<Rightarrow> jsobj \<Rightarrow> int \<Rightarrow> int \<Rightarrow> unit tb" where
  "mem_finish_run k metadata started_at finished_at =
     eff_bind (require_run k) (\<lambda>_. eff_modify (set_run k (\<lambda>r.
       r\<lparr> tr_status := RunSuccess, tr_finished_at := Some finished_at, tr_finish := Some metadata \<rparr>)))"

definition mem_reject_run :: "string \<Rightarrow> string \<Rightarrow> jsval \<Rightarrow> jsobj \<Rightarrow> int \<Rightarrow> int \<Rightarrow> unit tb" where
  "mem_reject_run k reason rejection metadata started_at finished_at =
     eff_bind (require_run k) (\<lambda>_. eff_modify (set_run k (\<lambda>r.
       r\<lparr> tr_status := RunRejected, tr_finished_at := Some finished_at, tr_reason := Some reason, tr_rejection := rejection \<rparr>)))"

definition mem_fail_run :: "string \<Rightarrow> jsobj \<Rightarrow> int \<Rightarrow> int \<Rightarrow> unit tb" where
  "mem_fail_run k err started_at finished_at =
     eff_bind (require_run k) (\<lambda>_. eff_modify (set_run k (\<lambda>r.
       r\<lparr> tr_status := RunFailed, tr_finished_at := Some finished_at, tr_error := Some err \<rparr>)))"

definition mem_record_model_call :: "model_call \<Rightarrow> unit tb" where
  "mem_record_model_call call = eff_modify (\<lambda>s. s\<lparr> ts_model_calls := ts_model_calls s @ [call] \<rparr>)"

definition mem_record_validation :: "validation_result \<Rightarrow> unit tb" where
  "mem_record_validation v = eff_modify (\<lambda>s. s\<lparr> ts_validations := ts_validations s @ [v] \<rparr>)"

section \<open>The store on the database\<close>

text \<open>Rows that other transactions have locked are skipped by the claims (\<open>locked\<close>); rows another
  transaction makes ready after the first statement of \<open>markArtifactReady\<close> has read are not superseded by
  it (\<open>unseen\<close>), and then the unique index on the ready artifact of a key refuses the second.\<close>

definition pg_create_artifact :: "(tb_store \<Rightarrow> string) \<Rightarrow> block_key \<Rightarrow> jsval \<Rightarrow> int \<Rightarrow> artifact tb" where
  "pg_create_artifact new_id key input time =
     eff_bind (normalized_identity key) (\<lambda>_.
     eff_bind (eff_lift (to_json_value input)) (\<lambda>input.
     eff_bind (eff_get (\<lambda>s. new_artifact (new_id s) key input time)) (\<lambda>a.
     eff_bind (eff_modify (\<lambda>s. s\<lparr> ts_artifacts := ts_artifacts s @ [a] \<rparr>)) (\<lambda>_.
     eff_return a))))"

definition pg_find_artifact_by_id :: "string \<Rightarrow> artifact option tb" where
  "pg_find_artifact_by_id k = eff_get (\<lambda>s. first_row (filter (\<lambda>a. ta_id a = k) (ts_artifacts s)))"

definition pg_find_active_artifact :: "block_key \<Rightarrow> artifact option tb" where
  "pg_find_active_artifact key =
     eff_bind (normalized_identity key) (\<lambda>_.
     eff_get (\<lambda>s. first_row (filter (\<lambda>a. artifact_key a = key \<and> ta_status a = ArtifactReady) (ts_artifacts s))))"

definition pg_find_latest_non_superseded_artifact :: "block_key \<Rightarrow> artifact option tb" where
  "pg_find_latest_non_superseded_artifact key =
     eff_bind (normalized_identity key) (\<lambda>_.
     eff_get (\<lambda>s. first_row (latest_first (filter (\<lambda>a. artifact_key a = key \<and> ta_status a \<noteq> ArtifactSuperseded) (ts_artifacts s)))))"

definition pg_find_artifact_status :: "block_key \<Rightarrow> artifact_status option tb" where
  "pg_find_artifact_status key =
     eff_bind (normalized_identity key) (\<lambda>_.
     eff_get (\<lambda>s. map_option ta_status
       (first_row (latest_first (filter (\<lambda>a. artifact_key a = key \<and> ta_status a \<noteq> ArtifactSuperseded) (ts_artifacts s))))))"

definition pg_claim_pending_artifacts :: "string list \<Rightarrow> string \<times> string \<Rightarrow> int \<Rightarrow> int \<Rightarrow> artifact list tb" where
  "pg_claim_pending_artifacts locked block limit time =
     (if limit < 1 then eff_return []
      else
        eff_bind (eff_get (\<lambda>s. map ta_id (take (nat limit)
          (pending_queue block (filter (\<lambda>a. ta_id a \<notin> set locked) (ts_artifacts s)))))) (\<lambda>ids.
        if ids = [] then eff_return []
        else
          eff_bind (eff_modify (set_artifacts (\<lambda>a. ta_id a \<in> set ids) (as_running time))) (\<lambda>_.
          eff_get (\<lambda>s. filter (\<lambda>a. ta_id a \<in> set ids) (ts_artifacts s)))))"

definition pg_requeue_retryable_artifacts ::
  "string list \<Rightarrow> string \<times> string \<Rightarrow> nat \<Rightarrow> int \<Rightarrow> int \<Rightarrow> string list \<Rightarrow> nat tb" where
  "pg_requeue_retryable_artifacts locked block n before time excluded =
     eff_bind (eff_get (\<lambda>s. map ta_id (queue_order (filter (\<lambda>a. of_block block a \<and> ta_status a = ArtifactFailed \<and>
        ta_updated_at a \<le> before \<and> ta_id a \<notin> set excluded \<and> ta_id a \<notin> set locked) (ts_artifacts s))))) (\<lambda>ids.
     eff_bind (eff_get (\<lambda>s. filter (\<lambda>k. run_count k s = n) ids)) (\<lambda>retryable.
     if retryable = [] then eff_return 0
     else
       eff_bind (eff_modify (set_artifacts (\<lambda>a. ta_id a \<in> set retryable) (as_requeued time))) (\<lambda>_.
       eff_get (\<lambda>s. length (filter (\<lambda>a. ta_id a \<in> set retryable) (ts_artifacts s))))))"

definition pg_count_runs :: "string \<Rightarrow> nat tb" where
  "pg_count_runs k = eff_get (\<lambda>s. length (filter (\<lambda>r. tr_artifact_id r = k) (ts_runs s)))"

definition pg_ready_conflict :: "string \<Rightarrow> tb_store \<Rightarrow> bool" where
  "pg_ready_conflict k s \<longleftrightarrow> (case find_artifact k s of None \<Rightarrow> False
     | Some a \<Rightarrow> list_ex (\<lambda>b. ta_id b \<noteq> k \<and> ready_of (artifact_key a) b) (ts_artifacts s))"

definition pg_mark_artifact_ready :: "string list \<Rightarrow> string \<Rightarrow> block_key \<Rightarrow> jsval \<Rightarrow> int \<Rightarrow> string list tb" where
  "pg_mark_artifact_ready unseen k key out time =
     eff_bind (normalized_identity key) (\<lambda>_.
     eff_tx
       (eff_bind (eff_get (\<lambda>s. map ta_id (filter (\<lambda>a. ready_of key a \<and> ta_id a \<noteq> k \<and> ta_id a \<notin> set unseen) (ts_artifacts s)))) (\<lambda>gone.
        eff_bind (eff_modify (set_artifacts (\<lambda>a. ta_id a \<in> set gone) (as_superseded (Some k) time))) (\<lambda>_.
        eff_bind (eff_get (find_artifact k)) (\<lambda>found.
        if found = None \<and> gone \<noteq> [] then eff_throw (ForeignKeyViolation ''thinking_block_artifacts_superseded_by'')
        else
          eff_bind (eff_lift (to_json_value out)) (\<lambda>out.
          eff_bind (set_artifact k (as_ready out time)) (\<lambda>_.
          eff_bind (eff_get (pg_ready_conflict k)) (\<lambda>conflict.
          if conflict then eff_throw (UniqueViolation ''thinking_block_artifacts_ready_unique'')
          else eff_return gone))))))))"

definition pg_mark_artifact_rejected :: "string \<Rightarrow> jsval \<Rightarrow> int \<Rightarrow> unit tb" where
  "pg_mark_artifact_rejected k rejection time =
     eff_bind (eff_lift (to_json_value rejection)) (\<lambda>rejection. set_artifact k (as_rejected rejection time))"

definition pg_mark_artifact_failed :: "string \<Rightarrow> jsobj \<Rightarrow> int \<Rightarrow> unit tb" where
  "pg_mark_artifact_failed k err time = set_artifact k (as_failed err time)"

definition pg_update_artifact_phase :: "string \<Rightarrow> string \<Rightarrow> string \<Rightarrow> int \<Rightarrow> unit tb" where
  "pg_update_artifact_phase k phase label time =
     eff_modify (set_artifacts (\<lambda>a. ta_id a = k \<and> \<not> in_phase phase label a) (as_phase phase label time))"

definition pg_dump_artifacts :: "block_key \<Rightarrow> int \<Rightarrow> artifact list tb" where
  "pg_dump_artifacts key time =
     eff_bind (normalized_identity key) (\<lambda>_.
     eff_bind (eff_get (\<lambda>s. map ta_id (filter (ready_of key) (ts_artifacts s)))) (\<lambda>ids.
     eff_bind (eff_modify (set_artifacts (ready_of key) (as_superseded None time))) (\<lambda>_.
     eff_get (\<lambda>s. filter (\<lambda>a. ta_id a \<in> set ids) (ts_artifacts s)))))"

definition pg_list_artifacts :: "block_key \<Rightarrow> artifact list tb" where
  "pg_list_artifacts key =
     eff_bind (normalized_identity key) (\<lambda>_.
     eff_get (\<lambda>s. latest_first (filter (\<lambda>a. artifact_key a = key) (ts_artifacts s))))"

definition pg_start_run ::
  "(tb_store \<Rightarrow> string) \<Rightarrow> string \<Rightarrow> string \<Rightarrow> string option \<Rightarrow> jsobj \<Rightarrow> int \<Rightarrow> string tb" where
  "pg_start_run new_id artifact_id block trigger metadata time =
     eff_bind (eff_get (find_artifact artifact_id)) (\<lambda>found.
     if found = None then eff_throw (ForeignKeyViolation ''thinking_block_runs_thinking_block_artifact_id'')
     else
       eff_bind (eff_get (\<lambda>s. new_run (new_id s) artifact_id block trigger metadata time)) (\<lambda>r.
       eff_bind (eff_modify (\<lambda>s. s\<lparr> ts_runs := ts_runs s @ [r] \<rparr>)) (\<lambda>_.
       eff_return (tr_id r))))"

definition merge_entries :: "jsobj \<Rightarrow> jsobj \<Rightarrow> jsobj" where
  "merge_entries es = fold (\<lambda>(k, v). put_prop k v) es"

definition as_record :: "jsval \<Rightarrow> js_error + jsval" where
  "as_record v = map_sum id (\<lambda>r. case r of None \<Rightarrow> JNull | Some es \<Rightarrow> JObj es) (to_json_record v)"

definition pg_finish_run :: "string \<Rightarrow> jsobj \<Rightarrow> int \<Rightarrow> int \<Rightarrow> unit tb" where
  "pg_finish_run k metadata started_at finished_at = eff_modify (set_run k (\<lambda>r.
     r\<lparr> tr_status := RunSuccess, tr_metadata := merge_entries metadata (tr_metadata r), tr_finished_at := Some finished_at,
       tr_duration := Some (finished_at - started_at) \<rparr>))"

definition pg_reject_run :: "string \<Rightarrow> string \<Rightarrow> jsval \<Rightarrow> jsobj \<Rightarrow> int \<Rightarrow> int \<Rightarrow> unit tb" where
  "pg_reject_run k reason rejection metadata started_at finished_at =
     eff_bind (eff_lift (as_record rejection)) (\<lambda>rejection. eff_modify (set_run k (\<lambda>r.
       r\<lparr> tr_status := RunRejected, tr_reason := Some reason, tr_rejection := rejection,
         tr_metadata := merge_entries metadata (tr_metadata r), tr_finished_at := Some finished_at,
         tr_duration := Some (finished_at - started_at) \<rparr>)))"

definition pg_fail_run :: "string \<Rightarrow> jsobj \<Rightarrow> int \<Rightarrow> int \<Rightarrow> unit tb" where
  "pg_fail_run k err started_at finished_at = eff_modify (set_run k (\<lambda>r.
     r\<lparr> tr_status := RunFailed, tr_error := Some err, tr_finished_at := Some finished_at,
       tr_duration := Some (finished_at - started_at) \<rparr>))"

definition pg_record_model_call :: "model_call \<Rightarrow> unit tb" where
  "pg_record_model_call call = eff_modify (\<lambda>s. s\<lparr> ts_model_calls := ts_model_calls s @ [call] \<rparr>)"

definition pg_record_validation :: "validation_result \<Rightarrow> unit tb" where
  "pg_record_validation v =
     eff_bind (eff_lift (to_json_value (vr_feedback v))) (\<lambda>feedback.
     eff_modify (\<lambda>s. s\<lparr> ts_validations := ts_validations s @ [v\<lparr> vr_feedback := feedback \<rparr>] \<rparr>))"

section \<open>The interface\<close>

record store_api =
  sa_create :: "block_key \<Rightarrow> jsval \<Rightarrow> int \<Rightarrow> artifact tb"
  sa_find_by_id :: "string \<Rightarrow> artifact option tb"
  sa_find_active :: "block_key \<Rightarrow> artifact option tb"
  sa_find_latest :: "block_key \<Rightarrow> artifact option tb"
  sa_find_status :: "block_key \<Rightarrow> artifact_status option tb"
  sa_claim :: "string \<times> string \<Rightarrow> int \<Rightarrow> int \<Rightarrow> artifact list tb"
  sa_requeue :: "string \<times> string \<Rightarrow> nat \<Rightarrow> int \<Rightarrow> int \<Rightarrow> string list \<Rightarrow> nat tb"
  sa_count_runs :: "string \<Rightarrow> nat tb"
  sa_mark_ready :: "string \<Rightarrow> block_key \<Rightarrow> jsval \<Rightarrow> int \<Rightarrow> string list tb"
  sa_mark_rejected :: "string \<Rightarrow> jsval \<Rightarrow> int \<Rightarrow> unit tb"
  sa_mark_failed :: "string \<Rightarrow> jsobj \<Rightarrow> int \<Rightarrow> unit tb"
  sa_update_phase :: "string \<Rightarrow> string \<Rightarrow> string \<Rightarrow> int \<Rightarrow> unit tb"
  sa_dump :: "block_key \<Rightarrow> int \<Rightarrow> artifact list tb"
  sa_list :: "block_key \<Rightarrow> artifact list tb"
  sa_start_run :: "string \<Rightarrow> string \<Rightarrow> string option \<Rightarrow> jsobj \<Rightarrow> int \<Rightarrow> string tb"
  sa_finish_run :: "string \<Rightarrow> jsobj \<Rightarrow> int \<Rightarrow> int \<Rightarrow> unit tb"
  sa_reject_run :: "string \<Rightarrow> string \<Rightarrow> jsval \<Rightarrow> jsobj \<Rightarrow> int \<Rightarrow> int \<Rightarrow> unit tb"
  sa_fail_run :: "string \<Rightarrow> jsobj \<Rightarrow> int \<Rightarrow> int \<Rightarrow> unit tb"
  sa_record_call :: "model_call \<Rightarrow> unit tb"
  sa_record_validation :: "validation_result \<Rightarrow> unit tb"

definition memory_store :: "(tb_store \<Rightarrow> string) \<Rightarrow> store_api" where
  "memory_store new_id =
     \<lparr> sa_create = mem_create_artifact new_id, sa_find_by_id = mem_find_artifact_by_id,
       sa_find_active = mem_find_active_artifact, sa_find_latest = mem_find_latest_non_superseded_artifact,
       sa_find_status = mem_find_artifact_status, sa_claim = mem_claim_pending_artifacts,
       sa_requeue = mem_requeue_retryable_artifacts, sa_count_runs = mem_count_runs,
       sa_mark_ready = mem_mark_artifact_ready, sa_mark_rejected = mem_mark_artifact_rejected,
       sa_mark_failed = mem_mark_artifact_failed, sa_update_phase = mem_update_artifact_phase,
       sa_dump = mem_dump_artifacts, sa_list = mem_list_artifacts, sa_start_run = mem_start_run new_id,
       sa_finish_run = mem_finish_run, sa_reject_run = mem_reject_run, sa_fail_run = mem_fail_run,
       sa_record_call = mem_record_model_call, sa_record_validation = mem_record_validation \<rparr>"

definition database_store :: "(tb_store \<Rightarrow> string) \<Rightarrow> string list \<Rightarrow> string list \<Rightarrow> store_api" where
  "database_store new_id locked unseen =
     \<lparr> sa_create = pg_create_artifact new_id, sa_find_by_id = pg_find_artifact_by_id,
       sa_find_active = pg_find_active_artifact, sa_find_latest = pg_find_latest_non_superseded_artifact,
       sa_find_status = pg_find_artifact_status, sa_claim = pg_claim_pending_artifacts locked,
       sa_requeue = pg_requeue_retryable_artifacts locked, sa_count_runs = pg_count_runs,
       sa_mark_ready = pg_mark_artifact_ready unseen, sa_mark_rejected = pg_mark_artifact_rejected,
       sa_mark_failed = pg_mark_artifact_failed, sa_update_phase = pg_update_artifact_phase,
       sa_dump = pg_dump_artifacts, sa_list = pg_list_artifacts, sa_start_run = pg_start_run new_id,
       sa_finish_run = pg_finish_run, sa_reject_run = pg_reject_run, sa_fail_run = pg_fail_run,
       sa_record_call = pg_record_model_call, sa_record_validation = pg_record_validation \<rparr>"

end
