(* ===== verification/ThinkingBlock.thy ===== *)
theory ThinkingBlock
  imports ThinkingStore "HOL-Library.List_Lexorder" "HOL-Library.Char_ord"
begin

text \<open>
  A thinking block, packages/thinking-blocks/src/thinking-block.ts: identities, the attempts of a run and
  their validation, the commit of an outcome, the queries of a caller, and the runner. The store is the
  field \<open>bl_store\<close>; the agent, the validators, the calls they prepare and the artifact adapter are
  fields too: they may do anything to the world, other callers of the store included, or throw. A world is the
  store with the maps of the block's instance. An \<open>AbortSignal\<close> is its name. The sleeps and the timer of the
  runner are where other code runs.
\<close>

section \<open>The world of a block\<close>

record queued_options =
  qo_trigger :: "string option"
  qo_metadata :: jsobj
  qo_max_attempts :: "rat option"
  qo_signal :: "string option"

datatype result_source = Generated | Cached

datatype block_result =
    BlockSuccess result_source jsval string "string option"          \<comment> \<open>output, artifact, run\<close>
  | BlockRejected string "string option" string jsval jsval           \<comment> \<open>artifact, run, reason, output, details\<close>

text \<open>A completion is a promise: what it settled to, once it has.\<close>

type_synonym completion = "(js_error + block_result) option"

record tb_world =
  tw_store :: tb_store
  tw_active :: "string list"
  tw_options :: "(string \<times> queued_options) list"
  tw_inputs :: "(string \<times> jsval \<times> string) list"
  tw_completions :: "(string \<times> completion) list"
  tw_step_index :: nat
  tw_timer :: "nat option"
  tw_stopped :: bool
  tw_aborted :: "string list"

type_synonym 'a act = "(tb_world, js_error, 'a) eff"

definition on_store :: "'a tb \<Rightarrow> 'a act" where
  "on_store m = (\<lambda>w. case m (tw_store w) of (r, s) \<Rightarrow> (r, w\<lparr> tw_store := s \<rparr>))"

section \<open>What a block is made of (types.ts)\<close>

record prepared_call =
  pc_prompt :: "string option"
  pc_messages :: jsval              \<comment> \<open>\<open>JUndef\<close> when there are none\<close>
  pc_options :: jsval

record agent_call =
  ac_instructions :: "string option"
  ac_call :: prepared_call
  ac_signal :: "string option"

record agent_step =
  ap_provider :: "string option"
  ap_model :: "string option"
  ap_response_model :: "string option"
  ap_json :: jsval

record agent_result =
  ag_output :: jsval
  ag_raw :: jsval

text \<open>\<open>generate\<close> gets the callback of its steps.\<close>

record agent =
  an_id :: "string option"
  an_tools :: "string list option"
  an_generate :: "agent_call \<Rightarrow> (agent_step \<Rightarrow> unit act) \<Rightarrow> agent_result act"

datatype validation = Passed | NotPassed jsval

datatype validator =
    CheckValidator string jsobj "jsval \<Rightarrow> jsval \<Rightarrow> agent_result \<Rightarrow> nat \<Rightarrow> validation act"
  | ModelValidator string jsobj "string option" agent "jsval \<Rightarrow> js_error + jsval"
      "jsval \<Rightarrow> jsval \<Rightarrow> nat \<Rightarrow> prepared_call act" "jsval \<Rightarrow> jsval \<Rightarrow> jsval \<Rightarrow> nat \<Rightarrow> validation act"

fun validator_id :: "validator \<Rightarrow> string" where
  "validator_id (CheckValidator k m v) = k"
| "validator_id (ModelValidator k m i a s p v) = k"

fun validator_metadata :: "validator \<Rightarrow> jsobj" where
  "validator_metadata (CheckValidator k m v) = m"
| "validator_metadata (ModelValidator k m i a s p v) = m"

fun is_judge :: "validator \<Rightarrow> bool" where
  "is_judge (CheckValidator k m v) = False"
| "is_judge (ModelValidator k m i a s p v) = True"

record artifact_adapter =
  ad_read :: "artifact \<Rightarrow> jsval \<Rightarrow> string \<Rightarrow> jsval option act"
  ad_commit :: "string \<Rightarrow> string \<Rightarrow> jsval \<Rightarrow> string \<Rightarrow> jsval \<Rightarrow> agent_result \<Rightarrow> jsval act"
  ad_cleanup :: "string \<Rightarrow> jsval option \<Rightarrow> string \<Rightarrow> unit act"

definition json_artifact :: artifact_adapter where
  "json_artifact =
     \<lparr> ad_read = (\<lambda>a input identity. eff_return (if is_nullish (ta_output a) then None else Some (ta_output a))),
       ad_commit = (\<lambda>artifact_id run_id input identity out raw. eff_return out),
       ad_cleanup = (\<lambda>artifact_id input identity. eff_return ()) \<rparr>"

record block =
  bl_name :: string
  bl_version :: string
  bl_instructions :: "string option"
  bl_agent :: agent
  bl_schema :: "jsval \<Rightarrow> js_error + jsval"             \<comment> \<open>\<open>inputSchema.parse\<close>, or the identity\<close>
  bl_identity :: "(jsval \<Rightarrow> js_error + string) option"
  bl_prepare :: "jsval \<Rightarrow> nat \<Rightarrow> jsval \<Rightarrow> prepared_call act"
  bl_attempts :: "rat option"
  bl_validators :: "validator list"
  bl_metadata :: "jsval \<Rightarrow> jsobj"
  bl_store :: store_api
  bl_adapter :: artifact_adapter
  bl_parallelism :: nat
  bl_clock :: "tb_world \<Rightarrow> int"
  bl_error_parts :: "js_error \<Rightarrow> string \<times> string \<times> string"
  bl_digest :: "string \<Rightarrow> string"                      \<comment> \<open>SHA-256 in hex\<close>
  bl_primitive :: "jsval \<Rightarrow> string option"             \<comment> \<open>\<open>JSON.stringify\<close> of a value that is no object\<close>

definition block_of :: "block \<Rightarrow> string \<times> string" where
  "block_of b = (bl_name b, bl_version b)"

definition key_of :: "block \<Rightarrow> string \<Rightarrow> block_key" where
  "key_of b identity = (bl_name b, bl_version b, identity)"

definition now :: "block \<Rightarrow> int act" where
  "now b = eff_get (bl_clock b)"

section \<open>Constants and checks\<close>

definition DEFAULT_ATTEMPTS :: nat where "DEFAULT_ATTEMPTS = 3"
definition MAX_OPERATIONAL_RUNS :: nat where "MAX_OPERATIONAL_RUNS = 3"
definition RUNNER_POLL_MS :: nat where "RUNNER_POLL_MS = 1000"
definition FAILED_RETRY_BACKOFF_MS :: "int list" where "FAILED_RETRY_BACKOFF_MS = [0, 50, 250]"

definition retry_backoff_ms :: "nat \<Rightarrow> int" where
  "retry_backoff_ms n = FAILED_RETRY_BACKOFF_MS ! min n (length FAILED_RETRY_BACKOFF_MS - 1)"

definition integer_at_least_one :: "string \<Rightarrow> rat \<Rightarrow> js_error + nat" where
  "integer_at_least_one what x =
     (if of_int \<lfloor>x\<rfloor> \<noteq> x then Inl (PlainError (''ThinkingBlock '' @ what @ '' must be an integer''))
      else if x < 1 then Inl (PlainError (''ThinkingBlock '' @ what @ '' must be at least 1''))
      else Inr (nat \<lfloor>x\<rfloor>))"

definition normalize_max_attempts :: "rat \<Rightarrow> js_error + nat" where
  "normalize_max_attempts = integer_at_least_one ''maxAttempts''"

definition normalize_parallelism :: "rat \<Rightarrow> js_error + nat" where
  "normalize_parallelism = integer_at_least_one ''parallelism''"

definition normalize_identity :: "string \<Rightarrow> string \<Rightarrow> js_error + string" where
  "normalize_identity name identity =
     (if identity = [] then Inl (PlainError (''ThinkingBlock '' @ name @ '' identity key is required'')) else Inr identity)"

definition validate_prepared_call :: "prepared_call \<Rightarrow> js_error + prepared_call" where
  "validate_prepared_call call =
     (if (pc_prompt call \<noteq> None) = (pc_messages call \<noteq> JUndef)
      then Inl (PlainError ''ThinkingBlock call must include exactly one of prompt or messages'')
      else Inr call)"

definition max_attempts_for :: "block \<Rightarrow> rat option \<Rightarrow> js_error + nat" where
  "max_attempts_for b run_max =
     (case run_max of
        Some x \<Rightarrow> normalize_max_attempts x
      | None \<Rightarrow> (case bl_attempts b of None \<Rightarrow> Inr DEFAULT_ATTEMPTS | Some x \<Rightarrow> normalize_max_attempts x))"

section \<open>Identities (hash.ts)\<close>

text \<open>\<open>stableStringify\<close>: the keys of an object in order. \<open>None\<close> is \<open>undefined\<close>.\<close>

fun join_with :: "string \<Rightarrow> string list \<Rightarrow> string" where
  "join_with sep [] = []"
| "join_with sep [x] = x"
| "join_with sep (x # xs) = x @ sep @ join_with sep xs"

function stable_stringify :: "(jsval \<Rightarrow> string option) \<Rightarrow> jsval \<Rightarrow> string option" where
  "stable_stringify prim (JArr xs) =
     Some (''['' @ join_with '','' (map (\<lambda>x. case stable_stringify prim x of None \<Rightarrow> [] | Some t \<Rightarrow> t) xs) @ '']'')"
| "stable_stringify prim (JObj es) =
     Some (''{'' @ join_with '','' (map snd (sort_key fst (map (\<lambda>(k, v). (k,
        the (prim (JStr k)) @ '':'' @ (case stable_stringify prim v of None \<Rightarrow> ''undefined'' | Some t \<Rightarrow> t))) es))) @ ''}'')"
| "stable_stringify prim (JProto p) = Some (case p of ObjectProto \<Rightarrow> ''{}'' | ArrayProto \<Rightarrow> ''[]'')"
| "stable_stringify prim JUndef = prim JUndef"
| "stable_stringify prim JNull = prim JNull"
| "stable_stringify prim (JBool v) = prim (JBool v)"
| "stable_stringify prim (JNum v) = prim (JNum v)"
| "stable_stringify prim (JStr v) = prim (JStr v)"
| "stable_stringify prim (JFun v) = prim (JFun v)"
  by pat_completeness auto

termination
  by (relation "measure (\<lambda>(prim, v). size v)") (auto simp: termination_simp size_snd_less size_entry_less)

definition thinking_block_input_hash :: "block \<Rightarrow> jsval \<Rightarrow> js_error + string" where
  "thinking_block_input_hash b v =
     (case stable_stringify (bl_primitive b) v of
        None \<Rightarrow> Inl (PlainError ''The data argument must be of type string'')
      | Some t \<Rightarrow> Inr (bl_digest b t))"

definition resolve_identity :: "block \<Rightarrow> jsval \<Rightarrow> js_error + string" where
  "resolve_identity b input =
     (case (case bl_identity b of None \<Rightarrow> thinking_block_input_hash b input | Some f \<Rightarrow> f input) of
        Inl e \<Rightarrow> Inl e
      | Inr identity \<Rightarrow> normalize_identity (bl_name b) identity)"

definition parse_input :: "block \<Rightarrow> jsval \<Rightarrow> js_error + jsval" where
  "parse_input b raw = bl_schema b raw"

section \<open>Phases and model calls\<close>

datatype phase_event =
    AttemptStarted nat
  | StepFinished nat agent_step
  | ValidatorStarted nat string
  | ValidatorFinished nat string bool

fun phase_for_event :: "phase_event \<Rightarrow> (string \<times> string) option" where
  "phase_for_event (AttemptStarted n) = Some (''generating'', ''Generating'')"
| "phase_for_event (ValidatorStarted n v) = Some (''validating'', ''Validating'')"
| "phase_for_event _ = None"

definition emit_phase :: "block \<Rightarrow> string \<Rightarrow> phase_event \<Rightarrow> unit act" where
  "emit_phase b artifact_id event =
     (case phase_for_event event of
        None \<Rightarrow> eff_return ()
      | Some (phase, label) \<Rightarrow> eff_bind (now b) (\<lambda>time. on_store (sa_update_phase (bl_store b) artifact_id phase label time)))"

definition next_step_index :: "nat act" where
  "next_step_index = eff_bind (eff_get tw_step_index) (\<lambda>n.
     eff_bind (eff_modify (\<lambda>w. w\<lparr> tw_step_index := n + 1 \<rparr>)) (\<lambda>_. eff_return n))"

definition optional_string :: "string option \<Rightarrow> jsval" where
  "optional_string t = (case t of None \<Rightarrow> JUndef | Some x \<Rightarrow> JStr x)"

definition model_call_input :: "prepared_call \<Rightarrow> agent \<Rightarrow> nat \<Rightarrow> js_error + jsobj" where
  "model_call_input call a attempt =
     (case (case pc_prompt call of
              Some t \<Rightarrow> Inr (''prompt'', JStr t)
            | None \<Rightarrow> map_sum id (\<lambda>v. (''messages'', v)) (to_json_value (pc_messages call))) of
        Inl e \<Rightarrow> Inl e
      | Inr content \<Rightarrow>
          map_sum id (\<lambda>options. [content, (''attempt'', JNum (of_nat attempt)), (''options'', options),
             (''agentId'', optional_string (an_id a)),
             (''tools'', case an_tools a of None \<Rightarrow> JUndef | Some keys \<Rightarrow> JArr (map JStr (sort keys)))])
            (to_json_value (pc_options call)))"

text \<open>The run-scoped part of the arguments of \<open>generateOnce\<close>.\<close>

record call_site =
  cl_run :: string
  cl_attempt :: nat
  cl_role :: call_role
  cl_agent :: agent
  cl_instructions :: "string option"
  cl_call :: prepared_call
  cl_signal :: "string option"
  cl_validator :: "string option"
  cl_artifact :: string

definition call_metadata :: "block \<Rightarrow> call_site \<Rightarrow> jsobj" where
  "call_metadata b c =
     [(''thinkingBlock'', JObj [(''id'', JStr (bl_name b)), (''version'', JStr (bl_version b)), (''runId'', JStr (cl_run c))]),
      (''agentId'', optional_string (an_id (cl_agent c)))]"

definition instructions_hash :: "block \<Rightarrow> call_site \<Rightarrow> js_error + string option" where
  "instructions_hash b c =
     (case cl_instructions c of None \<Rightarrow> Inr None | Some t \<Rightarrow> map_sum id Some (thinking_block_input_hash b (JStr t)))"

definition or_unknown :: "string option \<Rightarrow> string" where
  "or_unknown t = (case t of None \<Rightarrow> ''unknown'' | Some x \<Rightarrow> x)"

definition recorded_call :: "block \<Rightarrow> call_site \<Rightarrow> string option \<Rightarrow> jsobj \<Rightarrow> nat \<Rightarrow> model_call" where
  "recorded_call b c hash input index =
     \<lparr> mc_run_id = cl_run c, mc_operation_id = bl_name b, mc_attempt = cl_attempt c, mc_step_index = index, mc_role = cl_role c,
       mc_block = bl_name b, mc_provider = ''unknown'', mc_model = or_unknown (an_id (cl_agent c)), mc_response_model = None,
       mc_status = CallError, mc_metadata = call_metadata b c, mc_input = input, mc_instructions = cl_instructions c,
       mc_instructions_hash = hash, mc_output = [], mc_error = None, mc_validator_id = cl_validator c \<rparr>"

text \<open>\<open>onStepFinish\<close>.\<close>

definition on_step_finish :: "block \<Rightarrow> call_site \<Rightarrow> string option \<Rightarrow> agent_step \<Rightarrow> unit act" where
  "on_step_finish b c hash step =
     eff_bind next_step_index (\<lambda>index.
     eff_bind (eff_lift (model_call_input (cl_call c) (cl_agent c) (cl_attempt c))) (\<lambda>input.
     eff_bind (eff_lift (to_json_record (ap_json step))) (\<lambda>out.
     eff_bind (on_store (sa_record_call (bl_store b) ((recorded_call b c hash input index)
       \<lparr> mc_provider := or_unknown (ap_provider step), mc_model := or_unknown (ap_model step),
         mc_response_model := (case ap_response_model step of None \<Rightarrow> ap_model step | Some m \<Rightarrow> Some m),
         mc_status := CallSuccess, mc_output := (case out of None \<Rightarrow> [] | Some es \<Rightarrow> es) \<rparr>))) (\<lambda>_.
     emit_phase b (cl_artifact c) (StepFinished (cl_attempt c) step)))))"

definition record_failed_call :: "block \<Rightarrow> call_site \<Rightarrow> string option \<Rightarrow> js_error \<Rightarrow> unit act" where
  "record_failed_call b c hash err =
     eff_bind next_step_index (\<lambda>index.
     eff_bind (eff_lift (model_call_input (cl_call c) (cl_agent c) (cl_attempt c))) (\<lambda>input.
     on_store (sa_record_call (bl_store b) ((recorded_call b c hash input index)
       \<lparr> mc_error := Some (serialize_error (bl_error_parts b) err) \<rparr>))))"

definition generate_once :: "block \<Rightarrow> call_site \<Rightarrow> agent_result act" where
  "generate_once b c =
     eff_bind (eff_lift (instructions_hash b c)) (\<lambda>hash.
     eff_catch
       (an_generate (cl_agent c) \<lparr> ac_instructions = cl_instructions c, ac_call = cl_call c, ac_signal = cl_signal c \<rparr>
         (on_step_finish b c hash))
       (\<lambda>err. eff_bind (record_failed_call b c hash err) (\<lambda>_. eff_throw err)))"

section \<open>Attempts and validation\<close>

text \<open>The arguments that stay the same over a run.\<close>

record run_site =
  rn_input :: jsval
  rn_artifact :: string
  rn_run :: string
  rn_signal :: "string option"

fun run_validator :: "block \<Rightarrow> run_site \<Rightarrow> jsval \<Rightarrow> agent_result \<Rightarrow> nat \<Rightarrow> validator \<Rightarrow> validation act" where
  "run_validator b rn out raw attempt (CheckValidator k m validate) = validate (rn_input rn) out raw attempt"
| "run_validator b rn out raw attempt (ModelValidator k m instructions judge schema prepare validate) =
     eff_bind (prepare (rn_input rn) out attempt) (\<lambda>prepared.
     eff_bind (eff_lift (validate_prepared_call prepared)) (\<lambda>call.
     eff_bind (generate_once b \<lparr> cl_run = rn_run rn, cl_attempt = attempt, cl_role = JudgeRole, cl_agent = judge,
       cl_instructions = instructions, cl_call = call, cl_signal = rn_signal rn, cl_validator = Some k,
       cl_artifact = rn_artifact rn \<rparr>) (\<lambda>judged.
     eff_bind (eff_lift (schema (ag_output judged))) (\<lambda>judgement.
     validate (rn_input rn) out judgement attempt))))"

definition recorded_validation :: "block \<Rightarrow> run_site \<Rightarrow> nat \<Rightarrow> validator \<Rightarrow> validation \<Rightarrow> validation_result" where
  "recorded_validation b rn attempt v result =
     \<lparr> vr_run_id = rn_run rn, vr_operation_id = bl_name b, vr_attempt = attempt, vr_validator_id = validator_id v,
       vr_model = is_judge v, vr_pass = (result = Passed), vr_feedback = (case result of Passed \<Rightarrow> JUndef | NotPassed f \<Rightarrow> f),
       vr_metadata = validator_metadata v \<rparr>"

fun validate_output :: "block \<Rightarrow> run_site \<Rightarrow> jsval \<Rightarrow> agent_result \<Rightarrow> nat \<Rightarrow> validator list \<Rightarrow> validation act" where
  "validate_output b rn out raw attempt [] = eff_return Passed"
| "validate_output b rn out raw attempt (v # vs) =
     eff_bind (emit_phase b (rn_artifact rn) (ValidatorStarted attempt (validator_id v))) (\<lambda>_.
     eff_bind (run_validator b rn out raw attempt v) (\<lambda>result.
     eff_bind (on_store (sa_record_validation (bl_store b) (recorded_validation b rn attempt v result))) (\<lambda>_.
     eff_bind (emit_phase b (rn_artifact rn) (ValidatorFinished attempt (validator_id v) (result = Passed))) (\<lambda>_.
     if result = Passed then validate_output b rn out raw attempt vs else eff_return result))))"

record attempt_record =
  at_attempt :: nat
  at_ok :: bool
  at_feedback :: jsval

datatype attempt_outcome =
    Accepted jsval agent_result
  | Exhausted jsval jsval "attempt_record list"          \<comment> \<open>last output, feedback, attempts\<close>

definition attempt_once :: "block \<Rightarrow> run_site \<Rightarrow> nat \<Rightarrow> jsval \<Rightarrow> (agent_result \<times> validation) act" where
  "attempt_once b rn attempt feedback =
     eff_bind (emit_phase b (rn_artifact rn) (AttemptStarted attempt)) (\<lambda>_.
     eff_bind (bl_prepare b (rn_input rn) attempt feedback) (\<lambda>prepared.
     eff_bind (eff_lift (validate_prepared_call prepared)) (\<lambda>call.
     eff_bind (generate_once b \<lparr> cl_run = rn_run rn, cl_attempt = attempt, cl_role = GenerateRole, cl_agent = bl_agent b,
       cl_instructions = bl_instructions b, cl_call = call, cl_signal = rn_signal rn, cl_validator = None,
       cl_artifact = rn_artifact rn \<rparr>) (\<lambda>raw.
     eff_bind (validate_output b rn (ag_output raw) raw attempt (bl_validators b)) (\<lambda>result.
     eff_return (raw, result))))))"

text \<open>The loop of \<open>runAttempts\<close>: how many attempts remain, the number of the next, and the variables.\<close>

fun attempt_loop ::
  "block \<Rightarrow> run_site \<Rightarrow> nat \<Rightarrow> nat \<Rightarrow> jsval \<Rightarrow> jsval \<Rightarrow> attempt_record list \<Rightarrow> attempt_outcome act" where
  "attempt_loop b rn 0 attempt feedback last_output attempts = eff_return (Exhausted last_output feedback attempts)"
| "attempt_loop b rn (Suc n) attempt feedback last_output attempts =
     eff_bind (attempt_once b rn attempt feedback) (\<lambda>(raw, result).
       case result of
         Passed \<Rightarrow> eff_return (Accepted (ag_output raw) raw)
       | NotPassed f \<Rightarrow> attempt_loop b rn n (attempt + 1) f (ag_output raw)
           (attempts @ [\<lparr> at_attempt = attempt, at_ok = False, at_feedback = f \<rparr>]))"

definition run_attempts :: "block \<Rightarrow> run_site \<Rightarrow> rat option \<Rightarrow> attempt_outcome act" where
  "run_attempts b rn run_max =
     eff_bind (eff_lift (max_attempts_for b run_max)) (\<lambda>n.
     eff_bind (eff_modify (\<lambda>w. w\<lparr> tw_step_index := 0 \<rparr>)) (\<lambda>_.
     attempt_loop b rn n 1 JUndef JUndef []))"

section \<open>Committing an outcome\<close>

definition rejection_reason :: string where "rejection_reason = ''validation_failed''"

definition attempt_json :: "attempt_record \<Rightarrow> jsval" where
  "attempt_json r = JObj [(''attempt'', JNum (of_nat (at_attempt r))), (''ok'', JBool (at_ok r)), (''feedback'', at_feedback r)]"

definition rejection_details :: "jsval \<Rightarrow> attempt_record list \<Rightarrow> jsval" where
  "rejection_details feedback attempts = JObj [(''feedback'', feedback), (''attempts'', JArr (map attempt_json attempts))]"

definition build_rejection :: "jsval \<Rightarrow> jsval \<Rightarrow> attempt_record list \<Rightarrow> jsval" where
  "build_rejection last_output feedback attempts =
     JObj [(''reason'', JStr rejection_reason), (''output'', last_output), (''details'', rejection_details feedback attempts)]"

text \<open>The arguments of \<open>generateOnArtifact\<close>.\<close>

record generation =
  ge_input :: jsval
  ge_identity :: string
  ge_artifact :: string
  ge_options :: queued_options
  ge_metadata :: jsobj
  ge_started_at :: int

text \<open>\<open>Promise.all\<close> starts every cleanup, one after the other here, and rejects with the first error.\<close>

fun cleanup_all :: "block \<Rightarrow> jsval option \<Rightarrow> string \<Rightarrow> string list \<Rightarrow> unit act" where
  "cleanup_all b input identity [] = eff_return ()"
| "cleanup_all b input identity (k # ks) = (\<lambda>w.
     case ad_cleanup (bl_adapter b) k input identity w of
       (r, w1) \<Rightarrow> (case cleanup_all b input identity ks w1 of (r', w2) \<Rightarrow> (case r of Inl e \<Rightarrow> Inl e | Inr _ \<Rightarrow> r', w2)))"

definition commit_ready :: "block \<Rightarrow> generation \<Rightarrow> string \<Rightarrow> jsval \<Rightarrow> agent_result \<Rightarrow> block_result act" where
  "commit_ready b g run_id out raw =
     eff_bind (ad_commit (bl_adapter b) (ge_artifact g) run_id (ge_input g) (ge_identity g) out raw) (\<lambda>committed.
     eff_bind (now b) (\<lambda>finished_at.
     eff_bind (eff_lift (to_json_value committed)) (\<lambda>json.
     eff_bind (on_store (sa_mark_ready (bl_store b) (ge_artifact g) (key_of b (ge_identity g)) json finished_at)) (\<lambda>gone.
     eff_bind (on_store (sa_finish_run (bl_store b) run_id (ge_metadata g) (ge_started_at g) finished_at)) (\<lambda>_.
     eff_bind (cleanup_all b (Some (ge_input g)) (ge_identity g) gone) (\<lambda>_.
     eff_return (BlockSuccess Generated committed (ge_artifact g) (Some run_id))))))))"

definition commit_rejected ::
  "block \<Rightarrow> generation \<Rightarrow> string \<Rightarrow> jsval \<Rightarrow> jsval \<Rightarrow> attempt_record list \<Rightarrow> block_result act" where
  "commit_rejected b g run_id last_output feedback attempts =
     eff_bind (now b) (\<lambda>finished_at.
     eff_bind (eff_lift (to_json_value (build_rejection last_output feedback attempts))) (\<lambda>rejection.
     eff_bind (on_store (sa_mark_rejected (bl_store b) (ge_artifact g) rejection finished_at)) (\<lambda>_.
     eff_bind (on_store (sa_reject_run (bl_store b) run_id rejection_reason rejection (ge_metadata g) (ge_started_at g) finished_at)) (\<lambda>_.
     eff_return (BlockRejected (ge_artifact g) (Some run_id) rejection_reason last_output (rejection_details feedback attempts))))))"

definition commit_failed :: "block \<Rightarrow> generation \<Rightarrow> string \<Rightarrow> js_error \<Rightarrow> unit act" where
  "commit_failed b g run_id err =
     eff_bind (now b) (\<lambda>finished_at.
     eff_bind (on_store (sa_mark_failed (bl_store b) (ge_artifact g) (serialize_error (bl_error_parts b) err) finished_at)) (\<lambda>_.
     on_store (sa_fail_run (bl_store b) run_id (serialize_error (bl_error_parts b) err) (ge_started_at g) finished_at)))"

text \<open>The commits are returned from the \<open>try\<close> block without \<open>await\<close>: what they throw passes by its \<open>catch\<close>.\<close>

definition generate_on_artifact :: "block \<Rightarrow> generation \<Rightarrow> block_result act" where
  "generate_on_artifact b g =
     eff_bind (on_store (sa_start_run (bl_store b) (ge_artifact g) (bl_name b) (qo_trigger (ge_options g)) (ge_metadata g)
       (ge_started_at g))) (\<lambda>run_id.
     eff_bind
       (eff_catch
         (eff_bind (run_attempts b \<lparr> rn_input = ge_input g, rn_artifact = ge_artifact g, rn_run = run_id,
            rn_signal = qo_signal (ge_options g) \<rparr> (qo_max_attempts (ge_options g))) (\<lambda>generated. eff_return (Inr generated)))
         (\<lambda>err. eff_bind (commit_failed b g run_id err) (\<lambda>_. eff_return (Inl err)))) (\<lambda>generated.
       case generated of
         Inl err \<Rightarrow> eff_throw err
       | Inr (Accepted out raw) \<Rightarrow> commit_ready b g run_id out raw
       | Inr (Exhausted last_output feedback attempts) \<Rightarrow> commit_rejected b g run_id last_output feedback attempts))"

section \<open>The runner\<close>

definition wake_runner :: "nat \<Rightarrow> unit act" where
  "wake_runner delay = eff_modify (\<lambda>w.
     if tw_stopped w then w
     else if tw_timer w \<noteq> None \<and> delay > 0 then w
     else w\<lparr> tw_timer := Some delay \<rparr>)"

definition resolve_completion :: "string \<Rightarrow> js_error + block_result \<Rightarrow> unit act" where
  "resolve_completion k outcome = eff_modify (\<lambda>w.
     case map_of (tw_completions w) k of
       None \<Rightarrow> w
     | Some _ \<Rightarrow> w\<lparr> tw_completions := AList.update k (Some outcome) (tw_completions w) \<rparr>)"

definition expire_completion :: "string \<Rightarrow> unit act" where
  "expire_completion k = eff_modify (\<lambda>w. w\<lparr> tw_completions := AList.delete k (tw_completions w) \<rparr>)"

definition requeue_retryable_artifacts :: "block \<Rightarrow> unit act" where
  "requeue_retryable_artifacts b =
     eff_bind (now b) (\<lambda>started.
     eff_for (\<lambda>n. eff_bind (now b) (\<lambda>time. eff_bind (eff_get tw_active) (\<lambda>active.
       eff_bind (on_store (sa_requeue (bl_store b) (block_of b) n (started - retry_backoff_ms n) time active)) (\<lambda>_.
       eff_return ())))) [0..<MAX_OPERATIONAL_RUNS])"

text \<open>The artifacts a tick takes up: an active one is skipped, though it has been claimed.\<close>

fun take_up :: "artifact list \<Rightarrow> artifact list act" where
  "take_up [] = eff_return []"
| "take_up (a # as) =
     eff_bind (eff_get tw_active) (\<lambda>active.
     if ta_id a \<in> set active then take_up as
     else
       eff_bind (eff_modify (\<lambda>w. w\<lparr> tw_active := active @ [ta_id a] \<rparr>)) (\<lambda>_.
       eff_bind (take_up as) (\<lambda>rest. eff_return (a # rest))))"

text \<open>\<open>runRunnerTick\<close> answers the artifacts whose fulfilment it starts.\<close>

definition run_runner_tick :: "block \<Rightarrow> artifact list act" where
  "run_runner_tick b =
     eff_bind (eff_get tw_stopped) (\<lambda>stopped.
     if stopped then eff_return []
     else
       eff_bind (requeue_retryable_artifacts b) (\<lambda>_.
       eff_bind (eff_get (\<lambda>w. int (bl_parallelism b) - int (length (tw_active w)))) (\<lambda>available.
       if available \<le> 0 then eff_return []
       else
         eff_bind (now b) (\<lambda>time.
         eff_bind (on_store (sa_claim (bl_store b) (block_of b) available time)) (\<lambda>claimed.
         take_up claimed)))))"

definition no_options :: queued_options where
  "no_options = \<lparr> qo_trigger = None, qo_metadata = [], qo_max_attempts = None, qo_signal = None \<rparr>"

definition queued_options_of :: "string \<Rightarrow> queued_options act" where
  "queued_options_of k = eff_get (\<lambda>w. case map_of (tw_options w) k of None \<Rightarrow> no_options | Some o1 \<Rightarrow> o1)"

definition run_metadata :: "block \<Rightarrow> jsval \<Rightarrow> string \<Rightarrow> queued_options \<Rightarrow> jsobj" where
  "run_metadata b input identity o1 =
     merge_entries [(''identity'', JStr identity), (''blockVersion'', JStr (bl_version b))]
       (merge_entries (qo_metadata o1) (bl_metadata b input))"

definition forget_queued :: "string \<Rightarrow> unit act" where
  "forget_queued k = eff_modify (\<lambda>w.
     w\<lparr> tw_options := AList.delete k (tw_options w), tw_inputs := AList.delete k (tw_inputs w) \<rparr>)"

text \<open>The \<open>catch\<close> of \<open>fulfillClaimedArtifact\<close>.\<close>

definition fulfill_failed :: "block \<Rightarrow> string \<Rightarrow> js_error \<Rightarrow> unit act" where
  "fulfill_failed b k err =
     eff_bind (on_store (sa_count_runs (bl_store b) k)) (\<lambda>runs.
     if runs \<ge> MAX_OPERATIONAL_RUNS then resolve_completion k (Inl err) else eff_return ())"

definition finally_do :: "unit act \<Rightarrow> 'a act \<Rightarrow> 'a act" where
  "finally_do after m = (\<lambda>w. case m w of (r, w1) \<Rightarrow> (case after w1 of (Inl e, w2) \<Rightarrow> (Inl e, w2) | (Inr _, w2) \<Rightarrow> (r, w2)))"

definition fulfill_input :: "block \<Rightarrow> artifact \<Rightarrow> (jsval \<times> string) act" where
  "fulfill_input b a =
     eff_bind (eff_get (\<lambda>w. map_of (tw_inputs w) (ta_id a))) (\<lambda>queued.
       case queued of
         Some (input, identity) \<Rightarrow> eff_return (input, identity)
       | None \<Rightarrow> eff_bind (eff_lift (parse_input b (ta_input a))) (\<lambda>input. eff_return (input, ta_identity a)))"

definition fulfill_claimed_artifact :: "block \<Rightarrow> artifact \<Rightarrow> unit act" where
  "fulfill_claimed_artifact b a =
     eff_bind (fulfill_input b a) (\<lambda>(input, identity).
     eff_bind (queued_options_of (ta_id a)) (\<lambda>o1.
     eff_bind (now b) (\<lambda>started_at.
     finally_do (forget_queued (ta_id a))
       (eff_catch
         (eff_bind (generate_on_artifact b \<lparr> ge_input = input, ge_identity = identity, ge_artifact = ta_id a, ge_options = o1,
            ge_metadata = run_metadata b input identity o1, ge_started_at = started_at \<rparr>) (\<lambda>result.
          resolve_completion (ta_id a) (Inr result)))
         (fulfill_failed b (ta_id a))))))"

text \<open>What a tick has started, with the \<open>finally\<close> it attaches. A rejection of it is nobody's.\<close>

definition fulfill :: "block \<Rightarrow> artifact \<Rightarrow> unit act" where
  "fulfill b a =
     finally_do (eff_bind (eff_modify (\<lambda>w. w\<lparr> tw_active := removeAll (ta_id a) (tw_active w) \<rparr>)) (\<lambda>_. wake_runner 0))
       (fulfill_claimed_artifact b a)"

section \<open>Callers\<close>

datatype lookup_mode = WaitMode | CacheMode | BackgroundMode

record lookup =
  lk_status :: "artifact_status option"
  lk_data :: "jsval option"
  lk_error :: "jsobj option"
  lk_artifact :: "string option"

definition select_queued_abort_signal :: "string list \<Rightarrow> string option \<Rightarrow> string option \<Rightarrow> string option" where
  "select_queued_abort_signal aborted existing incoming =
     (case incoming of
        Some i \<Rightarrow> if i \<notin> set aborted then Some i
          else (case existing of Some e \<Rightarrow> if e \<notin> set aborted then Some e else Some i | None \<Rightarrow> Some i)
      | None \<Rightarrow> existing)"

definition merged_options :: "string list \<Rightarrow> queued_options option \<Rightarrow> queued_options \<Rightarrow> queued_options" where
  "merged_options aborted existing new =
     (let old = (case existing of None \<Rightarrow> no_options | Some o1 \<Rightarrow> o1)
      in \<lparr> qo_trigger = or_else (qo_trigger old) (qo_trigger new),
           qo_metadata = merge_entries (qo_metadata new) (qo_metadata old),
           qo_max_attempts = or_else (qo_max_attempts new) (qo_max_attempts old),
           qo_signal = select_queued_abort_signal aborted (qo_signal old) (qo_signal new) \<rparr>)"

definition remember_run_options :: "string \<Rightarrow> queued_options \<Rightarrow> unit act" where
  "remember_run_options k o1 = eff_modify (\<lambda>w.
     w\<lparr> tw_options := AList.update k (merged_options (tw_aborted w) (map_of (tw_options w) k) o1) (tw_options w) \<rparr>)"

definition remember_artifact_input :: "string \<Rightarrow> jsval \<Rightarrow> string \<Rightarrow> unit act" where
  "remember_artifact_input k input identity = eff_modify (\<lambda>w.
     w\<lparr> tw_inputs := AList.update k (input, identity) (tw_inputs w) \<rparr>)"

definition create_artifact :: "block \<Rightarrow> jsval \<Rightarrow> string \<Rightarrow> artifact act" where
  "create_artifact b input identity =
     eff_bind (eff_lift (to_json_value input)) (\<lambda>json.
     eff_bind (now b) (\<lambda>time.
     on_store (sa_create (bl_store b) (key_of b identity) json time)))"

definition read_artifact_result :: "block \<Rightarrow> jsval \<Rightarrow> string \<Rightarrow> artifact \<Rightarrow> result_source \<Rightarrow> block_result option act" where
  "read_artifact_result b input identity a source =
     eff_bind (ad_read (bl_adapter b) a input identity) (\<lambda>out.
     eff_return (map_option (\<lambda>v. BlockSuccess source v (ta_id a) None) out))"

definition is_retryable_failed :: "block \<Rightarrow> artifact \<Rightarrow> bool act" where
  "is_retryable_failed b a =
     (if ta_status a \<noteq> ArtifactFailed then eff_return False
      else eff_bind (on_store (sa_count_runs (bl_store b) (ta_id a))) (\<lambda>runs. eff_return (runs < MAX_OPERATIONAL_RUNS)))"

definition project_lookup :: "block \<Rightarrow> jsval \<Rightarrow> string \<Rightarrow> artifact \<Rightarrow> lookup act" where
  "project_lookup b input identity a =
     eff_bind (if ta_status a = ArtifactReady then read_artifact_result b input identity a Cached else eff_return None) (\<lambda>ready.
     eff_return \<lparr> lk_status = Some (ta_status a),
       lk_data = (case ready of Some (BlockSuccess src v k r) \<Rightarrow> Some v | _ \<Rightarrow> None),
       lk_error = ta_error a, lk_artifact = Some (ta_id a) \<rparr>)"

definition no_lookup :: lookup where
  "no_lookup = \<lparr> lk_status = None, lk_data = None, lk_error = None, lk_artifact = None \<rparr>"

definition lookup_latest :: "block \<Rightarrow> jsval \<Rightarrow> string \<Rightarrow> lookup act" where
  "lookup_latest b input identity =
     eff_bind (on_store (sa_find_latest (bl_store b) (key_of b identity))) (\<lambda>latest.
       case latest of None \<Rightarrow> eff_return no_lookup | Some a \<Rightarrow> project_lookup b input identity a)"

definition background_artifact_status :: "block \<Rightarrow> artifact \<Rightarrow> artifact act" where
  "background_artifact_status b a =
     eff_bind (is_retryable_failed b a) (\<lambda>retryable.
     eff_return (if retryable then a\<lparr> ta_status := ArtifactPending, ta_error := None \<rparr> else a))"

definition queue_artifact :: "string \<Rightarrow> jsval \<Rightarrow> string \<Rightarrow> queued_options \<Rightarrow> unit act" where
  "queue_artifact k input identity o1 =
     eff_bind (remember_artifact_input k input identity) (\<lambda>_. remember_run_options k o1)"

definition lookup_or_queue_background :: "block \<Rightarrow> jsval \<Rightarrow> string \<Rightarrow> queued_options \<Rightarrow> lookup act" where
  "lookup_or_queue_background b input identity o1 =
     eff_bind (on_store (sa_find_latest (bl_store b) (key_of b identity))) (\<lambda>latest.
       case latest of
         Some found \<Rightarrow>
           eff_bind (queue_artifact (ta_id found) input identity o1) (\<lambda>_.
           eff_bind (background_artifact_status b found) (\<lambda>a.
           eff_bind (if ta_status a = ArtifactPending \<or> ta_status a = ArtifactRunning then wake_runner 0 else eff_return ()) (\<lambda>_.
           project_lookup b input identity a)))
       | None \<Rightarrow>
           eff_bind (create_artifact b input identity) (\<lambda>a.
           eff_bind (queue_artifact (ta_id a) input identity o1) (\<lambda>_.
           eff_bind (wake_runner 0) (\<lambda>_.
           project_lookup b input identity a))))"

section \<open>Waiting for an outcome\<close>

definition throw_if_aborted :: "string option \<Rightarrow> unit act" where
  "throw_if_aborted signal = eff_bind (eff_get tw_aborted) (\<lambda>aborted.
     case signal of
       Some k \<Rightarrow> if k \<in> set aborted then eff_throw (PlainError ''aborted'') else eff_return ()
     | None \<Rightarrow> eff_return ())"

definition completion_for :: "string \<Rightarrow> unit act" where
  "completion_for k = eff_modify (\<lambda>w.
     case map_of (tw_completions w) k of
       Some _ \<Rightarrow> w
     | None \<Rightarrow> w\<lparr> tw_completions := AList.update k None (tw_completions w) \<rparr>)"

definition settled_outcome :: "string \<Rightarrow> (js_error + block_result) option act" where
  "settled_outcome k = eff_get (\<lambda>w. case map_of (tw_completions w) k of Some (Some outcome) \<Rightarrow> Some outcome | _ \<Rightarrow> None)"

definition awaited :: "(js_error + block_result) option \<Rightarrow> block_result option act" where
  "awaited outcome = (case outcome of
     None \<Rightarrow> eff_return None | Some (Inl e) \<Rightarrow> eff_throw e | Some (Inr r) \<Rightarrow> eff_return (Some r))"

text \<open>\<open>grace\<close> is what other code does in the time given to a completion that has not settled.\<close>

definition local_terminal_completion :: "unit act \<Rightarrow> string \<Rightarrow> block_result option act" where
  "local_terminal_completion grace k =
     eff_bind (eff_get (\<lambda>w. map_of (tw_completions w) k)) (\<lambda>found.
       case found of
         None \<Rightarrow> eff_return None
       | Some (Some outcome) \<Rightarrow> awaited (Some outcome)
       | Some None \<Rightarrow> eff_bind grace (\<lambda>_. eff_bind (settled_outcome k) awaited))"

definition read_rejection_record :: "jsval \<Rightarrow> string \<times> jsval \<times> jsval" where
  "read_rejection_record v =
     (if is_object v then
        (case get_prop v ''reason'' of JStr t \<Rightarrow> t | _ \<Rightarrow> ''validation_failed'', get_prop v ''output'', get_prop v ''details'')
      else (''validation_failed'', JUndef, JUndef))"

definition rejected_artifact_result :: "artifact \<Rightarrow> block_result" where
  "rejected_artifact_result a = (case read_rejection_record (ta_rejection a) of
     (reason, out, details) \<Rightarrow> BlockRejected (ta_id a) None reason out details)"

definition failed_artifact_error :: "artifact \<Rightarrow> js_error" where
  "failed_artifact_error a =
     (case Option.bind (ta_error a) (\<lambda>es. map_of es ''message'') of
        Some (JStr t) \<Rightarrow> PlainError t
      | _ \<Rightarrow> PlainError (''thinking block artifact '' @ ta_id a @ '' failed''))"

definition stored_terminal_result :: "block \<Rightarrow> jsval \<Rightarrow> string \<Rightarrow> artifact \<Rightarrow> block_result option act" where
  "stored_terminal_result b input identity a =
     (case ta_status a of
        ArtifactReady \<Rightarrow>
          eff_bind (read_artifact_result b input identity a Generated) (\<lambda>result.
            if result = None
            then eff_throw (PlainError (''thinking block artifact '' @ ta_id a @ '' is ready but could not be read''))
            else eff_return result)
      | ArtifactRejected \<Rightarrow> eff_return (Some (rejected_artifact_result a))
      | ArtifactFailed \<Rightarrow>
          eff_bind (is_retryable_failed b a) (\<lambda>retryable.
            if retryable then eff_return None else eff_throw (failed_artifact_error a))
      | ArtifactSuperseded \<Rightarrow> eff_throw (PlainError (''thinking block artifact '' @ ta_id a @ '' was superseded''))
      | _ \<Rightarrow> eff_return None)"

definition result_for_terminal_artifact :: "block \<Rightarrow> unit act \<Rightarrow> jsval \<Rightarrow> string \<Rightarrow> artifact \<Rightarrow> block_result option act" where
  "result_for_terminal_artifact b grace input identity a =
     eff_bind (if ta_status a \<in> {ArtifactReady, ArtifactRejected} then local_terminal_completion grace (ta_id a) else eff_return None)
       (\<lambda>local. if local \<noteq> None then eff_return local else stored_terminal_result b input identity a)"

text \<open>One turn of \<open>waitForTerminalArtifact\<close>, and the loop, which may run for ever: \<open>None\<close> when it is still
  waiting after the given number of turns. \<open>others\<close> is what happens during a sleep.\<close>

definition wait_turn :: "block \<Rightarrow> unit act \<Rightarrow> unit act \<Rightarrow> jsval \<Rightarrow> string \<Rightarrow> string \<Rightarrow> string option \<Rightarrow> block_result option act" where
  "wait_turn b grace others input identity k signal =
     eff_bind (throw_if_aborted signal) (\<lambda>_.
     eff_bind (on_store (sa_find_by_id (bl_store b) k)) (\<lambda>found.
       case found of
         None \<Rightarrow> eff_throw (PlainError (''unknown thinking block artifact: '' @ k))
       | Some a \<Rightarrow>
           eff_bind (result_for_terminal_artifact b grace input identity a) (\<lambda>terminal.
           if terminal \<noteq> None then eff_return terminal
           else
             eff_bind (wake_runner 0) (\<lambda>_.
             eff_bind others (\<lambda>_.
             eff_bind (settled_outcome k) (\<lambda>outcome.
             if outcome \<noteq> None then awaited outcome
             else eff_bind (throw_if_aborted signal) (\<lambda>_. eff_return None)))))))"

fun wait_loop ::
  "block \<Rightarrow> unit act \<Rightarrow> (nat \<Rightarrow> unit act) \<Rightarrow> jsval \<Rightarrow> string \<Rightarrow> string \<Rightarrow> string option \<Rightarrow> nat \<Rightarrow> block_result option act" where
  "wait_loop b grace others input identity k signal 0 = eff_return None"
| "wait_loop b grace others input identity k signal (Suc n) =
     eff_bind (wait_turn b grace (others n) input identity k signal) (\<lambda>result.
     if result \<noteq> None then eff_return result else wait_loop b grace others input identity k signal n)"

definition drop_unsettled :: "string \<Rightarrow> tb_world \<Rightarrow> tb_world" where
  "drop_unsettled k w =
     (case map_of (tw_completions w) k of
        Some None \<Rightarrow> w\<lparr> tw_completions := AList.delete k (tw_completions w) \<rparr>
      | _ \<Rightarrow> w)"

definition wait_for_terminal_artifact ::
  "block \<Rightarrow> unit act \<Rightarrow> (nat \<Rightarrow> unit act) \<Rightarrow> nat \<Rightarrow> jsval \<Rightarrow> string \<Rightarrow> string \<Rightarrow> string option \<Rightarrow> block_result option act" where
  "wait_for_terminal_artifact b grace others turns input identity k signal =
     eff_bind (completion_for k) (\<lambda>_ w.
       case wait_loop b grace others input identity k signal turns w of
         (Inr None, w1) \<Rightarrow> (Inr None, w1)
       | (r, w1) \<Rightarrow> (r, drop_unsettled k w1))"

section \<open>The methods\<close>

text \<open>How a waiting caller is scheduled.\<close>

record schedule =
  sh_grace :: "unit act"
  sh_others :: "nat \<Rightarrow> unit act"
  sh_turns :: nat

definition await_artifact :: "block \<Rightarrow> schedule \<Rightarrow> jsval \<Rightarrow> string \<Rightarrow> queued_options \<Rightarrow> string \<Rightarrow> block_result option act" where
  "await_artifact b sh input identity o1 k =
     eff_bind (queue_artifact k input identity o1) (\<lambda>_.
     eff_bind (wake_runner 0) (\<lambda>_.
     wait_for_terminal_artifact b (sh_grace sh) (sh_others sh) (sh_turns sh) input identity k (qo_signal o1)))"

definition get_and_wait :: "block \<Rightarrow> schedule \<Rightarrow> jsval \<Rightarrow> string \<Rightarrow> queued_options \<Rightarrow> block_result option act" where
  "get_and_wait b sh input identity o1 =
     eff_bind (on_store (sa_find_active (bl_store b) (key_of b identity))) (\<lambda>active.
     eff_bind (case active of None \<Rightarrow> eff_return None | Some a \<Rightarrow> read_artifact_result b input identity a Cached) (\<lambda>cached.
     if cached \<noteq> None then eff_return cached
     else
       eff_bind (on_store (sa_find_latest (bl_store b) (key_of b identity))) (\<lambda>latest.
       eff_bind (case latest of
           Some a \<Rightarrow> if ta_status a \<noteq> ArtifactReady then eff_return a else create_artifact b input identity
         | None \<Rightarrow> create_artifact b input identity) (\<lambda>queued.
       await_artifact b sh input identity o1 (ta_id queued)))))"

datatype answer_of_get = Result "block_result option" | Lookup lookup

definition get_artifact :: "block \<Rightarrow> schedule \<Rightarrow> lookup_mode \<Rightarrow> queued_options \<Rightarrow> jsval \<Rightarrow> answer_of_get act" where
  "get_artifact b sh mode o1 raw =
     eff_bind (eff_lift (parse_input b raw)) (\<lambda>input.
     eff_bind (eff_lift (resolve_identity b input)) (\<lambda>identity.
       case mode of
         CacheMode \<Rightarrow> eff_bind (lookup_latest b input identity) (\<lambda>l. eff_return (Lookup l))
       | BackgroundMode \<Rightarrow> eff_bind (lookup_or_queue_background b input identity o1) (\<lambda>l. eff_return (Lookup l))
       | WaitMode \<Rightarrow> eff_bind (get_and_wait b sh input identity o1) (\<lambda>r. eff_return (Result r))))"

text \<open>\<open>getMany\<close>: one \<open>get\<close> per identity, whose outcome the equal ones share. The gets run one after the other.\<close>

fun get_shared ::
  "block \<Rightarrow> schedule \<Rightarrow> lookup_mode \<Rightarrow> queued_options \<Rightarrow> (string \<times> answer_of_get) list \<Rightarrow> jsval list \<Rightarrow> answer_of_get list act" where
  "get_shared b sh mode o1 shared [] = eff_return []"
| "get_shared b sh mode o1 shared (raw # raws) =
     eff_bind (eff_lift (parse_input b raw)) (\<lambda>input.
     eff_bind (eff_lift (resolve_identity b input)) (\<lambda>identity.
     eff_bind (case map_of shared identity of
         Some r \<Rightarrow> eff_return r | None \<Rightarrow> get_artifact b sh mode o1 input) (\<lambda>r.
     eff_bind (get_shared b sh mode o1 ((identity, r) # shared) raws) (\<lambda>rs. eff_return (r # rs)))))"

definition get_many :: "block \<Rightarrow> schedule \<Rightarrow> lookup_mode \<Rightarrow> queued_options \<Rightarrow> jsval list \<Rightarrow> answer_of_get list act" where
  "get_many b sh mode o1 raws = get_shared b sh mode o1 [] raws"

definition generate_anew :: "block \<Rightarrow> schedule \<Rightarrow> queued_options \<Rightarrow> jsval \<Rightarrow> block_result option act" where
  "generate_anew b sh o1 raw =
     eff_bind (eff_lift (parse_input b raw)) (\<lambda>input.
     eff_bind (eff_lift (resolve_identity b input)) (\<lambda>identity.
     eff_bind (on_store (sa_find_latest (bl_store b) (key_of b identity))) (\<lambda>latest.
     eff_bind (case latest of
         None \<Rightarrow> create_artifact b input identity
       | Some a \<Rightarrow>
           if ta_status a = ArtifactPending \<or> ta_status a = ArtifactRunning then eff_return a
           else
             eff_bind (is_retryable_failed b a) (\<lambda>retryable.
             if retryable then eff_return a else create_artifact b input identity)) (\<lambda>queued.
     await_artifact b sh input identity o1 (ta_id queued)))))"

definition dump :: "block \<Rightarrow> string \<Rightarrow> unit act" where
  "dump b identity =
     eff_bind (eff_lift (normalize_identity (bl_name b) identity)) (\<lambda>normalized.
     eff_bind (now b) (\<lambda>time.
     eff_bind (on_store (sa_dump (bl_store b) (key_of b normalized) time)) (\<lambda>dumped.
     cleanup_all b None normalized (map ta_id dumped))))"

definition audit :: "block \<Rightarrow> string \<Rightarrow> artifact list act" where
  "audit b identity =
     eff_bind (eff_lift (normalize_identity (bl_name b) identity)) (\<lambda>normalized.
     on_store (sa_list (bl_store b) (key_of b normalized)))"

section \<open>The registry of runners\<close>

text \<open>The blocks of the process by their registry key, and those that have been stopped. A new instance stops the one
  registered before it.\<close>

record registry =
  rg_running :: "(string \<times> nat) list"
  rg_stopped :: "nat list"

definition registry_key :: "block \<Rightarrow> string" where
  "registry_key b = bl_name b @ '':'' @ bl_version b"

definition stop_block :: "string \<Rightarrow> nat \<Rightarrow> registry \<Rightarrow> registry" where
  "stop_block k instance_id r =
     r\<lparr> rg_stopped := instance_id # rg_stopped r,
        rg_running := (if map_of (rg_running r) k = Some instance_id then AList.delete k (rg_running r) else rg_running r) \<rparr>"

definition replace_registered_runner :: "string \<Rightarrow> nat \<Rightarrow> registry \<Rightarrow> registry" where
  "replace_registered_runner k instance_id r =
     (let r1 = (case map_of (rg_running r) k of
            Some previous \<Rightarrow> if previous \<noteq> instance_id then stop_block k previous r else r
          | None \<Rightarrow> r)
      in r1\<lparr> rg_running := AList.update k instance_id (rg_running r1) \<rparr>)"

end
