(* ===== verification/ThinkingStoreProps.thy ===== *)
theory ThinkingStoreProps
  imports ThinkingStore
begin

text \<open>
  The two stores of thinking blocks against each other, and the contract of \<open>ThinkingBlockStore\<close> that both
  keep: a locale over the operations, interpreted on each.
\<close>

section \<open>Rows\<close>

lemma same_id_same_row:
  fixes xs :: "artifact list"
  shows "distinct (map ta_id xs) \<Longrightarrow> a \<in> set xs \<Longrightarrow> b \<in> set xs \<Longrightarrow> ta_id a = ta_id b \<Longrightarrow> a = b"
  by (auto simp: distinct_map dest: inj_onD)

lemma ids_of_subset:
  fixes xs ys :: "artifact list"
  assumes "distinct (map ta_id xs)" "set ys \<subseteq> set xs" "a \<in> set xs"
  shows "ta_id a \<in> ta_id ` set ys \<longleftrightarrow> a \<in> set ys"
proof
  assume "ta_id a \<in> ta_id ` set ys"
  then obtain b where b: "b \<in> set ys" "ta_id a = ta_id b" by auto
  then have "a = b" using assms by (intro same_id_same_row [of xs]) auto
  with b(1) show "a \<in> set ys" by simp
qed simp

lemma updates_keep_id [simp]:
  "ta_id (as_running t a) = ta_id a" "ta_id (as_requeued t a) = ta_id a" "ta_id (as_superseded k t a) = ta_id a"
  "ta_id (as_ready r t a) = ta_id a" "ta_id (as_rejected r t a) = ta_id a" "ta_id (as_failed e t a) = ta_id a"
  "ta_id (as_phase p l t a) = ta_id a"
  by (simp_all add: as_running_def as_requeued_def as_superseded_def as_ready_def as_rejected_def as_failed_def as_phase_def)

lemma updates_keep_key [simp]:
  "artifact_key (as_running t a) = artifact_key a" "artifact_key (as_requeued t a) = artifact_key a"
  "artifact_key (as_superseded k t a) = artifact_key a" "artifact_key (as_ready r t a) = artifact_key a"
  "artifact_key (as_rejected r t a) = artifact_key a" "artifact_key (as_failed e t a) = artifact_key a"
  "artifact_key (as_phase p l t a) = artifact_key a"
  by (simp_all add: artifact_key_def as_running_def as_requeued_def as_superseded_def as_ready_def as_rejected_def
      as_failed_def as_phase_def)

lemma updates_set_status [simp]:
  "ta_status (as_running t a) = ArtifactRunning" "ta_status (as_requeued t a) = ArtifactPending"
  "ta_status (as_superseded k t a) = ArtifactSuperseded" "ta_status (as_ready r t a) = ArtifactReady"
  "ta_status (as_rejected r t a) = ArtifactRejected" "ta_status (as_failed e t a) = ArtifactFailed"
  "ta_status (as_phase p l t a) = ta_status a"
  by (simp_all add: as_running_def as_requeued_def as_superseded_def as_ready_def as_rejected_def as_failed_def as_phase_def)

lemma set_artifacts_fields [simp]:
  "ts_artifacts (set_artifacts P f s) = map (\<lambda>a. if P a then f a else a) (ts_artifacts s)"
  "ts_runs (set_artifacts P f s) = ts_runs s"
  by (simp_all add: set_artifacts_def)

lemma set_run_fields [simp]:
  "ts_artifacts (set_run k f s) = ts_artifacts s"
  "ts_runs (set_run k f s) = map (\<lambda>r. if tr_id r = k then f r else r) (ts_runs s)"
  by (simp_all add: set_run_def)

lemma queue_order_set [simp]: "set (queue_order xs) = set xs"
  by (simp add: queue_order_def)

lemma queue_order_distinct [simp]: "distinct (map ta_id (queue_order xs)) = distinct (map ta_id xs)"
  by (simp add: queue_order_def distinct_map distinct_sort)

lemma find_first_row: "find P xs = first_row (filter P xs)"
  by (induction xs) (auto simp: first_row_def)

lemma find_artifact_Some: "find_artifact k s = Some a \<Longrightarrow> a \<in> set (ts_artifacts s) \<and> ta_id a = k"
  by (auto simp: find_artifact_def find_Some_iff)

lemma find_artifact_None: "find_artifact k s = None \<longleftrightarrow> k \<notin> ta_id ` set (ts_artifacts s)"
  by (auto simp: find_artifact_def find_None_iff)

lemma json_copy_json: "is_json v \<Longrightarrow> json_copy v = v"
proof (induction v rule: jsval_induct)
  case (Arr xs)
  then have "map (\<lambda>x. case json_copy x of JUndef \<Rightarrow> JNull | v \<Rightarrow> v) xs = xs"
    by (intro map_idI) (auto split: jsval.split)
  then show ?case by simp
next
  case (Obj es)
  then have "map (\<lambda>(k, v). (k, json_copy v)) es = es" by (intro map_idI) auto
  moreover have "filter (\<lambda>(k, v). v \<noteq> JUndef) es = es" using Obj.prems by (intro filter_True) auto
  ultimately show ?case by simp
qed auto

lemma to_json_value_json: "is_json v \<Longrightarrow> to_json_value v = Inr v"
  using json_copy_json [of v] by (auto simp: to_json_value_def split: jsval.split)

section \<open>The same calls on both stores\<close>

datatype store_call =
    CreateArtifact block_key jsval int
  | FindArtifactById string
  | FindActiveArtifact block_key
  | FindLatestArtifact block_key
  | FindArtifactStatus block_key
  | ClaimPending "string \<times> string" int int
  | RequeueRetryable "string \<times> string" nat int int "string list"
  | CountRuns string
  | MarkReady string block_key jsval int
  | MarkRejected string jsval int
  | MarkFailed string jsobj int
  | UpdatePhase string string string int
  | DumpArtifacts block_key int
  | ListArtifacts block_key
  | StartRun string string "string option" jsobj int
  | FinishRun string jsobj int int
  | RejectRun string string jsval jsobj int int
  | FailRun string jsobj int int

datatype store_answer =
    Artifacts "artifact list"
  | ArtifactSet "artifact set"
  | Status "artifact_status option"
  | Count nat
  | Ids "string list"
  | Void

definition answer :: "('a \<Rightarrow> store_answer) \<Rightarrow> 'a tb \<Rightarrow> store_answer tb" where
  "answer f m = eff_bind m (\<lambda>x. eff_return (f x))"

definition maybe_artifact :: "artifact option \<Rightarrow> store_answer" where
  "maybe_artifact found = Artifacts (case found of None \<Rightarrow> [] | Some a \<Rightarrow> [a])"

text \<open>The order in which the claim and the dump list their rows is left open.\<close>

fun run_call :: "store_api \<Rightarrow> store_call \<Rightarrow> store_answer tb" where
  "run_call api (CreateArtifact key input t) = answer (\<lambda>a. Artifacts [a]) (sa_create api key input t)"
| "run_call api (FindArtifactById k) = answer maybe_artifact (sa_find_by_id api k)"
| "run_call api (FindActiveArtifact key) = answer maybe_artifact (sa_find_active api key)"
| "run_call api (FindLatestArtifact key) = answer maybe_artifact (sa_find_latest api key)"
| "run_call api (FindArtifactStatus key) = answer Status (sa_find_status api key)"
| "run_call api (ClaimPending block limit t) = answer (\<lambda>xs. ArtifactSet (set xs)) (sa_claim api block limit t)"
| "run_call api (RequeueRetryable block n before t excluded) = answer Count (sa_requeue api block n before t excluded)"
| "run_call api (CountRuns k) = answer Count (sa_count_runs api k)"
| "run_call api (MarkReady k key out t) = answer Ids (sa_mark_ready api k key out t)"
| "run_call api (MarkRejected k rejection t) = answer (\<lambda>_. Void) (sa_mark_rejected api k rejection t)"
| "run_call api (MarkFailed k err t) = answer (\<lambda>_. Void) (sa_mark_failed api k err t)"
| "run_call api (UpdatePhase k phase label t) = answer (\<lambda>_. Void) (sa_update_phase api k phase label t)"
| "run_call api (DumpArtifacts key t) = answer (\<lambda>xs. ArtifactSet (set xs)) (sa_dump api key t)"
| "run_call api (ListArtifacts key) = answer Artifacts (sa_list api key)"
| "run_call api (StartRun k block trigger metadata t) = answer (\<lambda>r. Ids [r]) (sa_start_run api k block trigger metadata t)"
| "run_call api (FinishRun r metadata t t') = answer (\<lambda>_. Void) (sa_finish_run api r metadata t t')"
| "run_call api (RejectRun r reason rejection metadata t t') = answer (\<lambda>_. Void) (sa_reject_run api r reason rejection metadata t t')"
| "run_call api (FailRun r err t t') = answer (\<lambda>_. Void) (sa_fail_run api r err t t')"

text \<open>The calls the block makes: rows it was given, and JSON values. A ready artifact has its own key.\<close>

fun call_ok :: "store_call \<Rightarrow> tb_store \<Rightarrow> bool" where
  "call_ok (CreateArtifact key input t) s = is_json input"
| "call_ok (MarkReady k key out t) s = (is_json out \<and> map_option artifact_key (find_artifact k s) = Some key)"
| "call_ok (MarkRejected k rejection t) s = (is_json rejection \<and> find_artifact k s \<noteq> None)"
| "call_ok (MarkFailed k err t) s = (find_artifact k s \<noteq> None)"
| "call_ok (UpdatePhase k phase label t) s = (find_artifact k s \<noteq> None)"
| "call_ok (StartRun k block trigger metadata t) s = (find_artifact k s \<noteq> None)"
| "call_ok (FinishRun r metadata t t') s = (r \<in> tr_id ` set (ts_runs s))"
| "call_ok (RejectRun r reason rejection metadata t t') s =
     (r \<in> tr_id ` set (ts_runs s) \<and> is_json rejection \<and> (case rejection of JObj es \<Rightarrow> True | _ \<Rightarrow> False))"
| "call_ok (FailRun r err t t') s = (r \<in> tr_id ` set (ts_runs s))"
| "call_ok _ s = True"

text \<open>What the two stores share of a run, and of the store.\<close>

definition run_view :: "block_run \<Rightarrow> block_run" where
  "run_view r = r\<lparr> tr_metadata := [], tr_finish := None, tr_duration := None \<rparr>"

definition store_view :: "tb_store \<Rightarrow> artifact list \<times> block_run list" where
  "store_view s = (ts_artifacts s, map run_view (ts_runs s))"

lemma run_view_fields [simp]: "tr_id (run_view r) = tr_id r" "tr_artifact_id (run_view r) = tr_artifact_id r"
  by (simp_all add: run_view_def)

lemma run_view_eq:
  "run_view x = run_view y \<longleftrightarrow> tr_id x = tr_id y \<and> tr_artifact_id x = tr_artifact_id y \<and> tr_block x = tr_block y \<and>
     tr_trigger x = tr_trigger y \<and> tr_started_at x = tr_started_at y \<and> tr_status x = tr_status y \<and>
     tr_finished_at x = tr_finished_at y \<and> tr_error x = tr_error y \<and> tr_reason x = tr_reason y \<and> tr_rejection x = tr_rejection y"
  by (cases x; cases y) (simp add: run_view_def)

lemma view_runs:
  assumes "store_view s = store_view t"
  shows "ts_artifacts s = ts_artifacts t" "map run_view (ts_runs s) = map run_view (ts_runs t)"
    "tr_id ` set (ts_runs s) = tr_id ` set (ts_runs t)" "run_count k s = run_count k t"
proof -
  show a: "ts_artifacts s = ts_artifacts t" and r: "map run_view (ts_runs s) = map run_view (ts_runs t)"
    using assms by (simp_all add: store_view_def)
  have "set (map (tr_id \<circ> run_view) (ts_runs s)) = set (map (tr_id \<circ> run_view) (ts_runs t))"
    using r by (simp flip: map_map)
  then show "tr_id ` set (ts_runs s) = tr_id ` set (ts_runs t)" by (simp add: comp_def)
  have "map tr_artifact_id (map run_view (ts_runs s)) = map tr_artifact_id (map run_view (ts_runs t))" using r by simp
  then have ids: "map tr_artifact_id (ts_runs s) = map tr_artifact_id (ts_runs t)" by (simp add: comp_def)
  have count: "run_count k s = length (filter (\<lambda>x. x = k) (map tr_artifact_id (ts_runs s)))" for s
    by (simp add: run_count_def filter_map comp_def)
  show "run_count k s = run_count k t" by (simp add: count ids)
qed

lemma view_set_run:
  assumes "map run_view rs = map run_view rs'" "\<And>r r'. run_view r = run_view r' \<Longrightarrow> run_view (f r) = run_view (g r')"
  shows "map run_view (map (\<lambda>r. if tr_id r = k then f r else r) rs) = map run_view (map (\<lambda>r. if tr_id r = k then g r else r) rs')"
proof -
  have "list_all2 (\<lambda>r r'. run_view r = run_view r') rs rs'"
    using assms(1) by (simp add: list_all2_conv_all_nth list_eq_iff_nth_eq)
  then show ?thesis
  proof (induction rule: list_all2_induct)
    case (Cons r rs r' rs')
    have "tr_id r = tr_id r'" using arg_cong [OF Cons(1), of tr_id] by simp
    with Cons assms(2) show ?case by simp
  qed simp
qed

definition same_outcome :: "('a \<times> tb_store) \<Rightarrow> ('a \<times> tb_store) \<Rightarrow> bool" where
  "same_outcome x y \<longleftrightarrow> fst x = fst y \<and> store_view (snd x) = store_view (snd y)"

lemma take_queue_subset: "set (take n (pending_queue block xs)) \<subseteq> set xs"
  using set_take_subset [of n "pending_queue block xs"] by (auto simp: pending_queue_def)

lemma mapped_rows:
  "filter (\<lambda>a. ta_id a \<in> K) (map (\<lambda>a. if ta_id a \<in> K then f a else a) xs) = map f (filter (\<lambda>a. ta_id a \<in> K) xs)"
  if "\<And>a. ta_id (f a) = ta_id a"
  using that by (induction xs) auto

lemma claim_agrees:
  assumes "store_view s = store_view t" "distinct (map ta_id (ts_artifacts s))"
  shows "same_outcome (run_call (memory_store new_id) (ClaimPending block limit time) s)
    (run_call (database_store new_id [] []) (ClaimPending block limit time) t)"
proof (cases "limit < 1")
  case True
  with assms(1) show ?thesis
    by (simp add: memory_store_def database_store_def mem_claim_pending_artifacts_def pg_claim_pending_artifacts_def
        answer_def eff_simps same_outcome_def)
next
  case False
  let ?xs = "ts_artifacts t" let ?c = "take (nat limit) (pending_queue block ?xs)"
  have xs: "ts_artifacts s = ?xs" by (rule view_runs(1) [OF assms(1)])
  have dist: "distinct (map ta_id ?xs)" using assms(2) xs by simp
  have "ta_id a \<in> ta_id ` set ?c \<longleftrightarrow> a \<in> set ?c" if "a \<in> set ?xs" for a
    by (rule ids_of_subset [OF dist take_queue_subset that])
  then have "{a \<in> set ?xs. ta_id a \<in> ta_id ` set ?c} = set ?c"
    using take_queue_subset [of "nat limit" block ?xs] by blast
  then have rows: "set (filter (\<lambda>a. ta_id a \<in> ta_id ` set ?c) (map (\<lambda>a. if ta_id a \<in> ta_id ` set ?c then as_running time a else a) ?xs)) =
      as_running time ` set ?c"
    by (subst mapped_rows) auto
  have mem: "run_call (memory_store new_id) (ClaimPending block limit time) s =
      (Inr (ArtifactSet (as_running time ` set ?c)), set_artifacts (\<lambda>a. ta_id a \<in> ta_id ` set ?c) (as_running time) s)"
    using False by (simp add: memory_store_def mem_claim_pending_artifacts_def answer_def eff_simps xs)
  have pg: "run_call (database_store new_id [] []) (ClaimPending block limit time) t =
      (Inr (ArtifactSet (as_running time ` set ?c)), set_artifacts (\<lambda>a. ta_id a \<in> ta_id ` set ?c) (as_running time) t)"
  proof (cases "?c = []")
    case True
    with False show ?thesis
      by (simp add: database_store_def pg_claim_pending_artifacts_def answer_def eff_simps set_artifacts_def)
  next
    case False
    with \<open>\<not> limit < 1\<close> show ?thesis
      using rows by (simp add: database_store_def pg_claim_pending_artifacts_def answer_def eff_simps)
  qed
  show ?thesis
    unfolding same_outcome_def mem pg using assms(1) by (simp add: store_view_def xs)
qed

lemma requeue_agrees:
  assumes "store_view s = store_view t" "distinct (map ta_id (ts_artifacts s))"
  shows "same_outcome (run_call (memory_store new_id) (RequeueRetryable block n before time excluded) s)
    (run_call (database_store new_id [] []) (RequeueRetryable block n before time excluded) t)"
proof -
  let ?xs = "ts_artifacts t" let ?f = "filter (requeueable block n before excluded t) ?xs"
  let ?K = "ta_id ` set ?f"
  have xs: "ts_artifacts s = ?xs" by (rule view_runs(1) [OF assms(1)])
  have dist: "distinct (map ta_id ?xs)" using assms(2) xs by simp
  have "requeueable block n before excluded s = requeueable block n before excluded t"
    by (rule ext) (simp add: requeueable_def view_runs(4) [OF assms(1)])
  then have mem: "run_call (memory_store new_id) (RequeueRetryable block n before time excluded) s =
      (Inr (Count (length ?f)), set_artifacts (\<lambda>a. ta_id a \<in> ?K) (as_requeued time) s)"
    by (simp add: memory_store_def mem_requeue_retryable_artifacts_def answer_def eff_simps xs)
  let ?ids = "map ta_id (queue_order (filter (\<lambda>a. of_block block a \<and> ta_status a = ArtifactFailed \<and>
        ta_updated_at a \<le> before \<and> ta_id a \<notin> set excluded \<and> ta_id a \<notin> set []) ?xs))"
  have K: "set (filter (\<lambda>k. run_count k t = n) ?ids) = ?K"
    by (auto simp: requeueable_def)
  have "filter (\<lambda>a. ta_id a \<in> ?K) ?xs = ?f"
    using ids_of_subset [OF dist, of ?f] by (intro filter_cong) auto
  then have len: "length (filter (\<lambda>a. ta_id a \<in> ?K) (map (\<lambda>a. if ta_id a \<in> ?K then as_requeued time a else a) ?xs)) = length ?f"
    by (subst mapped_rows) auto
  have pg: "run_call (database_store new_id [] []) (RequeueRetryable block n before time excluded) t =
      (Inr (Count (length ?f)), set_artifacts (\<lambda>a. ta_id a \<in> ?K) (as_requeued time) t)"
  proof (cases "filter (\<lambda>k. run_count k t = n) ?ids = []")
    case True
    with K have "?f = []" by (metis image_is_empty set_empty)
    with True show ?thesis
      by (simp add: database_store_def pg_requeue_retryable_artifacts_def answer_def eff_simps set_artifacts_def)
  next
    case False
    have "run_call (database_store new_id [] []) (RequeueRetryable block n before time excluded) t =
      (Inr (Count (length (filter (\<lambda>a. ta_id a \<in> set (filter (\<lambda>k. run_count k t = n) ?ids))
          (map (\<lambda>a. if ta_id a \<in> set (filter (\<lambda>k. run_count k t = n) ?ids) then as_requeued time a else a) ?xs)))),
       set_artifacts (\<lambda>a. ta_id a \<in> set (filter (\<lambda>k. run_count k t = n) ?ids)) (as_requeued time) t)"
      using False by (simp add: database_store_def pg_requeue_retryable_artifacts_def answer_def eff_simps del: set_map set_filter)
    then show ?thesis unfolding K len .
  qed
  show ?thesis
    unfolding same_outcome_def mem pg using assms(1) by (simp add: store_view_def xs)
qed

lemma find_mapped:
  assumes "find (\<lambda>a. ta_id a = k) xs = Some a" "\<And>a. ta_id (f a) = ta_id a"
  shows "find (\<lambda>a. ta_id a = k) (map f xs) = Some (f a)"
  using assms(1) by (induction xs) (simp_all add: assms(2) split: if_splits)

definition ready_rows :: "string \<Rightarrow> block_key \<Rightarrow> jsval \<Rightarrow> int \<Rightarrow> artifact list \<Rightarrow> artifact list" where
  "ready_rows k key out time xs =
     map (\<lambda>a. if ta_id a = k then as_ready out time a else a)
       (map (\<lambda>a. if ta_id a \<noteq> k \<and> ready_of key a then as_superseded (Some k) time a else a) xs)"

lemma ready_mem:
  assumes "snd (snd key) \<noteq> []" "find_artifact k s = Some a"
  shows "mem_mark_artifact_ready k key out time s =
    (Inr (map ta_id (filter (\<lambda>a. ta_id a \<noteq> k \<and> ready_of key a) (ts_artifacts s))),
     s\<lparr> ts_artifacts := ready_rows k key out time (ts_artifacts s) \<rparr>)"
proof -
  let ?g = "\<lambda>a. if ta_id a \<noteq> k \<and> ready_of key a then as_superseded (Some k) time a else a"
  have "find (\<lambda>a. ta_id a = k) (map ?g (ts_artifacts s)) = Some (?g a)"
    using assms(2) unfolding find_artifact_def by (rule find_mapped) simp
  with assms(1) show ?thesis
    by (simp add: mem_mark_artifact_ready_def normalized_identity_def eff_simps require_artifact_def find_artifact_def
        set_artifact_def set_artifacts_def ready_rows_def del: map_map)
qed

lemma ready_pg:
  assumes "snd (snd key) \<noteq> []" "find_artifact k s = Some a" "artifact_key a = key"
    and "distinct (map ta_id (ts_artifacts s))" "to_json_value out = Inr out"
  shows "pg_mark_artifact_ready [] k key out time s =
    (Inr (map ta_id (filter (\<lambda>a. ta_id a \<noteq> k \<and> ready_of key a) (ts_artifacts s))),
     s\<lparr> ts_artifacts := ready_rows k key out time (ts_artifacts s) \<rparr>)"
proof -
  let ?xs = "ts_artifacts s"
  let ?g = "\<lambda>a. if ta_id a \<noteq> k \<and> ready_of key a then as_superseded (Some k) time a else a"
  let ?h = "\<lambda>a. if ta_id a = k then as_ready out time a else a"
  let ?gone = "filter (\<lambda>a. ready_of key a \<and> ta_id a \<noteq> k) ?xs"
  have same: "?gone = filter (\<lambda>a. ta_id a \<noteq> k \<and> ready_of key a) ?xs" by (rule filter_cong) auto
  have in_gone: "ta_id b \<in> set (map ta_id ?gone) \<longleftrightarrow> ta_id b \<noteq> k \<and> ready_of key b" if "b \<in> set ?xs" for b
    using ids_of_subset [OF assms(4) _ that, of ?gone] that by (simp add: conj_commute)
  have rows: "map (\<lambda>b. if ta_id b \<in> set (map ta_id ?gone) then as_superseded (Some k) time b else b) ?xs = map ?g ?xs"
  proof (rule map_cong [OF refl])
    fix b assume "b \<in> set ?xs"
    then show "(if ta_id b \<in> set (map ta_id ?gone) then as_superseded (Some k) time b else b) = ?g b"
      by (simp only: in_gone)
  qed
  have found: "find (\<lambda>a. ta_id a = k) (map ?g ?xs) = Some a"
    using find_mapped [of k ?xs a ?g] assms(2) find_artifact_Some [OF assms(2)] by (simp add: find_artifact_def)
  have found': "find (\<lambda>a. ta_id a = k) (map ?h (map ?g ?xs)) = Some (as_ready out time a)"
    using find_mapped [OF found, of ?h] find_artifact_Some [OF assms(2)] by simp
  have free: "\<not> pg_ready_conflict k (s\<lparr> ts_artifacts := map ?h (map ?g ?xs) \<rparr>)"
  proof -
    have "find_artifact k (s\<lparr> ts_artifacts := map ?h (map ?g ?xs) \<rparr>) = Some (as_ready out time a)"
      unfolding find_artifact_def using found' by simp
    moreover have "\<not> (ta_id (?h (?g b)) \<noteq> k \<and> ready_of key (?h (?g b)))" for b
      by (cases "ta_id b = k"; cases "ready_of key b") (simp_all add: ready_of_def)
    then have "\<not> list_ex (\<lambda>b. ta_id b \<noteq> k \<and> ready_of key b) (map ?h (map ?g ?xs))"
      unfolding list_ex_iff set_map by blast
    ultimately show ?thesis by (simp add: pg_ready_conflict_def assms(3) del: map_map)
  qed
  have "pg_mark_artifact_ready [] k key out time s = (Inr (map ta_id ?gone), s\<lparr> ts_artifacts := map ?h (map ?g ?xs) \<rparr>)"
    using assms(1) free
    by (simp add: pg_mark_artifact_ready_def normalized_identity_def eff_bind_run eff_tx_run eff_run rows find_artifact_def found
        assms(5) set_artifact_def set_artifacts_def del: map_map set_map set_filter)
  then show ?thesis by (simp only: same ready_rows_def)
qed

lemma ready_agrees:
  assumes "store_view s = store_view t" "distinct (map ta_id (ts_artifacts s))" "call_ok (MarkReady k key out time) s"
  shows "same_outcome (run_call (memory_store new_id) (MarkReady k key out time) s)
    (run_call (database_store new_id [] []) (MarkReady k key out time) t)"
proof (cases "snd (snd key) = []")
  case True
  with assms(1) show ?thesis
    by (simp add: memory_store_def database_store_def mem_mark_artifact_ready_def pg_mark_artifact_ready_def
        normalized_identity_def answer_def eff_simps same_outcome_def)
next
  case False
  have xs: "ts_artifacts s = ts_artifacts t" by (rule view_runs(1) [OF assms(1)])
  from assms(3) obtain a where a: "find_artifact k s = Some a" "artifact_key a = key" and out: "to_json_value out = Inr out"
    by (auto simp: to_json_value_json)
  from a(1) have a': "find_artifact k t = Some a" by (simp add: find_artifact_def xs)
  from assms(2) have dist: "distinct (map ta_id (ts_artifacts t))" by (simp add: xs)
  show ?thesis
    using assms(1)
    by (simp add: memory_store_def database_store_def answer_def eff_bind_run eff_run ready_mem [OF False a(1)]
        ready_pg [OF False a' a(2) dist out] same_outcome_def store_view_def xs)
qed

lemma dump_agrees:
  assumes "store_view s = store_view t" "distinct (map ta_id (ts_artifacts s))"
  shows "same_outcome (run_call (memory_store new_id) (DumpArtifacts key time) s)
    (run_call (database_store new_id [] []) (DumpArtifacts key time) t)"
proof (cases "snd (snd key) = []")
  case True
  with assms(1) show ?thesis
    by (simp add: memory_store_def database_store_def mem_dump_artifacts_def pg_dump_artifacts_def
        normalized_identity_def answer_def eff_simps same_outcome_def)
next
  case False
  let ?xs = "ts_artifacts t"
  have xs: "ts_artifacts s = ?xs" by (rule view_runs(1) [OF assms(1)])
  let ?K = "ta_id ` {a \<in> set ?xs. ready_of key a}"
  have sub: "ta_id b \<in> ?K \<longleftrightarrow> ready_of key b" if "b \<in> set ?xs" for b
    using ids_of_subset [of ?xs "filter (ready_of key) ?xs" b] assms(2) that xs by auto
  have "set (filter (\<lambda>a. ta_id a \<in> ?K) (map (\<lambda>a. if ready_of key a then as_superseded None time a else a) ?xs)) =
      as_superseded None time ` set (filter (ready_of key) ?xs)" (is "?L = ?R")
  proof -
    have "map (\<lambda>a. if ready_of key a then as_superseded None time a else a) ?xs =
        map (\<lambda>a. if ta_id a \<in> ?K then as_superseded None time a else a) ?xs"
      using sub by (intro map_cong) auto
    then have "?L = as_superseded None time ` set (filter (\<lambda>a. ta_id a \<in> ?K) ?xs)"
      by (simp only: mapped_rows [of "as_superseded None time" ?K, OF updates_keep_id(3)] set_map)
    also have "filter (\<lambda>a. ta_id a \<in> ?K) ?xs = filter (ready_of key) ?xs" using sub by (intro filter_cong) auto
    finally show ?thesis .
  qed
  with False assms(1) show ?thesis
    by (simp add: memory_store_def database_store_def mem_dump_artifacts_def pg_dump_artifacts_def
        normalized_identity_def answer_def eff_simps same_outcome_def xs store_view_def)
qed

lemma set_artifacts_cong:
  assumes "map f (filter P xs) = map g (filter P xs)"
  shows "map (\<lambda>a. if P a then f a else a) xs = map (\<lambda>a. if P a then g a else a) xs"
  using assms by (induction xs) (auto split: if_splits)

lemma phase_agrees:
  assumes "store_view s = store_view t" "distinct (map ta_id (ts_artifacts s))" "call_ok (UpdatePhase k phase label time) s"
  shows "same_outcome (run_call (memory_store new_id) (UpdatePhase k phase label time) s)
    (run_call (database_store new_id [] []) (UpdatePhase k phase label time) t)"
proof -
  have xs: "ts_artifacts s = ts_artifacts t" by (rule view_runs(1) [OF assms(1)])
  from assms(3) obtain a where a: "find_artifact k s = Some a" by auto
  then have in_xs: "a \<in> set (ts_artifacts t)" "ta_id a = k" using find_artifact_Some [OF a] xs by auto
  have only: "b = a" if "b \<in> set (ts_artifacts t)" "ta_id b = k" for b
    using same_id_same_row [of "ts_artifacts t" b a] assms(2) in_xs that xs by simp
  have rows: "map (\<lambda>b. if ta_id b = k \<and> \<not> in_phase phase label b then as_phase phase label time b else b) (ts_artifacts t) =
      (if in_phase phase label a then ts_artifacts t
       else map (\<lambda>b. if ta_id b = k then as_phase phase label time b else b) (ts_artifacts t))"
    using only by (auto intro!: map_cong map_idI)
  show ?thesis
    using assms(1) a
    by (simp add: memory_store_def database_store_def mem_update_artifact_phase_def pg_update_artifact_phase_def answer_def
        eff_simps require_artifact_def set_artifact_def same_outcome_def store_view_def rows xs)
qed

lemma start_agrees:
  assumes "store_view s = store_view t" "call_ok (StartRun k block trigger metadata time) s" "new_id s = new_id t"
  shows "same_outcome (run_call (memory_store new_id) (StartRun k block trigger metadata time) s)
    (run_call (database_store new_id [] []) (StartRun k block trigger metadata time) t)"
proof -
  have xs: "ts_artifacts s = ts_artifacts t" by (rule view_runs(1) [OF assms(1)])
  from assms(2) have "find_artifact k t \<noteq> None" by (simp add: find_artifact_def xs)
  with assms(1,3) show ?thesis
    by (auto simp: memory_store_def database_store_def mem_start_run_def pg_start_run_def answer_def eff_simps
        same_outcome_def store_view_def)
qed

lemma find_run: "k \<in> tr_id ` set rs \<Longrightarrow> \<exists>r. find (\<lambda>r. tr_id r = k) rs = Some r"
  by (induction rs) auto

lemma run_agrees:
  assumes "store_view s = store_view t" "r \<in> tr_id ` set (ts_runs s)"
    and "\<And>x y. run_view x = run_view y \<Longrightarrow> run_view (f x) = run_view (g y)"
  shows "same_outcome (eff_bind (require_run r) (\<lambda>_. eff_modify (set_run r f)) s) (eff_modify (set_run r g) t)"
proof -
  from find_run [OF assms(2)] obtain x where "find (\<lambda>x. tr_id x = r) (ts_runs s) = Some x" by auto
  with assms(1) view_set_run [OF view_runs(2) [OF assms(1)] assms(3)] show ?thesis
    by (simp add: require_run_def eff_simps same_outcome_def store_view_def)
qed

lemma answer_outcome: "same_outcome (m s) (m' t) \<Longrightarrow> same_outcome (answer f m s) (answer f m' t)"
  by (cases "m s"; cases "m' t") (auto simp: same_outcome_def answer_def eff_simps split: sum.splits)

lemma calls_agree:
  assumes view: "store_view s = store_view t" and dist: "distinct (map ta_id (ts_artifacts s))"
    and ok: "call_ok c s" and new: "new_id s = new_id t"
  shows "same_outcome (run_call (memory_store new_id) c s) (run_call (database_store new_id [] []) c t)"
proof -
  have xs: "ts_artifacts s = ts_artifacts t" by (rule view_runs(1) [OF view])
  note plain = memory_store_def database_store_def answer_def eff_simps same_outcome_def store_view_def xs
  show ?thesis
  proof (cases c)
    case (CreateArtifact key input time)
    with ok view new show ?thesis
      by (auto simp: plain mem_create_artifact_def pg_create_artifact_def normalized_identity_def to_json_value_json)
  next
    case (FindArtifactById k)
    with view show ?thesis
      by (simp add: plain mem_find_artifact_by_id_def pg_find_artifact_by_id_def find_artifact_def find_first_row)
  next
    case (FindActiveArtifact key)
    with view show ?thesis
      by (auto simp: plain mem_find_active_artifact_def pg_find_active_artifact_def normalized_identity_def
          find_first_row ready_of_def [abs_def])
  next
    case (FindLatestArtifact key)
    with view show ?thesis
      by (auto simp: plain mem_find_latest_non_superseded_artifact_def pg_find_latest_non_superseded_artifact_def
          normalized_identity_def non_superseded_def)
  next
    case (FindArtifactStatus key)
    with view show ?thesis
      by (auto simp: plain mem_find_artifact_status_def pg_find_artifact_status_def normalized_identity_def non_superseded_def)
  next
    case (ClaimPending block limit time)
    with claim_agrees [OF view dist] show ?thesis by simp
  next
    case (RequeueRetryable block n before time excluded)
    with requeue_agrees [OF view dist] show ?thesis by simp
  next
    case (CountRuns k)
    with view view_runs(4) [OF view, of k] show ?thesis
      by (simp add: plain mem_count_runs_def pg_count_runs_def run_count_def)
  next
    case (MarkReady k key out time)
    with ready_agrees [OF view dist] ok show ?thesis by simp
  next
    case (MarkRejected k rejection time)
    with ok view show ?thesis
      by (auto simp: plain mem_mark_artifact_rejected_def pg_mark_artifact_rejected_def require_artifact_def
          set_artifact_def to_json_value_json)
  next
    case (MarkFailed k err time)
    with ok view show ?thesis
      by (auto simp: plain mem_mark_artifact_failed_def pg_mark_artifact_failed_def require_artifact_def set_artifact_def)
  next
    case (UpdatePhase k phase label time)
    with phase_agrees [OF view dist] ok show ?thesis by simp
  next
    case (DumpArtifacts key time)
    with dump_agrees [OF view dist] show ?thesis by simp
  next
    case (ListArtifacts key)
    with view show ?thesis by (auto simp: plain mem_list_artifacts_def pg_list_artifacts_def normalized_identity_def)
  next
    case (StartRun k block trigger metadata time)
    with start_agrees [OF view _ new] ok show ?thesis by simp
  next
    case (FinishRun r metadata time time')
    have "same_outcome (mem_finish_run r metadata time time' s) (pg_finish_run r metadata time time' t)"
      unfolding mem_finish_run_def pg_finish_run_def
      by (rule run_agrees [OF view]) (use FinishRun ok in \<open>auto simp: run_view_eq\<close>)
    then have "same_outcome (answer (\<lambda>_. Void) (mem_finish_run r metadata time time') s) (answer (\<lambda>_. Void) (pg_finish_run r metadata time time') t)"
      by (rule answer_outcome)
    then show ?thesis by (simp add: FinishRun memory_store_def database_store_def)
  next
    case (RejectRun r reason rejection metadata time time')
    then have "as_record rejection = Inr rejection" using ok
      by (auto simp: as_record_def to_json_record_def to_json_value_json split: jsval.splits)
    then have pg: "pg_reject_run r reason rejection metadata time time' = eff_modify (set_run r (\<lambda>x.
       x\<lparr> tr_status := RunRejected, tr_reason := Some reason, tr_rejection := rejection,
         tr_metadata := merge_entries metadata (tr_metadata x), tr_finished_at := Some time',
         tr_duration := Some (time' - time) \<rparr>))"
      by (simp add: pg_reject_run_def fun_eq_iff eff_simps)
    have "same_outcome (mem_reject_run r reason rejection metadata time time' s) (pg_reject_run r reason rejection metadata time time' t)"
      unfolding mem_reject_run_def pg
      by (rule run_agrees [OF view]) (use RejectRun ok in \<open>auto simp: run_view_eq\<close>)
    then have "same_outcome (answer (\<lambda>_. Void) (mem_reject_run r reason rejection metadata time time') s) (answer (\<lambda>_. Void) (pg_reject_run r reason rejection metadata time time') t)"
      by (rule answer_outcome)
    then show ?thesis by (simp add: RejectRun memory_store_def database_store_def)
  next
    case (FailRun r err time time')
    have "same_outcome (mem_fail_run r err time time' s) (pg_fail_run r err time time' t)"
      unfolding mem_fail_run_def pg_fail_run_def
      by (rule run_agrees [OF view]) (use FailRun ok in \<open>auto simp: run_view_eq\<close>)
    then have "same_outcome (answer (\<lambda>_. Void) (mem_fail_run r err time time') s) (answer (\<lambda>_. Void) (pg_fail_run r err time time') t)"
      by (rule answer_outcome)
    then show ?thesis by (simp add: FailRun memory_store_def database_store_def)
  qed
qed

fun run_calls :: "store_api \<Rightarrow> store_call list \<Rightarrow> tb_store \<Rightarrow> (js_error + store_answer) list \<times> tb_store" where
  "run_calls api [] s = ([], s)"
| "run_calls api (c # cs) s =
     (case run_call api c s of (r, s1) \<Rightarrow> case run_calls api cs s1 of (rs, s2) \<Rightarrow> (r # rs, s2))"

fun calls_ok :: "store_api \<Rightarrow> store_call list \<Rightarrow> tb_store \<Rightarrow> bool" where
  "calls_ok api [] s \<longleftrightarrow> True"
| "calls_ok api (c # cs) s \<longleftrightarrow>
     call_ok c s \<and> distinct (map ta_id (ts_artifacts s)) \<and> calls_ok api cs (snd (run_call api c s))"

text \<open>C33: as long as each call names rows that exist, with JSON values and unique ids, the store in memory and
  the one on the database, undisturbed by other transactions, answer a sequence of calls alike, errors
  included, and end with the same artifacts and runs.\<close>

theorem stores_agree:
  assumes "\<forall>s t. store_view s = store_view t \<longrightarrow> new_id s = new_id t"
    and "calls_ok (memory_store new_id) cs s" "store_view s = store_view t"
  shows "fst (run_calls (memory_store new_id) cs s) = fst (run_calls (database_store new_id [] []) cs t) \<and>
    store_view (snd (run_calls (memory_store new_id) cs s)) = store_view (snd (run_calls (database_store new_id [] []) cs t))"
  using assms(2,3)
proof (induction cs arbitrary: s t)
  case (Cons c cs)
  have "new_id s = new_id t" using assms(1) Cons.prems(2) by blast
  with calls_agree [OF Cons.prems(2), of c new_id] Cons.prems(1)
  have out: "same_outcome (run_call (memory_store new_id) c s) (run_call (database_store new_id [] []) c t)" by auto
  then have "store_view (snd (run_call (memory_store new_id) c s)) = store_view (snd (run_call (database_store new_id [] []) c t))"
    by (simp add: same_outcome_def)
  from Cons.IH [OF _ this] Cons.prems(1) out show ?case
    by (auto simp: same_outcome_def simp del: run_call.simps split: prod.splits)
qed simp

definition sample_ids :: "tb_store \<Rightarrow> string" where
  "sample_ids s = replicate (length (ts_artifacts s) + length (ts_runs s)) (CHR ''a'')"

definition empty_store :: tb_store where
  "empty_store = \<lparr> ts_artifacts = [], ts_runs = [], ts_model_calls = [], ts_validations = [], ts_phases = [] \<rparr>"

definition sample_calls :: "store_call list" where
  "sample_calls =
     [CreateArtifact (''logo'', ''v1'', ''aws'') (JStr ''aws'') 1, ClaimPending (''logo'', ''v1'') 1 2,
      StartRun [] ''logo'' None [] 3, UpdatePhase [] ''generating'' ''Generating'' 4,
      MarkReady [] (''logo'', ''v1'', ''aws'') (JStr ''svg'') 5, FindActiveArtifact (''logo'', ''v1'', ''aws'')]"

lemma run_calls_length: "length (fst (run_calls api cs s)) = length cs"
  by (induction api cs s rule: run_calls.induct) (auto simp del: run_call.simps split: prod.split)

lemma sample_ids_view: "store_view s = store_view t \<Longrightarrow> sample_ids s = sample_ids t"
  using view_runs(1) [of s t] arg_cong [OF view_runs(2), of s t length] by (simp add: sample_ids_def)

lemma sample_calls_ok: "calls_ok (memory_store sample_ids) sample_calls empty_store"
  by code_simp

theorem stores_agree_witness:
  "length (fst (run_calls (database_store sample_ids [] []) sample_calls empty_store)) = 6 \<and>
   fst (run_calls (memory_store sample_ids) sample_calls empty_store) =
     fst (run_calls (database_store sample_ids [] []) sample_calls empty_store)"
proof -
  have "\<forall>s t. store_view s = store_view t \<longrightarrow> sample_ids s = sample_ids t" by (blast intro: sample_ids_view)
  from stores_agree [OF this sample_calls_ok refl]
  have same: "fst (run_calls (memory_store sample_ids) sample_calls empty_store) =
      fst (run_calls (database_store sample_ids [] []) sample_calls empty_store)" by (rule conjunct1)
  have "length sample_calls = 6" by (simp add: sample_calls_def)
  then show ?thesis by (simp only: same run_calls_length simp_thms)
qed

end
