(* ===== verification/ThinkingProps.thy ===== *)
theory ThinkingProps
  imports ThinkingBlock ThinkingStoreProps "HOL-Library.Multiset"
begin

text \<open>
  One generation of a thinking block: the attempts, what an accepted and a rejected outcome mean, and what is
  written when the attempts or the commit throw.
\<close>

section \<open>Sequences that returned\<close>

lemma on_store_Inr: "on_store m w = (Inr x, w') \<Longrightarrow> \<exists>s. m (tw_store w) = (Inr x, s) \<and> w' = w\<lparr> tw_store := s \<rparr>"
  by (auto simp: on_store_def split: prod.splits)

lemma validate_output_passed:
  assumes "validate_output b rn out raw attempt vs w = (Inr Passed, w')" "v \<in> set vs"
  shows "\<exists>w1 w2. run_validator b rn out raw attempt v w1 = (Inr Passed, w2)"
  using assms
proof (induction vs arbitrary: w)
  case (Cons u us)
  from Cons.prems(1) obtain w1 w2 w3 w4 result where
    run: "run_validator b rn out raw attempt u w1 = (Inr result, w2)" and
    rest: "(if result = Passed then validate_output b rn out raw attempt us else eff_return result) w4 = (Inr Passed, w')"
    by (auto elim!: eff_bind_InrE)
  have "result = Passed" using rest by (auto simp: eff_run split: if_splits)
  with run rest Cons.IH Cons.prems(2) show ?case by auto
qed simp

text \<open>What an attempt that passed went through.\<close>

lemma attempt_once_passed:
  assumes "attempt_once b rn attempt feedback w = (Inr (raw, Passed), w')" "v \<in> set (bl_validators b)"
  shows "\<exists>w1 w2. run_validator b rn (ag_output raw) raw attempt v w1 = (Inr Passed, w2)"
proof -
  from assms(1) obtain w1 where "validate_output b rn (ag_output raw) raw attempt (bl_validators b) w1 = (Inr Passed, w')"
    by (auto simp: attempt_once_def eff_run elim!: eff_bind_InrE)
  from validate_output_passed [OF this assms(2)] show ?thesis .
qed

fun outcome_ok :: "block \<Rightarrow> run_site \<Rightarrow> nat \<Rightarrow> attempt_outcome \<Rightarrow> bool" where
  "outcome_ok b rn n (Accepted out raw) \<longleftrightarrow> out = ag_output raw \<and>
     (\<exists>attempt. 1 \<le> attempt \<and> attempt \<le> n \<and>
        (\<forall>v \<in> set (bl_validators b). \<exists>w1 w2. run_validator b rn out raw attempt v w1 = (Inr Passed, w2)))"
| "outcome_ok b rn n (Exhausted last_output feedback rs) \<longleftrightarrow>
     map at_attempt rs = [1..<Suc n] \<and> (\<forall>r \<in> set rs. \<not> at_ok r) \<and> feedback = at_feedback (last rs)"

lemma attempt_loop_outcome:
  assumes "attempt_loop b rn m (Suc k) feedback last_output rs w = (Inr outcome, w')"
    and "map at_attempt rs = [1..<Suc k]" "\<forall>r \<in> set rs. \<not> at_ok r" "rs \<noteq> [] \<longrightarrow> feedback = at_feedback (last rs)"
    and "0 < m + k"
  shows "outcome_ok b rn (k + m) outcome"
  using assms
proof (induction m arbitrary: k feedback last_output rs w)
  case 0
  from 0(2,5) have "rs \<noteq> []" by auto
  with 0 show ?case by (auto simp: eff_run)
next
  case (Suc m)
  from Suc.prems(1) obtain raw result w1 where
    once: "attempt_once b rn (Suc k) feedback w = (Inr (raw, result), w1)" and
    rest: "(case result of Passed \<Rightarrow> eff_return (Accepted (ag_output raw) raw)
       | NotPassed f \<Rightarrow> attempt_loop b rn m (Suc (Suc k)) f (ag_output raw)
           (rs @ [\<lparr> at_attempt = Suc k, at_ok = False, at_feedback = f \<rparr>])) w1 = (Inr outcome, w')"
    by (auto elim!: eff_bind_InrE)
  show ?case
  proof (cases result)
    case Passed
    with rest have "outcome = Accepted (ag_output raw) raw" by (simp add: eff_run)
    moreover have "\<forall>v \<in> set (bl_validators b). \<exists>w1 w2. run_validator b rn (ag_output raw) raw (Suc k) v w1 = (Inr Passed, w2)"
      using attempt_once_passed [OF once [unfolded Passed]] by blast
    ultimately show ?thesis by (auto intro!: exI [of _ "Suc k"])
  next
    case (NotPassed f)
    let ?rs = "rs @ [\<lparr> at_attempt = Suc k, at_ok = False, at_feedback = f \<rparr>]"
    from rest NotPassed have loop: "attempt_loop b rn m (Suc (Suc k)) f (ag_output raw) ?rs w1 = (Inr outcome, w')" by simp
    have "outcome_ok b rn (Suc k + m) outcome"
      by (rule Suc.IH [OF loop]) (use Suc.prems(2,3) in auto)
    then show ?thesis by simp
  qed
qed

text \<open>C36: a run of attempts that returns has accepted an output which passed every validator, within the number of
  attempts allowed, or has tried exactly that many, none of which passed, and reports the feedback of the
  last.\<close>

theorem attempts_outcome:
  assumes "run_attempts b rn run_max w = (Inr outcome, w')"
  shows "\<exists>n. max_attempts_for b run_max = Inr n \<and> 1 \<le> n \<and> outcome_ok b rn n outcome"
proof -
  from assms obtain n w1 where n: "max_attempts_for b run_max = Inr n" and
    loop: "attempt_loop b rn n (Suc 0) JUndef JUndef [] w1 = (Inr outcome, w')"
    by (auto simp: run_attempts_def eff_run elim!: eff_bind_InrE)
  have "1 \<le> n"
    using n by (auto simp: max_attempts_for_def normalize_max_attempts_def integer_at_least_one_def DEFAULT_ATTEMPTS_def
        le_nat_iff le_floor_iff split: option.splits if_splits)
  moreover have "outcome_ok b rn (0 + n) outcome"
    by (rule attempt_loop_outcome [OF loop]) (use \<open>1 \<le> n\<close> in auto)
  ultimately show ?thesis using n by auto
qed

section \<open>Throws\<close>

text \<open>When the attempts of a generation throw, the artifact is marked failed and its run failed before the error
  goes on; when the commit of an accepted output throws, the error goes on from where the commit left
  things: neither the artifact nor the run is marked.\<close>

theorem failed_commit_unmarked:
  fixes b :: block and g :: generation
  defines "start \<equiv> on_store (sa_start_run (bl_store b) (ge_artifact g) (bl_name b) (qo_trigger (ge_options g)) (ge_metadata g) (ge_started_at g))"
    and "site \<equiv> \<lambda>run_id. \<lparr> rn_input = ge_input g, rn_artifact = ge_artifact g, rn_run = run_id, rn_signal = qo_signal (ge_options g) \<rparr>"
  assumes started: "start w = (Inr run_id, w1)"
  shows "(run_attempts b (site run_id) (qo_max_attempts (ge_options g)) w1 = (Inl e, w2) \<longrightarrow>
      commit_failed b g run_id e w2 = (Inr (), w3) \<longrightarrow> generate_on_artifact b g w = (Inl e, w3)) \<and>
    (run_attempts b (site run_id) (qo_max_attempts (ge_options g)) w1 = (Inr (Accepted out raw), w2) \<longrightarrow>
      ad_commit (bl_adapter b) (ge_artifact g) run_id (ge_input g) (ge_identity g) out raw w2 = (Inl e, w3) \<longrightarrow>
      generate_on_artifact b g w = (Inl e, w3))"
  using started unfolding start_def site_def
  by (simp add: generate_on_artifact_def commit_ready_def eff_simps)

section \<open>Waiting\<close>

lemma running_turn:
  assumes "find_artifact k (tw_store w) = Some a" "ta_status a = ArtifactRunning" "sa_find_by_id (bl_store b) k (tw_store w) = (Inr (Some a), tw_store w)"
    and "signal = None" "others (snd (wake_runner 0 w)) = (Inr (), w')" "fst (settled_outcome k w') = Inr None"
  shows "wait_turn b grace others input identity k signal w = (Inr None, w')"
  using assms
  by (simp add: wait_turn_def throw_if_aborted_def on_store_def result_for_terminal_artifact_def stored_terminal_result_def
      wake_runner_def settled_outcome_def awaited_def eff_simps)

text \<open>Whatever the number of turns, the caller of a running artifact is still waiting if what happens meanwhile leaves
  the artifact running and settles no completion.\<close>

lemma running_artifact_waits:
  assumes keeps: "\<And>n w. I w \<Longrightarrow> \<exists>w'. others n (snd (wake_runner 0 w)) = (Inr (), w') \<and> I w'"
    and running: "\<And>w. I w \<Longrightarrow> \<exists>a. find_artifact k (tw_store w) = Some a \<and> ta_status a = ArtifactRunning \<and>
      sa_find_by_id (bl_store b) k (tw_store w) = (Inr (Some a), tw_store w)"
    and unsettled: "\<And>w. I w \<Longrightarrow> fst (settled_outcome k w) = Inr None"
    and "I w"
  shows "\<exists>w'. wait_loop b grace others input identity k None turns w = (Inr None, w') \<and> I w'"
  using \<open>I w\<close>
proof (induction turns arbitrary: w)
  case 0
  then show ?case by (simp add: eff_run)
next
  case (Suc n)
  from keeps [OF Suc.prems, of n] obtain w' where w': "others n (snd (wake_runner 0 w)) = (Inr (), w')" "I w'" by blast
  from running [OF Suc.prems] obtain a where a: "find_artifact k (tw_store w) = Some a" "ta_status a = ArtifactRunning"
    "sa_find_by_id (bl_store b) k (tw_store w) = (Inr (Some a), tw_store w)" by blast
  have "wait_turn b grace (others n) input identity k None w = (Inr None, w')"
    using running_turn [where a = a and signal = None and others = "others n" and w = w and w' = w'] a w'(1) unsettled [OF w'(2)] by blast
  with Suc.IH [OF w'(2)] show ?case by (simp add: eff_bind_run)
qed

section \<open>Identities\<close>

text \<open>The hash of an input does not depend on the order in which the keys of an object were inserted.\<close>

lemma sort_key_perm:
  fixes xs ys :: "(string \<times> string) list"
  assumes "mset xs = mset ys" "distinct (map fst xs)"
  shows "sort_key fst xs = sort_key fst ys"
proof -
  have sets: "set xs = set ys" and dist: "distinct (map fst ys)"
    using assms by (metis mset_eq_setD, metis mset_map mset_eq_imp_distinct_iff)
  have keys: "distinct (map fst (sort_key fst zs))" if "distinct (map fst zs)" for zs :: "(string \<times> string) list"
    using that by (simp add: distinct_map distinct_sort)
  show ?thesis
  proof (rule map_sorted_distinct_set_unique)
    show "inj_on fst (set (sort_key fst xs) \<union> set (sort_key fst ys))" using assms(2) sets by (simp add: distinct_map)
  qed (use assms(2) dist sets keys in simp_all)
qed

lemma hash_ignores_key_order:
  fixes es es' :: jsobj
  assumes "mset es = mset es'" "distinct (map fst es)"
  shows "thinking_block_input_hash b (JObj es) = thinking_block_input_hash b (JObj es')"
proof -
  let ?f = "\<lambda>(k, v). (k, the (bl_primitive b (JStr k)) @ '':'' @
    (case stable_stringify (bl_primitive b) v of None \<Rightarrow> ''undefined'' | Some t \<Rightarrow> t))"
  have "mset (map ?f es) = mset (map ?f es')" using assms(1) by simp
  moreover have "map fst (map ?f es) = map fst es" by (simp add: comp_def case_prod_unfold)
  then have "distinct (map fst (map ?f es))" using assms(2) by (simp only:)
  ultimately have "sort_key fst (map ?f es) = sort_key fst (map ?f es')" by (rule sort_key_perm)
  then show ?thesis by (simp add: thinking_block_input_hash_def)
qed

section \<open>Instances\<close>

definition demo_agent :: agent where
  "demo_agent = \<lparr> an_id = Some ''agent'', an_tools = None,
     an_generate = (\<lambda>call step. eff_return \<lparr> ag_output = JStr ''svg'', ag_raw = JNull \<rparr>) \<rparr>"

text \<open>A block whose check passes outputs of the given attempt on, and whose adapter cannot commit.\<close>

definition demo_block :: "nat \<Rightarrow> block" where
  "demo_block n =
     \<lparr> bl_name = ''logo'', bl_version = ''v1'', bl_instructions = None, bl_agent = demo_agent, bl_schema = Inr,
       bl_identity = None, bl_prepare = (\<lambda>input attempt feedback. eff_return \<lparr> pc_prompt = Some ''draw'', pc_messages = JUndef, pc_options = JUndef \<rparr>),
       bl_attempts = Some 2,
       bl_validators = [CheckValidator ''shape'' [] (\<lambda>input out raw attempt.
         eff_return (if attempt \<ge> n then Passed else NotPassed (JStr ''no'')))],
       bl_metadata = (\<lambda>input. []), bl_store = memory_store sample_ids,
       bl_adapter = json_artifact\<lparr> ad_commit := (\<lambda>k r input identity out raw. eff_throw (PlainError ''disk full'')) \<rparr>,
       bl_parallelism = 1, bl_clock = (\<lambda>w. 7), bl_error_parts = (\<lambda>e. (''Error'', ''disk full'', [])), bl_digest = id,
       bl_primitive = (\<lambda>v. Some []) \<rparr>"

definition demo_world :: tb_world where
  "demo_world =
     \<lparr> tw_store = snd (mem_create_artifact sample_ids (''logo'', ''v1'', ''aws'') (JStr ''aws'') 1 empty_store),
       tw_active = [], tw_options = [], tw_inputs = [], tw_completions = [], tw_step_index = 0, tw_timer = None,
       tw_stopped = False, tw_aborted = [] \<rparr>"

definition demo_site :: run_site where
  "demo_site = \<lparr> rn_input = JStr ''aws'', rn_artifact = [], rn_run = ''a'', rn_signal = None \<rparr>"

definition demo_generation :: generation where
  "demo_generation = \<lparr> ge_input = JStr ''aws'', ge_identity = ''aws'', ge_artifact = [], ge_options = no_options, ge_metadata = [],
     ge_started_at = 3 \<rparr>"

text \<open>The first two attempts of three are needed; with two too few, the run is exhausted.\<close>

lemma demo_outcomes:
  "fst (run_attempts (demo_block 2) demo_site None demo_world) = Inr (Accepted (JStr ''svg'') \<lparr> ag_output = JStr ''svg'', ag_raw = JNull \<rparr>)"
  "fst (run_attempts (demo_block 3) demo_site None demo_world) = Inr (Exhausted (JStr ''svg'') (JStr ''no'')
     [\<lparr> at_attempt = 1, at_ok = False, at_feedback = JStr ''no'' \<rparr>, \<lparr> at_attempt = 2, at_ok = False, at_feedback = JStr ''no'' \<rparr>])"
  by code_simp+

theorem attempts_outcome_witness:
  "outcome_ok (demo_block 3) demo_site 2 (Exhausted (JStr ''svg'') (JStr ''no'')
     [\<lparr> at_attempt = 1, at_ok = False, at_feedback = JStr ''no'' \<rparr>, \<lparr> at_attempt = 2, at_ok = False, at_feedback = JStr ''no'' \<rparr>])"
proof -
  have "max_attempts_for (demo_block 3) None = Inr 2" by code_simp
  moreover have "run_attempts (demo_block 3) demo_site None demo_world = (Inr (Exhausted (JStr ''svg'') (JStr ''no'')
      [\<lparr> at_attempt = 1, at_ok = False, at_feedback = JStr ''no'' \<rparr>, \<lparr> at_attempt = 2, at_ok = False, at_feedback = JStr ''no'' \<rparr>]),
      snd (run_attempts (demo_block 3) demo_site None demo_world))"
    by (rule prod_eqI) (simp_all only: demo_outcomes(2) fst_conv snd_conv)
  ultimately show ?thesis using attempts_outcome by fastforce
qed

definition demo_run_world :: tb_world where
  "demo_run_world = snd (on_store (sa_start_run (bl_store (demo_block 1)) [] ''logo'' None [] 3) demo_world)"

definition demo_final_world :: tb_world where
  "demo_final_world = snd (run_attempts (demo_block 1) demo_site None demo_run_world)"

theorem failed_commit_unmarked_witness:
  "generate_on_artifact (demo_block 1) demo_generation demo_world = (Inl (PlainError ''disk full''), demo_final_world) \<and>
   map tr_status (ts_runs (tw_store demo_final_world)) = [RunRunning]"
proof -
  let ?b = "demo_block 1" let ?g = demo_generation
  have start: "on_store (sa_start_run (bl_store ?b) (ge_artifact ?g) (bl_name ?b) (qo_trigger (ge_options ?g)) (ge_metadata ?g) (ge_started_at ?g)) demo_world =
      (Inr ''a'', demo_run_world)"
    by code_simp
  have "fst (run_attempts ?b demo_site None demo_run_world) = Inr (Accepted (JStr ''svg'') \<lparr> ag_output = JStr ''svg'', ag_raw = JNull \<rparr>)"
    by code_simp
  then have run: "run_attempts ?b demo_site None demo_run_world =
      (Inr (Accepted (JStr ''svg'') \<lparr> ag_output = JStr ''svg'', ag_raw = JNull \<rparr>), demo_final_world)"
    by (simp add: demo_final_world_def prod_eq_iff)
  have commit: "ad_commit (bl_adapter ?b) (ge_artifact ?g) ''a'' (ge_input ?g) (ge_identity ?g) (JStr ''svg'')
      \<lparr> ag_output = JStr ''svg'', ag_raw = JNull \<rparr> demo_final_world = (Inl (PlainError ''disk full''), demo_final_world)"
    by (simp add: demo_block_def eff_run)
  have "generate_on_artifact ?b ?g demo_world = (Inl (PlainError ''disk full''), demo_final_world)"
    using conjunct2 [OF failed_commit_unmarked [OF start]] run commit
    by (simp add: demo_site_def demo_generation_def no_options_def)
  moreover have "map tr_status (ts_runs (tw_store demo_final_world)) = [RunRunning]" by code_simp
  ultimately show ?thesis by simp
qed

end
