(* ===== verification/ThinkingContract.thy ===== *)
theory ThinkingContract
  imports ThinkingStoreProps
begin

text \<open>
  What a thinking block relies on of \<open>ThinkingBlockStore\<close>, as a locale over the operations, and both stores as
  its models: the one on the database whatever rows other transactions lock or make ready meanwhile.
\<close>

text \<open>What a write that is no transition leaves of the artifacts.\<close>

definition artifact_view :: "artifact \<Rightarrow> string \<times> block_key \<times> artifact_status" where
  "artifact_view a = (ta_id a, artifact_key a, ta_status a)"

definition run_artifacts :: "tb_store \<Rightarrow> string list" where
  "run_artifacts s = map tr_artifact_id (ts_runs s)"

definition quiet :: "tb_store \<Rightarrow> tb_store \<Rightarrow> bool" where
  "quiet s s' \<longleftrightarrow> map artifact_view (ts_artifacts s') = map artifact_view (ts_artifacts s) \<and> run_artifacts s' = run_artifacts s"

locale thinking_store =
  fixes api :: store_api
  assumes create: "sa_create api key input time s = (r0, s') \<Longrightarrow>
      (\<exists>a. r0 = Inr a \<and> s' = s\<lparr> ts_artifacts := ts_artifacts s @ [a] \<rparr> \<and> ta_status a = ArtifactPending \<and> artifact_key a = key) \<or>
      (\<exists>e. r0 = Inl e \<and> s' = s)"
    and claim: "distinct (map ta_id (ts_artifacts s)) \<Longrightarrow> sa_claim api block limit time s = (r1, s') \<Longrightarrow>
      \<exists>out. r1 = Inr out \<and> distinct (map ta_id out) \<and> s' = set_artifacts (\<lambda>a. ta_id a \<in> ta_id ` set out) (as_running time) s \<and>
        (\<forall>a \<in> set out. \<exists>b \<in> set (ts_artifacts s). ta_id b = ta_id a \<and> artifact_key b = artifact_key a \<and> ta_status b = ArtifactPending)"
    and requeue: "distinct (map ta_id (ts_artifacts s)) \<Longrightarrow> sa_requeue api block n before time excluded s = (r2, s') \<Longrightarrow>
      \<exists>K. s' = set_artifacts (\<lambda>a. ta_id a \<in> K) (as_requeued time) s \<and> K \<inter> set excluded = {} \<and>
        (\<forall>k \<in> K. run_count k s = n \<and> (\<exists>a \<in> set (ts_artifacts s). ta_id a = k \<and> ta_status a = ArtifactFailed))"
    and mark_ready: "distinct (map ta_id (ts_artifacts s)) \<Longrightarrow> find_artifact k s = Some a \<Longrightarrow> artifact_key a = key \<Longrightarrow>
      sa_mark_ready api k key out time s = (r3, s') \<Longrightarrow>
      (\<exists>gone out'. r3 = Inr gone \<and> s' = s\<lparr> ts_artifacts := ready_rows k key out' time (ts_artifacts s) \<rparr>) \<or>
      (\<exists>e. r3 = Inl e \<and> s' = s)"
    and mark_rejected: "find_artifact k s = Some a \<Longrightarrow> sa_mark_rejected api k rejection time s = (r4, s') \<Longrightarrow>
      (\<exists>rejection'. s' = set_artifacts (\<lambda>a. ta_id a = k) (as_rejected rejection' time) s) \<or> s' = s"
    and mark_failed: "find_artifact k s = Some a \<Longrightarrow> sa_mark_failed api k err time s =
      (Inr (), set_artifacts (\<lambda>a. ta_id a = k) (as_failed err time) s)"
    and start_run: "find_artifact k s = Some a \<Longrightarrow> sa_start_run api k block_name trigger metadata time s = (r6, s') \<Longrightarrow>
      \<exists>run. r6 = Inr run \<and> s' = s\<lparr> ts_runs := ts_runs s @ [new_run run k block_name trigger metadata time] \<rparr>"
    and finish_run: "quiet s (snd (sa_finish_run api run metadata time time' s))"
    and reject_run: "quiet s (snd (sa_reject_run api run reason rejection metadata time time' s))"
    and fail_run: "quiet s (snd (sa_fail_run api run err time time' s))"
    and record_call: "quiet s (snd (sa_record_call api call s))"
    and record_validation: "quiet s (snd (sa_record_validation api validation s))"
    and update_phase: "quiet s (snd (sa_update_phase api k phase label time s))"
    and dump: "s' = snd (sa_dump api key time s) \<Longrightarrow>
      s' = set_artifacts (ready_of key) (as_superseded None time) s \<or> s' = s"
    and find_by_id: "sa_find_by_id api k s = (Inr (find_artifact k s), s)"
    and find_latest: "snd (sa_find_latest api key s) = s"
    and find_active: "snd (sa_find_active api key s) = s"
    and count_runs: "sa_count_runs api k s = (Inr (run_count k s), s)"

section \<open>Both stores keep it\<close>

lemma quiet_refl [simp]: "quiet s s"
  by (simp add: quiet_def)

lemma quiet_set_run:
  "(\<And>r. tr_artifact_id (f r) = tr_artifact_id r) \<Longrightarrow> quiet s (set_run k f s)"
  by (simp add: quiet_def run_artifacts_def comp_def if_distrib cong: if_cong)

lemma quiet_set_artifacts:
  "(\<And>a. artifact_view (f a) = artifact_view a) \<Longrightarrow> quiet s (set_artifacts P f s)"
  by (simp add: quiet_def run_artifacts_def comp_def if_distrib cong: if_cong)

lemma view_phase [simp]: "artifact_view (as_phase p l t a) = artifact_view a"
  by (simp add: artifact_view_def)

lemma claimed_rows:
  assumes "distinct (map ta_id xs)" "set c \<subseteq> set xs"
  shows "filter (\<lambda>a. ta_id a \<in> ta_id ` set c) (map (\<lambda>a. if ta_id a \<in> ta_id ` set c then as_running time a else a) xs) =
    map (as_running time) (filter (\<lambda>a. ta_id a \<in> ta_id ` set c) xs)"
  by (simp add: mapped_rows)

lemma pending_queue_in: "a \<in> set (take n (pending_queue block xs)) \<Longrightarrow> a \<in> set xs \<and> ta_status a = ArtifactPending"
  using set_take_subset [of n "pending_queue block xs"] by (auto simp: pending_queue_def)

lemma pending_queue_distinct:
  assumes "distinct (map ta_id xs)"
  shows "distinct (map ta_id (take n (pending_queue block (filter P xs))))"
proof -
  have "distinct (map ta_id (filter Q xs))" for Q using assms by (simp add: distinct_map_filter)
  then have "distinct (map ta_id (pending_queue block (filter P xs)))" by (simp add: pending_queue_def)
  then show ?thesis by (simp flip: take_map add: distinct_take)
qed

lemma mem_claim_contract:
  assumes "distinct (map ta_id (ts_artifacts s))" "mem_claim_pending_artifacts block limit time s = (r, s')"
  shows "\<exists>out. r = Inr out \<and> distinct (map ta_id out) \<and> s' = set_artifacts (\<lambda>a. ta_id a \<in> ta_id ` set out) (as_running time) s \<and>
    (\<forall>a \<in> set out. \<exists>b \<in> set (ts_artifacts s). ta_id b = ta_id a \<and> artifact_key b = artifact_key a \<and> ta_status b = ArtifactPending)"
proof (cases "limit < 1")
  case True
  with assms(2) show ?thesis by (auto simp: mem_claim_pending_artifacts_def eff_simps set_artifacts_def)
next
  case False
  let ?c = "take (nat limit) (pending_queue block (ts_artifacts s))"
  have ids: "map ta_id (map (as_running time) ?c) = map ta_id ?c" by simp
  have "r = Inr (map (as_running time) ?c)" "s' = set_artifacts (\<lambda>a. ta_id a \<in> ta_id ` set ?c) (as_running time) s"
    using assms(2) False by (auto simp: mem_claim_pending_artifacts_def eff_simps)
  moreover have "distinct (map ta_id ?c)"
    using pending_queue_distinct [OF assms(1), of "nat limit" block "\<lambda>_. True"] by simp
  ultimately show ?thesis
    using pending_queue_in [of _ "nat limit" block "ts_artifacts s"] by (intro exI [of _ "map (as_running time) ?c"]) (auto simp: image_image comp_def)
qed

lemma pg_claim_contract:
  assumes "distinct (map ta_id (ts_artifacts s))" "pg_claim_pending_artifacts locked block limit time s = (r, s')"
  shows "\<exists>out. r = Inr out \<and> distinct (map ta_id out) \<and> s' = set_artifacts (\<lambda>a. ta_id a \<in> ta_id ` set out) (as_running time) s \<and>
    (\<forall>a \<in> set out. \<exists>b \<in> set (ts_artifacts s). ta_id b = ta_id a \<and> artifact_key b = artifact_key a \<and> ta_status b = ArtifactPending)"
proof -
  let ?c = "take (nat limit) (pending_queue block (filter (\<lambda>a. ta_id a \<notin> set locked) (ts_artifacts s)))"
  let ?out = "map (as_running time) (filter (\<lambda>a. ta_id a \<in> ta_id ` set ?c) (ts_artifacts s))"
  have sub: "a \<in> set (ts_artifacts s) \<and> ta_status a = ArtifactPending" if "a \<in> set ?c" for a
    using pending_queue_in [OF that] by simp
  show ?thesis
  proof (cases "limit < 1 \<or> ?c = []")
    case True
    then have "pg_claim_pending_artifacts locked block limit time s = (Inr [], s)"
      by (cases "limit < 1") (simp_all add: pg_claim_pending_artifacts_def eff_simps)
    with assms(2) have "r = Inr []" "s' = s" by simp_all
    then show ?thesis by (intro exI [of _ "[]"]) (simp add: set_artifacts_def)
  next
    case False
    then have "pg_claim_pending_artifacts locked block limit time s =
        (Inr ?out, set_artifacts (\<lambda>a. ta_id a \<in> ta_id ` set ?c) (as_running time) s)"
      by (simp add: pg_claim_pending_artifacts_def eff_simps mapped_rows)
    with assms(2) have r: "r = Inr ?out" "s' = set_artifacts (\<lambda>a. ta_id a \<in> ta_id ` set ?c) (as_running time) s" by simp_all
    have "set ?c \<subseteq> set (ts_artifacts s)" using sub by blast
    then have ids: "ta_id ` set ?out = ta_id ` set ?c" by (force simp: image_image)
    have "map ta_id ?out = map ta_id (filter (\<lambda>a. ta_id a \<in> ta_id ` set ?c) (ts_artifacts s))" by simp
    then have "distinct (map ta_id ?out)" using assms(1) by (simp only: distinct_map_filter)
    moreover have "\<forall>a \<in> set ?out. \<exists>b \<in> set (ts_artifacts s). ta_id b = ta_id a \<and> artifact_key b = artifact_key a \<and> ta_status b = ArtifactPending"
    proof
      fix a assume "a \<in> set ?out"
      then obtain b c where b: "b \<in> set (ts_artifacts s)" "a = as_running time b" and c: "c \<in> set ?c" "ta_id b = ta_id c" by auto
      from sub [OF c(1)] same_id_same_row [OF assms(1) b(1) _ c(2)] have "ta_status b = ArtifactPending" by auto
      with b show "\<exists>b \<in> set (ts_artifacts s). ta_id b = ta_id a \<and> artifact_key b = artifact_key a \<and> ta_status b = ArtifactPending"
        by (intro bexI [of _ b]) simp_all
    qed
    moreover have "s' = set_artifacts (\<lambda>a. ta_id a \<in> ta_id ` set ?out) (as_running time) s"
      unfolding ids by (rule r(2))
    ultimately show ?thesis using r(1) by blast
  qed
qed

lemma mem_requeue_contract:
  assumes "mem_requeue_retryable_artifacts block n before time excluded s = (r, s')"
  shows "\<exists>K. s' = set_artifacts (\<lambda>a. ta_id a \<in> K) (as_requeued time) s \<and> K \<inter> set excluded = {} \<and>
    (\<forall>k \<in> K. run_count k s = n \<and> (\<exists>a \<in> set (ts_artifacts s). ta_id a = k \<and> ta_status a = ArtifactFailed))"
  using assms
  by (intro exI [of _ "ta_id ` {a \<in> set (ts_artifacts s). requeueable block n before excluded s a}"])
    (auto simp: mem_requeue_retryable_artifacts_def eff_simps requeueable_def)

lemma pg_requeue_contract:
  assumes "pg_requeue_retryable_artifacts locked block n before time excluded s = (r, s')"
  shows "\<exists>K. s' = set_artifacts (\<lambda>a. ta_id a \<in> K) (as_requeued time) s \<and> K \<inter> set excluded = {} \<and>
    (\<forall>k \<in> K. run_count k s = n \<and> (\<exists>a \<in> set (ts_artifacts s). ta_id a = k \<and> ta_status a = ArtifactFailed))"
proof -
  let ?ids = "map ta_id (queue_order (filter (\<lambda>a. of_block block a \<and> ta_status a = ArtifactFailed \<and>
        ta_updated_at a \<le> before \<and> ta_id a \<notin> set excluded \<and> ta_id a \<notin> set locked) (ts_artifacts s)))"
  let ?K = "set (filter (\<lambda>k. run_count k s = n) ?ids)"
  have "s' = set_artifacts (\<lambda>a. ta_id a \<in> ?K) (as_requeued time) s"
  proof (cases "filter (\<lambda>k. run_count k s = n) ?ids = []")
    case True
    with assms have "s' = s" by (simp add: pg_requeue_retryable_artifacts_def eff_simps)
    with True show ?thesis by (simp add: set_artifacts_def del: set_map set_filter)
  next
    case False
    with assms show ?thesis by (simp add: pg_requeue_retryable_artifacts_def eff_simps del: set_map set_filter)
  qed
  then show ?thesis by (intro exI [of _ ?K]) auto
qed

lemma mem_ready_contract:
  assumes "find_artifact k s = Some a" "mem_mark_artifact_ready k key out time s = (r, s')"
  shows "(\<exists>gone out'. r = Inr gone \<and> s' = s\<lparr> ts_artifacts := ready_rows k key out' time (ts_artifacts s) \<rparr>) \<or>
    (\<exists>e. r = Inl e \<and> s' = s)"
proof (cases "snd (snd key) = []")
  case True
  with assms(2) show ?thesis by (auto simp: mem_mark_artifact_ready_def normalized_identity_def eff_simps)
next
  case False
  with ready_mem [OF False assms(1)] assms(2) show ?thesis by auto
qed

definition superseding :: "string list \<Rightarrow> string \<Rightarrow> block_key \<Rightarrow> artifact list \<Rightarrow> string list" where
  "superseding unseen k key xs = map ta_id (filter (\<lambda>a. ready_of key a \<and> ta_id a \<noteq> k \<and> ta_id a \<notin> set unseen) xs)"

definition pg_ready_rows :: "string list \<Rightarrow> string \<Rightarrow> jsval \<Rightarrow> int \<Rightarrow> artifact list \<Rightarrow> artifact list" where
  "pg_ready_rows gone k out time xs =
     map (\<lambda>a. if ta_id a = k then as_ready out time a else a)
       (map (\<lambda>b. if ta_id b \<in> set gone then as_superseded (Some k) time b else b) xs)"

lemma find_superseded:
  assumes "find_artifact k s = Some a"
  shows "find_artifact k (set_artifacts (\<lambda>b. ta_id b \<in> set gone) (as_superseded p time) s) =
    Some (if k \<in> set gone then as_superseded p time a else a)"
  using find_mapped [of k "ts_artifacts s" a "\<lambda>b. if ta_id b \<in> set gone then as_superseded p time b else b"]
    assms find_artifact_Some [OF assms]
  by (simp add: find_artifact_def)

lemma pg_ready_eval:
  assumes "snd (snd key) \<noteq> []" "find_artifact k s = Some a"
  shows "pg_mark_artifact_ready unseen k key out time s =
    (case to_json_value out of
       Inl e \<Rightarrow> (Inl e, s)
     | Inr out' \<Rightarrow>
         (let gone = superseding unseen k key (ts_artifacts s);
              s2 = s\<lparr> ts_artifacts := pg_ready_rows gone k out' time (ts_artifacts s) \<rparr>
          in if pg_ready_conflict k s2 then (Inl (UniqueViolation ''thinking_block_artifacts_ready_unique''), s)
             else (Inr gone, s2)))"
proof -
  note found = find_superseded [OF assms(2), of "superseding unseen k key (ts_artifacts s)" "Some k" time]
  show ?thesis
    using assms(1) found
    by (simp add: pg_mark_artifact_ready_def normalized_identity_def eff_bind_run eff_tx_run eff_run
        superseding_def [symmetric] set_artifact_def Let_def pg_ready_rows_def set_artifacts_def del: map_map
        split: sum.split)
qed

text \<open>When the index does not refuse it, no other ready row of the key was unseen.\<close>

definition pg_ready_row :: "string list \<Rightarrow> string \<Rightarrow> jsval \<Rightarrow> int \<Rightarrow> artifact \<Rightarrow> artifact" where
  "pg_ready_row gone k out time b =
     (let b' = (if ta_id b \<in> set gone then as_superseded (Some k) time b else b)
      in if ta_id b = k then as_ready out time b' else b')"

lemma pg_ready_rows_map: "pg_ready_rows gone k out time xs = map (pg_ready_row gone k out time) xs"
  unfolding pg_ready_rows_def map_map by (rule map_cong) (simp_all add: pg_ready_row_def Let_def)

lemma pg_ready_row_fixed [simp]:
  "ta_id (pg_ready_row gone k out time b) = ta_id b" "artifact_key (pg_ready_row gone k out time b) = artifact_key b"
  by (simp_all add: pg_ready_row_def Let_def)

lemma unseen_conflict:
  assumes "find_artifact k s = Some a" "b \<in> set (ts_artifacts s)" "ta_id b \<noteq> k" "ready_of (artifact_key a) b" "ta_id b \<notin> set gone"
  shows "pg_ready_conflict k (s\<lparr> ts_artifacts := pg_ready_rows gone k out time (ts_artifacts s) \<rparr>)"
proof -
  have "find_artifact k (s\<lparr> ts_artifacts := pg_ready_rows gone k out time (ts_artifacts s) \<rparr>) = Some (pg_ready_row gone k out time a)"
    unfolding find_artifact_def pg_ready_rows_map
    using find_mapped [of k "ts_artifacts s" a "pg_ready_row gone k out time"] assms(1) by (simp add: find_artifact_def)
  moreover have "pg_ready_row gone k out time b = b" using assms(3,5) by (simp add: pg_ready_row_def)
  then have "b \<in> set (pg_ready_rows gone k out time (ts_artifacts s))"
    unfolding pg_ready_rows_map using assms(2) by (metis image_eqI set_map)
  ultimately show ?thesis using assms(3,4) by (auto simp: pg_ready_conflict_def list_ex_iff)
qed

lemma superseding_all:
  assumes dist: "distinct (map ta_id (ts_artifacts s))" and a: "find_artifact k s = Some a" "artifact_key a = key"
    and free: "\<not> pg_ready_conflict k (s\<lparr> ts_artifacts := pg_ready_rows (superseding unseen k key (ts_artifacts s)) k out time (ts_artifacts s) \<rparr>)"
  shows "pg_ready_rows (superseding unseen k key (ts_artifacts s)) k out time (ts_artifacts s) = ready_rows k key out time (ts_artifacts s)"
proof -
  let ?xs = "ts_artifacts s" let ?gone = "superseding unseen k key (ts_artifacts s)"
  have sound: "ready_of key b \<and> ta_id b \<noteq> k" if b: "b \<in> set ?xs" "ta_id b \<in> set ?gone" for b
  proof -
    from b(2) obtain c where c: "c \<in> set ?xs" "ready_of key c" "ta_id c \<noteq> k" "ta_id c = ta_id b"
      by (auto simp: superseding_def)
    with same_id_same_row [OF dist c(1) b(1)] show ?thesis by simp
  qed
  have "ta_id b \<in> set ?gone" if "b \<in> set ?xs" "ta_id b \<noteq> k" "ready_of key b" for b
    using unseen_conflict [OF a(1) that(1,2)] that(3) a(2) free by blast
  with sound have gone: "ta_id b \<in> set ?gone \<longleftrightarrow> ta_id b \<noteq> k \<and> ready_of key b" if "b \<in> set ?xs" for b
    using that by blast
  have "map (\<lambda>b. if ta_id b \<in> set ?gone then as_superseded (Some k) time b else b) ?xs =
      map (\<lambda>b. if ta_id b \<noteq> k \<and> ready_of key b then as_superseded (Some k) time b else b) ?xs"
    by (rule map_cong [OF refl]) (simp only: gone)
  then show ?thesis by (simp only: pg_ready_rows_def ready_rows_def)
qed

lemma pg_ready_contract:
  assumes dist: "distinct (map ta_id (ts_artifacts s))" and a: "find_artifact k s = Some a" "artifact_key a = key"
    and out: "pg_mark_artifact_ready unseen k key out time s = (r, s')"
  shows "(\<exists>gone out'. r = Inr gone \<and> s' = s\<lparr> ts_artifacts := ready_rows k key out' time (ts_artifacts s) \<rparr>) \<or>
    (\<exists>e. r = Inl e \<and> s' = s)"
proof (cases "snd (snd key) = []")
  case True
  with out show ?thesis by (auto simp: pg_mark_artifact_ready_def normalized_identity_def eff_simps)
next
  case False
  from out [unfolded pg_ready_eval [OF False a(1)]] show ?thesis
    using superseding_all [OF dist a, of unseen _ time] by (fastforce simp: Let_def split: sum.splits if_splits)
qed

lemma create_contract:
  assumes "mem_create_artifact new_id key input time s = (r, s') \<or> pg_create_artifact new_id key input time s = (r, s')"
  shows "(\<exists>a. r = Inr a \<and> s' = s\<lparr> ts_artifacts := ts_artifacts s @ [a] \<rparr> \<and> ta_status a = ArtifactPending \<and> artifact_key a = key) \<or>
    (\<exists>e. r = Inl e \<and> s' = s)"
  using assms
  by (auto simp: mem_create_artifact_def pg_create_artifact_def normalized_identity_def eff_simps new_artifact_def artifact_key_def
      split: if_splits sum.splits prod.splits)

lemma mem_found:
  "find_artifact k s = Some a \<Longrightarrow> eff_bind (require_artifact k) f s = f a s"
  by (simp add: require_artifact_def eff_simps)

lemma quiet_modify_run:
  "(\<And>r. tr_artifact_id (f r) = tr_artifact_id r) \<Longrightarrow> quiet s (snd (eff_bind (require_run k) (\<lambda>_. eff_modify (set_run k f)) s))"
  by (simp add: require_run_def eff_simps quiet_set_run split: option.split)

lemma quiet_phases: "quiet s (t\<lparr> ts_phases := ps \<rparr>) = quiet s t"
  by (simp add: quiet_def run_artifacts_def)

lemma quiet_phases': "quiet (s\<lparr> ts_phases := ps \<rparr>) t = quiet s t"
  by (simp add: quiet_def run_artifacts_def)

lemma quiet_phase: "quiet s (snd (mem_update_artifact_phase k phase label time s))"
proof -
  have "quiet s (set_artifacts (\<lambda>a. ta_id a = k) (as_phase phase label time) (s\<lparr> ts_phases := ps \<rparr>))" for ps
    using quiet_set_artifacts [of "as_phase phase label time" "s\<lparr> ts_phases := ps \<rparr>" "\<lambda>a. ta_id a = k"] by (simp add: quiet_phases')
  then show ?thesis
    by (simp add: mem_update_artifact_phase_def require_artifact_def eff_simps set_artifact_def split: option.split)
qed

lemma quiet_logs: "quiet s (s\<lparr> ts_model_calls := cs \<rparr>)" "quiet s (s\<lparr> ts_validations := vs \<rparr>)"
  by (simp_all add: quiet_def run_artifacts_def)

lemma rejected_contract:
  assumes "find_artifact k s = Some a"
  shows "mem_mark_artifact_rejected k rejection time s = (r, s') \<Longrightarrow>
      (\<exists>rejection'. s' = set_artifacts (\<lambda>a. ta_id a = k) (as_rejected rejection' time) s) \<or> s' = s"
    and "pg_mark_artifact_rejected k rejection time s = (r, s') \<Longrightarrow>
      (\<exists>rejection'. s' = set_artifacts (\<lambda>a. ta_id a = k) (as_rejected rejection' time) s) \<or> s' = s"
  by (auto simp: mem_mark_artifact_rejected_def require_artifact_def assms pg_mark_artifact_rejected_def set_artifact_def eff_simps
      split: sum.splits)

lemma failed_contract:
  assumes "find_artifact k s = Some a"
  shows "mem_mark_artifact_failed k err time s = (Inr (), set_artifacts (\<lambda>a. ta_id a = k) (as_failed err time) s)"
    and "pg_mark_artifact_failed k err time s = (Inr (), set_artifacts (\<lambda>a. ta_id a = k) (as_failed err time) s)"
  by (simp_all add: mem_mark_artifact_failed_def mem_found [OF assms] pg_mark_artifact_failed_def set_artifact_def eff_run)

lemma new_run_id [simp]: "tr_id (new_run k artifact_id block trigger metadata time) = k"
  by (simp add: new_run_def)

lemma start_contract:
  assumes "find_artifact k s = Some a"
  shows "mem_start_run new_id k block_name trigger metadata time s = (r, s') \<Longrightarrow>
      \<exists>run. r = Inr run \<and> s' = s\<lparr> ts_runs := ts_runs s @ [new_run run k block_name trigger metadata time] \<rparr>"
    and "pg_start_run new_id k block_name trigger metadata time s = (r, s') \<Longrightarrow>
      \<exists>run. r = Inr run \<and> s' = s\<lparr> ts_runs := ts_runs s @ [new_run run k block_name trigger metadata time] \<rparr>"
  using assms by (auto simp: mem_start_run_def pg_start_run_def eff_simps)

lemma quiet_runs:
  "quiet s (snd (mem_finish_run run metadata time time' s))" "quiet s (snd (pg_finish_run run metadata time time' s))"
  "quiet s (snd (mem_reject_run run reason rejection metadata time time' s))"
  "quiet s (snd (pg_reject_run run reason rejection metadata time time' s))"
  "quiet s (snd (mem_fail_run run err time time' s))" "quiet s (snd (pg_fail_run run err time time' s))"
  unfolding mem_finish_run_def pg_finish_run_def mem_reject_run_def pg_reject_run_def mem_fail_run_def pg_fail_run_def
  by (auto intro: quiet_modify_run simp: eff_run)
    (simp_all add: eff_simps quiet_set_run split: sum.split)

lemma quiet_records:
  "quiet s (snd (mem_record_model_call call s))" "quiet s (snd (pg_record_model_call call s))"
  "quiet s (snd (mem_record_validation validation s))" "quiet s (snd (pg_record_validation validation s))"
  by (simp_all add: mem_record_model_call_def pg_record_model_call_def mem_record_validation_def pg_record_validation_def
      eff_simps quiet_logs split: sum.split)

lemma quiet_pg_phase: "quiet s (snd (pg_update_artifact_phase k phase label time s))"
  by (simp add: pg_update_artifact_phase_def eff_run quiet_set_artifacts)

lemma dump_contract:
  "s' = snd (mem_dump_artifacts key time s) \<Longrightarrow> s' = set_artifacts (ready_of key) (as_superseded None time) s \<or> s' = s"
  "s' = snd (pg_dump_artifacts key time s) \<Longrightarrow> s' = set_artifacts (ready_of key) (as_superseded None time) s \<or> s' = s"
  by (simp_all add: mem_dump_artifacts_def pg_dump_artifacts_def normalized_identity_def eff_simps)

lemma read_contract:
  "mem_find_artifact_by_id k s = (Inr (find_artifact k s), s)" "pg_find_artifact_by_id k s = (Inr (find_artifact k s), s)"
  "snd (mem_find_latest_non_superseded_artifact key s) = s" "snd (pg_find_latest_non_superseded_artifact key s) = s"
  "snd (mem_find_active_artifact key s) = s" "snd (pg_find_active_artifact key s) = s"
  "mem_count_runs k s = (Inr (run_count k s), s)" "pg_count_runs k s = (Inr (run_count k s), s)"
  by (simp_all add: mem_find_artifact_by_id_def pg_find_artifact_by_id_def find_artifact_def find_first_row
      mem_find_latest_non_superseded_artifact_def pg_find_latest_non_superseded_artifact_def
      mem_find_active_artifact_def pg_find_active_artifact_def mem_count_runs_def pg_count_runs_def run_count_def
      normalized_identity_def eff_simps)

lemma ready_contract:
  assumes "distinct (map ta_id (ts_artifacts s))" "find_artifact k s = Some a" "artifact_key a = key"
  shows "mem_mark_artifact_ready k key out time s = (r, s') \<Longrightarrow>
      (\<exists>gone out'. r = Inr gone \<and> s' = s\<lparr> ts_artifacts := ready_rows k key out' time (ts_artifacts s) \<rparr>) \<or> (\<exists>e. r = Inl e \<and> s' = s)"
    and "pg_mark_artifact_ready unseen k key out time s = (r, s') \<Longrightarrow>
      (\<exists>gone out'. r = Inr gone \<and> s' = s\<lparr> ts_artifacts := ready_rows k key out' time (ts_artifacts s) \<rparr>) \<or> (\<exists>e. r = Inl e \<and> s' = s)"
  by (rule mem_ready_contract [OF assms(2)], assumption) (rule pg_ready_contract [OF assms])

lemma created_contract:
  "mem_create_artifact new_id key input time s = (r, s') \<Longrightarrow>
    (\<exists>a. r = Inr a \<and> s' = s\<lparr> ts_artifacts := ts_artifacts s @ [a] \<rparr> \<and> ta_status a = ArtifactPending \<and> artifact_key a = key) \<or>
    (\<exists>e. r = Inl e \<and> s' = s)"
  "pg_create_artifact new_id key input time s = (r, s') \<Longrightarrow>
    (\<exists>a. r = Inr a \<and> s' = s\<lparr> ts_artifacts := ts_artifacts s @ [a] \<rparr> \<and> ta_status a = ArtifactPending \<and> artifact_key a = key) \<or>
    (\<exists>e. r = Inl e \<and> s' = s)"
  by (rule create_contract [OF disjI1], assumption) (rule create_contract [OF disjI2], assumption)

lemmas store_laws = created_contract mem_claim_contract pg_claim_contract mem_requeue_contract pg_requeue_contract
  ready_contract rejected_contract failed_contract start_contract quiet_runs quiet_records quiet_phase quiet_pg_phase
  dump_contract read_contract

interpretation memory: thinking_store "memory_store new_id" for new_id
  by (unfold_locales; unfold memory_store_def store_api.select_convs; rule store_laws; assumption)

interpretation database: thinking_store "database_store new_id locked unseen" for new_id locked unseen
  by (unfold_locales; unfold database_store_def store_api.select_convs; rule store_laws; assumption)

end
