(* ===== verification/ThinkingRunner.thy ===== *)
theory ThinkingRunner
  imports ThinkingBlock ThinkingContract
begin

text \<open>
  The runners of a block at work, in any number of processes on one store: the steps of \<open>runRunnerTick\<close>,
  \<open>fulfillClaimedArtifact\<close> and \<open>generateOnArtifact\<close> between two awaits, interleaved freely, with crashes of a
  process. A worker is an artifact that a process has taken up (\<open>activeArtifacts\<close>).
\<close>

section \<open>State\<close>

datatype worker_phase =
    Claimed                  \<comment> \<open>before \<open>startRun\<close>\<close>
  | Generating string        \<comment> \<open>its run is open\<close>
  | Ending                   \<comment> \<open>the outcome is written, or lost\<close>

record worker =
  wk_process :: nat
  wk_artifact :: string
  wk_key :: block_key
  wk_phase :: worker_phase

definition live :: "worker \<Rightarrow> bool" where
  "live w \<longleftrightarrow> wk_phase w \<noteq> Ending"

record fleet =
  fl_store :: tb_store
  fl_workers :: "worker list"

definition active_of :: "nat \<Rightarrow> fleet \<Rightarrow> string list" where
  "active_of p f = map wk_artifact (filter (\<lambda>w. wk_process w = p) (fl_workers f))"

definition new_worker :: "nat \<Rightarrow> artifact \<Rightarrow> worker" where
  "new_worker p a = \<lparr> wk_process = p, wk_artifact = ta_id a, wk_key = artifact_key a, wk_phase = Claimed \<rparr>"

text \<open>The workers a tick adds: as in \<open>take_up\<close>.\<close>

definition taken_up :: "nat \<Rightarrow> artifact list \<Rightarrow> fleet \<Rightarrow> worker list" where
  "taken_up p claimed f = map (new_worker p) (filter (\<lambda>a. ta_id a \<notin> set (active_of p f)) claimed)"

definition set_worker :: "nat \<Rightarrow> worker_phase \<Rightarrow> tb_store \<Rightarrow> fleet \<Rightarrow> fleet" where
  "set_worker i phase s f = f\<lparr> fl_store := s, fl_workers := (fl_workers f)[i := (fl_workers f ! i)\<lparr> wk_phase := phase \<rparr>] \<rparr>"

definition drop_worker :: "nat \<Rightarrow> fleet \<Rightarrow> fleet" where
  "drop_worker i f = f\<lparr> fl_workers := take i (fl_workers f) @ drop (Suc i) (fl_workers f) \<rparr>"

definition worker_at :: "nat \<Rightarrow> worker_phase \<Rightarrow> fleet \<Rightarrow> bool" where
  "worker_at i phase f \<longleftrightarrow> i < length (fl_workers f) \<and> wk_phase (fl_workers f ! i) = phase"

section \<open>Steps\<close>

text \<open>A step on the store that is no transition of an artifact: phases, model calls, validations and the outcome of
  a run.\<close>

inductive recording :: "store_api \<Rightarrow> tb_store \<Rightarrow> tb_store \<Rightarrow> bool" for api s where
  "recording api s (snd (sa_update_phase api k phase label time s))"
| "recording api s (snd (sa_record_call api call s))"
| "recording api s (snd (sa_record_validation api validation s))"
| "recording api s (snd (sa_finish_run api run metadata time time' s))"
| "recording api s (snd (sa_reject_run api run reason rejection metadata time time' s))"
| "recording api s (snd (sa_fail_run api run err time time' s))"

inductive runner_step :: "(store_api \<Rightarrow> bool) \<Rightarrow> string \<times> string \<Rightarrow> fleet \<Rightarrow> fleet \<Rightarrow> bool" for stores block where
  created: "stores api \<Longrightarrow> sa_create api key input time (fl_store f) = (Inr a, s) \<Longrightarrow>
    ta_id a \<notin> ta_id ` set (ts_artifacts (fl_store f)) \<union> set (run_artifacts (fl_store f)) \<Longrightarrow>
    runner_step stores block f (f\<lparr> fl_store := s \<rparr>)"
| requeued: "stores api \<Longrightarrow> n < MAX_OPERATIONAL_RUNS \<Longrightarrow>
    sa_requeue api block n before time (active_of p f) (fl_store f) = (r, s) \<Longrightarrow>
    runner_step stores block f (f\<lparr> fl_store := s \<rparr>)"
| claimed: "stores api \<Longrightarrow> sa_claim api block limit time (fl_store f) = (Inr out, s) \<Longrightarrow>
    runner_step stores block f (f\<lparr> fl_store := s, fl_workers := fl_workers f @ taken_up p out f \<rparr>)"
| parse_failed: "worker_at i Claimed f \<Longrightarrow> runner_step stores block f (drop_worker i f)"
| started: "stores api \<Longrightarrow> worker_at i Claimed f \<Longrightarrow>
    sa_start_run api (wk_artifact (fl_workers f ! i)) (fst block) trigger metadata time (fl_store f) = (Inr run, s) \<Longrightarrow>
    runner_step stores block f (set_worker i (Generating run) s f)"
| recorded: "stores api \<Longrightarrow> recording api (fl_store f) s \<Longrightarrow> runner_step stores block f (f\<lparr> fl_store := s \<rparr>)"
| ready: "stores api \<Longrightarrow> worker_at i (Generating run) f \<Longrightarrow>
    sa_mark_ready api (wk_artifact (fl_workers f ! i)) (wk_key (fl_workers f ! i)) out time (fl_store f) = (r, s) \<Longrightarrow>
    runner_step stores block f (set_worker i Ending s f)"
| commit_threw: "worker_at i (Generating run) f \<Longrightarrow> runner_step stores block f (set_worker i Ending (fl_store f) f)"
| rejected: "stores api \<Longrightarrow> worker_at i (Generating run) f \<Longrightarrow>
    sa_mark_rejected api (wk_artifact (fl_workers f ! i)) rejection time (fl_store f) = (r, s) \<Longrightarrow>
    runner_step stores block f (set_worker i Ending s f)"
| failed: "stores api \<Longrightarrow> worker_at i (Generating run) f \<Longrightarrow>
    sa_mark_failed api (wk_artifact (fl_workers f ! i)) err time (fl_store f) = (r, s) \<Longrightarrow>
    runner_step stores block f (set_worker i Ending s f)"
| ended: "worker_at i Ending f \<Longrightarrow> runner_step stores block f (drop_worker i f)"
| crashed: "runner_step stores block f (f\<lparr> fl_workers := filter (\<lambda>w. wk_process w \<noteq> p) (fl_workers f) \<rparr>)"
| dumped: "stores api \<Longrightarrow> runner_step stores block f (f\<lparr> fl_store := snd (sa_dump api key time (fl_store f)) \<rparr>)"

definition no_fleet :: fleet where
  "no_fleet = \<lparr> fl_store = empty_store, fl_workers = [] \<rparr>"

definition runner_reachable :: "(store_api \<Rightarrow> bool) \<Rightarrow> string \<times> string \<Rightarrow> fleet \<Rightarrow> bool" where
  "runner_reachable stores block f \<longleftrightarrow> (runner_step stores block)\<^sup>*\<^sup>* no_fleet f"

text \<open>The stores of the code: the one in memory, and the one on the database whatever other transactions do.\<close>

definition known_store :: "store_api \<Rightarrow> bool" where
  "known_store api \<longleftrightarrow> (\<exists>new_id. api = memory_store new_id) \<or> (\<exists>new_id locked unseen. api = database_store new_id locked unseen)"

lemma known_store_keeps_contract: "known_store api \<Longrightarrow> thinking_store api"
  unfolding known_store_def using memory.thinking_store_axioms database.thinking_store_axioms by blast

end
