(* ===== verification/ThinkingRunnerProps.thy ===== *)
theory ThinkingRunnerProps
  imports ThinkingRunner
begin

text \<open>
  What the runners keep: at most one worker generates an artifact, no artifact has more than three runs, and
  a key has at most one ready artifact, whatever the interleaving, the crashes and the other
  transactions; and what they do not repair: an artifact left running.
\<close>

section \<open>The view of a store\<close>

type_synonym view = "string \<times> block_key \<times> artifact_status"

definition views :: "tb_store \<Rightarrow> view list" where
  "views s = map artifact_view (ts_artifacts s)"

definition restated :: "(string \<Rightarrow> block_key \<Rightarrow> artifact_status \<Rightarrow> artifact_status) \<Rightarrow> view list \<Rightarrow> view list" where
  "restated h = map (\<lambda>(k, key, st). (k, key, h k key st))"

lemma views_set_artifacts:
  assumes "\<And>a. ta_id (f a) = ta_id a" "\<And>a. artifact_key (f a) = artifact_key a" "\<And>a. ta_status (f a) = to"
    and "\<And>a. P a = Q (ta_id a) (artifact_key a) (ta_status a)"
  shows "views (set_artifacts P f s) = restated (\<lambda>k key st. if Q k key st then to else st) (views s)"
  by (simp add: views_def restated_def artifact_view_def assms)

lemma ids_views: "map fst (views s) = map ta_id (ts_artifacts s)"
  by (simp add: views_def artifact_view_def comp_def)

lemma row_view: "a \<in> set (ts_artifacts s) \<Longrightarrow> (ta_id a, artifact_key a, ta_status a) \<in> set (views s)"
  by (simp add: views_def artifact_view_def image_iff) (metis)

lemma found_view:
  assumes "(k, key, st) \<in> set (views s)" "distinct (map ta_id (ts_artifacts s))"
  shows "\<exists>a. find_artifact k s = Some a \<and> artifact_key a = key \<and> ta_status a = st"
proof -
  from assms(1) obtain a where a: "a \<in> set (ts_artifacts s)" "ta_id a = k" "artifact_key a = key" "ta_status a = st"
    by (auto simp: views_def artifact_view_def)
  obtain b where b: "find_artifact k s = Some b" using a(1,2) find_artifact_None [of k s] by (cases "find_artifact k s") auto
  with find_artifact_Some [OF b] same_id_same_row [OF assms(2) _ a(1)] a(2) have "b = a" by auto
  with a b show ?thesis by auto
qed

lemma run_count_view: "run_count k s = count_list (run_artifacts s) k"
proof -
  have "length (filter (\<lambda>r. tr_artifact_id r = k) rs) = count_list (map tr_artifact_id rs) k" for rs
    by (induction rs) auto
  then show ?thesis by (simp add: run_count_def run_artifacts_def)
qed

lemma quiet_views: "quiet s s' \<Longrightarrow> views s' = views s \<and> run_artifacts s' = run_artifacts s"
  by (simp add: quiet_def views_def)

lemma run_artifacts_simps [simp]:
  "run_artifacts (set_artifacts P f s) = run_artifacts s" "run_artifacts (s\<lparr> ts_artifacts := xs \<rparr>) = run_artifacts s"
  by (simp_all add: run_artifacts_def)

section \<open>The operations on the view\<close>

context thinking_store begin

lemma create_views:
  assumes "sa_create api key input time s = (Inr a, s')"
  shows "views s' = views s @ [(ta_id a, key, ArtifactPending)] \<and> run_artifacts s' = run_artifacts s"
  using create [OF assms] by (auto simp: views_def artifact_view_def)

lemma claim_views:
  assumes "distinct (map ta_id (ts_artifacts s))" "sa_claim api block limit time s = (Inr out, s')"
  shows "distinct (map ta_id out) \<and> run_artifacts s' = run_artifacts s \<and>
    views s' = restated (\<lambda>k key st. if k \<in> ta_id ` set out then ArtifactRunning else st) (views s) \<and>
    (\<forall>a \<in> set out. (ta_id a, artifact_key a, ArtifactPending) \<in> set (views s))"
proof -
  from claim [OF assms] have c: "distinct (map ta_id out)"
    "s' = set_artifacts (\<lambda>a. ta_id a \<in> ta_id ` set out) (as_running time) s"
    "\<forall>a \<in> set out. \<exists>b \<in> set (ts_artifacts s). ta_id b = ta_id a \<and> artifact_key b = artifact_key a \<and> ta_status b = ArtifactPending" by auto
  have "views s' = restated (\<lambda>k key st. if k \<in> ta_id ` set out then ArtifactRunning else st) (views s)"
    unfolding c(2) by (rule views_set_artifacts) simp_all
  moreover have "\<forall>a \<in> set out. (ta_id a, artifact_key a, ArtifactPending) \<in> set (views s)"
  proof
    fix a assume "a \<in> set out"
    with c(3) obtain b where b: "b \<in> set (ts_artifacts s)" "ta_id b = ta_id a" "artifact_key b = artifact_key a" "ta_status b = ArtifactPending" by blast
    with row_view [OF b(1)] show "(ta_id a, artifact_key a, ArtifactPending) \<in> set (views s)" by simp
  qed
  ultimately show ?thesis using c(1,2) by simp
qed

lemma requeue_views:
  assumes "distinct (map ta_id (ts_artifacts s))" "sa_requeue api block n before time excluded s = (r, s')"
  shows "\<exists>K. run_artifacts s' = run_artifacts s \<and>
    views s' = restated (\<lambda>k key st. if k \<in> K then ArtifactPending else st) (views s) \<and>
    (\<forall>k \<in> K. run_count k s = n \<and> (\<exists>key. (k, key, ArtifactFailed) \<in> set (views s)))"
proof -
  from requeue [OF assms] obtain K where K: "s' = set_artifacts (\<lambda>a. ta_id a \<in> K) (as_requeued time) s"
    "\<forall>k \<in> K. run_count k s = n \<and> (\<exists>a \<in> set (ts_artifacts s). ta_id a = k \<and> ta_status a = ArtifactFailed)" by auto
  have "views s' = restated (\<lambda>k key st. if k \<in> K then ArtifactPending else st) (views s)"
    unfolding K(1) by (rule views_set_artifacts) simp_all
  moreover have "\<forall>k \<in> K. run_count k s = n \<and> (\<exists>key. (k, key, ArtifactFailed) \<in> set (views s))"
  proof (intro ballI conjI)
    fix k assume "k \<in> K"
    with K(2) obtain a where a: "a \<in> set (ts_artifacts s)" "ta_id a = k" "ta_status a = ArtifactFailed" by auto
    with row_view [OF a(1)] show "\<exists>key. (k, key, ArtifactFailed) \<in> set (views s)" by metis
  qed (use K(2) in blast)
  ultimately show ?thesis using K(1) by auto
qed

lemma ready_views:
  assumes "distinct (map ta_id (ts_artifacts s))" "(k, key, st) \<in> set (views s)" "sa_mark_ready api k key out time s = (r, s')"
  shows "run_artifacts s' = run_artifacts s \<and>
    (views s' = restated (\<lambda>j key' st. if j = k then ArtifactReady else if key' = key \<and> st = ArtifactReady then ArtifactSuperseded else st) (views s) \<or>
     views s' = views s)"
proof -
  from found_view [OF assms(2,1)] obtain a where a: "find_artifact k s = Some a" "artifact_key a = key" by auto
  have "views (s\<lparr> ts_artifacts := ready_rows k key out' time (ts_artifacts s) \<rparr>) =
      restated (\<lambda>j key' st. if j = k then ArtifactReady else if key' = key \<and> st = ArtifactReady then ArtifactSuperseded else st) (views s)" for out'
    by (auto simp: views_def restated_def ready_rows_def artifact_view_def ready_of_def)
  with mark_ready [OF assms(1) a assms(3)] show ?thesis by auto
qed

lemma rejected_views:
  assumes "distinct (map ta_id (ts_artifacts s))" "(k, key, st) \<in> set (views s)" "sa_mark_rejected api k rejection time s = (r, s')"
  shows "run_artifacts s' = run_artifacts s \<and>
    (views s' = restated (\<lambda>j key st. if j = k then ArtifactRejected else st) (views s) \<or> views s' = views s)"
proof -
  from found_view [OF assms(2,1)] obtain a where "find_artifact k s = Some a" by auto
  from mark_rejected [OF this assms(3)] show ?thesis
    using views_set_artifacts [of "as_rejected _ time" ArtifactRejected "\<lambda>a. ta_id a = k" "\<lambda>j key st. j = k"] by auto
qed

lemma failed_views:
  assumes "distinct (map ta_id (ts_artifacts s))" "(k, key, st) \<in> set (views s)" "sa_mark_failed api k err time s = (r, s')"
  shows "run_artifacts s' = run_artifacts s \<and> views s' = restated (\<lambda>j key st. if j = k then ArtifactFailed else st) (views s)"
proof -
  from found_view [OF assms(2,1)] obtain a where "find_artifact k s = Some a" by auto
  from mark_failed [OF this, of err time] assms(3) have "s' = set_artifacts (\<lambda>a. ta_id a = k) (as_failed err time) s" by simp
  then show ?thesis
    using views_set_artifacts [of "as_failed err time" ArtifactFailed "\<lambda>a. ta_id a = k" "\<lambda>j key st. j = k"] by simp
qed

lemma start_views:
  assumes "distinct (map ta_id (ts_artifacts s))" "(k, key, st) \<in> set (views s)"
    "sa_start_run api k name trigger metadata time s = (r, s')"
  shows "views s' = views s \<and> run_artifacts s' = run_artifacts s @ [k]"
proof -
  from found_view [OF assms(2,1)] obtain a where "find_artifact k s = Some a" by auto
  from start_run [OF this assms(3)] show ?thesis by (auto simp: views_def run_artifacts_def new_run_def)
qed

lemma dump_views:
  shows "run_artifacts (snd (sa_dump api key time s)) = run_artifacts s \<and>
    (views (snd (sa_dump api key time s)) = restated (\<lambda>k key' st. if key' = key \<and> st = ArtifactReady then ArtifactSuperseded else st) (views s) \<or>
     views (snd (sa_dump api key time s)) = views s)"
  using dump [OF refl, of key time s]
    views_set_artifacts [of "as_superseded None time" ArtifactSuperseded "ready_of key" "\<lambda>k key' st. key' = key \<and> st = ArtifactReady" s]
  by (auto simp: ready_of_def)

lemma recording_views: "recording api s s' \<Longrightarrow> views s' = views s \<and> run_artifacts s' = run_artifacts s"
  by (rule quiet_views, erule recording.cases)
    (simp_all add: finish_run reject_run fail_run record_call record_validation update_phase)

end

section \<open>The invariant\<close>

definition fleet_ok :: "view list \<Rightarrow> string list \<Rightarrow> worker list \<Rightarrow> bool" where
  "fleet_ok vs rs ws \<longleftrightarrow>
     distinct (map fst vs) \<and> set rs \<subseteq> fst ` set vs \<and>
     distinct (map wk_artifact (filter live ws)) \<and>
     (\<forall>w \<in> set ws. live w \<longrightarrow> (wk_artifact w, wk_key w, ArtifactRunning) \<in> set vs) \<and>
     (\<forall>w \<in> set ws. wk_phase w = Claimed \<longrightarrow> count_list rs (wk_artifact w) < MAX_OPERATIONAL_RUNS) \<and>
     (\<forall>k key st. (k, key, st) \<in> set vs \<longrightarrow> count_list rs k \<le> MAX_OPERATIONAL_RUNS \<and>
        (st = ArtifactPending \<longrightarrow> count_list rs k < MAX_OPERATIONAL_RUNS)) \<and>
     (\<forall>k k' key. (k, key, ArtifactReady) \<in> set vs \<longrightarrow> (k', key, ArtifactReady) \<in> set vs \<longrightarrow> k = k')"

lemma restated_in: "(k, key, st) \<in> set (restated h vs) \<longleftrightarrow> (\<exists>st0. (k, key, st0) \<in> set vs \<and> st = h k key st0)"
  unfolding restated_def by force

lemma restated_ids [simp]: "map fst (restated h vs) = map fst vs"
  by (simp add: restated_def comp_def case_prod_unfold)

lemma restated_id_set [simp]: "fst ` set (restated h vs) = fst ` set vs"
  by (simp flip: set_map)

lemma same_view: "distinct (map fst vs) \<Longrightarrow> (k, key, st) \<in> set vs \<Longrightarrow> (k, key', st') \<in> set vs \<Longrightarrow> key = key' \<and> st = st'"
  by (auto dest: eq_key_imp_eq_value)

text \<open>A restatement keeps the invariant when it leaves the artifacts of live workers running, makes none pending that
  has used up its runs, and makes at most one ready, superseding the others of its key.\<close>

lemma restated_ok:
  assumes ok: "fleet_ok vs rs ws"
    and ws: "distinct (map wk_artifact (filter live ws'))"
    and live: "\<And>w. w \<in> set ws' \<Longrightarrow> live w \<Longrightarrow> (wk_artifact w, wk_key w, ArtifactRunning) \<in> set (restated h vs)"
    and claimed: "\<And>w. w \<in> set ws' \<Longrightarrow> wk_phase w = Claimed \<Longrightarrow> count_list rs (wk_artifact w) < MAX_OPERATIONAL_RUNS"
    and pending: "\<And>k key st. (k, key, st) \<in> set vs \<Longrightarrow> h k key st = ArtifactPending \<Longrightarrow> count_list rs k < MAX_OPERATIONAL_RUNS"
    and ready: "\<And>k k' key st st'. (k, key, st) \<in> set vs \<Longrightarrow> (k', key, st') \<in> set vs \<Longrightarrow>
      h k key st = ArtifactReady \<Longrightarrow> h k' key st' = ArtifactReady \<Longrightarrow> k = k'"
  shows "fleet_ok (restated h vs) rs ws'"
  unfolding fleet_ok_def
proof (intro conjI)
  show "distinct (map fst (restated h vs))" "set rs \<subseteq> fst ` set (restated h vs)" using ok by (simp_all add: fleet_ok_def)
  show "\<forall>k key st. (k, key, st) \<in> set (restated h vs) \<longrightarrow> count_list rs k \<le> MAX_OPERATIONAL_RUNS \<and>
      (st = ArtifactPending \<longrightarrow> count_list rs k < MAX_OPERATIONAL_RUNS)"
  proof (intro allI impI)
    fix k key st assume "(k, key, st) \<in> set (restated h vs)"
    then obtain st0 where st0: "(k, key, st0) \<in> set vs" "st = h k key st0" by (auto simp: restated_in)
    with ok have "count_list rs k \<le> MAX_OPERATIONAL_RUNS" unfolding fleet_ok_def by blast
    with pending [OF st0(1)] st0(2)
    show "count_list rs k \<le> MAX_OPERATIONAL_RUNS \<and> (st = ArtifactPending \<longrightarrow> count_list rs k < MAX_OPERATIONAL_RUNS)" by simp
  qed
  show "\<forall>k k' key. (k, key, ArtifactReady) \<in> set (restated h vs) \<longrightarrow> (k', key, ArtifactReady) \<in> set (restated h vs) \<longrightarrow> k = k'"
    using ready unfolding restated_in by metis
qed (use ws live claimed in blast)+

lemma fewer_workers_ok:
  assumes "fleet_ok vs rs ws" "set ws' \<subseteq> set ws" "distinct (map wk_artifact (filter live ws'))"
  shows "fleet_ok vs rs ws'"
  using assms unfolding fleet_ok_def by blast

lemma filter_workers_distinct:
  "distinct (map wk_artifact (filter live ws)) \<Longrightarrow> distinct (map wk_artifact (filter live (filter P ws)))"
  using distinct_map_filter [of wk_artifact "filter live ws" P] by (simp add: conj_commute)

lemma drop_distinct:
  assumes "distinct (map wk_artifact (filter live ws))"
  shows "distinct (map wk_artifact (filter live (take i ws @ drop (Suc i) ws)))"
proof (cases "i < length ws")
  case True
  from id_take_nth_drop [OF this] have "filter live ws = filter live (take i ws) @ filter live [ws ! i] @ filter live (drop (Suc i) ws)"
    by (metis append_Cons append_Nil filter_append)
  with assms show ?thesis by auto
qed (use assms in simp)

lemma split_worker: "i < length ws \<Longrightarrow> ws = take i ws @ ws ! i # drop (Suc i) ws"
  by (rule id_take_nth_drop)

lemma update_distinct:
  assumes "distinct (map wk_artifact (filter live ws))" "i < length ws" "live (ws ! i)" "wk_artifact w = wk_artifact (ws ! i)"
  shows "distinct (map wk_artifact (filter live (ws[i := w])))"
proof -
  have "distinct (map wk_artifact (filter live (take i ws @ ws ! i # drop (Suc i) ws)))"
    using assms(1) split_worker [OF assms(2)] by simp
  with assms(2-4) show ?thesis by (simp add: upd_conv_take_nth_drop)
qed

lemma other_worker:
  assumes "distinct (map wk_artifact (filter live ws))" "i < length ws" "live (ws ! i)" "\<not> live w'"
    and "w \<in> set (ws[i := w'])" "live w"
  shows "w \<in> set ws \<and> wk_artifact w \<noteq> wk_artifact (ws ! i)"
proof -
  have "distinct (map wk_artifact (filter live (take i ws @ ws ! i # drop (Suc i) ws)))"
    using assms(1) split_worker [OF assms(2)] by simp
  then have out: "wk_artifact (ws ! i) \<notin> wk_artifact ` {x \<in> set (take i ws) \<union> set (drop (Suc i) ws). live x}"
    using assms(3) by auto
  have w: "w \<in> set (take i ws) \<union> set (drop (Suc i) ws)"
    using assms(2,4-6) by (auto simp: upd_conv_take_nth_drop)
  then have "w \<in> set ws" by (auto dest: in_set_takeD in_set_dropD)
  moreover have "wk_artifact w \<in> wk_artifact ` {x \<in> set (take i ws) \<union> set (drop (Suc i) ws). live x}"
    using w assms(6) by blast
  ultimately show ?thesis using out by metis
qed

definition fleet_invariant :: "fleet \<Rightarrow> bool" where
  "fleet_invariant f \<longleftrightarrow> fleet_ok (views (fl_store f)) (run_artifacts (fl_store f)) (fl_workers f)"

lemma invariant_distinct: "fleet_invariant f \<Longrightarrow> distinct (map ta_id (ts_artifacts (fl_store f)))"
  unfolding fleet_invariant_def fleet_ok_def ids_views [symmetric] by blast

lemma working_view:
  assumes "fleet_invariant f" "worker_at i phase f" "phase \<noteq> Ending"
  shows "i < length (fl_workers f)" "live (fl_workers f ! i)"
    "(wk_artifact (fl_workers f ! i), wk_key (fl_workers f ! i), ArtifactRunning) \<in> set (views (fl_store f))"
proof -
  show i: "i < length (fl_workers f)" and live: "live (fl_workers f ! i)"
    using assms(2,3) by (simp_all add: worker_at_def live_def)
  have "fl_workers f ! i \<in> set (fl_workers f)" using i by simp
  with live assms(1) show "(wk_artifact (fl_workers f ! i), wk_key (fl_workers f ! i), ArtifactRunning) \<in> set (views (fl_store f))"
    unfolding fleet_invariant_def fleet_ok_def by blast
qed

text \<open>The end of a worker, with a store that restates its artifact and supersedes ready ones.\<close>

lemma ending_keeps:
  assumes inv: "fleet_invariant f" and at: "worker_at i (Generating run) f"
    and runs: "run_artifacts s = run_artifacts (fl_store f)"
    and views: "views s = restated h (views (fl_store f))"
    and others: "\<And>k key. k \<noteq> wk_artifact (fl_workers f ! i) \<Longrightarrow> h k key ArtifactRunning = ArtifactRunning"
    and pending: "\<And>k key st. h k key st = ArtifactPending \<Longrightarrow> st = ArtifactPending"
    and ready: "\<And>k k' key st st'. (k, key, st) \<in> set (views (fl_store f)) \<Longrightarrow> (k', key, st') \<in> set (views (fl_store f)) \<Longrightarrow>
      h k key st = ArtifactReady \<Longrightarrow> h k' key st' = ArtifactReady \<Longrightarrow> k = k'"
  shows "fleet_invariant (set_worker i Ending s f)"
proof -
  let ?ws = "fl_workers f" let ?w = "(?ws ! i)\<lparr> wk_phase := Ending \<rparr>"
  note w = working_view [OF inv at, simplified]
  from inv have ok: "fleet_ok (views (fl_store f)) (run_artifacts (fl_store f)) ?ws" by (simp add: fleet_invariant_def)
  then have dist: "distinct (map wk_artifact (filter live ?ws))" by (simp add: fleet_ok_def)
  have dead: "\<not> live ?w" by (simp add: live_def)
  have "fleet_ok (restated h (views (fl_store f))) (run_artifacts (fl_store f)) (?ws[i := ?w])"
  proof (rule restated_ok [OF ok])
    show "distinct (map wk_artifact (filter live (?ws[i := ?w])))" by (rule update_distinct [OF dist w(1,2)]) simp
  next
    fix v assume v: "v \<in> set (?ws[i := ?w])" "live v"
    with other_worker [OF dist w(1,2) dead v] ok
    have "(wk_artifact v, wk_key v, ArtifactRunning) \<in> set (views (fl_store f))" "wk_artifact v \<noteq> wk_artifact (?ws ! i)"
      unfolding fleet_ok_def by blast+
    then show "(wk_artifact v, wk_key v, ArtifactRunning) \<in> set (restated h (views (fl_store f)))"
      using others unfolding restated_in by metis
  next
    fix v assume v: "v \<in> set (?ws[i := ?w])" "wk_phase v = Claimed"
    then have "live v" by (simp add: live_def)
    with other_worker [OF dist w(1,2) dead v(1)] v(2) ok
    show "count_list (run_artifacts (fl_store f)) (wk_artifact v) < MAX_OPERATIONAL_RUNS" unfolding fleet_ok_def by blast
  next
    fix k key st assume "(k, key, st) \<in> set (views (fl_store f))" "h k key st = ArtifactPending"
    with pending ok show "count_list (run_artifacts (fl_store f)) k < MAX_OPERATIONAL_RUNS" unfolding fleet_ok_def by blast
  qed (use ready in blast)
  then show ?thesis by (simp add: fleet_invariant_def set_worker_def runs views)
qed

lemma restated_same: "restated (\<lambda>k key st. st) vs = vs"
  by (simp add: restated_def case_prod_unfold)

lemma dropped_keeps:
  assumes "fleet_invariant f" "set ws \<subseteq> set (fl_workers f)" "distinct (map wk_artifact (filter live ws))"
  shows "fleet_invariant (f\<lparr> fl_workers := ws \<rparr>)"
  using fewer_workers_ok [of _ _ "fl_workers f" ws] assms by (simp add: fleet_invariant_def)

lemma restated_keeps:
  assumes inv: "fleet_invariant f" and runs: "run_artifacts s = run_artifacts (fl_store f)"
    and views: "views s = restated h (views (fl_store f))"
    and running: "\<And>k key. (k, key, ArtifactRunning) \<in> set (views (fl_store f)) \<Longrightarrow> h k key ArtifactRunning = ArtifactRunning"
    and pending: "\<And>k key st. (k, key, st) \<in> set (views (fl_store f)) \<Longrightarrow> h k key st = ArtifactPending \<Longrightarrow>
      st = ArtifactPending \<or> count_list (run_artifacts (fl_store f)) k < MAX_OPERATIONAL_RUNS"
    and ready: "\<And>k key st. h k key st = ArtifactReady \<Longrightarrow> st = ArtifactReady"
  shows "fleet_invariant (f\<lparr> fl_store := s \<rparr>)"
proof -
  from inv have ok: "fleet_ok (views (fl_store f)) (run_artifacts (fl_store f)) (fl_workers f)" by (simp add: fleet_invariant_def)
  have "fleet_ok (restated h (views (fl_store f))) (run_artifacts (fl_store f)) (fl_workers f)"
  proof (rule restated_ok [OF ok])
    show "distinct (map wk_artifact (filter live (fl_workers f)))" using ok by (simp add: fleet_ok_def)
  next
    fix w assume "w \<in> set (fl_workers f)" "live w"
    with ok have "(wk_artifact w, wk_key w, ArtifactRunning) \<in> set (views (fl_store f))" unfolding fleet_ok_def by blast
    with running show "(wk_artifact w, wk_key w, ArtifactRunning) \<in> set (restated h (views (fl_store f)))"
      unfolding restated_in by metis
  next
    fix w assume "w \<in> set (fl_workers f)" "wk_phase w = Claimed"
    with ok show "count_list (run_artifacts (fl_store f)) (wk_artifact w) < MAX_OPERATIONAL_RUNS" unfolding fleet_ok_def by blast
  next
    fix k key st assume "(k, key, st) \<in> set (views (fl_store f))" "h k key st = ArtifactPending"
    with pending ok show "count_list (run_artifacts (fl_store f)) k < MAX_OPERATIONAL_RUNS" unfolding fleet_ok_def by blast
  next
    fix k k' key st st'
    assume "(k, key, st) \<in> set (views (fl_store f))" "(k', key, st') \<in> set (views (fl_store f))"
      "h k key st = ArtifactReady" "h k' key st' = ArtifactReady"
    with ready ok show "k = k'" unfolding fleet_ok_def by metis
  qed
  then show ?thesis by (simp add: fleet_invariant_def runs views)
qed

text \<open>The steps, one by one, for a store that keeps the contract.\<close>

context thinking_store begin

lemma create_keeps:
  assumes inv: "fleet_invariant f" and create: "sa_create api key input time (fl_store f) = (Inr a, s)"
    and fresh: "ta_id a \<notin> ta_id ` set (ts_artifacts (fl_store f)) \<union> set (run_artifacts (fl_store f))"
  shows "fleet_invariant (f\<lparr> fl_store := s \<rparr>)"
proof -
  let ?vs = "views (fl_store f)" let ?rs = "run_artifacts (fl_store f)"
  from inv have ok: "fleet_ok ?vs ?rs (fl_workers f)" by (simp add: fleet_invariant_def)
  have new: "ta_id a \<notin> fst ` set ?vs" using fresh ids_views [of "fl_store f"] by (metis UnI1 list.set_map)
  have none: "count_list ?rs (ta_id a) = 0" using fresh by (simp add: count_list_0_iff)
  have "fleet_ok (?vs @ [(ta_id a, key, ArtifactPending)]) ?rs (fl_workers f)"
    unfolding fleet_ok_def
  proof (intro conjI)
    show "distinct (map fst (?vs @ [(ta_id a, key, ArtifactPending)]))" using ok new by (simp add: fleet_ok_def)
    show "set ?rs \<subseteq> fst ` set (?vs @ [(ta_id a, key, ArtifactPending)])" using ok by (auto simp: fleet_ok_def)
    show "\<forall>k k' key'. (k, key', ArtifactReady) \<in> set (?vs @ [(ta_id a, key, ArtifactPending)]) \<longrightarrow>
        (k', key', ArtifactReady) \<in> set (?vs @ [(ta_id a, key, ArtifactPending)]) \<longrightarrow> k = k'"
      using ok by (simp add: fleet_ok_def)
    show "\<forall>k key' st. (k, key', st) \<in> set (?vs @ [(ta_id a, key, ArtifactPending)]) \<longrightarrow>
        count_list ?rs k \<le> MAX_OPERATIONAL_RUNS \<and> (st = ArtifactPending \<longrightarrow> count_list ?rs k < MAX_OPERATIONAL_RUNS)"
    proof (intro allI impI)
      fix k key' st assume "(k, key', st) \<in> set (?vs @ [(ta_id a, key, ArtifactPending)])"
      then consider "(k, key', st) \<in> set ?vs" | "k = ta_id a" by auto
      then show "count_list ?rs k \<le> MAX_OPERATIONAL_RUNS \<and> (st = ArtifactPending \<longrightarrow> count_list ?rs k < MAX_OPERATIONAL_RUNS)"
      proof cases
        case 1
        with ok show ?thesis unfolding fleet_ok_def by blast
      next
        case 2
        with none show ?thesis by (simp add: MAX_OPERATIONAL_RUNS_def)
      qed
    qed
  qed (use ok in \<open>auto simp: fleet_ok_def\<close>)
  with create_views [OF create] show ?thesis by (simp add: fleet_invariant_def)
qed

lemma requeue_keeps:
  assumes inv: "fleet_invariant f" and n: "n < MAX_OPERATIONAL_RUNS"
    and requeue: "sa_requeue api block n before time excluded (fl_store f) = (r, s)"
  shows "fleet_invariant (f\<lparr> fl_store := s \<rparr>)"
proof -
  from requeue_views [OF invariant_distinct [OF inv] requeue] obtain K where K:
    "run_artifacts s = run_artifacts (fl_store f)"
    "views s = restated (\<lambda>k key st. if k \<in> K then ArtifactPending else st) (views (fl_store f))"
    "\<forall>k \<in> K. run_count k (fl_store f) = n \<and> (\<exists>key. (k, key, ArtifactFailed) \<in> set (views (fl_store f)))" by blast
  have dist: "distinct (map fst (views (fl_store f)))" using inv by (simp add: fleet_invariant_def fleet_ok_def)
  show ?thesis
  proof (rule restated_keeps [OF inv K(1,2)])
    fix k key assume run: "(k, key, ArtifactRunning) \<in> set (views (fl_store f))"
    have "k \<notin> K"
    proof
      assume "k \<in> K"
      with K(3) obtain key' where "(k, key', ArtifactFailed) \<in> set (views (fl_store f))" by blast
      from same_view [OF dist run this] show False by simp
    qed
    then show "(if k \<in> K then ArtifactPending else ArtifactRunning) = ArtifactRunning" by simp
  next
    fix k key st assume "(if k \<in> K then ArtifactPending else st) = ArtifactPending"
    then show "st = ArtifactPending \<or> count_list (run_artifacts (fl_store f)) k < MAX_OPERATIONAL_RUNS"
      using K(3) n by (auto simp: run_count_view split: if_splits)
  qed (auto split: if_splits)
qed

lemma dump_keeps:
  assumes "fleet_invariant f" shows "fleet_invariant (f\<lparr> fl_store := snd (sa_dump api key time (fl_store f)) \<rparr>)"
proof -
  from dump_views [of key time "fl_store f"] consider
    "views (snd (sa_dump api key time (fl_store f))) =
       restated (\<lambda>k key' st. if key' = key \<and> st = ArtifactReady then ArtifactSuperseded else st) (views (fl_store f))"
    | "views (snd (sa_dump api key time (fl_store f))) = views (fl_store f)" by blast
  then show ?thesis
  proof cases
    case 1
    show ?thesis
      by (rule restated_keeps [OF assms _ 1]) (use dump_views [of key time "fl_store f"] in \<open>auto split: if_splits\<close>)
  next
    case 2
    with dump_views [of key time "fl_store f"] assms show ?thesis by (simp add: fleet_invariant_def)
  qed
qed

lemma ready_keeps:
  assumes inv: "fleet_invariant f" and at: "worker_at i (Generating run) f"
    and ready: "sa_mark_ready api (wk_artifact (fl_workers f ! i)) (wk_key (fl_workers f ! i)) out time (fl_store f) = (r, s)"
  shows "fleet_invariant (set_worker i Ending s f)"
proof -
  note w = working_view [OF inv at, simplified]
  have uniq: "k = k'" if "(k, key, ArtifactReady) \<in> set (views (fl_store f))" "(k', key, ArtifactReady) \<in> set (views (fl_store f))" for k k' key
    using inv that unfolding fleet_invariant_def fleet_ok_def by blast
  have dist: "distinct (map fst (views (fl_store f)))" using inv by (simp add: fleet_invariant_def fleet_ok_def)
  let ?k = "wk_artifact (fl_workers f ! i)" let ?key = "wk_key (fl_workers f ! i)"
  from ready_views [OF invariant_distinct [OF inv] w(3) ready] consider
    "views s = restated (\<lambda>j key' st. if j = ?k then ArtifactReady else if key' = ?key \<and> st = ArtifactReady then ArtifactSuperseded else st) (views (fl_store f))"
    | "views s = views (fl_store f)" by blast
  then show ?thesis
  proof cases
    case 1
    show ?thesis
    proof (rule ending_keeps [OF inv at _ 1])
      fix j j' key st st'
      assume v: "(j, key, st) \<in> set (views (fl_store f))" "(j', key, st') \<in> set (views (fl_store f))"
        "(if j = ?k then ArtifactReady else if key = ?key \<and> st = ArtifactReady then ArtifactSuperseded else st) = ArtifactReady"
        "(if j' = ?k then ArtifactReady else if key = ?key \<and> st' = ArtifactReady then ArtifactSuperseded else st') = ArtifactReady"
      have "key = ?key" if "j = ?k \<or> j' = ?k" using same_view [OF dist w(3)] v(1,2) that by blast
      with v uniq show "j = j'" by (auto split: if_splits)
    qed (use ready_views [OF invariant_distinct [OF inv] w(3) ready] in \<open>auto split: if_splits\<close>)
  next
    case 2
    show ?thesis
      by (rule ending_keeps [OF inv at, of s "\<lambda>k key st. st"])
        (use ready_views [OF invariant_distinct [OF inv] w(3) ready] 2 uniq in \<open>auto simp: restated_same\<close>)
  qed
qed

lemma lost_keeps:
  assumes inv: "fleet_invariant f" and at: "worker_at i (Generating run) f"
    and same: "views s = views (fl_store f)" "run_artifacts s = run_artifacts (fl_store f)"
  shows "fleet_invariant (set_worker i Ending s f)"
proof -
  have "k = k'" if "(k, key, ArtifactReady) \<in> set (views (fl_store f))" "(k', key, ArtifactReady) \<in> set (views (fl_store f))" for k k' key
    using inv that unfolding fleet_invariant_def fleet_ok_def by blast
  then show ?thesis
    by (intro ending_keeps [OF inv at, of s "\<lambda>k key st. st"]) (auto simp: restated_same same)
qed

lemma settling_keeps:
  assumes inv: "fleet_invariant f" and at: "worker_at i (Generating run) f"
    and st: "to \<noteq> ArtifactPending" "to \<noteq> ArtifactReady" and runs: "run_artifacts s = run_artifacts (fl_store f)"
    and views: "views s = restated (\<lambda>j key st. if j = wk_artifact (fl_workers f ! i) then to else st) (views (fl_store f))"
  shows "fleet_invariant (set_worker i Ending s f)"
proof -
  have "k = k'" if "(k, key, ArtifactReady) \<in> set (views (fl_store f))" "(k', key, ArtifactReady) \<in> set (views (fl_store f))" for k k' key
    using inv that unfolding fleet_invariant_def fleet_ok_def by blast
  then show ?thesis
    by (intro ending_keeps [OF inv at runs views]) (use st in \<open>auto split: if_splits\<close>)
qed

lemma rejected_keeps:
  assumes inv: "fleet_invariant f" and at: "worker_at i (Generating run) f"
    and rejected: "sa_mark_rejected api (wk_artifact (fl_workers f ! i)) rejection time (fl_store f) = (r, s)"
  shows "fleet_invariant (set_worker i Ending s f)"
proof -
  note w = working_view [OF inv at, simplified]
  from rejected_views [OF invariant_distinct [OF inv] w(3) rejected] show ?thesis
    using settling_keeps [OF inv at, of ArtifactRejected s] lost_keeps [OF inv at, of s] by auto
qed

lemma failing_keeps:
  assumes inv: "fleet_invariant f" and at: "worker_at i (Generating run) f"
    and failed: "sa_mark_failed api (wk_artifact (fl_workers f ! i)) err time (fl_store f) = (r, s)"
  shows "fleet_invariant (set_worker i Ending s f)"
proof -
  note w = working_view [OF inv at, simplified]
  from failed_views [OF invariant_distinct [OF inv] w(3) failed] show ?thesis
    using settling_keeps [OF inv at, of ArtifactFailed s] by auto
qed

lemma start_keeps:
  assumes inv: "fleet_invariant f" and at: "worker_at i Claimed f"
    and start: "sa_start_run api (wk_artifact (fl_workers f ! i)) name trigger metadata time (fl_store f) = (Inr run, s)"
  shows "fleet_invariant (set_worker i (Generating run) s f)"
proof -
  let ?ws = "fl_workers f" let ?w = "(?ws ! i)\<lparr> wk_phase := Generating run \<rparr>" let ?k = "wk_artifact (?ws ! i)"
  let ?vs = "views (fl_store f)" let ?rs = "run_artifacts (fl_store f)"
  note w = working_view [OF inv at, simplified]
  from inv have ok: "fleet_ok ?vs ?rs ?ws" by (simp add: fleet_invariant_def)
  then have dist: "distinct (map wk_artifact (filter live ?ws))" and ids: "distinct (map fst ?vs)" by (simp_all add: fleet_ok_def)
  have "wk_phase (?ws ! i) = Claimed" using at by (simp add: worker_at_def)
  with w(1) ok have few: "count_list ?rs ?k < MAX_OPERATIONAL_RUNS" unfolding fleet_ok_def using nth_mem by blast
  have new: "set (?ws[i := ?w]) \<subseteq> insert ?w (set ?ws)" by (rule set_update_subset_insert)
  have other: "wk_artifact v \<noteq> ?k" if "v \<in> set (?ws[i := ?w])" "wk_phase v = Claimed" for v
  proof -
    let ?dead = "(?ws ! i)\<lparr> wk_phase := Ending \<rparr>"
    have "v \<noteq> ?w" using that(2) by auto
    then have "v \<in> set (?ws[i := ?dead])" using that(1) w(1) by (auto simp: upd_conv_take_nth_drop)
    moreover have "live v" "\<not> live ?dead" using that(2) by (simp_all add: live_def)
    ultimately show ?thesis using other_worker [OF dist w(1,2)] by blast
  qed
  have "fleet_ok ?vs (?rs @ [?k]) (?ws[i := ?w])"
    unfolding fleet_ok_def
  proof (intro conjI)
    have "?k \<in> fst ` set ?vs" using w(3) by (rule image_eqI [rotated]) simp
    moreover have "set ?rs \<subseteq> fst ` set ?vs" using ok unfolding fleet_ok_def by blast
    ultimately show "set (?rs @ [?k]) \<subseteq> fst ` set ?vs" by simp
    show "distinct (map wk_artifact (filter live (?ws[i := ?w])))" by (rule update_distinct [OF dist w(1,2)]) simp
    show "\<forall>v \<in> set (?ws[i := ?w]). live v \<longrightarrow> (wk_artifact v, wk_key v, ArtifactRunning) \<in> set ?vs"
    proof (intro ballI impI)
      fix v assume "v \<in> set (?ws[i := ?w])" "live v"
      show "(wk_artifact v, wk_key v, ArtifactRunning) \<in> set ?vs"
      proof (cases "v = ?w")
        case True
        with w(3) show ?thesis by simp
      next
        case False
        with new \<open>v \<in> set (?ws[i := ?w])\<close> have "v \<in> set ?ws" by blast
        with ok \<open>live v\<close> show ?thesis unfolding fleet_ok_def by blast
      qed
    qed
    show "\<forall>v \<in> set (?ws[i := ?w]). wk_phase v = Claimed \<longrightarrow> count_list (?rs @ [?k]) (wk_artifact v) < MAX_OPERATIONAL_RUNS"
    proof (intro ballI impI)
      fix v assume v: "v \<in> set (?ws[i := ?w])" "wk_phase v = Claimed"
      then have "v \<noteq> ?w" by auto
      with new v(1) have "v \<in> set ?ws" by blast
      with v(2) ok have "count_list ?rs (wk_artifact v) < MAX_OPERATIONAL_RUNS" unfolding fleet_ok_def by blast
      with other [OF v] show "count_list (?rs @ [?k]) (wk_artifact v) < MAX_OPERATIONAL_RUNS" by simp
    qed
    show "\<forall>k key st. (k, key, st) \<in> set ?vs \<longrightarrow> count_list (?rs @ [?k]) k \<le> MAX_OPERATIONAL_RUNS \<and>
        (st = ArtifactPending \<longrightarrow> count_list (?rs @ [?k]) k < MAX_OPERATIONAL_RUNS)"
    proof (intro allI impI)
      fix k key st assume v: "(k, key, st) \<in> set ?vs"
      with ok have c: "count_list ?rs k \<le> MAX_OPERATIONAL_RUNS" "st = ArtifactPending \<longrightarrow> count_list ?rs k < MAX_OPERATIONAL_RUNS"
        unfolding fleet_ok_def by blast+
      show "count_list (?rs @ [?k]) k \<le> MAX_OPERATIONAL_RUNS \<and> (st = ArtifactPending \<longrightarrow> count_list (?rs @ [?k]) k < MAX_OPERATIONAL_RUNS)"
      proof (cases "k = ?k")
        case True
        with same_view [OF ids _ w(3)] v have "st = ArtifactRunning" by blast
        with True few show ?thesis by simp
      next
        case False
        with c show ?thesis by simp
      qed
    qed
    show "distinct (map fst ?vs)" by (rule ids)
    show "\<forall>k k' key. (k, key, ArtifactReady) \<in> set ?vs \<longrightarrow> (k', key, ArtifactReady) \<in> set ?vs \<longrightarrow> k = k'"
      using ok unfolding fleet_ok_def by blast
  qed
  with start_views [OF invariant_distinct [OF inv] w(3) start] show ?thesis
    by (simp add: fleet_invariant_def set_worker_def)
qed

lemma claim_keeps:
  assumes inv: "fleet_invariant f" and claim: "sa_claim api block limit time (fl_store f) = (Inr out, s)"
  shows "fleet_invariant (f\<lparr> fl_store := s, fl_workers := fl_workers f @ taken_up p out f \<rparr>)"
proof -
  let ?vs = "views (fl_store f)" let ?rs = "run_artifacts (fl_store f)" let ?ws = "fl_workers f" let ?K = "ta_id ` set out"
  let ?h = "\<lambda>k key st. if k \<in> ?K then ArtifactRunning else st"
  from inv have ok: "fleet_ok ?vs ?rs ?ws" by (simp add: fleet_invariant_def)
  then have ids: "distinct (map fst ?vs)" by (simp add: fleet_ok_def)
  from claim_views [OF invariant_distinct [OF inv] claim] have c: "distinct (map ta_id out)" "run_artifacts s = ?rs"
    "views s = restated ?h ?vs" and was: "\<forall>a \<in> set out. (ta_id a, artifact_key a, ArtifactPending) \<in> set ?vs" by blast+
  then have pend: "\<exists>key. (k, key, ArtifactPending) \<in> set ?vs" if "k \<in> ?K" for k using that by blast
  have keys: "(ta_id a, artifact_key a, ArtifactRunning) \<in> set (restated ?h ?vs)" if "a \<in> set out" for a
    using was that unfolding restated_in by (intro exI [of _ ArtifactPending]) simp
  have not_live: "wk_artifact w \<notin> ?K" if "w \<in> set ?ws" "live w" for w
  proof
    assume "wk_artifact w \<in> ?K"
    with pend obtain key where p: "(wk_artifact w, key, ArtifactPending) \<in> set ?vs" by blast
    from ok that have "(wk_artifact w, wk_key w, ArtifactRunning) \<in> set ?vs" unfolding fleet_ok_def by blast
    from same_view [OF ids this p] show False by simp
  qed
  have taken: "wk_artifact w \<in> ?K" if "w \<in> set (taken_up p out f)" for w
    using that by (auto simp: taken_up_def new_worker_def)
  have "map wk_artifact (taken_up p out f) = map ta_id (filter (\<lambda>a. ta_id a \<notin> set (active_of p f)) out)"
    by (simp add: taken_up_def new_worker_def comp_def)
  then have dist_new: "distinct (map wk_artifact (taken_up p out f))" using c(1) by (simp add: distinct_map_filter)
  have "fleet_ok (restated ?h ?vs) ?rs (?ws @ taken_up p out f)"
  proof (rule restated_ok [OF ok])
    have "distinct (map wk_artifact (filter live (taken_up p out f)))" using dist_new by (simp add: distinct_map_filter)
    moreover have "set (map wk_artifact (filter live ?ws)) \<inter> set (map wk_artifact (filter live (taken_up p out f))) = {}"
    proof -
      have False if "v \<in> set ?ws" "live v" "w \<in> set (taken_up p out f)" "wk_artifact v = wk_artifact w" for v w
        using not_live [OF that(1,2)] taken [OF that(3)] that(4) by simp
      then show ?thesis unfolding set_map set_filter by blast
    qed
    ultimately show "distinct (map wk_artifact (filter live (?ws @ taken_up p out f)))"
      using ok by (simp add: fleet_ok_def)
  next
    fix w assume w: "w \<in> set (?ws @ taken_up p out f)" "live w"
    show "(wk_artifact w, wk_key w, ArtifactRunning) \<in> set (restated ?h ?vs)"
    proof (cases "w \<in> set ?ws")
      case True
      with w(2) ok have "(wk_artifact w, wk_key w, ArtifactRunning) \<in> set ?vs" unfolding fleet_ok_def by blast
      then show ?thesis unfolding restated_in by auto
    next
      case False
      with w(1) obtain a where "a \<in> set out" "w = new_worker p a" by (auto simp: taken_up_def)
      with keys show ?thesis by (simp add: new_worker_def)
    qed
  next
    fix w assume w: "w \<in> set (?ws @ taken_up p out f)" "wk_phase w = Claimed"
    show "count_list ?rs (wk_artifact w) < MAX_OPERATIONAL_RUNS"
    proof (cases "w \<in> set ?ws")
      case True
      with w(2) ok show ?thesis unfolding fleet_ok_def by blast
    next
      case False
      with w(1) taken pend obtain key where "(wk_artifact w, key, ArtifactPending) \<in> set ?vs" by fastforce
      with ok show ?thesis unfolding fleet_ok_def by blast
    qed
  next
    fix k key st assume "(k, key, st) \<in> set ?vs" "?h k key st = ArtifactPending"
    then have "(k, key, ArtifactPending) \<in> set ?vs" by (simp split: if_splits)
    with ok show "count_list ?rs k < MAX_OPERATIONAL_RUNS" unfolding fleet_ok_def by blast
  next
    fix k k' key st st'
    assume "(k, key, st) \<in> set ?vs" "(k', key, st') \<in> set ?vs" "?h k key st = ArtifactReady" "?h k' key st' = ArtifactReady"
    then have "(k, key, ArtifactReady) \<in> set ?vs" "(k', key, ArtifactReady) \<in> set ?vs" by (simp_all split: if_splits)
    with ok show "k = k'" unfolding fleet_ok_def by blast
  qed
  then show ?thesis by (simp add: fleet_invariant_def c(2,3))
qed

end

section \<open>Every interleaving\<close>

lemma runner_step_keeps:
  assumes contract: "\<And>api. stores api \<Longrightarrow> thinking_store api" and step: "runner_step stores block f f'"
    and inv: "fleet_invariant f"
  shows "fleet_invariant f'"
  using step
proof cases
  case (created api key input time a s)
  with thinking_store.create_keeps [OF contract inv] show ?thesis by blast
next
  case (requeued api n before time p r s)
  with thinking_store.requeue_keeps [OF contract inv] show ?thesis by blast
next
  case (claimed api limit time out s p)
  with thinking_store.claim_keeps [OF contract inv] show ?thesis by blast
next
  case (parse_failed i)
  have "fleet_ok (views (fl_store f)) (run_artifacts (fl_store f)) (fl_workers f)" using inv by (simp add: fleet_invariant_def)
  then have "distinct (map wk_artifact (filter live (fl_workers f)))" by (simp add: fleet_ok_def)
  from drop_distinct [OF this] show ?thesis
    unfolding parse_failed drop_worker_def
    by (intro dropped_keeps [OF inv]) (auto dest: in_set_takeD in_set_dropD)
next
  case (started api i trigger metadata time run s)
  with thinking_store.start_keeps [OF contract inv] show ?thesis by blast
next
  case (recorded api s)
  from thinking_store.recording_views [OF contract [OF recorded(2)] recorded(3)] inv show ?thesis
    by (simp add: recorded(1) fleet_invariant_def)
next
  case (ready api i run out time r s)
  with thinking_store.ready_keeps [OF contract inv] show ?thesis by blast
next
  case (commit_threw i run)
  from inv have uniq: "k = k'" if "(k, key, ArtifactReady) \<in> set (views (fl_store f))" "(k', key, ArtifactReady) \<in> set (views (fl_store f))" for k k' key
    using that unfolding fleet_invariant_def fleet_ok_def by blast
  show ?thesis unfolding commit_threw(1)
    by (rule ending_keeps [OF inv commit_threw(2), of _ "\<lambda>k key st. st"]) (use uniq in \<open>auto simp: restated_same\<close>)
next
  case (rejected api i run rejection time r s)
  with thinking_store.rejected_keeps [OF contract inv] show ?thesis by blast
next
  case (failed api i run err time r s)
  with thinking_store.failing_keeps [OF contract inv] show ?thesis by blast
next
  case (ended i)
  have "fleet_ok (views (fl_store f)) (run_artifacts (fl_store f)) (fl_workers f)" using inv by (simp add: fleet_invariant_def)
  then have "distinct (map wk_artifact (filter live (fl_workers f)))" by (simp add: fleet_ok_def)
  from drop_distinct [OF this] show ?thesis
    unfolding ended drop_worker_def
    by (intro dropped_keeps [OF inv]) (auto dest: in_set_takeD in_set_dropD)
next
  case (crashed p)
  have "fleet_ok (views (fl_store f)) (run_artifacts (fl_store f)) (fl_workers f)" using inv by (simp add: fleet_invariant_def)
  then have "distinct (map wk_artifact (filter live (fl_workers f)))" by (simp add: fleet_ok_def)
  from filter_workers_distinct [OF this] show ?thesis
    unfolding crashed by (intro dropped_keeps [OF inv]) auto
next
  case (dumped api key time)
  with thinking_store.dump_keeps [OF contract inv] show ?thesis by blast
qed

lemma runner_run_keeps:
  assumes "\<And>api. stores api \<Longrightarrow> thinking_store api" "(runner_step stores block)\<^sup>*\<^sup>* f f'" "fleet_invariant f"
  shows "fleet_invariant f'"
  using assms(2,3) by (induction rule: rtranclp_induct) (auto intro: runner_step_keeps [OF assms(1)])

lemma no_fleet_invariant: "fleet_invariant no_fleet"
  by (simp add: fleet_invariant_def fleet_ok_def no_fleet_def empty_store_def views_def run_artifacts_def)

text \<open>C34: for every interleaving of callers, ticks and generations in any number of processes, with crashes and with
  whatever other transactions do, on the store in memory or on the database: a live worker has its
  artifact to itself, which is running; no artifact has more than three runs; and a key has at most one
  ready artifact.\<close>

theorem runners_invariant:
  assumes "runner_reachable known_store block f"
  shows "distinct (map wk_artifact (filter live (fl_workers f))) \<and>
    (\<forall>w \<in> set (fl_workers f). live w \<longrightarrow> (\<exists>a \<in> set (ts_artifacts (fl_store f)). ta_id a = wk_artifact w \<and> ta_status a = ArtifactRunning)) \<and>
    (\<forall>a \<in> set (ts_artifacts (fl_store f)). run_count (ta_id a) (fl_store f) \<le> MAX_OPERATIONAL_RUNS) \<and>
    (\<forall>a \<in> set (ts_artifacts (fl_store f)). \<forall>a' \<in> set (ts_artifacts (fl_store f)).
       ready_of (artifact_key a') a \<longrightarrow> ta_status a' = ArtifactReady \<longrightarrow> ta_id a = ta_id a')"
proof -
  have "fleet_invariant f"
    using runner_run_keeps [OF known_store_keeps_contract _ no_fleet_invariant] assms by (simp add: runner_reachable_def)
  then have ok: "fleet_ok (views (fl_store f)) (run_artifacts (fl_store f)) (fl_workers f)" by (simp add: fleet_invariant_def)
  show ?thesis
  proof (intro conjI ballI impI)
    show "distinct (map wk_artifact (filter live (fl_workers f)))" using ok by (simp add: fleet_ok_def)
  next
    fix w assume "w \<in> set (fl_workers f)" "live w"
    with ok have "(wk_artifact w, wk_key w, ArtifactRunning) \<in> set (views (fl_store f))" unfolding fleet_ok_def by blast
    then show "\<exists>a \<in> set (ts_artifacts (fl_store f)). ta_id a = wk_artifact w \<and> ta_status a = ArtifactRunning"
      by (auto simp: views_def artifact_view_def)
  next
    fix a assume "a \<in> set (ts_artifacts (fl_store f))"
    from row_view [OF this] ok show "run_count (ta_id a) (fl_store f) \<le> MAX_OPERATIONAL_RUNS"
      unfolding fleet_ok_def run_count_view by blast
  next
    fix a a' assume a: "a \<in> set (ts_artifacts (fl_store f))" "a' \<in> set (ts_artifacts (fl_store f))"
      "ready_of (artifact_key a') a" "ta_status a' = ArtifactReady"
    then have "(ta_id a, artifact_key a', ArtifactReady) \<in> set (views (fl_store f))" "(ta_id a', artifact_key a', ArtifactReady) \<in> set (views (fl_store f))"
      using row_view [OF a(1)] row_view [OF a(2)] by (simp_all add: ready_of_def)
    with ok show "ta_id a = ta_id a'" unfolding fleet_ok_def by blast
  qed
qed

section \<open>What no step repairs\<close>

text \<open>An artifact that is running and that nobody generates.\<close>

definition orphaned :: "string \<Rightarrow> fleet \<Rightarrow> bool" where
  "orphaned k f \<longleftrightarrow> (\<exists>a \<in> set (ts_artifacts (fl_store f)). ta_id a = k \<and> ta_status a = ArtifactRunning) \<and>
     (\<forall>w \<in> set (fl_workers f). live w \<longrightarrow> wk_artifact w \<noteq> k)"

lemma orphaned_view:
  "orphaned k f \<longleftrightarrow> (\<exists>key. (k, key, ArtifactRunning) \<in> set (views (fl_store f))) \<and>
     (\<forall>w \<in> set (fl_workers f). live w \<longrightarrow> wk_artifact w \<noteq> k)"
proof -
  have "(\<exists>a \<in> set (ts_artifacts s). ta_id a = k \<and> ta_status a = st) \<longleftrightarrow> (\<exists>key. (k, key, st) \<in> set (views s))" for s st
  proof
    assume "\<exists>a \<in> set (ts_artifacts s). ta_id a = k \<and> ta_status a = st"
    then obtain a where "a \<in> set (ts_artifacts s)" "ta_id a = k" "ta_status a = st" by blast
    with row_view [of a s] show "\<exists>key. (k, key, st) \<in> set (views s)" by metis
  next
    assume "\<exists>key. (k, key, st) \<in> set (views s)"
    then show "\<exists>a \<in> set (ts_artifacts s). ta_id a = k \<and> ta_status a = st" by (auto simp: views_def artifact_view_def)
  qed
  then show ?thesis by (simp add: orphaned_def)
qed

lemma orphaned_restated:
  assumes "orphaned k f" "views (fl_store f') = restated h (views (fl_store f)) \<or> views (fl_store f') = views (fl_store f)"
    and "\<And>key. h k key ArtifactRunning = ArtifactRunning"
    and "\<And>w. w \<in> set (fl_workers f') \<Longrightarrow> live w \<Longrightarrow> wk_artifact w = k \<Longrightarrow> \<exists>v \<in> set (fl_workers f). live v \<and> wk_artifact v = k"
  shows "orphaned k f'"
proof -
  from assms(1) obtain key where "(k, key, ArtifactRunning) \<in> set (views (fl_store f))" by (auto simp: orphaned_view)
  with assms(2,3) have "(k, key, ArtifactRunning) \<in> set (views (fl_store f'))"
    unfolding restated_in by (metis restated_in)
  with assms(1,4) show ?thesis unfolding orphaned_view by blast
qed

lemma set_worker_live:
  assumes "w \<in> set (fl_workers (set_worker i phase s f))" "live w" "i < length (fl_workers f)" "live (fl_workers f ! i)"
  shows "\<exists>v \<in> set (fl_workers f). live v \<and> wk_artifact v = wk_artifact w"
proof -
  from assms(1) have "w \<in> insert ((fl_workers f ! i)\<lparr> wk_phase := phase \<rparr>) (set (fl_workers f))"
    using set_update_subset_insert [of "fl_workers f" i] by (auto simp: set_worker_def)
  with assms(2-4) nth_mem [OF assms(3)] show ?thesis by auto
qed

lemma orphan_step:
  assumes inv: "fleet_invariant f" and orphan: "orphaned k f" and contract: "\<And>api. stores api \<Longrightarrow> thinking_store api"
    and step: "runner_step stores block f f'"
  shows "orphaned k f'"
proof -
  note dist = invariant_distinct [OF inv]
  have ids: "distinct (map fst (views (fl_store f)))" using inv by (simp add: fleet_invariant_def fleet_ok_def)
  from orphan obtain key0 where k: "(k, key0, ArtifactRunning) \<in> set (views (fl_store f))" by (auto simp: orphaned_view)
  have not_mine: "wk_artifact (fl_workers f ! i) \<noteq> k" if "worker_at i phase f" "phase \<noteq> Ending" for i phase
  proof -
    have "fl_workers f ! i \<in> set (fl_workers f)" "live (fl_workers f ! i)" using that by (auto simp: worker_at_def live_def)
    with orphan show ?thesis unfolding orphaned_view by blast
  qed
  show ?thesis
    using step
  proof cases
    case (created api key input time a s)
    from thinking_store.create_views [OF contract [OF created(2)] created(3)] k
    have "(k, key0, ArtifactRunning) \<in> set (views (fl_store f'))" by (simp add: created(1))
    moreover have "fl_workers f' = fl_workers f" by (simp add: created(1))
    ultimately show ?thesis using orphan unfolding orphaned_view by metis
  next
    case (requeued api n before time p r s)
    from thinking_store.requeue_views [OF contract [OF requeued(2)] dist requeued(4)] obtain K where
      K: "views s = restated (\<lambda>k key st. if k \<in> K then ArtifactPending else st) (views (fl_store f))"
      "\<forall>k \<in> K. \<exists>key. (k, key, ArtifactFailed) \<in> set (views (fl_store f))" by blast
    have "k \<notin> K"
    proof
      assume "k \<in> K"
      with K(2) obtain key where "(k, key, ArtifactFailed) \<in> set (views (fl_store f))" by blast
      from same_view [OF ids k this] show False by simp
    qed
    then show ?thesis
      by (intro orphaned_restated [OF orphan, of f' "\<lambda>k key st. if k \<in> K then ArtifactPending else st"]) (auto simp: requeued(1) K(1))
  next
    case (claimed api limit time out s p)
    note c = thinking_store.claim_views [OF contract [OF claimed(2)] dist claimed(3)]
    have "k \<notin> ta_id ` set out"
    proof
      assume "k \<in> ta_id ` set out"
      with c obtain key where "(k, key, ArtifactPending) \<in> set (views (fl_store f))" by blast
      from same_view [OF ids k this] show False by simp
    qed
    with c show ?thesis
      by (intro orphaned_restated [OF orphan, of f' "\<lambda>j key st. if j \<in> ta_id ` set out then ArtifactRunning else st"])
        (auto simp: claimed(1) taken_up_def new_worker_def)
  next
    case (parse_failed i)
    show ?thesis
      by (rule orphaned_restated [OF orphan, of _ "\<lambda>j key st. st"])
        (auto simp: parse_failed(1) drop_worker_def dest: in_set_takeD in_set_dropD)
  next
    case (started api i trigger metadata time run s)
    note w = working_view [OF inv started(3), simplified]
    from thinking_store.start_views [OF contract [OF started(2)] dist w(3) started(4)] show ?thesis
      by (intro orphaned_restated [OF orphan, of _ "\<lambda>j key st. st"])
        (auto simp: started(1) set_worker_def dest: set_worker_live [OF _ _ w(1,2), of _ "Generating run" s, unfolded set_worker_def, simplified])
  next
    case (recorded api s)
    from thinking_store.recording_views [OF contract [OF recorded(2)] recorded(3)] show ?thesis
      by (intro orphaned_restated [OF orphan, of _ "\<lambda>j key st. st"]) (auto simp: recorded(1))
  next
    case (ready api i run out time r s)
    note w = working_view [OF inv ready(3), simplified]
    show ?thesis
    proof (rule orphaned_restated [OF orphan, of _ "\<lambda>j key' st. if j = wk_artifact (fl_workers f ! i) then ArtifactReady
        else if key' = wk_key (fl_workers f ! i) \<and> st = ArtifactReady then ArtifactSuperseded else st"])
      show "views (fl_store f') = restated (\<lambda>j key' st. if j = wk_artifact (fl_workers f ! i) then ArtifactReady
          else if key' = wk_key (fl_workers f ! i) \<and> st = ArtifactReady then ArtifactSuperseded else st) (views (fl_store f)) \<or>
          views (fl_store f') = views (fl_store f)"
        using thinking_store.ready_views [OF contract [OF ready(2)] dist w(3) ready(4)] by (simp add: ready(1) set_worker_def)
    qed (use not_mine [OF ready(3)] set_worker_live [OF _ _ w(1,2)] in \<open>auto simp: ready(1)\<close>)
  next
    case (commit_threw i run)
    note w = working_view [OF inv commit_threw(2), simplified]
    show ?thesis
    proof (rule orphaned_restated [OF orphan, of _ "\<lambda>j key st. st"])
      show "views (fl_store f') = restated (\<lambda>j key st. st) (views (fl_store f)) \<or> views (fl_store f') = views (fl_store f)"
        by (simp add: commit_threw(1) set_worker_def)
    qed (use set_worker_live [OF _ _ w(1,2)] in \<open>auto simp: commit_threw(1)\<close>)
  next
    case (rejected api i run rejection time r s)
    note w = working_view [OF inv rejected(3), simplified]
    show ?thesis
    proof (rule orphaned_restated [OF orphan, of _ "\<lambda>j key st. if j = wk_artifact (fl_workers f ! i) then ArtifactRejected else st"])
      show "views (fl_store f') = restated (\<lambda>j key st. if j = wk_artifact (fl_workers f ! i) then ArtifactRejected else st) (views (fl_store f)) \<or>
          views (fl_store f') = views (fl_store f)"
        using thinking_store.rejected_views [OF contract [OF rejected(2)] dist w(3) rejected(4)] by (simp add: rejected(1) set_worker_def)
    qed (use not_mine [OF rejected(3)] set_worker_live [OF _ _ w(1,2)] in \<open>auto simp: rejected(1)\<close>)
  next
    case (failed api i run err time r s)
    note w = working_view [OF inv failed(3), simplified]
    show ?thesis
    proof (rule orphaned_restated [OF orphan, of _ "\<lambda>j key st. if j = wk_artifact (fl_workers f ! i) then ArtifactFailed else st"])
      show "views (fl_store f') = restated (\<lambda>j key st. if j = wk_artifact (fl_workers f ! i) then ArtifactFailed else st) (views (fl_store f)) \<or>
          views (fl_store f') = views (fl_store f)"
        using thinking_store.failed_views [OF contract [OF failed(2)] dist w(3) failed(4)] by (simp add: failed(1) set_worker_def)
    qed (use not_mine [OF failed(3)] set_worker_live [OF _ _ w(1,2)] in \<open>auto simp: failed(1)\<close>)
  next
    case (ended i)
    show ?thesis
      by (rule orphaned_restated [OF orphan, of _ "\<lambda>j key st. st"])
        (auto simp: ended(1) drop_worker_def dest: in_set_takeD in_set_dropD)
  next
    case (crashed p)
    show ?thesis
      by (rule orphaned_restated [OF orphan, of _ "\<lambda>j key st. st"]) (auto simp: crashed)
  next
    case (dumped api key time)
    from thinking_store.dump_views [OF contract [OF dumped(2)], of key time "fl_store f"] show ?thesis
      by (intro orphaned_restated [OF orphan, of f' "\<lambda>j key' st. if key' = key \<and> st = ArtifactReady then ArtifactSuperseded else st"])
        (auto simp: dumped(1))
  qed
qed

text \<open>C35: an artifact that is running while no worker generates it (its process died, its commit threw, or its
  input no longer parses) stays so for ever: no tick requeues or claims it, no later generation of
  its key settles it, and a dump leaves it.\<close>

theorem orphan_runs_forever:
  assumes "runner_reachable known_store block f" "orphaned k f" "(runner_step known_store block)\<^sup>*\<^sup>* f f'"
  shows "orphaned k f'"
proof -
  have start: "fleet_invariant f"
    using runner_run_keeps [OF known_store_keeps_contract _ no_fleet_invariant] assms(1) by (simp add: runner_reachable_def)
  from assms(3) have "fleet_invariant f' \<and> orphaned k f'"
  proof (induction rule: rtranclp_induct)
    case base
    with start assms(2) show ?case by simp
  next
    case (step f1 f2)
    then show ?case
      using runner_step_keeps [OF known_store_keeps_contract] orphan_step [OF _ _ known_store_keeps_contract] by blast
  qed
  then show ?thesis ..
qed

section \<open>Instances\<close>

definition demo_store :: store_api where "demo_store = memory_store sample_ids"

definition demo_key :: block_key where "demo_key = (''logo'', ''v1'', ''aws'')"

definition demo_created :: fleet where
  "demo_created = no_fleet\<lparr> fl_store := snd (sa_create demo_store demo_key (JStr ''aws'') 1 (fl_store no_fleet)) \<rparr>"

definition demo_claim :: "(js_error + artifact list) \<times> tb_store" where
  "demo_claim = sa_claim demo_store (''logo'', ''v1'') 1 2 (fl_store demo_created)"

definition demo_claimed :: fleet where
  "demo_claimed = demo_created\<lparr> fl_store := snd demo_claim,
     fl_workers := fl_workers demo_created @ taken_up 0 (projr (fst demo_claim)) demo_created \<rparr>"

definition demo_started :: fleet where
  "demo_started = set_worker 0 (Generating ''a'') (snd (sa_start_run demo_store [] ''logo'' None [] 3 (fl_store demo_claimed))) demo_claimed"

definition demo_lost :: fleet where
  "demo_lost = set_worker 0 Ending (fl_store demo_started) demo_started"

lemma demo_known: "known_store demo_store"
  by (auto simp: known_store_def demo_store_def)

lemma demo_reachable: "runner_reachable known_store (''logo'', ''v1'') demo_started"
proof -
  let ?step = "runner_step known_store (''logo'', ''v1'')"
  have s1: "?step no_fleet demo_created"
    unfolding demo_created_def
  proof (rule runner_step.created [where stores = known_store and api = demo_store, OF demo_known])
    show "sa_create demo_store demo_key (JStr ''aws'') 1 (fl_store no_fleet) =
        (Inr (new_artifact [] demo_key (JStr ''aws'') 1), snd (sa_create demo_store demo_key (JStr ''aws'') 1 (fl_store no_fleet)))"
      by code_simp
  qed code_simp
  have s2: "?step demo_created demo_claimed"
    unfolding demo_claimed_def
    by (rule runner_step.claimed [where stores = known_store and api = demo_store and limit = 1 and time = 2, OF demo_known]) code_simp
  have s3: "?step demo_claimed demo_started"
    unfolding demo_started_def
  proof (rule runner_step.started [where stores = known_store and api = demo_store and trigger = None and metadata = "[]" and time = 3, OF demo_known])
    show "worker_at 0 Claimed demo_claimed" by code_simp
    show "sa_start_run demo_store (wk_artifact (fl_workers demo_claimed ! 0)) (fst (''logo'', ''v1'')) None [] 3 (fl_store demo_claimed) =
        (Inr ''a'', snd (sa_start_run demo_store [] ''logo'' None [] 3 (fl_store demo_claimed)))" by code_simp
  qed
  show ?thesis
    unfolding runner_reachable_def
    by (rule converse_rtranclp_into_rtranclp [of ?step, OF s1], rule converse_rtranclp_into_rtranclp [of ?step, OF s2],
        rule r_into_rtranclp [of ?step, OF s3])
qed

theorem runners_invariant_witness:
  "map wk_artifact (filter live (fl_workers demo_started)) = [[]] \<and> run_count [] (fl_store demo_started) \<le> MAX_OPERATIONAL_RUNS"
proof -
  have "\<forall>a \<in> set (ts_artifacts (fl_store demo_started)). run_count (ta_id a) (fl_store demo_started) \<le> MAX_OPERATIONAL_RUNS"
    using runners_invariant [OF demo_reachable] by blast
  moreover have "map ta_id (ts_artifacts (fl_store demo_started)) = [[]]" by code_simp
  moreover have "map wk_artifact (filter live (fl_workers demo_started)) = [[]]" by code_simp
  ultimately show ?thesis by (cases "ts_artifacts (fl_store demo_started)") auto
qed

theorem orphan_runs_forever_witness:
  "orphaned [] (demo_lost\<lparr> fl_store := snd (sa_dump demo_store demo_key 9 (fl_store demo_lost)) \<rparr>)"
proof -
  have lost: "runner_step known_store (''logo'', ''v1'') demo_started demo_lost"
    unfolding demo_lost_def by (rule runner_step.commit_threw [of _ "''a''"]) code_simp
  then have "runner_reachable known_store (''logo'', ''v1'') demo_lost"
    using demo_reachable unfolding runner_reachable_def by (rule rtranclp.rtrancl_into_rtrancl [rotated])
  moreover have "orphaned [] demo_lost" unfolding orphaned_def by code_simp
  moreover have "(runner_step known_store (''logo'', ''v1''))\<^sup>*\<^sup>* demo_lost
      (demo_lost\<lparr> fl_store := snd (sa_dump demo_store demo_key 9 (fl_store demo_lost)) \<rparr>)"
    by (intro r_into_rtranclp runner_step.dumped [where stores = known_store and api = demo_store, OF demo_known])
  ultimately show ?thesis by (rule orphan_runs_forever)
qed

end
