(* ===== verification/InputPaths.thy ===== *)
theory InputPaths
  imports ErrorContract Refs "HOL-Library.Sublist"
begin

text \<open>
  The inputs the command line builds from its flags: packages/cli/src/core/inputs, dot-path.ts (the paths
  of \<open>--set\<close>, adapted from dot-prop), set-path.ts (the values) and resolve.ts (the choice between flags and
  a JSON document). An update through a path answers the new object. What such an update does outside
  of the object is a log: a path that leads through an inherited method, say \<open>toString.x\<close>, writes to
  the method. A property of an array that is no index is not part of its value, as in its JSON.
\<close>

section \<open>Paths (dot-path.ts)\<close>

datatype path_part = PathStart | PathProperty | PathIndex | PathIndexEnd

record path_state =
  ps_parts :: "path_key list"
  ps_segment :: string
  ps_part :: path_part
  ps_escaping :: bool

text \<open>The next state, or \<open>return []\<close>, or a throw.\<close>

datatype path_step = PathGo path_state | PathNone | PathThrow string

definition disallowed_keys :: "string list" where
  "disallowed_keys = [''__proto__'', ''prototype'', ''constructor'']"

definition MAX_ARRAY_INDEX :: int where "MAX_ARRAY_INDEX = 1000000"

definition should_coerce_to_number :: "string \<Rightarrow> nat option" where
  "should_coerce_to_number segment =
     (case array_index segment of Some n \<Rightarrow> if int n \<le> MAX_ARRAY_INDEX then Some n else None | None \<Rightarrow> None)"

definition segment_key :: "string \<Rightarrow> path_key" where
  "segment_key segment = (case should_coerce_to_number segment of Some n \<Rightarrow> KIdx n | None \<Rightarrow> KStr segment)"

definition process_segment :: "path_state \<Rightarrow> path_step" where
  "process_segment ps =
     (if ps_segment ps \<in> set disallowed_keys then PathNone
      else PathGo (ps\<lparr> ps_parts := ps_parts ps @ [segment_key (ps_segment ps)], ps_segment := [] \<rparr>))"

fun then_part :: "path_part \<Rightarrow> path_step \<Rightarrow> path_step" where
  "then_part p (PathGo ps) = PathGo (ps\<lparr> ps_part := p \<rparr>)"
| "then_part p step = step"

definition invalid_in_index :: "char \<Rightarrow> nat \<Rightarrow> path_step" where
  "invalid_in_index c position =
     PathThrow (''Invalid character '' @ [CHR 0x27, c, CHR 0x27] @ '' in an index at position '' @ nat_str position)"

definition invalid_after_index :: "char \<Rightarrow> nat \<Rightarrow> path_step" where
  "invalid_after_index c position =
     PathThrow (''Invalid character '' @ [CHR 0x27, c, CHR 0x27] @ '' after an index at position '' @ nat_str position)"

definition add_char :: "char \<Rightarrow> path_state \<Rightarrow> path_state" where
  "add_char c ps = ps\<lparr> ps_segment := ps_segment ps @ [c] \<rparr>"

text \<open>\<open>parts.pop() || ""\<close> in a template: an index 0 is falsy.\<close>

definition popped_segment :: "path_key list \<Rightarrow> string" where
  "popped_segment parts =
     (if parts = [] then []
      else case last parts of KStr s \<Rightarrow> s | KIdx n \<Rightarrow> if n = 0 then [] else nat_str n)"

fun path_backslash :: "nat \<Rightarrow> path_state \<Rightarrow> path_step" where
  "path_backslash position ps =
     (case ps_part ps of
        PathIndex \<Rightarrow> invalid_in_index (CHR 0x5C) position
      | PathIndexEnd \<Rightarrow> invalid_after_index (CHR 0x5C) position
      | PathStart \<Rightarrow> PathGo (ps\<lparr> ps_escaping := True, ps_part := PathProperty \<rparr>)
      | PathProperty \<Rightarrow> PathGo (ps\<lparr> ps_escaping := True \<rparr>))"

definition path_dot :: "nat \<Rightarrow> path_state \<Rightarrow> path_step" where
  "path_dot position ps =
     (case ps_part ps of
        PathIndex \<Rightarrow> invalid_in_index (CHR ''.'') position
      | PathIndexEnd \<Rightarrow> PathGo (ps\<lparr> ps_part := PathProperty \<rparr>)
      | _ \<Rightarrow> then_part PathProperty (process_segment ps))"

definition path_open :: "nat \<Rightarrow> path_state \<Rightarrow> path_step" where
  "path_open position ps =
     (case ps_part ps of
        PathIndex \<Rightarrow> invalid_in_index (CHR ''['') position
      | PathIndexEnd \<Rightarrow> PathGo (ps\<lparr> ps_part := PathIndex \<rparr>)
      | p \<Rightarrow> then_part PathIndex
          (if ps_segment ps \<noteq> [] \<or> p = PathProperty then process_segment ps else PathGo (ps\<lparr> ps_segment := [] \<rparr>)))"

definition path_close :: "nat \<Rightarrow> path_state \<Rightarrow> path_step" where
  "path_close position ps =
     (case ps_part ps of
        PathIndex \<Rightarrow>
          if ps_segment ps = []
          then PathGo (ps\<lparr> ps_parts := butlast (ps_parts ps), ps_segment := popped_segment (ps_parts ps) @ ''[]'',
            ps_part := PathProperty \<rparr>)
          else PathGo (ps\<lparr> ps_parts := ps_parts ps @ [segment_key (ps_segment ps)], ps_segment := [],
            ps_part := PathIndexEnd \<rparr>)
      | PathIndexEnd \<Rightarrow> invalid_after_index (CHR '']'') position
      | _ \<Rightarrow> PathGo (add_char (CHR '']'') ps))"

definition path_default :: "char \<Rightarrow> nat \<Rightarrow> path_state \<Rightarrow> path_step" where
  "path_default c position ps =
     (if ps_part ps = PathIndex \<and> c \<notin> set digit_chars then invalid_in_index c position
      else if ps_part ps = PathIndexEnd then invalid_after_index c position
      else PathGo (add_char c (if ps_part ps = PathStart then ps\<lparr> ps_part := PathProperty \<rparr> else ps)))"

definition path_char :: "char \<Rightarrow> nat \<Rightarrow> path_state \<Rightarrow> path_step" where
  "path_char c position ps =
     (if ps_escaping ps then PathGo ((add_char c ps)\<lparr> ps_escaping := False \<rparr>)
      else if c = CHR 0x5C then path_backslash position ps
      else if c = CHR ''.'' then path_dot position ps
      else if c = CHR ''['' then path_open position ps
      else if c = CHR '']'' then path_close position ps
      else path_default c position ps)"

fun path_chars :: "string \<Rightarrow> nat \<Rightarrow> path_state \<Rightarrow> path_step" where
  "path_chars [] position ps = PathGo ps"
| "path_chars (c # cs) position ps =
     (case path_char c (position + 1) ps of PathGo ps' \<Rightarrow> path_chars cs (position + 1) ps' | step \<Rightarrow> step)"

definition path_end :: "path_state \<Rightarrow> path_step" where
  "path_end ps =
     (let ps' = (if ps_escaping ps then add_char (CHR 0x5C) ps else ps)
      in case ps_part ps' of
           PathProperty \<Rightarrow> process_segment ps'
         | PathIndex \<Rightarrow> PathThrow ''Index was not closed''
         | PathStart \<Rightarrow> PathGo (ps'\<lparr> ps_parts := ps_parts ps' @ [KStr []] \<rparr>)
         | PathIndexEnd \<Rightarrow> PathGo ps')"

fun path_parts :: "path_step \<Rightarrow> string + path_key list" where
  "path_parts (PathGo ps) = Inr (ps_parts ps)"
| "path_parts PathNone = Inr []"
| "path_parts (PathThrow msg) = Inl msg"

definition parse_path :: "string \<Rightarrow> string + path_key list" where
  "parse_path path = path_parts
     (case path_chars path 0 \<lparr> ps_parts = [], ps_segment = [], ps_part = PathStart, ps_escaping = False \<rparr> of
        PathGo ps \<Rightarrow> path_end ps | step \<Rightarrow> step)"

section \<open>Reads and writes along a path\<close>

fun key_str :: "path_key \<Rightarrow> string" where
  "key_str (KStr s) = s"
| "key_str (KIdx n) = nat_str n"

fun is_function :: "jsval \<Rightarrow> bool" where
  "is_function (JFun f) = True"
| "is_function _ = False"

text \<open>\<open>key in value\<close>, where an element that is \<open>undefined\<close> is a hole; and \<open>value[key]\<close>. \<open>members\<close> gives the
  properties of the built-in functions.\<close>

fun has_key :: "(string \<Rightarrow> string \<Rightarrow> jsval option) \<Rightarrow> jsval \<Rightarrow> string \<Rightarrow> bool" where
  "has_key members (JObj es) k = (map_of es k \<noteq> None \<or> inherited_name k)"
| "has_key members (JFun f) k = (members f k \<noteq> None)"
| "has_key members v k = (get_prop v k \<noteq> JUndef)"

fun read_key :: "(string \<Rightarrow> string \<Rightarrow> jsval option) \<Rightarrow> jsval \<Rightarrow> string \<Rightarrow> jsval" where
  "read_key members (JFun f) k = (case members f k of Some v \<Rightarrow> v | None \<Rightarrow> JUndef)"
| "read_key members v k = get_prop v k"

fun get_keys :: "(string \<Rightarrow> string \<Rightarrow> jsval option) \<Rightarrow> jsval \<Rightarrow> path_key list \<Rightarrow> jsval option" where
  "get_keys members current [] = Some current"
| "get_keys members current (k # ks) =
     (if \<not> is_object current \<and> \<not> is_function current then None
      else if \<not> has_key members current (key_str k) then None
      else get_keys members (read_key members current (key_str k)) ks)"

definition get_property :: "(string \<Rightarrow> string \<Rightarrow> jsval option) \<Rightarrow> jsval \<Rightarrow> string \<Rightarrow> string + jsval option" where
  "get_property members v path =
     res_bind (parse_path path) (\<lambda>ks. Inr (if ks = [] then None else get_keys members v ks))"

datatype path_error =
    PathSyntax string
  | InvalidArrayLength           \<comment> \<open>RangeError\<close>
  | PrimitiveWrite               \<comment> \<open>TypeError: a property of a number, or one that may not be deleted\<close>

text \<open>The largest index of an array is \<open>2^32 - 2\<close>.\<close>

definition element_index :: "string \<Rightarrow> nat option" where
  "element_index k = (case array_index k of Some n \<Rightarrow> if int n < 4294967295 then Some n else None | None \<Rightarrow> None)"

definition set_element :: "nat \<Rightarrow> jsval \<Rightarrow> jsval list \<Rightarrow> jsval list" where
  "set_element n v xs = (if n < length xs then xs[n := v] else xs @ replicate (n - length xs) JUndef @ [v])"

definition set_length :: "nat \<Rightarrow> jsval list \<Rightarrow> jsval list" where
  "set_length n xs = take n xs @ replicate (n - length xs) JUndef"

text \<open>\<open>current[key] = value\<close>; \<open>number\<close> is the conversion to a number, \<open>None\<close> for \<open>NaN\<close>.\<close>

fun write_key :: "(jsval \<Rightarrow> rat option) \<Rightarrow> jsval \<Rightarrow> string \<Rightarrow> jsval \<Rightarrow> path_error + jsval" where
  "write_key number (JObj es) k v = Inr (JObj (put_prop k v es))"
| "write_key number (JArr xs) k v =
     (if k = ''length'' then
        (case number v of
           Some x \<Rightarrow> if 0 \<le> x \<and> of_int \<lfloor>x\<rfloor> = x \<and> x < 4294967296 then Inr (JArr (set_length (nat \<lfloor>x\<rfloor>) xs)) else Inl InvalidArrayLength
         | None \<Rightarrow> Inl InvalidArrayLength)
      else case element_index k of Some n \<Rightarrow> Inr (JArr (set_element n v xs)) | None \<Rightarrow> Inr (JArr xs))"
| "write_key number v k w = Inl PrimitiveWrite"

text \<open>What is written to or deleted from a built-in function: its name, the rest of the path, the value.\<close>

type_synonym builtin_write = "string \<times> path_key list \<times> jsval option"

definition new_container :: "path_key \<Rightarrow> jsval" where
  "new_container next = (case next of KIdx n \<Rightarrow> JArr [] | KStr s \<Rightarrow> JObj [])"

definition is_length :: "jsval \<Rightarrow> string \<Rightarrow> bool" where
  "is_length current k \<longleftrightarrow> is_array current \<and> k = ''length''"

text \<open>What a step into \<open>current[key]\<close> finds, once a value that is no object has been replaced by a container.\<close>

definition entered :: "(jsval \<Rightarrow> rat option) \<Rightarrow> jsval \<Rightarrow> string \<Rightarrow> path_key \<Rightarrow> path_error + jsval" where
  "entered number current k next =
     (let child = get_prop current k
      in if is_object child \<or> is_function child then Inr child
         else res_bind (write_key number current k (new_container next)) (\<lambda>_.
           if is_length current k then Inl PrimitiveWrite else Inr (new_container next)))"

fun set_keys :: "(jsval \<Rightarrow> rat option) \<Rightarrow> jsval \<Rightarrow> path_key list \<Rightarrow> jsval \<Rightarrow> path_error + jsval \<times> builtin_write list" where
  "set_keys number current [] v = Inr (current, [])"
| "set_keys number current [k] v = res_bind (write_key number current (key_str k) v) (\<lambda>w. Inr (w, []))"
| "set_keys number current (k # k' # ks) v =
     res_bind (entered number current (key_str k) k') (\<lambda>child.
       case child of
         JFun f \<Rightarrow> Inr (current, [(f, k' # ks, Some v)])
       | _ \<Rightarrow>
           res_bind (set_keys number child (k' # ks) v) (\<lambda>(child', out).
           res_bind (write_key number current (key_str k) child') (\<lambda>w. Inr (w, out))))"

definition set_property ::
  "(jsval \<Rightarrow> rat option) \<Rightarrow> jsval \<Rightarrow> string \<Rightarrow> jsval \<Rightarrow> path_error + jsval \<times> builtin_write list" where
  "set_property number v path new =
     (if \<not> is_object v then Inr (v, [])
      else case parse_path path of
        Inl msg \<Rightarrow> Inl (PathSyntax msg)
      | Inr ks \<Rightarrow> if ks = [] then Inr (v, []) else set_keys number v ks new)"

text \<open>\<open>Object.hasOwn\<close> and \<open>delete\<close>: an array keeps its length and gets a hole.\<close>

fun has_own :: "jsval \<Rightarrow> string \<Rightarrow> bool" where
  "has_own (JObj es) k = (map_of es k \<noteq> None)"
| "has_own (JArr xs) k =
     (k = ''length'' \<or> (case element_index k of Some n \<Rightarrow> get_index xs n \<noteq> JUndef | None \<Rightarrow> False))"
| "has_own v k = False"

fun delete_key :: "jsval \<Rightarrow> string \<Rightarrow> path_error + jsval" where
  "delete_key (JObj es) k = Inr (JObj (AList.delete k es))"
| "delete_key (JArr xs) k =
     (if k = ''length'' then Inl PrimitiveWrite
      else case element_index k of Some n \<Rightarrow> Inr (JArr (xs[n := JUndef])) | None \<Rightarrow> Inr (JArr xs))"
| "delete_key v k = Inr v"

text \<open>Whether the property existed, the object, and what was deleted from a built-in function.\<close>

fun delete_keys :: "jsval \<Rightarrow> path_key list \<Rightarrow> path_error + bool \<times> jsval \<times> builtin_write list" where
  "delete_keys current [] = Inr (False, current, [])"
| "delete_keys current [k] =
     (if has_own current (key_str k)
      then res_bind (delete_key current (key_str k)) (\<lambda>w. Inr (True, w, []))
      else Inr (False, current, []))"
| "delete_keys current (k # k' # ks) =
     (case get_prop current (key_str k) of
        JFun f \<Rightarrow> Inr (False, current, [(f, k' # ks, None)])
      | child \<Rightarrow>
          if \<not> is_object child then Inr (False, current, [])
          else
            res_bind (delete_keys child (k' # ks)) (\<lambda>(existed, child', out).
            res_bind (write_key (\<lambda>_. None) current (key_str k) child') (\<lambda>w. Inr (existed, w, out))))"

definition delete_property :: "jsval \<Rightarrow> string \<Rightarrow> path_error + bool \<times> jsval \<times> builtin_write list" where
  "delete_property v path =
     (if \<not> is_object v then Inr (False, v, [])
      else case parse_path path of
        Inl msg \<Rightarrow> Inl (PathSyntax msg)
      | Inr ks \<Rightarrow> if ks = [] then Inr (False, v, []) else delete_keys v ks)"

section \<open>The values of the flags (set-path.ts)\<close>

definition NUMBER_REGEX :: rx where
  "NUMBER_REGEX =
     RSeq (ROpt (RLit ''-''))
       (RSeq (RAlt (RLit ''0'') (RSeq (RIn ''123456789'') (RStar (RIn digit_chars))))
         (RSeq (ROpt (RSeq (RLit ''.'') (RPlus (RIn digit_chars))))
           (ROpt (RSeq (RIn ''eE'') (RSeq (ROpt (RIn ''+-'')) (RPlus (RIn digit_chars)))))))"

text \<open>\<open>Number(raw)\<close> of a numeral, exactly.\<close>

definition decimal_value :: "string \<Rightarrow> rat" where
  "decimal_value raw =
     (let body = (if raw \<noteq> [] \<and> hd raw = CHR ''-'' then tl raw else raw);
          mantissa = takeWhile (\<lambda>c. c \<notin> set ''eE'') body;
          exponent = tl (dropWhile (\<lambda>c. c \<notin> set ''eE'') body);
          whole = takeWhile (\<lambda>c. c \<noteq> CHR ''.'') mantissa;
          fraction = tl (dropWhile (\<lambda>c. c \<noteq> CHR ''.'') mantissa);
          size = of_nat (nat_of_digits (whole @ fraction)) / 10 ^ length fraction;
          scale = 10 ^ nat_of_digits (filter (\<lambda>c. c \<in> set digit_chars) exponent);
          scaled = (if exponent \<noteq> [] \<and> hd exponent = CHR ''-'' then size / scale else size * scale)
      in if body = raw then scaled else - scaled)"

definition coerce_value :: "string \<Rightarrow> jsval" where
  "coerce_value raw =
     (if raw = ''true'' then JBool True
      else if raw = ''false'' then JBool False
      else if raw = ''null'' then JNull
      else if rx_matches NUMBER_REGEX raw then JNum (decimal_value raw)
      else JStr raw)"

definition flag_error :: "string \<Rightarrow> string \<Rightarrow> string \<Rightarrow> cli_error" where
  "flag_error message code hint = \<lparr> cx_message = message, cx_code = code, cx_hint = Some hint, cx_status = None \<rparr>"

datatype input_error = FlagError cli_error | PathError path_error

text \<open>\<open>indexOf("=")\<close> and the two slices.\<close>

definition parse_assignment :: "string \<Rightarrow> input_error + string \<times> string" where
  "parse_assignment input =
     (if CHR ''='' \<notin> set input
      then Inl (FlagError (flag_error (''invalid --set value \"'' @ input @ ''\": missing '' @ [CHR 0x27, CHR ''='', CHR 0x27])
        ''INVALID_SET'' ''use --set key=value''))
      else Inr (takeWhile (\<lambda>c. c \<noteq> CHR ''='') input, tl (dropWhile (\<lambda>c. c \<noteq> CHR ''='') input)))"

text \<open>The pattern of references, the one of \<open>Refs\<close> once more in the command line.\<close>

definition SET_REF_REGEX :: rx where
  "SET_REF_REGEX =
     RSeq (RPlus (RIn (lower_chars @ digit_chars @ ''-'')))
       (RPlus (RSeq (RLit ''.'') (RSeq (RPlus (RIn (lower_chars @ upper_chars @ digit_chars @ ''_'')))
         (RStar (RSeq (RLit ''['') (RSeq (RPlus (RIn digit_chars)) (RLit '']'')))))))"

definition INLINE_REF_REGEX :: rx where
  "INLINE_REF_REGEX = RSeq (RLit ''${'') (RSeq SET_REF_REGEX (RLit ''}''))"

definition ref_object :: "string \<Rightarrow> jsval" where
  "ref_object r = JObj [(''$ref'', JStr r)]"

definition inline_ref :: "string \<Rightarrow> string option" where
  "inline_ref s = (if rx_matches INLINE_REF_REGEX s then Some (butlast (drop 2 s)) else None)"

fun expand_inline_refs :: "jsval \<Rightarrow> jsval" where
  "expand_inline_refs (JStr s) = (case inline_ref s of Some r \<Rightarrow> ref_object r | None \<Rightarrow> JStr s)"
| "expand_inline_refs (JArr xs) = JArr (map expand_inline_refs xs)"
| "expand_inline_refs (JObj es) = JObj (map (\<lambda>(k, v). (k, expand_inline_refs v)) es)"
| "expand_inline_refs v = v"

text \<open>What the runtime supplies: \<open>JSON.parse\<close>, the message of an error it raises itself, \<open>JSON.stringify\<close> of a string,
  the conversion to a number, and the files.\<close>

record read_failure =
  rf_code :: "string option"
  rf_message :: string

record input_env =
  ie_parse :: "string \<Rightarrow> string + jsval"
  ie_text :: "path_error \<Rightarrow> string"
  ie_quote :: "string \<Rightarrow> string"
  ie_number :: "jsval \<Rightarrow> rat option"
  ie_read_file :: "string \<Rightarrow> read_failure + string"

text \<open>The object so far and what was written to built-in functions.\<close>

type_synonym inputs_so_far = "jsval \<times> builtin_write list"

definition set_in :: "input_env \<Rightarrow> string \<Rightarrow> jsval \<Rightarrow> inputs_so_far \<Rightarrow> path_error + inputs_so_far" where
  "set_in ie path v acc = (case acc of (base, out) \<Rightarrow>
     res_bind (set_property (ie_number ie) base path v) (\<lambda>(base', out'). Inr (base', out @ out')))"

definition path_failed :: "path_error + 'a \<Rightarrow> input_error + 'a" where
  "path_failed m = map_sum PathError id m"

definition apply_set_flag :: "input_env \<Rightarrow> string \<Rightarrow> inputs_so_far \<Rightarrow> input_error + inputs_so_far" where
  "apply_set_flag ie flag acc =
     res_bind (parse_assignment flag) (\<lambda>(path, raw). path_failed (set_in ie path (coerce_value raw) acc))"

fun path_error_text :: "input_env \<Rightarrow> path_error \<Rightarrow> string" where
  "path_error_text ie (PathSyntax msg) = msg"
| "path_error_text ie e = ie_text ie e"

definition apply_set_json_flag :: "input_env \<Rightarrow> string \<Rightarrow> inputs_so_far \<Rightarrow> input_error + inputs_so_far" where
  "apply_set_json_flag ie flag acc =
     res_bind (parse_assignment flag) (\<lambda>(path, raw).
       map_sum (\<lambda>msg. FlagError (flag_error (''invalid --set-json value for \"'' @ path @ ''\": '' @ msg) ''INVALID_SET_JSON''
           ''pass valid JSON as the value'')) id
         (res_bind (ie_parse ie raw) (\<lambda>v. map_sum (path_error_text ie) id (set_in ie path (expand_inline_refs v) acc))))"

definition apply_set_ref_flag :: "input_env \<Rightarrow> string \<Rightarrow> inputs_so_far \<Rightarrow> input_error + inputs_so_far" where
  "apply_set_ref_flag ie flag acc =
     res_bind (parse_assignment flag) (\<lambda>(path, ref).
       if \<not> rx_matches SET_REF_REGEX ref
       then Inl (FlagError (flag_error (''invalid --set-ref value for \"'' @ path @ ''\": '' @ ie_quote ie ref) ''INVALID_SET_REF''
         ''use --set-ref key=slug.path (e.g. --set-ref ami=al2023.id)''))
       else path_failed (set_in ie path (ref_object ref) acc))"

definition apply_unset_flag :: "string \<Rightarrow> inputs_so_far \<Rightarrow> input_error + inputs_so_far" where
  "apply_unset_flag path acc = (case acc of (base, out) \<Rightarrow>
     path_failed (res_bind (delete_property base path) (\<lambda>(existed, base', out'). Inr (base', out @ out'))))"

record set_flags =
  sf_values :: "string option"
  sf_set :: "string list"
  sf_set_json :: "string list"
  sf_set_ref :: "string list"
  sf_unset :: "string list"

definition build_inputs_from_flags :: "input_env \<Rightarrow> jsval \<Rightarrow> set_flags \<Rightarrow> input_error + inputs_so_far" where
  "build_inputs_from_flags ie base flags =
     res_bind (fold_res (apply_set_flag ie) (sf_set flags) (base, []))
       (\<lambda>acc. res_bind (fold_res (apply_set_json_flag ie) (sf_set_json flags) acc)
       (\<lambda>acc. res_bind (fold_res (apply_set_ref_flag ie) (sf_set_ref flags) acc)
       (fold_res apply_unset_flag (sf_unset flags))))"

section \<open>The choice of the inputs (resolve.ts)\<close>

definition collect_flag :: "string \<Rightarrow> string list \<Rightarrow> string list" where
  "collect_flag v acc = acc @ [v]"

definition format_read_error :: "read_failure \<Rightarrow> string" where
  "format_read_error failure =
     (case rf_code failure of
        Some code \<Rightarrow> if sublist code (rf_message failure) then rf_message failure else code @ '': '' @ rf_message failure
      | None \<Rightarrow> rf_message failure)"

definition json_flag_text :: "input_env \<Rightarrow> string \<Rightarrow> string \<Rightarrow> string \<Rightarrow> input_error + string" where
  "json_flag_text ie raw flag code =
     (if raw = [] \<or> hd raw \<noteq> CHR ''@'' then Inr raw
      else if tl raw = [] then
        Inl (FlagError (flag_error (''unable to read '' @ flag @ '' file: missing path after @'') code
          (''pass '' @ flag @ '' @path/to/file.json or inline JSON'')))
      else case ie_read_file ie (tl raw) of
        Inr text \<Rightarrow> Inr text
      | Inl failure \<Rightarrow> Inl (FlagError (flag_error
          (''unable to read '' @ flag @ '' file \"'' @ tl raw @ ''\": '' @ format_read_error failure) code
          (''check the file path and permissions, or pass inline JSON to '' @ flag))))"

definition read_json_flag :: "input_env \<Rightarrow> string \<Rightarrow> string \<Rightarrow> string \<Rightarrow> input_error + jsval" where
  "read_json_flag ie raw flag code =
     res_bind (json_flag_text ie raw flag code) (\<lambda>text.
       map_sum (\<lambda>msg. FlagError (flag_error (''invalid '' @ flag @ '' JSON: '' @ msg) code
         (''pass valid JSON or @path/to/file.json to '' @ flag))) id (ie_parse ie text))"

definition read_values :: "input_env \<Rightarrow> string \<Rightarrow> input_error + jsval" where
  "read_values ie raw = read_json_flag ie raw ''--values'' ''INVALID_VALUES''"

definition read_selector :: "input_env \<Rightarrow> string \<Rightarrow> input_error + jsval" where
  "read_selector ie raw = read_json_flag ie raw ''--selector'' ''INVALID_SELECTOR''"

definition has_set_flags :: "set_flags \<Rightarrow> bool" where
  "has_set_flags flags \<longleftrightarrow> sf_set flags \<noteq> [] \<or> sf_set_json flags \<noteq> [] \<or> sf_set_ref flags \<noteq> [] \<or> sf_unset flags \<noteq> []"

definition given_values :: "set_flags \<Rightarrow> string option" where \<comment> \<open>an empty string is falsy\<close>
  "given_values flags = (if sf_values flags = Some [] then None else sf_values flags)"

definition resolve_inputs :: "input_env \<Rightarrow> set_flags \<Rightarrow> jsval \<Rightarrow> input_error + inputs_so_far" where
  "resolve_inputs ie flags base =
     (case given_values flags of
        Some raw \<Rightarrow>
          if has_set_flags flags then
            Inl (FlagError (flag_error ''--values and --set/--set-json/--set-ref/--unset are mutually exclusive''
              ''CONFLICTING_FLAGS'' ''use either --values or --set/--set-json/--set-ref/--unset, not both''))
          else map_sum id (\<lambda>v. (v, [])) (read_values ie raw)
      | None \<Rightarrow>
          if has_set_flags flags then build_inputs_from_flags ie base flags
          else Inl (FlagError (flag_error ''no values provided'' ''MISSING_VALUES'' ''pass --values <json> or --set key=value'')))"

end
