(* ===== verification/InputProps.thy ===== *)
theory InputProps
  imports InputPaths
begin

text \<open>
  The flags of the command line: which paths the parser can produce, that a value written along a path is
  read back and nothing else changes, that the references it accepts are those of the API, and what
  a path through an inherited method does.
\<close>

section \<open>Canonical indices\<close>

lemma element_index_iff: "element_index k = Some n \<longleftrightarrow> array_index k = Some n \<and> int n < 4294967295"
  by (auto simp: element_index_def split: option.splits)

lemma array_index_length [simp]: "array_index ''length'' = None" "element_index ''length'' = None"
  by (simp_all add: element_index_def array_index_def is_digits_def digit_chars_def)

section \<open>Parsed paths\<close>

fun safe_key :: "path_key \<Rightarrow> bool" where
  "safe_key (KStr s) = (s \<notin> set disallowed_keys \<and> should_coerce_to_number s = None)"
| "safe_key (KIdx n) = (int n \<le> MAX_ARRAY_INDEX)"

definition path_ok :: "path_state \<Rightarrow> bool" where
  "path_ok ps \<longleftrightarrow> list_all safe_key (ps_parts ps) \<and> (ps_escaping ps \<longrightarrow> ps_part ps = PathProperty) \<and>
     (ps_part ps = PathIndex \<longrightarrow> set (ps_segment ps) \<subseteq> set digit_chars) \<and> (ps_part ps = PathIndexEnd \<longrightarrow> ps_segment ps = [])"

fun step_ok :: "path_step \<Rightarrow> bool" where
  "step_ok (PathGo ps) = path_ok ps"
| "step_ok step = True"

lemma segment_key_safe: "s \<notin> set disallowed_keys \<Longrightarrow> safe_key (segment_key s)"
  by (auto simp: segment_key_def should_coerce_to_number_def split: option.splits)

lemma digits_allowed: "set s \<subseteq> set digit_chars \<Longrightarrow> s \<notin> set disallowed_keys"
  by (auto simp: disallowed_keys_def digit_chars_def)

lemma segment_key_digits: "set s \<subseteq> set digit_chars \<Longrightarrow> safe_key (segment_key s)"
  by (intro segment_key_safe digits_allowed)

lemma process_segment_ok: "path_ok ps \<Longrightarrow> \<not> ps_escaping ps \<or> p = PathProperty \<Longrightarrow> step_ok (then_part p (process_segment ps))"
  by (auto simp: process_segment_def path_ok_def segment_key_safe)

lemma path_char_ok:
  assumes "path_ok ps"
  shows "step_ok (path_char c position ps)"
proof (cases "ps_escaping ps")
  case True
  with assms show ?thesis by (auto simp: path_char_def path_ok_def add_char_def)
next
  case False
  have "step_ok (path_backslash position ps)" "step_ok (path_dot position ps)" "step_ok (path_open position ps)"
    "step_ok (path_close position ps)" "step_ok (path_default c position ps)"
    using assms False process_segment_ok [OF assms]
    by (auto simp: path_dot_def path_open_def path_close_def path_default_def invalid_in_index_def invalid_after_index_def
        path_ok_def add_char_def segment_key_digits in_set_butlastD list_all_iff split: path_part.splits)
  with False show ?thesis by (simp add: path_char_def)
qed

lemma path_chars_ok: "path_ok ps \<Longrightarrow> step_ok (path_chars cs position ps)"
proof (induction cs arbitrary: position ps)
  case (Cons c cs)
  then show ?case using path_char_ok [OF Cons.prems, of c "position + 1"] by (auto split: path_step.splits)
qed simp

lemma path_end_ok:
  assumes "path_ok ps" "path_parts (path_end ps) = Inr ks"
  shows "list_all safe_key ks"
  using assms
  by (auto simp: path_end_def path_ok_def add_char_def process_segment_def segment_key_safe Let_def should_coerce_to_number_def
      array_index_def is_digits_def disallowed_keys_def split: path_part.splits if_splits)

text \<open>A parsed path names no property that leads to a prototype by name, and its indices are bounded.\<close>

theorem parsed_path_safe:
  assumes "parse_path path = Inr ks"
  shows "list_all safe_key ks"
proof -
  let ?start = "\<lparr> ps_parts = [], ps_segment = [], ps_part = PathStart, ps_escaping = False \<rparr>"
  have "step_ok (path_chars path 0 ?start)" by (rule path_chars_ok) (simp add: path_ok_def)
  with assms show ?thesis
    by (cases "path_chars path 0 ?start") (auto simp: parse_path_def dest: path_end_ok)
qed

section \<open>Writing along a path\<close>

text \<open>The path reaches objects by their own or new properties, and arrays by indices; what is missing or no object
  becomes a container.\<close>

fun key_inside :: "jsval \<Rightarrow> string \<Rightarrow> bool" where
  "key_inside (JObj es) k = (k \<noteq> ''__proto__'')"
| "key_inside (JArr xs) k = (element_index k \<noteq> None)"
| "key_inside v k = False"

fun stays_inside :: "jsval \<Rightarrow> path_key list \<Rightarrow> bool" where
  "stays_inside current [] = True"
| "stays_inside current [k] = key_inside current (key_str k)"
| "stays_inside current (k # k' # ks) =
     (key_inside current (key_str k) \<and>
      (let child = get_prop current (key_str k)
       in \<not> is_function child \<and> stays_inside (if is_object child then child else new_container k') (k' # ks)))"

fun diverge :: "path_key list \<Rightarrow> path_key list \<Rightarrow> bool" where
  "diverge (k # ks) (q # qs) = (key_str k \<noteq> key_str q \<or> diverge ks qs)"
| "diverge _ _ = False"

lemma nat_of_digits_le: "is_digits s \<Longrightarrow> hd s \<noteq> CHR ''0'' \<Longrightarrow> 0 < nat_of_digits s"
proof (induction s rule: rev_induct)
  case (snoc c s)
  then show ?case
    by (cases "s = []") (auto simp: nat_of_digits_snoc is_digits_def digit_chars_def nat_of_digits_def)
qed (simp add: is_digits_def)

lemma digit_value: "c \<in> set digit_chars \<Longrightarrow> char_of (48 + (of_char c - 48 :: nat)) = c \<and> (of_char c - 48 :: nat) < 10"
proof -
  assume "c \<in> set digit_chars"
  then have "48 \<le> (of_char c :: nat)" "(of_char c :: nat) < 58" by (auto simp: digit_chars_def)
  then show ?thesis by simp
qed

lemma nat_str_nat_of_digits: "is_digits s \<Longrightarrow> s = ''0'' \<or> hd s \<noteq> CHR ''0'' \<Longrightarrow> nat_str (nat_of_digits s) = s"
proof (induction s rule: rev_induct)
  case (snoc c s)
  then have c: "c \<in> set digit_chars" by (simp add: is_digits_def)
  show ?case
  proof (cases "s = []")
    case True
    with digit_value [OF c] show ?thesis by (subst nat_str.simps) (simp add: nat_of_digits_def)
  next
    case False
    with snoc.prems have s: "is_digits s" "hd s \<noteq> CHR ''0''" by (auto simp: is_digits_def)
    with nat_of_digits_le have "0 < nat_of_digits s" by blast
    then have "\<not> nat_of_digits (s @ [c]) < 10" by (simp add: nat_of_digits_snoc)
    with digit_value [OF c] snoc.IH [OF s(1)] s(2) show ?thesis
      by (subst nat_str.simps) (simp add: nat_of_digits_snoc)
  qed
qed (simp add: is_digits_def)

lemma array_index_inj: "array_index s = Some n \<Longrightarrow> array_index t = Some n \<Longrightarrow> s = t"
  using nat_str_nat_of_digits [of s] nat_str_nat_of_digits [of t] by (auto simp: array_index_def split: if_splits)

lemma key_inside_not_length: "key_inside v k \<Longrightarrow> \<not> is_length v k"
  by (cases v) (auto simp: is_length_def)

lemma key_inside_object: "key_inside v k \<Longrightarrow> is_object v"
  by (cases v) auto

lemma write_inside: "key_inside v k \<Longrightarrow> \<exists>w. write_key number v k x = Inr w"
  by (cases v) (auto split: option.splits)

lemma write_object: "write_key number v k x = Inr w \<Longrightarrow> is_object w"
  by (cases v) (auto split: option.splits if_splits)

lemma read_written:
  assumes "key_inside v k" "write_key number v k x = Inr w" "x \<noteq> JUndef"
  shows "has_key members w k" "read_key members w k = x"
  using assms
  by (cases v; auto simp: put_prop_def set_element_def get_index_def nth_append element_index_iff is_length_def
      split: option.splits if_splits)+

lemma read_other:
  assumes "key_inside v k" "write_key number v k x = Inr w" "key_inside v q" "k \<noteq> q"
    and "has_key members v q"
  shows "has_key members w q" "read_key members w q = read_key members v q"
  using assms array_index_inj [of k _ q]
  by (cases v; auto simp: put_prop_def set_element_def get_index_def nth_append element_index_iff update_conv' nth_list_update
      split: option.splits if_splits)+

lemma has_key_object: "is_object child \<Longrightarrow> key_inside v k \<Longrightarrow> get_prop v k = child \<Longrightarrow> has_key members v k"
  by (cases v) (auto simp: object_inherited_def inherited_name_def split: option.splits if_splits)

text \<open>The value a step enters, in place of what is there.\<close>

definition inner :: "jsval \<Rightarrow> string \<Rightarrow> path_key \<Rightarrow> jsval" where
  "inner v k next = (let child = get_prop v k in if is_object child then child else new_container next)"

lemma inner_object: "is_object (inner v k next)"
  by (simp add: inner_def new_container_def Let_def split: path_key.splits)

lemma entered_inside: "key_inside v k \<Longrightarrow> \<not> is_function (get_prop v k) \<Longrightarrow> entered number v k next = Inr (inner v k next)"
  using write_inside [of v k number "new_container next"] key_inside_not_length [of v k]
  by (auto simp: entered_def inner_def Let_def)

lemma set_step:
  assumes "key_inside v (key_str k)" "\<not> is_function (get_prop v (key_str k))"
  shows "set_keys number v (k # k' # ks) x =
    res_bind (set_keys number (inner v (key_str k) k') (k' # ks) x) (\<lambda>(child', out).
      res_bind (write_key number v (key_str k) child') (\<lambda>w. Inr (w, out)))"
  using inner_object [of v "key_str k" k'] entered_inside [OF assms, of number k']
  by (cases "inner v (key_str k) k'") simp_all

lemma stays_step:
  "stays_inside v (k # k' # ks) \<longleftrightarrow> key_inside v (key_str k) \<and> \<not> is_function (get_prop v (key_str k)) \<and>
     stays_inside (inner v (key_str k) k') (k' # ks)"
  by (simp add: inner_def Let_def)

lemma read_key_plain: "\<not> is_function v \<Longrightarrow> read_key members v k = get_prop v k"
  by (cases v) auto

text \<open>A read along a path that stays inside, one step.\<close>

lemma get_step:
  assumes "key_inside v (key_str q)"
  shows "get_keys members v (q # qs) =
    (if has_key members v (key_str q) then get_keys members (get_prop v (key_str q)) qs else None)"
  using assms by (cases v) auto

lemma get_step_inner:
  assumes "stays_inside v (q # q' # qs)" "get_keys members v (q # q' # qs) = Some y"
  shows "has_key members v (key_str q) \<and> is_object (get_prop v (key_str q)) \<and>
    get_keys members (inner v (key_str q) q') (q' # qs) = Some y"
proof -
  have k: "key_inside v (key_str q)" and f: "\<not> is_function (get_prop v (key_str q))"
    using assms(1) by (simp_all add: stays_step del: stays_inside.simps)
  from assms(2) get_step [OF k, of members "q' # qs"]
  have "has_key members v (key_str q)" "get_keys members (get_prop v (key_str q)) (q' # qs) = Some y"
    by (simp_all split: if_splits)
  with f show ?thesis by (auto simp: inner_def split: if_splits)
qed

lemma set_keys_object:
  assumes "set_keys number v ks x = Inr (w, out)" "is_object v"
  shows "is_object w"
proof (cases "(number, v, ks, x)" rule: set_keys.cases)
  case (3 number v k k' ks x)
  with assms obtain child where "(case child of JFun f \<Rightarrow> Inr (v, [(f, k' # ks, Some x)]) | _ \<Rightarrow>
      res_bind (set_keys number child (k' # ks) x) (\<lambda>(child', out).
      res_bind (write_key number v (key_str k) child') (\<lambda>w. Inr (w, out)))) = Inr (w, out)"
    by (auto simp: result_simps)
  with assms 3 show ?thesis by (cases child) (auto simp: result_simps write_object split: prod.splits)
qed (use assms in \<open>auto simp: result_simps write_object\<close>)

lemma set_keys_spec:
  assumes "stays_inside v ks" "ks \<noteq> []" "x \<noteq> JUndef"
  shows "\<exists>w. set_keys number v ks x = Inr (w, []) \<and> get_keys members w ks = Some x \<and>
    (\<forall>q y. stays_inside v q \<and> diverge ks q \<and> get_keys members v q = Some y \<longrightarrow> get_keys members w q = Some y)"
  using assms
proof (induction ks arbitrary: v)
  case (Cons k ks)
  have k: "key_inside v (key_str k)" using Cons.prems(1) by (cases ks) (auto simp del: stays_inside.simps(3) simp: stays_step)
  have other: "get_keys members w q = Some y"
    if "write_key number v (key_str k) child = Inr w" "q = q1 # qs" "key_str k \<noteq> key_str q1" "stays_inside v q"
      "get_keys members v q = Some y" for child w q q1 qs y
  proof -
    have q: "key_inside v (key_str q1)" using that by (cases qs) (auto simp del: stays_inside.simps(3) simp: stays_step)
    have at: "has_key members v (key_str q1)" "get_keys members (get_prop v (key_str q1)) qs = Some y"
      using that(2,5) get_step [OF q, of members qs] by (simp_all split: if_splits)
    have "\<not> is_function v" using key_inside_object [OF q] by (cases v) auto
    then have "read_key members w (key_str q1) = get_prop v (key_str q1)"
      using read_other(2) [OF k that(1) q that(3) at(1)] by (simp add: read_key_plain)
    with at(2) read_other(1) [OF k that(1) q that(3) at(1)] write_object [OF that(1)] that(2) show ?thesis by simp
  qed
  show ?case
  proof (cases ks)
    case Nil
    from write_inside [OF k] obtain w where w: "write_key number v (key_str k) x = Inr w" by blast
    show ?thesis
    proof (intro exI conjI allI impI)
      show "set_keys number v (k # ks) x = Inr (w, [])" using w Nil by simp
      show "get_keys members w (k # ks) = Some x"
        using read_written [OF k w Cons.prems(3), of members] write_object [OF w] Nil by simp
      fix q y assume q: "stays_inside v q \<and> diverge (k # ks) q \<and> get_keys members v q = Some y"
      with Nil obtain q1 qs where "q = q1 # qs" "key_str k \<noteq> key_str q1" by (cases q) auto
      with other [OF w this] q show "get_keys members w q = Some y" by blast
    qed
  next
    case (Cons k' ks')
    let ?child = "inner v (key_str k) k'"
    from Cons.prems(1) Cons have f: "\<not> is_function (get_prop v (key_str k))" and child: "stays_inside ?child (k' # ks')"
      by (simp_all del: stays_inside.simps(3) add: stays_step)
    from Cons.IH [of ?child] child Cons.prems(3) Cons obtain c where
      c: "set_keys number ?child (k' # ks') x = Inr (c, [])" "get_keys members c (k' # ks') = Some x" and
      rest: "\<And>q y. stays_inside ?child q \<and> diverge (k' # ks') q \<and> get_keys members ?child q = Some y \<longrightarrow> get_keys members c q = Some y"
      by auto
    have obj: "is_object c" using set_keys_object [OF c(1) inner_object] .
    then have undef: "c \<noteq> JUndef" by auto
    from write_inside [OF k] obtain w where w: "write_key number v (key_str k) c = Inr w" by blast
    have reread: "has_key members w (key_str k)" "read_key members w (key_str k) = c" "is_object w"
      by (rule read_written [OF k w undef] write_object [OF w])+
    show ?thesis
    proof (intro exI conjI allI impI)
      show "set_keys number v (k # ks) x = Inr (w, [])" using Cons c(1) w set_step [OF k f, of number k' ks' x] by (simp del: set_keys.simps(3))
      show "get_keys members w (k # ks) = Some x" using reread c(2) Cons by simp
      fix q y assume q: "stays_inside v q \<and> diverge (k # ks) q \<and> get_keys members v q = Some y"
      then obtain q1 qs where q1: "q = q1 # qs" "key_str k \<noteq> key_str q1 \<or> diverge ks qs" by (cases q) auto
      show "get_keys members w q = Some y"
      proof (cases "key_str k = key_str q1")
        case False
        with other [OF w q1(1)] q show ?thesis by blast
      next
        case True
        with q1 Cons obtain q2 qs' where q2: "qs = q2 # qs'" "diverge (k' # ks') (q2 # qs')" by (cases qs) auto
        from q q1(1) q2(1) get_step_inner [of v q1 q2 qs' members y] True
        have "is_object (get_prop v (key_str k)) \<and> get_keys members (inner v (key_str q1) q2) (q2 # qs') = Some y"
          by (metis (no_types))
        moreover from this have "inner v (key_str q1) q2 = ?child" using True by (simp add: inner_def)
        moreover have "stays_inside (inner v (key_str q1) q2) (q2 # qs')"
          using q q1(1) q2(1) by (simp del: stays_inside.simps(3) add: stays_step)
        ultimately have "get_keys members c (q2 # qs') = Some y" using rest [of "q2 # qs'" y] q2(2) by (simp del: stays_inside.simps get_keys.simps diverge.simps)
        with reread True q1(1) q2(1) show ?thesis by (simp add: get_keys.simps(2) [of members w] del: get_keys.simps)
      qed
    qed
  qed
qed simp

text \<open>C39: a value set along a path that stays inside the object is what a read of that path finds, and every
  other path that parts from it, stays inside and found a value finds the same value after.\<close>

theorem set_property_read_back:
  assumes "parse_path path = Inr ks" "ks \<noteq> []" "stays_inside base ks" "v \<noteq> JUndef"
  shows "\<exists>base'. set_property number base path v = Inr (base', []) \<and> get_property members base' path = Inr (Some v) \<and>
    (\<forall>q w. stays_inside base q \<and> diverge ks q \<and> get_keys members base q = Some w \<longrightarrow> get_keys members base' q = Some w)"
proof -
  have "is_object base" using assms(2,3) by (cases ks; cases "tl ks") (auto dest: key_inside_object)
  with set_keys_spec [OF assms(3,2,4), of number members] assms(1,2) show ?thesis
    by (auto simp: set_property_def get_property_def)
qed

theorem set_property_read_back_witness:
  "\<exists>base'. set_property (\<lambda>_. None) (JObj [(''tags'', JArr [JStr ''a'']), (''name'', JStr ''x'')]) ''tags[1].key'' (JNum 3) = Inr (base', []) \<and>
     get_property (\<lambda>_ _. None) base' ''tags[1].key'' = Inr (Some (JNum 3)) \<and>
     get_keys (\<lambda>_ _. None) base' [KStr ''tags'', KIdx 0] = Some (JStr ''a'')"
proof -
  let ?base = "JObj [(''tags'', JArr [JStr ''a'']), (''name'', JStr ''x'')]" and ?ks = "[KStr ''tags'', KIdx 1, KStr ''key'']"
  have p: "parse_path ''tags[1].key'' = Inr ?ks" by code_simp
  have i: "stays_inside ?base ?ks" "stays_inside ?base [KStr ''tags'', KIdx 0]" "diverge ?ks [KStr ''tags'', KIdx 0]"
    "get_keys (\<lambda>_ _. None) ?base [KStr ''tags'', KIdx 0] = Some (JStr ''a'')" by code_simp+
  show ?thesis using set_property_read_back [OF p _ i(1), of "JNum 3" "\<lambda>_. None" "\<lambda>_ _. None"] i(2-4) by blast
qed

section \<open>References\<close>

lemma ref_patterns: "SET_REF_REGEX = REF_PATH_REGEX"
  by (simp add: SET_REF_REGEX_def REF_PATH_REGEX_def slug_chars_def ident_chars_def)

lemma set_ref_parses: "rx_matches SET_REF_REGEX r \<longleftrightarrow> (\<exists>p. parse_ref r = Inr p)"
  by (simp add: ref_patterns parse_ref_def)

lemma inline_ref_iff: "inline_ref s = Some r \<longleftrightarrow> s = ''${'' @ r @ ''}'' \<and> (\<exists>p. parse_ref r = Inr p)"
proof -
  have "s \<in> lang INLINE_REF_REGEX \<longleftrightarrow> (\<exists>u. s = ''${'' @ u @ ''}'' \<and> u \<in> lang SET_REF_REGEX)"
    by (auto simp: INLINE_REF_REGEX_def)
  then show ?thesis by (auto simp: inline_ref_def rx_matches_iff set_ref_parses [symmetric])
qed

text \<open>The strings a value has under the key of references, at any depth.\<close>

fun ref_entries :: "jsval \<Rightarrow> string list" where
  "ref_entries (JArr xs) = concat (map ref_entries xs)"
| "ref_entries (JObj es) =
     concat (map (\<lambda>(k, w). case w of JStr r \<Rightarrow> if k = ''$ref'' then [r] else [] | _ \<Rightarrow> ref_entries w) es)"
| "ref_entries _ = []"

lemma ref_entries_entry: "(k, w) \<in> set es \<Longrightarrow> set (ref_entries w) \<subseteq> set (ref_entries (JObj es))"
proof -
  assume "(k, w) \<in> set es"
  then have "set (case w of JStr r \<Rightarrow> if k = ''$ref'' then [r] else [] | _ \<Rightarrow> ref_entries w) \<subseteq> set (ref_entries (JObj es))"
    by (auto intro!: bexI [of _ "(k, w)"])
  then show ?thesis by (cases w) auto
qed

lemma expand_ref_strings: "set (ref_strings (expand_inline_refs v)) \<subseteq> set (ref_entries v) \<union> {r. \<exists>p. parse_ref r = Inr p}"
proof (induction v rule: jsval_induct)
  case (Str s)
  then show ?case using inline_ref_iff [of s] by (auto simp: ref_object_def split: option.splits)
next
  case (Obj es)
  let ?es = "map (\<lambda>(k, v). (k, expand_inline_refs v)) es"
  show ?case
  proof (cases "\<exists>r. map_of ?es ''$ref'' = Some (JStr r)")
    case True
    then obtain r u where "map_of ?es ''$ref'' = Some (JStr r)" and u: "map_of es ''$ref'' = Some u" "expand_inline_refs u = JStr r"
      by (auto simp: map_of_map)
    moreover from u(2) have "u = JStr r" by (cases u) (auto simp: ref_object_def split: option.splits)
    ultimately show ?thesis using map_of_SomeD [of es "''$ref''" u] by force
  next
    case False
    then have "ref_strings (JObj ?es) = concat (map (\<lambda>(k, v). ref_strings v) ?es)"
      by (auto split: option.split jsval.split)
    then show ?thesis using Obj ref_entries_entry [of _ _ es] by (auto simp: case_prod_beta simp del: ref_entries.simps) blast
  qed
qed auto

text \<open>C40: the command line and the API agree on references: the values of \<open>--set-ref\<close> and the strings expanded in
  \<open>--set-json\<close> are exactly those the API parses, and every other reference of an
  expanded value stood there as one.\<close>

theorem cli_refs_are_api_refs:
  "(rx_matches SET_REF_REGEX r \<longleftrightarrow> (\<exists>p. parse_ref r = Inr p)) \<and>
   (expand_inline_refs (JStr s) = ref_object r \<longleftrightarrow> s = ''${'' @ r @ ''}'' \<and> (\<exists>p. parse_ref r = Inr p)) \<and>
   set (ref_strings (expand_inline_refs v)) \<subseteq> set (ref_entries v) \<union> {r. \<exists>p. parse_ref r = Inr p}"
proof (intro conjI)
  show "expand_inline_refs (JStr s) = ref_object r \<longleftrightarrow> s = ''${'' @ r @ ''}'' \<and> (\<exists>p. parse_ref r = Inr p)"
    using inline_ref_iff [of s r] by (auto simp: ref_object_def split: option.splits)
qed (rule set_ref_parses expand_ref_strings)+

section \<open>Inherited methods\<close>

text \<open>A path through a method every object inherits leaves the object as it is and writes to the method.\<close>

lemma inherited_method_written:
  assumes "map_of es ''toString'' = None"
  shows "set_property number (JObj es) ''toString.x'' v = Inr (JObj es, [(''toString'', [KStr ''x''], Some v)])"
proof -
  have p: "parse_path ''toString.x'' = Inr [KStr ''toString'', KStr ''x'']" by code_simp
  have "object_inherited ''toString'' = JFun ''toString''" by code_simp
  with assms p show ?thesis by (simp add: set_property_def entered_def)
qed

end
