(* ===== verification/FieldArtifacts.thy ===== *)
theory FieldArtifacts
  imports FieldTree ThinkingBlock Schema
begin

text \<open>
  What the blocks for the form of a resource type accept, apps/api/src/resources/artifacts: the fields a
  layout is asked to place (field-layout/block.ts), its validation (field-layout/validators.ts) and that of
  the metadata of fields (field-metadata), and how the metadata is merged with what the schema says
  (resources/artifacts.ts). The agents and prompts are not modelled; \<open>safeParse\<close> of a Zod schema answers
  the issues or the typed value.
\<close>

section \<open>Issues\<close>

record issue =
  is_path :: string
  is_message :: string
  is_value :: jsval
  is_expected :: "jsval option"

definition issue_json :: "issue \<Rightarrow> jsval" where
  "issue_json i = JObj ([(''path'', JStr (is_path i)), (''message'', JStr (is_message i)), (''value'', is_value i)] @
     (case is_expected i of None \<Rightarrow> [] | Some e \<Rightarrow> [(''expected'', e)]))"

definition feedback_of :: "jsval list \<Rightarrow> validation" where
  "feedback_of issues = (if issues = [] then Passed else NotPassed (JObj [(''issues'', JArr issues)]))"

definition strings_json :: "string list \<Rightarrow> jsval" where
  "strings_json xs = JArr (map JStr xs)"

section \<open>The fields of a layout (field-layout/block.ts)\<close>

datatype layout_row =
    FieldRow string
  | GroupRow string "bool option" "layout_row list"      \<comment> \<open>title, collapsed, rows\<close>

record section_spec =
  ss_title :: string
  ss_rows :: "layout_row list"

record layout_output =
  lo_create :: section_spec
  lo_sections :: "section_spec list"

record layout_field =
  lf_path :: string
  lf_terraform :: string
  lf_type :: jsval
  lf_required :: bool
  lf_optional :: bool
  lf_computed :: bool
  lf_repeated :: bool
  lf_description :: "string option"

fun repeated_object_type :: "jsval \<Rightarrow> bool" where
  "repeated_object_type (JArr (k # inner # rest)) =
     (k \<in> {JStr ''list'', JStr ''set''} \<and> (case inner of JArr (JStr t # ts) \<Rightarrow> t = ''object'' | _ \<Rightarrow> False))"
| "repeated_object_type _ = False"

fun is_repeated_object :: "field \<Rightarrow> bool" where
  "is_repeated_object (BlockField n b cs) = (bf_mode b \<in> {NestList, NestSet} \<and> bf_max b \<noteq> Some 1)"
| "is_repeated_object (AttributeField n a cs) = repeated_object_type (af_type a)"

fun field_description :: "field \<Rightarrow> string option" where
  "field_description (AttributeField n a cs) = af_description a"
| "field_description (BlockField n b cs) = bf_description b"

definition collect_layout_fields :: "field list \<Rightarrow> layout_field list" where
  "collect_layout_fields tree = map (\<lambda>f.
     \<lparr> lf_path = fn_path (field_name_of f), lf_terraform = fn_terraform (field_name_of f), lf_type = field_cty_type f,
       lf_required = ff_required (field_facts_of f), lf_optional = ff_optional (field_facts_of f),
       lf_computed = ff_computed (field_facts_of f), lf_repeated = is_repeated_object f,
       lf_description = truthy (field_description f) \<rparr>) (flatten_resource_field_tree tree)"

section \<open>Coverage (field-layout/validators.ts)\<close>

fun row_paths :: "layout_row \<Rightarrow> string list" where
  "row_paths (FieldRow p) = [p]"
| "row_paths (GroupRow t c rows) = concat (map row_paths rows)"

definition collect_row_paths :: "section_spec list \<Rightarrow> string list" where
  "collect_row_paths sections = concat (map (\<lambda>s. concat (map row_paths (ss_rows s))) sections)"

text \<open>\<open>candidate.startsWith(path + ".")\<close>.\<close>

definition inside_of :: "string \<Rightarrow> string \<Rightarrow> bool" where
  "inside_of candidate path \<longleftrightarrow> take (length path + 1) candidate = path @ ''.''"

text \<open>The three sets, in the order in which they were filled.\<close>

record coverage_marks =
  cm_placed :: "string list"
  cm_missing :: "string list"
  cm_repeated :: "string list"

definition mark_field :: "layout_field \<Rightarrow> coverage_marks \<Rightarrow> coverage_marks" where
  "mark_field f c =
     c\<lparr> cm_placed := set_add (lf_path f) (cm_placed c),
       cm_repeated := (if lf_repeated f then set_add (lf_path f) (cm_repeated c) else cm_repeated c) \<rparr>"

definition mark_path :: "(string \<times> layout_field) list \<Rightarrow> string \<Rightarrow> coverage_marks \<Rightarrow> coverage_marks" where
  "mark_path by_path path c =
     (case map_of by_path path of
        None \<Rightarrow> c\<lparr> cm_missing := set_add path (cm_missing c) \<rparr>
      | Some f \<Rightarrow> fold (\<lambda>(candidate, g) c.
          if inside_of candidate path \<or> inside_of path candidate then mark_field g c else c) by_path (mark_field f c))"

text \<open>The paths of the create section: unknown ones, and those the edit sections have not placed.\<close>

definition mark_create ::
  "(string \<times> layout_field) list \<Rightarrow> string \<Rightarrow> coverage_marks \<times> string list \<Rightarrow> coverage_marks \<times> string list" where
  "mark_create by_path path = (\<lambda>(c, create_only).
     case map_of by_path path of
       None \<Rightarrow> (c\<lparr> cm_missing := set_add path (cm_missing c) \<rparr>, create_only)
     | Some f \<Rightarrow> (c, if lf_path f \<in> set (cm_placed c) then create_only else set_add (lf_path f) create_only))"

record layout_coverage =
  lc_writable :: "string list"
  lc_placed :: "string list"
  lc_unplaced :: "string list"
  lc_unplaced_required :: "string list"
  lc_missing :: "string list"
  lc_repeated :: "string list"
  lc_create_only :: "string list"

definition field_layout_coverage :: "layout_field list \<Rightarrow> layout_output \<Rightarrow> layout_coverage" where
  "field_layout_coverage supplied layout =
     (let by_path = map_of_list lf_path supplied;
          marks = fold (mark_path by_path) (collect_row_paths (lo_sections layout)) \<lparr> cm_placed = [], cm_missing = [], cm_repeated = [] \<rparr>;
          (marks, create_only) = fold (mark_create by_path) (collect_row_paths [lo_create layout]) (marks, []);
          writable = sort (map lf_path supplied);
          unplaced = filter (\<lambda>p. p \<notin> set (cm_placed marks)) writable
      in \<lparr> lc_writable = writable, lc_placed = sort (cm_placed marks), lc_unplaced = unplaced,
           lc_unplaced_required = filter (\<lambda>p. case map_of by_path p of Some f \<Rightarrow> lf_required f | None \<Rightarrow> False) unplaced,
           lc_missing = sort (cm_missing marks), lc_repeated = sort (cm_repeated marks), lc_create_only = sort create_only \<rparr>)"

definition coverage_issue :: "string \<Rightarrow> string \<Rightarrow> string list \<Rightarrow> string \<Rightarrow> issue list" where
  "coverage_issue path message paths expected =
     (if paths = [] then []
      else [\<lparr> is_path = path, is_message = message, is_value = strings_json paths, is_expected = Some (JStr expected) \<rparr>])"

definition validate_layout_coverage :: "layout_field list \<Rightarrow> layout_output \<Rightarrow> issue list" where
  "validate_layout_coverage supplied layout =
     (let c = field_layout_coverage supplied layout
      in coverage_issue ''sections'' ''Every supplied writable field path must be placed in an edit section.'' (lc_unplaced c)
           ''Place each unplaced path in a section or group row.'' @
         coverage_issue ''create'' ''Every create path must also appear in an edit section; the edit sections are the complete surface.''
           (lc_create_only c)
           ''Add each create-only path to an edit section. Create is a curated subset of the edit sections, never an extra field source.'' @
         coverage_issue ''sections'' ''Required fields must appear in a visible scan-line row.'' (lc_unplaced_required c)
           ''Place each required path as a direct row in a section.'' @
         coverage_issue ''sections'' ''Layout references paths that are not in the supplied field list.'' (lc_missing c)
           ''Use only paths from the supplied field records.'')"

section \<open>Partition\<close>

fun row_json :: "layout_row \<Rightarrow> jsval" where
  "row_json (FieldRow p) = JStr p"
| "row_json (GroupRow t c rows) = JObj ([(''title'', JStr t)] @ (case c of None \<Rightarrow> [] | Some v \<Rightarrow> [(''collapsed'', JBool v)]) @
     [(''rows'', JArr (map row_json rows))])"

fun is_group :: "layout_row \<Rightarrow> bool" where
  "is_group (FieldRow p) = False"
| "is_group (GroupRow t c rows) = True"

definition scan_line_issue :: "section_spec \<Rightarrow> string \<Rightarrow> issue list" where
  "scan_line_issue s location =
     (if ss_rows s \<noteq> [] \<and> list_all is_group (ss_rows s)
      then [\<lparr> is_path = location @ ''.rows'',
        is_message = ''A section must contain at least one direct scan-line field row, not only groups.'',
        is_value = JArr (map row_json (ss_rows s)),
        is_expected = Some (JStr (''Promote the section'' @ [CHR 0x27] @ ''s primary field to a direct row, or fold these groups into another section.'')) \<rparr>]
      else [])"

text \<open>\<open>visitRows\<close>: the rows from an index on, and whether a group has been seen.\<close>

fun visit_rows :: "string \<Rightarrow> nat \<Rightarrow> bool \<Rightarrow> layout_row list \<Rightarrow> issue list" where
  "visit_rows location index saw_group [] = []"
| "visit_rows location index saw_group (FieldRow p # rows) =
     (if saw_group then [\<lparr> is_path = location @ ''.rows.'' @ nat_str index,
        is_message = ''A direct field row may not appear after a group row in the same list.'', is_value = JStr p,
        is_expected = Some (JStr ''Move all direct field rows before any group rows.'') \<rparr>] else []) @
     visit_rows location (index + 1) saw_group rows"
| "visit_rows location index saw_group (GroupRow t c inner # rows) =
     (let row_path = location @ ''.rows.'' @ nat_str index
      in (if inner = [] then [\<lparr> is_path = row_path, is_message = ''A group must contain at least one row.'',
            is_value = row_json (GroupRow t c inner), is_expected = Some (JStr ''Remove the empty group or give it rows.'') \<rparr>] else []) @
         visit_rows row_path 0 False inner @ visit_rows location (index + 1) True rows)"

definition validate_layout_partition :: "layout_output \<Rightarrow> issue list" where
  "validate_layout_partition layout =
     visit_rows ''create'' 0 False (ss_rows (lo_create layout)) @ scan_line_issue (lo_create layout) ''create'' @
     concat (map (\<lambda>(i, s). visit_rows (''sections.'' @ nat_str i) 0 False (ss_rows s) @ scan_line_issue s (''sections.'' @ nat_str i))
       (enumerate 0 (lo_sections layout)))"

definition validate_resource_field_layout :: "(jsval \<Rightarrow> jsval list + layout_output) \<Rightarrow> layout_field list \<Rightarrow> jsval \<Rightarrow> validation" where
  "validate_resource_field_layout safe_parse supplied out =
     (case safe_parse out of
        Inl issues \<Rightarrow> NotPassed (JObj [(''issues'', JArr issues)])
      | Inr layout \<Rightarrow> feedback_of (map issue_json (validate_layout_coverage supplied layout @ validate_layout_partition layout)))"

section \<open>Field metadata (field-metadata)\<close>

record field_entry =
  fe_label :: "string option"          \<comment> \<open>always there in a generated entry\<close>
  fe_help :: "string option"
  fe_icon :: "string option"
  fe_core :: "bool option"
  fe_reference :: "bool option"

definition RESOURCE_FIELD_LABEL_MAX_LENGTH :: nat where "RESOURCE_FIELD_LABEL_MAX_LENGTH = 80"
definition RESOURCE_FIELD_HELP_MAX_LENGTH :: nat where "RESOURCE_FIELD_HELP_MAX_LENGTH = 180"

definition icon_chars :: string where "icon_chars = lower_chars @ digit_chars"

definition RESOURCE_FIELD_ICON_PATTERN :: rx where
  "RESOURCE_FIELD_ICON_PATTERN =
     RSeq (RLit ''lucide:'') (RSeq (RPlus (RIn icon_chars)) (RStar (RSeq (RLit ''-'') (RPlus (RIn icon_chars)))))"

definition entry_json :: "field_entry \<Rightarrow> jsval" where
  "entry_json e =
     (let text = (\<lambda>k v. case v of None \<Rightarrow> [] | Some s \<Rightarrow> [(k, JStr s)]); flag = (\<lambda>k v. case v of None \<Rightarrow> [] | Some x \<Rightarrow> [(k, JBool x)])
      in JObj (text ''label'' (fe_label e) @ text ''help'' (fe_help e) @ text ''icon'' (fe_icon e) @
               flag ''core'' (fe_core e) @ flag ''reference'' (fe_reference e)))"

definition badly_trimmed :: "nat \<Rightarrow> string \<Rightarrow> bool" where
  "badly_trimmed limit text \<longleftrightarrow> text \<noteq> js_trim text \<or> js_trim text = [] \<or> length (js_trim text) > limit"

definition entry_issues :: "string list \<Rightarrow> string \<times> field_entry \<Rightarrow> issue list" where
  "entry_issues known = (\<lambda>(path, e).
     if path \<notin> set known then
       [\<lparr> is_path = ''fields.'' @ path,
          is_message = ''Field metadata references a path that is not present in the supplied field list.'',
          is_value = entry_json e, is_expected = Some (JStr ''A path from the supplied fields array.'') \<rparr>]
     else
       (case fe_label e of
          Some label \<Rightarrow> if badly_trimmed RESOURCE_FIELD_LABEL_MAX_LENGTH label then
            [\<lparr> is_path = ''fields.'' @ path @ ''.label'', is_message = ''Field label must be non-empty, trimmed, and concise.'',
               is_value = JStr label, is_expected = Some (JStr (nat_str RESOURCE_FIELD_LABEL_MAX_LENGTH @ '' characters or fewer.'')) \<rparr>] else []
        | None \<Rightarrow> []) @
       (case fe_help e of
          Some help \<Rightarrow> if badly_trimmed RESOURCE_FIELD_HELP_MAX_LENGTH help then
            [\<lparr> is_path = ''fields.'' @ path @ ''.help'', is_message = ''Field help must be trimmed short supplemental guidance.'',
               is_value = JStr help, is_expected = Some (JStr (nat_str RESOURCE_FIELD_HELP_MAX_LENGTH @ '' characters or fewer.'')) \<rparr>] else []
        | None \<Rightarrow> []) @
       (case fe_icon e of
          Some icon \<Rightarrow> if rx_matches RESOURCE_FIELD_ICON_PATTERN icon then [] else
            [\<lparr> is_path = ''fields.'' @ path @ ''.icon'',
               is_message = ''Field icon must be an exact Iconify Lucide icon id such as lucide:cpu.'',
               is_value = JStr icon, is_expected = Some (JStr ''An existing lucide:* icon id returned by searchLucideIcons.'') \<rparr>]
        | None \<Rightarrow> []))"

definition validate_field_metadata :: "string list \<Rightarrow> (string \<times> field_entry) list \<Rightarrow> issue list" where
  "validate_field_metadata known entries = concat (map (entry_issues known) entries)"

definition icon_issue :: "string \<Rightarrow> string \<Rightarrow> string \<times> string \<Rightarrow> issue" where
  "icon_issue message expected e =
     \<lparr> is_path = ''fields.'' @ fst e @ ''.icon'', is_message = message, is_value = JStr (snd e), is_expected = Some (JStr expected) \<rparr>"

definition icons_of :: "(string \<times> field_entry) list \<Rightarrow> (string \<times> string) list" where
  "icons_of entries = concat (map (\<lambda>(path, e). case fe_icon e of Some i \<Rightarrow> [(path, i)] | None \<Rightarrow> []) entries)"

text \<open>\<open>existing_icons\<close> is the search in Iconify, which may fail, with the message of its error.\<close>

definition validate_field_icons :: "(string list \<Rightarrow> string option + string list) \<Rightarrow> (string \<times> field_entry) list \<Rightarrow> issue list" where
  "validate_field_icons existing_icons entries =
     (if icons_of entries = [] then []
      else case existing_icons (map snd (icons_of entries)) of
        Inl failure \<Rightarrow> map (icon_issue ''Field icon could not be verified against Iconify.''
          (case failure of Some m \<Rightarrow> ''Iconify verification must succeed: '' @ m | None \<Rightarrow> ''Iconify verification must succeed.''))
          (icons_of entries)
      | Inr found \<Rightarrow> map (icon_issue (''Field icon does not exist in Iconify'' @ [CHR 0x27] @ ''s Lucide collection.'')
          ''An exact lucide:* icon id that exists in Iconify.'') (filter (\<lambda>e. snd e \<notin> set found) (icons_of entries)))"

definition validate_resource_field_metadata ::
  "(jsval \<Rightarrow> jsval list + (string \<times> field_entry) list) \<Rightarrow> (string list \<Rightarrow> string option + string list) \<Rightarrow>
   string list \<Rightarrow> jsval \<Rightarrow> validation" where
  "validate_resource_field_metadata safe_parse existing_icons known out =
     (case safe_parse out of
        Inl issues \<Rightarrow> NotPassed (JObj [(''issues'', JArr issues)])
      | Inr entries \<Rightarrow> feedback_of (map issue_json (validate_field_metadata known entries @ validate_field_icons existing_icons entries)))"

section \<open>Merging with the schema (resources/artifacts.ts)\<close>

fun is_block :: "field \<Rightarrow> bool" where
  "is_block (BlockField n b cs) = True"
| "is_block (AttributeField n a cs) = False"

definition settable_input_paths :: "field list \<Rightarrow> string list" where
  "settable_input_paths tree = set_of_list (map (fn_path \<circ> field_name_of)
     (filter (\<lambda>f. is_block f \<or> ff_required (field_facts_of f) \<or> ff_optional (field_facts_of f)) (flatten_resource_field_tree tree)))"

definition top_level_required_paths :: "field list \<Rightarrow> string list" where
  "top_level_required_paths tree = set_of_list (map (fn_path \<circ> field_name_of) (filter (\<lambda>f. ff_required (field_facts_of f)) tree))"

definition labelled :: "string \<Rightarrow> field_entry" where
  "labelled path = \<lparr> fe_label = Some path, fe_help = None, fe_icon = None, fe_core = None, fe_reference = None \<rparr>"

text \<open>\<open>llm[path]\<close>: an inherited member of \<open>Object.prototype\<close> has no entry to spread.\<close>

definition generated_entry :: "(string \<times> field_entry) list \<Rightarrow> string \<Rightarrow> field_entry" where
  "generated_entry llm path =
     (case map_of llm path of
        Some e \<Rightarrow> e
      | None \<Rightarrow> if inherited_name path then (labelled path)\<lparr> fe_label := None \<rparr> else labelled path)"

definition merged_entry :: "(string \<times> field_entry) list \<Rightarrow> string list \<Rightarrow> string list \<Rightarrow> string \<Rightarrow> field_entry" where
  "merged_entry llm core reference path =
     (let e = generated_entry llm path
      in e\<lparr> fe_core := (if path \<in> set core then Some True else fe_core e),
            fe_reference := (if path \<in> set reference then Some True else fe_reference e) \<rparr>)"

definition merge_field_metadata :: "(string \<times> field_entry) list \<Rightarrow> string list \<Rightarrow> string list \<Rightarrow> (string \<times> field_entry) list" where
  "merge_field_metadata llm core reference =
     map (\<lambda>path. (path, merged_entry llm core reference path))
       (filter (\<lambda>path. path \<noteq> ''__proto__'') (set_of_list (map fst llm @ core @ reference)))"

end
