(* ===== verification/FieldArtifactProps.thy ===== *)
theory FieldArtifactProps
  imports FieldArtifacts
begin

text \<open>
  Which layouts of a form pass their validation, stated on the layout itself, and what the merged metadata of
  fields says.
\<close>

section \<open>The specification of a layout\<close>

text \<open>A placed path covers itself, what it contains and what contains it.\<close>

definition covers :: "string \<Rightarrow> string \<Rightarrow> bool" where
  "covers p q \<longleftrightarrow> p = q \<or> inside_of q p \<or> inside_of p q"

definition partitioned :: "layout_row list \<Rightarrow> bool" where
  "partitioned rows \<longleftrightarrow> list_all is_group (dropWhile (Not \<circ> is_group) rows)"

fun row_ok :: "layout_row \<Rightarrow> bool" where
  "row_ok (FieldRow p) = True"
| "row_ok (GroupRow t c rows) = (rows \<noteq> [] \<and> partitioned rows \<and> list_all row_ok rows)"

definition section_ok :: "section_spec \<Rightarrow> bool" where
  "section_ok s \<longleftrightarrow> partitioned (ss_rows s) \<and> list_all row_ok (ss_rows s) \<and>
     (ss_rows s \<noteq> [] \<longrightarrow> (\<exists>r \<in> set (ss_rows s). \<not> is_group r))"

definition layout_ok :: "layout_field list \<Rightarrow> layout_output \<Rightarrow> bool" where
  "layout_ok supplied layout \<longleftrightarrow>
     (let placed = set (collect_row_paths (lo_sections layout)); create = set (collect_row_paths [lo_create layout]);
          paths = lf_path ` set supplied
      in placed \<subseteq> paths \<and> create \<subseteq> paths \<and> (\<forall>q \<in> paths. \<exists>p \<in> placed. covers p q) \<and>
         list_all section_ok (lo_create layout # lo_sections layout))"

section \<open>Coverage\<close>

definition keyed :: "(string \<times> layout_field) list \<Rightarrow> bool" where
  "keyed by_path \<longleftrightarrow> (\<forall>(k, f) \<in> set by_path. lf_path f = k)"

lemma map_of_list_keyed: "keyed (map_of_list lf_path supplied)" "fst ` set (map_of_list lf_path supplied) = lf_path ` set supplied"
proof -
  have "keyed (fold (\<lambda>x. AList.update (lf_path x) x) supplied m) \<and>
      fst ` set (fold (\<lambda>x. AList.update (lf_path x) x) supplied m) = fst ` set m \<union> lf_path ` set supplied" if "keyed m" for m
    using that
  proof (induction supplied arbitrary: m)
    case (Cons x xs)
    have "keyed (AList.update (lf_path x) x m)"
      using Cons.prems unfolding keyed_def by (induction m) (auto split: if_splits)
    with Cons.IH show ?case by auto
  qed simp
  from this [of "[]"] show "keyed (map_of_list lf_path supplied)" "fst ` set (map_of_list lf_path supplied) = lf_path ` set supplied"
    by (auto simp: map_of_list_def keyed_def)
qed

lemma mark_field_sets [simp]: "set (cm_placed (mark_field f c)) = insert (lf_path f) (set (cm_placed c))"
  "cm_missing (mark_field f c) = cm_missing c"
  by (simp_all add: mark_field_def)

lemma mark_related:
  assumes "keyed by_path"
  shows "set (cm_placed (fold (\<lambda>(k, g) c. if P k then mark_field g c else c) by_path c)) =
      set (cm_placed c) \<union> {k \<in> fst ` set by_path. P k} \<and>
    cm_missing (fold (\<lambda>(k, g) c. if P k then mark_field g c else c) by_path c) = cm_missing c"
  using assms by (induction by_path arbitrary: c) (auto simp: keyed_def split: if_splits)

lemma mark_path_sets:
  assumes "keyed by_path"
  shows "set (cm_placed (mark_path by_path p c)) =
      set (cm_placed c) \<union> (if p \<in> fst ` set by_path then {q \<in> fst ` set by_path. covers p q} else {}) \<and>
    set (cm_missing (mark_path by_path p c)) = set (cm_missing c) \<union> (if p \<in> fst ` set by_path then {} else {p})"
proof (cases "map_of by_path p")
  case None
  then have "p \<notin> fst ` set by_path" by (simp add: map_of_eq_None_iff)
  with None show ?thesis by (simp add: mark_path_def)
next
  case (Some f)
  then have "(p, f) \<in> set by_path" by (rule map_of_SomeD)
  with assms have "lf_path f = p" "p \<in> fst ` set by_path" by (force simp: keyed_def)+
  let ?w = "fold (\<lambda>(k, g) c. if inside_of k p \<or> inside_of p k then mark_field g c else c) by_path (mark_field f c)"
  have w: "mark_path by_path p c = ?w" using Some by (simp add: mark_path_def)
  note marked = mark_related [OF assms, of "\<lambda>k. inside_of k p \<or> inside_of p k" "mark_field f c"]
  have "set (cm_placed ?w) = insert (lf_path f) (set (cm_placed c)) \<union> {k \<in> fst ` set by_path. inside_of k p \<or> inside_of p k}"
    using marked by (simp only: mark_field_sets)
  also have "\<dots> = set (cm_placed c) \<union> {q \<in> fst ` set by_path. covers p q}"
  proof -
    have "insert p A \<union> {k \<in> K. inside_of k p \<or> inside_of p k} = A \<union> {q \<in> K. covers p q}" if "p \<in> K" for A K
      using that by (auto simp: covers_def)
    from this [OF \<open>p \<in> fst ` set by_path\<close>] show ?thesis unfolding \<open>lf_path f = p\<close> .
  qed
  finally have "set (cm_placed ?w) = set (cm_placed c) \<union> {q \<in> fst ` set by_path. covers p q}" .
  moreover have "cm_missing ?w = cm_missing c" using marked by (simp only: mark_field_sets)
  ultimately show ?thesis unfolding w using \<open>p \<in> fst ` set by_path\<close> by simp
qed

lemma mark_paths_sets:
  assumes "keyed by_path"
  shows "set (cm_placed (fold (mark_path by_path) ps c)) =
      set (cm_placed c) \<union> {q \<in> fst ` set by_path. \<exists>p \<in> set ps. p \<in> fst ` set by_path \<and> covers p q} \<and>
    set (cm_missing (fold (mark_path by_path) ps c)) = set (cm_missing c) \<union> (set ps - fst ` set by_path)"
  using mark_path_sets [OF assms] by (induction ps arbitrary: c) (auto split: if_splits)

lemma mark_create_sets:
  assumes "keyed by_path"
  shows "cm_placed (fst (fold (mark_create by_path) ps (c, only))) = cm_placed c \<and>
    set (cm_missing (fst (fold (mark_create by_path) ps (c, only)))) = set (cm_missing c) \<union> (set ps - fst ` set by_path) \<and>
    set (snd (fold (mark_create by_path) ps (c, only))) = set only \<union> {p \<in> set ps. p \<in> fst ` set by_path \<and> p \<notin> set (cm_placed c)}"
proof (induction ps arbitrary: c only)
  case (Cons p ps)
  show ?case
  proof (cases "map_of by_path p")
    case None
    then have "p \<notin> fst ` set by_path" by (simp add: map_of_eq_None_iff)
    with None Cons show ?thesis by (auto simp: mark_create_def)
  next
    case (Some f)
    then have "(p, f) \<in> set by_path" by (rule map_of_SomeD)
    with assms have "lf_path f = p" "p \<in> fst ` set by_path" by (force simp: keyed_def)+
    with Some Cons show ?thesis by (auto simp: mark_create_def)
  qed
qed simp

lemma coverage_issue_Nil [simp]: "coverage_issue path message ps expected = [] \<longleftrightarrow> ps = []"
  by (simp add: coverage_issue_def)

lemma sort_empty_iff: "sort xs = [] \<longleftrightarrow> xs = []"
  by (metis length_0_conv length_sort)

lemma coverage_passes_iff:
  "validate_layout_coverage supplied layout = [] \<longleftrightarrow>
    (let placed = set (collect_row_paths (lo_sections layout)); create = set (collect_row_paths [lo_create layout]);
         paths = lf_path ` set supplied
     in placed \<subseteq> paths \<and> create \<subseteq> paths \<and> (\<forall>q \<in> paths. \<exists>p \<in> placed. covers p q))"
proof -
  let ?by = "map_of_list lf_path supplied" and ?paths = "lf_path ` set supplied"
  let ?sec = "collect_row_paths (lo_sections layout)" and ?cre = "collect_row_paths [lo_create layout]"
  let ?m = "fold (mark_path ?by) ?sec \<lparr> cm_placed = [], cm_missing = [], cm_repeated = [] \<rparr>"
  obtain m' only where cre: "fold (mark_create ?by) ?cre (?m, []) = (m', only)" by fastforce
  note keyed_by = map_of_list_keyed [of supplied]
  have placed: "set (cm_placed ?m) = {q \<in> ?paths. \<exists>p \<in> set ?sec. p \<in> ?paths \<and> covers p q}" and miss: "set (cm_missing ?m) = set ?sec - ?paths"
    using mark_paths_sets [OF keyed_by(1), of ?sec "\<lparr> cm_placed = [], cm_missing = [], cm_repeated = [] \<rparr>"] by (simp_all add: keyed_by(2))
  have "cm_placed m' = cm_placed ?m" "set (cm_missing m') = set ?sec - ?paths \<union> (set ?cre - ?paths)"
    "set only = {p \<in> set ?cre. p \<in> ?paths \<and> p \<notin> set (cm_placed ?m)}"
    using mark_create_sets [OF keyed_by(1), of ?cre ?m "[]"] cre miss by (simp_all add: keyed_by(2))
  note sets = this placed
  have "validate_layout_coverage supplied layout = [] \<longleftrightarrow>
      (\<forall>q \<in> ?paths. q \<in> set (cm_placed ?m)) \<and> set only = {} \<and> set (cm_missing m') = {}"
    using cre sets(1)
    by (auto simp: validate_layout_coverage_def field_layout_coverage_def Let_def filter_empty_conv sort_empty_iff)
  then show ?thesis unfolding sets Let_def by blast
qed

section \<open>Partition\<close>

lemma scan_line_Nil [simp]: "scan_line_issue s l = [] \<longleftrightarrow> (ss_rows s \<noteq> [] \<longrightarrow> (\<exists>r \<in> set (ss_rows s). \<not> is_group r))"
  by (auto simp: scan_line_issue_def list_all_iff)

lemma visit_rows_Nil:
  "visit_rows l i g rows = [] \<longleftrightarrow> (if g then list_all is_group rows else partitioned rows) \<and> list_all row_ok rows"
proof (induction l i g rows rule: visit_rows.induct)
  case (3 l i g t c inner rows)
  then show ?case by (auto simp: partitioned_def Let_def)
qed (auto simp: partitioned_def)

lemma partition_passes_iff:
  "validate_layout_partition layout = [] \<longleftrightarrow> list_all section_ok (lo_create layout # lo_sections layout)"
proof -
  have "(\<forall>(i, s) \<in> set (enumerate n ss). visit_rows (f i) 0 False (ss_rows s) @ scan_line_issue s (f i) = []) \<longleftrightarrow> list_all section_ok ss"
    for f n ss by (induction ss arbitrary: n) (auto simp: visit_rows_Nil section_ok_def)
  from this [of 0 "lo_sections layout" "\<lambda>i. ''sections.'' @ nat_str i"] show ?thesis
    by (auto simp: validate_layout_partition_def visit_rows_Nil section_ok_def)
qed

text \<open>C37: an answer of the model is accepted as the layout of a form exactly if it parses and is well formed: it
  uses supplied paths only, the edit sections cover every supplied path, and in every list of rows the fields
  come before the groups, no group is empty, and a section with rows has a direct field.\<close>

theorem layout_accepted_iff:
  "validate_resource_field_layout safe_parse supplied out = Passed \<longleftrightarrow>
     (\<exists>layout. safe_parse out = Inr layout \<and> layout_ok supplied layout)"
  using coverage_passes_iff [of supplied] partition_passes_iff
  by (auto simp: validate_resource_field_layout_def feedback_of_def layout_ok_def Let_def split: sum.splits)

text \<open>A section without rows is accepted, the one for creation too. A required field in a group is covered like
  any other.\<close>

lemma empty_section_accepted: "section_ok \<lparr> ss_title = t, ss_rows = [] \<rparr>"
  by (simp add: section_ok_def partitioned_def)

section \<open>Metadata\<close>

lemma merged_metadata_flags:
  assumes "(path, e) \<in> set (merge_field_metadata llm core reference)"
  shows "(path \<in> set core \<longrightarrow> fe_core e = Some True) \<and> (path \<in> set reference \<longrightarrow> fe_reference e = Some True)"
  using assms by (auto simp: merge_field_metadata_def merged_entry_def Let_def)

end
