(* ===== verification/RelationshipRules.thy ===== *)
theory RelationshipRules
  imports FieldArtifacts Refs
begin

text \<open>
  Relationship rules, apps/api/src/resources/artifacts/relationship-rules: rules that a field of one type
  holds the handle of a field of another (schema.ts), the validation of generated ones (validators.ts), the
  fields shown to the model (context.ts), the ready rules of a type with those of older schemas
  (query.ts, for the present version of the block), and how the block stores its output (block.ts). What the provider answers while rules are
  validated is \<open>rule_provider\<close>.
\<close>

section \<open>Rules (schema.ts)\<close>

datatype source_kind = ResourceSource | DataSource

datatype resource_role = AttachmentRole | ReferenceRole | ScopeRole | AssociationRole

fun kind_str :: "source_kind \<Rightarrow> string" where
  "kind_str ResourceSource = ''resource''"
| "kind_str DataSource = ''data''"

fun role_str :: "resource_role \<Rightarrow> string" where
  "role_str AttachmentRole = ''ATTACHMENT''"
| "role_str ReferenceRole = ''REFERENCE''"
| "role_str ScopeRole = ''SCOPE''"
| "role_str AssociationRole = ''ASSOCIATION''"

record rule_endpoint =
  ep_kind :: source_kind
  ep_type :: string
  ep_path :: string

record relationship_rule =
  ru_source :: rule_endpoint
  ru_target :: rule_endpoint
  ru_role :: resource_role

record artifact_rule = relationship_rule +
  ru_key :: string

definition RELATIONSHIP_RULES_BLOCK_NAME :: string where
  "RELATIONSHIP_RULES_BLOCK_NAME = ''resource-relationship-rules''"

definition RELATIONSHIP_RULES_BLOCK_VERSION :: string where
  "RELATIONSHIP_RULES_BLOCK_VERSION = ''v1''"

definition relationship_rules_identity_key :: "string \<Rightarrow> source_kind \<Rightarrow> string \<Rightarrow> string \<Rightarrow> string" where
  "relationship_rules_identity_key provider kind ty schema_hash = join_with '':'' [provider, kind_str kind, ty, schema_hash]"

definition relationship_rules_identity_prefix :: "string \<Rightarrow> source_kind \<Rightarrow> string \<Rightarrow> string" where
  "relationship_rules_identity_prefix provider kind ty = join_with '':'' [provider, kind_str kind, ty, []]"

definition endpoint_json :: "rule_endpoint \<Rightarrow> jsval" where
  "endpoint_json e = JObj [(''kind'', JStr (kind_str (ep_kind e))), (''type'', JStr (ep_type e)), (''path'', JStr (ep_path e))]"

text \<open>A rule as the value of an issue. Stored rules are validated one by one for having issues, which nobody reads.\<close>

definition rule_json :: "'a relationship_rule_scheme \<Rightarrow> jsval" where
  "rule_json r = JObj [(''source'', endpoint_json (ru_source r)), (''target'', endpoint_json (ru_target r)),
     (''relationship'', JStr (role_str (ru_role r)))]"

section \<open>Validation against the provider (validators.ts)\<close>

fun get_field_trail :: "field list \<Rightarrow> string list \<Rightarrow> field list option" where
  "get_field_trail nodes [] = Some []"
| "get_field_trail nodes (segment # segments) =
     (case find (\<lambda>f. fn_terraform (field_name_of f) = segment) nodes of
        None \<Rightarrow> None
      | Some f \<Rightarrow> map_option (Cons f) (get_field_trail (field_children f) segments))"

definition find_field :: "field list \<Rightarrow> string \<Rightarrow> field option" where
  "find_field nodes path =
     (let segments = filter (\<lambda>s. s \<noteq> []) (split_on (CHR ''.'') path)
      in if segments = [] then None else map_option last (get_field_trail nodes segments))"

text \<open>The kinds a type is capable of, and the schema of a type.\<close>

record rule_provider =
  rp_type :: "string \<Rightarrow> js_error + source_kind list option"
  rp_schema :: "string \<times> source_kind \<Rightarrow> js_error + resource_type_schema option"

text \<open>The two caches; what has been asked once is not asked again.\<close>

record rule_caches =
  rc_types :: "(string \<times> source_kind list option) list"
  rc_schemas :: "((string \<times> source_kind) \<times> resource_type_schema option) list"

definition cached :: "('k \<Rightarrow> js_error + 'v) \<Rightarrow> 'k \<Rightarrow> ('k \<times> 'v) list \<Rightarrow> js_error + 'v \<times> ('k \<times> 'v) list" where
  "cached ask k cache =
     (case map_of cache k of
        Some v \<Rightarrow> Inr (v, cache)
      | None \<Rightarrow> res_bind (ask k) (\<lambda>v. Inr (v, AList.update k v cache)))"

definition cached_type :: "rule_provider \<Rightarrow> string \<Rightarrow> rule_caches \<Rightarrow> js_error + source_kind list option \<times> rule_caches" where
  "cached_type rp ty c = res_bind (cached (rp_type rp) ty (rc_types c)) (\<lambda>(v, types). Inr (v, c\<lparr> rc_types := types \<rparr>))"

definition cached_schema :: "rule_provider \<Rightarrow> string \<times> source_kind \<Rightarrow> rule_caches \<Rightarrow> js_error + resource_type_schema option \<times> rule_caches" where
  "cached_schema rp k c = res_bind (cached (rp_schema rp) k (rc_schemas c)) (\<lambda>(v, schemas). Inr (v, c\<lparr> rc_schemas := schemas \<rparr>))"

text \<open>The type the rules are generated for.\<close>

record generated_type =
  gt_kind :: source_kind
  gt_type :: string
  gt_schema :: resource_type_schema

definition is_generated :: "generated_type \<Rightarrow> rule_endpoint \<Rightarrow> bool" where
  "is_generated g e \<longleftrightarrow> ep_kind e = gt_kind g \<and> ep_type e = gt_type g"

record endpoint_info =
  ei_schema :: "resource_type_schema option"
  ei_field :: "field option"

definition info_of :: "rule_endpoint \<Rightarrow> resource_type_schema option \<Rightarrow> endpoint_info" where
  "info_of e schema = \<lparr> ei_schema = schema, ei_field = Option.bind schema (\<lambda>s. find_field (ts_fields s) (ep_path e)) \<rparr>"

definition schema_path_info_for_endpoint ::
  "rule_provider \<Rightarrow> generated_type \<Rightarrow> rule_endpoint \<Rightarrow> rule_caches \<Rightarrow> js_error + endpoint_info \<times> rule_caches" where
  "schema_path_info_for_endpoint rp g e c =
     res_bind (if is_generated g e then Inr (Some (gt_schema g), c) else cached_schema rp (ep_type e, ep_kind e) c)
       (\<lambda>(schema, c). Inr (info_of e schema, c))"

definition own_identity_pair_issue :: "rule_endpoint \<Rightarrow> endpoint_info \<Rightarrow> rule_endpoint \<Rightarrow> endpoint_info \<Rightarrow> bool" where
  "own_identity_pair_issue source si target ti \<longleftrightarrow>
     \<not> (ep_kind source = ep_kind target \<and> ep_type source = ep_type target) \<and> ep_path source = ep_path target \<and>
     (case (ei_field si, ei_field ti) of
        (Some (AttributeField n a cs), Some (AttributeField n' a' cs')) \<Rightarrow> af_computed a \<and> af_computed a'
      | _ \<Rightarrow> False)"

definition rule_path :: "nat \<Rightarrow> string \<Rightarrow> string" where
  "rule_path index rest = ''rules.'' @ nat_str index @ rest"

definition endpoint_issues :: "nat \<Rightarrow> string \<Rightarrow> rule_endpoint \<Rightarrow> bool \<Rightarrow> endpoint_info \<Rightarrow> issue list" where
  "endpoint_issues index name e known info =
     (if known then []
      else [\<lparr> is_path = rule_path index (''.'' @ name @ ''.type''), is_message = ''Endpoint type is not present in the provider type set.'',
        is_value = JStr (ep_type e),
        is_expected = Some (JStr (''A '' @ kind_str (ep_kind e) @ '' type returned by provider type discovery.'')) \<rparr>]) @
     (if ei_schema info \<noteq> None \<and> ei_field info = None
      then [\<lparr> is_path = rule_path index (''.'' @ name @ ''.path''), is_message = ''Endpoint path is not present in the endpoint schema.'',
        is_value = JStr (ep_path e), is_expected = Some (JStr ''A dotted path from the endpoint schema.'') \<rparr>]
      else [])"

definition check_endpoint ::
  "rule_provider \<Rightarrow> generated_type \<Rightarrow> nat \<Rightarrow> string \<Rightarrow> rule_endpoint \<Rightarrow> rule_caches \<Rightarrow> js_error + (endpoint_info \<times> issue list) \<times> rule_caches" where
  "check_endpoint rp g index name e c =
     res_bind (schema_path_info_for_endpoint rp g e c) (\<lambda>(info, c).
     res_bind (if is_generated g e then Inr (None, c) else cached_type rp (ep_type e) c) (\<lambda>(kinds, c).
     Inr ((info, endpoint_issues index name e
       (is_generated g e \<or> (case kinds of Some ks \<Rightarrow> ep_kind e \<in> set ks | None \<Rightarrow> False)) info), c)))"

definition rule_issues :: "generated_type \<Rightarrow> bool \<Rightarrow> nat \<Rightarrow> 'a relationship_rule_scheme \<Rightarrow> endpoint_info \<Rightarrow> endpoint_info \<Rightarrow> issue list" where
  "rule_issues g must_be_source index r si ti =
     (if own_identity_pair_issue (ru_source r) si (ru_target r) ti
      then [\<lparr> is_path = rule_path index [],
        is_message = ''Endpoint paths compare two computed own-identity fields from different endpoint types. Use the field that stores the other endpoint'' @ [CHR 0x27] @ ''s runtime identity instead.'',
        is_value = rule_json r,
        is_expected = Some (JStr ''One endpoint should be a reference/host/association field whose runtime value can equal the other endpoint identity.'') \<rparr>]
      else []) @
     (if must_be_source \<and> \<not> is_generated g (ru_source r)
      then [\<lparr> is_path = rule_path index ''.source'', is_message = ''The source endpoint must match the generated provider type.'',
        is_value = endpoint_json (ru_source r),
        is_expected = Some (JObj [(''kind'', JStr (kind_str (gt_kind g))), (''type'', JStr (gt_type g))]) \<rparr>]
      else [])"

definition check_rule ::
  "rule_provider \<Rightarrow> generated_type \<Rightarrow> bool \<Rightarrow> nat \<Rightarrow> 'a relationship_rule_scheme \<Rightarrow> rule_caches \<Rightarrow> js_error + issue list \<times> rule_caches" where
  "check_rule rp g must_be_source index r c =
     res_bind (check_endpoint rp g index ''source'' (ru_source r) c) (\<lambda>((si, issues), c).
     res_bind (check_endpoint rp g index ''target'' (ru_target r) c) (\<lambda>((ti, issues'), c).
     Inr (issues @ issues' @ rule_issues g must_be_source index r si ti, c)))"

fun check_rules ::
  "rule_provider \<Rightarrow> generated_type \<Rightarrow> bool \<Rightarrow> nat \<Rightarrow> 'a relationship_rule_scheme list \<Rightarrow> rule_caches \<Rightarrow> js_error + issue list" where
  "check_rules rp g must_be_source index [] c = Inr []"
| "check_rules rp g must_be_source index (r # rs) c =
     res_bind (check_rule rp g must_be_source index r c) (\<lambda>(issues, c).
     res_bind (check_rules rp g must_be_source (index + 1) rs c) (\<lambda>rest. Inr (issues @ rest)))"

definition validate_relationship_rules_provider_schema ::
  "rule_provider \<Rightarrow> generated_type \<Rightarrow> bool \<Rightarrow> 'a relationship_rule_scheme list \<Rightarrow> js_error + issue list" where
  "validate_relationship_rules_provider_schema rp g must_be_source rules =
     check_rules rp g must_be_source 0 rules \<lparr> rc_types = [], rc_schemas = [] \<rparr>"

text \<open>The identity of a rule, joined with NUL characters.\<close>

definition rule_identity :: "'a relationship_rule_scheme \<Rightarrow> string" where
  "rule_identity r = join_with [CHR 0x00]
     [kind_str (ep_kind (ru_source r)), ep_type (ru_source r), ep_path (ru_source r),
      kind_str (ep_kind (ru_target r)), ep_type (ru_target r), ep_path (ru_target r), role_str (ru_role r)]"

fun uniqueness_issues :: "nat \<Rightarrow> (string \<times> nat) list \<Rightarrow> relationship_rule list \<Rightarrow> issue list" where
  "uniqueness_issues index seen [] = []"
| "uniqueness_issues index seen (r # rs) =
     (case map_of seen (rule_identity r) of
        Some first \<Rightarrow>
          \<lparr> is_path = rule_path index [], is_message = ''No two relationship rules may share source, target, and relationship.'',
            is_value = rule_json r,
            is_expected = Some (JStr (''Duplicate of rules.'' @ nat_str first @ ''; keep one rule for this identity.'')) \<rparr>
          # uniqueness_issues (index + 1) seen rs
      | None \<Rightarrow> uniqueness_issues (index + 1) ((rule_identity r, index) # seen) rs)"

definition validate_relationship_rule_identity_uniqueness :: "relationship_rule list \<Rightarrow> issue list" where
  "validate_relationship_rule_identity_uniqueness rules = uniqueness_issues 0 [] rules"

section \<open>The fields shown to the model (context.ts)\<close>

record prompt_field =
  pf_path :: string
  pf_type :: jsval
  pf_required :: bool
  pf_optional :: bool
  pf_computed :: bool
  pf_description :: "string option"

definition prompt_field_of :: "field_name \<Rightarrow> attribute_facts \<Rightarrow> prompt_field" where
  "prompt_field_of n a =
     \<lparr> pf_path = fn_path n, pf_type = af_type a, pf_required = af_required a, pf_optional = af_optional a,
       pf_computed = af_computed a, pf_description = truthy (af_description a) \<rparr>"

fun visit_prompt_fields :: "nat \<Rightarrow> nat \<Rightarrow> nat \<Rightarrow> field list \<Rightarrow> prompt_field list \<Rightarrow> prompt_field list" where
  "visit_prompt_fields limit max_depth depth [] out = out"
| "visit_prompt_fields limit max_depth depth (AttributeField n a cs # fs) out =
     (if length out \<ge> limit then out else visit_prompt_fields limit max_depth depth fs (out @ [prompt_field_of n a]))"
| "visit_prompt_fields limit max_depth depth (BlockField n b cs # fs) out =
     (if length out \<ge> limit then out
      else visit_prompt_fields limit max_depth depth fs
        (if depth + 1 > max_depth then out else visit_prompt_fields limit max_depth (depth + 1) cs out))"

definition collect_relationship_prompt_fields :: "field list \<Rightarrow> nat \<Rightarrow> nat \<Rightarrow> prompt_field list" where
  "collect_relationship_prompt_fields tree limit max_depth = visit_prompt_fields limit max_depth 0 tree []"

definition collect_source_relationship_prompt_fields :: "field list \<Rightarrow> prompt_field list" where
  "collect_source_relationship_prompt_fields tree = collect_relationship_prompt_fields tree 180 4"

definition collect_target_relationship_prompt_fields :: "field list \<Rightarrow> prompt_field list" where
  "collect_target_relationship_prompt_fields tree = collect_relationship_prompt_fields tree 120 2"

text \<open>The results of a search: each type with the kinds it has.\<close>

definition search_provider_types :: "nat \<Rightarrow> (string \<times> source_kind list) list \<Rightarrow> (string \<times> source_kind) list" where
  "search_provider_types limit results = take limit (concat (map (\<lambda>(ty, kinds). map (Pair ty) kinds) results))"

definition get_provider_type_schema :: "rule_provider \<Rightarrow> string \<Rightarrow> source_kind \<Rightarrow> js_error + prompt_field list option" where
  "get_provider_type_schema rp ty kind =
     map_sum id (map_option (\<lambda>s. collect_target_relationship_prompt_fields (ts_fields s))) (rp_schema rp (ty, kind))"

section \<open>Stored rules (block.ts)\<close>

definition get_relationship_rules_artifact_output :: "(string \<Rightarrow> string) \<Rightarrow> relationship_rule list \<Rightarrow> artifact_rule list" where
  "get_relationship_rules_artifact_output digest rules = map (\<lambda>r.
     \<lparr> ru_source = ru_source r, ru_target = ru_target r, ru_role = ru_role r, ru_key = digest (rule_identity r) \<rparr>) rules"

datatype generation_status = StatusReady | StatusMissing | StatusGenerating | StatusFailed | StatusRejected

fun generation_status_from_artifact :: "artifact_status option \<Rightarrow> generation_status" where
  "generation_status_from_artifact (Some ArtifactReady) = StatusReady"
| "generation_status_from_artifact (Some ArtifactPending) = StatusGenerating"
| "generation_status_from_artifact (Some ArtifactRunning) = StatusGenerating"
| "generation_status_from_artifact (Some ArtifactFailed) = StatusFailed"
| "generation_status_from_artifact (Some ArtifactRejected) = StatusRejected"
| "generation_status_from_artifact _ = StatusMissing"

section \<open>Ready rules (query.ts)\<close>

text \<open>\<open>safe_parse\<close> is \<open>relationshipRulesArtifactSchema.safeParse\<close>, \<open>None\<close> when it fails.\<close>

definition get_ready_relationship_rules ::
  "(jsval \<Rightarrow> artifact_rule list option) \<Rightarrow> string \<Rightarrow> source_kind \<Rightarrow> string \<Rightarrow> string \<Rightarrow> (string \<times> artifact_rule list) option tb" where
  "get_ready_relationship_rules safe_parse provider kind ty schema_hash =
     eff_bind (pg_find_active_artifact (RELATIONSHIP_RULES_BLOCK_NAME, RELATIONSHIP_RULES_BLOCK_VERSION,
       relationship_rules_identity_key provider kind ty schema_hash)) (\<lambda>found.
     eff_return (Option.bind found (\<lambda>a. map_option (Pair (ta_id a)) (safe_parse (ta_output a)))))"

definition involves :: "generated_type \<Rightarrow> 'a relationship_rule_scheme \<Rightarrow> bool" where
  "involves g r \<longleftrightarrow> is_generated g (ru_source r) \<or> is_generated g (ru_target r)"

text \<open>The latest first; a row without \<open>readyAt\<close> before all.\<close>

definition ready_order :: "artifact list \<Rightarrow> artifact list" where
  "ready_order xs =
     (let sorted = sort_key (\<lambda>a. - ta_created_at a) xs
      in filter (\<lambda>a. ta_ready_at a = None) sorted @
         sort_key (\<lambda>a. case ta_ready_at a of None \<Rightarrow> 0 | Some t \<Rightarrow> - t) (filter (\<lambda>a. ta_ready_at a \<noteq> None) sorted))"

definition harvest_limit :: "nat option \<Rightarrow> nat" where
  "harvest_limit limit = min (max ((case limit of None \<Rightarrow> 40 | Some n \<Rightarrow> n) * 4) 40) 200"

definition ready_rows_of :: "string \<Rightarrow> tb_store \<Rightarrow> artifact list" where
  "ready_rows_of prefix s = ready_order (filter (\<lambda>a. ta_block a = RELATIONSHIP_RULES_BLOCK_NAME \<and>
     ta_version a = RELATIONSHIP_RULES_BLOCK_VERSION \<and> ta_status a = ArtifactReady \<and>
     take (length prefix) (ta_identity a) = prefix) (ts_artifacts s))"

text \<open>The keys seen and the rules so far; \<open>Inl\<close> is the early return.\<close>

type_synonym harvest = "artifact_rule list + string list \<times> artifact_rule list"

definition limit_reached :: "nat option \<Rightarrow> artifact_rule list \<Rightarrow> bool" where
  "limit_reached limit rules \<longleftrightarrow> (case limit of None \<Rightarrow> False | Some n \<Rightarrow> n > 0 \<and> length rules \<ge> n)"

fun harvest_rules ::
  "rule_provider \<Rightarrow> generated_type \<Rightarrow> nat option \<Rightarrow> artifact_rule list \<Rightarrow> string list \<times> artifact_rule list \<Rightarrow> js_error + harvest" where
  "harvest_rules rp g limit [] acc = Inr (Inr acc)"
| "harvest_rules rp g limit (r # rs) (seen, rules) =
     (if \<not> involves g r then harvest_rules rp g limit rs (seen, rules)
      else
        res_bind (validate_relationship_rules_provider_schema rp g False [r]) (\<lambda>issues.
        if issues \<noteq> [] \<or> ru_key r \<in> set seen then harvest_rules rp g limit rs (seen, rules)
        else if limit_reached limit (rules @ [r]) then Inr (Inl (rules @ [r]))
        else harvest_rules rp g limit rs (ru_key r # seen, rules @ [r])))"

fun harvest_rows ::
  "(jsval \<Rightarrow> artifact_rule list option) \<Rightarrow> rule_provider \<Rightarrow> generated_type \<Rightarrow> nat option \<Rightarrow> string list \<Rightarrow>
   artifact list \<Rightarrow> string list \<times> artifact_rule list \<Rightarrow> js_error + artifact_rule list" where
  "harvest_rows safe_parse rp g limit seen_artifacts [] (seen, rules) = Inr rules"
| "harvest_rows safe_parse rp g limit seen_artifacts (a # as) acc =
     (if ta_identity a \<in> set seen_artifacts then harvest_rows safe_parse rp g limit seen_artifacts as acc
      else case safe_parse (ta_output a) of
        None \<Rightarrow> harvest_rows safe_parse rp g limit seen_artifacts as acc
      | Some rs \<Rightarrow>
          res_bind (harvest_rules rp g limit rs acc) (\<lambda>h.
            case h of
              Inl rules \<Rightarrow> Inr rules
            | Inr acc \<Rightarrow> harvest_rows safe_parse rp g limit (ta_identity a # seen_artifacts) as acc))"

definition get_ready_relationship_rules_involving ::
  "(jsval \<Rightarrow> artifact_rule list option) \<Rightarrow> rule_provider \<Rightarrow> string \<Rightarrow> generated_type \<Rightarrow> string \<Rightarrow> nat option \<Rightarrow> artifact_rule list tb" where
  "get_ready_relationship_rules_involving safe_parse rp provider g schema_hash limit =
     eff_bind (get_ready_relationship_rules safe_parse provider (gt_kind g) (gt_type g) schema_hash) (\<lambda>ready.
     eff_bind (eff_get (\<lambda>s. take (harvest_limit limit)
       (ready_rows_of (relationship_rules_identity_prefix provider (gt_kind g) (gt_type g)) s))) (\<lambda>rows.
     (let own = (case ready of None \<Rightarrow> [] | Some (k, rs) \<Rightarrow> rs)
      in eff_lift (harvest_rows safe_parse rp g limit [] rows (map ru_key own, own)))))"

text \<open>Starting a generation: what is ready, or the status of the artifact the block has or queues.\<close>

definition start_relationship_rules_generation ::
  "(jsval \<Rightarrow> artifact_rule list option) \<Rightarrow> block \<Rightarrow> schedule \<Rightarrow> string \<Rightarrow> generated_type \<Rightarrow> string \<Rightarrow> string option \<Rightarrow> jsval \<Rightarrow>
   generation_status act" where
  "start_relationship_rules_generation safe_parse b sh provider g schema_hash trigger input =
     eff_bind (on_store (get_ready_relationship_rules safe_parse provider (gt_kind g) (gt_type g) schema_hash)) (\<lambda>ready.
     if ready \<noteq> None then eff_return StatusReady
     else
       eff_bind (get_artifact b sh BackgroundMode
         (no_options\<lparr> qo_trigger := (case trigger of None \<Rightarrow> Some ''relationship_rules'' | Some t \<Rightarrow> Some t) \<rparr>) input) (\<lambda>answer.
       eff_return (generation_status_from_artifact (case answer of Lookup l \<Rightarrow> lk_status l | Result r \<Rightarrow> None))))"

section \<open>Rules by the field that holds the handle (resources/artifacts.ts)\<close>

text \<open>\<open>byPath[path] ?? []\<close> finds an inherited member for its name, and \<open>push\<close> throws on it.\<close>

definition add_by_path :: "artifact_rule \<Rightarrow> (string \<times> artifact_rule list) list \<Rightarrow> js_error + (string \<times> artifact_rule list) list" where
  "add_by_path r by_path =
     (let path = ep_path (ru_source r)
      in case map_of by_path path of
           Some rs \<Rightarrow> Inr (AList.update path (rs @ [r]) by_path)
         | None \<Rightarrow> if inherited_name path then Inl (PlainError ''list.push is not a function'') else Inr (AList.update path [r] by_path))"

definition rules_by_holder_path ::
  "artifact_rule list \<Rightarrow> string list \<Rightarrow> source_kind \<Rightarrow> string \<Rightarrow> js_error + (string \<times> artifact_rule list) list" where
  "rules_by_holder_path rules settable kind ty =
     fold_res add_by_path (filter (\<lambda>r. ep_kind (ru_source r) = kind \<and> ep_type (ru_source r) = ty \<and>
       ep_path (ru_source r) \<in> set settable) rules) []"

end
