(* ===== verification/RelationshipProps.thy ===== *)
theory RelationshipProps
  imports RelationshipRules
begin

text \<open>
  What the validation of relationship rules accepts, whatever is in its caches, and which rules a type is
  given: its own, then fitting rules that involve it, each once and up to a limit.
\<close>

section \<open>Accepted rules\<close>

text \<open>A provider that answers every question.\<close>

definition answering :: "(string \<Rightarrow> source_kind list option) \<Rightarrow> (string \<times> source_kind \<Rightarrow> resource_type_schema option) \<Rightarrow> rule_provider" where
  "answering kinds schemas = \<lparr> rp_type = (\<lambda>ty. Inr (kinds ty)), rp_schema = (\<lambda>k. Inr (schemas k)) \<rparr>"

definition caches_ok ::
  "(string \<Rightarrow> source_kind list option) \<Rightarrow> (string \<times> source_kind \<Rightarrow> resource_type_schema option) \<Rightarrow> rule_caches \<Rightarrow> bool" where
  "caches_ok kinds schemas c \<longleftrightarrow> (\<forall>ty v. map_of (rc_types c) ty = Some v \<longrightarrow> v = kinds ty) \<and>
     (\<forall>k v. map_of (rc_schemas c) k = Some v \<longrightarrow> v = schemas k)"

text \<open>What is asked of an endpoint and of a rule.\<close>

definition schema_at :: "(string \<times> source_kind \<Rightarrow> resource_type_schema option) \<Rightarrow> generated_type \<Rightarrow> rule_endpoint \<Rightarrow> resource_type_schema option" where
  "schema_at schemas g e = (if is_generated g e then Some (gt_schema g) else schemas (ep_type e, ep_kind e))"

definition endpoint_fits ::
  "(string \<Rightarrow> source_kind list option) \<Rightarrow> (string \<times> source_kind \<Rightarrow> resource_type_schema option) \<Rightarrow> generated_type \<Rightarrow> rule_endpoint \<Rightarrow> bool" where
  "endpoint_fits kinds schemas g e \<longleftrightarrow>
     (is_generated g e \<or> (\<exists>ks. kinds (ep_type e) = Some ks \<and> ep_kind e \<in> set ks)) \<and>
     (\<forall>s. schema_at schemas g e = Some s \<longrightarrow> find_field (ts_fields s) (ep_path e) \<noteq> None)"

definition rule_fits ::
  "(string \<Rightarrow> source_kind list option) \<Rightarrow> (string \<times> source_kind \<Rightarrow> resource_type_schema option) \<Rightarrow> generated_type \<Rightarrow> bool \<Rightarrow>
   'a relationship_rule_scheme \<Rightarrow> bool" where
  "rule_fits kinds schemas g must_be_source r \<longleftrightarrow>
     endpoint_fits kinds schemas g (ru_source r) \<and> endpoint_fits kinds schemas g (ru_target r) \<and>
     \<not> own_identity_pair_issue (ru_source r) (info_of (ru_source r) (schema_at schemas g (ru_source r)))
         (ru_target r) (info_of (ru_target r) (schema_at schemas g (ru_target r))) \<and>
     (must_be_source \<longrightarrow> is_generated g (ru_source r))"

lemma cached_type_answering:
  assumes "caches_ok kinds schemas c"
  shows "\<exists>c'. cached_type (answering kinds schemas) ty c = Inr (kinds ty, c') \<and> caches_ok kinds schemas c'"
  using assms by (cases "map_of (rc_types c) ty") (auto simp: cached_type_def cached_def answering_def caches_ok_def update_conv')

lemma cached_schema_answering:
  assumes "caches_ok kinds schemas c"
  shows "\<exists>c'. cached_schema (answering kinds schemas) k c = Inr (schemas k, c') \<and> caches_ok kinds schemas c'"
  using assms by (cases k; cases "map_of (rc_schemas c) k") (auto simp: cached_schema_def cached_def answering_def caches_ok_def update_conv' split: if_splits)

lemma check_endpoint_answering:
  assumes "caches_ok kinds schemas c"
  shows "\<exists>issues c'. check_endpoint (answering kinds schemas) g i name e c = Inr ((info_of e (schema_at schemas g e), issues), c') \<and>
    caches_ok kinds schemas c' \<and> (issues = [] \<longleftrightarrow> endpoint_fits kinds schemas g e)"
proof -
  obtain c1 where c1: "schema_path_info_for_endpoint (answering kinds schemas) g e c = Inr (info_of e (schema_at schemas g e), c1)"
    "caches_ok kinds schemas c1"
  proof (cases "is_generated g e")
    case True
    with assms that show ?thesis by (simp add: schema_path_info_for_endpoint_def schema_at_def)
  next
    case False
    with cached_schema_answering [OF assms, of "(ep_type e, ep_kind e)"] that show ?thesis
      by (auto simp: schema_path_info_for_endpoint_def schema_at_def)
  qed
  obtain ks c2 where c2: "(if is_generated g e then Inr (None, c1) else cached_type (answering kinds schemas) (ep_type e) c1) = Inr (ks, c2)"
    "caches_ok kinds schemas c2" "\<not> is_generated g e \<Longrightarrow> ks = kinds (ep_type e)"
    using cached_type_answering [OF c1(2), of "ep_type e"] c1(2) that by (cases "is_generated g e") auto
  have "endpoint_issues i name e (is_generated g e \<or> (case ks of Some ks \<Rightarrow> ep_kind e \<in> set ks | None \<Rightarrow> False))
      (info_of e (schema_at schemas g e)) = [] \<longleftrightarrow> endpoint_fits kinds schemas g e"
    using c2(3) by (cases "is_generated g e") (auto simp: endpoint_issues_def endpoint_fits_def info_of_def split: option.splits)
  with c1(1) c2(1,2) show ?thesis by (simp add: check_endpoint_def)
qed

lemma check_rule_answering:
  assumes "caches_ok kinds schemas c"
  shows "\<exists>issues c'. check_rule (answering kinds schemas) g must i r c = Inr (issues, c') \<and> caches_ok kinds schemas c' \<and>
    (issues = [] \<longleftrightarrow> rule_fits kinds schemas g must r)"
proof -
  obtain is1 c1 where s: "check_endpoint (answering kinds schemas) g i ''source'' (ru_source r) c =
      Inr ((info_of (ru_source r) (schema_at schemas g (ru_source r)), is1), c1)" "caches_ok kinds schemas c1"
    "is1 = [] \<longleftrightarrow> endpoint_fits kinds schemas g (ru_source r)"
    using check_endpoint_answering [OF assms] by blast
  obtain is2 c2 where t: "check_endpoint (answering kinds schemas) g i ''target'' (ru_target r) c1 =
      Inr ((info_of (ru_target r) (schema_at schemas g (ru_target r)), is2), c2)" "caches_ok kinds schemas c2"
    "is2 = [] \<longleftrightarrow> endpoint_fits kinds schemas g (ru_target r)"
    using check_endpoint_answering [OF s(2)] by blast
  show ?thesis using s t by (auto simp: check_rule_def rule_issues_def rule_fits_def)
qed

lemma rules_accepted_iff:
  "\<exists>issues. validate_relationship_rules_provider_schema (answering kinds schemas) g must rules = Inr issues \<and>
     (issues = [] \<longleftrightarrow> list_all (rule_fits kinds schemas g must) rules)"
proof -
  have "\<exists>issues. check_rules (answering kinds schemas) g must i rules c = Inr issues \<and>
      (issues = [] \<longleftrightarrow> list_all (rule_fits kinds schemas g must) rules)" if "caches_ok kinds schemas c" for i c
    using that
  proof (induction rules arbitrary: i c)
    case (Cons r rs)
    from check_rule_answering [OF Cons.prems] obtain is1 c1 where
      r: "check_rule (answering kinds schemas) g must i r c = Inr (is1, c1)" "caches_ok kinds schemas c1"
      "is1 = [] \<longleftrightarrow> rule_fits kinds schemas g must r" by blast
    from Cons.IH [OF r(2)] obtain is2 where "check_rules (answering kinds schemas) g must (i + 1) rs c1 = Inr is2"
      "is2 = [] \<longleftrightarrow> list_all (rule_fits kinds schemas g must) rs" by blast
    with r show ?case by simp
  qed simp
  then show ?thesis unfolding validate_relationship_rules_provider_schema_def by (simp add: caches_ok_def)
qed

section \<open>The rules of a type\<close>

text \<open>The first element of each key.\<close>

fun first_by :: "('a \<Rightarrow> 'k) \<Rightarrow> 'a list \<Rightarrow> 'a list" where
  "first_by f [] = []"
| "first_by f (x # xs) = x # filter (\<lambda>y. f y \<noteq> f x) (first_by f xs)"

lemma first_by_filter_key: "filter (\<lambda>y. P (f y)) (first_by f xs) = first_by f (filter (\<lambda>y. P (f y)) xs)"
proof (induction xs)
  case (Cons x xs)
  have "filter (\<lambda>y. P (f y)) (filter (\<lambda>y. f y \<noteq> f x) (first_by f xs)) = filter (\<lambda>y. f y \<noteq> f x) (filter (\<lambda>y. P (f y)) (first_by f xs))"
    by (simp add: conj_commute)
  moreover have "\<not> P (f x) \<Longrightarrow> filter (\<lambda>y. P (f y) \<and> f y \<noteq> f x) (first_by f xs) = filter (\<lambda>y. P (f y)) (first_by f xs)"
    by (rule filter_cong) auto
  ultimately show ?case using Cons by (auto simp: conj_commute)
qed simp

lemma first_by_key_distinct: "distinct (map f (first_by f xs))"
  by (induction xs) (auto simp: distinct_map intro: inj_on_subset)

text \<open>The rows of one identity that parse: the first counts. Of their rules, those that involve the type and are
  accepted, whose key is not among the given ones, each once.\<close>

definition offered_rules :: "(jsval \<Rightarrow> artifact_rule list option) \<Rightarrow> string list \<Rightarrow> artifact list \<Rightarrow> artifact_rule list" where
  "offered_rules safe_parse gone rows =
     concat (map (\<lambda>a. the (safe_parse (ta_output a)))
       (first_by ta_identity (filter (\<lambda>a. safe_parse (ta_output a) \<noteq> None \<and> ta_identity a \<notin> set gone) rows)))"

definition fresh_rules :: "(artifact_rule \<Rightarrow> bool) \<Rightarrow> string list \<Rightarrow> artifact_rule list \<Rightarrow> artifact_rule list" where
  "fresh_rules fits seen rules = first_by ru_key (filter (\<lambda>r. fits r \<and> ru_key r \<notin> set seen) rules)"

lemma fresh_keys_distinct: "distinct (map ru_key (fresh_rules fits seen rs))"
  by (simp add: fresh_rules_def first_by_key_distinct)

text \<open>A limit is looked at after a rule is added: the first one is added whatever there is.\<close>

definition room_for :: "nat option \<Rightarrow> nat \<Rightarrow> nat option" where
  "room_for limit count = (case limit of None \<Rightarrow> None | Some n \<Rightarrow> if n = 0 then None else Some (max 1 (n - count)))"

definition take_room :: "nat option \<Rightarrow> 'a list \<Rightarrow> 'a list" where
  "take_room room rules = (case room of None \<Rightarrow> rules | Some m \<Rightarrow> take m rules)"

lemma offered_rules_simps:
  "offered_rules safe_parse gone [] = []"
  "offered_rules safe_parse gone (a # as) =
     (if ta_identity a \<in> set gone then offered_rules safe_parse gone as
      else case safe_parse (ta_output a) of
        None \<Rightarrow> offered_rules safe_parse gone as
      | Some rs \<Rightarrow> rs @ offered_rules safe_parse (ta_identity a # gone) as)"
  using first_by_filter_key [of "\<lambda>k. k \<noteq> ta_identity a" ta_identity
      "filter (\<lambda>a. safe_parse (ta_output a) \<noteq> None \<and> ta_identity a \<notin> set gone) as"]
  by (auto simp: offered_rules_def conj_commute conj_left_commute split: option.splits)

lemma fresh_rules_simps:
  "fresh_rules fits seen [] = []"
  "fresh_rules fits seen (r # rs) =
     (if fits r \<and> ru_key r \<notin> set seen then r # fresh_rules fits (ru_key r # seen) rs else fresh_rules fits seen rs)"
  using first_by_filter_key [of "\<lambda>k. k \<noteq> ru_key r" ru_key "filter (\<lambda>r. fits r \<and> ru_key r \<notin> set seen) rs"]
  by (auto simp: fresh_rules_def conj_commute conj_left_commute)

lemma fresh_rules_cong: "set seen = set seen' \<Longrightarrow> fresh_rules fits seen rs = fresh_rules fits seen' rs"
  by (simp add: fresh_rules_def)

lemma fresh_rules_append:
  "fresh_rules fits seen (rs @ rs') = fresh_rules fits seen rs @ fresh_rules fits (map ru_key (fresh_rules fits seen rs) @ seen) rs'"
proof (induction rs arbitrary: seen)
  case (Cons r rs)
  show ?case
    by (auto simp: fresh_rules_simps Cons.IH intro!: fresh_rules_cong)
qed (simp add: fresh_rules_simps)

text \<open>The loops compute this.\<close>

definition harvest_ends :: "nat option \<Rightarrow> artifact_rule list \<Rightarrow> string list \<times> artifact_rule list \<Rightarrow> harvest \<Rightarrow> bool" where
  "harvest_ends limit found acc h \<longleftrightarrow>
     (case h of
        Inl rules \<Rightarrow> (\<exists>m. room_for limit (length (snd acc)) = Some m \<and> m \<le> length found \<and> rules = snd acc @ take m found)
      | Inr (seen, rules) \<Rightarrow> (\<forall>m. room_for limit (length (snd acc)) = Some m \<longrightarrow> length found < m) \<and>
          rules = snd acc @ found \<and> set seen = ru_key ` set found \<union> set (fst acc))"

lemma harvest_ends_add:
  assumes "harvest_ends limit found (k # seen, rules @ [r]) h" "\<not> limit_reached limit (rules @ [r])" "k = ru_key r"
  shows "harvest_ends limit (r # found) (seen, rules) h"
proof -
  have room: "room_for limit (length rules) = map_option Suc (room_for limit (length (rules @ [r])))"
    using assms(2) by (auto simp: room_for_def limit_reached_def max_def split: option.splits)
  show ?thesis
    using assms(1,3) unfolding harvest_ends_def by (cases h) (auto simp: room)
qed

lemma harvest_rules_answering:
  "\<exists>h. harvest_rules (answering kinds schemas) g limit rs acc = Inr h \<and>
     harvest_ends limit (fresh_rules (\<lambda>r. involves g r \<and> rule_fits kinds schemas g False r) (fst acc) rs) acc h"
proof (induction rs arbitrary: acc)
  case Nil
  show ?case by (cases acc) (auto simp: harvest_ends_def fresh_rules_simps room_for_def split: option.splits if_splits)
next
  case (Cons r rs)
  obtain seen rules where acc: "acc = (seen, rules)" by (cases acc)
  obtain issues where v: "validate_relationship_rules_provider_schema (answering kinds schemas) g False [r] = Inr issues"
    "issues = [] \<longleftrightarrow> rule_fits kinds schemas g False r"
    using rules_accepted_iff [of kinds schemas g False "[r]"] by auto
  show ?case
  proof (cases "involves g r \<and> issues = [] \<and> ru_key r \<notin> set seen")
    case False
    with v acc Cons.IH [of acc] show ?thesis by (auto simp: fresh_rules_simps)
  next
    case True
    show ?thesis
    proof (cases "limit_reached limit (rules @ [r])")
      case reached: True
      then have "room_for limit (length rules) = Some 1"
        by (auto simp: room_for_def limit_reached_def max_def split: option.splits)
      with True reached v acc show ?thesis by (auto simp: fresh_rules_simps harvest_ends_def)
    next
      case False
      with True v acc Cons.IH [of "(ru_key r # seen, rules @ [r])"] show ?thesis
        by (auto simp: fresh_rules_simps intro: harvest_ends_add)
    qed
  qed
qed

lemma harvest_rows_answering:
  "harvest_rows safe_parse (answering kinds schemas) g limit gone as acc =
     Inr (snd acc @ take_room (room_for limit (length (snd acc)))
       (fresh_rules (\<lambda>r. involves g r \<and> rule_fits kinds schemas g False r) (fst acc) (offered_rules safe_parse gone as)))"
proof (induction as arbitrary: gone acc)
  case Nil
  show ?case by (cases acc) (simp add: offered_rules_simps fresh_rules_simps take_room_def split: option.splits)
next
  case (Cons a as)
  let ?fits = "\<lambda>r. involves g r \<and> rule_fits kinds schemas g False r"
  obtain seen rules where acc: "acc = (seen, rules)" by (cases acc)
  show ?case
  proof (cases "ta_identity a \<in> set gone \<or> safe_parse (ta_output a) = None")
    case True
    with Cons.IH acc show ?thesis by (auto simp: offered_rules_simps)
  next
    case False
    then obtain rs where rs: "safe_parse (ta_output a) = Some rs" by auto
    obtain h where h: "harvest_rules (answering kinds schemas) g limit rs acc = Inr h" "harvest_ends limit (fresh_rules ?fits seen rs) acc h"
      using harvest_rules_answering [of kinds schemas g limit rs acc] acc by auto
    show ?thesis
    proof (cases h)
      case (Inl out)
      with h rs False acc show ?thesis
        by (auto simp: offered_rules_simps harvest_ends_def fresh_rules_append take_room_def)
    next
      case (Inr acc')
      obtain seen' rules' where acc': "acc' = (seen', rules')" by (cases acc')
      have ended: "rules' = rules @ fresh_rules ?fits seen rs" "set seen' = set (map ru_key (fresh_rules ?fits seen rs) @ seen)"
        "\<And>m. room_for limit (length rules) = Some m \<Longrightarrow> length (fresh_rules ?fits seen rs) < m"
        using h(2) Inr acc acc' by (auto simp: harvest_ends_def)
      have "take_room (room_for limit (length rules)) (fresh_rules ?fits seen rs @ ys) =
          fresh_rules ?fits seen rs @ take_room (room_for limit (length rules')) ys" for ys
        using ended(1) ended(3) by (auto simp: take_room_def room_for_def max_def split: option.splits if_splits)
      with rs False acc acc' Inr h(1) Cons.IH [of "ta_identity a # gone" acc'] fresh_rules_cong [OF ended(2)] ended(1) show ?thesis
        by (simp add: offered_rules_simps fresh_rules_append)
    qed
  qed
qed

text \<open>C38: when the provider answers, the rules of a type are its own ready ones, in their order, then those of the
  latest parsed artifact of each identity of the type that involve it and fit its present schema, in the
  order of the artifacts, no key twice; with a limit, as many of these as there is room for, but at least
  one. Nothing is written. These are artifacts of the type itself only, since their identity starts with
  it: a rule that the artifact of another type holds about this type is not given, although a test of the
  repository expects it (\<open>other_types_not_given\<close> below).\<close>

theorem involving_rules_exact:
  "\<exists>ready own.
     get_ready_relationship_rules safe_parse provider (gt_kind g) (gt_type g) schema_hash s = (Inr ready, s) \<and>
     own = (case ready of None \<Rightarrow> [] | Some (k, rs) \<Rightarrow> rs) \<and>
     get_ready_relationship_rules_involving safe_parse (answering kinds schemas) provider g schema_hash limit s =
       (Inr (own @ take_room (room_for limit (length own))
          (fresh_rules (\<lambda>r. involves g r \<and> rule_fits kinds schemas g False r) (map ru_key own)
            (offered_rules safe_parse []
              (take (harvest_limit limit) (ready_rows_of (relationship_rules_identity_prefix provider (gt_kind g) (gt_type g)) s))))), s)"
proof -
  have "relationship_rules_identity_key provider (gt_kind g) (gt_type g) schema_hash \<noteq> []"
    by (simp add: relationship_rules_identity_key_def)
  then obtain ready where ready: "get_ready_relationship_rules safe_parse provider (gt_kind g) (gt_type g) schema_hash s = (Inr ready, s)"
    by (auto simp: get_ready_relationship_rules_def pg_find_active_artifact_def normalized_identity_def eff_simps)
  then show ?thesis
    by (auto simp: get_ready_relationship_rules_involving_def eff_simps Let_def harvest_rows_answering)
qed

text \<open>The artifacts of other types play no part: while a type has none of its own, it is given no rules,
  even if every other type has a ready rule that points at it. The test \<open>ready relationship query reads
  ready rules from other type artifacts\<close> of block.test.ts expects the rule of the gateway for the network.\<close>

lemma identity_starts:
  "relationship_rules_identity_key provider kind ty h = relationship_rules_identity_prefix provider kind ty @ h"
  by (simp add: relationship_rules_identity_key_def relationship_rules_identity_prefix_def)

lemma other_types_not_given:
  assumes "\<forall>a \<in> set (ts_artifacts s). take (length p) (ta_identity a) \<noteq> p"
    and "p = relationship_rules_identity_prefix provider (gt_kind g) (gt_type g)"
  shows "get_ready_relationship_rules_involving safe_parse rp provider g schema_hash limit s = (Inr [], s)"
proof -
  have "ready_rows_of p s = []"
    using assms(1) by (simp add: ready_rows_of_def ready_order_def filter_empty_conv)
  moreover have "filter (\<lambda>a. artifact_key a = (RELATIONSHIP_RULES_BLOCK_NAME, RELATIONSHIP_RULES_BLOCK_VERSION, p @ schema_hash) \<and>
      ta_status a = ArtifactReady) (ts_artifacts s) = []"
    using assms(1) by (auto simp: filter_empty_conv artifact_key_def)
  ultimately show ?thesis
    unfolding get_ready_relationship_rules_involving_def get_ready_relationship_rules_def
      pg_find_active_artifact_def identity_starts assms(2) [symmetric]
    by (auto simp: normalized_identity_def eff_simps first_row_def assms(2) relationship_rules_identity_prefix_def)
qed

lemma gateway_rules_not_given:
  assumes "gt_kind g = ResourceSource" "gt_type g = ''aws_vpc''"
    and "\<forall>a \<in> set (ts_artifacts s). \<exists>h. ta_identity a = relationship_rules_identity_key ''aws'' ResourceSource ''aws_internet_gateway'' h"
  shows "get_ready_relationship_rules_involving safe_parse rp ''aws'' g schema_hash limit s = (Inr [], s)"
  by (rule other_types_not_given [OF _ refl])
    (use assms in \<open>auto simp: identity_starts relationship_rules_identity_prefix_def\<close>)

text \<open>So with a limit the own rules are not cut, and they may be one more than the limit.\<close>

lemma involving_rules_bounded:
  assumes "limit = Some n" "n > 0"
  shows "length (own @ take_room (room_for limit (length own)) found) \<le> max n (length own + 1)"
  using assms by (auto simp: take_room_def room_for_def)

text \<open>A rule held by a field named like a member of \<open>Object.prototype\<close> makes the grouping throw.\<close>

lemma inherited_path_throws:
  assumes "inherited_name (ep_path (ru_source r))" "ep_path (ru_source r) \<in> set settable"
  shows "rules_by_holder_path [r] settable (ep_kind (ru_source r)) (ep_type (ru_source r)) = Inl (PlainError ''list.push is not a function'')"
  using assms by (simp add: rules_by_holder_path_def add_by_path_def)

section \<open>The fields of a prompt\<close>

lemma prompt_fields_bounded: "length out \<le> limit \<Longrightarrow> length (visit_prompt_fields limit max_depth depth fs out) \<le> limit"
  by (induction limit max_depth depth fs out rule: visit_prompt_fields.induct) (auto split: if_splits)

end
