(* ===== verification/Spec2Isabelle.thy ===== *)
theory Spec2Isabelle
  imports Levels Integrations ResourceState References Approval ErrorContract WorkflowTheorems LockTable ChangesetInvariant ScanSafety SseProps EventProps ThinkingProps ThinkingRunnerProps InputProps
    FieldArtifactProps RelationshipProps
begin

text \<open>
  A model of the core of opsy, the control plane that lets agents and people change cloud resources
  through Terraform providers, and of the library and the command line that share its contracts. The
  sources are TypeScript; paths are relative to the repository, \<open>api\<close> stands for apps/api/src.

  \<^bold>\<open>The program.\<close> A project has integrations (credentials of a provider) and resources. Every change of
  the cloud is an operation: a row that holds a lock of the project, is driven by a workflow through an
  approval gate and the calls of a provider, and is closed together with its resource. Resources refer to
  each other's outputs by \<open>$ref\<close> objects. A changeset stages several changes; each staged item is planned
  by a dry-run, and applying the changeset runs its items level by level along their references. A scan
  reads every resource of a project back and settles what has drifted. What happens is published on
  channels of the database, which the streams of the API forward to the web and to the command line.
  Beside that, thinking blocks produce artifacts by calling models and validating what they answer; a
  runner in each process works on the artifacts queued in a shared store.

  \<^bold>\<open>Foundations.\<close> \<open>Prelude\<close>: computations that may throw (\<open>'e + 'a\<close>), computations on a state that may
  throw (\<open>eff\<close>: the writes before a throw stay, those of a transaction do not), loops, JavaScript sets
  and maps as lists in insertion order, tables as lists of rows. \<open>JsValue\<close>: values of type \<open>unknown\<close>,
  with the reads of properties that find \<open>Object.prototype\<close>. \<open>Errors\<close>: the error classes thrown.
  \<open>Regex\<close>: the regular expressions of the sources with a matcher. \<open>Schema\<close>: the tables
  (api/lib/db/schema) and the database \<open>db\<close>; a timestamp column is modelled where the code reads it.

  \<^bold>\<open>Components.\<close>
  \<^item> References: \<open>Refs\<close> (api/lib/refs), \<open>References\<close> (api/resources/references.ts).
  \<^item> The provider schema of a type and what a read does to a row: \<open>FieldTree\<close> (packages/provider
    field-tree.ts), \<open>ResourceState\<close> (api/resources/state.ts, api/lib/json.ts).
  \<^item> \<open>Integrations\<close> (api/integrations), with provider references (api/provider-runtime/refs.ts).
  \<^item> Operations: \<open>Operations\<close> (api/operations/operations.ts), \<open>Approval\<close> (api/policies,
    api/operations/approval.ts), \<open>OperationErrors\<close> (how an error is recorded and classified).
    \<open>OperationFacts\<close> has the invariant of the tables and the life cycle, \<open>OperationProps\<close> single calls, and
    \<open>LockTable\<close> an abstract lock table whose events are the calls of the service.
  \<^item> Resource workflows: \<open>ResourceWorkflows\<close> (api/resources/workflows); \<open>Outcomes\<close> has the rules for
    the outcome of a computation, \<open>WorkflowProps\<close> and \<open>WorkflowTheorems\<close> what every run guarantees.
    \<open>ResourceService\<close> (api/resources/resources.ts) with \<open>ResourceServiceProps\<close>.
  \<^item> Changesets: \<open>Plan\<close> (api/changesets/plan.ts) with \<open>PlanOrder\<close>, \<open>PlanSafety\<close> and \<open>Levels\<close>;
    \<open>Validation\<close> (validation.ts) with \<open>ValidationProps\<close>; \<open>Changesets\<close> and \<open>ChangesetWrites\<close>
    (changesets.ts) with \<open>ChangesetProps\<close>; \<open>ChangesetWorkflows\<close> (the apply workflow) with \<open>ApplyProps\<close>;
    \<open>DryRuns\<close> with \<open>DryRunProps\<close>; \<open>ChangesetInvariant\<close> is the invariant all of them keep.
  \<^item> Projects and scans: \<open>Projects\<close> (api/projects/projects.ts), \<open>Scans\<close> (api/projects/workflows), with
    \<open>ScanProps\<close>, \<open>ScanOrder\<close> and \<open>ScanSafety\<close>.
  \<^item> The contract of errors between API and command line: \<open>ErrorContract\<close> (packages/contracts,
    api/middleware/error.ts, packages/cli core/errors.ts).
  \<^item> Streams: \<open>Notify\<close> (api/lib/notify.ts) with \<open>NotifyProps\<close>, \<open>Events\<close> (api/operations/sse.ts,
    api/events) with \<open>EventProps\<close>, \<open>Sse\<close> (the frames of api/lib/sse.ts and the parser of the command
    line) with \<open>SseProps\<close>.
  \<^item> Thinking blocks: \<open>ThinkingStore\<close> (the records and both stores) with \<open>ThinkingStoreProps\<close>,
    \<open>ThinkingBlock\<close> (packages/thinking-blocks thinking-block.ts) with \<open>ThinkingProps\<close>,
    \<open>ThinkingContract\<close> (what a block relies on of its store), and \<open>ThinkingRunner\<close>, the interleaving of
    the runners of all processes, with \<open>ThinkingRunnerProps\<close>.
  \<^item> The artifacts of a resource type (api/resources/artifacts): \<open>FieldArtifacts\<close> (what the validators of
    layouts and metadata of a form accept) with \<open>FieldArtifactProps\<close>, \<open>RelationshipRules\<close> (validation of
    the rules between types and their lookup) with \<open>RelationshipProps\<close>.
  \<^item> The inputs of the command line (packages/cli core/inputs): \<open>InputPaths\<close> (dot paths into a value, and
    the flags that set, reference and unset along them) with \<open>InputProps\<close>.

  \<^bold>\<open>Interfaces.\<close> A locale states what a client relies on and is interpreted on the model's definitions:
  \<open>topo_planner\<close> and \<open>levelled_planner\<close> (the order of a plan, by the apply planner), \<open>state_order\<close> with its
  extensions (how far a computation may move the database: statuses only move forward, locks held by
  others stay), \<open>thinking_store\<close> (the store of a block, by the store in memory and the one on the
  database, the latter for any rows that other transactions lock or have not committed).

  \<^bold>\<open>What runs outside\<close> is an argument: the clock and new ids as functions of the state or as
  values, the provider calls, schemas and catalogs (\<open>runtime\<close>, \<open>environment\<close>), the durable hook of an
  approval, Zod schemas as accept and answer functions, agents, validators and artifact adapters. Such a
  call may throw and may change the state as the theorem that uses it says, which is where other
  requests run: items of a level, reads of a scan and gets of \<open>getMany\<close>, which the code starts
  together, run one after the other, and interference is part of these calls. The bus and the
  runners, where interleaving matters most, are step relations whose steps are the code between two awaits.

  \<^bold>\<open>Termination.\<close> Loops are structural or have a measure. The loop of a scan is a \<open>partial_function\<close>:
  \<open>None\<close> is not returning, and \<open>ScanProps\<close> shows that it returns. The runs of dry-runs that
  start one another are a step relation, which \<open>DryRunProps\<close> shows to be finite when the
  items do not depend on each other in a circle. The attempts of a block are bounded by their maximum.
  \<open>wait_loop\<close> runs for a given number of turns, and a statement on it is for every number.

  \<^bold>\<open>Conventions.\<close> Strings are lists of code units below 256; dashes and ellipses in messages are written in
  ASCII. An order SQL leaves open is the order of insertion. \<open>pg_notify\<close>, the start, resume and cancel
  of a run are entries of a log and do not fail unless an argument says so. The reason of an abort
  and the stack of an error are not modelled.

  \<^bold>\<open>Not modelled\<close>: the user interfaces (apps/web, apps/landing, apps/thinking-block-ui) and their canvas;
  authentication, onboarding and the wiring of routes, which hand the work to third-party code; the Go
  bridge, its client and the management of its processes; the catalogs of providers, which read files and
  the environment; the prompts and agents of the artifacts; the verbs of the command line apart from its
  parser, input flags and errors; the audit pages of thinking blocks; infrastructure and scripts.
\<close>

end
